(* ===== verification/Prelude.thy ===== *)
theory Prelude
  imports Main
begin

text \<open>
  What every component shares: the result of an operation (a thrown error or a value, together
  with the database the operation leaves behind), the combinators the services are written
  with, the laws that let a property of a whole operation be read off its parts, and the
  list lemmas for tables.

  An operation is a function of the database. A JavaScript exception does \<^emph>\<open>not\<close> undo the
  writes made before it, so an error carries the database too; only a \<open>prisma.$transaction\<close>
  rolls back (\<open>transaction\<close> below).
\<close>

subsection \<open>Errors and operations\<close>

datatype error =
    AuthzError string nat   \<comment> \<open>\<open>AuthzError(message, status)\<close> of \<open>authz.ts\<close>\<close>
  | ThrownError string      \<comment> \<open>a plain \<open>throw new Error(message)\<close>\<close>
  | UniqueViolation string  \<comment> \<open>Prisma's P2002; the argument names the unique index\<close>
  | RecordNotFound          \<comment> \<open>Prisma's P2025: \<open>update\<close> of a row that is not there\<close>

type_synonym ('s, 'a) op = "'s \<Rightarrow> (error + 'a) \<times> 's"

definition ret :: "'a \<Rightarrow> ('s, 'a) op" where
  "ret x = (\<lambda>s. (Inr x, s))"

definition throw :: "error \<Rightarrow> ('s, 'a) op" where
  "throw e = (\<lambda>s. (Inl e, s))"

definition bindE :: "('s, 'a) op \<Rightarrow> ('a \<Rightarrow> ('s, 'b) op) \<Rightarrow> ('s, 'b) op" where
  "bindE m f = (\<lambda>s. case m s of (Inl e, t) \<Rightarrow> (Inl e, t) | (Inr x, t) \<Rightarrow> f x t)"

abbreviation thenE :: "('s, 'a) op \<Rightarrow> ('s, 'b) op \<Rightarrow> ('s, 'b) op" where
  "thenE m n \<equiv> bindE m (\<lambda>_. n)"

definition readE :: "('s \<Rightarrow> 'a) \<Rightarrow> ('s, 'a) op" where
  "readE f = (\<lambda>s. (Inr (f s), s))"

definition writeE :: "('s \<Rightarrow> 's) \<Rightarrow> ('s, unit) op" where
  "writeE f = (\<lambda>s. (Inr (), f s))"

definition assertE :: "bool \<Rightarrow> error \<Rightarrow> ('s, unit) op" where
  "assertE b e = (if b then ret () else throw e)"

definition whenE :: "bool \<Rightarrow> ('s, unit) op \<Rightarrow> ('s, unit) op" where
  "whenE b m = (if b then m else ret ())"

text \<open>The value of an \<open>option\<close> the code has just asserted to be present.\<close>

definition someE :: "error \<Rightarrow> 'a option \<Rightarrow> ('s, 'a) op" where
  "someE e x = (case x of None \<Rightarrow> throw e | Some y \<Rightarrow> ret y)"

text \<open>A pure computation that may throw, run inside an operation.\<close>

definition liftE :: "error + 'a \<Rightarrow> ('s, 'a) op" where
  "liftE r = (\<lambda>s. (r, s))"

text \<open>\<open>for (const x of xs) await f(x)\<close>: stops at the first error.\<close>

primrec forE :: "'x list \<Rightarrow> ('x \<Rightarrow> ('s, unit) op) \<Rightarrow> ('s, unit) op" where
  "forE [] f = ret ()"
| "forE (x # xs) f = thenE (f x) (forE xs f)"

text \<open>\<open>prisma.$transaction\<close>: an error rolls the database back.\<close>

definition transaction :: "('s, 'a) op \<Rightarrow> ('s, 'a) op" where
  "transaction m = (\<lambda>s. case m s of (Inl e, _) \<Rightarrow> (Inl e, s) | (Inr x, t) \<Rightarrow> (Inr x, t))"

text \<open>\<open>try { m } catch (e) { h(e) }\<close>.\<close>

definition catchE :: "('s, 'a) op \<Rightarrow> (error \<Rightarrow> ('s, 'a) op) \<Rightarrow> ('s, 'a) op" where
  "catchE m h = (\<lambda>s. case m s of (Inl e, t) \<Rightarrow> h e t | (Inr x, t) \<Rightarrow> (Inr x, t))"

lemmas op_defs = ret_def throw_def bindE_def readE_def writeE_def assertE_def whenE_def
  someE_def liftE_def transaction_def catchE_def

subsection \<open>Evaluating operations\<close>

text \<open>
  \<open>op_eval\<close> runs an operation on a concrete database from the left, without unfolding what is
  not reached; \<open>op_ok\<close> inverts "the operation returned \<open>x\<close> and left \<open>t\<close>".
\<close>

named_theorems op_eval
named_theorems op_ok

lemma ret_eval [op_eval]: "ret x s = (Inr x, s)"
  by (simp add: ret_def)

lemma throw_eval [op_eval]: "throw e s = (Inl e, s)"
  by (simp add: throw_def)

lemma readE_eval [op_eval]: "readE f s = (Inr (f s), s)"
  by (simp add: readE_def)

lemma writeE_eval [op_eval]: "writeE f s = (Inr (), f s)"
  by (simp add: writeE_def)

lemma liftE_eval [op_eval]: "liftE r s = (r, s)"
  by (simp add: liftE_def)

lemma assertE_eval [op_eval]: "assertE b e s = (if b then (Inr (), s) else (Inl e, s))"
  by (simp add: op_defs)

lemma whenE_eval [op_eval]: "whenE b m s = (if b then m s else (Inr (), s))"
  by (simp add: op_defs)

lemma someE_eval [op_eval]:
  "someE e None s = (Inl e, s)" "someE e (Some x) s = (Inr x, s)"
  by (simp_all add: op_defs)

lemma bindE_eval [op_eval]:
  "m s = (Inr x, t) \<Longrightarrow> bindE m f s = f x t"
  "m s = (Inl e, t) \<Longrightarrow> bindE m f s = (Inl e, t)"
  by (simp_all add: bindE_def)

lemma bindE_apply: "bindE m f s = (case m s of (Inl e, t) \<Rightarrow> (Inl e, t) | (Inr x, t) \<Rightarrow> f x t)"
  by (simp add: bindE_def)

lemma ret_ok [op_ok]: "ret x s = (Inr y, t) \<longleftrightarrow> y = x \<and> t = s"
  by (auto simp: ret_def)

lemma throw_ok [op_ok]: "throw e s = (Inr y, t) \<longleftrightarrow> False"
  by (simp add: throw_def)

lemma bindE_ok [op_ok]:
  "bindE m f s = (Inr y, t) \<longleftrightarrow> (\<exists>x u. m s = (Inr x, u) \<and> f x u = (Inr y, t))"
  by (auto simp: bindE_def split: prod.splits sum.splits)

lemma readE_ok [op_ok]: "readE f s = (Inr y, t) \<longleftrightarrow> y = f s \<and> t = s"
  by (auto simp: readE_def)

lemma writeE_ok [op_ok]: "writeE f s = (Inr y, t) \<longleftrightarrow> t = f s"
  by (auto simp: writeE_def)

lemma liftE_ok [op_ok]: "liftE r s = (Inr y, t) \<longleftrightarrow> r = Inr y \<and> t = s"
  by (auto simp: liftE_def)

lemma assertE_ok [op_ok]: "assertE b e s = (Inr y, t) \<longleftrightarrow> b \<and> t = s"
  by (auto simp: op_defs)

lemma whenE_ok [op_ok]:
  "whenE b m s = (Inr y, t) \<longleftrightarrow> (if b then m s = (Inr (), t) else t = s)"
  by (auto simp: op_defs)

lemma someE_ok [op_ok]: "someE e x s = (Inr y, t) \<longleftrightarrow> x = Some y \<and> t = s"
  by (auto simp: op_defs split: option.splits)

lemma transaction_ok [op_ok]: "transaction m s = (Inr y, t) \<longleftrightarrow> m s = (Inr y, t)"
  by (auto simp: transaction_def split: prod.splits sum.splits)

lemma transaction_rolls_back: "transaction m s = (Inl e, t) \<Longrightarrow> t = s"
  by (auto simp: transaction_def split: prod.splits sum.splits)

lemma bindE_assoc: "bindE (bindE m f) g = bindE m (\<lambda>x. bindE (f x) g)"
  by (rule ext) (simp add: bindE_def split: prod.splits sum.splits)

subsection \<open>Errors that write nothing\<close>

text \<open>
  Most operations check first and write afterwards, so that an error leaves the database alone.
  \<open>reads_only\<close>: never writes; \<open>never_fails\<close>: always returns; \<open>all_or_nothing\<close>: an error leaves the
  database it found. The rules read the shape "checks, then writes" off an operation's text.
\<close>

definition reads_only :: "('s, 'a) op \<Rightarrow> bool" where
  "reads_only m \<longleftrightarrow> (\<forall>s. snd (m s) = s)"

definition never_fails :: "('s, 'a) op \<Rightarrow> bool" where
  "never_fails m \<longleftrightarrow> (\<forall>s. \<exists>x t. m s = (Inr x, t))"

definition all_or_nothing :: "('s, 'a) op \<Rightarrow> bool" where
  "all_or_nothing m \<longleftrightarrow> (\<forall>s e t. m s = (Inl e, t) \<longrightarrow> t = s)"

lemma all_or_nothingD: "all_or_nothing m \<Longrightarrow> m s = (Inl e, t) \<Longrightarrow> t = s"
  by (auto simp: all_or_nothing_def)

lemma reads_onlyD: "reads_only m \<Longrightarrow> m s = (r, t) \<Longrightarrow> t = s"
  by (metis reads_only_def snd_conv)

named_theorems outcome

lemma reads_only_rules [outcome]:
  "reads_only (ret x)" "reads_only (throw e)" "reads_only (readE f)" "reads_only (liftE r)"
  "reads_only (assertE b e)" "reads_only (someE e y)"
  by (simp_all add: reads_only_def op_defs split: option.splits)

lemma reads_only_bindE [outcome]:
  "reads_only m \<Longrightarrow> (\<And>x. reads_only (f x)) \<Longrightarrow> reads_only (bindE m f)"
  by (auto simp: reads_only_def bindE_def split: prod.splits sum.splits) (metis snd_conv)+

lemma reads_only_whenE [outcome]: "reads_only m \<Longrightarrow> reads_only (whenE b m)"
  by (simp add: reads_only_def op_defs)

lemma never_fails_rules [outcome]:
  "never_fails (ret x)" "never_fails (readE f)" "never_fails (writeE g)"
  by (simp_all add: never_fails_def op_defs)

lemma never_fails_bindE [outcome]:
  "never_fails m \<Longrightarrow> (\<And>x. never_fails (f x)) \<Longrightarrow> never_fails (bindE m f)"
  unfolding never_fails_def bindE_def by (metis (no_types, lifting) old.prod.case sum.simps(6))

lemma never_fails_whenE [outcome]: "never_fails m \<Longrightarrow> never_fails (whenE b m)"
  by (simp add: never_fails_def op_defs)

lemma never_fails_if [outcome]: "never_fails m \<Longrightarrow> never_fails n \<Longrightarrow> never_fails (if b then m else n)"
  by simp

lemma never_fails_option [outcome]:
  "never_fails m \<Longrightarrow> (\<And>x. never_fails (f x)) \<Longrightarrow> never_fails (case y of None \<Rightarrow> m | Some x \<Rightarrow> f x)"
  by (cases y) auto

lemma never_fails_forE [outcome]: "(\<And>x. never_fails (f x)) \<Longrightarrow> never_fails (forE xs f)"
  by (induction xs) (auto intro: outcome)

lemma all_or_nothing_never: "never_fails m \<Longrightarrow> all_or_nothing m"
  unfolding never_fails_def all_or_nothing_def by (metis Inl_Inr_False prod.inject)

lemma all_or_nothing_reads: "reads_only m \<Longrightarrow> all_or_nothing m"
  unfolding reads_only_def all_or_nothing_def by (metis snd_conv)

lemma all_or_nothing_transaction [outcome]: "all_or_nothing (transaction m)"
  by (auto simp: all_or_nothing_def dest: transaction_rolls_back)

lemma all_or_nothing_check:
  "reads_only m \<Longrightarrow> (\<And>x. all_or_nothing (f x)) \<Longrightarrow> all_or_nothing (bindE m f)"
  unfolding reads_only_def all_or_nothing_def bindE_def
  by (auto split: prod.splits sum.splits) (metis snd_conv)+

lemma all_or_nothing_if:
  "all_or_nothing m \<Longrightarrow> all_or_nothing n \<Longrightarrow> all_or_nothing (if b then m else n)"
  by simp

lemma all_or_nothing_option:
  "all_or_nothing m \<Longrightarrow> (\<And>x. all_or_nothing (f x)) \<Longrightarrow>
   all_or_nothing (case y of None \<Rightarrow> m | Some x \<Rightarrow> f x)"
  by (cases y) auto

lemma all_or_nothing_write:
  "all_or_nothing m \<Longrightarrow> (\<And>x. never_fails (f x)) \<Longrightarrow> all_or_nothing (bindE m f)"
  unfolding never_fails_def all_or_nothing_def bindE_def
  by (auto split: prod.splits sum.splits) (metis Inl_Inr_False prod.inject)+

subsection \<open>What every step of an operation keeps\<close>

text \<open>
  \<open>keeps R m\<close>: whatever \<open>m\<close> returns, the database it leaves is related to the one it found by
  \<open>R\<close>. When \<open>R\<close> is reflexive and transitive, the parts of an operation can be checked one by
  one. Both frame properties ("the evidence log only grows") and invariants (take
  \<open>R s t = (I s \<longrightarrow> I t)\<close>) are instances of the locale.
\<close>

definition keeps :: "('s \<Rightarrow> 's \<Rightarrow> bool) \<Rightarrow> ('s, 'a) op \<Rightarrow> bool" where
  "keeps R m \<longleftrightarrow> (\<forall>s. R s (snd (m s)))"

lemma keepsI: "(\<And>s. R s (snd (m s))) \<Longrightarrow> keeps R m"
  by (simp add: keeps_def)

lemma keepsD: "keeps R m \<Longrightarrow> m s = (r, t) \<Longrightarrow> R s t"
  by (metis keeps_def snd_conv)

lemma keeps_writeE: "(\<And>s. R s (f s)) \<Longrightarrow> keeps R (writeE f)"
  by (simp add: keeps_def writeE_def)

locale step_law =
  fixes R :: "'s \<Rightarrow> 's \<Rightarrow> bool"
  assumes refl: "R s s"
    and trans: "R s t \<Longrightarrow> R t u \<Longrightarrow> R s u"
begin

lemma keeps_ret: "keeps R (ret x)"
  by (simp add: keeps_def ret_def refl)

lemma keeps_throw: "keeps R (throw e)"
  by (simp add: keeps_def throw_def refl)

lemma keeps_readE: "keeps R (readE f)"
  by (simp add: keeps_def readE_def refl)

lemma keeps_liftE: "keeps R (liftE r)"
  by (simp add: keeps_def liftE_def refl)

lemma keeps_assertE: "keeps R (assertE b e)"
  by (simp add: assertE_def keeps_ret keeps_throw)

lemma keeps_someE: "keeps R (someE e x)"
  by (simp add: someE_def keeps_ret keeps_throw split: option.splits)

lemma keeps_bindE:
  assumes "keeps R m" and "\<And>x. keeps R (f x)"
  shows "keeps R (bindE m f)"
  using assms by (auto simp: keeps_def bindE_def split: prod.splits sum.splits)
    (metis snd_conv, metis snd_conv trans)

lemma keeps_whenE: "keeps R m \<Longrightarrow> keeps R (whenE b m)"
  by (simp add: whenE_def keeps_ret)

lemma keeps_if: "keeps R m \<Longrightarrow> keeps R n \<Longrightarrow> keeps R (if b then m else n)"
  by simp

lemma keeps_option:
  "keeps R m \<Longrightarrow> (\<And>x. keeps R (f x)) \<Longrightarrow> keeps R (case y of None \<Rightarrow> m | Some x \<Rightarrow> f x)"
  by (cases y) auto

lemma keeps_let: "keeps R (f x) \<Longrightarrow> keeps R (let y = x in f y)"
  by simp

lemma keeps_forE: "(\<And>x. keeps R (f x)) \<Longrightarrow> keeps R (forE xs f)"
  by (induction xs) (auto intro: keeps_ret keeps_bindE)

lemma keeps_transaction: "keeps R m \<Longrightarrow> keeps R (transaction m)"
  by (auto simp: keeps_def transaction_def refl split: prod.splits sum.splits) (metis snd_conv)

lemma keeps_catchE: "keeps R m \<Longrightarrow> (\<And>e. keeps R (h e)) \<Longrightarrow> keeps R (catchE m h)"
  by (auto simp: keeps_def catchE_def split: prod.splits sum.splits) (metis snd_conv trans)+

lemmas keeps_intros = keeps_ret keeps_throw keeps_readE keeps_liftE keeps_assertE keeps_someE
  keeps_bindE keeps_whenE keeps_if keeps_option keeps_let keeps_forE keeps_transaction
  keeps_catchE

end

subsection \<open>Tables\<close>

text \<open>
  A table is the list of its rows. \<open>findFirst\<close> is \<open>List.find\<close> (the physical order of a table is
  not specified by the database, so properties are proved for every order), \<open>updateMany\<close> is
  \<open>upd_where\<close>, and \<open>orderBy: desc\<close> followed by the first row is \<open>pick_max\<close>.
\<close>

definition upd_where :: "('r \<Rightarrow> bool) \<Rightarrow> ('r \<Rightarrow> 'r) \<Rightarrow> 'r list \<Rightarrow> 'r list" where
  "upd_where p f rows = map (\<lambda>r. if p r then f r else r) rows"

definition count_where :: "('r \<Rightarrow> bool) \<Rightarrow> 'r list \<Rightarrow> nat" where
  "count_where p rows = length (filter p rows)"

definition pick_max :: "('r \<Rightarrow> 'k::linorder) \<Rightarrow> 'r list \<Rightarrow> 'r option" where
  "pick_max k rows =
     (case rows of [] \<Rightarrow> None
      | r # rs \<Rightarrow> Some (fold (\<lambda>y b. if k b < k y then y else b) rs r))"

lemma set_upd_where: "set (upd_where p f rows) = (\<lambda>r. if p r then f r else r) ` set rows"
  by (auto simp: upd_where_def)

lemma length_upd_where [simp]: "length (upd_where p f rows) = length rows"
  by (simp add: upd_where_def)

lemma upd_where_Nil [simp]: "upd_where p f [] = []"
  by (simp add: upd_where_def)

lemma upd_where_Cons [simp]:
  "upd_where p f (r # rows) = (if p r then f r else r) # upd_where p f rows"
  by (simp add: upd_where_def)

lemma upd_where_append [simp]: "upd_where p f (xs @ ys) = upd_where p f xs @ upd_where p f ys"
  by (simp add: upd_where_def)

lemma map_upd_where: "(\<And>r. k (f r) = k r) \<Longrightarrow> map k (upd_where p f rows) = map k rows"
  by (induction rows) auto

lemma upd_where_id: "(\<And>r. r \<in> set rows \<Longrightarrow> \<not> p r) \<Longrightarrow> upd_where p f rows = rows"
  by (induction rows) auto

lemma count_where_Nil [simp]: "count_where p [] = 0"
  by (simp add: count_where_def)

lemma count_where_Cons [simp]:
  "count_where p (r # rows) = (if p r then Suc (count_where p rows) else count_where p rows)"
  by (simp add: count_where_def)

lemma count_where_append [simp]: "count_where p (xs @ ys) = count_where p xs + count_where p ys"
  by (simp add: count_where_def)

lemma count_where_0_iff: "count_where p rows = 0 \<longleftrightarrow> (\<forall>r \<in> set rows. \<not> p r)"
  by (auto simp: count_where_def filter_empty_conv)

lemma count_where_pos_iff: "0 < count_where p rows \<longleftrightarrow> (\<exists>r \<in> set rows. p r)"
  using count_where_0_iff [of p rows] by auto

lemma count_where_mono: "(\<And>r. r \<in> set rows \<Longrightarrow> p r \<Longrightarrow> q r) \<Longrightarrow> count_where p rows \<le> count_where q rows"
  by (induction rows) (auto simp: le_SucI)

lemma count_where_cong:
  "(\<And>r. r \<in> set rows \<Longrightarrow> p r = q r) \<Longrightarrow> count_where p rows = count_where q rows"
  by (induction rows) auto

lemma count_where_upd_where:
  "count_where q (upd_where p f rows) = count_where (\<lambda>r. q (if p r then f r else r)) rows"
  by (induction rows) auto

lemma count_where_distinct_key:
  "distinct (map k rows) \<Longrightarrow> (\<And>r. p r \<Longrightarrow> k r = c) \<Longrightarrow> count_where p rows \<le> 1"
proof (induction rows)
  case (Cons r rows)
  show ?case
  proof (cases "p r")
    case True
    then have "\<forall>x \<in> set rows. \<not> p x" using Cons.prems by force
    then have "count_where p rows = 0" by (simp add: count_where_0_iff)
    with True show ?thesis by simp
  next
    case False
    with Cons show ?thesis by simp
  qed
qed simp

lemma find_Some_in: "List.find p rows = Some r \<Longrightarrow> r \<in> set rows \<and> p r"
  by (auto simp: find_Some_iff)

lemma find_None_all: "List.find p rows = None \<longleftrightarrow> (\<forall>r \<in> set rows. \<not> p r)"
  by (auto simp: find_None_iff)

lemma find_append:
  "List.find p (xs @ ys) = (case List.find p xs of None \<Rightarrow> List.find p ys | Some x \<Rightarrow> Some x)"
  by (induction xs) auto

lemma find_append_new: "\<forall>x \<in> set xs. \<not> P x \<Longrightarrow> P y \<Longrightarrow> List.find P (xs @ [y]) = Some y"
  by (simp add: find_append find_None_all [THEN iffD2])

lemma find_upd_where_same:
  "(\<And>r. q (f r) = q r) \<Longrightarrow>
   List.find q (upd_where p f rows) = map_option (\<lambda>r. if p r then f r else r) (List.find q rows)"
  by (induction rows) auto

lemma find_distinct_key:
  "distinct (map k rows) \<Longrightarrow> r \<in> set rows \<Longrightarrow> List.find (\<lambda>x. k x = k r) rows = Some r"
  by (induction rows) (auto simp: rev_image_eqI)

lemma find_cong_key:
  "distinct (map k rows) \<Longrightarrow> r \<in> set rows \<Longrightarrow> k r = c \<Longrightarrow> List.find (\<lambda>x. k x = c) rows = Some r"
  using find_distinct_key [of k rows r] by simp

lemma fold_pick_max:
  "fold (\<lambda>y b. if k b < k y then y else b) rs r \<in> insert r (set rs) \<and>
   (\<forall>x \<in> insert r (set rs). k x \<le> k (fold (\<lambda>y b. if k b < k y then y else b) rs r))"
  for k :: "'r \<Rightarrow> 'k::linorder"
proof (induction rs arbitrary: r)
  case (Cons y ys)
  show ?case
    using Cons.IH [of "if k r < k y then y else r"] by (auto intro: order_trans)
qed simp

lemma pick_max_None [simp]: "pick_max k rows = None \<longleftrightarrow> rows = []"
  by (simp add: pick_max_def split: list.splits)

lemma pick_max_Some:
  assumes "pick_max k rows = Some r"
  shows "r \<in> set rows" and "\<And>x. x \<in> set rows \<Longrightarrow> k x \<le> k r"
  using assms fold_pick_max [of k] by (auto simp: pick_max_def split: list.splits)

end
