(* ===== verification/Js_Numbers.thy ===== *)
theory Js_Numbers
  imports Complex_Main Prelude "HOL-Library.Log_Nat"
begin

text \<open>
  JavaScript numbers are IEEE 754 doubles. A number is the rational it stands for; \<open>fl\<close> rounds
  an exact result to the nearest double, ties to even, and every arithmetic operator of the
  code is the exact operation followed by \<open>fl\<close> (\<open>js_add\<close>, \<open>js_sub\<close>, \<open>js_mul\<close>, \<open>js_div\<close>).
  NaN, the infinities and the subnormal range are left out: rents and cheque amounts stay far
  from both ends of the exponent range, and the code rejects NaN with \<open>!(x > 0)\<close>.

  The lemmas give what the components use: \<open>fl\<close> is monotone, exact on every value with a
  53-bit significand (so on all integers up to 2^53), odd, and off by at most half a unit in
  the last place.
\<close>

subsection \<open>The binary exponent of a positive rational\<close>

definition ilog2 :: "rat \<Rightarrow> int" where
  "ilog2 x =
     (let (a, b) = quotient_of x; k = bitlen a - bitlen b
      in if 2 powi k \<le> x then k else k - 1)"

lemma powi_pos [simp]: "0 < (2::rat) powi k"
  by (simp add: zero_less_power_int)

lemma two_ne: "(2::rat) \<noteq> 0"
  by simp

lemma powi_less_iff: "(2::rat) powi j < 2 powi k \<longleftrightarrow> j < k"
  by (metis not_less_iff_gr_or_eq one_less_numeral_iff power_int_strict_increasing semiring_norm(76))

lemma powi_le_iff: "(2::rat) powi j \<le> 2 powi k \<longleftrightarrow> j \<le> k"
  using powi_less_iff [of k j] by (auto simp: not_less [symmetric])

lemma powi_add: "(2::rat) powi (j + k) = 2 powi j * 2 powi k"
  by (simp add: power_int_add)

lemma powi_Suc: "(2::rat) powi (k + 1) = 2 * 2 powi k"
  by (simp add: power_int_add_1')

lemma bitlen_rat:
  assumes "0 < a"
  shows "2 powi (bitlen a - 1) \<le> (of_int a :: rat)" and "(of_int a :: rat) < 2 powi bitlen a"
proof -
  have pos: "0 < bitlen a"
    using assms bitlen_nonneg [of a] bitlen_eq_zero_iff [of a] by linarith
  have b: "2 ^ nat (bitlen a - 1) \<le> a" "a < 2 ^ nat (bitlen a)"
    using bitlen_bounds [OF assms] by auto
  have "(2::rat) powi (bitlen a - 1) = of_int (2 ^ nat (bitlen a - 1))"
    using pos by (simp add: power_int_def)
  also have "\<dots> \<le> of_int a" using b(1) by (simp only: of_int_le_iff)
  finally show "2 powi (bitlen a - 1) \<le> (of_int a :: rat)" .
  have "(of_int a :: rat) < of_int (2 ^ nat (bitlen a))"
    using b(2) by (simp only: of_int_less_iff)
  also have "\<dots> = 2 powi bitlen a"
    using pos by (simp add: power_int_def)
  finally show "(of_int a :: rat) < 2 powi bitlen a" .
qed

lemma ilog2_bounds:
  assumes "0 < x"
  shows "2 powi ilog2 x \<le> x" and "x < 2 powi (ilog2 x + 1)"
proof -
  obtain a b where q: "quotient_of x = (a, b)" by fastforce
  have b: "0 < b" and x: "x = of_int a / of_int b"
    using quotient_of_denom_pos [OF q] quotient_of_div [OF q] by auto
  have a: "0 < a" using assms b by (simp add: x zero_less_divide_iff)
  let ?k = "bitlen a - bitlen b"
  have "x < 2 powi bitlen a / 2 powi (bitlen b - 1)"
    unfolding x using bitlen_rat(2) [OF a] bitlen_rat(1) [OF b] b
    by (intro frac_less) (auto simp: a less_imp_le)
  also have "\<dots> = 2 powi (bitlen a - (bitlen b - 1))"
    by (simp only: power_int_diff [OF disjI1 [OF two_ne]])
  also have "bitlen a - (bitlen b - 1) = ?k + 1" by simp
  finally have up: "x < 2 powi (?k + 1)" .
  have "?k - 1 = (bitlen a - 1) - bitlen b" by simp
  then have "2 powi (?k - 1) = (2::rat) powi (bitlen a - 1) / 2 powi bitlen b"
    by (simp only: power_int_diff [OF disjI1 [OF two_ne]])
  also have "\<dots> \<le> x"
    unfolding x using bitlen_rat(1) [OF a] bitlen_rat(2) [OF b] a b
    by (intro frac_le) auto
  finally have lo: "2 powi (?k - 1) \<le> x" .
  show "2 powi ilog2 x \<le> x" "x < 2 powi (ilog2 x + 1)"
    using up lo by (auto simp: ilog2_def q Let_def)
qed

lemma ilog2_unique:
  assumes "0 < x" "2 powi k \<le> x" "x < 2 powi (k + 1)"
  shows "ilog2 x = k"
proof -
  have "(2::rat) powi k < 2 powi (ilog2 x + 1)" and "(2::rat) powi ilog2 x < 2 powi (k + 1)"
    using ilog2_bounds [OF assms(1)] assms(2,3) by (auto intro: le_less_trans)
  then show ?thesis by (simp add: powi_less_iff)
qed

lemma ilog2_mono: "0 < x \<Longrightarrow> x \<le> y \<Longrightarrow> ilog2 x \<le> ilog2 y"
proof -
  assume x: "0 < x" and y: "x \<le> y"
  have "(2::rat) powi ilog2 x < 2 powi (ilog2 y + 1)"
    using ilog2_bounds(1) [OF x] ilog2_bounds(2) [of y] x y by auto
  then show ?thesis by (simp add: powi_less_iff)
qed

subsection \<open>Rounding to an integer, ties to even\<close>

definition rne :: "rat \<Rightarrow> int" where
  "rne x =
     (let f = \<lfloor>x\<rfloor>; d = x - of_int f
      in if d < 1 / 2 then f else if 1 / 2 < d then f + 1 else if even f then f else f + 1)"

lemma rne_cases: "rne x = \<lfloor>x\<rfloor> \<or> rne x = \<lfloor>x\<rfloor> + 1"
  by (simp add: rne_def Let_def)

lemma rne_of_int [simp]: "rne (of_int n) = n"
  by (simp add: rne_def Let_def)

lemma rne_mono: "x \<le> y \<Longrightarrow> rne x \<le> rne y"
proof -
  assume le: "x \<le> y"
  show ?thesis
  proof (cases "\<lfloor>x\<rfloor> = \<lfloor>y\<rfloor>")
    case True
    with le show ?thesis by (auto simp: rne_def Let_def)
  next
    case False
    with floor_mono [OF le] have "\<lfloor>x\<rfloor> + 1 \<le> \<lfloor>y\<rfloor>" by linarith
    with rne_cases [of x] rne_cases [of y] show ?thesis by auto
  qed
qed

lemma rne_error: "\<bar>of_int (rne x) - x\<bar> \<le> 1 / 2"
proof -
  have "of_int \<lfloor>x\<rfloor> \<le> x" and "x < of_int \<lfloor>x\<rfloor> + 1" by linarith+
  then show ?thesis by (auto simp: rne_def Let_def abs_le_iff)
qed

lemma rne_minus: "rne (- x) = - rne x"
proof (cases "x = of_int \<lfloor>x\<rfloor>")
  case True
  then have "rne (- x) = rne (of_int (- \<lfloor>x\<rfloor>))" by simp
  also have "\<dots> = - \<lfloor>x\<rfloor>" by (rule rne_of_int)
  also have "\<dots> = - rne x" using rne_of_int [of "\<lfloor>x\<rfloor>"] True by simp
  finally show ?thesis .
next
  case False
  define f where "f = \<lfloor>x\<rfloor>"
  define d where "d = x - of_int f"
  have b: "of_int f \<le> x" "x < of_int f + 1" "x \<noteq> of_int f"
    using False unfolding f_def by linarith+
  then have d: "0 < d" "d < 1" and x: "x = of_int f + d" by (auto simp: d_def)
  have fx: "\<lfloor>- x\<rfloor> = - f - 1"
    by (rule floor_unique) (use x d in auto)
  have e: "- x - of_int (- f - 1) = 1 - d" by (simp add: x)
  have "rne x = (if d < 1 / 2 then f else if 1 / 2 < d then f + 1 else if even f then f else f + 1)"
    unfolding rne_def Let_def f_def [symmetric] d_def [symmetric] ..
  moreover have "rne (- x) = (if 1 - d < 1 / 2 then - f - 1 else if 1 / 2 < 1 - d then - f
      else if even (- f - 1) then - f - 1 else - f)"
    unfolding rne_def Let_def fx e by (simp only: diff_add_cancel)
  moreover have "d < 1 / 2 \<or> d = 1 / 2 \<or> 1 / 2 < d" by linarith
  ultimately show ?thesis using d by auto
qed

subsection \<open>Rounding to a double\<close>

definition ulp :: "rat \<Rightarrow> rat" where
  "ulp x = 2 powi (ilog2 x - 52)"

definition fl :: "rat \<Rightarrow> rat" where
  "fl x =
     (if x = 0 then 0
      else if 0 < x then of_int (rne (x / ulp x)) * ulp x
      else - (of_int (rne (- x / ulp (- x))) * ulp (- x)))"

lemma ulp_pos [simp]: "0 < ulp x"
  by (simp add: ulp_def)

lemma fl_0 [simp]: "fl 0 = 0"
  by (simp add: fl_def)

lemma fl_minus: "fl (- x) = - fl x"
  by (auto simp: fl_def)

lemma scaled_bounds:
  assumes "0 < x"
  shows "of_int (2 ^ 52) \<le> x / ulp x" and "x / ulp x < of_int (2 ^ 53)"
proof -
  have p: "(2::rat) powi ilog2 x = 2 ^ 52 * ulp x"
    using powi_add [of 52 "ilog2 x - 52"] by (simp add: ulp_def)
  then have q: "(2::rat) powi (ilog2 x + 1) = 2 ^ 53 * ulp x"
    by (simp add: powi_Suc)
  show "of_int (2 ^ 52) \<le> x / ulp x" "x / ulp x < of_int (2 ^ 53)"
    using ilog2_bounds [OF assms] unfolding p q by (auto simp: field_simps)
qed

lemma fl_pos_bounds:
  assumes "0 < x"
  shows "2 powi ilog2 x \<le> fl x" and "fl x \<le> 2 powi (ilog2 x + 1)"
proof -
  have e: "(2::rat) powi ilog2 x = of_int (2 ^ 52) * ulp x"
    using powi_add [of 52 "ilog2 x - 52"] by (simp add: ulp_def)
  have e': "(2::rat) powi (ilog2 x + 1) = of_int (2 ^ 53) * ulp x"
    using e by (simp add: powi_Suc)
  have "rne (of_int (2 ^ 52)) \<le> rne (x / ulp x)"
    by (rule rne_mono [OF scaled_bounds(1) [OF assms]])
  then have lo: "2 ^ 52 \<le> rne (x / ulp x)" by (simp only: rne_of_int)
  have "rne (x / ulp x) \<le> rne (of_int (2 ^ 53))"
    by (rule rne_mono [OF less_imp_le [OF scaled_bounds(2) [OF assms]]])
  then have hi: "rne (x / ulp x) \<le> 2 ^ 53" by (simp only: rne_of_int)
  have f: "fl x = of_int (rne (x / ulp x)) * ulp x"
    using assms by (simp add: fl_def)
  show "2 powi ilog2 x \<le> fl x" unfolding e f
    by (rule mult_right_mono) (simp_all only: of_int_le_iff lo less_imp_le [OF ulp_pos])
  show "fl x \<le> 2 powi (ilog2 x + 1)" unfolding e' f
    by (rule mult_right_mono) (simp_all only: of_int_le_iff hi less_imp_le [OF ulp_pos])
qed

lemma fl_pos [simp]: "0 < x \<Longrightarrow> 0 < fl x"
  using fl_pos_bounds(1) [of x] powi_pos [of "ilog2 x"] by linarith

lemma fl_mono_pos:
  assumes "0 < x" "x \<le> y"
  shows "fl x \<le> fl y"
proof (cases "ilog2 x = ilog2 y")
  case True
  then have u: "ulp x = ulp y" by (simp add: ulp_def)
  have "x / ulp y \<le> y / ulp y" using assms(2) by (simp add: divide_right_mono less_imp_le)
  then have "rne (x / ulp y) \<le> rne (y / ulp y)" by (rule rne_mono)
  then show ?thesis using assms u by (simp add: fl_def mult_right_mono less_imp_le)
next
  case False
  with ilog2_mono [OF assms] have "ilog2 x + 1 \<le> ilog2 y" by simp
  then have "(2::rat) powi (ilog2 x + 1) \<le> 2 powi ilog2 y" by (simp only: powi_le_iff)
  with fl_pos_bounds(2) [of x] fl_pos_bounds(1) [of y] assms show ?thesis by linarith
qed

lemma fl_nonneg: "0 \<le> x \<Longrightarrow> 0 \<le> fl x"
  by (cases "x = 0") (auto simp: less_imp_le)

text \<open>Rounding is monotone: the one fact every bound on computed money rests on.\<close>

lemma fl_mono: "x \<le> y \<Longrightarrow> fl x \<le> fl y"
proof -
  assume le: "x \<le> y"
  consider "0 < x" | "x \<le> 0" "0 \<le> y" | "y < 0" using le by linarith
  then show ?thesis
  proof cases
    case 1
    from this le show ?thesis by (rule fl_mono_pos)
  next
    case 2
    then have "0 \<le> fl (- x)" and "0 \<le> fl y" by (auto intro: fl_nonneg)
    then show ?thesis by (simp add: fl_minus)
  next
    case 3
    with le have "fl (- y) \<le> fl (- x)" by (intro fl_mono_pos) auto
    then show ?thesis by (simp add: fl_minus)
  qed
qed

text \<open>A value with a significand of at most 53 bits is a double, and rounds to itself.\<close>

definition double :: "rat \<Rightarrow> bool" where
  "double x \<longleftrightarrow> (\<exists>m e. x = of_int m * 2 powi e \<and> \<bar>m\<bar> \<le> 2 ^ 53)"

lemma fl_exact_pos:
  assumes x: "x = of_int m * 2 powi e" and m: "0 < m" "m \<le> 2 ^ 53"
  shows "fl x = x"
proof -
  have px: "0 < x" using m by (simp add: x)
  have "x \<le> of_int (2 ^ 53) * 2 powi e" unfolding x
    by (rule mult_right_mono) (simp_all only: of_int_le_iff m less_imp_le [OF powi_pos])
  also have "\<dots> = 2 powi (53 + e)" by (simp add: powi_add)
  finally have le: "x \<le> 2 powi (53 + e)" .
  then have "(2::rat) powi ilog2 x \<le> 2 powi (53 + e)"
    using ilog2_bounds(1) [OF px] by linarith
  then have k: "ilog2 x \<le> 53 + e" by (simp only: powi_le_iff)
  have "\<exists>n. x / ulp x = of_int n"
  proof (cases "ilog2 x = 53 + e")
    case True
    then have "x = 2 powi (53 + e)"
      using le ilog2_bounds(1) [OF px] by simp
    then have "x / ulp x = of_int (2 ^ 52)"
      using True by (simp add: ulp_def power_int_diff [symmetric])
    then show ?thesis by blast
  next
    case False
    with k have nn: "0 \<le> e - (ilog2 x - 52)" by simp
    have "x / ulp x = of_int m * 2 powi (e - (ilog2 x - 52))"
      by (simp add: x ulp_def power_int_diff)
    also have "\<dots> = of_int (m * 2 ^ nat (e - (ilog2 x - 52)))"
      using nn by (simp add: power_int_def)
    finally show ?thesis by blast
  qed
  then obtain n where n: "x / ulp x = of_int n" by blast
  then have "fl x = of_int n * ulp x" using px by (simp add: fl_def)
  also have "\<dots> = x" using n ulp_pos [of x] by (simp add: field_simps)
  finally show ?thesis .
qed

lemma fl_double: "double x \<Longrightarrow> fl x = x"
proof -
  assume "double x"
  then obtain m e where x: "x = of_int m * 2 powi e" and m: "\<bar>m\<bar> \<le> 2 ^ 53"
    by (auto simp: double_def)
  consider "0 < m" | "m = 0" | "m < 0" by linarith
  then show ?thesis
  proof cases
    case 1
    with m x show ?thesis by (intro fl_exact_pos) auto
  next
    case 2
    with x show ?thesis by simp
  next
    case 3
    have "fl (- x) = - x"
      by (rule fl_exact_pos [of _ "- m" e]) (use 3 m x in auto)
    then show ?thesis by (simp add: fl_minus)
  qed
qed

lemma double_of_int: "\<bar>n\<bar> \<le> 2 ^ 53 \<Longrightarrow> double (of_int n)"
  unfolding double_def by (rule exI [of _ n], rule exI [of _ 0]) simp

lemma fl_of_int: "\<bar>n\<bar> \<le> 2 ^ 53 \<Longrightarrow> fl (of_int n) = of_int n"
  by (rule fl_double [OF double_of_int])

lemma fl_1 [simp]: "fl 1 = 1"
  using fl_of_int [of 1] by simp

lemma fl_error_pos:
  assumes "0 < x"
  shows "\<bar>fl x - x\<bar> \<le> x / 2 ^ 53"
proof -
  have "fl x - x = (of_int (rne (x / ulp x)) - x / ulp x) * ulp x"
    using assms ulp_pos [of x] by (simp add: fl_def left_diff_distrib less_imp_neq [OF ulp_pos, symmetric])
  then have "\<bar>fl x - x\<bar> = \<bar>of_int (rne (x / ulp x)) - x / ulp x\<bar> * ulp x"
    by (simp only: abs_mult abs_of_pos [OF ulp_pos])
  also have "\<dots> \<le> 1 / 2 * ulp x"
    by (rule mult_right_mono [OF rne_error]) (simp add: less_imp_le)
  also have "\<dots> \<le> x / 2 ^ 53"
    using scaled_bounds(1) [OF assms] ulp_pos [of x] by (simp add: field_simps)
  finally show ?thesis .
qed

lemma fl_error: "\<bar>fl x - x\<bar> \<le> \<bar>x\<bar> / 2 ^ 53"
proof -
  consider "0 < x" | "x = 0" | "0 < - x" by linarith
  then show ?thesis
  proof cases
    case 3
    from fl_error_pos [OF 3] 3 show ?thesis by (simp add: fl_minus abs_minus_commute)
  qed (use fl_error_pos in auto)
qed

lemma fl_error_le: "\<bar>x\<bar> \<le> B \<Longrightarrow> \<bar>fl x - x\<bar> \<le> B / 2 ^ 53"
  by (rule order_trans [OF fl_error]) (simp add: divide_right_mono)

subsection \<open>The operators of the code\<close>

definition js_add :: "rat \<Rightarrow> rat \<Rightarrow> rat" where "js_add x y = fl (x + y)"
definition js_sub :: "rat \<Rightarrow> rat \<Rightarrow> rat" where "js_sub x y = fl (x - y)"
definition js_mul :: "rat \<Rightarrow> rat \<Rightarrow> rat" where "js_mul x y = fl (x * y)"
definition js_div :: "rat \<Rightarrow> rat \<Rightarrow> rat" where "js_div x y = fl (x / y)"

text \<open>\<open>Math.round\<close>: the nearest integer, a tie goes up (towards plus infinity).\<close>

definition js_round :: "rat \<Rightarrow> int" where
  "js_round x = \<lfloor>x + 1 / 2\<rfloor>"

lemmas js_ops = js_add_def js_sub_def js_mul_def js_div_def

lemma js_round_of_int [simp]: "js_round (of_int n) = n"
  unfolding js_round_def by (rule floor_unique) auto

lemma js_round_mono: "x \<le> y \<Longrightarrow> js_round x \<le> js_round y"
  by (simp add: js_round_def floor_mono)

lemma js_round_bounds: "x - 1 / 2 < of_int (js_round x)" "of_int (js_round x) \<le> x + 1 / 2"
  unfolding js_round_def by linarith+

lemma js_round_exact: "\<bar>n\<bar> \<le> 2 ^ 53 \<Longrightarrow> js_round (fl (of_int n)) = n"
  by (simp add: fl_of_int)

definition isInteger :: "rat \<Rightarrow> bool" where
  "isInteger x \<longleftrightarrow> of_int \<lfloor>x\<rfloor> = x"

lemma isInteger_of_int [simp]: "isInteger (of_int n)"
  by (simp add: isInteger_def)

subsection \<open>Strings of integers\<close>

definition digit_char :: "nat \<Rightarrow> char" where
  "digit_char n = char_of (48 + n mod 10)"

fun show_nat :: "nat \<Rightarrow> string" where
  "show_nat n = (if n < 10 then [digit_char n] else show_nat (n div 10) @ [digit_char n])"

declare show_nat.simps [simp del]

definition show_int :: "int \<Rightarrow> string" where
  "show_int i = (if i < 0 then ''-'' @ show_nat (nat (- i)) else show_nat (nat i))"

text \<open>\<open>String(n).padStart(k, "0")\<close>, for \<open>n < 10 ^ k\<close>: the last \<open>k\<close> digits.\<close>

primrec pad :: "nat \<Rightarrow> nat \<Rightarrow> string" where
  "pad 0 n = []"
| "pad (Suc k) n = pad k (n div 10) @ [digit_char n]"

definition read_digits :: "string \<Rightarrow> nat" where
  "read_digits s = foldl (\<lambda>a c. 10 * a + (of_char c - 48)) 0 s"

lemma of_digit_char: "of_char (digit_char n) = (48 + n mod 10 :: nat)"
  by (simp add: digit_char_def)

lemma length_pad [simp]: "length (pad k n) = k"
  by (induction k arbitrary: n) auto

lemma read_pad: "read_digits (pad k n) = n mod 10 ^ k"
  by (induction k arbitrary: n)
    (simp_all add: read_digits_def of_digit_char mod_mult2_eq)

lemma pad_inj: "pad k m = pad k n \<Longrightarrow> m < 10 ^ k \<Longrightarrow> n < 10 ^ k \<Longrightarrow> m = n"
  by (metis read_pad mod_less)

subsection \<open>JSON values\<close>

text \<open>
  What the code stores in \<open>Json\<close> columns: payloads of the evidence log, the audit log, the
  outbox and calculator inputs.
\<close>

datatype json =
    JNull
  | JBool bool
  | JNum rat
  | JStr string
  | JId nat                         \<comment> \<open>a row's id (a uuid string in the code)\<close>
  | JDate int                       \<comment> \<open>a \<open>Date\<close>, in milliseconds\<close>
  | JArr "json list"
  | JObj "(string \<times> json) list"

definition jopt :: "('a \<Rightarrow> json) \<Rightarrow> 'a option \<Rightarrow> json" where
  "jopt f x = (case x of None \<Rightarrow> JNull | Some y \<Rightarrow> f y)"

primrec jget :: "json \<Rightarrow> string \<Rightarrow> json option" where
  "jget JNull k = None"
| "jget (JBool b) k = None"
| "jget (JNum x) k = None"
| "jget (JStr s) k = None"
| "jget (JId i) k = None"
| "jget (JDate t) k = None"
| "jget (JArr xs) k = None"
| "jget (JObj kvs) k = map_of kvs k"

end
