(* ===== verification/Dates.thy ===== *)
theory Dates
  imports Js_Numbers
begin

text \<open>
  \<open>src/server/calculators/dates.ts\<close> and the part of the ECMAScript \<open>Date\<close> it uses. A \<open>Date\<close> is
  its time value, milliseconds since the epoch, as an integer; only valid dates are modelled. \<open>civil\<close> and
  \<open>days_of\<close> are the proleptic Gregorian calendar of the ECMAScript specification (months count
  from 0), and \<open>Date.UTC\<close> keeps its rule that the years 0 to 99 mean 1900 to 1999.
\<close>

type_synonym time = int

definition msPerDay :: int where "msPerDay = 86400000"

subsection \<open>The calendar\<close>

text \<open>
  Days are counted in years that start in March, so that the leap day is the last day of a
  400-year era, of a 100-year and of a 4-year cycle.
\<close>

definition civil :: "int \<Rightarrow> int \<times> int \<times> int" where
  "civil n =
     (let z = n + 719468; era = z div 146097; doe = z mod 146097;
          c = min 3 (doe div 36524); doc = doe - 36524 * c;
          q = doc div 1461; doq = doc mod 1461;
          yr = min 3 (doq div 365); doy = doq - 365 * yr;
          mp = (5 * doy + 2) div 153;
          d = doy - (153 * mp + 2) div 5 + 1;
          y = 400 * era + 100 * c + 4 * q + yr
      in if mp < 10 then (y, mp + 2, d) else (y + 1, mp - 10, d))"

definition days_of :: "int \<Rightarrow> int \<Rightarrow> int \<Rightarrow> int" where
  "days_of year month d =
     (let y' = year + month div 12; m = month mod 12;
          y = (if m \<le> 1 then y' - 1 else y'); mp = (m + 10) mod 12;
          era = y div 400; yoe = y mod 400
      in 146097 * era + 36524 * (yoe div 100) + 1461 * (yoe mod 100 div 4) + 365 * (yoe mod 4)
         + (153 * mp + 2) div 5 + d - 1 - 719468)"

definition getUTCFullYear :: "time \<Rightarrow> int" where
  "getUTCFullYear t = fst (civil (t div msPerDay))"

definition getUTCMonth :: "time \<Rightarrow> int" where
  "getUTCMonth t = fst (snd (civil (t div msPerDay)))"

definition getUTCDate :: "time \<Rightarrow> int" where
  "getUTCDate t = snd (snd (civil (t div msPerDay)))"

definition getUTCHours :: "time \<Rightarrow> int" where
  "getUTCHours t = t mod msPerDay div 3600000"

definition getUTCMinutes :: "time \<Rightarrow> int" where
  "getUTCMinutes t = t mod 3600000 div 60000"

definition date_UTC :: "int \<Rightarrow> int \<Rightarrow> int \<Rightarrow> time" where
  "date_UTC y m d = days_of (if 0 \<le> y \<and> y \<le> 99 then 1900 + y else y) m d * msPerDay"

definition setUTCDate :: "time \<Rightarrow> int \<Rightarrow> time" where
  "setUTCDate t d = days_of (getUTCFullYear t) (getUTCMonth t) d * msPerDay + t mod msPerDay"

subsection \<open>The calculators\<close>

record calc_result =
  cr_date :: time
  cr_rule :: string
  cr_version :: string
  cr_inputs :: json

definition toUtcDateOnly :: "time \<Rightarrow> time" where
  "toUtcDateOnly d = date_UTC (getUTCFullYear d) (getUTCMonth d) (getUTCDate d)"

definition addDaysUtc :: "time \<Rightarrow> int \<Rightarrow> time" where
  "addDaysUtc d days = (let r = toUtcDateOnly d in setUTCDate r (getUTCDate r + days))"

definition toISODate :: "time \<Rightarrow> string" where
  "toISODate t =
     (let y = getUTCFullYear t;
          md = ''-'' @ pad 2 (nat (getUTCMonth t + 1)) @ ''-'' @ pad 2 (nat (getUTCDate t))
      in if 0 \<le> y \<and> y \<le> 9999 then pad 4 (nat y) @ md
         else take 10 ((if y < 0 then ''-'' else ''+'') @ pad 6 (nat \<bar>y\<bar>) @ md))"

definition isoDate :: "time \<Rightarrow> string" where
  "isoDate d = toISODate (toUtcDateOnly d)"

definition noticeGate :: "time \<Rightarrow> rat \<Rightarrow> error + calc_result" where
  "noticeGate endDate noticePeriodDays =
     (if \<not> isInteger noticePeriodDays \<or> noticePeriodDays \<le> 0
      then Inl (ThrownError ''noticePeriodDays must be a positive integer'')
      else let e = toUtcDateOnly endDate in
        Inr \<lparr> cr_date = addDaysUtc e (- \<lfloor>noticePeriodDays\<rfloor>),
              cr_rule = ''notice_gate'', cr_version = ''v1'',
              cr_inputs = JObj [(''endDate'', JStr (isoDate e)),
                                (''noticePeriodDays'', JNum noticePeriodDays)] \<rparr>)"

definition renewalDate :: "time \<Rightarrow> calc_result" where
  "renewalDate endDate =
     (let e = toUtcDateOnly endDate in
      \<lparr> cr_date = addDaysUtc e 1, cr_rule = ''renewal_date'', cr_version = ''v1'',
        cr_inputs = JObj [(''endDate'', JStr (isoDate e))] \<rparr>)"

definition contractExpiry :: "time \<Rightarrow> calc_result" where
  "contractExpiry endDate =
     (let e = toUtcDateOnly endDate in
      \<lparr> cr_date = e, cr_rule = ''contract_expiry'', cr_version = ''v1'',
        cr_inputs = JObj [(''endDate'', JStr (isoDate e))] \<rparr>)"

definition chequeDue :: "time \<Rightarrow> calc_result" where
  "chequeDue dueDate =
     (let due = toUtcDateOnly dueDate in
      \<lparr> cr_date = due, cr_rule = ''cheque_due'', cr_version = ''v1'',
        cr_inputs = JObj [(''dueDate'', JStr (isoDate due))] \<rparr>)"

definition todayInDubai :: "time \<Rightarrow> time" where
  "todayInDubai now = toUtcDateOnly (now + 4 * 60 * 60 * 1000)"

text \<open>\<open>fmt\<close> stands for \<open>toLocaleDateString\<close> of the runtime's ICU data.\<close>

definition formatDubaiDate :: "(time \<Rightarrow> string) \<Rightarrow> time \<Rightarrow> string" where
  "formatDubaiDate fmt d = fmt (toUtcDateOnly d)"

definition formatDubaiDateTime :: "(time \<Rightarrow> string) \<Rightarrow> time \<Rightarrow> string" where
  "formatDubaiDateTime fmt d =
     (let shifted = d + 4 * 60 * 60 * 1000
      in formatDubaiDate fmt shifted @ '', '' @ pad 2 (nat (getUTCHours shifted)) @ '':''
         @ pad 2 (nat (getUTCMinutes shifted)))"

definition daysBetween :: "time \<Rightarrow> time \<Rightarrow> int" where
  "daysBetween d1 d2 =
     js_round (js_div (of_int (toUtcDateOnly d2 - toUtcDateOnly d1)) (of_int msPerDay))"

subsection \<open>The calendar is right\<close>

lemma msPerDay_pos [simp]: "0 < msPerDay" "msPerDay \<noteq> 0"
  by (simp_all add: msPerDay_def)

lemma div_bounds:
  fixes a x :: int
  assumes "0 < a"
  shows "a * (x div a) \<le> x" and "x < a * (x div a) + a"
    and "x = a * (x div a) + x mod a" and "0 \<le> x mod a" and "x mod a < a"
  using assms by (simp_all add: minus_mod_eq_mult_div [symmetric])

lemma div_eq:
  fixes a x k :: int
  assumes "0 < a" "a * k \<le> x" "x < a * k + a"
  shows "x div a = k" and "x mod a = x - a * k"
proof -
  show d: "x div a = k"
    by (rule int_div_pos_eq [of _ _ _ "x - a * k"]) (use assms in auto)
  show "x mod a = x - a * k" using d by (simp add: minus_div_mult_eq_mod [symmetric] mult.commute)
qed

text \<open>The parts of a day number, with the bounds the calendar rests on.\<close>

lemma civil_parts:
  fixes doe :: int
  assumes "0 \<le> doe" "doe < 146097"
  obtains c q yr doy where
    "c = min 3 (doe div 36524)" "q = (doe - 36524 * c) div 1461"
    "yr = min 3 ((doe - 36524 * c) mod 1461 div 365)"
    "doy = (doe - 36524 * c) mod 1461 - 365 * yr"
    "0 \<le> c" "c \<le> 3" "0 \<le> q" "q \<le> 24" "0 \<le> yr" "yr \<le> 3" "0 \<le> doy" "doy \<le> 365"
    "doe = 36524 * c + 1461 * q + 365 * yr + doy"
proof -
  define c where "c = min 3 (doe div 36524)"
  define doc where "doc = doe - 36524 * c"
  define q where "q = doc div 1461"
  define doq where "doq = doc mod 1461"
  define yr where "yr = min 3 (doq div 365)"
  have c: "0 \<le> c" "c \<le> 3" "0 \<le> doc" "doc \<le> 36524"
    using div_bounds [of 36524 doe] assms unfolding c_def doc_def by linarith+
  have q: "0 \<le> q" "q \<le> 24" and doq: "0 \<le> doq" "doq < 1461" "doc = 1461 * q + doq"
    using div_bounds [of 1461 doc] c unfolding q_def doq_def by linarith+
  have yr: "0 \<le> yr" "yr \<le> 3" "0 \<le> doq - 365 * yr" "doq - 365 * yr \<le> 365"
    using div_bounds [of 365 doq] doq unfolding yr_def by linarith+
  have doe: "doe = 36524 * c + 1461 * q + doq" using doq(3) by (simp add: doc_def)
  show thesis
  proof (rule that [of c q yr "doq - 365 * yr"])
    show "c = min 3 (doe div 36524)" by (rule c_def)
    show "q = (doe - 36524 * c) div 1461" unfolding q_def doc_def ..
    show "yr = min 3 ((doe - 36524 * c) mod 1461 div 365)" unfolding yr_def doq_def doc_def ..
    show "doq - 365 * yr = (doe - 36524 * c) mod 1461 - 365 * yr" unfolding doq_def doc_def ..
    show "doe = 36524 * c + 1461 * q + 365 * yr + (doq - 365 * yr)" using doe by linarith
  qed (use c q yr in auto)
qed

lemma month_parts:
  fixes doy :: int
  assumes "0 \<le> doy" "doy \<le> 365"
  shows "0 \<le> (5 * doy + 2) div 153" "(5 * doy + 2) div 153 \<le> 11"
    "1 \<le> doy - (153 * ((5 * doy + 2) div 153) + 2) div 5 + 1"
    "doy - (153 * ((5 * doy + 2) div 153) + 2) div 5 + 1 \<le> 31"
  using assms div_bounds [of 153 "5 * doy + 2"]
    div_bounds [of 5 "153 * ((5 * doy + 2) div 153) + 2"] by linarith+

text \<open>A day is put together again from its year, month and date.\<close>

lemma days_of_civil: "civil n = (y, m, d) \<Longrightarrow> days_of y m d = n"
proof -
  assume civil: "civil n = (y, m, d)"
  define z where "z = n + 719468"
  define era where "era = z div 146097"
  define doe where "doe = z mod 146097"
  have "0 \<le> doe" "doe < 146097" by (simp_all add: doe_def)
  then obtain c q yr doy where p:
    "c = min 3 (doe div 36524)" "q = (doe - 36524 * c) div 1461"
    "yr = min 3 ((doe - 36524 * c) mod 1461 div 365)"
    "doy = (doe - 36524 * c) mod 1461 - 365 * yr"
    and b: "0 \<le> c" "c \<le> 3" "0 \<le> q" "q \<le> 24" "0 \<le> yr" "yr \<le> 3" "0 \<le> doy" "doy \<le> 365"
    and doe: "doe = 36524 * c + 1461 * q + 365 * yr + doy"
    by (rule civil_parts)
  define mp where "mp = (5 * doy + 2) div 153"
  define Y where "Y = 400 * era + 100 * c + 4 * q + yr"
  have mp: "0 \<le> mp" "mp \<le> 11" unfolding mp_def using month_parts [OF b(7,8)] by auto
  have z: "z = 146097 * era + doe" by (simp add: era_def doe_def)
  have "civil n = (let d = doy - (153 * mp + 2) div 5 + 1
      in if mp < 10 then (Y, mp + 2, d) else (Y + 1, mp - 10, d))"
    unfolding civil_def Let_def z_def [symmetric] era_def [symmetric] doe_def [symmetric]
      p(1) [symmetric] p(2) [symmetric] p(3) [symmetric] p(4) [symmetric] mp_def [symmetric]
      Y_def [symmetric] ..
  with civil have d: "d = doy - (153 * mp + 2) div 5 + 1"
    and ym: "(if mp < 10 then (Y, mp + 2) else (Y + 1, mp - 10)) = (y, m)"
    by (auto simp: Let_def split: if_splits)
  have r: "0 \<le> 100 * c + 4 * q + yr" "100 * c + 4 * q + yr < 400" using b by linarith+
  have e1: "Y div 400 = era" and e2: "Y mod 400 = 100 * c + 4 * q + yr"
    using div_eq [of 400 era Y] r unfolding Y_def by linarith+
  have e3: "(100 * c + 4 * q + yr) div 100 = c" and e3': "(100 * c + 4 * q + yr) mod 100 = 4 * q + yr"
    using div_eq [of 100 c "100 * c + 4 * q + yr"] b by linarith+
  have e4: "(100 * c + 4 * q + yr) mod 100 div 4 = q"
    unfolding e3' using div_eq [of 4 q "4 * q + yr"] b by linarith
  have e5: "(100 * c + 4 * q + yr) mod 4 = yr"
    by (subst div_eq(2) [of 4 "25 * c + q"]) (use b in auto)
  have "days_of y m d = 146097 * era + 36524 * c + 1461 * q + 365 * yr + (153 * mp + 2) div 5
      + d - 1 - 719468"
  proof (cases "mp < 10")
    case True
    then have y: "y = Y" "m = mp + 2" using ym by auto
    have m: "m div 12 = 0" "m mod 12 = m" "\<not> m \<le> 1" "(m + 10) mod 12 = mp"
      using True mp y div_eq [of 12 1 "mp + 12"] by simp_all
    show ?thesis
      unfolding days_of_def Let_def m(1,2) using m(3) by (simp add: m(4) y(1) e1 e2 e3 e4 e5)
  next
    case False
    then have y: "y = Y + 1" "m = mp - 10" using ym by auto
    have m: "m div 12 = 0" "m mod 12 = m" "m \<le> 1" "(m + 10) mod 12 = mp"
      using False mp y by simp_all
    show ?thesis
      unfolding days_of_def Let_def m(1,2) using m(3) by (simp add: m(4) y(1) e1 e2 e3 e4 e5)
  qed
  also have "\<dots> = n" unfolding d using z doe by (simp add: z_def)
  finally show ?thesis .
qed

text \<open>The first of January of a year is where the ECMAScript specification puts it.\<close>

lemma days_of_year_start:
  "days_of y 0 1 = 365 * (y - 1970) + (y - 1969) div 4 - (y - 1901) div 100 + (y - 1601) div 400"
proof -
  define x where "x = y - 1"
  define e r1 c r2 q r where "e = x div 400" and "r1 = x mod 400" and "c = r1 div 100"
    and "r2 = r1 mod 100" and "q = r2 div 4" and "r = r2 mod 4"
  have x: "x = 400 * e + r1" "r1 = 100 * c + r2" "r2 = 4 * q + r"
    by (simp_all add: e_def r1_def c_def r2_def q_def r_def)
  have b: "0 \<le> r1" "r1 < 400" "0 \<le> r2" "r2 < 100" "0 \<le> r" "r < 4"
    by (simp_all add: r1_def r2_def r_def)
  have m: "r1 mod 4 = r"
    using x b by (subst div_eq(2) [of 4 "25 * c + q"]) auto
  have y: "y = 400 * e + 100 * c + 4 * q + r + 1" using x by (simp add: x_def)
  have q: "0 \<le> 4 * q + r" "4 * q + r < 100" "0 \<le> 100 * c + 4 * q + r" "100 * c + 4 * q + r < 400"
    using x b by simp_all
  have "(y - 1969) div 4 = 100 * e + 25 * c + q - 492"
    unfolding y by (rule div_eq(1); use b in simp)
  moreover have "(y - 1901) div 100 = 4 * e + c - 19"
    unfolding y by (rule div_eq(1); use q in simp)
  moreover have "(y - 1601) div 400 = e - 4"
    unfolding y by (rule div_eq(1); use q in simp)
  ultimately have rhs: "365 * (y - 1970) + (y - 1969) div 4 - (y - 1901) div 100 + (y - 1601) div 400
      = 365 * (x - 1969) + (100 * e + 25 * c + q - 492) - (4 * e + c - 19) + (e - 4)"
    by (simp add: x_def)
  have "days_of y 0 1 = 146097 * e + 36524 * c + 1461 * q + 365 * r + 306 - 719468"
    unfolding days_of_def Let_def
    by (simp add: x_def [symmetric] e_def [symmetric] r1_def [symmetric] c_def [symmetric]
      r2_def [symmetric] q_def [symmetric] m)
  also have "\<dots> = 365 * (x - 1969) + (100 * e + 25 * c + q - 492) - (4 * e + c - 19) + (e - 4)"
    using x(1) unfolding x(2,3) by simp
  finally show ?thesis unfolding rhs .
qed

lemma civil_ranges:
  assumes "civil n = (y, m, d)"
  shows "0 \<le> m" "m \<le> 11" "1 \<le> d" "d \<le> 31"
proof -
  define z where "z = n + 719468"
  define doe where "doe = z mod 146097"
  have "0 \<le> doe" "doe < 146097" by (simp_all add: doe_def)
  then obtain c q yr doy where p:
    "c = min 3 (doe div 36524)" "q = (doe - 36524 * c) div 1461"
    "yr = min 3 ((doe - 36524 * c) mod 1461 div 365)"
    "doy = (doe - 36524 * c) mod 1461 - 365 * yr"
    and b: "0 \<le> doy" "doy \<le> 365"
    by (rule civil_parts)
  define mp where "mp = (5 * doy + 2) div 153"
  define dd where "dd = doy - (153 * mp + 2) div 5 + 1"
  define Y where "Y = 400 * (z div 146097) + 100 * c + 4 * q + yr"
  have "civil n = (if mp < 10 then (Y, mp + 2, dd) else (Y + 1, mp - 10, dd))"
    unfolding civil_def Let_def z_def [symmetric] doe_def [symmetric]
      p(1) [symmetric] p(2) [symmetric] p(3) [symmetric] p(4) [symmetric] mp_def [symmetric]
      dd_def [symmetric] Y_def [symmetric] ..
  moreover have "0 \<le> mp" "mp \<le> 11" "1 \<le> dd" "dd \<le> 31"
    using month_parts [OF b] unfolding dd_def mp_def by auto
  ultimately show "0 \<le> m" "m \<le> 11" "1 \<le> d" "d \<le> 31"
    using assms by (simp_all split: if_splits)
qed

text \<open>Later years begin later, and a day lies in its year.\<close>

lemma year_sum:
  fixes y y' a b c a' b' c' :: int
  assumes "a \<le> a'" "c \<le> c'" "b' \<le> b + (y' - y)" "y < y'"
  shows "365 * (y - 1970) + a - b + c + 364 \<le> 365 * (y' - 1970) + a' - b' + c'"
  using assms by (simp add: algebra_simps)

lemma year_start_less:
  assumes "y < y'"
  shows "days_of y 0 1 + 364 \<le> days_of y' 0 1"
proof -
  have "(y - 1969) div 4 \<le> (y' - 1969) div 4" "(y - 1601) div 400 \<le> (y' - 1601) div 400"
    using assms by (auto intro: zdiv_mono1)
  moreover have "(y' - 1901) div 100 \<le> (y - 1901) div 100 + (y' - y)"
  proof -
    define k where "k = y' - y - 1"
    have "(y' - 1901) div 100 \<le> (y - 1901 + (k + 1) * 100) div 100"
      by (rule zdiv_mono1) (use assms in \<open>auto simp: k_def\<close>)
    also have "\<dots> = (y - 1901) div 100 + (k + 1)" by simp
    finally show ?thesis by (simp add: k_def)
  qed
  ultimately show ?thesis unfolding days_of_year_start by (intro year_sum assms)
qed

lemma month_cases: "0 \<le> m \<Longrightarrow> m \<le> 11 \<Longrightarrow>
  m = 0 \<or> m = 1 \<or> m = 2 \<or> m = 3 \<or> m = 4 \<or> m = 5 \<or> m = 6 \<or> m = 7 \<or> m = 8 \<or> m = 9 \<or> m = 10 \<or> m = 11"
  for m :: int by presburger

lemma days_of_split:
  assumes "0 \<le> m" "m \<le> 11"
  shows "days_of y m d = (if m \<le> 1 then days_of y 0 1 + 31 * m + d - 1
    else days_of (y + 1) 0 1 - 306 + (153 * (m - 2) + 2) div 5 + d - 1)"
  using month_cases [OF assms] by (elim disjE) (simp_all add: days_of_def Let_def)

lemma days_of_linear: "days_of y m d = days_of y m 1 + (d - 1)"
  by (simp add: days_of_def Let_def)

lemma days_of_bounds:
  assumes "0 \<le> m" "m \<le> 11" "1 \<le> d" "d \<le> 31"
  shows "days_of y 0 1 \<le> days_of y m d" and "days_of y m d < days_of (y + 1) 0 1"
proof -
  define k where "k = (153 * (m - 2) + 2) div 5"
  have k: "2 \<le> m \<Longrightarrow> 0 \<le> k" "k \<le> 275"
    using zdiv_mono1 [of "153 * (m - 2) + 2" "153 * 9 + 2" 5] assms(2)
    by (auto simp: k_def)
  show "days_of y 0 1 \<le> days_of y m d" "days_of y m d < days_of (y + 1) 0 1"
    using assms k year_start_less [of y "y + 1"]
    unfolding days_of_split [OF assms(1,2), of y d] k_def [symmetric] by auto
qed

text \<open>
  From the year 100 on the \<open>Date.UTC\<close> rule for two-digit years is not reached.
\<close>

definition modern :: "time \<Rightarrow> bool" where
  "modern t \<longleftrightarrow> days_of 100 0 1 * msPerDay \<le> t"

lemma modern_day: "modern t \<longleftrightarrow> days_of 100 0 1 \<le> t div msPerDay"
  unfolding modern_def msPerDay_def using div_bounds [of 86400000 t] by linarith

lemma modern_year:
  assumes "modern t"
  shows "100 \<le> getUTCFullYear t"
proof (rule ccontr)
  assume "\<not> 100 \<le> getUTCFullYear t"
  moreover obtain y m d where c: "civil (t div msPerDay) = (y, m, d)"
    by (rule prod_cases3)
  ultimately have y: "y + 1 \<le> 100" by (simp add: getUTCFullYear_def)
  have "t div msPerDay < days_of (y + 1) 0 1"
    using days_of_bounds(2) [OF civil_ranges [OF c], of y] days_of_civil [OF c] by simp
  also have "\<dots> \<le> days_of 100 0 1"
    using y year_start_less [of "y + 1" 100] by (cases "y + 1 = 100") auto
  finally show False using assms by (simp add: modern_day)
qed

subsection \<open>The calculators are right\<close>

lemma toUtcDateOnly_modern: "modern t \<Longrightarrow> toUtcDateOnly t = t div msPerDay * msPerDay"
proof -
  assume m: "modern t"
  obtain y mo d where c: "civil (t div msPerDay) = (y, mo, d)"
    by (rule prod_cases3)
  show ?thesis
    using modern_year [OF m] days_of_civil [OF c] c
    by (simp add: toUtcDateOnly_def date_UTC_def getUTCFullYear_def getUTCMonth_def getUTCDate_def)
qed

lemma toUtcDateOnly_fix: "modern t \<Longrightarrow> msPerDay dvd t \<Longrightarrow> toUtcDateOnly t = t"
  by (simp add: toUtcDateOnly_modern)

lemma toUtcDateOnly_day [simp]: "msPerDay dvd toUtcDateOnly t"
  by (simp add: toUtcDateOnly_def date_UTC_def)

lemma modern_toUtcDateOnly: "modern t \<Longrightarrow> modern (toUtcDateOnly t)"
  by (simp add: toUtcDateOnly_modern modern_day)

lemma addDaysUtc_eq: "addDaysUtc t k = toUtcDateOnly t + k * msPerDay"
proof -
  define r where "r = toUtcDateOnly t"
  obtain y m d where c: "civil (r div msPerDay) = (y, m, d)"
    by (rule prod_cases3)
  have r: "r = r div msPerDay * msPerDay" "r mod msPerDay = 0"
    by (simp_all add: r_def)
  have "addDaysUtc t k = days_of y m (d + k) * msPerDay"
    using c r(2) by (simp add: addDaysUtc_def r_def [symmetric] setUTCDate_def
      getUTCFullYear_def getUTCMonth_def getUTCDate_def)
  also have "days_of y m (d + k) = r div msPerDay + k"
    using days_of_civil [OF c] days_of_linear [of y m d] days_of_linear [of y m "d + k"] by simp
  finally show ?thesis using r(1) by (simp add: algebra_simps r_def [symmetric])
qed

lemma daysBetween_eq:
  assumes "\<bar>k\<bar> \<le> 2 ^ 53" "toUtcDateOnly d2 = toUtcDateOnly d1 + k * msPerDay"
  shows "daysBetween d1 d2 = k"
  using assms by (simp add: daysBetween_def js_div_def js_round_exact)

lemma toUtcDateOnly_idem [simp]: "toUtcDateOnly (toUtcDateOnly t) = toUtcDateOnly t"
proof -
  obtain y m d where c: "civil (t div msPerDay) = (y, m, d)"
    by (rule prod_cases3)
  show ?thesis
  proof (cases "0 \<le> y \<and> y \<le> 99")
    case True
    then have e: "toUtcDateOnly t = days_of (1900 + y) m d * msPerDay"
      by (simp add: toUtcDateOnly_def date_UTC_def getUTCFullYear_def getUTCMonth_def
        getUTCDate_def c)
    have "days_of 100 0 1 \<le> days_of (1900 + y) 0 1"
      using True year_start_less [of 100 "1900 + y"] by auto
    also have "\<dots> \<le> days_of (1900 + y) m d"
      by (rule days_of_bounds(1) [OF civil_ranges [OF c]])
    finally have "modern (toUtcDateOnly t)" by (simp add: e modern_day)
    then show ?thesis by (rule toUtcDateOnly_fix) simp
  next
    case False
    then have "toUtcDateOnly t = t div msPerDay * msPerDay"
      using days_of_civil [OF c] by (auto simp: toUtcDateOnly_def date_UTC_def
        getUTCFullYear_def getUTCMonth_def getUTCDate_def c)
    then show ?thesis
      by (simp add: toUtcDateOnly_def getUTCFullYear_def getUTCMonth_def getUTCDate_def)
  qed
qed

lemma noticeGate_ok:
  "noticeGate e n = Inr r \<longleftrightarrow>
   isInteger n \<and> 0 < n \<and>
   r = \<lparr> cr_date = toUtcDateOnly e - \<lfloor>n\<rfloor> * msPerDay, cr_rule = ''notice_gate'',
         cr_version = ''v1'',
         cr_inputs = JObj [(''endDate'', JStr (isoDate (toUtcDateOnly e))),
                           (''noticePeriodDays'', JNum n)] \<rparr>"
  by (auto simp: noticeGate_def Let_def addDaysUtc_eq)

text \<open>
  the notice gate is the last day to serve notice. \<open>noticeGate\<close> refuses a notice period that
  is not a positive integer, and otherwise returns a midnight strictly before the end date from
  which \<open>daysBetween\<close> counts exactly the notice period, so that the two calculators the
  deadlines are made with invert each other.
\<close>

theorem noticeGate_correct:
  assumes "modern (toUtcDateOnly e - of_int \<lfloor>n\<rfloor> * msPerDay)" and "n \<le> 2 ^ 53"
  shows "if isInteger n \<and> 0 < n
    then \<exists>r. noticeGate e n = Inr r \<and> msPerDay dvd cr_date r \<and> cr_date r < toUtcDateOnly e \<and>
           addDaysUtc (cr_date r) \<lfloor>n\<rfloor> = toUtcDateOnly e \<and>
           of_int (daysBetween (cr_date r) e) = n
    else \<exists>msg. noticeGate e n = Inl (ThrownError msg)"
proof (cases "isInteger n \<and> 0 < n")
  case True
  define g where "g = toUtcDateOnly e - \<lfloor>n\<rfloor> * msPerDay"
  have n: "of_int \<lfloor>n\<rfloor> = n" and pos: "0 < \<lfloor>n\<rfloor>"
    using True by (auto simp: isInteger_def)
  have "(of_int \<lfloor>n\<rfloor> :: rat) \<le> of_int (2 ^ 53)" using assms(2) n by simp
  then have le: "\<lfloor>n\<rfloor> \<le> 2 ^ 53" by (simp only: of_int_le_iff)
  have fix_: "toUtcDateOnly g = g"
    by (rule toUtcDateOnly_fix) (use assms in \<open>simp_all add: g_def dvd_diff\<close>)
  have "daysBetween g e = \<lfloor>n\<rfloor>"
    by (rule daysBetween_eq) (use le pos fix_ in \<open>simp_all add: g_def\<close>)
  moreover have "addDaysUtc g \<lfloor>n\<rfloor> = toUtcDateOnly e"
    by (simp add: addDaysUtc_eq fix_) (simp add: g_def)
  moreover have "msPerDay dvd g" "g < toUtcDateOnly e"
    using pos by (simp_all add: g_def dvd_diff)
  ultimately show ?thesis
    using True n by (auto simp: noticeGate_ok g_def [symmetric])
next
  case False
  then show ?thesis by (auto simp: noticeGate_def)
qed

theorem noticeGate_correct_witness:
  "\<exists>r. noticeGate 1799971200000 90 = Inr r \<and> cr_date r < toUtcDateOnly 1799971200000"
proof -
  have m: "modern (toUtcDateOnly 1799971200000 - of_int \<lfloor>90 :: rat\<rfloor> * msPerDay)"
    by (simp add: toUtcDateOnly_modern modern_def msPerDay_def days_of_def)
  have "isInteger 90" by (simp add: isInteger_def)
  then show ?thesis using noticeGate_correct [OF m] by auto
qed

text \<open>
  \<open>todayInDubai\<close> is the calendar day of a clock four hours ahead of UTC: it is a midnight, and
  an instant belongs to it from 20:00 UTC of the day before until 20:00 UTC. It never moves
  backwards, and truncating it again changes nothing.
\<close>

theorem todayInDubai_day:
  assumes "modern (now + 14400000)"
  shows "msPerDay dvd todayInDubai now \<and>
    todayInDubai now - 14400000 \<le> now \<and> now < todayInDubai now - 14400000 + msPerDay \<and>
    toUtcDateOnly (todayInDubai now) = todayInDubai now \<and>
    (\<forall>later. now \<le> later \<longrightarrow> todayInDubai now \<le> todayInDubai later)"
proof -
  have today: "todayInDubai t = (t + 14400000) div msPerDay * msPerDay" if "now \<le> t" for t
    using assms that by (simp add: todayInDubai_def toUtcDateOnly_modern modern_def)
  have "todayInDubai now \<le> now + 14400000 \<and> now + 14400000 < todayInDubai now + msPerDay"
    using div_bounds [of msPerDay "now + 14400000"]
    by (simp add: today mult.commute)
  moreover have "todayInDubai now \<le> todayInDubai later" if "now \<le> later" for later
    using that by (simp add: today zdiv_mono1)
  ultimately show ?thesis by (simp add: todayInDubai_def)
qed

theorem todayInDubai_day_witness: "msPerDay dvd todayInDubai 1799971200000"
  using todayInDubai_day [of 1799971200000] by (simp add: modern_def msPerDay_def days_of_def)

text \<open>A printed date determines the day.\<close>

lemma toISODate_inj:
  assumes "0 \<le> getUTCFullYear s" "getUTCFullYear s \<le> 9999"
    and "0 \<le> getUTCFullYear t" "getUTCFullYear t \<le> 9999" and "toISODate s = toISODate t"
  shows "s div msPerDay = t div msPerDay"
proof -
  obtain y m d where c: "civil (s div msPerDay) = (y, m, d)" by (rule prod_cases3)
  obtain y' m' d' where c': "civil (t div msPerDay) = (y', m', d')" by (rule prod_cases3)
  note r = civil_ranges [OF c] civil_ranges [OF c']
  have y: "0 \<le> y" "y \<le> 9999" "0 \<le> y'" "y' \<le> 9999"
    using assms c c' by (simp_all add: getUTCFullYear_def)
  have e: "pad 4 (nat y) = pad 4 (nat y')" "pad 2 (nat (m + 1)) = pad 2 (nat (m' + 1))"
    "pad 2 (nat d) = pad 2 (nat d')"
    using assms y by (simp_all add: toISODate_def getUTCFullYear_def getUTCMonth_def
      getUTCDate_def c c' append_eq_append_conv del: pad.simps)
  have "nat y = nat y'" "nat (m + 1) = nat (m' + 1)" "nat d = nat d'"
    using pad_inj [OF e(1)] pad_inj [OF e(2)] pad_inj [OF e(3)] y r by auto
  then have "(y, m, d) = (y', m', d')" using y r by auto
  then show ?thesis using days_of_civil [OF c] days_of_civil [OF c'] by simp
qed

text \<open>
  the \<open>yyyy-mm-dd\<close> string that every calculator result, deadline and evidence row carries
  identifies the calendar day: within the years 0 to 9999 two dates print alike only when they
  are the same day.
\<close>

theorem isoDate_identifies_day:
  assumes "0 \<le> getUTCFullYear (toUtcDateOnly a)" "getUTCFullYear (toUtcDateOnly a) \<le> 9999"
    and "0 \<le> getUTCFullYear (toUtcDateOnly b)" "getUTCFullYear (toUtcDateOnly b) \<le> 9999"
  shows "isoDate a = isoDate b \<longleftrightarrow> toUtcDateOnly a = toUtcDateOnly b"
proof
  assume "isoDate a = isoDate b"
  then have "toUtcDateOnly a div msPerDay = toUtcDateOnly b div msPerDay"
    unfolding isoDate_def by (rule toISODate_inj [OF assms])
  then show "toUtcDateOnly a = toUtcDateOnly b"
    by (metis toUtcDateOnly_day dvd_div_mult_self)
qed (simp add: isoDate_def)

theorem isoDate_identifies_day_witness:
  "isoDate 1799971200000 \<noteq> isoDate 1800057600000"
proof -
  have "getUTCFullYear (toUtcDateOnly 1799971200000) = 2027"
    "getUTCFullYear (toUtcDateOnly 1800057600000) = 2027"
    "toUtcDateOnly 1799971200000 \<noteq> toUtcDateOnly 1800057600000"
    by code_simp+
  then show ?thesis using isoDate_identifies_day [of 1799971200000 1800057600000] by simp
qed

end
