(* ===== verification/Rent.thy ===== *)
theory Rent
  imports Dates
begin

text \<open>
  \<open>src/server/calculators/rent.ts\<close>: the rent position of a renewal. Every arithmetic operator
  of the code is the rounded one of \<^theory_text>\<open>Js_Numbers\<close>, in the order of the code, and a decimal
  literal is the double nearest to it.
\<close>

record rent_position =
  rp_currentRent :: rat
  rp_marketRentAvg :: rat
  rp_gapPct :: rat
  rp_bandPct :: int
  rp_ceiling :: rat
  rp_valueAtRisk :: rat
  rp_rule :: string
  rp_version :: string
  rp_inputs :: json

definition round2 :: "rat \<Rightarrow> rat" where
  "round2 n = js_div (of_int (js_round (js_mul n 100))) 100"

definition decree_band :: "rat \<Rightarrow> int" where
  "decree_band gapPct =
     (if gapPct \<le> fl (1 / 10) then 0
      else if gapPct \<le> fl (2 / 10) then 5
      else if gapPct \<le> fl (3 / 10) then 10
      else if gapPct \<le> fl (4 / 10) then 15
      else 20)"

definition decree43 :: "rat \<Rightarrow> rat \<Rightarrow> error + rent_position" where
  "decree43 currentRent marketRentAvg =
     (if \<not> 0 < currentRent \<or> \<not> 0 < marketRentAvg
      then Inl (ThrownError ''decree43 requires positive currentRent and marketRentAvg'')
      else
        let gapPct = max 0 (js_div (js_sub marketRentAvg currentRent) marketRentAvg);
            bandPct = decree_band gapPct;
            ceil = round2 (js_mul currentRent (js_add 1 (js_div (of_int bandPct) 100)));
            valueAtRisk = round2 (js_sub ceil currentRent)
        in Inr \<lparr> rp_currentRent = currentRent, rp_marketRentAvg = marketRentAvg,
             rp_gapPct = gapPct, rp_bandPct = bandPct, rp_ceiling = ceil,
             rp_valueAtRisk = valueAtRisk, rp_rule = ''decree_43'', rp_version = ''v1'',
             rp_inputs = JObj [(''currentRent'', JNum currentRent),
                               (''marketRentAvg'', JNum marketRentAvg)] \<rparr>)"

definition DECREE_43_CALCULATOR_VERSION :: string where
  "DECREE_43_CALCULATOR_VERSION = ''decree_43_v1''"

subsection \<open>The band\<close>

text \<open>The decree's own table, on the exact gap.\<close>

definition band_of_gap :: "rat \<Rightarrow> int" where
  "band_of_gap g =
     (if g \<le> 10 / 100 then 0 else if g \<le> 20 / 100 then 5 else if g \<le> 30 / 100 then 10
      else if g \<le> 40 / 100 then 15 else 20)"

text \<open>
  A quotient of integers below \<open>10 ^ 12\<close> that is above a tenth stays above it after rounding:
  it is further away than the two rounding errors together.
\<close>

lemma fl_tenths_iff:
  fixes p m k :: int
  assumes m: "0 < m" "m \<le> 10 ^ 12" and k: "0 \<le> k" "k \<le> 10" and p: "p \<le> m" "0 \<le> p"
  shows "fl (of_int p / of_int m) \<le> fl (of_int k / 10) \<longleftrightarrow> (of_int p / of_int m :: rat) \<le> of_int k / 10"
proof
  assume le: "fl (of_int p / of_int m) \<le> fl (of_int k / 10)"
  show "(of_int p / of_int m :: rat) \<le> of_int k / 10"
  proof (rule ccontr)
    assume "\<not> ?thesis"
    then have gt: "(of_int k / 10 :: rat) < of_int p / of_int m" by simp
    then have "(of_int (k * m) :: rat) < of_int (10 * p)" using m by (simp add: field_simps)
    then have "k * m + 1 \<le> 10 * p" by (simp only: of_int_less_iff)
    then have "(of_int (k * m + 1) :: rat) \<le> of_int (10 * p)" by (simp only: of_int_le_iff)
    then have "(of_int (k * m + 1) :: rat) / (10 * of_int m) \<le> of_int (10 * p) / (10 * of_int m)"
      using m by (intro divide_right_mono) simp_all
    then have far: "of_int k / 10 + 1 / (10 * of_int m) \<le> (of_int p / of_int m :: rat)"
      using m by (simp add: add_divide_distrib)
    have "(of_int m :: rat) \<le> of_int (10 ^ 12)" using m by (simp only: of_int_le_iff)
    then have gap: "1 / 10 ^ 13 \<le> 1 / (10 * of_int m :: rat)"
      using m by (simp add: field_simps)
    have x1: "(of_int p / of_int m :: rat) \<le> 1" "(0 :: rat) \<le> of_int p / of_int m"
      and k1: "(of_int k / 10 :: rat) \<le> 1" "(0 :: rat) \<le> of_int k / 10"
      using m k p by (simp_all add: field_simps)
    have "\<bar>fl (of_int p / of_int m) - of_int p / of_int m\<bar> \<le> 1 / 2 ^ 53"
      by (rule fl_error_le) (use x1 in linarith)
    moreover have "\<bar>fl (of_int k / 10) - of_int k / 10\<bar> \<le> 1 / 2 ^ 53"
      by (rule fl_error_le) (use k1 in linarith)
    moreover have "(2 :: rat) / 2 ^ 53 < 1 / 10 ^ 13" by simp
    ultimately show False using le far gap by linarith
  qed
next
  assume "(of_int p / of_int m :: rat) \<le> of_int k / 10"
  then show "fl (of_int p / of_int m) \<le> fl (of_int k / 10)" by (rule fl_mono)
qed

lemma decree_band_exact:
  fixes p m :: int
  assumes "0 < m" "m \<le> 10 ^ 12" "0 \<le> p" "p \<le> m"
  shows "decree_band (fl (of_int p / of_int m)) = band_of_gap (of_int p / of_int m)"
  using fl_tenths_iff [of m 1 p] fl_tenths_iff [of m 2 p] fl_tenths_iff [of m 3 p]
    fl_tenths_iff [of m 4 p] assms
  by (simp add: decree_band_def band_of_gap_def)

subsection \<open>The ceiling\<close>

text \<open>
  \<open>round2\<close> of a value that lies close to a whole number of hundredths is the double nearest to it.
\<close>

lemma abs_near: "\<bar>a - b\<bar> \<le> e \<Longrightarrow> \<bar>b\<bar> \<le> B \<Longrightarrow> B + e \<le> C \<Longrightarrow> \<bar>a\<bar> \<le> C" for a b :: rat
  by linarith

lemma abs_sum_near:
  "z = 100 * u + 100 * v \<Longrightarrow> \<bar>u\<bar> \<le> A \<Longrightarrow> \<bar>v\<bar> \<le> B \<Longrightarrow> 100 * A + 100 * B \<le> C \<Longrightarrow> \<bar>z\<bar> \<le> C"
  for z :: rat
  by linarith

lemma round2_near:
  assumes k: "\<bar>k\<bar> \<le> 2 ^ 48" and near: "\<bar>x * 100 - of_int k\<bar> \<le> 1 / 8"
  shows "round2 x = fl (of_int k / 100)"
proof -
  have "\<bar>(of_int k :: rat)\<bar> \<le> of_int (2 ^ 48)" using k by (simp only: of_int_abs [symmetric] of_int_le_iff)
  then have "\<bar>x * 100\<bar> \<le> 2 ^ 49" by (rule abs_near [OF near]) simp
  from fl_error_le [OF this] have "\<bar>fl (x * 100) - x * 100\<bar> \<le> 1 / 16" by simp
  then have "\<bar>fl (x * 100) - of_int k\<bar> < 1 / 2" using near by linarith
  then have "fl (x * 100) - of_int k < 1 / 2 \<and> of_int k - fl (x * 100) < 1 / 2"
    unfolding abs_less_iff by auto
  then have "js_round (fl (x * 100)) = k"
    unfolding js_round_def by (intro floor_unique) auto
  then show ?thesis by (simp add: round2_def js_mul_def js_div_def)
qed

lemma bands: "decree_band g \<in> {0, 5, 10, 15, 20}"
  by (simp add: decree_band_def)

text \<open>The factor \<open>1 + band / 100\<close> is computed to within two roundings.\<close>

lemma factor_near:
  assumes "b \<in> {0, 5, 10, 15, 20 :: int}"
  shows "\<bar>js_add 1 (js_div (of_int b) 100) - (1 + of_int b / 100)\<bar> \<le> 4 / 2 ^ 53"
proof -
  define q :: rat where "q = of_int b / 100"
  have q: "0 \<le> q" "q \<le> 1 / 5" using assms by (auto simp: q_def)
  have e1: "\<bar>fl q - q\<bar> \<le> 1 / 2 ^ 53" using fl_error_le [of q 1] q by simp
  moreover have "(1 :: rat) / 2 ^ 53 \<le> 1 / 2" by simp
  ultimately have "\<bar>1 + fl q\<bar> \<le> 2" using q by linarith
  then have e2: "\<bar>fl (1 + fl q) - (1 + fl q)\<bar> \<le> 2 / 2 ^ 53"
    by (rule fl_error_le)
  show ?thesis
    unfolding js_add_def js_div_def q_def [symmetric] using e1 e2 by linarith
qed

lemma ceiling_near:
  fixes c b :: int
  assumes c: "0 < c" "c \<le> 10 ^ 12" and b: "b \<in> {0, 5, 10, 15, 20}"
  shows "\<bar>js_mul (of_int c) (js_add 1 (js_div (of_int b) 100)) * 100 - of_int (c * (100 + b))\<bar> \<le> 1 / 8"
proof -
  define f where "f = js_add 1 (js_div (of_int b) 100)"
  define g :: rat where "g = 1 + of_int b / 100"
  have fg: "\<bar>f - g\<bar> \<le> 4 / 2 ^ 53" unfolding f_def g_def by (rule factor_near [OF b])
  have g: "1 \<le> g" "g \<le> 6 / 5" using b by (auto simp: g_def)
  have cr: "(0 :: rat) < of_int c" "(of_int c :: rat) \<le> 10 ^ 12"
    using c by simp_all
  have e1: "\<bar>of_int c * f - of_int c * g\<bar> \<le> 10 ^ 12 * (4 / 2 ^ 53)"
    using mult_mono [of "of_int c" "10 ^ 12" "\<bar>f - g\<bar>" "4 / 2 ^ 53 :: rat"] cr fg
    by (simp add: right_diff_distrib [symmetric] abs_mult)
  have "(4 :: rat) / 2 ^ 53 \<le> 1 / 2" by simp
  then have "\<bar>f\<bar> \<le> 2" using fg g by linarith
  then have "\<bar>of_int c * f\<bar> \<le> 10 ^ 12 * 2"
    using mult_mono [of "of_int c" "10 ^ 12" "\<bar>f\<bar>" "2 :: rat"] cr fg g by (simp add: abs_mult)
  then have e2: "\<bar>fl (of_int c * f) - of_int c * f\<bar> \<le> 10 ^ 12 * 2 / 2 ^ 53"
    by (rule fl_error_le)
  have "of_int c * g * 100 = of_int (c * (100 + b))" by (simp add: g_def field_simps)
  moreover have "10 ^ 12 * (4 / 2 ^ 53) + 10 ^ 12 * 2 / 2 ^ 53 \<le> (1 / 800 :: rat)" by simp
  ultimately show ?thesis unfolding js_mul_def f_def [symmetric] using e1 e2 by linarith
qed

lemma decree43_ok:
  fixes c m :: int
  assumes c: "0 < c" "c \<le> 10 ^ 12" and m: "0 < m" "m \<le> 10 ^ 12"
    and r: "decree43 (of_int c) (of_int m) = Inr r"
  shows "rp_bandPct r = band_of_gap (max 0 ((of_int m - of_int c) / of_int m))"
    and "rp_ceiling r = fl (of_int (c * (100 + rp_bandPct r)) / 100)"
    and "rp_valueAtRisk r = fl (of_int (c * rp_bandPct r) / 100)"
proof -
  define p where "p = max 0 (m - c)"
  define b where "b = rp_bandPct r"
  have gap: "max 0 (js_div (js_sub (of_int m) (of_int c)) (of_int m)) = fl (of_int p / of_int m)"
  proof (cases "c \<le> m")
    case True
    then have "js_sub (of_int m) (of_int c) = of_int p"
      using c m fl_of_int [of "m - c"] by (simp add: js_sub_def p_def)
    moreover have "0 \<le> fl (of_int p / of_int m)"
      using m by (intro fl_nonneg) (simp add: p_def)
    ultimately show ?thesis by (simp add: js_div_def max_def)
  next
    case False
    then have "js_sub (of_int m) (of_int c) = of_int (m - c)"
      using c m fl_of_int [of "m - c"] by (simp add: js_sub_def)
    moreover have "(of_int (m - c) :: rat) / of_int m \<le> 0"
      using False m by (simp add: divide_nonpos_pos)
    then have "fl (of_int (m - c) / of_int m) \<le> fl 0" by (rule fl_mono)
    ultimately show ?thesis using False by (simp add: js_div_def p_def)
  qed
  have "b = decree_band (fl (of_int p / of_int m))"
    using r c m unfolding decree43_def Let_def gap b_def by (auto split: if_splits)
  also have "\<dots> = band_of_gap (of_int p / of_int m)"
    by (rule decree_band_exact) (use c m in \<open>auto simp: p_def\<close>)
  also have "(of_int p :: rat) / of_int m = max 0 ((of_int m - of_int c) / of_int m)"
    using m by (auto simp: p_def max_def zero_le_divide_iff divide_nonpos_pos)
  finally show band: "rp_bandPct r = band_of_gap (max 0 ((of_int m - of_int c) / of_int m))"
    unfolding b_def .
  have bset: "b \<in> {0, 5, 10, 15, 20}" unfolding b_def band by (simp add: band_of_gap_def)
  have small: "\<bar>c * (100 + b)\<bar> \<le> 2 ^ 48" "\<bar>c * b\<bar> \<le> 2 ^ 48" using c bset by auto
  have ceil: "rp_ceiling r = round2 (js_mul (of_int c) (js_add 1 (js_div (of_int b) 100)))"
    and risk: "rp_valueAtRisk r = round2 (js_sub (rp_ceiling r) (of_int c))"
    using r by (auto simp: decree43_def Let_def b_def split: if_splits)
  show top: "rp_ceiling r = fl (of_int (c * (100 + rp_bandPct r)) / 100)"
    unfolding ceil b_def [symmetric] by (rule round2_near [OF small(1) ceiling_near [OF c bset]])
  define x :: rat where "x = of_int (c * (100 + b)) / 100"
  have x: "x * 100 = of_int (c * b) + of_int c * 100" "\<bar>x\<bar> \<le> 2 * 10 ^ 12"
    using c bset by (auto simp: x_def algebra_simps)
  have e1: "\<bar>fl x - x\<bar> \<le> 2 * 10 ^ 12 / 2 ^ 53" by (rule fl_error_le [OF x(2)])
  have "\<bar>x - of_int c\<bar> \<le> 3 * 10 ^ 12" using c bset by (auto simp: x_def abs_le_iff)
  moreover have "\<bar>fl x - of_int c - (x - of_int c)\<bar> \<le> 2 * 10 ^ 12 / 2 ^ 53" using e1 by simp
  ultimately have "\<bar>fl x - of_int c\<bar> \<le> 3 * 10 ^ 12 + 2 * 10 ^ 12 / 2 ^ 53" by linarith
  also have "\<dots> \<le> 4 * 10 ^ 12" by simp
  finally have "\<bar>fl x - of_int c\<bar> \<le> 4 * 10 ^ 12" .
  from fl_error_le [OF this]
  have e2: "\<bar>js_sub (fl x) (of_int c) - (fl x - of_int c)\<bar> \<le> 4 * 10 ^ 12 / 2 ^ 53"
    by (simp add: js_sub_def)
  have "\<bar>js_sub (fl x) (of_int c) * 100 - of_int (c * b)\<bar> \<le> 1 / 8"
  proof -
    have "js_sub (fl x) (of_int c) * 100 - of_int (c * b)
        = 100 * (js_sub (fl x) (of_int c) - (fl x - of_int c)) + 100 * (fl x - x)"
      using x(1) by (simp add: algebra_simps)
    then show ?thesis by (rule abs_sum_near [OF _ e2 e1]) simp
  qed
  then show "rp_valueAtRisk r = fl (of_int (c * rp_bandPct r) / 100)"
    unfolding risk top b_def [symmetric] x_def [symmetric] by (rule round2_near [OF small(2)])
qed

text \<open>
  C10: the rent position of whole-dirham rents (up to a million million) is the decree's table
  exactly, floating point included: the band is the one of the exact gap below market, the
  ceiling and the value at risk are the doubles nearest to \<open>rent * (100 + band) / 100\<close> and
  \<open>rent * band / 100\<close>, so the increase is never negative and never above a fifth of the rent;
  and a rent that is not positive is refused.
\<close>

theorem decree43_correct:
  fixes c m :: int
  assumes "c \<le> 10 ^ 12" and "m \<le> 10 ^ 12"
  shows "if 0 < c \<and> 0 < m
    then \<exists>r band. decree43 (of_int c) (of_int m) = Inr r \<and>
      band = band_of_gap (max 0 ((of_int m - of_int c) / of_int m)) \<and> rp_bandPct r = band \<and>
      rp_ceiling r = fl (of_int (c * (100 + band)) / 100) \<and>
      rp_valueAtRisk r = fl (of_int (c * band) / 100) \<and>
      0 \<le> rp_valueAtRisk r \<and> rp_valueAtRisk r \<le> fl (of_int c / 5)
    else \<exists>msg. decree43 (of_int c) (of_int m) = Inl (ThrownError msg)"
proof (cases "0 < c \<and> 0 < m")
  case True
  then obtain r where r: "decree43 (of_int c) (of_int m) = Inr r"
    by (auto simp: decree43_def Let_def)
  define band where "band = rp_bandPct r"
  note ok = decree43_ok [OF _ assms(1) _ assms(2) r]
  have b: "0 \<le> band" "band \<le> 20"
    using ok(1) True by (auto simp: band_def band_of_gap_def)
  have "0 \<le> rp_valueAtRisk r"
    using ok(3) True b by (auto simp: band_def [symmetric] intro: fl_nonneg)
  moreover have "c * band \<le> c * 20" using True b by (intro mult_left_mono) auto
  then have "(of_int (c * band) :: rat) \<le> of_int (c * 20)" by (simp only: of_int_le_iff)
  then have "fl (of_int (c * band) / 100) \<le> fl (of_int c / 5)"
    by (intro fl_mono) (simp add: mult.commute)
  then have "rp_valueAtRisk r \<le> fl (of_int c / 5)"
    using ok(3) True by (simp add: band_def [symmetric])
  ultimately show ?thesis using True r ok by auto
next
  case False
  then show ?thesis by (auto simp: decree43_def)
qed

theorem decree43_correct_witness:
  "\<exists>r. decree43 90000 100000 = Inr r \<and> rp_bandPct r = 0 \<and> rp_ceiling r = fl 90000"
  using decree43_correct [of 90000 100000] by (auto simp: band_of_gap_def)

text \<open>
  with fils the double arithmetic can miss the band: a rent of 1599.60 against a market of
  1999.50 is exactly 20 percent below, which the decree puts in the 5 percent band, and the
  code computes a gap above the literal \<open>0.2\<close> and answers 10.
\<close>

theorem decree43_fils_boundary:
  "(1999.5 - 1599.6 :: rat) / 1999.5 = 20 / 100 \<and> band_of_gap (20 / 100) = 5 \<and>
   map_sum id rp_bandPct (decree43 (fl 1599.6) (fl 1999.5)) = Inr 10"
  by code_simp

end
