(* ===== verification/Schema.thy ===== *)
theory Schema
  imports Rent
begin

text \<open>
  The database of \<open>prisma/schema.prisma\<close>: its enums, one record per table the modelled services
  touch (with the columns they read or write), and the database as a whole. A column \<open>x\<close> of a
  table is the field \<open>p_x\<close>, \<open>p\<close> the table's prefix; an optional column is an \<open>option\<close>; the members
  of an enum carry the prefix of their enum, except the roles.

  Ids are natural numbers below the counter \<open>w_next\<close>, which stands for the supply of fresh
  uuids; a \<open>Decimal\<close> column holds the JavaScript number that \<open>Number(..)\<close> reads back from it
  (\<open>column\<close> below); \<open>now\<close> is the clock an operation reads, and \<open>w_blobs\<close> is the object store
  behind \<open>storage\<close>. A \<open>payloadHash\<close> holds the value that is hashed, under the constructor
  \<open>Sha256\<close>.
\<close>

type_synonym uid = nat

datatype digest = Sha256 json

text \<open>
  A number written to a \<open>Decimal(n, k)\<close> column is rounded to \<open>k\<close> decimals, halves away from zero,
  and read back as the nearest double. (The database rounds the shortest decimal that names the
  double, which differs from this only when that decimal ends exactly on a half; a number too
  large for the column is an error of the database that is not a branch here.)
\<close>

definition half_away :: "rat \<Rightarrow> int" where
  "half_away x = (if 0 \<le> x then \<lfloor>x + 1 / 2\<rfloor> else - \<lfloor>1 / 2 - x\<rfloor>)"

definition column :: "nat \<Rightarrow> rat \<Rightarrow> rat" where
  "column k x = fl (of_int (half_away (x * 10 ^ k)) / 10 ^ k)"

abbreviation money :: "rat \<Rightarrow> rat" where
  "money \<equiv> column 2"

lemma half_away_of_int [simp]: "half_away (of_int n) = n"
proof -
  have "\<lfloor>of_int n + 1 / 2 :: rat\<rfloor> = n" "\<lfloor>1 / 2 - of_int n :: rat\<rfloor> = - n"
    by (rule floor_unique; simp)+
  then show ?thesis by (simp add: half_away_def)
qed

lemma column_of_int: "\<bar>n\<bar> \<le> 2 ^ 53 \<Longrightarrow> column k (of_int n) = of_int n"
proof -
  assume n: "\<bar>n\<bar> \<le> 2 ^ 53"
  have "(of_int n :: rat) * 10 ^ k = of_int (n * 10 ^ k)" by simp
  then have "column k (of_int n) = fl (of_int (n * 10 ^ k) / 10 ^ k)"
    unfolding column_def by (metis half_away_of_int)
  then show ?thesis using n by (simp add: fl_of_int)
qed

subsection \<open>Enums\<close>

datatype role =
    WORKSPACE_ADMIN | MANAGER | FIDUCIARY | ORG_ADMIN | CLIENT_VIEWER | AGENT
  | MANAGING_AGENT | LICENSED_PARTNER | VENDOR | AUDITOR | LANDLORD | TENANT

datatype workspaceType =
    WT_OWNER | WT_FIDUCIARY | WT_OPERATOR | WT_INTERNAL

datatype capBundle =
    B_PRINCIPAL | B_ORG_ADMIN | B_DELEGATE | B_CLIENT_VIEWER

datatype contactKind =
    CK_OWNER | CK_TENANT | CK_AGENT | CK_VENDOR | CK_CONTRACTOR | CK_CLIENT | CK_PARTNER
  | CK_BUILDING_MANAGEMENT | CK_ACCOUNTANT | CK_LAWYER | CK_OTHER

datatype tenancyStatus =
    T_ACTIVE | T_RENEWAL_DUE | T_NOTICE_SERVED | T_NEGOTIATING | T_RENEWED | T_ENDING
  | T_DISPUTED | T_ARCHIVED

datatype recordSource =
    RS_OCR | RS_EXCEL | RS_MANUAL

datatype listingStatus =
    L_DRAFT | L_PUBLISHED | L_ARCHIVED

datatype passportStatus =
    PS_DRAFT | PS_READY

datatype enquiryStatus =
    EN_NEW | EN_CONTACTED | EN_CLOSED

datatype viewingStatus =
    VW_REQUESTED | VW_CONFIRMED | VW_COMPLETED | VW_CANCELLED | VW_NO_SHOW

datatype deadlineKind =
    DK_NOTICE_GATE | DK_CONTRACT_EXPIRY | DK_RENEWAL_DATE | DK_CHEQUE_DUE
  | DK_CHEQUE_FOLLOWUP | DK_SERVICE_CHARGE_DUE | DK_INSURANCE_EXPIRY | DK_DOCUMENT_EXPIRY
  | DK_APPROVAL_DUE | DK_TENANT_RESPONSE_DUE | DK_EJARI_RENEWAL | DK_PERMIT_EXPIRY
  | DK_CUSTOM

datatype deadlineStatus =
    DL_OPEN | DL_DONE | DL_MISSED | DL_CANCELLED

datatype instrument =
    I_CHEQUE | I_TRANSFER | I_DDS

datatype paymentStatus =
    P_SCHEDULED | P_REQUESTED | P_RECEIVED | P_DEPOSITED | P_CLEARED | P_LATE | P_BOUNCED
  | P_CANCELLED

datatype scopeType =
    S_WORKSPACE | S_CLIENT | S_PROPERTY | S_TENANCY | S_PAYMENT_ITEM | S_PROOF_REQUEST
  | S_MAINTENANCE_CASE | S_IMPORT_BATCH | S_REPORT | S_TASK | S_RENEWAL_CASE | S_OFFER
  | S_LISTING | S_TENANT_PASSPORT

datatype documentKind =
    DOC_TENANCY_CONTRACT | DOC_EJARI_CERTIFICATE | DOC_TITLE_DEED | DOC_ID_DOCUMENT
  | DOC_CHEQUE_IMAGE | DOC_RECEIPT | DOC_BANK_CONFIRMATION | DOC_INVOICE | DOC_QUOTATION
  | DOC_MAINTENANCE_PHOTO | DOC_HANDOVER_REPORT | DOC_NOTICE | DOC_ACKNOWLEDGEMENT
  | DOC_APPROVAL | DOC_SERVICE_CHARGE_STATEMENT | DOC_POA_NOC | DOC_OTHER

datatype proofStatus =
    PF_OPEN | PF_SENT | PF_WAITING_PROOF | PF_SUBMITTED | PF_APPROVED | PF_REJECTED
  | PF_OVERDUE | PF_CLOSED

datatype linkPurpose =
    LP_PROOF_UPLOAD | LP_DOCUMENT_SHARE | LP_APPROVAL | LP_TENANT_OFFER | LP_LISTING_VIEW
  | LP_PASSPORT_SHARE

datatype notificationCategory =
    NC_DEADLINES | NC_PAYMENTS | NC_RENEWALS | NC_PROOFS | NC_RISK | NC_DIGEST
  | NC_ENQUIRIES

datatype cadence =
    CD_IMMEDIATE | CD_DAILY | CD_WEEKLY | CD_OFF

datatype channel =
    CH_EMAIL | CH_WHATSAPP | CH_SMS | CH_INAPP

datatype direction =
    DIR_OUTBOUND | DIR_INBOUND

datatype messageStatus =
    MS_QUEUED | MS_SENT | MS_DELIVERED | MS_READ | MS_FAILED | MS_RECEIVED

datatype actorType =
    A_USER | A_STAFF | A_SYSTEM | A_PARTNER | A_TENANT_LINK | A_VENDOR_LINK

text \<open>Of the evidence types, those the modelled services write.\<close>

datatype evidenceType =
    EV_DOCUMENT_UPLOADED | EV_FIELD_CORRECTED | EV_IMPORT_COMMITTED
  | EV_IMPORT_ROLLED_BACK | EV_REMINDER_SENT | EV_PROOF_REQUESTED | EV_PROOF_UPLOADED
  | EV_PROOF_APPROVED | EV_PROOF_REJECTED | EV_CHEQUE_DUE | EV_CHEQUE_RECEIVED
  | EV_CHEQUE_DEPOSITED | EV_CHEQUE_CLEARED | EV_CHEQUE_BOUNCED | EV_APPROVAL_REQUESTED
  | EV_APPROVAL_GRANTED | EV_APPROVAL_REJECTED | EV_RENEWAL_ASSESSMENT_CREATED
  | EV_RENEWAL_COMPLETED | EV_INDEX_CAPTURED | EV_NOTICE_GENERATED | EV_NOTICE_APPROVED
  | EV_NOTICE_SERVICE_RECORDED | EV_NOTICE_SERVED | EV_OFFER_PROPOSED | EV_OFFER_COUNTERED
  | EV_OFFER_ACCEPTED | EV_TENANT_ACKNOWLEDGED | EV_CONSENT_GRANTED | EV_CONSENT_REVOKED
  | EV_RISK_FLAG_RAISED | EV_RISK_FLAG_CLEARED | EV_MOVEIN_ACKNOWLEDGED
  | EV_MOVEIN_COMPLETED | EV_DEPOSIT_RECEIPT_VIEWED | EV_LISTING_CREATED | EV_LISTING_UPDATED
  | EV_LISTING_PUBLISHED | EV_LISTING_ARCHIVED | EV_LISTING_VIEWED | EV_LANDLORD_VERIFIED
  | EV_PASSPORT_SHARED | EV_PASSPORT_VIEWED | EV_ENQUIRY_RECEIVED | EV_VIEWING_SCHEDULED
  | EV_VIEWING_COMPLETED | EV_CONTRACT_PACK_GENERATED | EV_CONTRACT_PACK_SENT
  | EV_CONTRACT_PACK_SIGNED

datatype riskCode =
    RK_MISSING_EJARI | RK_MISSING_END_DATE | RK_CHEQUE_TOTAL_MISMATCH
  | RK_NOTICE_GATE_WITHIN_30D | RK_PROOF_OVERDUE | RK_AGENT_UNRESPONSIVE | RK_PAYMENT_LATE
  | RK_INVOICE_WITHOUT_QUOTE | RK_MAINTENANCE_DONE_WITHOUT_TENANT_CONFIRMATION
  | RK_DOCUMENT_EXPIRED | RK_APPROVAL_PENDING_TOO_LONG | RK_TENANCY_OVERLAP
  | RK_PROPOSED_INCREASE_ABOVE_INDEX_BAND | RK_RENEWAL_NOTICE_WINDOW_MISSED

datatype severity =
    SEV_INFO | SEV_WARN | SEV_CRITICAL

datatype raisedBy =
    RB_RULE | RB_AGENT_PROPOSED | RB_STAFF

datatype flagStatus =
    F_OPEN | F_ACKNOWLEDGED | F_CLEARED

datatype indexSource =
    IX_SMART_RENTAL_INDEX_2025 | IX_RERA_INDEX_LEGACY | IX_MANUAL_CONCIERGE

datatype offerParty =
    OP_LANDLORD | OP_TENANT

datatype offerStatus =
    O_SENT | O_COUNTERED | O_ACCEPTED | O_SUPERSEDED | O_WITHDRAWN

datatype noticeKind =
    NK_RENEWAL_CHANGE | NK_NON_RENEWAL

datatype noticeStatus =
    N_GENERATED | N_APPROVED | N_SERVICE_RECORDED_PENDING_EVIDENCE | N_SERVED | N_WITHDRAWN

datatype serviceMethod =
    SM_EMAIL | SM_COURIER | SM_IN_PERSON | SM_REGISTERED_POST | SM_OTHER

datatype renewalStatus =
    R_ASSESSING | R_NOTICE_DUE | R_NOTICE_SERVED | R_NEGOTIATING | R_AGREED | R_RENEWED
  | R_DECLINED | R_LAPSED

datatype consentPurpose =
    CP_PROCESSING | CP_MESSAGING | CP_DOCUMENT_STORAGE | CP_LINK_INTERACTION | CP_PASSPORT_SHARING

datatype consentSource =
    CS_SECURE_LINK | CS_WHATSAPP_OPTIN | CS_FORM | CS_CONTRACT

datatype approvalDecision =
    AD_APPROVED | AD_REJECTED

datatype contractPackStatus =
    CPK_GENERATED | CPK_SENT_FOR_SIGNATURE | CPK_SIGNED

datatype moveInStatus =
    MI_PENDING | MI_PARTIALLY_ACKNOWLEDGED | MI_COMPLETED

datatype docAccessAction =
    DA_VIEWED | DA_DOWNLOADED | DA_UPLOADED | DA_DELETED | DA_EXPORTED | DA_SHARED

subsection \<open>Tables\<close>

record workspace =
  ws_id :: uid
  ws_name :: string
  ws_type :: workspaceType
  ws_suspendedAt :: "time option"
  ws_archivedAt :: "time option"

record user =
  us_id :: uid
  us_email :: string
  us_name :: string
  us_phone :: "string option"
  us_locale :: string
  us_isPlatformAdmin :: bool
  us_passwordHash :: "string option"
  us_passwordSetAt :: "time option"
  us_failedLoginCount :: int
  us_loginLockedUntil :: "time option"

record membership =
  mb_id :: uid
  mb_workspaceId :: uid
  mb_userId :: uid
  mb_role :: role
  mb_clientPrincipalId :: "uid option"
  mb_subjectContactId :: "uid option"
  mb_createdAt :: time
  mb_revokedAt :: "time option"

record membership_grant =
  gr_id :: uid
  gr_membershipId :: uid
  gr_bundle :: capBundle
  gr_grantedById :: uid
  gr_grantedAt :: time
  gr_revokedAt :: "time option"
  gr_revokedById :: "uid option"

record property_assignment =
  as_id :: uid
  as_workspaceId :: uid
  as_membershipId :: uid
  as_propertyId :: uid
  as_assignedById :: "uid option"
  as_assignedAt :: time
  as_revokedAt :: "time option"
  as_revokedById :: "uid option"

record workspace_invite =
  iv_id :: uid
  iv_workspaceId :: uid
  iv_email :: string
  iv_intendedBundles :: "capBundle list"
  iv_intendedRole :: "role option"
  iv_subjectContactId :: "uid option"
  iv_tokenHash :: string
  iv_invitedById :: "uid option"
  iv_platformIssued :: bool
  iv_expiresAt :: time
  iv_acceptedAt :: "time option"
  iv_acceptedUserId :: "uid option"
  iv_revokedAt :: "time option"
  iv_createdAt :: time

record client_principal =
  cp_id :: uid
  cp_workspaceId :: uid
  cp_displayName :: string
  cp_contactInfo :: "json option"
  cp_notes :: "string option"
  cp_archivedAt :: "time option"

record contact =
  ct_id :: uid
  ct_workspaceId :: uid
  ct_kind :: contactKind
  ct_name :: string
  ct_phone :: "string option"
  ct_email :: "string option"
  ct_company :: "string option"
  ct_emiratesId :: "string option"
  ct_nationality :: "string option"
  ct_licenseNo :: "string option"
  ct_licensingAuthority :: "string option"
  ct_notes :: "string option"
  ct_verifiedAt :: "time option"
  ct_verifiedById :: "uid option"
  ct_archivedAt :: "time option"

record property =
  pr_id :: uid
  pr_workspaceId :: uid
  pr_clientPrincipalId :: "uid option"
  pr_ownerContactId :: "uid option"
  pr_community :: string
  pr_building :: "string option"
  pr_unitNo :: "string option"
  pr_emirate :: string
  pr_propertyType :: "string option"
  pr_bedrooms :: "int option"
  pr_sizeSqft :: "int option"
  pr_usage :: "string option"
  pr_plotNo :: "string option"
  pr_makaniNo :: "string option"
  pr_dewaPremiseNo :: "string option"
  pr_sizeSqm :: "rat option"
  pr_assignedAgentId :: "uid option"
  pr_notes :: "string option"
  pr_archivedAt :: "time option"

record tenancy =
  tn_id :: uid
  tn_workspaceId :: uid
  tn_propertyId :: uid
  tn_landlordContactId :: "uid option"
  tn_tenantContactId :: "uid option"
  tn_ejariNo :: "string option"
  tn_startDate :: time
  tn_endDate :: time
  tn_annualRent :: rat
  tn_depositAmount :: "rat option"
  tn_paymentTermsNote :: "string option"
  tn_noticePeriodDays :: int
  tn_noticeGateAt :: "time option"
  tn_status :: tenancyStatus
  tn_source :: recordSource
  tn_contractDocId :: "uid option"
  tn_createdAt :: time
  tn_archivedAt :: "time option"
  tn_renewsFromTenancyId :: "uid option"

record listing =
  ls_id :: uid
  ls_workspaceId :: uid
  ls_propertyId :: uid
  ls_status :: listingStatus
  ls_headline :: "string option"
  ls_askingRent :: "rat option"
  ls_availableFrom :: "time option"
  ls_furnished :: "bool option"
  ls_description :: "string option"
  ls_permitRef :: "string option"
  ls_permitExpiry :: "time option"
  ls_readinessScore :: "int option"
  ls_readiness :: "json option"
  ls_publishedAt :: "time option"
  ls_createdById :: uid
  ls_createdAt :: time
  ls_archivedAt :: "time option"

record tenant_passport =
  pp_id :: uid
  pp_workspaceId :: uid
  pp_contactId :: uid
  pp_status :: passportStatus
  pp_employer :: "string option"
  pp_jobTitle :: "string option"
  pp_monthlyIncome :: "rat option"
  pp_nationality :: "string option"
  pp_householdSize :: "int option"
  pp_moveInBy :: "time option"
  pp_summary :: "string option"
  pp_createdAt :: time

record enquiry =
  en_id :: uid
  en_workspaceId :: uid
  en_listingId :: "uid option"
  en_propertyId :: "uid option"
  en_name :: string
  en_email :: "string option"
  en_phone :: "string option"
  en_message :: "string option"
  en_status :: enquiryStatus
  en_source :: "string option"
  en_secureLinkId :: "uid option"
  en_createdAt :: time

record viewing =
  vw_id :: uid
  vw_workspaceId :: uid
  vw_propertyId :: uid
  vw_listingId :: "uid option"
  vw_enquiryId :: "uid option"
  vw_contactId :: "uid option"
  vw_prospectName :: "string option"
  vw_scheduledAt :: time
  vw_status :: viewingStatus
  vw_notes :: "string option"
  vw_createdById :: "uid option"
  vw_createdAt :: time

record deadline =
  dl_id :: uid
  dl_workspaceId :: uid
  dl_tenancyId :: "uid option"
  dl_propertyId :: "uid option"
  dl_kind :: deadlineKind
  dl_dueAt :: time
  dl_status :: deadlineStatus
  dl_computedFrom :: json
  dl_createdAt :: time

record payment_item =
  pi_id :: uid
  pi_workspaceId :: uid
  pi_tenancyId :: uid
  pi_seq :: int
  pi_dueDate :: time
  pi_amount :: rat
  pi_instrument :: instrument
  pi_chequeNo :: "string option"
  pi_bank :: "string option"
  pi_status :: paymentStatus
  pi_proofDocId :: "uid option"
  pi_confirmedById :: "uid option"
  pi_notes :: "string option"

record document =
  dc_id :: uid
  dc_workspaceId :: uid
  dc_scopeType :: scopeType
  dc_scopeId :: "uid option"
  dc_kind :: documentKind
  dc_fileName :: string
  dc_mime :: string
  dc_sizeBytes :: nat
  dc_storageKey :: string
  dc_sha256 :: string
  dc_uploadedById :: "uid option"
  dc_secureLinkId :: "uid option"
  dc_createdAt :: time
  dc_archivedAt :: "time option"

record proof_request =
  pf_id :: uid
  pf_workspaceId :: uid
  pf_scopeType :: scopeType
  pf_scopeId :: "uid option"
  pf_title :: string
  pf_requiredEvidence :: string
  pf_assignedContactId :: uid
  pf_dueAt :: "time option"
  pf_status :: proofStatus
  pf_decisionById :: "uid option"
  pf_decisionAt :: "time option"
  pf_decisionNote :: "string option"
  pf_createdById :: uid
  pf_createdAt :: time

record secure_link =
  sl_id :: uid
  sl_workspaceId :: uid
  sl_purpose :: linkPurpose
  sl_scopeType :: scopeType
  sl_scopeId :: uid
  sl_contactId :: "uid option"
  sl_tokenHash :: string
  sl_expiresAt :: time
  sl_maxUses :: "int option"
  sl_useCount :: int
  sl_revokedAt :: "time option"
  sl_createdById :: uid
  sl_createdAt :: time

record notification_message =
  nm_id :: uid
  nm_workspaceId :: uid
  nm_channel :: channel
  nm_direction :: direction
  nm_toUserId :: "uid option"
  nm_toContactId :: "uid option"
  nm_templateCode :: "string option"
  nm_subject :: "string option"
  nm_bodyRef :: "string option"
  nm_providerRef :: "string option"
  nm_status :: messageStatus
  nm_relatedType :: "scopeType option"
  nm_relatedId :: "uid option"
  nm_category :: "notificationCategory option"
  nm_urgent :: bool
  nm_readAt :: "time option"
  nm_digestedAt :: "time option"
  nm_emailMessageId :: "uid option"
  nm_createdAt :: time

record notification_preference =
  np_workspaceId :: uid
  np_userId :: uid
  np_category :: notificationCategory
  np_cadence :: cadence
  np_inAppEnabled :: bool

datatype outboxStatus = OB_pending | OB_processing | OB_dispatched | OB_failed

record outbox_entry =
  ob_id :: uid
  ob_topic :: string
  ob_payload :: json
  ob_status :: outboxStatus
  ob_attempts :: int
  ob_availableAt :: time
  ob_lockedUntil :: "time option"
  ob_idempotencyKey :: "string option"

record evidence_event =
  ev_id :: uid
  ev_workspaceId :: uid
  ev_type :: evidenceType
  ev_actorType :: actorType
  ev_actorId :: "uid option"
  ev_onBehalfOfId :: "uid option"
  ev_scopeType :: scopeType
  ev_scopeId :: "uid option"
  ev_propertyId :: "uid option"
  ev_tenancyId :: "uid option"
  ev_payload :: "json option"
  ev_payloadHash :: "digest option"
  ev_supersedesId :: "uid option"
  ev_createdAt :: time

record audit_event =
  au_id :: uid
  au_workspaceId :: "uid option"
  au_actorType :: actorType
  au_actorId :: "uid option"
  au_onBehalfOfId :: "uid option"
  au_verb :: string
  au_objectType :: string
  au_objectId :: "uid option"
  au_payloadHash :: "digest option"
  au_ip :: "string option"
  au_createdAt :: time

record risk_flag =
  rf_id :: uid
  rf_workspaceId :: uid
  rf_scopeType :: scopeType
  rf_scopeId :: uid
  rf_code :: riskCode
  rf_severity :: severity
  rf_raisedBy :: raisedBy
  rf_ruleVersion :: "string option"
  rf_status :: flagStatus
  rf_raisedAt :: time
  rf_clearedAt :: "time option"
  rf_clearedById :: "uid option"

record rent_index_capture =
  ri_id :: uid
  ri_workspaceId :: uid
  ri_tenancyId :: uid
  ri_propertyId :: uid
  ri_marketRentAvg :: rat
  ri_source :: string
  ri_indexSource :: "indexSource option"
  ri_gapPct :: "rat option"
  ri_permittedPct :: "int option"
  ri_permittedNewRentMax :: "rat option"
  ri_calculatorVersion :: "string option"
  ri_comparableBasis :: "json option"
  ri_sourceRef :: "json option"
  ri_capturedAt :: time
  ri_capturedById :: "uid option"
  ri_note :: "string option"
  ri_createdAt :: time

record rent_index_benchmark =
  bm_id :: uid
  bm_workspaceId :: uid
  bm_community :: string
  bm_building :: "string option"
  bm_marketRentAvg :: rat
  bm_source :: string
  bm_capturedAt :: time
  bm_capturedById :: "uid option"
  bm_note :: "string option"
  bm_createdAt :: time

record renewal_case =
  rc_id :: uid
  rc_workspaceId :: uid
  rc_tenancyId :: uid
  rc_propertyId :: uid
  rc_status :: renewalStatus
  rc_currentRentSnapshot :: rat
  rc_noticeGateAt :: "time option"
  rc_expiresAt :: time
  rc_renewalDate :: time
  rc_noticeServedAt :: "time option"
  rc_noticeDocId :: "uid option"
  rc_decidedOfferId :: "uid option"
  rc_renewedTenancyId :: "uid option"
  rc_indexCaptureId :: "uid option"
  rc_proposedRent :: "rat option"
  rc_proposedStartDate :: "time option"
  rc_proposedEndDate :: "time option"
  rc_currentNoticeId :: "uid option"
  rc_currentOfferId :: "uid option"
  rc_archivedAt :: "time option"
  rc_createdById :: "uid option"
  rc_createdAt :: time
  rc_updatedAt :: time

record offer =
  of_id :: uid
  of_workspaceId :: uid
  of_renewalCaseId :: "uid option"
  of_tenancyId :: "uid option"
  of_listingId :: "uid option"
  of_prospectContactId :: "uid option"
  of_version :: int
  of_party :: offerParty
  of_annualRent :: rat
  of_paymentSchedule :: string
  of_paymentMethod :: "string option"
  of_termMonths :: "int option"
  of_startDate :: "time option"
  of_note :: "string option"
  of_status :: offerStatus
  of_createdById :: "uid option"
  of_viaSecureLinkId :: "uid option"
  of_permittedMaxSnapshot :: "rat option"
  of_indexCaptureId :: "uid option"
  of_indexCitation :: "json option"
  of_responseDueDeadlineId :: "uid option"
  of_proposedStartDate :: "time option"
  of_proposedEndDate :: "time option"
  of_createdAt :: time

record notice =
  nt_id :: uid
  nt_workspaceId :: uid
  nt_renewalCaseId :: uid
  nt_kind :: noticeKind
  nt_status :: noticeStatus
  nt_generatedAt :: time
  nt_approvedAt :: "time option"
  nt_approvedById :: "uid option"
  nt_servedAt :: "time option"
  nt_servedById :: "uid option"
  nt_serviceMethod :: "serviceMethod option"
  nt_serviceRef :: "string option"
  nt_docId :: "uid option"
  nt_attestation :: "string option"
  nt_attestedById :: "uid option"
  nt_attestedAt :: "time option"
  nt_templateCode :: "string option"
  nt_templateVersion :: "string option"
  nt_archivedAt :: "time option"
  nt_createdAt :: time

record document_access =
  da_id :: uid
  da_workspaceId :: uid
  da_documentId :: uid
  da_actorUserId :: "uid option"
  da_secureLinkId :: "uid option"
  da_action :: docAccessAction
  da_ip :: "string option"
  da_device :: "string option"
  da_createdAt :: time

record consent_record =
  cn_id :: uid
  cn_workspaceId :: uid
  cn_contactId :: "uid option"
  cn_userId :: "uid option"
  cn_purpose :: consentPurpose
  cn_source :: consentSource
  cn_noticeVersion :: string
  cn_secureLinkId :: "uid option"
  cn_grantedAt :: time
  cn_revokedAt :: "time option"

record approval =
  ap_id :: uid
  ap_workspaceId :: uid
  ap_subjectType :: string
  ap_subjectId :: uid
  ap_requestedOfContactId :: "uid option"
  ap_payloadHash :: digest
  ap_decision :: "approvalDecision option"
  ap_decidedAt :: "time option"
  ap_createdAt :: time

record move_in =
  mi_id :: uid
  mi_workspaceId :: uid
  mi_tenancyId :: uid
  mi_propertyId :: uid
  mi_status :: moveInStatus
  mi_landlordAckAt :: "time option"
  mi_tenantAckAt :: "time option"
  mi_notes :: "string option"
  mi_createdById :: "uid option"
  mi_createdAt :: time

record session =
  se_id :: uid
  se_userId :: uid
  se_tokenHash :: string
  se_expiresAt :: time
  se_revokedAt :: "time option"
  se_ip :: "string option"
  se_device :: "string option"
  se_createdAt :: time

record password_reset =
  rs_id :: uid
  rs_userId :: uid
  rs_tokenHash :: string
  rs_expiresAt :: time
  rs_usedAt :: "time option"
  rs_createdAt :: time

record plan =
  pn_id :: uid
  pn_code :: string

record subscription =
  su_id :: uid
  su_workspaceId :: uid
  su_planId :: uid
  su_status :: string
  su_period :: string
  su_startedAt :: time

record contract_pack =
  pk_id :: uid
  pk_workspaceId :: uid
  pk_offerId :: uid
  pk_listingId :: "uid option"
  pk_propertyId :: uid
  pk_documentId :: uid
  pk_status :: contractPackStatus
  pk_eSignRef :: "string option"
  pk_sentAt :: "time option"
  pk_signedAt :: "time option"
  pk_createdById :: "uid option"
  pk_createdAt :: time

datatype importSource = SRC_EXCEL | SRC_DOCUMENTS

datatype importStatus = IM_UPLOADED | IM_MAPPED | IM_REVIEWING | IM_COMMITTED | IM_ROLLED_BACK

datatype importRowStatus = ROW_PENDING | ROW_ACCEPTED | ROW_REJECTED | ROW_CONFLICT

record party_fields =
  pa_name :: "string option"
  pa_emiratesId :: "string option"
  pa_email :: "string option"
  pa_phone :: "string option"
  pa_nationality :: "string option"
  pa_company :: "string option"
  pa_licenseNo :: "string option"
  pa_licensingAuthority :: "string option"

record import_item =
  it_seq :: int
  it_dueDate :: string
  it_amount :: rat
  it_instrument :: "instrument option"
  it_chequeNo :: "string option"
  it_bank :: "string option"

text \<open>What a reviewer submits for a party: nothing, the marker \<open>CREATE_NEW_CONTACT\<close>, or a contact.\<close>

datatype party_choice = PC_unset | PC_create_new | PC_contact uid

record import_data =
  id_community :: string
  id_building :: "string option"
  id_unitNo :: "string option"
  id_propertyType :: "string option"
  id_bedrooms :: "rat option"
  id_clientPrincipalId :: "uid option"
  id_propertyId :: "uid option"
  id_usage :: "string option"
  id_plotNo :: "string option"
  id_makaniNo :: "string option"
  id_dewaPremiseNo :: "string option"
  id_sizeSqm :: "rat option"
  id_ejariNo :: "string option"
  id_startDate :: string
  id_endDate :: string
  id_annualRent :: rat
  id_depositAmount :: "rat option"
  id_noticePeriodDays :: "rat option"
  id_paymentTermsNote :: "string option"
  id_landlordContactId :: party_choice
  id_tenantContactId :: party_choice
  id_landlordName :: "string option"
  id_tenantName :: "string option"
  id_landlord :: "party_fields option"
  id_tenant :: "party_fields option"
  id_chequeCount :: "rat option"
  id_paymentItems :: "import_item list"

text \<open>What a commit created, and the scope a document held before it was moved.\<close>

datatype import_ref =
    RefContact uid
  | RefProperty uid
  | RefTenancy uid
  | RefPaymentItem uid
  | RefDocumentScope uid scopeType "uid option"

record import_batch =
  ib_id :: uid
  ib_workspaceId :: uid
  ib_source :: importSource
  ib_fileDocId :: "uid option"
  ib_status :: importStatus
  ib_reviewerId :: "uid option"
  ib_committedAt :: "time option"
  ib_rolledBackAt :: "time option"
  ib_createdAt :: time

record import_row =
  ir_id :: uid
  ir_workspaceId :: uid
  ir_batchId :: uid
  ir_raw :: json
  ir_mapped :: import_data
  ir_status :: importRowStatus
  ir_conflictReason :: "string option"
  ir_refs :: "import_ref list"

record report =
  rt_id :: uid
  rt_workspaceId :: uid
  rt_kind :: string
  rt_clientPrincipalId :: "uid option"
  rt_params :: json
  rt_documentId :: "uid option"
  rt_generatedById :: uid
  rt_createdAt :: time

record rate_limit =
  rl_key :: string
  rl_windowStart :: time
  rl_count :: int

subsection \<open>The database\<close>

record world =
  w_now :: time
  w_next :: uid
  w_workspaces :: "workspace list"
  w_users :: "user list"
  w_memberships :: "membership list"
  w_grants :: "membership_grant list"
  w_assignments :: "property_assignment list"
  w_clients :: "client_principal list"
  w_contacts :: "contact list"
  w_properties :: "property list"
  w_tenancies :: "tenancy list"
  w_listings :: "listing list"
  w_passports :: "tenant_passport list"
  w_deadlines :: "deadline list"
  w_payments :: "payment_item list"
  w_documents :: "document list"
  w_proofs :: "proof_request list"
  w_links :: "secure_link list"
  w_messages :: "notification_message list"
  w_preferences :: "notification_preference list"
  w_outbox :: "outbox_entry list"
  w_evidence :: "evidence_event list"
  w_audit :: "audit_event list"
  w_flags :: "risk_flag list"
  w_captures :: "rent_index_capture list"
  w_benchmarks :: "rent_index_benchmark list"
  w_cases :: "renewal_case list"
  w_offers :: "offer list"
  w_notices :: "notice list"
  w_limits :: "rate_limit list"
  w_access :: "document_access list"
  w_consents :: "consent_record list"
  w_approvals :: "approval list"
  w_moveins :: "move_in list"
  w_invites :: "workspace_invite list"
  w_enquiries :: "enquiry list"
  w_viewings :: "viewing list"
  w_sessions :: "session list"
  w_resets :: "password_reset list"
  w_plans :: "plan list"
  w_subscriptions :: "subscription list"
  w_packs :: "contract_pack list"
  w_blobs :: "(string \<times> string) list"
  w_batches :: "import_batch list"
  w_rows :: "import_row list"
  w_reports :: "report list"

type_synonym 'a svc = "(world, 'a) op"

text \<open>A fresh uuid.\<close>

definition newId :: "uid svc" where
  "newId s = (Inr (w_next s), s\<lparr>w_next := Suc (w_next s)\<rparr>)"

definition getNow :: "time svc" where
  "getNow = readE w_now"

lemma newId_eval [op_eval]: "newId s = (Inr (w_next s), s\<lparr>w_next := Suc (w_next s)\<rparr>)"
  by (simp add: newId_def)

lemma newId_ok [op_ok]: "newId s = (Inr i, t) \<longleftrightarrow> i = w_next s \<and> t = s\<lparr>w_next := Suc i\<rparr>"
  by (auto simp: newId_def)

lemma getNow_eval [op_eval]: "getNow s = (Inr (w_now s), s)"
  by (simp add: getNow_def readE_def)

lemma getNow_ok [op_ok]: "getNow s = (Inr n, t) \<longleftrightarrow> n = w_now s \<and> t = s"
  by (auto simp: getNow_def readE_def)

text \<open>An empty database, for the witnesses.\<close>

definition empty_world :: world where
  "empty_world = \<lparr> w_now = 0, w_next = 1000, w_workspaces = [], w_users = [],
     w_memberships = [], w_grants = [], w_assignments = [], w_clients = [], w_contacts = [],
     w_properties = [], w_tenancies = [], w_listings = [], w_passports = [], w_deadlines = [],
     w_payments = [], w_documents = [], w_proofs = [], w_links = [], w_messages = [],
     w_preferences = [], w_outbox = [], w_evidence = [], w_audit = [], w_flags = [],
     w_captures = [], w_benchmarks = [], w_cases = [], w_offers = [], w_notices = [],
     w_limits = [], w_access = [], w_consents = [], w_approvals = [], w_moveins = [],
     w_invites = [], w_enquiries = [], w_viewings = [], w_sessions = [], w_resets = [], w_plans = [],
     w_subscriptions = [], w_packs = [], w_blobs = [],
     w_batches = [], w_rows = [], w_reports = [] \<rparr>"

end
