(* ===== verification/Capabilities.thy ===== *)
theory Capabilities
  imports Schema
begin

text \<open>
  \<open>src/server/capabilities.ts\<close>: the role by capability table. A capability is its string, as in
  the code.
\<close>

type_synonym capability = string

definition CAPABILITIES :: "capability list" where
  "CAPABILITIES =
    [''workspace.manage'', ''workspace.configure'', ''members.read'', ''members.invite'',
     ''members.manage'', ''clients.assign'', ''clients.read'', ''clients.write'',
     ''contacts.read'', ''contacts.write'', ''properties.read'', ''properties.write'',
     ''listings.read'', ''listings.write'', ''listings.publish'', ''offers.read'',
     ''offers.write'', ''offers.decide'', ''offers.respond'', ''contracts.read'',
     ''contracts.write'', ''movein.read'', ''movein.write'', ''movein.acknowledge'',
     ''landlords.verify'', ''tenancies.read'', ''tenancies.write'', ''tenancies.upload'',
     ''payments.read'', ''payments.write'', ''deadlines.read'', ''deadlines.write'',
     ''renewals.read'', ''renewals.write'', ''renewals.decide'', ''documents.read'',
     ''documents.write'', ''imports.manage'', ''proofs.read'', ''proofs.write'',
     ''proofs.decide'', ''passport.read'', ''passport.write'', ''passport.share'',
     ''enquiries.read'', ''enquiries.write'', ''viewings.read'', ''viewings.write'',
     ''evidence.read'', ''evidence.export'', ''riskflags.read'', ''riskflags.ack'',
     ''reports.generate'', ''reports.read'', ''notifications.read'', ''messaging.manage'']"

definition PEOPLE_ADMIN :: "capability list" where
  "PEOPLE_ADMIN =
    [''workspace.manage'', ''workspace.configure'', ''members.read'', ''members.invite'',
     ''members.manage'', ''clients.assign'']"

definition READ_PORTFOLIO :: "capability list" where
  "READ_PORTFOLIO =
    [''clients.read'', ''contacts.read'', ''properties.read'', ''tenancies.read'',
     ''payments.read'', ''deadlines.read'', ''renewals.read'', ''documents.read'',
     ''proofs.read'', ''evidence.read'', ''riskflags.read'', ''reports.read'']"

definition ORG_ADMIN_CAPS :: "capability list" where
  "ORG_ADMIN_CAPS =
    [''workspace.configure'', ''members.read'', ''members.invite'', ''members.manage'',
     ''clients.assign'']"

definition DELEGATE_CAPS :: "capability list" where
  "DELEGATE_CAPS =
    [''contacts.read'', ''properties.read'', ''properties.write'', ''tenancies.read'',
     ''tenancies.write'', ''tenancies.upload'', ''payments.read'', ''payments.write'',
     ''deadlines.read'', ''deadlines.write'', ''renewals.read'', ''documents.read'',
     ''documents.write'', ''proofs.read'', ''proofs.write'']"

fun ROLE_CAPABILITIES :: "role \<Rightarrow> capability list" where
  "ROLE_CAPABILITIES WORKSPACE_ADMIN =
    CAPABILITIES"
| "ROLE_CAPABILITIES FIDUCIARY =
    filter (\<lambda>c. c \<notin> set PEOPLE_ADMIN) CAPABILITIES"
| "ROLE_CAPABILITIES ORG_ADMIN =
    ORG_ADMIN_CAPS"
| "ROLE_CAPABILITIES MANAGER =
    READ_PORTFOLIO @
    [''clients.write'', ''contacts.write'', ''properties.write'', ''offers.read'',
     ''offers.write'', ''offers.decide'', ''movein.read'', ''movein.write'',
     ''movein.acknowledge'', ''landlords.verify'', ''tenancies.write'', ''payments.write'',
     ''deadlines.write'', ''renewals.write'', ''renewals.decide'', ''documents.write'',
     ''imports.manage'', ''proofs.write'', ''proofs.decide'', ''riskflags.ack'',
     ''reports.generate'', ''evidence.export'', ''notifications.read'', ''messaging.manage'']"
| "ROLE_CAPABILITIES CLIENT_VIEWER =
    READ_PORTFOLIO"
| "ROLE_CAPABILITIES AGENT =
    [''contacts.read'', ''properties.read'', ''tenancies.read'', ''deadlines.read'',
     ''renewals.read'', ''proofs.read'', ''documents.read'']"
| "ROLE_CAPABILITIES MANAGING_AGENT =
    DELEGATE_CAPS"
| "ROLE_CAPABILITIES LICENSED_PARTNER =
    [''properties.read'', ''tenancies.read'', ''deadlines.read'', ''renewals.read'',
     ''proofs.read'', ''documents.read'']"
| "ROLE_CAPABILITIES VENDOR =
    [''proofs.read'']"
| "ROLE_CAPABILITIES AUDITOR =
    READ_PORTFOLIO @
    [''notifications.read'', ''evidence.export'']"
| "ROLE_CAPABILITIES TENANT =
    [''tenancies.read'', ''tenancies.upload'', ''payments.read'', ''deadlines.read'',
     ''documents.read'', ''proofs.read'', ''offers.read'', ''offers.respond'',
     ''movein.read'', ''movein.acknowledge'']"
| "ROLE_CAPABILITIES LANDLORD =
    [''properties.read'', ''offers.read'', ''offers.write'', ''offers.decide'',
     ''movein.read'', ''movein.acknowledge'', ''tenancies.read'', ''payments.read'',
     ''deadlines.read'', ''documents.read'', ''proofs.read'']"

definition roleHas :: "role \<Rightarrow> capability \<Rightarrow> bool" where
  "roleHas r c \<longleftrightarrow> c \<in> set (ROLE_CAPABILITIES r)"

fun BUNDLE_CAPABILITIES :: "capBundle \<Rightarrow> capability list" where
  "BUNDLE_CAPABILITIES B_PRINCIPAL = CAPABILITIES"
| "BUNDLE_CAPABILITIES B_ORG_ADMIN = ORG_ADMIN_CAPS"
| "BUNDLE_CAPABILITIES B_DELEGATE = DELEGATE_CAPS"
| "BUNDLE_CAPABILITIES B_CLIENT_VIEWER = READ_PORTFOLIO"

definition bundleHas :: "capBundle \<Rightarrow> capability \<Rightarrow> bool" where
  "bundleHas b c \<longleftrightarrow> c \<in> set (BUNDLE_CAPABILITIES b)"

definition GRANT_HONORED_BUNDLES :: "capBundle list" where
  "GRANT_HONORED_BUNDLES = [B_ORG_ADMIN]"

definition PLATFORM_CAPABILITIES :: "string list" where
  "PLATFORM_CAPABILITIES =
    [''platform.workspaces.manage'', ''platform.entitlements.manage'',
     ''platform.invites.issue'', ''platform.stats.read'']"

lemmas capability_lists = CAPABILITIES_def PEOPLE_ADMIN_def READ_PORTFOLIO_def
  ORG_ADMIN_CAPS_def DELEGATE_CAPS_def

lemma all_roles: "(r :: role) \<in> {WORKSPACE_ADMIN, MANAGER, FIDUCIARY, ORG_ADMIN, CLIENT_VIEWER,
  AGENT, MANAGING_AGENT, LICENSED_PARTNER, VENDOR, AUDITOR, LANDLORD, TENANT}"
  by (cases r) auto

subsection \<open>What the table promises\<close>

text \<open>A check that runs over the table, once per role.\<close>

definition all_role_list :: "role list" where
  "all_role_list = [WORKSPACE_ADMIN, MANAGER, FIDUCIARY, ORG_ADMIN, CLIENT_VIEWER, AGENT,
     MANAGING_AGENT, LICENSED_PARTNER, VENDOR, AUDITOR, LANDLORD, TENANT]"

lemma all_role_list: "list_all P all_role_list \<Longrightarrow> P r"
  by (cases r) (simp_all add: all_role_list_def)

lemma role_table_check:
  "list_all (\<lambda>r. r = WORKSPACE_ADMIN \<or> r = ORG_ADMIN \<or>
     list_all (\<lambda>c. c \<notin> set PEOPLE_ADMIN) (ROLE_CAPABILITIES r)) all_role_list"
  "list_all (\<lambda>c. c \<in> set PEOPLE_ADMIN) (ROLE_CAPABILITIES ORG_ADMIN)"
  "list_all (\<lambda>r. list_all (\<lambda>c. c \<notin> set (ROLE_CAPABILITIES r))
     [''proofs.decide'', ''renewals.decide'', ''renewals.write''])
     [MANAGING_AGENT, LANDLORD, TENANT, CLIENT_VIEWER]"
  by code_simp+

text \<open>
  the access matrix is decorrelated: only \<open>WORKSPACE_ADMIN\<close> and \<open>ORG_ADMIN\<close> hold any people or configuration capability, everything
  \<open>ORG_ADMIN\<close> holds is one (it reads no data), every other catalogue capability belongs to
  \<open>FIDUCIARY\<close>, and no delegate, persona or client viewer can decide a proof or write or decide a renewal.
\<close>

theorem role_table_decorrelated:
  "(roleHas r c \<and> c \<in> set PEOPLE_ADMIN \<longrightarrow> r \<in> {WORKSPACE_ADMIN, ORG_ADMIN}) \<and>
   (roleHas ORG_ADMIN c \<longrightarrow> c \<in> set PEOPLE_ADMIN) \<and>
   (roleHas FIDUCIARY c \<longleftrightarrow> c \<in> set CAPABILITIES \<and> c \<notin> set PEOPLE_ADMIN) \<and>
   (r \<in> {MANAGING_AGENT, LANDLORD, TENANT, CLIENT_VIEWER} \<longrightarrow>
      \<not> roleHas r ''proofs.decide'' \<and> \<not> roleHas r ''renewals.write'' \<and> \<not> roleHas r ''renewals.decide'')"
  using all_role_list [OF role_table_check(1), of r] role_table_check(2,3)
  by (auto simp: roleHas_def list_all_iff subset_iff)

theorem role_table_decorrelated_witness:
  "\<not> roleHas LANDLORD ''members.read'' \<and> \<not> roleHas LANDLORD ''proofs.decide''"
  using role_table_decorrelated [of LANDLORD "''members.read''"]
  by (auto simp: PEOPLE_ADMIN_def)

end
