(* ===== verification/Evidence.thy ===== *)
theory Evidence
  imports Capabilities "HOL-Library.Sublist"
begin

text \<open>
  \<open>src/server/evidence.ts\<close>, \<open>src/server/audit.ts\<close> and the enqueueing half of
  \<open>src/server/outbox/index.ts\<close>: the only writers of the evidence log, the audit log and the
  outbox. Workspace ids are never empty strings, so \<open>recordEvidence\<close>'s check for one is not
  a branch here.
\<close>

subsection \<open>Evidence\<close>

record evidence_input =
  ei_workspaceId :: uid
  ei_type :: evidenceType
  ei_actorType :: actorType
  ei_actorId :: "uid option"
  ei_onBehalfOfId :: "uid option"
  ei_scopeType :: scopeType
  ei_scopeId :: "uid option"
  ei_propertyId :: "uid option"
  ei_tenancyId :: "uid option"
  ei_payload :: "json option"
  ei_supersedesId :: "uid option"

text \<open>An input with the required fields; the optional ones are absent.\<close>

definition evidenceOf ::
    "uid \<Rightarrow> evidenceType \<Rightarrow> actorType \<Rightarrow> uid option \<Rightarrow> scopeType \<Rightarrow> uid option \<Rightarrow> evidence_input" where
  "evidenceOf ws ty aty aid sty sid =
     \<lparr> ei_workspaceId = ws, ei_type = ty, ei_actorType = aty, ei_actorId = aid,
       ei_onBehalfOfId = None, ei_scopeType = sty, ei_scopeId = sid, ei_propertyId = None,
       ei_tenancyId = None, ei_payload = None, ei_supersedesId = None \<rparr>"

definition evidence_row :: "uid \<Rightarrow> time \<Rightarrow> evidence_input \<Rightarrow> evidence_event" where
  "evidence_row i now inp =
     \<lparr> ev_id = i, ev_workspaceId = ei_workspaceId inp, ev_type = ei_type inp,
       ev_actorType = ei_actorType inp, ev_actorId = ei_actorId inp,
       ev_onBehalfOfId = ei_onBehalfOfId inp, ev_scopeType = ei_scopeType inp,
       ev_scopeId = ei_scopeId inp, ev_propertyId = ei_propertyId inp,
       ev_tenancyId = ei_tenancyId inp, ev_payload = ei_payload inp,
       ev_payloadHash = map_option Sha256 (ei_payload inp),
       ev_supersedesId = ei_supersedesId inp, ev_createdAt = now \<rparr>"

definition recordEvidence :: "evidence_input \<Rightarrow> uid svc" where
  "recordEvidence inp =
     thenE (assertE (\<not> (ei_actorType inp \<in> {A_USER, A_STAFF} \<and> ei_actorId inp = None))
              (ThrownError ''actorType requires actorId''))
       (bindE getNow (\<lambda>now. bindE newId (\<lambda>i.
          thenE (writeE (\<lambda>s. s\<lparr>w_evidence := w_evidence s @ [evidence_row i now inp]\<rparr>))
            (ret i))))"

subsection \<open>Audit\<close>

record audit_input =
  ai_workspaceId :: "uid option"
  ai_actorType :: actorType
  ai_actorId :: "uid option"
  ai_onBehalfOfId :: "uid option"
  ai_verb :: string
  ai_objectType :: string
  ai_objectId :: "uid option"
  ai_payload :: "json option"
  ai_ip :: "string option"

definition auditOf ::
    "uid option \<Rightarrow> actorType \<Rightarrow> uid option \<Rightarrow> string \<Rightarrow> string \<Rightarrow> uid option \<Rightarrow> audit_input" where
  "auditOf ws aty aid verb oty oid =
     \<lparr> ai_workspaceId = ws, ai_actorType = aty, ai_actorId = aid, ai_onBehalfOfId = None,
       ai_verb = verb, ai_objectType = oty, ai_objectId = oid, ai_payload = None, ai_ip = None \<rparr>"

text \<open>The regular expression \<open>/^[a-z_]+\.[a-z_]+$/\<close>.\<close>

definition verb_char :: "char \<Rightarrow> bool" where
  "verb_char c \<longleftrightarrow> c = CHR ''_'' \<or> (97 \<le> (of_char c :: nat) \<and> of_char c \<le> (122 :: nat))"

definition audit_verb_ok :: "string \<Rightarrow> bool" where
  "audit_verb_ok v =
     (let a = takeWhile verb_char v; r = dropWhile verb_char v
      in a \<noteq> [] \<and> r \<noteq> [] \<and> hd r = CHR ''.'' \<and> tl r \<noteq> [] \<and> list_all verb_char (tl r))"

definition audit_row :: "uid \<Rightarrow> time \<Rightarrow> audit_input \<Rightarrow> audit_event" where
  "audit_row i now inp =
     \<lparr> au_id = i, au_workspaceId = ai_workspaceId inp, au_actorType = ai_actorType inp,
       au_actorId = ai_actorId inp, au_onBehalfOfId = ai_onBehalfOfId inp, au_verb = ai_verb inp,
       au_objectType = ai_objectType inp, au_objectId = ai_objectId inp,
       au_payloadHash = map_option Sha256 (ai_payload inp), au_ip = ai_ip inp,
       au_createdAt = now \<rparr>"

definition recordAudit :: "audit_input \<Rightarrow> uid svc" where
  "recordAudit inp =
     thenE (assertE (audit_verb_ok (ai_verb inp))
              (ThrownError ''Audit verb must be object.action''))
       (bindE getNow (\<lambda>now. bindE newId (\<lambda>i.
          thenE (writeE (\<lambda>s. s\<lparr>w_audit := w_audit s @ [audit_row i now inp]\<rparr>)) (ret i))))"

subsection \<open>Enqueueing\<close>

text \<open>
  \<open>enqueue\<close> raises P2002 on a repeated key: the unique index on topic and idempotency key,
  which admits any number of rows without a key.
\<close>

definition enqueue ::
    "string \<Rightarrow> json \<Rightarrow> time option \<Rightarrow> string option \<Rightarrow> uid svc" where
  "enqueue topic payload availableAt idempotencyKey =
     bindE getNow (\<lambda>now.
     thenE (bindE (readE w_outbox) (\<lambda>rows.
              assertE (idempotencyKey = None \<or>
                       (\<forall>r \<in> set rows. ob_topic r = topic \<longrightarrow> ob_idempotencyKey r \<noteq> idempotencyKey))
                (UniqueViolation ''Outbox_topic_idempotencyKey'')))
     (bindE newId (\<lambda>i.
       thenE (writeE (\<lambda>s. s\<lparr>w_outbox := w_outbox s @
         [\<lparr> ob_id = i, ob_topic = topic, ob_payload = payload, ob_status = OB_pending,
            ob_attempts = 0,
            ob_availableAt = (case availableAt of None \<Rightarrow> now | Some t \<Rightarrow> t),
            ob_lockedUntil = None, ob_idempotencyKey = idempotencyKey \<rparr>]\<rparr>))
         (ret i))))"

subsection \<open>The logs only grow\<close>

text \<open>
  What every operation keeps: the evidence and the audit log of before are a prefix of those of
  after, ids are never handed out twice, and the clock stands still during an operation.
\<close>

definition extends :: "world \<Rightarrow> world \<Rightarrow> bool" where
  "extends s t \<longleftrightarrow> prefix (w_evidence s) (w_evidence t) \<and> prefix (w_audit s) (w_audit t) \<and>
     w_next s \<le> w_next t \<and> w_now t = w_now s"

interpretation logs: step_law extends
  by unfold_locales (auto simp: extends_def intro: prefix_order.trans)

named_theorems log_keeps

lemma keeps_newId [log_keeps]: "keeps extends newId"
  by (rule keepsI) (simp add: newId_def extends_def)

lemma keeps_getNow [log_keeps]: "keeps extends getNow"
  unfolding getNow_def by (rule logs.keeps_readE)

lemma keeps_quiet_write:
  assumes "\<And>s. w_evidence (f s) = w_evidence s" and "\<And>s. w_audit (f s) = w_audit s"
    and "\<And>s. w_next (f s) = w_next s" and "\<And>s. w_now (f s) = w_now s"
  shows "keeps extends (writeE f)"
  by (rule keeps_writeE) (simp add: extends_def assms)

lemma keeps_recordEvidence [log_keeps]: "keeps extends (recordEvidence inp)"
  unfolding recordEvidence_def
  by (intro logs.keeps_intros log_keeps keeps_writeE) (simp add: extends_def)

lemma keeps_recordAudit [log_keeps]: "keeps extends (recordAudit inp)"
  unfolding recordAudit_def
  by (intro logs.keeps_intros log_keeps keeps_writeE) (simp add: extends_def)

lemma keeps_enqueue [log_keeps]: "keeps extends (enqueue topic payload av key)"
  unfolding enqueue_def
  by (intro logs.keeps_intros log_keeps keeps_quiet_write) simp_all

text \<open>The logs refuse nothing when the actor is named and the verb is well formed.\<close>

lemma outcome_newId [outcome]: "never_fails newId"
  by (simp add: never_fails_def newId_def)

lemma outcome_getNow [outcome]: "never_fails getNow" "reads_only getNow"
  by (simp_all add: never_fails_def reads_only_def getNow_def readE_def)

lemma outcome_recordEvidence [outcome]:
  "\<not> (ei_actorType inp \<in> {A_USER, A_STAFF} \<and> ei_actorId inp = None) \<Longrightarrow> never_fails (recordEvidence inp)"
  by (simp add: never_fails_def recordEvidence_def op_defs getNow_def newId_def)

lemma outcome_recordAudit [outcome]: "audit_verb_ok (ai_verb inp) \<Longrightarrow> never_fails (recordAudit inp)"
  by (simp add: never_fails_def recordAudit_def op_defs getNow_def newId_def)

text \<open>What a successful write of the log leaves.\<close>

lemma recordEvidence_ok [op_ok]:
  "recordEvidence inp s = (Inr i, t) \<longleftrightarrow>
     \<not> (ei_actorType inp \<in> {A_USER, A_STAFF} \<and> ei_actorId inp = None) \<and> i = w_next s \<and>
     t = s\<lparr>w_next := Suc i, w_evidence := w_evidence s @ [evidence_row i (w_now s) inp]\<rparr>"
  by (auto simp: recordEvidence_def op_ok)

lemma recordEvidence_eval [op_eval]:
  "\<not> (ei_actorType inp \<in> {A_USER, A_STAFF} \<and> ei_actorId inp = None) \<Longrightarrow>
   recordEvidence inp s = (Inr (w_next s), s\<lparr>w_next := Suc (w_next s),
     w_evidence := w_evidence s @ [evidence_row (w_next s) (w_now s) inp]\<rparr>)"
  by (subst recordEvidence_ok) auto

lemma recordAudit_ok [op_ok]:
  "recordAudit inp s = (Inr i, t) \<longleftrightarrow> audit_verb_ok (ai_verb inp) \<and> i = w_next s \<and>
     t = s\<lparr>w_next := Suc i, w_audit := w_audit s @ [audit_row i (w_now s) inp]\<rparr>"
  by (auto simp: recordAudit_def op_ok)

text \<open>
  \<open>recordEvidence\<close> writes exactly one row, at the end of the log, stamped with the clock and
  hashing its payload; it refuses an event of a user or of staff that names no actor, and a
  refusal writes nothing.
\<close>

theorem recordEvidence_appends:
  "recordEvidence inp s =
     (if ei_actorType inp \<in> {A_USER, A_STAFF} \<and> ei_actorId inp = None
      then (Inl (ThrownError ''actorType requires actorId''), s)
      else (Inr (w_next s), s\<lparr>w_next := Suc (w_next s),
              w_evidence := w_evidence s @ [evidence_row (w_next s) (w_now s) inp]\<rparr>))"
  by (auto simp: recordEvidence_def op_defs newId_def getNow_def)

end
