(* ===== verification/Authz.thy ===== *)
theory Authz
  imports Evidence "HOL-Library.Product_Lexorder" "HOL-Library.Multiset"
begin

text \<open>
  \<open>src/server/authz.ts\<close>: from a user and a workspace to the context every service runs under,
  the capability check, and the fail-closed workspace filter and row check.
\<close>

record authz_ctx =
  cx_userId :: uid
  cx_workspaceId :: uid
  cx_role :: role
  cx_clientPrincipalId :: "uid option"
  cx_subjectContactId :: "uid option"
  cx_delegatePropertyIds :: "uid list"
  cx_grantedBundles :: "capBundle list"
  cx_isStaff :: bool
  cx_onBehalfOfId :: "uid option"

definition isPersonaRole :: "role \<Rightarrow> bool" where
  "isPersonaRole r \<longleftrightarrow> r = TENANT \<or> r = LANDLORD"

definition isDelegateRole :: "role \<Rightarrow> bool" where
  "isDelegateRole r \<longleftrightarrow> r = MANAGING_AGENT"

text \<open>\<open>throw new AuthzError(message)\<close> has status 403; the getters answer 404.\<close>

abbreviation forbidden :: "string \<Rightarrow> error" where "forbidden msg \<equiv> AuthzError msg 403"

abbreviation notFound :: error where "notFound \<equiv> AuthzError ''Not found'' 404"

subsection \<open>Picking a membership\<close>

fun ROLE_RANK :: "role \<Rightarrow> nat" where
  "ROLE_RANK WORKSPACE_ADMIN = 0"
| "ROLE_RANK FIDUCIARY = 1"
| "ROLE_RANK ORG_ADMIN = 2"
| "ROLE_RANK MANAGER = 3"
| "ROLE_RANK MANAGING_AGENT = 4"
| "ROLE_RANK CLIENT_VIEWER = 5"
| "ROLE_RANK AGENT = 6"
| "ROLE_RANK LICENSED_PARTNER = 7"
| "ROLE_RANK VENDOR = 8"
| "ROLE_RANK AUDITOR = 9"
| "ROLE_RANK LANDLORD = 10"
| "ROLE_RANK TENANT = 11"

text \<open>No two roles share a rank, so the precedence is a linear order on roles.\<close>

lemma ROLE_RANK_inj: "ROLE_RANK a = ROLE_RANK b \<Longrightarrow> a = b"
  by (cases a; cases b) simp_all

instantiation role :: linorder
begin

definition less_eq_role :: "role \<Rightarrow> role \<Rightarrow> bool" where
  "a \<le> b \<longleftrightarrow> ROLE_RANK a \<le> ROLE_RANK b"

definition less_role :: "role \<Rightarrow> role \<Rightarrow> bool" where
  "a < b \<longleftrightarrow> ROLE_RANK a < ROLE_RANK b"

instance
  by standard (auto simp: less_eq_role_def less_role_def dest: ROLE_RANK_inj)

end

definition pickMembership :: "membership list \<Rightarrow> membership option" where
  "pickMembership ms =
     (if ms = [] then None
      else Some (hd (sort_key (\<lambda>m. (mb_role m, mb_createdAt m)) ms)))"

lemma pickMembership_SomeD:
  assumes "pickMembership ms = Some m"
  shows "m \<in> set ms"
    and "m' \<in> set ms \<Longrightarrow> (mb_role m, mb_createdAt m) \<le> (mb_role m', mb_createdAt m')"
proof -
  define k where "k = (\<lambda>m :: membership. (mb_role m, mb_createdAt m))"
  obtain y ys where e: "sort_key k ms = y # ys"
    using assms by (cases "sort_key k ms") (auto simp: pickMembership_def k_def split: if_splits
      dest: arg_cong [where f = set])
  then have m: "m = y"
    using assms by (simp add: pickMembership_def k_def split: if_splits)
  have s: "set (sort_key k ms) = set ms" by simp
  show "m \<in> set ms" using e m s by auto
  have "sorted (map k (sort_key k ms))" by simp
  then have "\<forall>x \<in> set ms. k y \<le> k x" using e s by auto
  then show "m' \<in> set ms \<Longrightarrow> (mb_role m, mb_createdAt m) \<le> (mb_role m', mb_createdAt m')"
    using m by (simp add: k_def)
qed

lemma pickMembership_None [simp]: "pickMembership ms = None \<longleftrightarrow> ms = []"
  by (simp add: pickMembership_def)

text \<open>
  the membership a request runs under does not depend on the order of the rows. Among
  memberships of distinct roles (the unique index on workspace, user and role), every
  permutation of the rows gives the same choice, it is the one of the highest precedence, and a
  tenant or landlord membership is chosen only when the user holds nothing else.
\<close>

theorem pickMembership_deterministic:
  assumes "distinct (map mb_role ms)" and "mset ms' = mset ms" and "ms \<noteq> []"
  shows "\<exists>m. pickMembership ms = Some m \<and> pickMembership ms' = Some m \<and> m \<in> set ms \<and>
    (\<forall>m' \<in> set ms. ROLE_RANK (mb_role m) \<le> ROLE_RANK (mb_role m')) \<and>
    (isPersonaRole (mb_role m) \<longrightarrow> (\<forall>m' \<in> set ms. isPersonaRole (mb_role m')))"
proof -
  have set_eq: "set ms' = set ms" using assms(2) by (rule mset_eq_setD)
  obtain m where m: "pickMembership ms = Some m" using assms(3) by (cases "pickMembership ms") auto
  have "ms' \<noteq> []" using assms(2,3) by auto
  then obtain n where n: "pickMembership ms' = Some n" by (cases "pickMembership ms'") auto
  have "mb_role m \<le> mb_role n" "mb_role n \<le> mb_role m"
    using pickMembership_SomeD(2) [OF m, of n] pickMembership_SomeD(2) [OF n, of m]
      pickMembership_SomeD(1) [OF m] pickMembership_SomeD(1) [OF n] set_eq
    by (auto simp: less_eq_prod_def)
  then have "mb_role m = mb_role n" by simp
  then have mn: "n = m"
    using pickMembership_SomeD(1) [OF m] pickMembership_SomeD(1) [OF n] set_eq assms(1)
    by (simp add: distinct_map inj_on_def)
  have least: "\<forall>m' \<in> set ms. ROLE_RANK (mb_role m) \<le> ROLE_RANK (mb_role m')"
    using pickMembership_SomeD(2) [OF m]
    by (fastforce simp: less_eq_prod_def less_eq_role_def less_role_def)
  have "isPersonaRole (mb_role m')" if "isPersonaRole (mb_role m)" "m' \<in> set ms" for m'
    using least that by (cases "mb_role m'") (auto simp: isPersonaRole_def)
  then show ?thesis using m n mn least pickMembership_SomeD(1) [OF m] by blast
qed

theorem pickMembership_deterministic_witness:
  "\<exists>m. pickMembership
     [\<lparr> mb_id = 1, mb_workspaceId = 1, mb_userId = 1, mb_role = TENANT, mb_clientPrincipalId = None,
        mb_subjectContactId = Some 7, mb_createdAt = 0, mb_revokedAt = None \<rparr>,
      \<lparr> mb_id = 2, mb_workspaceId = 1, mb_userId = 1, mb_role = MANAGER, mb_clientPrincipalId = None,
        mb_subjectContactId = None, mb_createdAt = 9, mb_revokedAt = None \<rparr>] = Some m \<and>
     mb_role m \<noteq> TENANT"
proof -
  define a where "a = \<lparr> mb_id = 1, mb_workspaceId = 1, mb_userId = 1, mb_role = TENANT,
    mb_clientPrincipalId = None, mb_subjectContactId = Some 7, mb_createdAt = 0, mb_revokedAt = None \<rparr>"
  define b where "b = \<lparr> mb_id = 2, mb_workspaceId = 1, mb_userId = 1, mb_role = MANAGER,
    mb_clientPrincipalId = None, mb_subjectContactId = None, mb_createdAt = 9, mb_revokedAt = None \<rparr>"
  obtain m where "pickMembership [a, b] = Some m"
    and "\<forall>m' \<in> set [a, b]. ROLE_RANK (mb_role m) \<le> ROLE_RANK (mb_role m')"
    using pickMembership_deterministic [of "[a, b]" "[b, a]"] by (auto simp: a_def b_def)
  then show ?thesis by (intro exI [of _ m]) (auto simp: a_def b_def)
qed

subsection \<open>The context\<close>

text \<open>The role's name, as it appears in a message.\<close>

fun role_name :: "role \<Rightarrow> string" where
  "role_name WORKSPACE_ADMIN = ''WORKSPACE_ADMIN''"
| "role_name FIDUCIARY = ''FIDUCIARY''"
| "role_name ORG_ADMIN = ''ORG_ADMIN''"
| "role_name MANAGER = ''MANAGER''"
| "role_name MANAGING_AGENT = ''MANAGING_AGENT''"
| "role_name CLIENT_VIEWER = ''CLIENT_VIEWER''"
| "role_name AGENT = ''AGENT''"
| "role_name LICENSED_PARTNER = ''LICENSED_PARTNER''"
| "role_name VENDOR = ''VENDOR''"
| "role_name AUDITOR = ''AUDITOR''"
| "role_name LANDLORD = ''LANDLORD''"
| "role_name TENANT = ''TENANT''"

definition contextFromMembership ::
    "user \<Rightarrow> membership \<Rightarrow> capBundle list \<Rightarrow> uid list \<Rightarrow> error + authz_ctx" where
  "contextFromMembership u m grantedBundles delegatePropertyIds =
     (if mb_role m = CLIENT_VIEWER \<and> mb_clientPrincipalId m = None
      then Inl (forbidden ''CLIENT_VIEWER membership missing client scope'')
      else if isPersonaRole (mb_role m) \<and> mb_subjectContactId m = None
      then Inl (forbidden (role_name (mb_role m) @ '' membership missing contact scope''))
      else Inr \<lparr> cx_userId = us_id u, cx_workspaceId = mb_workspaceId m, cx_role = mb_role m,
        cx_clientPrincipalId = (if mb_role m = CLIENT_VIEWER then mb_clientPrincipalId m else None),
        cx_subjectContactId = (if isPersonaRole (mb_role m) then mb_subjectContactId m else None),
        cx_delegatePropertyIds = (if isDelegateRole (mb_role m) then delegatePropertyIds else []),
        cx_grantedBundles = grantedBundles, cx_isStaff = us_isPlatformAdmin u,
        cx_onBehalfOfId = None \<rparr>)"

definition liveGrantBundles :: "uid \<Rightarrow> world \<Rightarrow> capBundle list" where
  "liveGrantBundles membershipId s =
     map gr_bundle (filter (\<lambda>g. gr_membershipId g = membershipId \<and> gr_revokedAt g = None \<and>
       gr_bundle g \<in> set GRANT_HONORED_BUNDLES) (w_grants s))"

definition liveDelegatePropertyIds :: "uid \<Rightarrow> uid \<Rightarrow> world \<Rightarrow> uid list" where
  "liveDelegatePropertyIds membershipId workspaceId s =
     map as_propertyId (filter (\<lambda>a. as_membershipId a = membershipId \<and>
       as_workspaceId a = workspaceId \<and> as_revokedAt a = None) (w_assignments s))"

definition live_memberships :: "uid \<Rightarrow> uid \<Rightarrow> world \<Rightarrow> membership list" where
  "live_memberships userId workspaceId s =
     filter (\<lambda>m. mb_userId m = userId \<and> mb_workspaceId m = workspaceId \<and> mb_revokedAt m = None)
       (w_memberships s)"

definition authz :: "uid \<Rightarrow> uid \<Rightarrow> authz_ctx svc" where
  "authz userId workspaceId =
     bindE (readE (\<lambda>s. List.find (\<lambda>u. us_id u = userId) (w_users s))) (\<lambda>found.
     bindE (someE (AuthzError ''Unknown user'' 401) found) (\<lambda>u.
     bindE (readE (live_memberships userId workspaceId)) (\<lambda>memberships.
     bindE (someE (forbidden ''No access to this workspace'') (pickMembership memberships)) (\<lambda>m.
     bindE (readE (liveGrantBundles (mb_id m))) (\<lambda>grantedBundles.
     bindE (readE (liveDelegatePropertyIds (mb_id m) (mb_workspaceId m))) (\<lambda>delegatePropertyIds.
     bindE (readE (\<lambda>s. List.find (\<lambda>w. ws_id w = workspaceId) (w_workspaces s))) (\<lambda>workspace.
     thenE (assertE (case workspace of None \<Rightarrow> True | Some w \<Rightarrow> ws_archivedAt w = None)
             (forbidden ''Workspace archived''))
     (thenE (assertE (case workspace of None \<Rightarrow> True | Some w \<Rightarrow> ws_suspendedAt w = None)
             (forbidden ''Workspace suspended''))
       (liftE (contextFromMembership u m grantedBundles delegatePropertyIds))))))))))"

subsection \<open>Capabilities of a context, and the fail-closed checks\<close>

definition hasCapability :: "authz_ctx \<Rightarrow> capability \<Rightarrow> bool" where
  "hasCapability ctx c \<longleftrightarrow>
     roleHas (cx_role ctx) c \<or> list_ex (\<lambda>b. bundleHas b c) (cx_grantedBundles ctx)"

fun bundle_name :: "capBundle \<Rightarrow> string" where
  "bundle_name B_PRINCIPAL = ''PRINCIPAL''"
| "bundle_name B_ORG_ADMIN = ''ORG_ADMIN''"
| "bundle_name B_DELEGATE = ''DELEGATE''"
| "bundle_name B_CLIENT_VIEWER = ''CLIENT_VIEWER''"

fun join_comma :: "string list \<Rightarrow> string" where
  "join_comma [] = []"
| "join_comma [x] = x"
| "join_comma (x # xs) = x @ '','' @ join_comma xs"

definition lacks_message :: "authz_ctx \<Rightarrow> capability \<Rightarrow> string" where
  "lacks_message ctx c =
     ''Role '' @ role_name (cx_role ctx) @
     (if cx_grantedBundles ctx = [] then []
      else '' (+bundles '' @ join_comma (map bundle_name (cx_grantedBundles ctx)) @ '')'') @
     '' lacks '' @ c"

definition requireCap :: "authz_ctx \<Rightarrow> capability \<Rightarrow> unit svc" where
  "requireCap ctx c = assertE (hasCapability ctx c) (forbidden (lacks_message ctx c))"

text \<open>The workspace filter: the workspace id the query is restricted to.\<close>

definition scope :: "authz_ctx \<Rightarrow> error + uid" where
  "scope ctx =
     (if cx_subjectContactId ctx \<noteq> None
      then Inl (forbidden ''Persona context must be scoped via contactScopedWhere, not scope()'')
      else if isDelegateRole (cx_role ctx)
      then Inl (forbidden ''Delegate context must be scoped via clientSetScopedWhere, not scope()'')
      else Inr (cx_workspaceId ctx))"

definition clientScope :: "authz_ctx \<Rightarrow> uid option" where
  "clientScope ctx = cx_clientPrincipalId ctx"

text \<open>The row is given by its workspace id, \<open>None\<close> when there is no row.\<close>

definition assertSameWorkspace :: "authz_ctx \<Rightarrow> uid option \<Rightarrow> error + unit" where
  "assertSameWorkspace ctx row =
     (if cx_subjectContactId ctx \<noteq> None
      then Inl (forbidden ''Persona context must be checked via assertReadable, not assertSameWorkspace'')
      else if isDelegateRole (cx_role ctx)
      then Inl (forbidden ''Delegate context must be checked via assertPropertyInDelegateScope, not assertSameWorkspace'')
      else if row \<noteq> Some (cx_workspaceId ctx) then Inl notFound
      else Inr ())"

subsection \<open>What the door promises\<close>

text \<open>The shape every context has: scope fields are set exactly for the roles they scope.\<close>

definition wf_ctx :: "authz_ctx \<Rightarrow> bool" where
  "wf_ctx ctx \<longleftrightarrow>
     (cx_clientPrincipalId ctx \<noteq> None \<longleftrightarrow> cx_role ctx = CLIENT_VIEWER) \<and>
     (cx_subjectContactId ctx \<noteq> None \<longleftrightarrow> isPersonaRole (cx_role ctx)) \<and>
     (cx_delegatePropertyIds ctx \<noteq> [] \<longrightarrow> isDelegateRole (cx_role ctx)) \<and>
     set (cx_grantedBundles ctx) \<subseteq> set GRANT_HONORED_BUNDLES"

lemma contextFromMembership_ok:
  "contextFromMembership u m bs ps = Inr ctx \<Longrightarrow>
     set bs \<subseteq> set GRANT_HONORED_BUNDLES \<Longrightarrow>
   wf_ctx ctx \<and> cx_userId ctx = us_id u \<and> cx_workspaceId ctx = mb_workspaceId m \<and>
   cx_role ctx = mb_role m \<and> cx_grantedBundles ctx = bs \<and>
   cx_clientPrincipalId ctx = (if mb_role m = CLIENT_VIEWER then mb_clientPrincipalId m else None) \<and>
   cx_subjectContactId ctx = (if isPersonaRole (mb_role m) then mb_subjectContactId m else None) \<and>
   cx_delegatePropertyIds ctx = (if isDelegateRole (mb_role m) then ps else [])"
  by (auto simp: contextFromMembership_def wf_ctx_def split: if_splits)

lemma liveGrantBundles_honored: "set (liveGrantBundles i s) \<subseteq> set GRANT_HONORED_BUNDLES"
  by (auto simp: liveGrantBundles_def)

text \<open>
  C1: a context is only ever built from a live membership of that user in that workspace, the one
  no other live membership of theirs outranks; its scope fields are set exactly for the
  roles they narrow, a delegate's book is its live assignments in that workspace, and nobody
  gets one for a suspended or archived workspace. Building it changes nothing.
\<close>

theorem authz_sound:
  assumes "authz userId workspaceId s = (Inr ctx, t)"
  shows "t = s \<and> wf_ctx ctx \<and> cx_userId ctx = userId \<and> cx_workspaceId ctx = workspaceId \<and>
    (\<exists>m \<in> set (w_memberships s). mb_userId m = userId \<and> mb_workspaceId m = workspaceId \<and>
       mb_revokedAt m = None \<and> cx_role ctx = mb_role m \<and>
       (\<forall>m' \<in> set (live_memberships userId workspaceId s).
          ROLE_RANK (mb_role m) \<le> ROLE_RANK (mb_role m')) \<and>
       (\<forall>p \<in> set (cx_delegatePropertyIds ctx). \<exists>a \<in> set (w_assignments s).
          as_membershipId a = mb_id m \<and> as_workspaceId a = workspaceId \<and> as_propertyId a = p \<and>
          as_revokedAt a = None)) \<and>
    (\<forall>w. List.find (\<lambda>w. ws_id w = workspaceId) (w_workspaces s) = Some w \<longrightarrow>
       ws_archivedAt w = None \<and> ws_suspendedAt w = None)"
proof -
  obtain u m where u: "List.find (\<lambda>u. us_id u = userId) (w_users s) = Some u"
    and m: "pickMembership (live_memberships userId workspaceId s) = Some m"
    and w: "case List.find (\<lambda>w. ws_id w = workspaceId) (w_workspaces s) of None \<Rightarrow> True
      | Some w \<Rightarrow> ws_archivedAt w = None"
      "case List.find (\<lambda>w. ws_id w = workspaceId) (w_workspaces s) of None \<Rightarrow> True
      | Some w \<Rightarrow> ws_suspendedAt w = None"
    and c: "contextFromMembership u m (liveGrantBundles (mb_id m) s)
      (liveDelegatePropertyIds (mb_id m) (mb_workspaceId m) s) = Inr ctx" and t: "t = s"
    using assms by (auto simp: authz_def op_ok)
  note ctx = contextFromMembership_ok [OF c liveGrantBundles_honored]
  have in_m: "m \<in> set (live_memberships userId workspaceId s)"
    by (rule pickMembership_SomeD(1) [OF m])
  then have live: "m \<in> set (w_memberships s)" "mb_userId m = userId" "mb_workspaceId m = workspaceId"
    "mb_revokedAt m = None"
    by (auto simp: live_memberships_def)
  have least: "\<forall>m' \<in> set (live_memberships userId workspaceId s).
      ROLE_RANK (mb_role m) \<le> ROLE_RANK (mb_role m')"
    using pickMembership_SomeD(2) [OF m]
    by (fastforce simp: less_eq_prod_def less_eq_role_def less_role_def)
  have book: "\<forall>p \<in> set (cx_delegatePropertyIds ctx). \<exists>a \<in> set (w_assignments s).
      as_membershipId a = mb_id m \<and> as_workspaceId a = workspaceId \<and> as_propertyId a = p \<and>
      as_revokedAt a = None"
    using ctx live by (auto simp: liveDelegatePropertyIds_def split: if_splits)
  have "us_id u = userId" using find_Some_in [OF u] by simp
  then show ?thesis using t ctx live least book w by (auto split: option.splits)
qed

text \<open>Sample contexts and a sample database for the witnesses.\<close>

definition sample_ctx :: "role \<Rightarrow> authz_ctx" where
  "sample_ctx r = \<lparr> cx_userId = 1, cx_workspaceId = 5, cx_role = r,
     cx_clientPrincipalId = (if r = CLIENT_VIEWER then Some 21 else None),
     cx_subjectContactId = (if isPersonaRole r then Some 31 else None),
     cx_delegatePropertyIds = (if isDelegateRole r then [41] else []),
     cx_grantedBundles = [], cx_isStaff = False, cx_onBehalfOfId = None \<rparr>"

definition sample_membership :: "role \<Rightarrow> membership" where
  "sample_membership r = \<lparr> mb_id = 11, mb_workspaceId = 5, mb_userId = 1, mb_role = r,
     mb_clientPrincipalId = (if r = CLIENT_VIEWER then Some 21 else None),
     mb_subjectContactId = (if isPersonaRole r then Some 31 else None),
     mb_createdAt = 0, mb_revokedAt = None \<rparr>"

definition sample_users :: "world \<Rightarrow> world" where
  "sample_users s = s\<lparr>
     w_workspaces := [\<lparr> ws_id = 5, ws_name = ''W'', ws_type = WT_FIDUCIARY, ws_suspendedAt = None, ws_archivedAt = None \<rparr>],
     w_users := [\<lparr> us_id = 1, us_email = ''a@b'', us_name = ''A'', us_phone = None, us_locale = ''en'',
                   us_isPlatformAdmin = False, us_passwordHash = None, us_passwordSetAt = None,
                   us_failedLoginCount = 0, us_loginLockedUntil = None \<rparr>],
     w_memberships := [sample_membership MANAGER] \<rparr>"

lemma wf_sample_ctx: "wf_ctx (sample_ctx r)"
  by (cases r) (simp_all add: sample_ctx_def wf_ctx_def isPersonaRole_def isDelegateRole_def)

theorem authz_sound_witness: "wf_ctx (sample_ctx MANAGER) \<and> cx_workspaceId (sample_ctx MANAGER) = 5"
proof -
  have "authz 1 5 (sample_users empty_world) = (Inr (sample_ctx MANAGER), sample_users empty_world)"
    by (simp add: authz_def bindE_apply readE_eval someE_eval assertE_eval liftE_eval
      sample_users_def empty_world_def live_memberships_def sample_membership_def
      pickMembership_def contextFromMembership_def liveGrantBundles_def
      liveDelegatePropertyIds_def sample_ctx_def isPersonaRole_def isDelegateRole_def)
  from authz_sound [OF this] show ?thesis by blast
qed

text \<open>
  the effective capabilities of a context are its role's and, with the one honoured bundle,
  those of \<open>ORG_ADMIN\<close>; so a grant can add people and configuration power and never a data
  capability, and \<open>require_\<close> (\<open>requireCap\<close>) lets exactly the holders pass and changes nothing.
\<close>

theorem effective_capabilities:
  assumes "wf_ctx ctx"
  shows "(hasCapability ctx c \<longleftrightarrow> roleHas (cx_role ctx) c \<or>
            (B_ORG_ADMIN \<in> set (cx_grantedBundles ctx) \<and> c \<in> set ORG_ADMIN_CAPS)) \<and>
         (hasCapability ctx c \<and> \<not> roleHas (cx_role ctx) c \<longrightarrow> c \<in> set PEOPLE_ADMIN) \<and>
         (fst (requireCap ctx c s) = Inr () \<longleftrightarrow> hasCapability ctx c) \<and> snd (requireCap ctx c s) = s"
proof -
  have bs: "b = B_ORG_ADMIN" if "b \<in> set (cx_grantedBundles ctx)" for b
    using assms that by (auto simp: wf_ctx_def GRANT_HONORED_BUNDLES_def)
  have "hasCapability ctx c \<longleftrightarrow> roleHas (cx_role ctx) c \<or>
      (B_ORG_ADMIN \<in> set (cx_grantedBundles ctx) \<and> c \<in> set ORG_ADMIN_CAPS)"
    using bs by (force simp: hasCapability_def list_ex_iff bundleHas_def)
  moreover have "c \<in> set ORG_ADMIN_CAPS \<Longrightarrow> c \<in> set PEOPLE_ADMIN"
    by (auto simp: ORG_ADMIN_CAPS_def PEOPLE_ADMIN_def)
  ultimately show ?thesis by (auto simp: requireCap_def assertE_def ret_def throw_def)
qed

theorem effective_capabilities_witness:
  "\<not> hasCapability (sample_ctx ORG_ADMIN) ''tenancies.read''"
  using effective_capabilities [OF wf_sample_ctx [of ORG_ADMIN], of "''tenancies.read''"]
  by (auto simp: roleHas_def ORG_ADMIN_CAPS_def sample_ctx_def)

text \<open>
  the workspace-only doors fail closed. For a context of \<open>authz\<close>, \<open>scope()\<close> and
  \<open>assertSameWorkspace\<close> refuse every tenant, landlord and managing agent, whatever the row, and
  for the other roles the row check passes exactly on rows of the caller's own workspace.
\<close>

theorem workspace_doors_fail_closed:
  assumes "wf_ctx ctx"
  shows "if isPersonaRole (cx_role ctx) \<or> isDelegateRole (cx_role ctx)
    then (\<exists>msg. scope ctx = Inl (AuthzError msg 403)) \<and>
         (\<exists>msg. assertSameWorkspace ctx row = Inl (AuthzError msg 403))
    else scope ctx = Inr (cx_workspaceId ctx) \<and>
         assertSameWorkspace ctx row =
           (if row = Some (cx_workspaceId ctx) then Inr () else Inl (AuthzError ''Not found'' 404))"
  using assms by (auto simp: wf_ctx_def scope_def assertSameWorkspace_def)

theorem workspace_doors_fail_closed_witness:
  "\<exists>msg. scope (sample_ctx TENANT) = Inl (AuthzError msg 403)"
  using workspace_doors_fail_closed [OF wf_sample_ctx [of TENANT]]
  by (auto simp: sample_ctx_def isPersonaRole_def)

subsection \<open>Frames\<close>

lemma outcome_require [outcome]: "reads_only (requireCap ctx c)"
  unfolding requireCap_def by (rule outcome)

lemma keeps_require [log_keeps]: "keeps extends (requireCap ctx c)"
  unfolding requireCap_def by (rule logs.keeps_assertE)

lemma require_ok [op_ok]: "requireCap ctx c s = (Inr x, t) \<longleftrightarrow> hasCapability ctx c \<and> t = s"
  by (auto simp: requireCap_def op_ok)

lemma assertSameWorkspace_ok:
  "assertSameWorkspace ctx row = Inr x \<longleftrightarrow>
     cx_subjectContactId ctx = None \<and> \<not> isDelegateRole (cx_role ctx) \<and> row = Some (cx_workspaceId ctx)"
  by (auto simp: assertSameWorkspace_def)

lemma scope_ok:
  "scope ctx = Inr w \<longleftrightarrow>
     cx_subjectContactId ctx = None \<and> \<not> isDelegateRole (cx_role ctx) \<and> w = cx_workspaceId ctx"
  by (auto simp: scope_def)

end
