(* ===== verification/Scopes.thy ===== *)
theory Scopes
  imports Authz
begin

text \<open>
  \<open>services/clientScope.ts\<close>, \<open>services/delegateScope.ts\<close> and \<open>services/contactScope.ts\<close>: which
  rows a client viewer, a managing agent and a tenant or landlord may read and write. The
  \<open>where\<close> fragments handed to Prisma are data, evaluated on a row by \<open>matches\<close>.
\<close>

subsection \<open>Where fragments\<close>

text \<open>The columns a fragment can mention, of a row of any table.\<close>

record row_view =
  rv_workspaceId :: uid
  rv_id :: uid
  rv_propertyId :: "uid option"
  rv_tenancyId :: "uid option"
  rv_scopeType :: "scopeType option"
  rv_scopeId :: "uid option"

datatype where_clause =
    W_id "uid list"
  | W_tenancyId "uid list"
  | W_propertyId "uid list"
  | W_property_or_tenancy "uid list" "uid list"
  | W_scope "(scopeType \<times> uid list) list"

record where_fragment =
  wh_workspaceId :: uid
  wh_clause :: where_clause

definition some_in :: "uid option \<Rightarrow> uid list \<Rightarrow> bool" where
  "some_in x xs = (case x of None \<Rightarrow> False | Some y \<Rightarrow> y \<in> set xs)"

fun clause_matches :: "where_clause \<Rightarrow> row_view \<Rightarrow> bool" where
  "clause_matches (W_id xs) r = (rv_id r \<in> set xs)"
| "clause_matches (W_tenancyId xs) r = some_in (rv_tenancyId r) xs"
| "clause_matches (W_propertyId xs) r = some_in (rv_propertyId r) xs"
| "clause_matches (W_property_or_tenancy ps ts) r =
     (some_in (rv_propertyId r) ps \<or> some_in (rv_tenancyId r) ts)"
| "clause_matches (W_scope cs) r =
     list_ex (\<lambda>(ty, xs). rv_scopeType r = Some ty \<and> some_in (rv_scopeId r) xs) cs"

definition matches :: "where_fragment \<Rightarrow> row_view \<Rightarrow> bool" where
  "matches w r \<longleftrightarrow> rv_workspaceId r = wh_workspaceId w \<and> clause_matches (wh_clause w) r"

definition view_tenancy :: "tenancy \<Rightarrow> row_view" where
  "view_tenancy t = \<lparr> rv_workspaceId = tn_workspaceId t, rv_id = tn_id t,
     rv_propertyId = Some (tn_propertyId t), rv_tenancyId = None, rv_scopeType = None,
     rv_scopeId = None \<rparr>"

definition view_property :: "property \<Rightarrow> row_view" where
  "view_property p = \<lparr> rv_workspaceId = pr_workspaceId p, rv_id = pr_id p,
     rv_propertyId = None, rv_tenancyId = None, rv_scopeType = None, rv_scopeId = None \<rparr>"

definition view_payment :: "payment_item \<Rightarrow> row_view" where
  "view_payment i = \<lparr> rv_workspaceId = pi_workspaceId i, rv_id = pi_id i,
     rv_propertyId = None, rv_tenancyId = Some (pi_tenancyId i), rv_scopeType = None,
     rv_scopeId = None \<rparr>"

definition view_deadline :: "deadline \<Rightarrow> row_view" where
  "view_deadline d = \<lparr> rv_workspaceId = dl_workspaceId d, rv_id = dl_id d,
     rv_propertyId = dl_propertyId d, rv_tenancyId = dl_tenancyId d, rv_scopeType = None,
     rv_scopeId = None \<rparr>"

definition view_document :: "document \<Rightarrow> row_view" where
  "view_document d = \<lparr> rv_workspaceId = dc_workspaceId d, rv_id = dc_id d,
     rv_propertyId = None, rv_tenancyId = None, rv_scopeType = Some (dc_scopeType d),
     rv_scopeId = dc_scopeId d \<rparr>"

definition view_proof :: "proof_request \<Rightarrow> row_view" where
  "view_proof p = \<lparr> rv_workspaceId = pf_workspaceId p, rv_id = pf_id p,
     rv_propertyId = None, rv_tenancyId = None, rv_scopeType = Some (pf_scopeType p),
     rv_scopeId = pf_scopeId p \<rparr>"

definition view_listing :: "listing \<Rightarrow> row_view" where
  "view_listing l = \<lparr> rv_workspaceId = ls_workspaceId l, rv_id = ls_id l,
     rv_propertyId = Some (ls_propertyId l), rv_tenancyId = None, rv_scopeType = None,
     rv_scopeId = None \<rparr>"

definition view_contact :: "contact \<Rightarrow> row_view" where
  "view_contact c = \<lparr> rv_workspaceId = ct_workspaceId c, rv_id = ct_id c,
     rv_propertyId = None, rv_tenancyId = None, rv_scopeType = None, rv_scopeId = None \<rparr>"

subsection \<open>Client scope\<close>

record client_scope_ids =
  cs_clientPrincipalId :: "uid option"
  cs_clientPrincipalIds :: "uid list"
  cs_propertyIds :: "uid list"
  cs_tenancyIds :: "uid list"
  cs_paymentItemIds :: "uid list"
  cs_proofRequestIds :: "uid list"

text \<open>The all-zero uuid.\<close>

definition NEVER_MATCH_ID :: uid where "NEVER_MATCH_ID = 0"

definition inIds :: "uid list \<Rightarrow> uid list" where
  "inIds ids = (if ids \<noteq> [] then ids else [NEVER_MATCH_ID])"

definition tenancies_of_properties :: "uid \<Rightarrow> uid list \<Rightarrow> world \<Rightarrow> uid list" where
  "tenancies_of_properties ws ps s =
     map tn_id (filter (\<lambda>t. tn_workspaceId t = ws \<and> tn_propertyId t \<in> set ps) (w_tenancies s))"

definition payments_of_tenancies :: "uid \<Rightarrow> uid list \<Rightarrow> world \<Rightarrow> uid list" where
  "payments_of_tenancies ws ts s =
     map pi_id (filter (\<lambda>i. pi_workspaceId i = ws \<and> pi_tenancyId i \<in> set ts) (w_payments s))"

definition proofs_of_scopes :: "uid \<Rightarrow> uid list \<Rightarrow> world \<Rightarrow> uid list" where
  "proofs_of_scopes ws xs s =
     map pf_id (filter (\<lambda>p. pf_workspaceId p = ws \<and> some_in (pf_scopeId p) xs) (w_proofs s))"

definition resolveClientScopeIds :: "uid \<Rightarrow> uid list \<Rightarrow> world \<Rightarrow> client_scope_ids" where
  "resolveClientScopeIds ws clients s =
     (let propertyIds = map pr_id (filter (\<lambda>p. pr_workspaceId p = ws \<and>
            some_in (pr_clientPrincipalId p) (inIds clients)) (w_properties s));
          tenancyIds = tenancies_of_properties ws (inIds propertyIds) s;
          paymentItemIds = payments_of_tenancies ws (inIds tenancyIds) s;
          ownScopeIds = clients @ propertyIds @ tenancyIds @ paymentItemIds;
          proofRequestIds = proofs_of_scopes ws (inIds ownScopeIds) s
      in \<lparr> cs_clientPrincipalId = (case clients of [] \<Rightarrow> None | c # _ \<Rightarrow> Some c),
           cs_clientPrincipalIds = clients, cs_propertyIds = propertyIds,
           cs_tenancyIds = tenancyIds, cs_paymentItemIds = paymentItemIds,
           cs_proofRequestIds = proofRequestIds \<rparr>)"

text \<open>\<open>[...new Set(xs)]\<close>: the distinct values, in order of first occurrence.\<close>

definition unique :: "'a list \<Rightarrow> 'a list" where
  "unique xs = rev (remdups (rev xs))"

definition somes :: "'a option list \<Rightarrow> 'a list" where
  "somes xs = List.map_filter (\<lambda>x. x) xs"

definition contactIdsForScope :: "uid \<Rightarrow> client_scope_ids \<Rightarrow> world \<Rightarrow> uid list" where
  "contactIdsForScope ws ids s =
     (let props = filter (\<lambda>p. pr_workspaceId p = ws \<and> pr_id p \<in> set (cs_propertyIds ids)) (w_properties s);
          tens = filter (\<lambda>t. tn_workspaceId t = ws \<and> tn_id t \<in> set (cs_tenancyIds ids)) (w_tenancies s);
          proofs = filter (\<lambda>p. pf_workspaceId p = ws \<and> pf_id p \<in> set (cs_proofRequestIds ids)) (w_proofs s)
      in unique (somes (map pr_ownerContactId props @ map tn_tenantContactId tens @
           map tn_landlordContactId tens @ map (\<lambda>p. Some (pf_assignedContactId p)) proofs)))"

definition allScopeIds :: "client_scope_ids \<Rightarrow> uid list" where
  "allScopeIds ids = cs_clientPrincipalIds ids @ cs_propertyIds ids @ cs_tenancyIds ids @
     cs_paymentItemIds ids @ cs_proofRequestIds ids"

definition scopeMatchClauses :: "client_scope_ids \<Rightarrow> (scopeType \<times> uid list) list" where
  "scopeMatchClauses ids =
     [(S_CLIENT, inIds (cs_clientPrincipalIds ids)), (S_PROPERTY, inIds (cs_propertyIds ids)),
      (S_TENANCY, inIds (cs_tenancyIds ids)), (S_PAYMENT_ITEM, inIds (cs_paymentItemIds ids)),
      (S_PROOF_REQUEST, inIds (cs_proofRequestIds ids))]"

definition scopeBelongsToClient :: "client_scope_ids \<Rightarrow> scopeType \<Rightarrow> uid option \<Rightarrow> bool" where
  "scopeBelongsToClient ids ty sid =
     (case sid of None \<Rightarrow> False | Some i \<Rightarrow>
       (case ty of
          S_CLIENT \<Rightarrow> i \<in> set (cs_clientPrincipalIds ids)
        | S_PROPERTY \<Rightarrow> i \<in> set (cs_propertyIds ids)
        | S_TENANCY \<Rightarrow> i \<in> set (cs_tenancyIds ids)
        | S_PAYMENT_ITEM \<Rightarrow> i \<in> set (cs_paymentItemIds ids)
        | S_PROOF_REQUEST \<Rightarrow> i \<in> set (cs_proofRequestIds ids)
        | _ \<Rightarrow> False))"

subsection \<open>Delegate scope\<close>

definition assertDelegate :: "authz_ctx \<Rightarrow> error + unit" where
  "assertDelegate ctx =
     (if \<not> isDelegateRole (cx_role ctx)
      then Inl (forbidden ''clientSetScopedWhere requires a delegate (MANAGING_AGENT) context'')
      else Inr ())"

definition delegate_scope_ids :: "uid \<Rightarrow> uid list \<Rightarrow> world \<Rightarrow> client_scope_ids" where
  "delegate_scope_ids ws propertyIds s =
     (let tenancyIds = tenancies_of_properties ws (inIds propertyIds) s;
          paymentItemIds = payments_of_tenancies ws (inIds tenancyIds) s;
          ownScopeIds = propertyIds @ tenancyIds @ paymentItemIds
      in \<lparr> cs_clientPrincipalId = None, cs_clientPrincipalIds = [], cs_propertyIds = propertyIds,
           cs_tenancyIds = tenancyIds, cs_paymentItemIds = paymentItemIds,
           cs_proofRequestIds = proofs_of_scopes ws (inIds ownScopeIds) s \<rparr>)"

definition resolveDelegateScopeIds :: "authz_ctx \<Rightarrow> world \<Rightarrow> error + client_scope_ids" where
  "resolveDelegateScopeIds ctx s =
     (case assertDelegate ctx of Inl e \<Rightarrow> Inl e
      | Inr _ \<Rightarrow> Inr (delegate_scope_ids (cx_workspaceId ctx) (cx_delegatePropertyIds ctx) s))"

definition resolveDelegateContactIds :: "authz_ctx \<Rightarrow> client_scope_ids \<Rightarrow> world \<Rightarrow> uid list" where
  "resolveDelegateContactIds ctx ids s = contactIdsForScope (cx_workspaceId ctx) ids s"

datatype scope_table =
    TB_TENANCY | TB_PROPERTY | TB_PAYMENT_ITEM | TB_DEADLINE | TB_DOCUMENT | TB_PROOF_REQUEST

text \<open>
  Contacts are listed for delegates only, listings for personas only; the two arms are
  \<open>delegate_contact_where\<close> and \<open>persona_listing_where\<close>.
\<close>

definition clientSetScopedWhere :: "authz_ctx \<Rightarrow> scope_table \<Rightarrow> world \<Rightarrow> error + where_fragment" where
  "clientSetScopedWhere ctx table s =
     (case resolveDelegateScopeIds ctx s of Inl e \<Rightarrow> Inl e
      | Inr ids \<Rightarrow> Inr \<lparr> wh_workspaceId = cx_workspaceId ctx, wh_clause =
          (case table of
             TB_TENANCY \<Rightarrow> W_id (inIds (cs_tenancyIds ids))
           | TB_PROPERTY \<Rightarrow> W_id (inIds (cs_propertyIds ids))
           | TB_PAYMENT_ITEM \<Rightarrow> W_tenancyId (inIds (cs_tenancyIds ids))
           | TB_DEADLINE \<Rightarrow> W_property_or_tenancy (inIds (cs_propertyIds ids)) (inIds (cs_tenancyIds ids))
           | TB_DOCUMENT \<Rightarrow> W_scope (scopeMatchClauses ids)
           | TB_PROOF_REQUEST \<Rightarrow> W_id (inIds (cs_proofRequestIds ids))) \<rparr>)"

definition delegate_contact_where :: "authz_ctx \<Rightarrow> world \<Rightarrow> error + where_fragment" where
  "delegate_contact_where ctx s =
     (case resolveDelegateScopeIds ctx s of Inl e \<Rightarrow> Inl e
      | Inr ids \<Rightarrow> Inr \<lparr> wh_workspaceId = cx_workspaceId ctx,
          wh_clause = W_id (inIds (resolveDelegateContactIds ctx ids s)) \<rparr>)"

definition assertDelegatePropertyId :: "authz_ctx \<Rightarrow> uid option \<Rightarrow> error + unit" where
  "assertDelegatePropertyId ctx propertyId =
     (if some_in propertyId (cx_delegatePropertyIds ctx) then Inr () else Inl notFound)"

text \<open>The row is given by its workspace id, \<open>None\<close> when there is no row.\<close>

definition assertPropertyInDelegateScope ::
    "authz_ctx \<Rightarrow> uid option \<Rightarrow> uid option \<Rightarrow> error + unit" where
  "assertPropertyInDelegateScope ctx row propertyId =
     (if row \<noteq> Some (cx_workspaceId ctx) then Inl notFound
      else assertDelegatePropertyId ctx propertyId)"

definition assertDelegateServesClient :: "authz_ctx \<Rightarrow> uid option \<Rightarrow> world \<Rightarrow> error + unit" where
  "assertDelegateServesClient ctx clientPrincipalId s =
     (if clientPrincipalId = None then Inl notFound
      else if cx_delegatePropertyIds ctx = [] then Inl notFound
      else if List.find (\<lambda>p. pr_workspaceId p = cx_workspaceId ctx \<and>
                pr_id p \<in> set (inIds (cx_delegatePropertyIds ctx)) \<and>
                pr_clientPrincipalId p = clientPrincipalId) (w_properties s) = None
      then Inl notFound
      else Inr ())"

text \<open>
  \<open>i.tenancy.propertyId\<close> follows the foreign key from the payment item; a row whose tenancy is
  missing does not exist in the database.
\<close>

definition propertyIdOfScope :: "uid \<Rightarrow> scopeType \<Rightarrow> uid option \<Rightarrow> world \<Rightarrow> uid option" where
  "propertyIdOfScope ws ty scopeId s =
     (case scopeId of None \<Rightarrow> None | Some i \<Rightarrow>
       (case ty of
          S_PROPERTY \<Rightarrow>
            map_option pr_id (List.find (\<lambda>p. pr_workspaceId p = ws \<and> pr_id p = i) (w_properties s))
        | S_TENANCY \<Rightarrow>
            map_option tn_propertyId
              (List.find (\<lambda>t. tn_workspaceId t = ws \<and> tn_id t = i) (w_tenancies s))
        | S_PAYMENT_ITEM \<Rightarrow>
            (case List.find (\<lambda>x. pi_workspaceId x = ws \<and> pi_id x = i) (w_payments s) of
               None \<Rightarrow> None
             | Some x \<Rightarrow>
                 map_option tn_propertyId (List.find (\<lambda>t. tn_id t = pi_tenancyId x) (w_tenancies s)))
        | _ \<Rightarrow> None))"

subsection \<open>Contact scope\<close>

record contact_scope_ids =
  ks_contactId :: uid
  ks_propertyIds :: "uid list"
  ks_tenancyIds :: "uid list"
  ks_paymentItemIds :: "uid list"
  ks_proofRequestIds :: "uid list"
  ks_passportIds :: "uid list"

definition resolveContactScopeIds :: "uid \<Rightarrow> uid \<Rightarrow> role \<Rightarrow> world \<Rightarrow> contact_scope_ids" where
  "resolveContactScopeIds ws contactId r s =
     (let (propertyIds, tenancyIds, passportIds) =
        (if r = TENANT then
           let tenancies = filter (\<lambda>t. tn_workspaceId t = ws \<and> tn_tenantContactId t = Some contactId \<and>
                 tn_archivedAt t = None) (w_tenancies s)
           in (unique (map tn_propertyId tenancies), map tn_id tenancies,
               map pp_id (filter (\<lambda>p. pp_workspaceId p = ws \<and> pp_contactId p = contactId)
                 (w_passports s)))
         else
           let owned = map pr_id (filter (\<lambda>p. pr_workspaceId p = ws \<and>
                 pr_ownerContactId p = Some contactId) (w_properties s));
               landlordTenancies = filter (\<lambda>t. tn_workspaceId t = ws \<and>
                 tn_landlordContactId t = Some contactId \<and> tn_archivedAt t = None) (w_tenancies s);
               ownedTenancies = (if owned \<noteq> [] then tenancies_of_properties ws owned s else [])
           in (unique (owned @ map tn_propertyId landlordTenancies),
               unique (ownedTenancies @ map tn_id landlordTenancies), []));
          paymentItemIds = payments_of_tenancies ws tenancyIds s
      in \<lparr> ks_contactId = contactId, ks_propertyIds = propertyIds, ks_tenancyIds = tenancyIds,
           ks_paymentItemIds = paymentItemIds,
           ks_proofRequestIds = proofs_of_scopes ws (propertyIds @ tenancyIds @ paymentItemIds) s,
           ks_passportIds = passportIds \<rparr>)"

definition scopeMatchClausesContact :: "contact_scope_ids \<Rightarrow> (scopeType \<times> uid list) list" where
  "scopeMatchClausesContact ids =
     [(S_PROPERTY, ks_propertyIds ids), (S_TENANCY, ks_tenancyIds ids),
      (S_PAYMENT_ITEM, ks_paymentItemIds ids), (S_PROOF_REQUEST, ks_proofRequestIds ids),
      (S_TENANT_PASSPORT, ks_passportIds ids)]"

definition scopeBelongsToContact :: "contact_scope_ids \<Rightarrow> scopeType \<Rightarrow> uid option \<Rightarrow> bool" where
  "scopeBelongsToContact ids ty sid =
     (case sid of None \<Rightarrow> False | Some i \<Rightarrow>
       (case ty of
          S_PROPERTY \<Rightarrow> i \<in> set (ks_propertyIds ids)
        | S_TENANCY \<Rightarrow> i \<in> set (ks_tenancyIds ids)
        | S_PAYMENT_ITEM \<Rightarrow> i \<in> set (ks_paymentItemIds ids)
        | S_PROOF_REQUEST \<Rightarrow> i \<in> set (ks_proofRequestIds ids)
        | S_TENANT_PASSPORT \<Rightarrow> i \<in> set (ks_passportIds ids)
        | _ \<Rightarrow> False))"

text \<open>The contact of a persona context.\<close>

definition persona_contact :: "authz_ctx \<Rightarrow> uid option" where
  "persona_contact ctx =
     (if isPersonaRole (cx_role ctx) then cx_subjectContactId ctx else None)"

definition contactScopedWhere :: "authz_ctx \<Rightarrow> scope_table \<Rightarrow> world \<Rightarrow> error + where_fragment" where
  "contactScopedWhere ctx table s =
     (case persona_contact ctx of
        None \<Rightarrow> Inl (forbidden ''contactScopedWhere requires a persona context'')
      | Some contactId \<Rightarrow>
          let ids = resolveContactScopeIds (cx_workspaceId ctx) contactId (cx_role ctx) s
          in Inr \<lparr> wh_workspaceId = cx_workspaceId ctx, wh_clause =
            (case table of
               TB_TENANCY \<Rightarrow> W_id (ks_tenancyIds ids)
             | TB_PROPERTY \<Rightarrow> W_id (ks_propertyIds ids)
             | TB_PAYMENT_ITEM \<Rightarrow> W_tenancyId (ks_tenancyIds ids)
             | TB_DEADLINE \<Rightarrow> W_property_or_tenancy (ks_propertyIds ids) (ks_tenancyIds ids)
             | TB_DOCUMENT \<Rightarrow> W_scope (scopeMatchClausesContact ids)
             | TB_PROOF_REQUEST \<Rightarrow> W_id (ks_proofRequestIds ids)) \<rparr>)"

definition persona_listing_where :: "authz_ctx \<Rightarrow> world \<Rightarrow> error + where_fragment" where
  "persona_listing_where ctx s =
     (case persona_contact ctx of
        None \<Rightarrow> Inl (forbidden ''contactScopedWhere requires a persona context'')
      | Some contactId \<Rightarrow>
          Inr \<lparr> wh_workspaceId = cx_workspaceId ctx, wh_clause = W_propertyId (ks_propertyIds
            (resolveContactScopeIds (cx_workspaceId ctx) contactId (cx_role ctx) s)) \<rparr>)"

subsection \<open>The by-id door\<close>

text \<open>A tenancy is fetched with the client of its property.\<close>

datatype readable_target =
    RT_tenancy "(tenancy \<times> uid option) option"
  | RT_property "property option"
  | RT_document "document option"
  | RT_proofRequest "proof_request option"
  | RT_listing "listing option"

fun target_workspace :: "readable_target \<Rightarrow> uid option" where
  "target_workspace (RT_tenancy x) = map_option (\<lambda>(t, _). tn_workspaceId t) x"
| "target_workspace (RT_property x) = map_option pr_workspaceId x"
| "target_workspace (RT_document x) = map_option dc_workspaceId x"
| "target_workspace (RT_proofRequest x) = map_option pf_workspaceId x"
| "target_workspace (RT_listing x) = map_option ls_workspaceId x"

text \<open>The three restrictions, on a target that has a row.\<close>

fun client_target_ok :: "uid \<Rightarrow> client_scope_ids \<Rightarrow> readable_target \<Rightarrow> bool" where
  "client_target_ok c ids (RT_tenancy x) = (case x of None \<Rightarrow> False | Some (t, cp) \<Rightarrow> cp = Some c)"
| "client_target_ok c ids (RT_property x) =
     (case x of None \<Rightarrow> False | Some p \<Rightarrow> pr_clientPrincipalId p = Some c)"
| "client_target_ok c ids (RT_proofRequest x) =
     (case x of None \<Rightarrow> False | Some p \<Rightarrow> pf_id p \<in> set (cs_proofRequestIds ids))"
| "client_target_ok c ids (RT_listing x) = False"
| "client_target_ok c ids (RT_document x) =
     (case x of None \<Rightarrow> False | Some d \<Rightarrow> scopeBelongsToClient ids (dc_scopeType d) (dc_scopeId d))"

fun contact_target_ok :: "contact_scope_ids \<Rightarrow> readable_target \<Rightarrow> bool" where
  "contact_target_ok ids (RT_tenancy x) =
     (case x of None \<Rightarrow> False | Some (t, _) \<Rightarrow> tn_id t \<in> set (ks_tenancyIds ids))"
| "contact_target_ok ids (RT_property x) =
     (case x of None \<Rightarrow> False | Some p \<Rightarrow> pr_id p \<in> set (ks_propertyIds ids))"
| "contact_target_ok ids (RT_proofRequest x) =
     (case x of None \<Rightarrow> False | Some p \<Rightarrow> pf_id p \<in> set (ks_proofRequestIds ids))"
| "contact_target_ok ids (RT_listing x) =
     (case x of None \<Rightarrow> False | Some l \<Rightarrow> ls_propertyId l \<in> set (ks_propertyIds ids))"
| "contact_target_ok ids (RT_document x) =
     (case x of None \<Rightarrow> False | Some d \<Rightarrow> scopeBelongsToContact ids (dc_scopeType d) (dc_scopeId d))"

fun delegate_target_ok :: "client_scope_ids \<Rightarrow> readable_target \<Rightarrow> bool" where
  "delegate_target_ok ids (RT_tenancy x) =
     (case x of None \<Rightarrow> False | Some (t, _) \<Rightarrow> tn_id t \<in> set (cs_tenancyIds ids))"
| "delegate_target_ok ids (RT_property x) =
     (case x of None \<Rightarrow> False | Some p \<Rightarrow> pr_id p \<in> set (cs_propertyIds ids))"
| "delegate_target_ok ids (RT_proofRequest x) =
     (case x of None \<Rightarrow> False | Some p \<Rightarrow> pf_id p \<in> set (cs_proofRequestIds ids))"
| "delegate_target_ok ids (RT_listing x) = False"
| "delegate_target_ok ids (RT_document x) =
     (case x of None \<Rightarrow> False | Some d \<Rightarrow> scopeBelongsToClient ids (dc_scopeType d) (dc_scopeId d))"

definition assertReadable :: "authz_ctx \<Rightarrow> readable_target \<Rightarrow> world \<Rightarrow> error + unit" where
  "assertReadable ctx target s =
     (if target_workspace target \<noteq> Some (cx_workspaceId ctx) then Inl notFound
      else case cx_clientPrincipalId ctx of
        Some c \<Rightarrow>
          if client_target_ok c (resolveClientScopeIds (cx_workspaceId ctx) [c] s) target
          then Inr () else Inl notFound
      | None \<Rightarrow>
          case persona_contact ctx of
            Some k \<Rightarrow>
              if contact_target_ok (resolveContactScopeIds (cx_workspaceId ctx) k (cx_role ctx) s) target
              then Inr () else Inl notFound
          | None \<Rightarrow>
              if isDelegateRole (cx_role ctx)
              then if delegate_target_ok (delegate_scope_ids (cx_workspaceId ctx)
                        (cx_delegatePropertyIds ctx) s) target
                   then Inr () else Inl notFound
              else Inr ())"

subsection \<open>The two document doors\<close>

text \<open>
  A scope has an OR-clause for the list queries and a switch for the by-id checks; the law of
  the interface is that they are the same set of scopes, up to the sentinel id.
\<close>

locale doc_door =
  fixes clauses :: "'ids \<Rightarrow> (scopeType \<times> uid list) list"
    and belongs :: "'ids \<Rightarrow> scopeType \<Rightarrow> uid option \<Rightarrow> bool"
  assumes agree: "i \<noteq> NEVER_MATCH_ID \<Longrightarrow>
      (\<exists>xs. (ty, xs) \<in> set (clauses ids) \<and> i \<in> set xs) \<longleftrightarrow> belongs ids ty (Some i)"
    and none: "\<not> belongs ids ty None"
begin

lemma listed_iff:
  assumes "dc_scopeId d \<noteq> Some NEVER_MATCH_ID"
  shows "clause_matches (W_scope (clauses ids)) (view_document d) \<longleftrightarrow>
    belongs ids (dc_scopeType d) (dc_scopeId d)"
proof (cases "dc_scopeId d")
  case None
  then show ?thesis by (auto simp: view_document_def some_in_def none list_ex_iff)
next
  case (Some i)
  then show ?thesis
    using agree [of i "dc_scopeType d" ids] assms
    by (fastforce simp: view_document_def some_in_def list_ex_iff)
qed

lemma unscoped_hidden: "dc_scopeId d = None \<Longrightarrow> \<not> clause_matches (W_scope (clauses ids)) (view_document d)"
  by (auto simp: view_document_def some_in_def list_ex_iff)

end

lemma in_inIds: "i \<noteq> NEVER_MATCH_ID \<Longrightarrow> i \<in> set (inIds xs) \<longleftrightarrow> i \<in> set xs"
  by (auto simp: inIds_def)

interpretation client_docs: doc_door scopeMatchClauses scopeBelongsToClient
  by unfold_locales
    (auto simp: scopeMatchClauses_def scopeBelongsToClient_def in_inIds split: scopeType.splits)

interpretation contact_docs: doc_door scopeMatchClausesContact scopeBelongsToContact
  by unfold_locales
    (auto simp: scopeMatchClausesContact_def scopeBelongsToContact_def split: scopeType.splits)

subsection \<open>What a persona reaches\<close>

lemma set_unique [simp]: "set (unique xs) = set xs"
  by (simp add: unique_def)

text \<open>
  The rows a tenant or landlord is meant to reach, rule by rule: a tenant's live tenancies and
  their units; an owner's units and every lease on them; for a landlord of record
  that one tenancy and its unit; from there payments and proof requests.
\<close>

inductive persona_covers :: "world \<Rightarrow> uid \<Rightarrow> uid \<Rightarrow> role \<Rightarrow> scopeType \<Rightarrow> uid \<Rightarrow> bool"
  for s :: world and ws :: uid and c :: uid and r :: role where
  tenant_tenancy: "r = TENANT \<Longrightarrow> t \<in> set (w_tenancies s) \<Longrightarrow> tn_workspaceId t = ws \<Longrightarrow>
    tn_tenantContactId t = Some c \<Longrightarrow> tn_archivedAt t = None \<Longrightarrow>
    persona_covers s ws c r S_TENANCY (tn_id t)"
| tenant_property: "r = TENANT \<Longrightarrow> t \<in> set (w_tenancies s) \<Longrightarrow> tn_workspaceId t = ws \<Longrightarrow>
    tn_tenantContactId t = Some c \<Longrightarrow> tn_archivedAt t = None \<Longrightarrow>
    persona_covers s ws c r S_PROPERTY (tn_propertyId t)"
| tenant_passport: "r = TENANT \<Longrightarrow> p \<in> set (w_passports s) \<Longrightarrow> pp_workspaceId p = ws \<Longrightarrow>
    pp_contactId p = c \<Longrightarrow> persona_covers s ws c r S_TENANT_PASSPORT (pp_id p)"
| owned_property: "r \<noteq> TENANT \<Longrightarrow> p \<in> set (w_properties s) \<Longrightarrow> pr_workspaceId p = ws \<Longrightarrow>
    pr_ownerContactId p = Some c \<Longrightarrow> persona_covers s ws c r S_PROPERTY (pr_id p)"
| owned_tenancy: "r \<noteq> TENANT \<Longrightarrow> p \<in> set (w_properties s) \<Longrightarrow> pr_workspaceId p = ws \<Longrightarrow>
    pr_ownerContactId p = Some c \<Longrightarrow> t \<in> set (w_tenancies s) \<Longrightarrow> tn_workspaceId t = ws \<Longrightarrow>
    tn_propertyId t = pr_id p \<Longrightarrow> persona_covers s ws c r S_TENANCY (tn_id t)"
| record_tenancy: "r \<noteq> TENANT \<Longrightarrow> t \<in> set (w_tenancies s) \<Longrightarrow> tn_workspaceId t = ws \<Longrightarrow>
    tn_landlordContactId t = Some c \<Longrightarrow> tn_archivedAt t = None \<Longrightarrow>
    persona_covers s ws c r S_TENANCY (tn_id t)"
| record_property: "r \<noteq> TENANT \<Longrightarrow> t \<in> set (w_tenancies s) \<Longrightarrow> tn_workspaceId t = ws \<Longrightarrow>
    tn_landlordContactId t = Some c \<Longrightarrow> tn_archivedAt t = None \<Longrightarrow>
    persona_covers s ws c r S_PROPERTY (tn_propertyId t)"
| payment: "persona_covers s ws c r S_TENANCY (pi_tenancyId i) \<Longrightarrow> i \<in> set (w_payments s) \<Longrightarrow>
    pi_workspaceId i = ws \<Longrightarrow> persona_covers s ws c r S_PAYMENT_ITEM (pi_id i)"
| proof_request: "persona_covers s ws c r ty x \<Longrightarrow> ty \<in> {S_PROPERTY, S_TENANCY, S_PAYMENT_ITEM} \<Longrightarrow>
    q \<in> set (w_proofs s) \<Longrightarrow> pf_workspaceId q = ws \<Longrightarrow> pf_scopeId q = Some x \<Longrightarrow>
    persona_covers s ws c r S_PROOF_REQUEST (pf_id q)"

inductive_simps covers_tenancy: "persona_covers s ws c r S_TENANCY i"
inductive_simps covers_property: "persona_covers s ws c r S_PROPERTY i"
inductive_simps covers_payment: "persona_covers s ws c r S_PAYMENT_ITEM i"
inductive_simps covers_proof: "persona_covers s ws c r S_PROOF_REQUEST i"
inductive_simps covers_passport: "persona_covers s ws c r S_TENANT_PASSPORT i"
inductive_cases covers_otherE: "persona_covers s ws c r ty i"

lemma contact_tenancies:
  "i \<in> set (ks_tenancyIds (resolveContactScopeIds ws c r s)) \<longleftrightarrow> persona_covers s ws c r S_TENANCY i"
  by (auto simp: resolveContactScopeIds_def Let_def covers_tenancy tenancies_of_properties_def
    filter_empty_conv split: prod.splits if_splits)

lemma contact_properties:
  "i \<in> set (ks_propertyIds (resolveContactScopeIds ws c r s)) \<longleftrightarrow> persona_covers s ws c r S_PROPERTY i"
  by (auto simp: resolveContactScopeIds_def Let_def covers_property split: prod.splits if_splits)

lemma contact_passports:
  "i \<in> set (ks_passportIds (resolveContactScopeIds ws c r s)) \<longleftrightarrow>
     persona_covers s ws c r S_TENANT_PASSPORT i"
  by (auto simp: resolveContactScopeIds_def Let_def covers_passport split: prod.splits if_splits)

lemma contact_payments:
  "i \<in> set (ks_paymentItemIds (resolveContactScopeIds ws c r s)) \<longleftrightarrow>
     persona_covers s ws c r S_PAYMENT_ITEM i"
proof -
  have "ks_paymentItemIds (resolveContactScopeIds ws c r s) =
      payments_of_tenancies ws (ks_tenancyIds (resolveContactScopeIds ws c r s)) s"
    by (simp add: resolveContactScopeIds_def Let_def split: prod.splits)
  then show ?thesis
    by (auto simp: covers_payment payments_of_tenancies_def contact_tenancies)
qed

lemma in_proofs_of_scopes:
  "i \<in> set (proofs_of_scopes ws xs s) \<longleftrightarrow>
     (\<exists>q x. q \<in> set (w_proofs s) \<and> pf_id q = i \<and> pf_workspaceId q = ws \<and> pf_scopeId q = Some x \<and>
        x \<in> set xs)"
  by (auto simp: proofs_of_scopes_def some_in_def split: option.splits)

lemma contact_proofs:
  "i \<in> set (ks_proofRequestIds (resolveContactScopeIds ws c r s)) \<longleftrightarrow>
     persona_covers s ws c r S_PROOF_REQUEST i"
proof -
  let ?ids = "resolveContactScopeIds ws c r s"
  have "ks_proofRequestIds ?ids = proofs_of_scopes ws
      (ks_propertyIds ?ids @ ks_tenancyIds ?ids @ ks_paymentItemIds ?ids) s"
    by (simp add: resolveContactScopeIds_def Let_def split: prod.splits)
  moreover have "x \<in> set (ks_propertyIds ?ids @ ks_tenancyIds ?ids @ ks_paymentItemIds ?ids) \<longleftrightarrow>
      (\<exists>ty \<in> {S_PROPERTY, S_TENANCY, S_PAYMENT_ITEM}. persona_covers s ws c r ty x)" for x
    by (simp add: contact_tenancies contact_properties contact_payments)
  ultimately show ?thesis
    unfolding covers_proof by (simp only: in_proofs_of_scopes) blast
qed

lemmas contact_ids = contact_tenancies contact_properties contact_payments contact_proofs
  contact_passports

lemma scopeBelongsToContact_iff:
  "scopeBelongsToContact (resolveContactScopeIds ws c r s) ty sid \<longleftrightarrow>
     (\<exists>i. sid = Some i \<and> persona_covers s ws c r ty i)"
  by (cases ty; cases sid) (auto simp: scopeBelongsToContact_def contact_ids elim: covers_otherE)

lemma view_simps [simp]:
  "rv_workspaceId (view_document d) = dc_workspaceId d"
  "rv_workspaceId (view_tenancy t) = tn_workspaceId t" "rv_id (view_tenancy t) = tn_id t"
  "rv_workspaceId (view_property p) = pr_workspaceId p" "rv_id (view_property p) = pr_id p"
  "rv_workspaceId (view_proof q) = pf_workspaceId q" "rv_id (view_proof q) = pf_id q"
  "rv_workspaceId (view_payment i) = pi_workspaceId i"
  "rv_workspaceId (view_deadline e) = dl_workspaceId e"
  by (simp_all add: view_document_def view_tenancy_def view_property_def view_proof_def
    view_payment_def view_deadline_def)

text \<open>Whether a row passes the list filter of a persona, and what a persona reaches.\<close>

definition persona_lists :: "authz_ctx \<Rightarrow> scope_table \<Rightarrow> world \<Rightarrow> row_view \<Rightarrow> bool" where
  "persona_lists ctx table s r =
     (case contactScopedWhere ctx table s of Inl _ \<Rightarrow> False | Inr w \<Rightarrow> matches w r)"

abbreviation reaches :: "world \<Rightarrow> authz_ctx \<Rightarrow> uid \<Rightarrow> scopeType \<Rightarrow> uid \<Rightarrow> bool" where
  "reaches s ctx c \<equiv> persona_covers s (cx_workspaceId ctx) c (cx_role ctx)"

definition persona_lists_listing :: "authz_ctx \<Rightarrow> world \<Rightarrow> row_view \<Rightarrow> bool" where
  "persona_lists_listing ctx s r =
     (case persona_listing_where ctx s of Inl _ \<Rightarrow> False | Inr w \<Rightarrow> matches w r)"


text \<open>A unit, a lease on it and a document of that lease, for the witnesses.\<close>

definition sample_property :: property where
  "sample_property = \<lparr> pr_id = 41, pr_workspaceId = 5, pr_clientPrincipalId = Some 21,
     pr_ownerContactId = Some 32, pr_community = ''Marina'', pr_building = None, pr_unitNo = None, pr_emirate = ''Dubai'',
     pr_propertyType = None, pr_bedrooms = None, pr_sizeSqft = None, 
     pr_usage = None, pr_plotNo = None, pr_makaniNo = None, pr_dewaPremiseNo = None, pr_sizeSqm = None,
     pr_assignedAgentId = None, pr_notes = None, pr_archivedAt = None \<rparr>"

definition sample_tenancy :: tenancy where
  "sample_tenancy = \<lparr> tn_id = 51, tn_workspaceId = 5, tn_propertyId = 41,
     tn_landlordContactId = Some 33, tn_tenantContactId = Some 31, tn_ejariNo = None,
     tn_startDate = 1767225600000, tn_endDate = 1798675200000, tn_annualRent = 90000,
     tn_depositAmount = None, tn_paymentTermsNote = None, tn_noticePeriodDays = 90,
     tn_noticeGateAt = None, tn_status = T_ACTIVE, tn_source = RS_MANUAL, tn_contractDocId = None,
     tn_createdAt = 0, tn_archivedAt = None, tn_renewsFromTenancyId = None \<rparr>"

definition sample_document :: "document" where
  "sample_document = \<lparr> dc_id = 61, dc_workspaceId = 5, dc_scopeType = S_TENANCY, dc_scopeId = Some 51,
     dc_kind = DOC_TENANCY_CONTRACT, dc_fileName = ''c.pdf'', dc_mime = ''application/pdf'',
     dc_sizeBytes = 3, dc_storageKey = ''k'', dc_sha256 = [], dc_uploadedById = None,
     dc_secureLinkId = None, dc_createdAt = 0, dc_archivedAt = None \<rparr>"

definition sample_world :: world where
  "sample_world = (sample_users empty_world)\<lparr> w_properties := [sample_property],
     w_tenancies := [sample_tenancy], w_documents := [sample_document] \<rparr>"

lemmas sample_defs = sample_world_def sample_document_def sample_tenancy_def sample_property_def
  sample_users_def sample_membership_def empty_world_def


text \<open>
  the list door of deadlines is wider than the by-id door. A landlord of record of one lease
  (contact 33, on lease 51) is kept out of the owner's other lease 52 on the same unit, and is
  still shown its deadlines: the OR-clause on the unit matches every deadline that carries its
  property id.
\<close>

theorem deadline_list_leaks_sibling_lease:
  "\<exists>s d. let ctx = (sample_ctx LANDLORD)\<lparr>cx_subjectContactId := Some 33\<rparr>;
       lease = sample_tenancy\<lparr>tn_id := 52, tn_landlordContactId := Some 32, tn_tenantContactId := None\<rparr> in
     wf_ctx ctx \<and> lease \<in> set (w_tenancies s) \<and> d \<in> set (w_deadlines s) \<and>
     dl_tenancyId d = Some (tn_id lease) \<and>
     assertReadable ctx (RT_tenancy (Some (lease, Some 21))) s = Inl (AuthzError ''Not found'' 404) \<and>
     persona_lists ctx TB_DEADLINE s (view_deadline d)"
proof -
  define lease where "lease = sample_tenancy\<lparr>tn_id := 52, tn_landlordContactId := Some 32,
    tn_tenantContactId := None\<rparr>"
  define d where "d = \<lparr> dl_id = 71, dl_workspaceId = 5, dl_tenancyId = Some 52,
    dl_propertyId = Some 41, dl_kind = DK_NOTICE_GATE, dl_dueAt = 0, dl_status = DL_OPEN,
    dl_computedFrom = JNull, dl_createdAt = 0 \<rparr>"
  define s where "s = sample_world\<lparr>w_tenancies := [sample_tenancy, lease], w_deadlines := [d]\<rparr>"
  define ctx where "ctx = (sample_ctx LANDLORD)\<lparr>cx_subjectContactId := Some 33\<rparr>"
  have "wf_ctx ctx" by (simp add: ctx_def sample_ctx_def wf_ctx_def isPersonaRole_def isDelegateRole_def)
  moreover have "41 \<in> set (ks_propertyIds (resolveContactScopeIds 5 33 LANDLORD s))"
    unfolding contact_properties
    using persona_covers.record_property [of LANDLORD sample_tenancy s 5 33]
    by (simp add: s_def sample_defs)
  then have "persona_lists ctx TB_DEADLINE s (view_deadline d)"
    by (simp add: persona_lists_def contactScopedWhere_def Let_def persona_contact_def ctx_def sample_ctx_def isPersonaRole_def
      d_def matches_def view_deadline_def some_in_def)
  moreover have "52 \<notin> set (ks_tenancyIds (resolveContactScopeIds 5 33 LANDLORD s))"
    unfolding contact_tenancies by (auto simp: covers_tenancy s_def lease_def sample_defs)
  then have "assertReadable ctx (RT_tenancy (Some (lease, Some 21))) s = Inl notFound"
    by (simp add: assertReadable_def persona_contact_def ctx_def sample_ctx_def isPersonaRole_def
      lease_def sample_tenancy_def)
  moreover have "lease \<in> set (w_tenancies s)" "d \<in> set (w_deadlines s)" "dl_tenancyId d = Some (tn_id lease)"
    by (simp_all add: s_def lease_def d_def)
  ultimately show ?thesis
    unfolding Let_def ctx_def [symmetric] lease_def [symmetric] by blast
qed

subsection \<open>What a managing agent reaches\<close>

inductive delegate_covers :: "world \<Rightarrow> uid \<Rightarrow> uid list \<Rightarrow> scopeType \<Rightarrow> uid \<Rightarrow> bool"
  for s :: world and ws :: uid and book :: "uid list" where
  book_property: "p \<in> set book \<Longrightarrow> delegate_covers s ws book S_PROPERTY p"
| book_tenancy: "t \<in> set (w_tenancies s) \<Longrightarrow> tn_workspaceId t = ws \<Longrightarrow> tn_propertyId t \<in> set book \<Longrightarrow>
    delegate_covers s ws book S_TENANCY (tn_id t)"
| book_payment: "delegate_covers s ws book S_TENANCY (pi_tenancyId i) \<Longrightarrow> i \<in> set (w_payments s) \<Longrightarrow>
    pi_workspaceId i = ws \<Longrightarrow> delegate_covers s ws book S_PAYMENT_ITEM (pi_id i)"
| book_proof: "delegate_covers s ws book ty x \<Longrightarrow> ty \<in> {S_PROPERTY, S_TENANCY, S_PAYMENT_ITEM} \<Longrightarrow>
    q \<in> set (w_proofs s) \<Longrightarrow> pf_workspaceId q = ws \<Longrightarrow> pf_scopeId q = Some x \<Longrightarrow>
    delegate_covers s ws book S_PROOF_REQUEST (pf_id q)"

inductive_simps book_covers_tenancy: "delegate_covers s ws book S_TENANCY i"
inductive_simps book_covers_property: "delegate_covers s ws book S_PROPERTY i"
inductive_simps book_covers_payment: "delegate_covers s ws book S_PAYMENT_ITEM i"
inductive_simps book_covers_proof: "delegate_covers s ws book S_PROOF_REQUEST i"
inductive_cases book_covers_otherE: "delegate_covers s ws book ty i"

text \<open>No row has the all-zero id, nor refers to it: it is not a version 4 uuid anyone generates.\<close>

definition real_ids :: "world \<Rightarrow> bool" where
  "real_ids s \<longleftrightarrow>
     (\<forall>t \<in> set (w_tenancies s). tn_id t \<noteq> NEVER_MATCH_ID \<and> tn_propertyId t \<noteq> NEVER_MATCH_ID) \<and>
     (\<forall>i \<in> set (w_payments s). pi_id i \<noteq> NEVER_MATCH_ID \<and> pi_tenancyId i \<noteq> NEVER_MATCH_ID) \<and>
     (\<forall>q \<in> set (w_proofs s). pf_id q \<noteq> NEVER_MATCH_ID \<and> pf_scopeId q \<noteq> Some NEVER_MATCH_ID)"

definition real_row :: "row_view \<Rightarrow> bool" where
  "real_row r \<longleftrightarrow> rv_id r \<noteq> NEVER_MATCH_ID \<and> rv_propertyId r \<noteq> Some NEVER_MATCH_ID \<and>
     rv_tenancyId r \<noteq> Some NEVER_MATCH_ID \<and> rv_scopeId r \<noteq> Some NEVER_MATCH_ID"

lemma some_in_inIds: "x \<noteq> Some NEVER_MATCH_ID \<Longrightarrow> some_in x (inIds xs) \<longleftrightarrow> some_in x xs"
  by (auto simp: some_in_def in_inIds split: option.splits)

lemma delegate_tenancies:
  assumes real: "real_ids s"
  shows "i \<in> set (cs_tenancyIds (delegate_scope_ids ws book s)) \<longleftrightarrow> delegate_covers s ws book S_TENANCY i"
  using real by (auto simp: delegate_scope_ids_def Let_def book_covers_tenancy
    tenancies_of_properties_def real_ids_def in_inIds)

lemma delegate_properties:
  "i \<in> set (cs_propertyIds (delegate_scope_ids ws book s)) \<longleftrightarrow> delegate_covers s ws book S_PROPERTY i"
  by (auto simp: delegate_scope_ids_def Let_def book_covers_property)

lemma delegate_payments:
  assumes real: "real_ids s"
  shows "i \<in> set (cs_paymentItemIds (delegate_scope_ids ws book s)) \<longleftrightarrow>
     delegate_covers s ws book S_PAYMENT_ITEM i"
proof -
  have "cs_paymentItemIds (delegate_scope_ids ws book s) =
      payments_of_tenancies ws (inIds (cs_tenancyIds (delegate_scope_ids ws book s))) s"
    by (simp add: delegate_scope_ids_def Let_def)
  then show ?thesis
    using real by (auto simp: book_covers_payment payments_of_tenancies_def
      delegate_tenancies [OF real] real_ids_def in_inIds)
qed

lemma delegate_proofs:
  assumes real: "real_ids s"
  shows "i \<in> set (cs_proofRequestIds (delegate_scope_ids ws book s)) \<longleftrightarrow>
     delegate_covers s ws book S_PROOF_REQUEST i"
proof -
  let ?ids = "delegate_scope_ids ws book s"
  let ?own = "cs_propertyIds ?ids @ cs_tenancyIds ?ids @ cs_paymentItemIds ?ids"
  have "cs_proofRequestIds ?ids = proofs_of_scopes ws (inIds ?own) s"
    by (simp add: delegate_scope_ids_def Let_def)
  moreover have "x \<in> set (inIds ?own) \<longleftrightarrow>
      (\<exists>ty \<in> {S_PROPERTY, S_TENANCY, S_PAYMENT_ITEM}. delegate_covers s ws book ty x)"
    if "q \<in> set (w_proofs s)" "pf_scopeId q = Some x" for q x
  proof -
    have "x \<noteq> NEVER_MATCH_ID" using real that by (auto simp: real_ids_def)
    then show ?thesis
      by (simp add: in_inIds delegate_tenancies [OF real] delegate_properties
        delegate_payments [OF real])
  qed
  ultimately show ?thesis
    unfolding book_covers_proof by (simp only: in_proofs_of_scopes) blast
qed

lemma scopeBelongsToDelegate_iff:
  assumes real: "real_ids s"
  shows "scopeBelongsToClient (delegate_scope_ids ws book s) ty sid \<longleftrightarrow>
     (\<exists>i. sid = Some i \<and> delegate_covers s ws book ty i)"
proof -
  have "cs_clientPrincipalIds (delegate_scope_ids ws book s) = []"
    by (simp add: delegate_scope_ids_def Let_def)
  then show ?thesis
    by (cases ty; cases sid) (auto simp: scopeBelongsToClient_def delegate_tenancies [OF real]
      delegate_properties delegate_payments [OF real] delegate_proofs [OF real] elim: book_covers_otherE)
qed

definition delegate_lists :: "authz_ctx \<Rightarrow> scope_table \<Rightarrow> world \<Rightarrow> row_view \<Rightarrow> bool" where
  "delegate_lists ctx table s r =
     (case clientSetScopedWhere ctx table s of Inl _ \<Rightarrow> False | Inr w \<Rightarrow> matches w r)"

abbreviation in_book :: "world \<Rightarrow> authz_ctx \<Rightarrow> scopeType \<Rightarrow> uid \<Rightarrow> bool" where
  "in_book s ctx \<equiv> delegate_covers s (cx_workspaceId ctx) (cx_delegatePropertyIds ctx)"

lemma delegate_ctx:
  assumes "wf_ctx ctx" "isDelegateRole (cx_role ctx)"
  shows "cx_clientPrincipalId ctx = None" "persona_contact ctx = None"
    "resolveDelegateScopeIds ctx s =
       Inr (delegate_scope_ids (cx_workspaceId ctx) (cx_delegatePropertyIds ctx) s)"
  using assms by (auto simp: wf_ctx_def isDelegateRole_def persona_contact_def isPersonaRole_def
    resolveDelegateScopeIds_def assertDelegate_def)

text \<open>
  C3: for a managing agent both read doors are exactly what hangs off the assigned properties
  (\<open>delegate_covers\<close>), client-scoped rows never; and the write door agrees with the read door: a
  tenancy of the database can be written (its property passes \<open>assertPropertyInDelegateScope\<close>) if
  and only if it can be read.
\<close>

theorem delegate_doors_exact:
  assumes "wf_ctx ctx" and "isDelegateRole (cx_role ctx)" and "real_ids s"
    and "dc_scopeId d \<noteq> Some NEVER_MATCH_ID" and "distinct (map tn_id (w_tenancies s))"
    and "t \<in> set (w_tenancies s)" and "pf_id q \<noteq> NEVER_MATCH_ID"
  shows "(delegate_lists ctx TB_DOCUMENT s (view_document d) \<longleftrightarrow> dc_workspaceId d = cx_workspaceId ctx \<and>
       (\<exists>i. dc_scopeId d = Some i \<and> in_book s ctx (dc_scopeType d) i)) \<and>
    (assertReadable ctx (RT_document (Some d)) s = Inr () \<longleftrightarrow>
       delegate_lists ctx TB_DOCUMENT s (view_document d)) \<and>
    (delegate_lists ctx TB_TENANCY s (view_tenancy t) \<longleftrightarrow>
       tn_workspaceId t = cx_workspaceId ctx \<and> tn_propertyId t \<in> set (cx_delegatePropertyIds ctx)) \<and>
    (assertReadable ctx (RT_tenancy (Some (t, cp))) s = Inr () \<longleftrightarrow>
       delegate_lists ctx TB_TENANCY s (view_tenancy t)) \<and>
    (assertPropertyInDelegateScope ctx (Some (tn_workspaceId t)) (Some (tn_propertyId t)) = Inr () \<longleftrightarrow>
       assertReadable ctx (RT_tenancy (Some (t, cp))) s = Inr ()) \<and>
    (delegate_lists ctx TB_PROOF_REQUEST s (view_proof q) \<longleftrightarrow>
       pf_workspaceId q = cx_workspaceId ctx \<and> in_book s ctx S_PROOF_REQUEST (pf_id q)) \<and>
    (assertReadable ctx (RT_proofRequest (Some q)) s = Inr () \<longleftrightarrow>
       delegate_lists ctx TB_PROOF_REQUEST s (view_proof q)) \<and>
    assertReadable ctx (RT_listing l) s \<noteq> Inr ()"
proof -
  note c = delegate_ctx [OF assms(1,2)]
  let ?ids = "delegate_scope_ids (cx_workspaceId ctx) (cx_delegatePropertyIds ctx) s"
  have docs: "clause_matches (W_scope (scopeMatchClauses ?ids)) (view_document d) \<longleftrightarrow>
      (\<exists>i. dc_scopeId d = Some i \<and> in_book s ctx (dc_scopeType d) i)"
    unfolding client_docs.listed_iff [OF assms(4)] by (rule scopeBelongsToDelegate_iff [OF assms(3)])
  have same: "t' = t" if "t' \<in> set (w_tenancies s)" "tn_id t' = tn_id t" for t'
    using assms(5,6) that by (simp add: distinct_map inj_on_def)
  have ten: "in_book s ctx S_TENANCY (tn_id t) \<longleftrightarrow>
      tn_workspaceId t = cx_workspaceId ctx \<and> tn_propertyId t \<in> set (cx_delegatePropertyIds ctx)"
    using assms(6) same unfolding book_covers_tenancy by metis
  have "tn_id t \<noteq> NEVER_MATCH_ID" using assms(3,6) by (auto simp: real_ids_def)
  then show ?thesis
    using c docs ten assms(2,7)
    by (auto simp: delegate_lists_def clientSetScopedWhere_def matches_def in_inIds
      assertReadable_def scopeBelongsToDelegate_iff [OF assms(3)] delegate_tenancies [OF assms(3)]
      delegate_proofs [OF assms(3)] assertPropertyInDelegateScope_def assertDelegatePropertyId_def
      some_in_def simp del: clause_matches.simps(5))
qed

lemma real_ids_sample: "real_ids sample_world"
  by (simp add: real_ids_def sample_defs NEVER_MATCH_ID_def)

theorem delegate_doors_exact_witness:
  "assertReadable (sample_ctx MANAGING_AGENT) (RT_tenancy (Some (sample_tenancy, None))) sample_world = Inr ()"
proof -
  have d: "dc_scopeId sample_document \<noteq> Some NEVER_MATCH_ID"
    by (simp add: sample_document_def NEVER_MATCH_ID_def)
  have r: "isDelegateRole (cx_role (sample_ctx MANAGING_AGENT))"
    by (simp add: sample_ctx_def isDelegateRole_def)
  have t: "distinct (map tn_id (w_tenancies sample_world))" "sample_tenancy \<in> set (w_tenancies sample_world)"
    by (simp_all add: sample_world_def)
  define q where "q = \<lparr> pf_id = 81, pf_workspaceId = 5, pf_scopeType = S_TENANCY, pf_scopeId = Some 51,
    pf_title = [], pf_requiredEvidence = [], pf_assignedContactId = 31, pf_dueAt = None,
    pf_status = PF_OPEN, pf_decisionById = None, pf_decisionAt = None, pf_decisionNote = None,
    pf_createdById = 1, pf_createdAt = 0 \<rparr>"
  have q: "pf_id q \<noteq> NEVER_MATCH_ID" by (simp add: q_def NEVER_MATCH_ID_def)
  have "tn_workspaceId sample_tenancy = cx_workspaceId (sample_ctx MANAGING_AGENT)"
    "tn_propertyId sample_tenancy \<in> set (cx_delegatePropertyIds (sample_ctx MANAGING_AGENT))"
    by (simp_all add: sample_tenancy_def sample_ctx_def isDelegateRole_def)
  then show ?thesis
    using delegate_doors_exact [OF wf_sample_ctx r real_ids_sample d t q] by blast
qed

text \<open>
  an empty agent book sees nothing: for every table the list filter of a managing agent without
  assignments matches no row, because an empty id list becomes the never-matching sentinel
  instead of being dropped.
\<close>

theorem empty_book_lists_nothing:
  assumes "wf_ctx ctx" and "isDelegateRole (cx_role ctx)" and "cx_delegatePropertyIds ctx = []"
    and "real_ids s" and "real_row r"
  shows "\<not> delegate_lists ctx table s r"
proof -
  have ids: "delegate_scope_ids (cx_workspaceId ctx) [] s =
      \<lparr> cs_clientPrincipalId = None, cs_clientPrincipalIds = [], cs_propertyIds = [],
        cs_tenancyIds = [], cs_paymentItemIds = [], cs_proofRequestIds = [] \<rparr>"
    using assms(4) by (auto simp: delegate_scope_ids_def Let_def tenancies_of_properties_def
      payments_of_tenancies_def proofs_of_scopes_def some_in_def inIds_def real_ids_def
      filter_empty_conv split: option.splits)
  show ?thesis
    using assms(3,5) delegate_ctx [OF assms(1,2)]
    by (cases table) (auto simp: delegate_lists_def clientSetScopedWhere_def matches_def ids
      scopeMatchClauses_def real_row_def some_in_def inIds_def split: option.splits)
qed

theorem empty_book_lists_nothing_witness:
  "\<not> delegate_lists ((sample_ctx MANAGING_AGENT)\<lparr>cx_delegatePropertyIds := []\<rparr>) TB_DOCUMENT
     sample_world (view_document sample_document)"
proof -
  define ctx where "ctx = (sample_ctx MANAGING_AGENT)\<lparr>cx_delegatePropertyIds := []\<rparr>"
  have "wf_ctx ctx" "isDelegateRole (cx_role ctx)" "cx_delegatePropertyIds ctx = []"
    by (simp_all add: ctx_def sample_ctx_def wf_ctx_def isPersonaRole_def isDelegateRole_def)
  moreover have "real_row (view_document sample_document)"
    by (simp add: real_row_def view_document_def sample_document_def NEVER_MATCH_ID_def)
  ultimately show ?thesis
    unfolding ctx_def [symmetric] by (intro empty_book_lists_nothing real_ids_sample)
qed

end
