(* ===== verification/Notify.thy ===== *)
theory Notify
  imports Scopes
begin

text \<open>
  \<open>src/server/notify\<close>: \<open>index.ts\<close> (\<open>notify\<close>), \<open>record.ts\<close>, \<open>recipients.ts\<close>, \<open>preferences.ts\<close> and
  \<open>categories.ts\<close>. The delivery of a queued message is with the outbox.
\<close>

subsection \<open>Templates\<close>

definition TEMPLATE_CATEGORY :: "(string \<times> notificationCategory) list" where
  "TEMPLATE_CATEGORY =
     [(''notice_gate_v1'', NC_DEADLINES), (''cheque_v1'', NC_DEADLINES),
      (''listing_permit_v1'', NC_DEADLINES), (''payment_late_v1'', NC_PAYMENTS),
      (''payment_bounced_v1'', NC_PAYMENTS), (''risk_flag_v1'', NC_RISK),
      (''enquiry_v1'', NC_ENQUIRIES), (''daily_digest_v1'', NC_DIGEST),
      (''weekly_digest_v1'', NC_DIGEST)]"

definition categoryForTemplate :: "string \<Rightarrow> notificationCategory option" where
  "categoryForTemplate templateCode = map_of TEMPLATE_CATEGORY templateCode"

definition SENSITIVE_TEMPLATE_PLACEHOLDER :: "(string \<times> string) list" where
  "SENSITIVE_TEMPLATE_PLACEHOLDER =
     [(''auth_reset_v1'', ''A password-reset link was sent to your email. It expires in 1 hour.''),
      (''proof_request_v1'', ''An evidence-upload request was sent to your email.''),
      (''renewal_offer_v1'', ''A renewal proposal was sent to your email.'')]"

definition isSensitiveTemplate :: "string option \<Rightarrow> bool" where
  "isSensitiveTemplate templateCode =
     (case templateCode of None \<Rightarrow> False
      | Some t \<Rightarrow> map_of SENSITIVE_TEMPLATE_PLACEHOLDER t \<noteq> None)"

definition redactedBodyFor :: "string \<Rightarrow> string" where
  "redactedBodyFor templateCode =
     (case map_of SENSITIVE_TEMPLATE_PLACEHOLDER templateCode of
        None \<Rightarrow> ''[content delivered to your registered address]'' | Some p \<Rightarrow> p)"

subsection \<open>One message\<close>

record notify_input =
  ni_workspaceId :: uid
  ni_channel :: channel
  ni_templateCode :: string
  ni_subject :: "string option"
  ni_body :: string
  ni_toUserId :: "uid option"
  ni_toContactId :: "uid option"
  ni_toAddress :: "string option"
  ni_preferChannel :: "channel option"
  ni_relatedType :: "scopeType option"
  ni_relatedId :: "uid option"
  ni_category :: "notificationCategory option"
  ni_urgent :: bool

fun channel_name :: "channel \<Rightarrow> string" where
  "channel_name CH_EMAIL = ''EMAIL''"
| "channel_name CH_WHATSAPP = ''WHATSAPP''"
| "channel_name CH_SMS = ''SMS''"
| "channel_name CH_INAPP = ''INAPP''"

definition message_row :: "uid \<Rightarrow> time \<Rightarrow> notify_input \<Rightarrow> notification_message" where
  "message_row i now inp =
     \<lparr> nm_id = i, nm_workspaceId = ni_workspaceId inp, nm_channel = ni_channel inp,
       nm_direction = DIR_OUTBOUND, nm_toUserId = ni_toUserId inp,
       nm_toContactId = ni_toContactId inp, nm_templateCode = Some (ni_templateCode inp),
       nm_subject = ni_subject inp,
       nm_bodyRef = Some (if isSensitiveTemplate (Some (ni_templateCode inp))
                          then redactedBodyFor (ni_templateCode inp) else ni_body inp),
       nm_providerRef = None,
       nm_status = (if ni_channel inp = CH_INAPP then MS_DELIVERED else MS_QUEUED),
       nm_relatedType = ni_relatedType inp, nm_relatedId = ni_relatedId inp,
       nm_category = ni_category inp, nm_urgent = ni_urgent inp, nm_readAt = None,
       nm_digestedAt = None, nm_emailMessageId = None, nm_createdAt = now \<rparr>"

definition send_payload :: "uid \<Rightarrow> notify_input \<Rightarrow> json" where
  "send_payload i inp =
     JObj ([(''messageId'', JId i), (''toAddress'', jopt JStr (ni_toAddress inp)),
            (''preferChannel'', jopt (JStr \<circ> channel_name) (ni_preferChannel inp))] @
           (if isSensitiveTemplate (Some (ni_templateCode inp)) then [(''body'', JStr (ni_body inp))]
            else []))"

definition send_key :: "uid \<Rightarrow> string" where
  "send_key i = ''notification.send:'' @ show_nat i"

definition notify :: "notify_input \<Rightarrow> uid svc" where
  "notify inp =
     (let isInApp = (ni_channel inp = CH_INAPP);
          sensitive = isSensitiveTemplate (Some (ni_templateCode inp)) in
      thenE (assertE (\<not> (sensitive \<and> isInApp))
        (ThrownError (''Sensitive template '' @ ni_templateCode inp @ '' cannot be delivered in-app'')))
      (bindE getNow (\<lambda>now. bindE newId (\<lambda>i.
       thenE (writeE (\<lambda>s. s\<lparr>w_messages := w_messages s @ [message_row i now inp]\<rparr>))
       (thenE (whenE (\<not> isInApp)
          (bindE (enqueue ''notification.send'' (send_payload i inp) None (Some (send_key i)))
             (\<lambda>_. ret ())))
         (ret i))))))"

subsection \<open>Recipients, preferences, fan-in\<close>

definition OVERSEER_ROLES :: "role list" where
  "OVERSEER_ROLES = [WORKSPACE_ADMIN, FIDUCIARY, MANAGER]"

definition workspaceOverseers :: "uid \<Rightarrow> world \<Rightarrow> uid list" where
  "workspaceOverseers workspaceId s =
     unique (map mb_userId (filter (\<lambda>m. mb_workspaceId m = workspaceId \<and> mb_revokedAt m = None \<and>
       mb_role m \<in> set OVERSEER_ROLES) (w_memberships s)))"

definition defaultCadence :: "notificationCategory \<Rightarrow> cadence" where
  "defaultCadence category = (if category = NC_DIGEST then CD_WEEKLY else CD_DAILY)"

text \<open>The resolver of \<open>loadPreferenceMap\<close>: the stored row, else the default.\<close>

definition loadPreferenceMap ::
    "uid \<Rightarrow> uid list \<Rightarrow> world \<Rightarrow> uid \<Rightarrow> notificationCategory \<Rightarrow> cadence" where
  "loadPreferenceMap workspaceId userIds s userId category =
     (case List.find (\<lambda>p. np_workspaceId p = workspaceId \<and> np_userId p \<in> set userIds \<and>
             np_userId p = userId \<and> np_category p = category) (rev (w_preferences s)) of
        None \<Rightarrow> defaultCadence category
      | Some p \<Rightarrow> np_cadence p)"

record record_input =
  ri_ws :: uid
  ri_template :: string
  ri_subj :: string
  ri_body :: string
  ri_recipients :: "uid list"
  ri_urgent :: bool
  ri_relType :: "scopeType option"
  ri_relId :: "uid option"

definition recipient_message :: "record_input \<Rightarrow> notificationCategory \<Rightarrow> channel \<Rightarrow> uid \<Rightarrow> notify_input" where
  "recipient_message inp category ch userId =
     \<lparr> ni_workspaceId = ri_ws inp, ni_channel = ch, ni_templateCode = ri_template inp,
       ni_subject = Some (ri_subj inp), ni_body = ri_body inp, ni_toUserId = Some userId,
       ni_toContactId = None, ni_toAddress = None, ni_preferChannel = None,
       ni_relatedType = ri_relType inp, ni_relatedId = ri_relId inp, ni_category = Some category,
       ni_urgent = ri_urgent inp \<rparr>"

definition send_now :: "record_input \<Rightarrow> cadence \<Rightarrow> bool" where
  "send_now inp c \<longleftrightarrow> ri_urgent inp \<or> c = CD_IMMEDIATE"

definition recordNotification :: "record_input \<Rightarrow> unit svc" where
  "recordNotification inp =
     (let recipients = unique (ri_recipients inp) in
      if recipients = [] then ret ()
      else
        bindE (someE (ThrownError (''No notification category for template '' @ ri_template inp))
                 (categoryForTemplate (ri_template inp))) (\<lambda>category.
        bindE (readE (loadPreferenceMap (ri_ws inp) recipients)) (\<lambda>prefs.
        forE recipients (\<lambda>userId.
          bindE (notify (recipient_message inp category CH_INAPP userId)) (\<lambda>feed.
          whenE (send_now inp (prefs userId category))
            (bindE (notify (recipient_message inp category CH_EMAIL userId)) (\<lambda>email.
               writeE (\<lambda>s. s\<lparr>w_messages := upd_where (\<lambda>m. nm_id m = feed)
                 (\<lambda>m. m\<lparr>nm_emailMessageId := Some email\<rparr>) (w_messages s)\<rparr>))))))))"

lemma keeps_notify [log_keeps]: "keeps extends (notify inp)"
  unfolding notify_def Let_def
  by (intro logs.keeps_intros log_keeps keeps_quiet_write) simp_all

lemma keeps_recordNotification [log_keeps]: "keeps extends (recordNotification inp)"
  unfolding recordNotification_def Let_def
  by (intro logs.keeps_intros log_keeps keeps_quiet_write) simp_all

subsection \<open>What a notification leaves\<close>

lemma enqueue_ok [op_ok]:
  "enqueue topic payload av key s = (Inr i, t) \<longleftrightarrow>
     (key = None \<or> (\<forall>r \<in> set (w_outbox s). ob_topic r = topic \<longrightarrow> ob_idempotencyKey r \<noteq> key)) \<and>
     i = w_next s \<and>
     t = s\<lparr>w_next := Suc i, w_outbox := w_outbox s @
       [\<lparr> ob_id = i, ob_topic = topic, ob_payload = payload, ob_status = OB_pending,
          ob_attempts = 0, ob_availableAt = (case av of None \<Rightarrow> w_now s | Some x \<Rightarrow> x),
          ob_lockedUntil = None, ob_idempotencyKey = key \<rparr>]\<rparr>"
  by (auto simp: enqueue_def op_ok)

lemma notify_ok:
  assumes "notify inp s = (Inr i, t)"
  shows "i = w_next s" and "w_messages t = w_messages s @ [message_row i (w_now s) inp]"
    and "w_preferences t = w_preferences s"
  using assms by (auto simp: notify_def Let_def op_ok split: if_splits)

lemma notify_messages:
  "w_messages (snd (notify inp s)) =
     (if isSensitiveTemplate (Some (ni_templateCode inp)) \<and> ni_channel inp = CH_INAPP then w_messages s
      else w_messages s @ [message_row (w_next s) (w_now s) inp])"
  by (auto simp: notify_def Let_def op_defs newId_def getNow_def enqueue_def)

text \<open>
  C20: a secret never reaches the message table. For a template that carries a live link the stored
  messages after \<open>notify\<close> are the same whatever the body is, the send is refused on the in-app
  channel before anything is written, and the body travels on the outbox payload only.
\<close>

theorem sensitive_body_not_stored:
  assumes "isSensitiveTemplate (Some (ni_templateCode inp))"
  shows "w_messages (snd (notify (inp\<lparr>ni_body := secret\<rparr>) s)) = w_messages (snd (notify inp s)) \<and>
    (ni_channel inp = CH_INAPP \<longrightarrow> snd (notify inp s) = s) \<and>
    (\<forall>i t. notify inp s = (Inr i, t) \<longrightarrow> (\<exists>r. w_outbox t = w_outbox s @ [r] \<and>
       jget (ob_payload r) ''body'' = Some (JStr (ni_body inp)) \<and>
       ob_idempotencyKey r = Some (send_key i)))"
proof -
  have "message_row i now (inp\<lparr>ni_body := secret\<rparr>) = message_row i now inp" for i now
    using assms by (simp add: message_row_def)
  moreover have "snd (notify inp s) = s" if "ni_channel inp = CH_INAPP"
    using assms that by (simp add: notify_def op_defs)
  moreover have "\<exists>r. w_outbox t = w_outbox s @ [r] \<and>
       jget (ob_payload r) ''body'' = Some (JStr (ni_body inp)) \<and>
       ob_idempotencyKey r = Some (send_key i)" if "notify inp s = (Inr i, t)" for i t
    using assms that by (auto simp: notify_def Let_def op_ok send_payload_def split: if_splits)
  ultimately show ?thesis by (auto simp: notify_messages)
qed

definition sample_notify :: notify_input where
  "sample_notify = \<lparr> ni_workspaceId = 5, ni_channel = CH_EMAIL, ni_templateCode = ''proof_request_v1'',
     ni_subject = None, ni_body = ''https://x/link/abc'', ni_toUserId = None, ni_toContactId = Some 31,
     ni_toAddress = None, ni_preferChannel = None, ni_relatedType = None, ni_relatedId = None,
     ni_category = None, ni_urgent = False \<rparr>"

theorem sensitive_body_not_stored_witness:
  "w_messages (snd (notify (sample_notify\<lparr>ni_body := ''other''\<rparr>) empty_world)) =
   w_messages (snd (notify sample_notify empty_world))"
  by (rule conjunct1 [OF sensitive_body_not_stored])
    (simp add: sample_notify_def isSensitiveTemplate_def SENSITIVE_TEMPLATE_PLACEHOLDER_def)

text \<open>The messages of one channel to one user.\<close>

definition messages_to :: "channel \<Rightarrow> uid \<Rightarrow> world \<Rightarrow> nat" where
  "messages_to ch u s = count_where (\<lambda>m. nm_channel m = ch \<and> nm_toUserId m = Some u) (w_messages s)"

definition notify_one :: "record_input \<Rightarrow> notificationCategory \<Rightarrow> (uid \<Rightarrow> notificationCategory \<Rightarrow> cadence) \<Rightarrow>
    uid \<Rightarrow> unit svc" where
  "notify_one inp category prefs userId =
     bindE (notify (recipient_message inp category CH_INAPP userId)) (\<lambda>feed.
     whenE (send_now inp (prefs userId category))
       (bindE (notify (recipient_message inp category CH_EMAIL userId)) (\<lambda>email.
          writeE (\<lambda>s. s\<lparr>w_messages := upd_where (\<lambda>m. nm_id m = feed)
            (\<lambda>m. m\<lparr>nm_emailMessageId := Some email\<rparr>) (w_messages s)\<rparr>))))"

lemma notify_one_counts:
  assumes "notify_one inp category prefs userId s = (Inr (), t)"
  shows "messages_to CH_INAPP u t = messages_to CH_INAPP u s + (if u = userId then 1 else 0) \<and>
    messages_to CH_EMAIL u t = messages_to CH_EMAIL u s +
      (if u = userId \<and> send_now inp (prefs userId category) then 1 else 0)"
proof -
  have keep: "count_where (\<lambda>m. nm_channel m = ch \<and> nm_toUserId m = Some u)
      (upd_where p (\<lambda>m. m\<lparr>nm_emailMessageId := e\<rparr>) rows) =
      count_where (\<lambda>m. nm_channel m = ch \<and> nm_toUserId m = Some u) rows" for ch p e rows
    by (induction rows) auto
  obtain feed s1 where f: "notify (recipient_message inp category CH_INAPP userId) s = (Inr feed, s1)"
    and rest: "whenE (send_now inp (prefs userId category))
       (bindE (notify (recipient_message inp category CH_EMAIL userId)) (\<lambda>email.
          writeE (\<lambda>s. s\<lparr>w_messages := upd_where (\<lambda>m. nm_id m = feed)
            (\<lambda>m. m\<lparr>nm_emailMessageId := Some email\<rparr>) (w_messages s)\<rparr>))) s1 = (Inr (), t)"
    using assms by (auto simp: notify_one_def bindE_ok)
  have m1: "w_messages s1 = w_messages s @
      [message_row feed (w_now s) (recipient_message inp category CH_INAPP userId)]"
    by (rule notify_ok(2) [OF f])
  show ?thesis
  proof (cases "send_now inp (prefs userId category)")
    case True
    then obtain email s2 where e: "notify (recipient_message inp category CH_EMAIL userId) s1 = (Inr email, s2)"
      and t: "t = s2\<lparr>w_messages := upd_where (\<lambda>m. nm_id m = feed)
            (\<lambda>m. m\<lparr>nm_emailMessageId := Some email\<rparr>) (w_messages s2)\<rparr>"
      using rest by (auto simp: op_ok)
    have m2: "w_messages s2 = w_messages s1 @
        [message_row email (w_now s1) (recipient_message inp category CH_EMAIL userId)]"
      by (rule notify_ok(2) [OF e])
    show ?thesis
      unfolding messages_to_def t by (simp add: m1 m2 keep True message_row_def recipient_message_def)
  next
    case False
    then have "t = s1" using rest by (simp add: op_ok)
    with False show ?thesis
      unfolding messages_to_def by (simp add: m1 message_row_def recipient_message_def)
  qed
qed

lemma notify_loop_counts:
  assumes "forE us (notify_one inp category prefs) s = (Inr (), t)" and "distinct us"
  shows "messages_to CH_INAPP u t = messages_to CH_INAPP u s + (if u \<in> set us then 1 else 0) \<and>
    messages_to CH_EMAIL u t = messages_to CH_EMAIL u s +
      (if u \<in> set us \<and> send_now inp (prefs u category) then 1 else 0)"
  using assms
proof (induction us arbitrary: s)
  case Nil
  then show ?case by (simp add: op_ok)
next
  case (Cons x us)
  then obtain s1 where h: "notify_one inp category prefs x s = (Inr (), s1)"
    and r: "forE us (notify_one inp category prefs) s1 = (Inr (), t)"
    by (auto simp: bindE_ok)
  show ?case
    using Cons.IH [OF r] Cons.prems(2) notify_one_counts [OF h, of u] by (auto split: if_splits)
qed

lemma distinct_unique [simp]: "distinct (unique xs)"
  by (simp add: unique_def)

text \<open>
  the fan-in gives every distinct recipient exactly one feed item, and exactly one e-mail when
  the notification is urgent or the recipient's cadence for its category (the stored preference,
  else the default) is immediate; nobody else gets anything.
\<close>

theorem recordNotification_counts:
  assumes "recordNotification inp s = (Inr (), t)"
  shows "messages_to CH_INAPP u t = messages_to CH_INAPP u s + (if u \<in> set (ri_recipients inp) then 1 else 0) \<and>
    messages_to CH_EMAIL u t = messages_to CH_EMAIL u s +
      (if u \<in> set (ri_recipients inp) \<and> (\<exists>c. categoryForTemplate (ri_template inp) = Some c \<and>
          send_now inp (loadPreferenceMap (ri_ws inp) (unique (ri_recipients inp)) s u c))
       then 1 else 0)"
proof (cases "unique (ri_recipients inp) = []")
  case True
  then have "ri_recipients inp = []" by (simp add: unique_def)
  with assms True show ?thesis by (simp add: recordNotification_def op_ok)
next
  case False
  obtain c where c: "categoryForTemplate (ri_template inp) = Some c"
    and loop: "forE (unique (ri_recipients inp)) (notify_one inp c
        (loadPreferenceMap (ri_ws inp) (unique (ri_recipients inp)) s)) s = (Inr (), t)"
    using assms False unfolding recordNotification_def Let_def notify_one_def [abs_def]
    by (auto simp: op_ok)
  show ?thesis using notify_loop_counts [OF loop] c by simp
qed

definition sample_record :: record_input where
  "sample_record = \<lparr> ri_ws = 5, ri_template = ''payment_late_v1'', ri_subj = ''s'', ri_body = ''b'',
     ri_recipients = [1, 1], ri_urgent = False, ri_relType = None, ri_relId = None \<rparr>"

theorem recordNotification_counts_witness:
  "messages_to CH_INAPP 1 (snd (recordNotification sample_record empty_world)) = 1"
proof -
  have e: "recordNotification sample_record empty_world =
      (Inr (), snd (recordNotification sample_record empty_world))"
    by (simp add: recordNotification_def sample_record_def unique_def categoryForTemplate_def
      TEMPLATE_CATEGORY_def op_defs notify_def newId_def getNow_def recipient_message_def
      isSensitiveTemplate_def SENSITIVE_TEMPLATE_PLACEHOLDER_def send_now_def loadPreferenceMap_def
      empty_world_def defaultCadence_def)
  have "messages_to CH_INAPP 1 empty_world = 0"
    by (simp add: messages_to_def empty_world_def)
  then show ?thesis using recordNotification_counts [OF e, of 1] by (simp add: sample_record_def)
qed

end
