(* ===== verification/Secure_Links.thy ===== *)
theory Secure_Links
  imports Notify
begin

text \<open>
  \<open>services/secureLinks.ts\<close>: minting, checking, consuming and revoking public links. The token of
  a link comes from the runtime's random source and is an argument of the operation that mints;
  \<open>hashToken\<close> of \<open>crypto.ts\<close> is the parameter \<open>hash\<close>.
\<close>

definition DEFAULT_TTL_DAYS :: int where "DEFAULT_TTL_DAYS = 14"

definition PROOF_LINK_DEFAULT_MAX_USES :: int where "PROOF_LINK_DEFAULT_MAX_USES = 20"

definition actor_of :: "authz_ctx \<Rightarrow> actorType" where
  "actor_of ctx = (if cx_isStaff ctx then A_STAFF else A_USER)"

definition audit_by :: "authz_ctx \<Rightarrow> string \<Rightarrow> string \<Rightarrow> uid option \<Rightarrow> audit_input" where
  "audit_by ctx verb oty oid =
     (auditOf (Some (cx_workspaceId ctx)) (actor_of ctx) (Some (cx_userId ctx)) verb oty oid)
       \<lparr>ai_onBehalfOfId := cx_onBehalfOfId ctx\<rparr>"

record link_args =
  la_purpose :: linkPurpose
  la_scopeType :: scopeType
  la_scopeId :: uid
  la_contactId :: "uid option"
  la_expiresInDays :: "int option"
  la_maxUses :: "int option"
  la_requiredCapability :: "capability option"

definition createSecureLink ::
    "(string \<Rightarrow> string) \<Rightarrow> string \<Rightarrow> string \<Rightarrow> authz_ctx \<Rightarrow> link_args \<Rightarrow> (uid \<times> string) svc" where
  "createSecureLink hash base token ctx args =
     thenE (requireCap ctx (case la_requiredCapability args of None \<Rightarrow> ''proofs.write'' | Some c \<Rightarrow> c))
     (bindE getNow (\<lambda>now. bindE newId (\<lambda>i.
      thenE (bindE (readE w_links) (\<lambda>rows.
        assertE (\<forall>r \<in> set rows. sl_tokenHash r \<noteq> hash token) (UniqueViolation ''SecureLink_tokenHash'')))
      (thenE (writeE (\<lambda>s. s\<lparr>w_links := w_links s @
        [\<lparr> sl_id = i, sl_workspaceId = cx_workspaceId ctx, sl_purpose = la_purpose args,
           sl_scopeType = la_scopeType args, sl_scopeId = la_scopeId args,
           sl_contactId = la_contactId args, sl_tokenHash = hash token,
           sl_expiresAt = now + (case la_expiresInDays args of None \<Rightarrow> DEFAULT_TTL_DAYS | Some d \<Rightarrow> d)
             * 86400000,
           sl_maxUses = la_maxUses args, sl_useCount = 0, sl_revokedAt = None,
           sl_createdById = cx_userId ctx, sl_createdAt = now \<rparr>]\<rparr>))
      (thenE (bindE (recordAudit (audit_by ctx ''securelink.create'' ''SecureLink'' (Some i))) (\<lambda>_. ret ()))
        (ret (i, base @ ''/link/'' @ token)))))))"

datatype link_refusal = not_found | expired | revoked | exhausted

definition findByToken :: "(string \<Rightarrow> string) \<Rightarrow> string \<Rightarrow> world \<Rightarrow> secure_link option" where
  "findByToken hash token s = List.find (\<lambda>l. sl_tokenHash l = hash token) (w_links s)"

definition validateLinkToken ::
    "(string \<Rightarrow> string) \<Rightarrow> string \<Rightarrow> world \<Rightarrow> link_refusal + secure_link" where
  "validateLinkToken hash token s =
     (case findByToken hash token s of
        None \<Rightarrow> Inl not_found
      | Some link \<Rightarrow>
          if sl_revokedAt link \<noteq> None then Inl revoked
          else if sl_expiresAt link < w_now s then Inl expired
          else if (case sl_maxUses link of None \<Rightarrow> False | Some m \<Rightarrow> m \<le> sl_useCount link)
          then Inl exhausted
          else Inr link)"

text \<open>The guard of the UPDATE, evaluated on the row it updates.\<close>

definition consumable :: "uid \<Rightarrow> time \<Rightarrow> secure_link \<Rightarrow> bool" where
  "consumable linkId now l \<longleftrightarrow> sl_id l = linkId \<and> sl_revokedAt l = None \<and> now < sl_expiresAt l \<and>
     (case sl_maxUses l of None \<Rightarrow> True | Some m \<Rightarrow> sl_useCount l < m)"

definition consumeLinkUse :: "uid \<Rightarrow> bool svc" where
  "consumeLinkUse linkId =
     bindE getNow (\<lambda>now.
     bindE (readE (\<lambda>s. count_where (consumable linkId now) (w_links s))) (\<lambda>affected.
     thenE (writeE (\<lambda>s. s\<lparr>w_links := upd_where (consumable linkId now)
              (\<lambda>l. l\<lparr>sl_useCount := sl_useCount l + 1\<rparr>) (w_links s)\<rparr>))
       (ret (affected = 1))))"

definition revokeSecureLink :: "authz_ctx \<Rightarrow> uid \<Rightarrow> unit svc" where
  "revokeSecureLink ctx linkId =
     thenE (requireCap ctx ''proofs.write'')
     (bindE (readE (\<lambda>s. List.find (\<lambda>l. sl_id l = linkId) (w_links s))) (\<lambda>link.
      thenE (liftE (assertSameWorkspace ctx (map_option sl_workspaceId link)))
      (bindE getNow (\<lambda>now.
       thenE (writeE (\<lambda>s. s\<lparr>w_links := upd_where (\<lambda>l. sl_id l = linkId)
               (\<lambda>l. l\<lparr>sl_revokedAt := Some now\<rparr>) (w_links s)\<rparr>))
        (bindE (recordAudit (audit_by ctx ''securelink.revoke'' ''SecureLink'' (Some linkId)))
          (\<lambda>_. ret ()))))))"

definition listSecureLinks :: "authz_ctx \<Rightarrow> scopeType \<Rightarrow> uid \<Rightarrow> secure_link list svc" where
  "listSecureLinks ctx ty i =
     thenE (requireCap ctx ''proofs.read'')
     (bindE (liftE (scope ctx)) (\<lambda>ws.
      readE (\<lambda>s. filter (\<lambda>l. sl_workspaceId l = ws \<and> sl_scopeType l = ty \<and> sl_scopeId l = i)
        (rev (w_links s)))))"

lemma keeps_createSecureLink [log_keeps]: "keeps extends (createSecureLink h b tk ctx args)"
  unfolding createSecureLink_def by (intro logs.keeps_intros log_keeps keeps_quiet_write) simp_all

lemma keeps_consumeLinkUse [log_keeps]: "keeps extends (consumeLinkUse i)"
  unfolding consumeLinkUse_def by (intro logs.keeps_intros log_keeps keeps_quiet_write) simp_all

lemma keeps_revokeSecureLink [log_keeps]: "keeps extends (revokeSecureLink ctx i)"
  unfolding revokeSecureLink_def by (intro logs.keeps_intros log_keeps keeps_quiet_write) simp_all

definition minted_link :: "(string \<Rightarrow> string) \<Rightarrow> string \<Rightarrow> authz_ctx \<Rightarrow> link_args \<Rightarrow> world \<Rightarrow> secure_link" where
  "minted_link hash token ctx la s =
     \<lparr> sl_id = w_next s, sl_workspaceId = cx_workspaceId ctx, sl_purpose = la_purpose la,
       sl_scopeType = la_scopeType la, sl_scopeId = la_scopeId la, sl_contactId = la_contactId la,
       sl_tokenHash = hash token,
       sl_expiresAt = w_now s + (case la_expiresInDays la of None \<Rightarrow> DEFAULT_TTL_DAYS | Some d \<Rightarrow> d) * 86400000,
       sl_maxUses = la_maxUses la, sl_useCount = 0, sl_revokedAt = None,
       sl_createdById = cx_userId ctx, sl_createdAt = w_now s \<rparr>"

lemma createSecureLink_ok:
  "createSecureLink hash base token ctx la s = (Inr r, t) \<longleftrightarrow>
     hasCapability ctx (case la_requiredCapability la of None \<Rightarrow> ''proofs.write'' | Some c \<Rightarrow> c) \<and>
     (\<forall>x \<in> set (w_links s). sl_tokenHash x \<noteq> hash token) \<and> r = (w_next s, base @ ''/link/'' @ token) \<and>
     t = s\<lparr>w_next := Suc (Suc (w_next s)), w_links := w_links s @ [minted_link hash token ctx la s],
       w_audit := w_audit s @ [audit_row (Suc (w_next s)) (w_now s)
         (audit_by ctx ''securelink.create'' ''SecureLink'' (Some (w_next s)))]\<rparr>"
proof -
  have "audit_verb_ok (ai_verb (audit_by ctx ''securelink.create'' ''SecureLink'' (Some i)))" for i
    by (simp add: audit_by_def auditOf_def audit_verb_ok_def verb_char_def)
  then show ?thesis
    unfolding createSecureLink_def minted_link_def
    by (simp only: bindE_ok readE_ok writeE_ok assertE_ok ret_ok requireCap_def newId_ok getNow_ok recordAudit_ok simp_thms) auto
qed

subsection \<open>The use counter\<close>

lemma consumeLinkUse_eq:
  "consumeLinkUse i s =
     (Inr (count_where (consumable i (w_now s)) (w_links s) = 1),
      s\<lparr>w_links := upd_where (consumable i (w_now s)) (\<lambda>l. l\<lparr>sl_useCount := sl_useCount l + 1\<rparr>)
        (w_links s)\<rparr>)"
  by (simp add: consumeLinkUse_def op_defs getNow_def)

text \<open>The link just minted, the last row: it opens, and a use of it is counted on it alone.\<close>

lemma fresh_link_opens:
  assumes "w_links t = xs @ [l]" and "\<And>x. x \<in> set xs \<Longrightarrow> sl_id x \<noteq> sl_id l \<and> sl_tokenHash x \<noteq> hash token"
    and "sl_tokenHash l = hash token" "sl_revokedAt l = None" "sl_useCount l = 0" "sl_maxUses l = Some m" "0 < m"
    and "w_now t < sl_expiresAt l"
  shows "validateLinkToken hash token t = Inr l"
    and "consumeLinkUse (sl_id l) t = (Inr True, t\<lparr>w_links := xs @ [l\<lparr>sl_useCount := 1\<rparr>]\<rparr>)"
proof -
  have "findByToken hash token t = Some l"
    unfolding findByToken_def assms(1) using assms(2,3) by (intro find_append_new) auto
  then show "validateLinkToken hash token t = Inr l"
    using assms(4-8) by (simp add: validateLinkToken_def)
  have "consumable (sl_id l) (w_now t) l" using assms(4-8) by (simp add: consumable_def)
  moreover have none: "\<forall>x \<in> set xs. \<not> consumable (sl_id l) (w_now t) x" using assms(2) by (auto simp: consumable_def)
  ultimately have "count_where (consumable (sl_id l) (w_now t)) (w_links t) = 1"
    "upd_where (consumable (sl_id l) (w_now t)) (\<lambda>l. l\<lparr>sl_useCount := sl_useCount l + 1\<rparr>) (w_links t) =
       xs @ [l\<lparr>sl_useCount := 1\<rparr>]"
    using count_where_0_iff [of "consumable (sl_id l) (w_now t)" xs] assms(5) by (simp_all add: assms(1) upd_where_id)
  then show "consumeLinkUse (sl_id l) t = (Inr True, t\<lparr>w_links := xs @ [l\<lparr>sl_useCount := 1\<rparr>]\<rparr>)"
    by (simp add: consumeLinkUse_eq)
qed

text \<open>What may happen to the links of a database, at increasing or any other times.\<close>

datatype link_event =
    Consume uid
  | Revoke authz_ctx uid
  | Mint string authz_ctx link_args

text \<open>
  One event at a time \<open>now\<close>; the result is whether a use of link \<open>i\<close> was granted. Requests on the
  same row are serialised by the row lock of the UPDATE, so any interleaving is such a list.
\<close>

fun link_event_step :: "(string \<Rightarrow> string) \<Rightarrow> uid \<Rightarrow> time \<times> link_event \<Rightarrow> world \<Rightarrow> bool \<times> world" where
  "link_event_step hash i (now, Consume j) s =
     (case consumeLinkUse j (s\<lparr>w_now := now\<rparr>) of (r, t) \<Rightarrow> (j = i \<and> r = Inr True, t))"
| "link_event_step hash i (now, Revoke ctx j) s = (False, snd (revokeSecureLink ctx j (s\<lparr>w_now := now\<rparr>)))"
| "link_event_step hash i (now, Mint token ctx args) s =
     (False, snd (createSecureLink hash [] token ctx args (s\<lparr>w_now := now\<rparr>)))"

fun granted_uses :: "(string \<Rightarrow> string) \<Rightarrow> uid \<Rightarrow> (time \<times> link_event) list \<Rightarrow> world \<Rightarrow> nat" where
  "granted_uses hash i [] s = 0"
| "granted_uses hash i (e # es) s =
     (case link_event_step hash i e s of (b, t) \<Rightarrow> (if b then 1 else 0) + granted_uses hash i es t)"

definition link_ids_ok :: "world \<Rightarrow> bool" where
  "link_ids_ok s \<longleftrightarrow> distinct (map sl_id (w_links s)) \<and> (\<forall>l \<in> set (w_links s). sl_id l < w_next s)"

text \<open>The uses a link with cap \<open>m\<close> has left; none once it is revoked.\<close>

definition uses_left :: "int \<Rightarrow> secure_link \<Rightarrow> nat" where
  "uses_left m l = (if sl_revokedAt l = None then nat (m - sl_useCount l) else 0)"

lemma revoke_links:
  "w_links (snd (revokeSecureLink ctx j s)) = w_links s \<or>
   w_links (snd (revokeSecureLink ctx j s)) =
     upd_where (\<lambda>l. sl_id l = j) (\<lambda>l. l\<lparr>sl_revokedAt := Some (w_now s)\<rparr>) (w_links s)"
  by (auto simp: revokeSecureLink_def op_defs requireCap_def getNow_def recordAudit_def newId_def
    split: sum.splits)

lemma mint_links:
  "w_links (snd (createSecureLink h b tk ctx args s)) = w_links s \<or>
   (\<exists>l. w_links (snd (createSecureLink h b tk ctx args s)) = w_links s @ [l] \<and> sl_id l = w_next s \<and>
      w_next s < w_next (snd (createSecureLink h b tk ctx args s)))"
  by (auto simp: createSecureLink_def op_defs requireCap_def getNow_def recordAudit_def newId_def)

lemma next_grows: "keeps extends m \<Longrightarrow> w_next s \<le> w_next (snd (m s))"
  by (auto simp: keeps_def extends_def)

lemma link_ids_upd:
  assumes "link_ids_ok s" and "w_links t = upd_where p f (w_links s)" and "\<And>l. sl_id (f l) = sl_id l"
    and "w_next s \<le> w_next t"
  shows "link_ids_ok t"
  using assms by (fastforce simp: link_ids_ok_def map_upd_where set_upd_where)

lemma link_step_left:
  assumes ok: "link_ids_ok s" and l: "l \<in> set (w_links s)" "sl_id l = i" "sl_maxUses l = Some m"
    and step: "link_event_step hash i (now, e) s = (b, t)"
  shows "link_ids_ok t \<and> (\<exists>l' \<in> set (w_links t). sl_id l' = i \<and> sl_maxUses l' = Some m \<and>
    (if b then 1 else 0) + uses_left m l' \<le> uses_left m l)"
proof (cases e)
  case (Consume j)
  define s' where "s' = s\<lparr>w_now := now\<rparr>"
  have t: "t = s'\<lparr>w_links := upd_where (consumable j now) (\<lambda>l. l\<lparr>sl_useCount := sl_useCount l + 1\<rparr>) (w_links s)\<rparr>"
    and b: "b \<longleftrightarrow> j = i \<and> count_where (consumable j now) (w_links s) = 1"
    using step by (auto simp: Consume consumeLinkUse_eq s'_def)
  let ?l = "if consumable j now l then l\<lparr>sl_useCount := sl_useCount l + 1\<rparr> else l"
  have "consumable j now l" if b
  proof -
    have "count_where (consumable j now) (w_links s) = 1" using that unfolding b by (rule conjunct2)
    then have "0 < count_where (consumable j now) (w_links s)" by simp
    then obtain r where r: "r \<in> set (w_links s)" "consumable j now r"
      unfolding count_where_pos_iff by blast
    moreover have "j = i" using that unfolding b by (rule conjunct1)
    ultimately have "sl_id r = i" by (simp add: consumable_def)
    then have "r = l" using ok l r by (auto simp: link_ids_ok_def distinct_map inj_on_def)
    with r show ?thesis by simp
  qed
  then have "(if b then 1 else 0) + uses_left m ?l \<le> uses_left m l"
    using l(3) by (auto simp: uses_left_def consumable_def)
  moreover have "?l \<in> set (w_links t)" using l(1) by (auto simp: t set_upd_where)
  moreover have "sl_id ?l = i" "sl_maxUses ?l = Some m" using l by auto
  moreover have "link_ids_ok t"
    by (rule link_ids_upd [OF ok, of t "consumable j now" "\<lambda>l. l\<lparr>sl_useCount := sl_useCount l + 1\<rparr>"])
      (simp_all add: t s'_def)
  ultimately show ?thesis by blast
next
  case (Revoke ctx j)
  define s' where "s' = s\<lparr>w_now := now\<rparr>"
  have t: "t = snd (revokeSecureLink ctx j s')" and b: "\<not> b"
    using step by (auto simp: Revoke s'_def)
  have nx: "w_next s \<le> w_next t"
    using next_grows [OF keeps_revokeSecureLink, of s' ctx j] by (simp add: t s'_def)
  consider "w_links t = w_links s" | "w_links t = upd_where (\<lambda>l. sl_id l = j) (\<lambda>l. l\<lparr>sl_revokedAt := Some now\<rparr>) (w_links s)"
    using revoke_links [of ctx j s'] by (auto simp: t s'_def)
  then show ?thesis
  proof cases
    case 1
    then show ?thesis using ok l b nx by (auto simp: link_ids_ok_def)
  next
    case 2
    let ?l = "if sl_id l = j then l\<lparr>sl_revokedAt := Some now\<rparr> else l"
    have "?l \<in> set (w_links t)" using l(1) by (auto simp: 2 set_upd_where)
    moreover have "sl_id ?l = i" "sl_maxUses ?l = Some m" "uses_left m ?l \<le> uses_left m l"
      using l by (auto simp: uses_left_def)
    moreover have "link_ids_ok t" by (rule link_ids_upd [OF ok 2 _ nx]) simp
    ultimately show ?thesis using b by auto
  qed
next
  case (Mint token ctx args)
  define s' where "s' = s\<lparr>w_now := now\<rparr>"
  have t: "t = snd (createSecureLink hash [] token ctx args s')" and b: "\<not> b"
    using step by (auto simp: Mint s'_def)
  have nx: "w_next s \<le> w_next t"
    using next_grows [OF keeps_createSecureLink, of s' hash "[]" token ctx args] by (simp add: t s'_def)
  have "w_links t = w_links s \<or> (\<exists>r. w_links t = w_links s @ [r] \<and> sl_id r = w_next s \<and> w_next s < w_next t)"
    using mint_links [of hash "[]" token ctx args s'] by (auto simp: t s'_def)
  then have "link_ids_ok t" and "l \<in> set (w_links t)"
    using ok l nx by (fastforce simp: link_ids_ok_def)+
  then show ?thesis using l b by auto
qed

lemma granted_uses_bound:
  assumes "link_ids_ok s" "l \<in> set (w_links s)" "sl_id l = i" "sl_maxUses l = Some m"
  shows "granted_uses hash i es s \<le> uses_left m l"
  using assms
proof (induction es arbitrary: s l)
  case (Cons e es)
  obtain now ev where e: "e = (now, ev)" by (cases e)
  obtain b t where step: "link_event_step hash i (now, ev) s = (b, t)" by fastforce
  obtain l' where "link_ids_ok t" and l': "l' \<in> set (w_links t)" "sl_id l' = i" "sl_maxUses l' = Some m"
    and le: "(if b then 1 else 0) + uses_left m l' \<le> uses_left m l"
    using link_step_left [OF Cons.prems step] by blast
  then have "granted_uses hash i es t \<le> uses_left m l'" using Cons.IH by blast
  then show ?case using le by (simp add: e step)
qed simp

text \<open>
  C19: a capped link is never used more often than its cap allows, in whatever order uses,
  revocations and new links are served and whatever the clock says: the number of granted uses
  from any database on is at most the uses the link has left, and none after it was revoked.
\<close>

theorem link_uses_bounded:
  assumes "link_ids_ok s" and "l \<in> set (w_links s)" and "sl_id l = i" and "sl_maxUses l = Some m"
  shows "granted_uses hash i es s \<le> nat (m - sl_useCount l) \<and>
    (sl_revokedAt l \<noteq> None \<longrightarrow> granted_uses hash i es s = 0)"
  using granted_uses_bound [OF assms, of hash es] by (auto simp: uses_left_def split: if_splits)

definition sample_link :: secure_link where
  "sample_link = \<lparr> sl_id = 91, sl_workspaceId = 5, sl_purpose = LP_PROOF_UPLOAD,
     sl_scopeType = S_PROOF_REQUEST, sl_scopeId = 81, sl_contactId = Some 31, sl_tokenHash = ''h'',
     sl_expiresAt = 1000, sl_maxUses = Some 1, sl_useCount = 0, sl_revokedAt = None, sl_createdById = 1, sl_createdAt = 0 \<rparr>"

theorem link_uses_bounded_witness:
  "granted_uses id 91 [(10, Consume 91), (10, Consume 91)] (empty_world\<lparr>w_links := [sample_link]\<rparr>) \<le> 1"
proof -
  have "link_ids_ok (empty_world\<lparr>w_links := [sample_link]\<rparr>)"
    by (simp add: link_ids_ok_def sample_link_def empty_world_def)
  moreover have "sample_link \<in> set (w_links (empty_world\<lparr>w_links := [sample_link]\<rparr>))"
    "sl_id sample_link = 91" "sl_maxUses sample_link = Some 1" "nat (1 - sl_useCount sample_link) = 1"
    by (simp_all add: sample_link_def)
  ultimately show ?thesis
    using link_uses_bounded [of "empty_world\<lparr>w_links := [sample_link]\<rparr>" sample_link 91 1] by metis
qed

text \<open>
  the friendly check and the authoritative gate agree. When a token validates, consuming its
  link succeeds, except in the millisecond in which the link expires, where the check still
  says yes and the gate says no; when it does not validate, no use is granted.
\<close>

theorem validate_agrees_with_consume:
  assumes "link_ids_ok s" and "distinct (map sl_tokenHash (w_links s))"
  shows "case validateLinkToken hash token s of
      Inr link \<Rightarrow> fst (consumeLinkUse (sl_id link) s) = Inr (sl_expiresAt link \<noteq> w_now s)
    | Inl _ \<Rightarrow> \<forall>link. findByToken hash token s = Some link \<longrightarrow>
        fst (consumeLinkUse (sl_id link) s) = Inr False"
proof (cases "findByToken hash token s")
  case None
  then show ?thesis by (simp add: validateLinkToken_def)
next
  case (Some link)
  then have l: "link \<in> set (w_links s)" by (auto simp: findByToken_def dest: find_Some_in)
  have "count_where (consumable (sl_id link) (w_now s)) (w_links s) =
      (if consumable (sl_id link) (w_now s) link then 1 else 0)"
  proof -
    have "count_where (consumable (sl_id link) (w_now s)) (w_links s) =
        (if consumable (sl_id link) (w_now s) link then count_where (\<lambda>r. sl_id r = sl_id link) (w_links s) else 0)"
      using l assms(1) by (auto simp: count_where_0_iff consumable_def link_ids_ok_def distinct_map inj_on_def
        intro!: count_where_cong)
    moreover have "count_where (\<lambda>r. sl_id r = sl_id link) (w_links s) = 1"
      using count_where_distinct_key [of sl_id "w_links s" "\<lambda>r. sl_id r = sl_id link" "sl_id link"]
        count_where_pos_iff [of "\<lambda>r. sl_id r = sl_id link" "w_links s"] l assms(1)
      by (auto simp: link_ids_ok_def)
    ultimately show ?thesis by simp
  qed
  then show ?thesis
    using Some by (auto simp: validateLinkToken_def consumeLinkUse_eq consumable_def split: option.splits)
qed

theorem validate_agrees_with_consume_witness:
  "fst (consumeLinkUse 91 (empty_world\<lparr>w_links := [sample_link]\<rparr>)) = Inr True"
  using validate_agrees_with_consume [of "empty_world\<lparr>w_links := [sample_link]\<rparr>" id "''h''"]
  by (simp add: link_ids_ok_def sample_link_def empty_world_def validateLinkToken_def findByToken_def)

end
