(* ===== verification/Risk.thy ===== *)
theory Risk
  imports Secure_Links
begin

text \<open>
  \<open>services/risk.ts\<close>: the deterministic risk rules. A flag is active while it is open or
  acknowledged; the database has a unique index on workspace, scope and code over the active flags.
\<close>

definition RULE_VERSION :: string where "RULE_VERSION = ''1a.1''"

fun riskFlagReason :: "riskCode \<Rightarrow> string" where
  "riskFlagReason RK_MISSING_EJARI = ''Confirm and record the tenancy's Ejari reference.''"
| "riskFlagReason RK_MISSING_END_DATE = ''Confirm the contractual end date before relying on renewal deadlines.''"
| "riskFlagReason RK_CHEQUE_TOTAL_MISMATCH = ''Review the payment schedule against the recorded annual rent.''"
| "riskFlagReason RK_NOTICE_GATE_WITHIN_30D = ''Review the renewal case and notice evidence before the recorded gate.''"
| "riskFlagReason RK_PROOF_OVERDUE = ''Review the proof request and follow up with the assigned contact.''"
| "riskFlagReason RK_AGENT_UNRESPONSIVE = ''Review the delegated request and confirm the appropriate follow-up.''"
| "riskFlagReason RK_PAYMENT_LATE = ''Review the payment register and record the latest supported status.''"
| "riskFlagReason RK_INVOICE_WITHOUT_QUOTE = ''Review the maintenance record and confirm the supporting quote.''"
| "riskFlagReason RK_MAINTENANCE_DONE_WITHOUT_TENANT_CONFIRMATION = ''Review the maintenance evidence and tenant confirmation.''"
| "riskFlagReason RK_DOCUMENT_EXPIRED = ''Review the expired document and record an updated version where available.''"
| "riskFlagReason RK_APPROVAL_PENDING_TOO_LONG = ''Review the pending approval and confirm the responsible decision-maker.''"
| "riskFlagReason RK_TENANCY_OVERLAP = ''Review the overlapping tenancy dates before relying on portfolio records.''"
| "riskFlagReason RK_PROPOSED_INCREASE_ABOVE_INDEX_BAND = ''Review the proposal against its frozen index citation and ceiling estimate.''"
| "riskFlagReason RK_RENEWAL_NOTICE_WINDOW_MISSED = ''Review the recorded notice position; do not infer that an increase is available.''"

fun code_name :: "riskCode \<Rightarrow> string" where
  "code_name RK_MISSING_EJARI = ''MISSING_EJARI''"
| "code_name RK_MISSING_END_DATE = ''MISSING_END_DATE''"
| "code_name RK_CHEQUE_TOTAL_MISMATCH = ''CHEQUE_TOTAL_MISMATCH''"
| "code_name RK_NOTICE_GATE_WITHIN_30D = ''NOTICE_GATE_WITHIN_30D''"
| "code_name RK_PROOF_OVERDUE = ''PROOF_OVERDUE''"
| "code_name RK_AGENT_UNRESPONSIVE = ''AGENT_UNRESPONSIVE''"
| "code_name RK_PAYMENT_LATE = ''PAYMENT_LATE''"
| "code_name RK_INVOICE_WITHOUT_QUOTE = ''INVOICE_WITHOUT_QUOTE''"
| "code_name RK_MAINTENANCE_DONE_WITHOUT_TENANT_CONFIRMATION =
     ''MAINTENANCE_DONE_WITHOUT_TENANT_CONFIRMATION''"
| "code_name RK_DOCUMENT_EXPIRED = ''DOCUMENT_EXPIRED''"
| "code_name RK_APPROVAL_PENDING_TOO_LONG = ''APPROVAL_PENDING_TOO_LONG''"
| "code_name RK_TENANCY_OVERLAP = ''TENANCY_OVERLAP''"
| "code_name RK_PROPOSED_INCREASE_ABOVE_INDEX_BAND = ''PROPOSED_INCREASE_ABOVE_INDEX_BAND''"
| "code_name RK_RENEWAL_NOTICE_WINDOW_MISSED = ''RENEWAL_NOTICE_WINDOW_MISSED''"

fun severity_name :: "severity \<Rightarrow> string" where
  "severity_name SEV_INFO = ''INFO''"
| "severity_name SEV_WARN = ''WARN''"
| "severity_name SEV_CRITICAL = ''CRITICAL''"

subsection \<open>Raising and clearing\<close>

record flag_scope =
  fs_workspaceId :: uid
  fs_scopeType :: scopeType
  fs_scopeId :: uid
  fs_tenancyId :: "uid option"
  fs_propertyId :: "uid option"

definition is_active :: "risk_flag \<Rightarrow> bool" where
  "is_active f \<longleftrightarrow> rf_status f = F_OPEN \<or> rf_status f = F_ACKNOWLEDGED"

definition active_for :: "flag_scope \<Rightarrow> riskCode \<Rightarrow> risk_flag \<Rightarrow> bool" where
  "active_for sc code f \<longleftrightarrow> rf_workspaceId f = fs_workspaceId sc \<and> rf_scopeType f = fs_scopeType sc \<and>
     rf_scopeId f = fs_scopeId sc \<and> rf_code f = code \<and> is_active f"

definition flag_evidence :: "flag_scope \<Rightarrow> evidenceType \<Rightarrow> json \<Rightarrow> evidence_input" where
  "flag_evidence sc ty payload =
     (evidenceOf (fs_workspaceId sc) ty A_SYSTEM None (fs_scopeType sc) (Some (fs_scopeId sc)))
       \<lparr>ei_tenancyId := fs_tenancyId sc, ei_propertyId := fs_propertyId sc, ei_payload := Some payload\<rparr>"

definition raiseFlag :: "flag_scope \<Rightarrow> riskCode \<Rightarrow> severity \<Rightarrow> unit svc" where
  "raiseFlag sc code sev =
     bindE (readE (\<lambda>s. List.find (active_for sc code) (w_flags s))) (\<lambda>existing.
     if existing \<noteq> None then ret ()
     else
       bindE getNow (\<lambda>now. bindE newId (\<lambda>i.
       thenE (writeE (\<lambda>s. s\<lparr>w_flags := w_flags s @
         [\<lparr> rf_id = i, rf_workspaceId = fs_workspaceId sc, rf_scopeType = fs_scopeType sc,
            rf_scopeId = fs_scopeId sc, rf_code = code, rf_severity = sev, rf_raisedBy = RB_RULE,
            rf_ruleVersion = Some RULE_VERSION, rf_status = F_OPEN, rf_raisedAt = now,
            rf_clearedAt = None, rf_clearedById = None \<rparr>]\<rparr>))
       (bindE (recordEvidence (flag_evidence sc EV_RISK_FLAG_RAISED
          (JObj [(''code'', JStr (code_name code)), (''severity'', JStr (severity_name sev)),
                 (''ruleVersion'', JStr RULE_VERSION)]))) (\<lambda>_. ret ())))))"

definition clearFlag :: "flag_scope \<Rightarrow> riskCode \<Rightarrow> uid option \<Rightarrow> unit svc" where
  "clearFlag sc code clearedById =
     bindE (readE (\<lambda>s. List.find (active_for sc code) (w_flags s))) (\<lambda>existing.
     case existing of
       None \<Rightarrow> ret ()
     | Some f \<Rightarrow>
         bindE getNow (\<lambda>now.
         thenE (writeE (\<lambda>s. s\<lparr>w_flags := upd_where (\<lambda>r. rf_id r = rf_id f)
           (\<lambda>r. r\<lparr>rf_status := F_CLEARED, rf_clearedAt := Some now, rf_clearedById := clearedById\<rparr>)
           (w_flags s)\<rparr>))
         (bindE (recordEvidence (flag_evidence sc EV_RISK_FLAG_CLEARED
            (JObj [(''code'', JStr (code_name code)), (''ruleVersion'', JStr RULE_VERSION)])))
            (\<lambda>_. ret ()))))"

text \<open>Raise when the condition holds, clear when it does not.\<close>

definition setFlag :: "flag_scope \<Rightarrow> riskCode \<Rightarrow> severity \<Rightarrow> bool \<Rightarrow> unit svc" where
  "setFlag sc code sev b = (if b then raiseFlag sc code sev else clearFlag sc code None)"

subsection \<open>The rules\<close>

definition payments_of :: "uid \<Rightarrow> world \<Rightarrow> payment_item list" where
  "payments_of tenancyId s = filter (\<lambda>i. pi_tenancyId i = tenancyId) (w_payments s)"

definition schedule_total :: "payment_item list \<Rightarrow> rat" where
  "schedule_total items = foldl (\<lambda>acc i. js_add acc (pi_amount i)) 0 items"

definition total_mismatch :: "payment_item list \<Rightarrow> rat \<Rightarrow> bool" where
  "total_mismatch items annualRent \<longleftrightarrow> fl (9 / 1000) < \<bar>js_sub (schedule_total items) annualRent\<bar>"

definition tenancy_scope :: "tenancy \<Rightarrow> flag_scope" where
  "tenancy_scope t = \<lparr> fs_workspaceId = tn_workspaceId t, fs_scopeType = S_TENANCY,
     fs_scopeId = tn_id t, fs_tenancyId = Some (tn_id t), fs_propertyId = Some (tn_propertyId t) \<rparr>"

definition gate_close :: "time \<Rightarrow> deadline option \<Rightarrow> bool" where
  "gate_close now gate =
     (case gate of None \<Rightarrow> False
      | Some g \<Rightarrow> let days = daysBetween (todayInDubai now) (dl_dueAt g) in 0 \<le> days \<and> days \<le> 30)"

definition no_ejari :: "tenancy \<Rightarrow> bool" where
  "no_ejari t \<longleftrightarrow> (case tn_ejariNo t of None \<Rightarrow> True | Some e \<Rightarrow> e = [])"

definition open_gate :: "uid \<Rightarrow> world \<Rightarrow> deadline option" where
  "open_gate tenancyId s = List.find (\<lambda>d. dl_tenancyId d = Some tenancyId \<and>
     dl_kind d = DK_NOTICE_GATE \<and> dl_status d = DL_OPEN) (w_deadlines s)"

definition evaluateRiskForTenancy :: "uid \<Rightarrow> unit svc" where
  "evaluateRiskForTenancy tenancyId =
     bindE (readE (\<lambda>s. List.find (\<lambda>t. tn_id t = tenancyId) (w_tenancies s))) (\<lambda>found.
     bindE (readE (payments_of tenancyId)) (\<lambda>paymentItems.
     case found of
       None \<Rightarrow> ret ()
     | Some t \<Rightarrow>
         if tn_archivedAt t \<noteq> None then ret ()
         else
           let base = tenancy_scope t; items = filter (\<lambda>i. pi_status i \<noteq> P_CANCELLED) paymentItems in
           thenE (setFlag base RK_MISSING_EJARI SEV_WARN (no_ejari t))
           (thenE (setFlag base RK_MISSING_END_DATE SEV_CRITICAL (tn_endDate t = 0))
           (thenE (whenE (items \<noteq> [])
             (setFlag base RK_CHEQUE_TOTAL_MISMATCH SEV_WARN (total_mismatch items (tn_annualRent t))))
           (bindE (readE (open_gate (tn_id t))) (\<lambda>gate.
            bindE getNow (\<lambda>now.
            setFlag base RK_NOTICE_GATE_WITHIN_30D SEV_CRITICAL (gate_close now gate))))))))"

definition item_scope :: "payment_item \<Rightarrow> uid option \<Rightarrow> flag_scope" where
  "item_scope i propertyId = \<lparr> fs_workspaceId = pi_workspaceId i, fs_scopeType = S_PAYMENT_ITEM,
     fs_scopeId = pi_id i, fs_tenancyId = Some (pi_tenancyId i), fs_propertyId = propertyId \<rparr>"

text \<open>The property of a payment item, through its tenancy.\<close>

definition item_property :: "payment_item \<Rightarrow> world \<Rightarrow> uid option" where
  "item_property i s =
     map_option tn_propertyId (List.find (\<lambda>t. tn_id t = pi_tenancyId i) (w_tenancies s))"

definition on_item :: "uid \<Rightarrow> (flag_scope \<Rightarrow> unit svc) \<Rightarrow> unit svc" where
  "on_item paymentItemId act =
     bindE (readE (\<lambda>s. List.find (\<lambda>i. pi_id i = paymentItemId) (w_payments s))) (\<lambda>found.
     case found of None \<Rightarrow> ret ()
     | Some i \<Rightarrow> bindE (readE (item_property i)) (\<lambda>p. act (item_scope i p)))"

definition raisePaymentLate :: "uid \<Rightarrow> unit svc" where
  "raisePaymentLate i = on_item i (\<lambda>sc. raiseFlag sc RK_PAYMENT_LATE SEV_CRITICAL)"

definition clearPaymentLate :: "uid \<Rightarrow> unit svc" where
  "clearPaymentLate i = on_item i (\<lambda>sc. clearFlag sc RK_PAYMENT_LATE None)"

definition proof_scope :: "uid \<Rightarrow> uid \<Rightarrow> flag_scope" where
  "proof_scope proofRequestId ws = \<lparr> fs_workspaceId = ws, fs_scopeType = S_PROOF_REQUEST,
     fs_scopeId = proofRequestId, fs_tenancyId = None, fs_propertyId = None \<rparr>"

definition raiseProofOverdue :: "uid \<Rightarrow> uid \<Rightarrow> unit svc" where
  "raiseProofOverdue i ws = raiseFlag (proof_scope i ws) RK_PROOF_OVERDUE SEV_WARN"

definition clearProofOverdue :: "uid \<Rightarrow> uid \<Rightarrow> unit svc" where
  "clearProofOverdue i ws = clearFlag (proof_scope i ws) RK_PROOF_OVERDUE None"

definition case_scope :: "renewal_case \<Rightarrow> flag_scope" where
  "case_scope rc = \<lparr> fs_workspaceId = rc_workspaceId rc, fs_scopeType = S_RENEWAL_CASE,
     fs_scopeId = rc_id rc, fs_tenancyId = Some (rc_tenancyId rc),
     fs_propertyId = Some (rc_propertyId rc) \<rparr>"

definition risk_capture :: "renewal_case \<Rightarrow> world \<Rightarrow> rent_index_capture option" where
  "risk_capture rc s =
     (case rc_indexCaptureId rc of
        Some i \<Rightarrow> List.find (\<lambda>c. ri_id c = i) (w_captures s)
      | None \<Rightarrow> pick_max ri_capturedAt (filter (\<lambda>c. ri_tenancyId c = rc_tenancyId rc \<and>
                  ri_permittedNewRentMax c \<noteq> None) (w_captures s)))"

definition live_offer_status :: "offerStatus \<Rightarrow> bool" where
  "live_offer_status st \<longleftrightarrow> st = O_SENT \<or> st = O_COUNTERED \<or> st = O_ACCEPTED"

definition risk_offer :: "renewal_case \<Rightarrow> world \<Rightarrow> offer option" where
  "risk_offer rc s =
     (case rc_currentOfferId rc of
        Some i \<Rightarrow> List.find (\<lambda>f. of_id f = i) (w_offers s)
      | None \<Rightarrow> pick_max of_version (filter (\<lambda>f. of_renewalCaseId f = Some (rc_id rc) \<and>
                  live_offer_status (of_status f)) (w_offers s)))"

definition rent_ceiling :: "offer option \<Rightarrow> rent_index_capture option \<Rightarrow> rat option" where
  "rent_ceiling activeOffer capture =
     (case Option.bind activeOffer of_permittedMaxSnapshot of
        Some x \<Rightarrow> Some x
      | None \<Rightarrow> Option.bind capture ri_permittedNewRentMax)"

definition above_band :: "offer option \<Rightarrow> rent_index_capture option \<Rightarrow> bool" where
  "above_band activeOffer capture =
     (case (rent_ceiling activeOffer capture, activeOffer) of
        (Some ceil, Some f) \<Rightarrow> ceil < of_annualRent f
      | _ \<Rightarrow> False)"

definition window_missed :: "time \<Rightarrow> renewal_case \<Rightarrow> bool" where
  "window_missed now rc \<longleftrightarrow>
     (case rc_noticeGateAt rc of None \<Rightarrow> False | Some g \<Rightarrow> g < todayInDubai now) \<and>
     rc_noticeServedAt rc = None"

definition evaluateRenewalRisk :: "uid \<Rightarrow> unit svc" where
  "evaluateRenewalRisk renewalCaseId =
     bindE (readE (\<lambda>s. List.find (\<lambda>rc. rc_id rc = renewalCaseId) (w_cases s))) (\<lambda>found.
     case found of
       None \<Rightarrow> ret ()
     | Some rc \<Rightarrow>
         if rc_archivedAt rc \<noteq> None then ret ()
         else
           bindE (readE (risk_capture rc)) (\<lambda>capture.
           bindE (readE (risk_offer rc)) (\<lambda>activeOffer.
           thenE (setFlag (case_scope rc) RK_PROPOSED_INCREASE_ABOVE_INDEX_BAND SEV_WARN
                    (above_band activeOffer capture))
           (bindE getNow (\<lambda>now.
            setFlag (case_scope rc) RK_RENEWAL_NOTICE_WINDOW_MISSED SEV_CRITICAL
              (window_missed now rc))))))"

definition raiseTenancyOverlap :: "uid \<Rightarrow> unit svc" where
  "raiseTenancyOverlap tenancyId =
     bindE (readE (\<lambda>s. List.find (\<lambda>t. tn_id t = tenancyId) (w_tenancies s))) (\<lambda>found.
     case found of None \<Rightarrow> ret ()
     | Some t \<Rightarrow> raiseFlag (tenancy_scope t) RK_TENANCY_OVERLAP SEV_WARN)"

definition evaluateWorkspaceRisk :: "uid \<Rightarrow> unit svc" where
  "evaluateWorkspaceRisk workspaceId =
     bindE (readE (\<lambda>s. map tn_id (filter (\<lambda>t. tn_workspaceId t = workspaceId \<and>
       tn_archivedAt t = None) (w_tenancies s)))) (\<lambda>tenancies.
     thenE (forE tenancies evaluateRiskForTenancy)
     (bindE (readE (\<lambda>s. map rc_id (filter (\<lambda>rc. rc_workspaceId rc = workspaceId \<and>
        rc_archivedAt rc = None \<and> rc_status rc \<notin> {R_RENEWED, R_DECLINED, R_LAPSED}) (w_cases s))))
        (\<lambda>cases. forE cases evaluateRenewalRisk)))"

subsection \<open>Queries and acknowledgement\<close>

definition listRiskFlags :: "authz_ctx \<Rightarrow> bool \<Rightarrow> flagStatus list option \<Rightarrow> risk_flag list svc" where
  "listRiskFlags ctx includeCleared statuses =
     thenE (requireCap ctx ''riskflags.read'')
     (bindE (readE (\<lambda>s. map_option (\<lambda>c. allScopeIds (resolveClientScopeIds (cx_workspaceId ctx) [c] s))
        (cx_clientPrincipalId ctx))) (\<lambda>clientIds.
      bindE (liftE (scope ctx)) (\<lambda>ws.
      readE (\<lambda>s. sort_key (\<lambda>f. - rf_raisedAt f) (filter (\<lambda>f. rf_workspaceId f = ws \<and>
        (case clientIds of None \<Rightarrow> True | Some ids \<Rightarrow> rf_scopeId f \<in> set ids) \<and>
        (case statuses of Some sts \<Rightarrow> rf_status f \<in> set sts
         | None \<Rightarrow> includeCleared \<or> is_active f)) (w_flags s))))))"

text \<open>
  The update trips the unique index when it turns a cleared flag active while another active flag
  has the same workspace, scope and code.
\<close>

definition acknowledgeFlag :: "authz_ctx \<Rightarrow> uid \<Rightarrow> risk_flag option svc" where
  "acknowledgeFlag ctx i =
     thenE (requireCap ctx ''riskflags.ack'')
     (bindE (readE (\<lambda>s. List.find (\<lambda>f. rf_id f = i) (w_flags s))) (\<lambda>found.
      case found of
        None \<Rightarrow> ret None
      | Some f \<Rightarrow>
          if rf_workspaceId f \<noteq> cx_workspaceId ctx then ret None
          else
            bindE (readE w_flags) (\<lambda>rows.
            thenE (assertE (\<forall>r \<in> set rows. rf_id r \<noteq> i \<longrightarrow> \<not> (is_active r \<and>
                rf_workspaceId r = rf_workspaceId f \<and> rf_scopeType r = rf_scopeType f \<and>
                rf_scopeId r = rf_scopeId f \<and> rf_code r = rf_code f))
              (UniqueViolation ''RiskFlag_active''))
            (thenE (writeE (\<lambda>s. s\<lparr>w_flags := upd_where (\<lambda>r. rf_id r = i)
               (\<lambda>r. r\<lparr>rf_status := F_ACKNOWLEDGED\<rparr>) (w_flags s)\<rparr>))
              (ret (Some (f\<lparr>rf_status := F_ACKNOWLEDGED\<rparr>)))))))"

subsection \<open>At most one active flag per scope and code\<close>

definition same_flag :: "risk_flag \<Rightarrow> risk_flag \<Rightarrow> bool" where
  "same_flag f g \<longleftrightarrow> rf_workspaceId f = rf_workspaceId g \<and> rf_scopeType f = rf_scopeType g \<and>
     rf_scopeId f = rf_scopeId g \<and> rf_code f = rf_code g"

definition flags_ok :: "world \<Rightarrow> bool" where
  "flags_ok s \<longleftrightarrow> distinct (map rf_id (w_flags s)) \<and> (\<forall>f \<in> set (w_flags s). rf_id f < w_next s) \<and>
     (\<forall>f \<in> set (w_flags s). \<forall>g \<in> set (w_flags s). is_active f \<and> is_active g \<and> same_flag f g \<longrightarrow> f = g)"

definition keeps_flags :: "world \<Rightarrow> world \<Rightarrow> bool" where
  "keeps_flags s t \<longleftrightarrow> (flags_ok s \<longrightarrow> flags_ok t)"

interpretation flag_law: step_law keeps_flags
  by unfold_locales (auto simp: keeps_flags_def)

definition active_in :: "flag_scope \<Rightarrow> riskCode \<Rightarrow> world \<Rightarrow> bool" where
  "active_in sc code s \<longleftrightarrow> (\<exists>f \<in> set (w_flags s). active_for sc code f)"

definition new_flag :: "uid \<Rightarrow> time \<Rightarrow> flag_scope \<Rightarrow> riskCode \<Rightarrow> severity \<Rightarrow> risk_flag" where
  "new_flag i now sc code sev =
     \<lparr> rf_id = i, rf_workspaceId = fs_workspaceId sc, rf_scopeType = fs_scopeType sc,
       rf_scopeId = fs_scopeId sc, rf_code = code, rf_severity = sev, rf_raisedBy = RB_RULE,
       rf_ruleVersion = Some RULE_VERSION, rf_status = F_OPEN, rf_raisedAt = now,
       rf_clearedAt = None, rf_clearedById = None \<rparr>"

definition raised_row :: "flag_scope \<Rightarrow> riskCode \<Rightarrow> severity \<Rightarrow> evidence_input" where
  "raised_row sc code sev = flag_evidence sc EV_RISK_FLAG_RAISED
     (JObj [(''code'', JStr (code_name code)), (''severity'', JStr (severity_name sev)),
            (''ruleVersion'', JStr RULE_VERSION)])"

definition cleared_row :: "flag_scope \<Rightarrow> riskCode \<Rightarrow> evidence_input" where
  "cleared_row sc code = flag_evidence sc EV_RISK_FLAG_CLEARED
     (JObj [(''code'', JStr (code_name code)), (''ruleVersion'', JStr RULE_VERSION)])"

lemma raiseFlag_eq:
  "raiseFlag sc code sev s =
     (Inr (), if active_in sc code s then s
      else s\<lparr>w_next := Suc (Suc (w_next s)),
             w_flags := w_flags s @ [new_flag (w_next s) (w_now s) sc code sev],
             w_evidence := w_evidence s @ [evidence_row (Suc (w_next s)) (w_now s) (raised_row sc code sev)]\<rparr>)"
proof (cases "List.find (active_for sc code) (w_flags s)")
  case None
  then have "\<not> active_in sc code s" by (simp add: active_in_def find_None_all)
  with None show ?thesis
    by (simp add: raiseFlag_def op_defs getNow_def newId_def recordEvidence_def flag_evidence_def
      evidenceOf_def new_flag_def raised_row_def)
next
  case (Some f)
  then have "active_in sc code s" using find_Some_in [OF Some] by (auto simp: active_in_def)
  with Some show ?thesis by (simp add: raiseFlag_def op_defs)
qed

lemma clearFlag_eq:
  "clearFlag sc code by s =
     (Inr (), case List.find (active_for sc code) (w_flags s) of None \<Rightarrow> s
      | Some f \<Rightarrow> s\<lparr>w_next := Suc (w_next s),
          w_flags := upd_where (\<lambda>r. rf_id r = rf_id f)
            (\<lambda>r. r\<lparr>rf_status := F_CLEARED, rf_clearedAt := Some (w_now s), rf_clearedById := by\<rparr>) (w_flags s),
          w_evidence := w_evidence s @ [evidence_row (w_next s) (w_now s) (cleared_row sc code)]\<rparr>)"
  by (simp add: clearFlag_def op_defs getNow_def newId_def recordEvidence_def flag_evidence_def
    evidenceOf_def cleared_row_def split: option.splits)

lemma keeps_flags_raise: "keeps keeps_flags (raiseFlag sc code sev)"
proof (rule keepsI)
  fix s
  show "keeps_flags s (snd (raiseFlag sc code sev s))"
  proof (cases "active_in sc code s")
    case False
    then have "\<not> same_flag (new_flag i now sc code sev) f \<and> \<not> same_flag f (new_flag i now sc code sev)"
      if "f \<in> set (w_flags s)" "is_active f" for f i now
      using that by (auto simp: active_in_def active_for_def same_flag_def new_flag_def)
    moreover have "rf_id (new_flag i now sc code sev) = i" for i now by (simp add: new_flag_def)
    ultimately show ?thesis
      using False unfolding keeps_flags_def raiseFlag_eq flags_ok_def
      by (auto simp: less_Suc_eq)
  qed (simp add: keeps_flags_def raiseFlag_eq)
qed

lemma flags_ok_upd:
  assumes ok: "flags_ok s" and "w_flags t = upd_where p f (w_flags s)"
    and "\<And>r. rf_id (f r) = rf_id r" and "\<And>r. same_flag (f r) r"
    and "\<And>r. r \<in> set (w_flags s) \<Longrightarrow> p r \<Longrightarrow> is_active (f r) \<Longrightarrow>
      is_active r \<or> (\<forall>g \<in> set (w_flags s). is_active g \<and> same_flag g r \<longrightarrow> p g)"
    and "w_next s \<le> w_next t" and p: "\<And>r r'. p r \<Longrightarrow> p r' \<Longrightarrow> rf_id r = rf_id r'"
  shows "flags_ok t"
proof -
  let ?u = "\<lambda>r. if p r then f r else r"
  have uniq: "r = r'" if "r \<in> set (w_flags s)" "r' \<in> set (w_flags s)" "rf_id r = rf_id r'" for r r'
    using ok that by (auto simp: flags_ok_def distinct_map inj_on_def)
  have same: "same_flag (?u a) (?u b) \<longleftrightarrow> same_flag a b" for a b
    using assms(4) by (auto simp: same_flag_def)
  have "a = b" if ab: "a \<in> set (w_flags s)" "b \<in> set (w_flags s)" "is_active (?u a)" "is_active (?u b)"
    "same_flag a b" for a b
  proof (cases "p a"; cases "p b")
    assume "p a" "p b" then show ?thesis using p uniq ab by blast
  next
    assume "p a" "\<not> p b"
    then have "is_active a" using ab assms(5) [of a] by (auto simp: same_flag_def)
    then show ?thesis using ok ab \<open>\<not> p b\<close> by (auto simp: flags_ok_def)
  next
    assume "\<not> p a" "p b"
    then have "is_active b" using ab assms(5) [of b] by (auto simp: same_flag_def)
    then show ?thesis using ok ab \<open>\<not> p a\<close> by (auto simp: flags_ok_def)
  next
    assume "\<not> p a" "\<not> p b" then show ?thesis using ok ab by (auto simp: flags_ok_def)
  qed
  then have "\<forall>a \<in> set (w_flags t). \<forall>b \<in> set (w_flags t). is_active a \<and> is_active b \<and> same_flag a b \<longrightarrow> a = b"
    unfolding assms(2) set_upd_where using same by blast
  moreover have "distinct (map rf_id (w_flags t))"
    using ok assms(2,3) by (simp add: flags_ok_def map_upd_where)
  moreover have "\<forall>a \<in> set (w_flags t). rf_id a < w_next t"
    using ok assms(2,3,6) by (fastforce simp: flags_ok_def set_upd_where)
  ultimately show ?thesis by (simp add: flags_ok_def)
qed

lemma keeps_flags_clear: "keeps keeps_flags (clearFlag sc code by)"
proof (rule keepsI)
  fix s
  show "keeps_flags s (snd (clearFlag sc code by s))"
  proof (cases "List.find (active_for sc code) (w_flags s)")
    case (Some f)
    show ?thesis unfolding keeps_flags_def
    proof
      assume ok: "flags_ok s"
      show "flags_ok (snd (clearFlag sc code by s))"
        by (rule flags_ok_upd [OF ok, where p = "\<lambda>r. rf_id r = rf_id f" and
          f = "\<lambda>r. r\<lparr>rf_status := F_CLEARED, rf_clearedAt := Some (w_now s), rf_clearedById := by\<rparr>"])
          (simp_all add: clearFlag_eq Some same_flag_def is_active_def)
    qed
  qed (simp add: keeps_flags_def clearFlag_eq)
qed

lemma keeps_flags_set: "keeps keeps_flags (setFlag sc code sev b)"
  by (simp add: setFlag_def keeps_flags_raise keeps_flags_clear)

lemma keeps_flags_now: "keeps keeps_flags getNow"
  unfolding getNow_def by (rule flag_law.keeps_readE)

lemma keeps_flags_require: "keeps keeps_flags (requireCap ctx c)"
  unfolding requireCap_def by (rule flag_law.keeps_assertE)

lemmas flag_keeps = flag_law.keeps_intros keeps_flags_raise keeps_flags_clear keeps_flags_set
  keeps_flags_now keeps_flags_require

lemma keeps_flags_on_item: "(\<And>sc. keeps keeps_flags (act sc)) \<Longrightarrow> keeps keeps_flags (on_item i act)"
  unfolding on_item_def by (intro flag_keeps)

lemma keeps_flags_tenancy: "keeps keeps_flags (evaluateRiskForTenancy i)"
  unfolding evaluateRiskForTenancy_def Let_def by (intro flag_keeps)

lemma keeps_flags_renewal: "keeps keeps_flags (evaluateRenewalRisk i)"
  unfolding evaluateRenewalRisk_def by (intro flag_keeps)

lemma keeps_flags_acknowledge: "keeps keeps_flags (acknowledgeFlag ctx i)"
proof (rule keepsI)
  fix s
  define t where "t = snd (acknowledgeFlag ctx i s)"
  have "t = s \<or> (\<exists>f. List.find (\<lambda>f. rf_id f = i) (w_flags s) = Some f \<and>
      (\<forall>r \<in> set (w_flags s). rf_id r \<noteq> i \<longrightarrow> \<not> (is_active r \<and> same_flag r f)) \<and>
      t = s\<lparr>w_flags := upd_where (\<lambda>r. rf_id r = i) (\<lambda>r. r\<lparr>rf_status := F_ACKNOWLEDGED\<rparr>) (w_flags s)\<rparr>)"
    by (auto simp: t_def acknowledgeFlag_def op_defs requireCap_def same_flag_def split: option.splits)
  then show "keeps_flags s (snd (acknowledgeFlag ctx i s))"
    unfolding t_def [symmetric] keeps_flags_def
  proof (elim disjE exE conjE; intro impI)
    fix f
    assume ok: "flags_ok s" and f: "List.find (\<lambda>f. rf_id f = i) (w_flags s) = Some f"
      and free: "\<forall>r \<in> set (w_flags s). rf_id r \<noteq> i \<longrightarrow> \<not> (is_active r \<and> same_flag r f)"
      and t: "t = s\<lparr>w_flags := upd_where (\<lambda>r. rf_id r = i) (\<lambda>r. r\<lparr>rf_status := F_ACKNOWLEDGED\<rparr>) (w_flags s)\<rparr>"
    have "r = f" if "r \<in> set (w_flags s)" "rf_id r = i" for r
      using ok that find_Some_in [OF f] by (auto simp: flags_ok_def distinct_map inj_on_def)
    then show "flags_ok t"
      using free by (intro flags_ok_upd [OF ok, where p = "\<lambda>r. rf_id r = i" and
        f = "\<lambda>r. r\<lparr>rf_status := F_ACKNOWLEDGED\<rparr>"]) (auto simp: t same_flag_def)
  qed simp
qed

text \<open>
  C13: there is never more than one active flag per workspace, scope and code: every operation of
  the rules engine, the nightly evaluation and the acknowledgement included, keeps it so.
\<close>

theorem one_active_flag:
  assumes "flags_ok s"
  shows "flags_ok (snd (evaluateRiskForTenancy i s)) \<and> flags_ok (snd (evaluateRenewalRisk i s)) \<and>
    flags_ok (snd (raisePaymentLate i s)) \<and> flags_ok (snd (clearPaymentLate i s)) \<and>
    flags_ok (snd (raiseProofOverdue i ws s)) \<and> flags_ok (snd (clearProofOverdue i ws s)) \<and>
    flags_ok (snd (raiseTenancyOverlap i s)) \<and> flags_ok (snd (evaluateWorkspaceRisk ws s)) \<and>
    flags_ok (snd (acknowledgeFlag ctx i s))"
proof -
  have k: "flags_ok (snd (m s))" if "keeps keeps_flags m" for m :: "'a svc"
    using that assms by (simp add: keeps_def keeps_flags_def)
  have k': "flags_ok (snd (m s))" if "keeps keeps_flags m" for m :: "risk_flag option svc"
    using that assms by (simp add: keeps_def keeps_flags_def)
  have k'': "flags_ok (snd (m s))" if "keeps keeps_flags m" for m :: "unit svc"
    using that assms by (simp add: keeps_def keeps_flags_def)
  show ?thesis
    unfolding raisePaymentLate_def clearPaymentLate_def raiseProofOverdue_def clearProofOverdue_def
      raiseTenancyOverlap_def evaluateWorkspaceRisk_def
    by (intro conjI k' k'' flag_keeps keeps_flags_on_item keeps_flags_tenancy keeps_flags_renewal
      keeps_flags_acknowledge)
qed

theorem one_active_flag_witness: "flags_ok (snd (evaluateWorkspaceRisk 5 sample_world))"
proof -
  have "flags_ok sample_world" by (simp add: flags_ok_def sample_defs)
  from one_active_flag [OF this, of 51 5] show ?thesis by blast
qed

subsection \<open>The rules decide the flags\<close>

lemma active_raise:
  "active_in sc c (snd (raiseFlag sc code sev s)) \<longleftrightarrow> c = code \<or> active_in sc c s"
  by (auto simp: raiseFlag_eq active_in_def new_flag_def active_for_def is_active_def)

lemma active_clear:
  assumes ok: "flags_ok s"
  shows "active_in sc c (snd (clearFlag sc code by s)) \<longleftrightarrow> c \<noteq> code \<and> active_in sc c s"
proof (cases "List.find (active_for sc code) (w_flags s)")
  case None
  then have "\<not> active_in sc code s" by (simp add: active_in_def find_None_all)
  with None show ?thesis by (auto simp: clearFlag_eq)
next
  case (Some f)
  have f: "f \<in> set (w_flags s)" "active_for sc code f" using find_Some_in [OF Some] by auto
  have one: "g = f" if g: "g \<in> set (w_flags s)" "active_for sc code g" for g
  proof -
    have "is_active g" "is_active f" "same_flag g f"
      using g(2) f(2) by (simp_all add: active_for_def same_flag_def)
    then show ?thesis using ok g(1) f(1) by (simp add: flags_ok_def)
  qed
  have same_id: "g = f" if "g \<in> set (w_flags s)" "rf_id g = rf_id f" for g
    using ok f(1) that by (simp add: flags_ok_def distinct_map inj_on_def)
  have inactive: "\<not> active_for sc c (r\<lparr>rf_status := F_CLEARED, rf_clearedAt := x, rf_clearedById := y\<rparr>)"
    for r x y by (simp add: active_for_def is_active_def)
  have eq: "snd (clearFlag sc code by s) = s\<lparr>w_next := Suc (w_next s),
      w_flags := upd_where (\<lambda>r. rf_id r = rf_id f)
        (\<lambda>r. r\<lparr>rf_status := F_CLEARED, rf_clearedAt := Some (w_now s), rf_clearedById := by\<rparr>) (w_flags s),
      w_evidence := w_evidence s @ [evidence_row (w_next s) (w_now s) (cleared_row sc code)]\<rparr>"
    by (simp add: clearFlag_eq Some)
  have "active_in sc c (snd (clearFlag sc code by s)) \<longleftrightarrow>
      (\<exists>g \<in> set (w_flags s). rf_id g \<noteq> rf_id f \<and> active_for sc c g)"
    unfolding active_in_def eq by (simp add: set_upd_where Bex_def image_iff) (use inactive in metis)
  also have "\<dots> \<longleftrightarrow> c \<noteq> code \<and> active_in sc c s"
  proof
    assume "\<exists>g \<in> set (w_flags s). rf_id g \<noteq> rf_id f \<and> active_for sc c g"
    then show "c \<noteq> code \<and> active_in sc c s" using one by (auto simp: active_in_def)
  next
    assume r: "c \<noteq> code \<and> active_in sc c s"
    then obtain g where g: "g \<in> set (w_flags s)" "active_for sc c g" by (auto simp: active_in_def)
    then have "g \<noteq> f" using r f(2) by (auto simp: active_for_def)
    with g same_id show "\<exists>g \<in> set (w_flags s). rf_id g \<noteq> rf_id f \<and> active_for sc c g" by blast
  qed
  finally show ?thesis .
qed

lemma active_set:
  "flags_ok s \<Longrightarrow> active_in sc c (snd (setFlag sc code sev b s)) \<longleftrightarrow> (if c = code then b else active_in sc c s)"
  by (auto simp: setFlag_def active_raise active_clear)

text \<open>Raising and clearing touch the flags and the log only.\<close>

definition only_flags :: "world \<Rightarrow> world \<Rightarrow> bool" where
  "only_flags s t \<longleftrightarrow> (\<exists>n flags ev. t = s\<lparr>w_next := n, w_flags := flags, w_evidence := ev\<rparr>)"

lemma only_flags_refl [simp]: "only_flags s s"
  unfolding only_flags_def
  by (rule exI [of _ "w_next s"], rule exI [of _ "w_flags s"], rule exI [of _ "w_evidence s"]) simp

lemma only_flags_upd [simp]: "only_flags s (s\<lparr>w_next := n, w_flags := flags, w_evidence := ev\<rparr>)"
  unfolding only_flags_def by blast

lemma only_flags_trans [trans]: "only_flags s t \<Longrightarrow> only_flags t u \<Longrightarrow> only_flags s u"
  unfolding only_flags_def by (elim exE) (simp, blast)

lemma only_flags_same:
  assumes "only_flags s t"
  shows "w_tenancies t = w_tenancies s" "w_payments t = w_payments s" "w_deadlines t = w_deadlines s"
    "w_now t = w_now s" "w_cases t = w_cases s" "w_offers t = w_offers s" "w_captures t = w_captures s"
    "w_memberships t = w_memberships s" "w_preferences t = w_preferences s" "w_properties t = w_properties s"
    "w_messages t = w_messages s" "w_outbox t = w_outbox s" "w_audit t = w_audit s" "w_notices t = w_notices s"
  using assms by (auto simp: only_flags_def)

lemma setFlag_ok: "\<exists>t. setFlag sc code sev b s = (Inr (), t) \<and> only_flags s t"
proof (cases b)
  case True
  have "only_flags s (snd (raiseFlag sc code sev s))"
    unfolding raiseFlag_eq by simp
  with True show ?thesis by (auto simp: setFlag_def raiseFlag_eq)
next
  case False
  have "only_flags s (snd (clearFlag sc code None s))"
    unfolding clearFlag_eq by (simp split: option.splits)
  with False show ?thesis by (auto simp: setFlag_def clearFlag_eq)
qed

lemma setFlag_step:
  assumes "flags_ok s"
  shows "\<exists>t. setFlag sc code sev b s = (Inr (), t) \<and> only_flags s t \<and> flags_ok t \<and>
    (\<forall>c. active_in sc c t \<longleftrightarrow> (if c = code then b else active_in sc c s))"
proof -
  obtain t where t: "setFlag sc code sev b s = (Inr (), t)" "only_flags s t" using setFlag_ok by blast
  moreover have "flags_ok t" using keepsD [OF keeps_flags_set t(1)] assms by (simp add: keeps_flags_def)
  ultimately show ?thesis using active_set [OF assms, of sc _ code sev b] by auto
qed

lemma active_scope_payments: "payments_of i t = payments_of i s" if "w_payments t = w_payments s"
  using that by (simp add: payments_of_def)

lemma tenancy_rules:
  assumes "flags_ok s" and "List.find (\<lambda>x. tn_id x = i) (w_tenancies s) = Some t"
  shows "\<exists>u. evaluateRiskForTenancy i s = (Inr (), u) \<and> only_flags s u \<and>
    (if tn_archivedAt t \<noteq> None then u = s
     else
      (active_in (tenancy_scope t) RK_MISSING_EJARI u \<longleftrightarrow> no_ejari t) \<and>
      (active_in (tenancy_scope t) RK_MISSING_END_DATE u \<longleftrightarrow> tn_endDate t = 0) \<and>
      (let items = filter (\<lambda>p. pi_status p \<noteq> P_CANCELLED) (payments_of i s) in
       active_in (tenancy_scope t) RK_CHEQUE_TOTAL_MISMATCH u \<longleftrightarrow>
         (if items = [] then active_in (tenancy_scope t) RK_CHEQUE_TOTAL_MISMATCH s
          else total_mismatch items (tn_annualRent t))) \<and>
      (active_in (tenancy_scope t) RK_NOTICE_GATE_WITHIN_30D u \<longleftrightarrow>
         gate_close (w_now s) (open_gate (tn_id t) s)))"
proof (cases "tn_archivedAt t")
  case (Some a)
  with assms(2) show ?thesis by (simp add: evaluateRiskForTenancy_def op_defs)
next
  case None
  define sc where "sc = tenancy_scope t"
  define items where "items = filter (\<lambda>p. pi_status p \<noteq> P_CANCELLED) (payments_of i s)"
  obtain s1 where s1: "setFlag sc RK_MISSING_EJARI SEV_WARN (no_ejari t) s = (Inr (), s1)" "only_flags s s1"
    "flags_ok s1" "\<forall>c. active_in sc c s1 \<longleftrightarrow> (if c = RK_MISSING_EJARI then no_ejari t else active_in sc c s)"
    using setFlag_step [OF assms(1), of sc RK_MISSING_EJARI SEV_WARN "no_ejari t"] by blast
  obtain s2 where s2: "setFlag sc RK_MISSING_END_DATE SEV_CRITICAL (tn_endDate t = 0) s1 = (Inr (), s2)"
    "only_flags s1 s2" "flags_ok s2"
    "\<forall>c. active_in sc c s2 \<longleftrightarrow> (if c = RK_MISSING_END_DATE then tn_endDate t = 0 else active_in sc c s1)"
    using setFlag_step [OF s1(3), of sc RK_MISSING_END_DATE SEV_CRITICAL "tn_endDate t = 0"] by blast
  obtain s3 where s3: "whenE (items \<noteq> []) (setFlag sc RK_CHEQUE_TOTAL_MISMATCH SEV_WARN
      (total_mismatch items (tn_annualRent t))) s2 = (Inr (), s3)" "only_flags s2 s3" "flags_ok s3"
    "\<forall>c. active_in sc c s3 \<longleftrightarrow> (if c = RK_CHEQUE_TOTAL_MISMATCH \<and> items \<noteq> []
       then total_mismatch items (tn_annualRent t) else active_in sc c s2)"
  proof (cases "items = []")
    case True
    with s2(3) show ?thesis by (intro that [of s2]) (simp_all add: op_defs)
  next
    case False
    obtain v where "setFlag sc RK_CHEQUE_TOTAL_MISMATCH SEV_WARN (total_mismatch items (tn_annualRent t)) s2
        = (Inr (), v)" "only_flags s2 v" "flags_ok v" "\<forall>c. active_in sc c v \<longleftrightarrow>
        (if c = RK_CHEQUE_TOTAL_MISMATCH then total_mismatch items (tn_annualRent t) else active_in sc c s2)"
      using setFlag_step [OF s2(3), of sc RK_CHEQUE_TOTAL_MISMATCH SEV_WARN
        "total_mismatch items (tn_annualRent t)"] by blast
    with False show ?thesis by (intro that [of v]) (simp_all add: whenE_eval)
  qed
  have same: "open_gate (tn_id t) s3 = open_gate (tn_id t) s" "w_now s3 = w_now s"
    using only_flags_same [OF s1(2)] only_flags_same [OF s2(2)] only_flags_same [OF s3(2)]
    by (simp_all add: open_gate_def)
  obtain u where u: "setFlag sc RK_NOTICE_GATE_WITHIN_30D SEV_CRITICAL
      (gate_close (w_now s) (open_gate (tn_id t) s)) s3 = (Inr (), u)" "only_flags s3 u" "flags_ok u"
    "\<forall>c. active_in sc c u \<longleftrightarrow> (if c = RK_NOTICE_GATE_WITHIN_30D
       then gate_close (w_now s) (open_gate (tn_id t) s) else active_in sc c s3)"
    using setFlag_step [OF s3(3), of sc RK_NOTICE_GATE_WITHIN_30D SEV_CRITICAL
      "gate_close (w_now s) (open_gate (tn_id t) s)"] by blast
  have "evaluateRiskForTenancy i s = (Inr (), u)"
    unfolding evaluateRiskForTenancy_def Let_def
    by (simp add: bindE_apply readE_eval assms(2) None sc_def [symmetric] items_def [symmetric]
      s1(1) s2(1) s3(1) u(1) same getNow_eval)
  moreover have "only_flags s u" using s1(2) s2(2) s3(2) u(2) by (blast intro: only_flags_trans)
  ultimately show ?thesis
    using None s1(4) s2(4) s3(4) u(4)
    by (simp add: sc_def [symmetric] items_def [symmetric])
qed

text \<open>
  after the rules have run on a live tenancy its four flags say what its record says, whatever
  they said before: the Ejari flag is active if and only if there is no Ejari number, the end
  date flag if and only if the end date is the epoch sentinel, the total flag (when there is a
  live schedule) if and only if the schedule misses the rent by more than 0.009, and the
  notice flag if and only if the open gate lies within the next thirty Dubai days. Nothing but
  flags and the log changes, and a tenancy that is archived is left alone.
\<close>

theorem tenancy_rules_correct:
  assumes "flags_ok s" and "List.find (\<lambda>x. tn_id x = i) (w_tenancies s) = Some t"
  shows "\<exists>u. evaluateRiskForTenancy i s = (Inr (), u) \<and> only_flags s u \<and>
    (if tn_archivedAt t \<noteq> None then u = s
     else
      (active_in (tenancy_scope t) RK_MISSING_EJARI u \<longleftrightarrow> no_ejari t) \<and>
      (active_in (tenancy_scope t) RK_MISSING_END_DATE u \<longleftrightarrow> tn_endDate t = 0) \<and>
      (let items = filter (\<lambda>p. pi_status p \<noteq> P_CANCELLED) (payments_of i s) in
       active_in (tenancy_scope t) RK_CHEQUE_TOTAL_MISMATCH u \<longleftrightarrow>
         (if items = [] then active_in (tenancy_scope t) RK_CHEQUE_TOTAL_MISMATCH s
          else total_mismatch items (tn_annualRent t))) \<and>
      (active_in (tenancy_scope t) RK_NOTICE_GATE_WITHIN_30D u \<longleftrightarrow>
         gate_close (w_now s) (open_gate (tn_id t) s)))"
  using assms by (rule tenancy_rules)

theorem tenancy_rules_correct_witness:
  "active_in (tenancy_scope sample_tenancy) RK_MISSING_EJARI (snd (evaluateRiskForTenancy 51 sample_world))"
proof -
  have "flags_ok sample_world" by (simp add: flags_ok_def sample_defs)
  moreover have "List.find (\<lambda>x. tn_id x = 51) (w_tenancies sample_world) = Some sample_tenancy"
    by (simp add: sample_world_def sample_tenancy_def)
  ultimately show ?thesis
    using tenancy_rules_correct [of sample_world 51 sample_tenancy]
    by (auto simp: sample_tenancy_def no_ejari_def)
qed

text \<open>
  after the rules have run on a live renewal case, the flag about the index band is active if
  and only if the offer on the table asks for more than the ceiling frozen with it (or, failing
  that, of the capture in force), and the missed-window flag if and only if the notice gate has
  passed in Dubai with no notice served. An archived case is left alone.
\<close>

theorem renewal_rules_correct:
  assumes "flags_ok s" and "List.find (\<lambda>x. rc_id x = i) (w_cases s) = Some rc"
  shows "\<exists>u. evaluateRenewalRisk i s = (Inr (), u) \<and> only_flags s u \<and>
    (if rc_archivedAt rc \<noteq> None then u = s
     else
      (active_in (case_scope rc) RK_PROPOSED_INCREASE_ABOVE_INDEX_BAND u \<longleftrightarrow>
         above_band (risk_offer rc s) (risk_capture rc s)) \<and>
      (active_in (case_scope rc) RK_RENEWAL_NOTICE_WINDOW_MISSED u \<longleftrightarrow> window_missed (w_now s) rc))"
proof (cases "rc_archivedAt rc")
  case (Some a)
  with assms(2) show ?thesis by (simp add: evaluateRenewalRisk_def op_defs)
next
  case None
  let ?sc = "case_scope rc" and ?b = "above_band (risk_offer rc s) (risk_capture rc s)"
  obtain s1 where s1: "setFlag ?sc RK_PROPOSED_INCREASE_ABOVE_INDEX_BAND SEV_WARN ?b s = (Inr (), s1)"
    "only_flags s s1" "flags_ok s1"
    "\<forall>c. active_in ?sc c s1 \<longleftrightarrow> (if c = RK_PROPOSED_INCREASE_ABOVE_INDEX_BAND then ?b else active_in ?sc c s)"
    using setFlag_step [OF assms(1), of ?sc RK_PROPOSED_INCREASE_ABOVE_INDEX_BAND SEV_WARN ?b] by blast
  have now: "w_now s1 = w_now s" using only_flags_same [OF s1(2)] by simp
  obtain u where u: "setFlag ?sc RK_RENEWAL_NOTICE_WINDOW_MISSED SEV_CRITICAL (window_missed (w_now s) rc) s1
      = (Inr (), u)" "only_flags s1 u"
    "\<forall>c. active_in ?sc c u \<longleftrightarrow> (if c = RK_RENEWAL_NOTICE_WINDOW_MISSED then window_missed (w_now s) rc
       else active_in ?sc c s1)"
    using setFlag_step [OF s1(3), of ?sc RK_RENEWAL_NOTICE_WINDOW_MISSED SEV_CRITICAL
      "window_missed (w_now s) rc"] by blast
  have "evaluateRenewalRisk i s = (Inr (), u)"
    by (simp add: evaluateRenewalRisk_def bindE_apply readE_eval assms(2) None s1(1) now u(1) getNow_eval)
  moreover have "only_flags s u" using s1(2) u(2) by (rule only_flags_trans)
  ultimately show ?thesis using None s1(4) u(3) by simp
qed

definition sample_case :: renewal_case where
  "sample_case = \<lparr> rc_id = 81, rc_workspaceId = 5, rc_tenancyId = 51, rc_propertyId = 41,
     rc_status = R_NOTICE_DUE, rc_currentRentSnapshot = 90000, rc_noticeGateAt = Some 0,
     rc_expiresAt = 1798675200000, rc_renewalDate = 1798761600000, rc_noticeServedAt = None,
     rc_noticeDocId = None, rc_decidedOfferId = None, rc_renewedTenancyId = None,
     rc_indexCaptureId = None, rc_proposedRent = None, rc_proposedStartDate = None,
     rc_proposedEndDate = None, rc_currentNoticeId = None, rc_currentOfferId = None,
     rc_archivedAt = None, rc_createdById = None, rc_createdAt = 0, rc_updatedAt = 0 \<rparr>"

theorem renewal_rules_correct_witness:
  "\<not> active_in (case_scope sample_case) RK_PROPOSED_INCREASE_ABOVE_INDEX_BAND
     (snd (evaluateRenewalRisk 81 (sample_world\<lparr>w_cases := [sample_case]\<rparr>)))"
proof -
  let ?s = "sample_world\<lparr>w_cases := [sample_case]\<rparr>"
  have "flags_ok ?s" by (simp add: flags_ok_def sample_defs)
  moreover have "List.find (\<lambda>x. rc_id x = 81) (w_cases ?s) = Some sample_case" by (simp add: sample_case_def)
  ultimately obtain u where "evaluateRenewalRisk 81 ?s = (Inr (), u)"
    "active_in (case_scope sample_case) RK_PROPOSED_INCREASE_ABOVE_INDEX_BAND u \<longleftrightarrow>
       above_band (risk_offer sample_case ?s) (risk_capture sample_case ?s)"
    using renewal_rules_correct [of ?s 81 sample_case] by (auto simp: sample_case_def)
  moreover have "risk_offer sample_case ?s = None"
    by (simp add: risk_offer_def sample_case_def sample_defs)
  ultimately show ?thesis by (simp add: above_band_def split: option.splits)
qed

text \<open>
  acknowledging does not look at the status of the flag. A flag that a rule has cleared
  becomes active again when it is acknowledged, although its condition no longer holds.
\<close>

theorem acknowledge_revives_cleared_flag:
  "\<exists>ctx f s u. rf_status f = F_CLEARED \<and> \<not> is_active f \<and> f \<in> set (w_flags s) \<and> flags_ok s \<and>
     acknowledgeFlag ctx (rf_id f) s = (Inr (Some (f\<lparr>rf_status := F_ACKNOWLEDGED\<rparr>)), u) \<and>
     (\<exists>g \<in> set (w_flags u). rf_id g = rf_id f \<and> is_active g)"
proof -
  define f where "f = (new_flag 91 0 (tenancy_scope sample_tenancy) RK_MISSING_EJARI SEV_WARN)
    \<lparr>rf_status := F_CLEARED, rf_clearedAt := Some 1\<rparr>"
  define s where "s = empty_world\<lparr>w_flags := [f]\<rparr>"
  have cap: "hasCapability (sample_ctx MANAGER) ''riskflags.ack''"
    by (simp add: hasCapability_def sample_ctx_def roleHas_def)
  have f: "rf_status f = F_CLEARED" "rf_id f = 91" "rf_workspaceId f = 5"
    by (simp_all add: f_def new_flag_def tenancy_scope_def sample_tenancy_def)
  have ws: "cx_workspaceId (sample_ctx MANAGER) = 5" by (simp add: sample_ctx_def)
  have "acknowledgeFlag (sample_ctx MANAGER) (rf_id f) s =
      (Inr (Some (f\<lparr>rf_status := F_ACKNOWLEDGED\<rparr>)), s\<lparr>w_flags := [f\<lparr>rf_status := F_ACKNOWLEDGED\<rparr>]\<rparr>)"
    using cap f ws by (simp add: acknowledgeFlag_def op_defs requireCap_def s_def)
  moreover have "flags_ok s" using f by (simp add: flags_ok_def s_def empty_world_def)
  ultimately show ?thesis
    using f by (intro exI [of _ "sample_ctx MANAGER"] exI [of _ f] exI [of _ s]
      exI [of _ "s\<lparr>w_flags := [f\<lparr>rf_status := F_ACKNOWLEDGED\<rparr>]\<rparr>"]) (simp add: is_active_def s_def)
qed

subsection \<open>The rules never fail\<close>

lemma outcome_flag [outcome]:
  "never_fails (raiseFlag sc c sev)" "never_fails (clearFlag sc c by)" "never_fails (setFlag sc c sev b)"
  by (simp_all add: never_fails_def raiseFlag_eq clearFlag_eq setFlag_def)

lemma outcome_evaluate [outcome]:
  "never_fails (evaluateRiskForTenancy i)" "never_fails (evaluateRenewalRisk j)"
  unfolding evaluateRiskForTenancy_def evaluateRenewalRisk_def Let_def by (intro outcome)+

subsection \<open>The logs only grow\<close>

lemma keeps_raiseFlag [log_keeps]: "keeps extends (raiseFlag sc c sev)"
  unfolding raiseFlag_def by (intro logs.keeps_intros log_keeps keeps_quiet_write) simp_all

lemma keeps_clearFlag [log_keeps]: "keeps extends (clearFlag sc c by)"
  unfolding clearFlag_def by (intro logs.keeps_intros log_keeps keeps_quiet_write) simp_all

lemma keeps_setFlag [log_keeps]: "keeps extends (setFlag sc c sev b)"
  unfolding setFlag_def by (intro logs.keeps_intros log_keeps)

lemma keeps_evaluateRiskForTenancy [log_keeps]: "keeps extends (evaluateRiskForTenancy i)"
  unfolding evaluateRiskForTenancy_def Let_def by (intro logs.keeps_intros log_keeps)

lemma keeps_evaluateRenewalRisk [log_keeps]: "keeps extends (evaluateRenewalRisk i)"
  unfolding evaluateRenewalRisk_def by (intro logs.keeps_intros log_keeps)

lemma keeps_on_item: "(\<And>sc. keeps extends (act sc)) \<Longrightarrow> keeps extends (on_item i act)"
  unfolding on_item_def by (intro logs.keeps_intros log_keeps)

lemma keeps_paymentLate [log_keeps]:
  "keeps extends (raisePaymentLate i)" "keeps extends (clearPaymentLate i)"
  unfolding raisePaymentLate_def clearPaymentLate_def by (intro keeps_on_item log_keeps)+

lemma keeps_proofOverdue [log_keeps]:
  "keeps extends (raiseProofOverdue i ws)" "keeps extends (clearProofOverdue i ws)"
  unfolding raiseProofOverdue_def clearProofOverdue_def by (intro log_keeps)+

lemma keeps_tenancyOverlap [log_keeps]: "keeps extends (raiseTenancyOverlap i)"
  unfolding raiseTenancyOverlap_def by (intro logs.keeps_intros log_keeps)

lemma keeps_evaluateWorkspaceRisk [log_keeps]: "keeps extends (evaluateWorkspaceRisk ws)"
  unfolding evaluateWorkspaceRisk_def by (intro logs.keeps_intros log_keeps)

lemma keeps_acknowledgeFlag [log_keeps]: "keeps extends (acknowledgeFlag ctx i)"
  unfolding acknowledgeFlag_def by (intro logs.keeps_intros log_keeps keeps_quiet_write) simp_all

end
