(* ===== verification/Deadlines.thy ===== *)
theory Deadlines
  imports Risk
begin

text \<open>
  \<open>services/deadlines.ts\<close>: the calendar. A tenancy's deadlines are derived from its dates and its
  live payment items and rewritten by \<open>regenerateDeadlinesForTenancy\<close> whenever either changes; a
  listing's permit carries one of its own; manual entries are made and closed by hand. The
  transaction client \<open>db\<close> of the code is the database the operation runs on.
\<close>

subsection \<open>Deriving a deadline\<close>

definition computedFrom :: "calc_result \<Rightarrow> uid option \<Rightarrow> json" where
  "computedFrom c disc =
     JObj ([(''rule'', JStr (cr_rule c @ ''_'' @ cr_version c)), (''inputs'', cr_inputs c)] @
       (case disc of None \<Rightarrow> [] | Some d \<Rightarrow> [(''discriminator'', JId d)]))"

record deadline_base =
  db_workspaceId :: uid
  db_tenancyId :: uid
  db_propertyId :: uid

definition derives :: "deadline_base \<Rightarrow> deadlineKind \<Rightarrow> uid option \<Rightarrow> deadline \<Rightarrow> bool" where
  "derives base kind disc d \<longleftrightarrow> dl_workspaceId d = db_workspaceId base \<and>
     dl_tenancyId d = Some (db_tenancyId base) \<and> dl_kind d = kind \<and> dl_status d = DL_OPEN \<and>
     (case disc of None \<Rightarrow> True | Some i \<Rightarrow> jget (dl_computedFrom d) ''discriminator'' = Some (JId i))"

definition upsertDeadline ::
    "deadline_base \<Rightarrow> deadlineKind \<Rightarrow> calc_result \<Rightarrow> uid option \<Rightarrow> unit svc" where
  "upsertDeadline base kind calc disc =
     bindE (readE (\<lambda>s. List.find (derives base kind disc) (w_deadlines s))) (\<lambda>existing.
     case existing of
       Some d \<Rightarrow> writeE (\<lambda>s. s\<lparr>w_deadlines := upd_where (\<lambda>r. dl_id r = dl_id d)
         (\<lambda>r. r\<lparr>dl_dueAt := cr_date calc, dl_computedFrom := computedFrom calc disc\<rparr>) (w_deadlines s)\<rparr>)
     | None \<Rightarrow>
         bindE getNow (\<lambda>now. bindE newId (\<lambda>i.
         writeE (\<lambda>s. s\<lparr>w_deadlines := w_deadlines s @
           [\<lparr> dl_id = i, dl_workspaceId = db_workspaceId base, dl_tenancyId = Some (db_tenancyId base),
              dl_propertyId = Some (db_propertyId base), dl_kind = kind, dl_dueAt = cr_date calc,
              dl_status = DL_OPEN, dl_computedFrom = computedFrom calc disc, dl_createdAt = now \<rparr>]\<rparr>))))"

text \<open>\<open>disc && !liveIds.has(disc)\<close>: a value that is not falsy and not the id of a live item.\<close>

fun truthy :: "json \<Rightarrow> bool" where
  "truthy JNull = False"
| "truthy (JBool b) = b"
| "truthy (JNum x) = (x \<noteq> 0)"
| "truthy (JStr x) = (x \<noteq> [])"
| "truthy _ = True"

definition stale :: "uid list \<Rightarrow> deadline \<Rightarrow> bool" where
  "stale liveIds d \<longleftrightarrow>
     (case jget (dl_computedFrom d) ''discriminator'' of None \<Rightarrow> False
      | Some j \<Rightarrow> truthy j \<and> j \<notin> JId ` set liveIds)"

definition cheque_open :: "uid \<Rightarrow> deadline \<Rightarrow> bool" where
  "cheque_open tenancyId d \<longleftrightarrow> dl_tenancyId d = Some tenancyId \<and> dl_kind d = DK_CHEQUE_DUE \<and>
     dl_status d = DL_OPEN"

definition cancelDeadline :: "deadline \<Rightarrow> unit svc" where
  "cancelDeadline d = writeE (\<lambda>s. s\<lparr>w_deadlines := upd_where (\<lambda>r. dl_id r = dl_id d)
     (\<lambda>r. r\<lparr>dl_status := DL_CANCELLED\<rparr>) (w_deadlines s)\<rparr>)"

definition base_of :: "tenancy \<Rightarrow> deadline_base" where
  "base_of t = \<lparr> db_workspaceId = tn_workspaceId t, db_tenancyId = tn_id t, db_propertyId = tn_propertyId t \<rparr>"

definition activeItems :: "payment_item list \<Rightarrow> payment_item list" where
  "activeItems items = filter (\<lambda>i. pi_status i \<noteq> P_CANCELLED) items"

definition regenerateDeadlinesForTenancy :: "uid \<Rightarrow> unit svc" where
  "regenerateDeadlinesForTenancy tenancyId =
     bindE (readE (\<lambda>s. List.find (\<lambda>t. tn_id t = tenancyId) (w_tenancies s))) (\<lambda>found.
     bindE (readE (payments_of tenancyId)) (\<lambda>paymentItems.
     bindE (someE (ThrownError (''Tenancy '' @ show_nat tenancyId @ '' not found'')) found) (\<lambda>t.
     if tn_archivedAt t \<noteq> None then
       writeE (\<lambda>s. s\<lparr>w_deadlines := upd_where (\<lambda>d. dl_tenancyId d = Some tenancyId \<and> dl_status d = DL_OPEN)
         (\<lambda>d. d\<lparr>dl_status := DL_CANCELLED\<rparr>) (w_deadlines s)\<rparr>)
     else
       bindE (liftE (noticeGate (tn_endDate t) (of_int (tn_noticePeriodDays t)))) (\<lambda>gate.
       thenE (upsertDeadline (base_of t) DK_NOTICE_GATE gate None)
       (thenE (upsertDeadline (base_of t) DK_CONTRACT_EXPIRY (contractExpiry (tn_endDate t)) None)
       (thenE (upsertDeadline (base_of t) DK_RENEWAL_DATE (renewalDate (tn_endDate t)) None)
       (thenE (writeE (\<lambda>s. s\<lparr>w_tenancies := upd_where (\<lambda>r. tn_id r = tn_id t)
                 (\<lambda>r. r\<lparr>tn_noticeGateAt := Some (cr_date gate)\<rparr>) (w_tenancies s)\<rparr>))
       (thenE (forE (activeItems paymentItems) (\<lambda>i.
                 upsertDeadline (base_of t) DK_CHEQUE_DUE (chequeDue (pi_dueDate i)) (Some (pi_id i))))
       (bindE (readE (\<lambda>s. filter (cheque_open tenancyId) (w_deadlines s))) (\<lambda>chequeDeadlines.
        forE chequeDeadlines (\<lambda>d.
          whenE (stale (map pi_id (activeItems paymentItems)) d) (cancelDeadline d))))))))))))"

subsection \<open>The permit of a listing\<close>

definition permit_row :: "listing \<Rightarrow> deadline \<Rightarrow> bool" where
  "permit_row l d \<longleftrightarrow> dl_workspaceId d = ls_workspaceId l \<and> dl_kind d = DK_PERMIT_EXPIRY \<and>
     dl_status d = DL_OPEN \<and> jget (dl_computedFrom d) ''discriminator'' = Some (JId (ls_id l))"

definition permit_live :: "listing \<Rightarrow> bool" where
  "permit_live l \<longleftrightarrow> ls_permitExpiry l \<noteq> None \<and> ls_status l \<noteq> L_ARCHIVED \<and> ls_archivedAt l = None"

definition permit_computed :: "listing \<Rightarrow> json" where
  "permit_computed l = JObj [(''rule'', JStr ''listing_permit_v1''), (''discriminator'', JId (ls_id l)),
     (''listingId'', JId (ls_id l)), (''permitRef'', jopt JStr (ls_permitRef l))]"

definition syncListingPermitDeadline :: "listing \<Rightarrow> deadline option svc" where
  "syncListingPermitDeadline l =
     bindE (readE (\<lambda>s. List.find (permit_row l) (w_deadlines s))) (\<lambda>existing.
     if \<not> permit_live l then
       (case existing of None \<Rightarrow> ret None
        | Some d \<Rightarrow> thenE (cancelDeadline d) (ret (Some (d\<lparr>dl_status := DL_CANCELLED\<rparr>))))
     else
       (case existing of
          Some d \<Rightarrow>
            (let upd = (\<lambda>r. r\<lparr>dl_dueAt := toUtcDateOnly (the (ls_permitExpiry l)),
                   dl_computedFrom := permit_computed l\<rparr>)
             in thenE (writeE (\<lambda>s. s\<lparr>w_deadlines := upd_where (\<lambda>r. dl_id r = dl_id d) upd (w_deadlines s)\<rparr>))
                  (ret (Some (upd d))))
        | None \<Rightarrow>
            bindE getNow (\<lambda>now. bindE newId (\<lambda>i.
            let row = \<lparr> dl_id = i, dl_workspaceId = ls_workspaceId l, dl_tenancyId = None,
                  dl_propertyId = Some (ls_propertyId l), dl_kind = DK_PERMIT_EXPIRY,
                  dl_dueAt = toUtcDateOnly (the (ls_permitExpiry l)), dl_status = DL_OPEN,
                  dl_computedFrom = permit_computed l, dl_createdAt = now \<rparr>
            in thenE (writeE (\<lambda>s. s\<lparr>w_deadlines := w_deadlines s @ [row]\<rparr>)) (ret (Some row))))))"

subsection \<open>Lists and labels\<close>

record deadline_filters =
  df_clientPrincipalId :: "uid option"
  df_propertyId :: "uid option"
  df_kind :: "deadlineKind option"
  df_from :: "time option"
  df_to :: "time option"

definition deadline_where :: "authz_ctx \<Rightarrow> uid option \<Rightarrow> world \<Rightarrow> error + (deadline \<Rightarrow> bool)" where
  "deadline_where ctx clientFilter s =
     (if cx_subjectContactId ctx \<noteq> None then
        map_sum id (\<lambda>w d. matches w (view_deadline d)) (contactScopedWhere ctx TB_DEADLINE s)
      else if isDelegateRole (cx_role ctx) then
        map_sum id (\<lambda>w d. matches w (view_deadline d)) (clientSetScopedWhere ctx TB_DEADLINE s)
      else case scope ctx of Inl e \<Rightarrow> Inl e
        | Inr ws \<Rightarrow>
            (case (case cx_clientPrincipalId ctx of Some c \<Rightarrow> Some c | None \<Rightarrow> clientFilter) of
               None \<Rightarrow> Inr (\<lambda>d. dl_workspaceId d = ws)
             | Some c \<Rightarrow>
                 (let ids = resolveClientScopeIds (cx_workspaceId ctx) [c] s
                  in Inr (\<lambda>d. dl_workspaceId d = ws \<and>
                       (some_in (dl_propertyId d) (cs_propertyIds ids) \<or>
                        some_in (dl_tenancyId d) (cs_tenancyIds ids))))))"

definition holds_for :: "'a option \<Rightarrow> ('a \<Rightarrow> bool) \<Rightarrow> bool" where
  "holds_for x p = (case x of None \<Rightarrow> True | Some y \<Rightarrow> p y)"

definition listDeadlines :: "authz_ctx \<Rightarrow> deadline_filters \<Rightarrow> deadline list svc" where
  "listDeadlines ctx flt =
     thenE (requireCap ctx ''deadlines.read'')
     (bindE (readE (deadline_where ctx (df_clientPrincipalId flt))) (\<lambda>r.
      bindE (liftE r) (\<lambda>base.
      readE (\<lambda>s. sort_key dl_dueAt (filter (\<lambda>d. base d \<and> dl_status d = DL_OPEN \<and>
        holds_for (df_kind flt) (\<lambda>k. dl_kind d = k) \<and>
        holds_for (df_propertyId flt) (\<lambda>p. dl_propertyId d = Some p) \<and>
        holds_for (df_from flt) (\<lambda>a. a \<le> dl_dueAt d) \<and>
        holds_for (df_to flt) (\<lambda>b. dl_dueAt d \<le> b)) (w_deadlines s))))))"

fun kind_words :: "deadlineKind \<Rightarrow> string" where
  "kind_words DK_NOTICE_GATE = ''NOTICE GATE''"
| "kind_words DK_CONTRACT_EXPIRY = ''CONTRACT EXPIRY''"
| "kind_words DK_RENEWAL_DATE = ''RENEWAL DATE''"
| "kind_words DK_CHEQUE_DUE = ''CHEQUE DUE''"
| "kind_words DK_CHEQUE_FOLLOWUP = ''CHEQUE FOLLOWUP''"
| "kind_words DK_SERVICE_CHARGE_DUE = ''SERVICE CHARGE DUE''"
| "kind_words DK_INSURANCE_EXPIRY = ''INSURANCE EXPIRY''"
| "kind_words DK_DOCUMENT_EXPIRY = ''DOCUMENT EXPIRY''"
| "kind_words DK_APPROVAL_DUE = ''APPROVAL DUE''"
| "kind_words DK_TENANT_RESPONSE_DUE = ''TENANT RESPONSE DUE''"
| "kind_words DK_EJARI_RENEWAL = ''EJARI RENEWAL''"
| "kind_words DK_PERMIT_EXPIRY = ''PERMIT EXPIRY''"
| "kind_words DK_CUSTOM = ''CUSTOM''"

definition deadlineLabel :: "deadline \<Rightarrow> string" where
  "deadlineLabel d =
     (case jget (dl_computedFrom d) ''title'' of
        Some (JStr title) \<Rightarrow> if title \<noteq> [] then title else kind_words (dl_kind d)
      | _ \<Rightarrow> kind_words (dl_kind d))"

text \<open>A page of the portal; the code writes its path.\<close>

datatype href = H_renewals uid | H_properties uid | H_payments | H_calendar

record deadline_step =
  na_label :: string
  na_reason :: string
  na_href :: href

text \<open>\<open>lower\<close> stands for the runtime's \<open>toLowerCase\<close>.\<close>

definition deadlineNextAction :: "(string \<Rightarrow> string) \<Rightarrow> deadline \<Rightarrow> deadline_step" where
  "deadlineNextAction lower d =
     (let renewalHref = map_option H_renewals (dl_tenancyId d);
          fallbackHref = (case dl_propertyId d of Some p \<Rightarrow> H_properties p | None \<Rightarrow> H_calendar);
          case_href = (case renewalHref of Some h \<Rightarrow> h | None \<Rightarrow> fallbackHref);
          act = (\<lambda>l r h. \<lparr>na_label = l, na_reason = r, na_href = h\<rparr>)
      in case dl_kind d of
        DK_NOTICE_GATE \<Rightarrow> act ''Review renewal notice gate''
          ''Confirm the recorded source, notice position, and service evidence.'' case_href
      | DK_CONTRACT_EXPIRY \<Rightarrow> act ''Review expiring tenancy''
          ''Confirm the recorded renewal or move-out position before expiry.'' case_href
      | DK_RENEWAL_DATE \<Rightarrow> act ''Confirm renewal record''
          ''Check that agreed terms and any successor tenancy are recorded.'' case_href
      | DK_TENANT_RESPONSE_DUE \<Rightarrow> act ''Review tenant response''
          ''The recorded response window is due for review.'' case_href
      | DK_CHEQUE_DUE \<Rightarrow> act ''Review payment register''
          ''Check the recorded payment status and supporting evidence.'' H_payments
      | DK_CHEQUE_FOLLOWUP \<Rightarrow> act ''Review payment register''
          ''Check the recorded payment status and supporting evidence.'' H_payments
      | DK_APPROVAL_DUE \<Rightarrow> act ''Review pending approval''
          ''A recorded approval window is due for review.'' fallbackHref
      | _ \<Rightarrow> act (''Review '' @ lower (deadlineLabel d))
          ''Open the scoped record and confirm the next recorded step.'' fallbackHref)"

definition isManualDeadline :: "deadline \<Rightarrow> bool" where
  "isManualDeadline d \<longleftrightarrow> jget (dl_computedFrom d) ''rule'' = Some (JStr ''manual'')"

subsection \<open>Manual entries\<close>

text \<open>The write door most services use: the delegate's property book, or the workspace.\<close>

definition assertOwn :: "authz_ctx \<Rightarrow> uid option \<Rightarrow> uid option \<Rightarrow> error + unit" where
  "assertOwn ctx row propertyId =
     (if isDelegateRole (cx_role ctx) then assertPropertyInDelegateScope ctx row propertyId
      else assertSameWorkspace ctx row)"

record manual_input =
  md_title :: string
  md_dueAt :: time
  md_kind :: "deadlineKind option"
  md_propertyId :: "uid option"
  md_tenancyId :: "uid option"
  md_note :: "string option"

definition manual_property :: "authz_ctx \<Rightarrow> manual_input \<Rightarrow> uid option svc" where
  "manual_property ctx inp =
     (case md_tenancyId inp of
        Some ti \<Rightarrow>
          bindE (readE (\<lambda>s. List.find (\<lambda>t. tn_id t = ti) (w_tenancies s))) (\<lambda>t.
          thenE (liftE (assertOwn ctx (map_option tn_workspaceId t) (map_option tn_propertyId t)))
            (ret (case md_propertyId inp of Some p \<Rightarrow> Some p | None \<Rightarrow> map_option tn_propertyId t)))
      | None \<Rightarrow>
          (case md_propertyId inp of
             Some pid \<Rightarrow>
               bindE (readE (\<lambda>s. List.find (\<lambda>p. pr_id p = pid) (w_properties s))) (\<lambda>p.
               thenE (liftE (assertOwn ctx (map_option pr_workspaceId p) (map_option pr_id p)))
                 (ret (Some pid)))
           | None \<Rightarrow> ret None))"

definition createManualDeadline :: "authz_ctx \<Rightarrow> manual_input \<Rightarrow> deadline svc" where
  "createManualDeadline ctx inp =
     thenE (requireCap ctx ''deadlines.write'')
     (thenE (assertE (\<not> (isDelegateRole (cx_role ctx) \<and> md_tenancyId inp = None \<and> md_propertyId inp = None))
        (AuthzError ''A delegate must attach a deadline to a property or tenancy'' 422))
     (bindE (manual_property ctx inp) (\<lambda>propertyId.
      bindE getNow (\<lambda>now. bindE newId (\<lambda>i.
      let row = \<lparr> dl_id = i, dl_workspaceId = cx_workspaceId ctx, dl_tenancyId = md_tenancyId inp,
            dl_propertyId = propertyId,
            dl_kind = (case md_kind inp of None \<Rightarrow> DK_CUSTOM | Some k \<Rightarrow> k),
            dl_dueAt = toUtcDateOnly (md_dueAt inp), dl_status = DL_OPEN,
            dl_computedFrom = JObj [(''rule'', JStr ''manual''), (''title'', JStr (md_title inp)),
              (''note'', jopt JStr (md_note inp))],
            dl_createdAt = now \<rparr>
      in thenE (writeE (\<lambda>s. s\<lparr>w_deadlines := w_deadlines s @ [row]\<rparr>))
        (bindE (recordAudit (audit_by ctx ''deadline.create'' ''Deadline'' (Some i))) (\<lambda>_. ret row)))))))"

text \<open>The row a delegate may touch hangs off one of its properties or tenancies.\<close>

definition delegate_deadline_ok :: "authz_ctx \<Rightarrow> deadline option \<Rightarrow> world \<Rightarrow> error + unit" where
  "delegate_deadline_ok ctx d s =
     (case d of None \<Rightarrow> Inl notFound
      | Some r \<Rightarrow>
          if dl_workspaceId r \<noteq> cx_workspaceId ctx then Inl notFound
          else case resolveDelegateScopeIds ctx s of Inl e \<Rightarrow> Inl e
            | Inr ids \<Rightarrow> if some_in (dl_propertyId r) (cs_propertyIds ids) \<or>
                            some_in (dl_tenancyId r) (cs_tenancyIds ids)
                         then Inr () else Inl notFound)"

text \<open>The status asked for is \<open>DONE\<close> or \<open>CANCELLED\<close>.\<close>

definition setDeadlineStatus :: "authz_ctx \<Rightarrow> uid \<Rightarrow> deadlineStatus \<Rightarrow> deadline svc" where
  "setDeadlineStatus ctx i status =
     thenE (requireCap ctx ''deadlines.write'')
     (bindE (readE (\<lambda>s. List.find (\<lambda>d. dl_id d = i) (w_deadlines s))) (\<lambda>found.
      bindE (readE (\<lambda>s. if isDelegateRole (cx_role ctx) then delegate_deadline_ok ctx found s
        else assertSameWorkspace ctx (map_option dl_workspaceId found))) (\<lambda>r.
      thenE (liftE r)
      (bindE (someE notFound found) (\<lambda>d.
      thenE (assertE (isManualDeadline d)
        (AuthzError ''Only manual calendar entries can be completed here'' 422))
      (thenE (assertE (dl_status d = DL_OPEN) (AuthzError ''Deadline is not open'' 422))
      (thenE (writeE (\<lambda>s. s\<lparr>w_deadlines := upd_where (\<lambda>x. dl_id x = i) (\<lambda>x. x\<lparr>dl_status := status\<rparr>)
          (w_deadlines s)\<rparr>))
      (bindE (recordAudit (audit_by ctx
           (if status = DL_DONE then ''deadline.complete'' else ''deadline.cancel'') ''Deadline'' (Some i)))
         (\<lambda>_. ret (d\<lparr>dl_status := status\<rparr>))))))))))"

subsection \<open>What every operation keeps\<close>

lemma keeps_upsertDeadline [log_keeps]: "keeps extends (upsertDeadline b k c d)"
  unfolding upsertDeadline_def by (intro logs.keeps_intros log_keeps keeps_quiet_write) simp_all

lemma keeps_cancelDeadline [log_keeps]: "keeps extends (cancelDeadline d)"
  unfolding cancelDeadline_def by (intro keeps_quiet_write) simp_all

lemma keeps_regenerate [log_keeps]: "keeps extends (regenerateDeadlinesForTenancy i)"
  unfolding regenerateDeadlinesForTenancy_def
  by (intro logs.keeps_intros log_keeps keeps_quiet_write) simp_all

lemma keeps_syncListing [log_keeps]: "keeps extends (syncListingPermitDeadline l)"
  unfolding syncListingPermitDeadline_def Let_def
  by (intro logs.keeps_intros log_keeps keeps_quiet_write) simp_all

lemma keeps_manual_property [log_keeps]: "keeps extends (manual_property ctx inp)"
  unfolding manual_property_def by (intro logs.keeps_intros)

lemma keeps_createManualDeadline [log_keeps]: "keeps extends (createManualDeadline ctx inp)"
  unfolding createManualDeadline_def Let_def
  by (intro logs.keeps_intros log_keeps keeps_quiet_write) simp_all

lemma keeps_setDeadlineStatus [log_keeps]: "keeps extends (setDeadlineStatus ctx i st)"
  unfolding setDeadlineStatus_def
  by (intro logs.keeps_intros log_keeps keeps_quiet_write) simp_all

subsection \<open>Running the derivation\<close>

type_synonym job = "deadlineKind \<times> calc_result \<times> uid option"

text \<open>A deadline is settled when the row the code would find says what the calculator says.\<close>

definition settled :: "deadline_base \<Rightarrow> deadline list \<Rightarrow> job \<Rightarrow> bool" where
  "settled base rows = (\<lambda>(k, c, disc). \<exists>d. List.find (derives base k disc) rows = Some d \<and>
     dl_dueAt d = cr_date c \<and> dl_computedFrom d = computedFrom c disc)"

definition open_count :: "deadline_base \<Rightarrow> deadline list \<Rightarrow> job \<Rightarrow> nat" where
  "open_count base rows = (\<lambda>(k, c, disc). count_where (derives base k disc) rows)"

definition deadlines_ok :: "world \<Rightarrow> bool" where
  "deadlines_ok s \<longleftrightarrow> distinct (map dl_id (w_deadlines s)) \<and> (\<forall>d \<in> set (w_deadlines s). dl_id d < w_next s)"

definition deadline_jobs :: "tenancy \<Rightarrow> payment_item list \<Rightarrow> job list" where
  "deadline_jobs t items =
     (case noticeGate (tn_endDate t) (of_int (tn_noticePeriodDays t)) of Inl _ \<Rightarrow> []
      | Inr gate \<Rightarrow> [(DK_NOTICE_GATE, gate, None), (DK_CONTRACT_EXPIRY, contractExpiry (tn_endDate t), None),
          (DK_RENEWAL_DATE, renewalDate (tn_endDate t), None)]) @
     map (\<lambda>i. (DK_CHEQUE_DUE, chequeDue (pi_dueDate i), Some (pi_id i))) (activeItems items)"

text \<open>Two jobs never look for the same row.\<close>

definition apart :: "job \<Rightarrow> job \<Rightarrow> bool" where
  "apart = (\<lambda>(k, _, d) (k', _, d'). k \<noteq> k' \<or> (\<exists>i j. d = Some i \<and> d' = Some j \<and> i \<noteq> j))"

lemma apart_sym: "apart a b \<longleftrightarrow> apart b a"
  by (auto simp: apart_def split: prod.splits)

definition refresh :: "calc_result \<Rightarrow> uid option \<Rightarrow> deadline \<Rightarrow> deadline" where
  "refresh c disc r = r\<lparr>dl_dueAt := cr_date c, dl_computedFrom := computedFrom c disc\<rparr>"

definition fresh_deadline :: "deadline_base \<Rightarrow> job \<Rightarrow> uid \<Rightarrow> time \<Rightarrow> deadline" where
  "fresh_deadline base = (\<lambda>(k, c, disc) i now. \<lparr> dl_id = i, dl_workspaceId = db_workspaceId base,
     dl_tenancyId = Some (db_tenancyId base), dl_propertyId = Some (db_propertyId base), dl_kind = k,
     dl_dueAt = cr_date c, dl_status = DL_OPEN, dl_computedFrom = computedFrom c disc, dl_createdAt = now \<rparr>)"

definition step_job :: "deadline_base \<Rightarrow> job \<Rightarrow> unit svc" where
  "step_job base = (\<lambda>(k, c, disc). upsertDeadline base k c disc)"

definition after_job :: "deadline_base \<Rightarrow> job \<Rightarrow> world \<Rightarrow> world" where
  "after_job base = (\<lambda>(k, c, disc) s. case List.find (derives base k disc) (w_deadlines s) of
      Some d \<Rightarrow> s\<lparr>w_deadlines := upd_where (\<lambda>r. dl_id r = dl_id d) (refresh c disc) (w_deadlines s)\<rparr>
    | None \<Rightarrow> s\<lparr>w_next := Suc (w_next s),
        w_deadlines := w_deadlines s @ [fresh_deadline base (k, c, disc) (w_next s) (w_now s)]\<rparr>)"

lemma step_job_eq: "step_job base j s = (Inr (), after_job base j s)"
  by (cases j) (simp add: step_job_def upsertDeadline_def after_job_def op_defs getNow_def newId_def
    refresh_def [abs_def] fresh_deadline_def split: option.splits)

lemma jget_computedFrom [simp]:
  "jget (computedFrom c disc) ''discriminator'' = map_option JId disc"
  by (cases disc) (simp_all add: computedFrom_def)

lemma jget_rule_computedFrom [simp]:
  "jget (computedFrom c disc) ''rule'' = Some (JStr (cr_rule c @ ''_'' @ cr_version c))"
  by (simp add: computedFrom_def)

lemma derives_refresh:
  "derives base k disc r \<Longrightarrow> derives base k disc (refresh c disc r)"
  by (auto simp: derives_def refresh_def split: option.splits)

lemma derives_fresh: "derives base k disc (fresh_deadline base (k, c, disc) i now)"
  by (auto simp: derives_def fresh_deadline_def split: option.splits)

lemma derives_apart:
  assumes "apart (k, c, disc) (k', c', disc')" and "derives base k disc r"
  shows "\<not> derives base k' disc' r" "\<not> derives base k' disc' (refresh c disc r)"
  using assms by (auto simp: apart_def derives_def refresh_def)

lemma fresh_apart:
  "apart (k, c, disc) (k', c', disc') \<Longrightarrow> \<not> derives base k' disc' (fresh_deadline base (k, c, disc) i now)"
  by (auto simp: apart_def derives_def fresh_deadline_def)

lemma find_upd_where_local:
  "(\<And>r. r \<in> set rows \<Longrightarrow> p r \<Longrightarrow> q (f r) = q r) \<Longrightarrow>
   List.find q (upd_where p f rows) = map_option (\<lambda>r. if p r then f r else r) (List.find q rows)"
  by (induction rows) auto

lemma find_upd_where_away:
  assumes "\<And>r. r \<in> set rows \<Longrightarrow> p r \<Longrightarrow> \<not> q r \<and> \<not> q (f r)"
  shows "List.find q (upd_where p f rows) = List.find q rows"
  using assms by (induction rows) auto

lemma count_upd_where_away:
  assumes "\<And>r. r \<in> set rows \<Longrightarrow> p r \<Longrightarrow> q (f r) = q r"
  shows "count_where q (upd_where p f rows) = count_where q rows"
  using assms by (induction rows) auto

lemma same_deadline:
  "deadlines_ok s \<Longrightarrow> r \<in> set (w_deadlines s) \<Longrightarrow> d \<in> set (w_deadlines s) \<Longrightarrow> dl_id r = dl_id d \<Longrightarrow> r = d"
  by (auto simp: deadlines_ok_def distinct_map inj_on_def)

lemma after_job_ok: "deadlines_ok s \<Longrightarrow> deadlines_ok (after_job base j s)"
  by (cases j) (auto simp: after_job_def deadlines_ok_def map_upd_where refresh_def set_upd_where
    fresh_deadline_def less_Suc_eq split: option.splits)

lemma after_job_settles:
  assumes ok: "deadlines_ok s"
  shows "settled base (w_deadlines (after_job base j s)) j"
    and "open_count base (w_deadlines (after_job base j s)) j = max 1 (open_count base (w_deadlines s) j)"
proof -
  obtain k c disc where j: "j = (k, c, disc)" by (cases j)
  let ?q = "derives base k disc"
  have "settled base (w_deadlines (after_job base j s)) j \<and>
    open_count base (w_deadlines (after_job base j s)) j = max 1 (open_count base (w_deadlines s) j)"
  proof (cases "List.find ?q (w_deadlines s)")
    case None
    then have "count_where ?q (w_deadlines s) = 0" by (simp add: find_None_all count_where_0_iff)
    with None show ?thesis
      by (simp add: j after_job_def settled_def open_count_def find_append derives_fresh)
        (simp add: fresh_deadline_def)
  next
    case (Some d)
    have d: "d \<in> set (w_deadlines s)" "?q d" using find_Some_in [OF Some] by auto
    have q: "?q (refresh c disc r) = ?q r" if "r \<in> set (w_deadlines s)" "dl_id r = dl_id d" for r
      using same_deadline [OF ok that(1) d(1) that(2)] d(2) derives_refresh by simp
    have pos: "0 < count_where ?q (w_deadlines s)" using d by (auto simp: count_where_pos_iff)
    have "List.find ?q (upd_where (\<lambda>r. dl_id r = dl_id d) (refresh c disc) (w_deadlines s)) =
        Some (refresh c disc d)"
      by (subst find_upd_where_local) (use q Some in simp_all)
    moreover have "count_where ?q (upd_where (\<lambda>r. dl_id r = dl_id d) (refresh c disc) (w_deadlines s)) =
        count_where ?q (w_deadlines s)"
      by (rule count_upd_where_away) (use q in blast)
    ultimately show ?thesis
      using pos by (simp add: j after_job_def settled_def open_count_def Some) (simp add: refresh_def)
  qed
  then show "settled base (w_deadlines (after_job base j s)) j"
    and "open_count base (w_deadlines (after_job base j s)) j = max 1 (open_count base (w_deadlines s) j)"
    by simp_all
qed

lemma after_job_apart:
  assumes ok: "deadlines_ok s" and a: "apart j j'"
  shows "settled base (w_deadlines (after_job base j s)) j' \<longleftrightarrow> settled base (w_deadlines s) j'"
    and "open_count base (w_deadlines (after_job base j s)) j' = open_count base (w_deadlines s) j'"
proof -
  obtain k c disc where j: "j = (k, c, disc)" by (cases j)
  obtain k' c' disc' where j': "j' = (k', c', disc')" by (cases j')
  note a = a [unfolded j j']
  let ?q = "derives base k' disc'" and ?rows = "w_deadlines (after_job base j s)"
  have "List.find ?q ?rows = List.find ?q (w_deadlines s) \<and>
    count_where ?q ?rows = count_where ?q (w_deadlines s)"
  proof (cases "List.find (derives base k disc) (w_deadlines s)")
    case None
    then show ?thesis
      by (simp add: j after_job_def find_append fresh_apart [OF a] split: option.splits)
  next
    case (Some d)
    have d: "d \<in> set (w_deadlines s)" "derives base k disc d" using find_Some_in [OF Some] by auto
    have q: "\<not> ?q r \<and> \<not> ?q (refresh c disc r)" if "r \<in> set (w_deadlines s)" "dl_id r = dl_id d" for r
      using same_deadline [OF ok that(1) d(1) that(2)] d(2) derives_apart [OF a] by simp
    then show ?thesis
      by (simp add: j after_job_def Some find_upd_where_away count_upd_where_away)
  qed
  then show "settled base ?rows j' \<longleftrightarrow> settled base (w_deadlines s) j'"
    and "open_count base ?rows j' = open_count base (w_deadlines s) j'"
    by (simp_all add: settled_def open_count_def j')
qed

lemma after_job_settled:
  assumes ok: "deadlines_ok s" and st: "settled base (w_deadlines s) j"
  shows "after_job base j s = s"
proof -
  obtain k c disc where j: "j = (k, c, disc)" by (cases j)
  obtain d where d: "List.find (derives base k disc) (w_deadlines s) = Some d"
    "dl_dueAt d = cr_date c" "dl_computedFrom d = computedFrom c disc"
    using st by (auto simp: settled_def j)
  have "refresh c disc r = r" if "r \<in> set (w_deadlines s)" "dl_id r = dl_id d" for r
    using same_deadline [OF ok that(1) _ that(2)] find_Some_in [OF d(1)] d(2,3) by (simp add: refresh_def)
  then have "upd_where (\<lambda>r. dl_id r = dl_id d) (refresh c disc) (w_deadlines s) = w_deadlines s"
    by (auto simp: upd_where_def map_idI)
  then show ?thesis by (simp add: j after_job_def d(1))
qed

definition run_jobs :: "deadline_base \<Rightarrow> job list \<Rightarrow> world \<Rightarrow> world" where
  "run_jobs base js s = fold (after_job base) js s"

lemma forE_jobs: "forE xs (\<lambda>x. step_job base (f x)) s = (Inr (), run_jobs base (map f xs) s)"
  by (induction xs arbitrary: s) (simp_all add: run_jobs_def op_eval bindE_apply step_job_eq)

lemma run_jobs_ok: "deadlines_ok s \<Longrightarrow> deadlines_ok (run_jobs base js s)"
  unfolding run_jobs_def by (induction js arbitrary: s) (simp_all add: after_job_ok)

lemma run_jobs_apart:
  assumes "deadlines_ok s" "\<forall>j' \<in> set js. apart j' j"
  shows "settled base (w_deadlines (run_jobs base js s)) j \<longleftrightarrow> settled base (w_deadlines s) j"
    and "open_count base (w_deadlines (run_jobs base js s)) j = open_count base (w_deadlines s) j"
  using assms unfolding run_jobs_def
  by (induction js arbitrary: s) (simp_all add: after_job_apart after_job_ok)

lemma run_jobs_done:
  assumes "deadlines_ok s" "pairwise apart (set js)" "distinct js" "j \<in> set js"
  shows "settled base (w_deadlines (run_jobs base js s)) j \<and>
    open_count base (w_deadlines (run_jobs base js s)) j = max 1 (open_count base (w_deadlines s) j)"
  using assms
proof (induction js arbitrary: s)
  case (Cons a js)
  let ?s = "after_job base a s"
  have ok: "deadlines_ok ?s" using Cons.prems(1) by (rule after_job_ok)
  have run: "run_jobs base (a # js) s = run_jobs base js ?s" by (simp add: run_jobs_def)
  show ?case
  proof (cases "j = a")
    case True
    have "\<forall>j' \<in> set js. apart j' a" using Cons.prems(2,3) by (auto simp: pairwise_def)
    with run_jobs_apart [OF ok] after_job_settles [OF Cons.prems(1)] True run show ?thesis by simp
  next
    case False
    then have "j \<in> set js" "apart a j" using Cons.prems(2,4) by (auto simp: pairwise_def)
    moreover have "pairwise apart (set js)" using Cons.prems(2) by (auto simp: pairwise_def)
    ultimately show ?thesis
      using Cons.IH [OF ok, of] Cons.prems(3) after_job_apart [OF Cons.prems(1), of a j] run by simp
  qed
qed simp

lemma run_jobs_settled:
  "deadlines_ok s \<Longrightarrow> \<forall>j \<in> set js. settled base (w_deadlines s) j \<Longrightarrow> run_jobs base js s = s"
  unfolding run_jobs_def by (induction js) (simp_all add: after_job_settled)

lemma after_job_frame:
  "w_tenancies (after_job base j s) = w_tenancies s" "w_payments (after_job base j s) = w_payments s"
  by (cases j; simp add: after_job_def split: option.splits)+

lemma run_jobs_frame:
  "w_tenancies (run_jobs base js s) = w_tenancies s" "w_payments (run_jobs base js s) = w_payments s"
  unfolding run_jobs_def by (induction js arbitrary: s) (simp_all add: after_job_frame)

text \<open>The last loop cancels exactly the stale cheque deadlines.\<close>

definition cancelled :: "deadline \<Rightarrow> deadline" where
  "cancelled d = d\<lparr>dl_status := DL_CANCELLED\<rparr>"

lemma forE_cancel:
  "forE ds (\<lambda>d. whenE (st d) (cancelDeadline d)) s = (Inr (),
     s\<lparr>w_deadlines := upd_where (\<lambda>r. \<exists>d \<in> set ds. st d \<and> dl_id r = dl_id d) cancelled (w_deadlines s)\<rparr>)"
proof (induction ds arbitrary: s)
  case Nil
  then show ?case by (simp add: op_eval upd_where_id)
next
  case (Cons a ds)
  have "upd_where (\<lambda>r. \<exists>d \<in> set ds. st d \<and> dl_id r = dl_id d) cancelled
      (upd_where (\<lambda>r. dl_id r = dl_id a) cancelled rows) =
    upd_where (\<lambda>r. dl_id r = dl_id a \<or> (\<exists>d \<in> set ds. st d \<and> dl_id r = dl_id d)) cancelled rows" for rows
    by (induction rows) (auto simp: cancelled_def)
  moreover define body where "body = (\<lambda>d. whenE (st d) (cancelDeadline d))"
  moreover have "body a s = (Inr (), if st a
      then s\<lparr>w_deadlines := upd_where (\<lambda>r. dl_id r = dl_id a) cancelled (w_deadlines s)\<rparr> else s)"
    by (simp add: body_def whenE_eval cancelDeadline_def writeE_eval cancelled_def [abs_def])
  ultimately show ?case
    unfolding body_def [symmetric] using Cons.IH [folded body_def] by (simp add: bindE_apply)
qed

definition drop_stale :: "uid \<Rightarrow> uid list \<Rightarrow> world \<Rightarrow> world" where
  "drop_stale i liveIds s = s\<lparr>w_deadlines := upd_where (\<lambda>r. cheque_open i r \<and> stale liveIds r) cancelled
     (w_deadlines s)\<rparr>"

lemma cancel_stale:
  assumes "deadlines_ok s"
  shows "forE (filter (cheque_open i) (w_deadlines s)) (\<lambda>d. whenE (stale live d) (cancelDeadline d)) s =
    (Inr (), drop_stale i live s)"
proof -
  have "(\<exists>d \<in> set (filter (cheque_open i) (w_deadlines s)). stale live d \<and> dl_id r = dl_id d) \<longleftrightarrow>
      cheque_open i r \<and> stale live r" if "r \<in> set (w_deadlines s)" for r
    using same_deadline [OF assms that] that by auto
  then have "upd_where (\<lambda>r. \<exists>d \<in> set (filter (cheque_open i) (w_deadlines s)). stale live d \<and> dl_id r = dl_id d)
      cancelled (w_deadlines s) = upd_where (\<lambda>r. cheque_open i r \<and> stale live r) cancelled (w_deadlines s)"
    unfolding upd_where_def by (intro map_cong refl) simp
  then show ?thesis by (simp add: forE_cancel drop_stale_def)
qed

lemma drop_stale_ok: "deadlines_ok s \<Longrightarrow> deadlines_ok (drop_stale i live s)"
  by (auto simp: drop_stale_def deadlines_ok_def map_upd_where cancelled_def set_upd_where)

lemma drop_stale_no_stale:
  "d \<in> set (w_deadlines (drop_stale i live s)) \<Longrightarrow> cheque_open i d \<Longrightarrow> \<not> stale live d"
  by (auto simp: drop_stale_def set_upd_where cancelled_def cheque_open_def split: if_splits)

lemma drop_stale_noop:
  "\<forall>d \<in> set (w_deadlines s). cheque_open i d \<longrightarrow> \<not> stale live d \<Longrightarrow> drop_stale i live s = s"
  by (simp add: drop_stale_def upd_where_id)

lemma drop_stale_away:
  assumes "j = (k, c, disc)" and "k = DK_CHEQUE_DUE \<Longrightarrow> \<exists>l \<in> set live. disc = Some l"
  shows "settled base (w_deadlines (drop_stale i live s)) j \<longleftrightarrow> settled base (w_deadlines s) j"
    and "open_count base (w_deadlines (drop_stale i live s)) j = open_count base (w_deadlines s) j"
proof -
  have "\<not> derives base k disc r \<and> \<not> derives base k disc (cancelled r)"
    if "cheque_open i r \<and> stale live r" for r
    using that assms(2) by (auto simp: derives_def cheque_open_def stale_def cancelled_def split: option.splits)
  then show "settled base (w_deadlines (drop_stale i live s)) j \<longleftrightarrow> settled base (w_deadlines s) j"
    and "open_count base (w_deadlines (drop_stale i live s)) j = open_count base (w_deadlines s) j"
    by (simp_all add: settled_def open_count_def drop_stale_def assms(1) find_upd_where_away
      count_upd_where_away)
qed

subsection \<open>What a regeneration leaves\<close>

definition live_items :: "uid \<Rightarrow> world \<Rightarrow> payment_item list" where
  "live_items i s = activeItems (payments_of i s)"

definition date_jobs :: "tenancy \<Rightarrow> calc_result \<Rightarrow> job list" where
  "date_jobs t gate = [(DK_NOTICE_GATE, gate, None), (DK_CONTRACT_EXPIRY, contractExpiry (tn_endDate t), None),
     (DK_RENEWAL_DATE, renewalDate (tn_endDate t), None)]"

definition cheque_jobs :: "payment_item list \<Rightarrow> job list" where
  "cheque_jobs items = map (\<lambda>i. (DK_CHEQUE_DUE, chequeDue (pi_dueDate i), Some (pi_id i))) items"

definition write_gate :: "uid \<Rightarrow> calc_result \<Rightarrow> world \<Rightarrow> world" where
  "write_gate i gate s = s\<lparr>w_tenancies := upd_where (\<lambda>r. tn_id r = i)
     (\<lambda>r. r\<lparr>tn_noticeGateAt := Some (cr_date gate)\<rparr>) (w_tenancies s)\<rparr>"

definition regenerated :: "tenancy \<Rightarrow> calc_result \<Rightarrow> world \<Rightarrow> world" where
  "regenerated t gate s =
     drop_stale (tn_id t) (map pi_id (live_items (tn_id t) s))
       (run_jobs (base_of t) (cheque_jobs (live_items (tn_id t) s))
         (write_gate (tn_id t) gate (run_jobs (base_of t) (date_jobs t gate) s)))"

lemma write_gate_frame [simp]:
  "w_deadlines (write_gate i g s) = w_deadlines s" "w_payments (write_gate i g s) = w_payments s"
  "w_next (write_gate i g s) = w_next s"
  by (simp_all add: write_gate_def)

lemma write_gate_ok: "deadlines_ok s \<Longrightarrow> deadlines_ok (write_gate i g s)"
  by (simp add: deadlines_ok_def)

lemma upsert_job: "upsertDeadline base k c disc s = (Inr (), after_job base (k, c, disc) s)"
  using step_job_eq [of base "(k, c, disc)" s] by (simp add: step_job_def)

lemma regenerate_live:
  assumes "deadlines_ok s" and "List.find (\<lambda>t. tn_id t = i) (w_tenancies s) = Some t"
    and "tn_archivedAt t = None" and "noticeGate (tn_endDate t) (of_int (tn_noticePeriodDays t)) = Inr gate"
  shows "regenerateDeadlinesForTenancy i s = (Inr (), regenerated t gate s)"
proof -
  have i: "tn_id t = i" using find_Some_in [OF assms(2)] by simp
  let ?b = "base_of t" and ?items = "activeItems (payments_of i s)"
  let ?s3 = "run_jobs ?b (cheque_jobs ?items) (write_gate i gate (run_jobs ?b (date_jobs t gate) s))"
  have three: "after_job ?b (DK_RENEWAL_DATE, renewalDate (tn_endDate t), None)
      (after_job ?b (DK_CONTRACT_EXPIRY, contractExpiry (tn_endDate t), None)
        (after_job ?b (DK_NOTICE_GATE, gate, None) s)) = run_jobs ?b (date_jobs t gate) s"
    by (simp add: run_jobs_def date_jobs_def)
  have loop: "forE ?items (\<lambda>i. upsertDeadline ?b DK_CHEQUE_DUE (chequeDue (pi_dueDate i)) (Some (pi_id i))) u =
      (Inr (), run_jobs ?b (cheque_jobs ?items) u)" for u
    using forE_jobs [of ?items ?b "\<lambda>i. (DK_CHEQUE_DUE, chequeDue (pi_dueDate i), Some (pi_id i))" u]
    by (simp add: step_job_def cheque_jobs_def)
  have ok: "deadlines_ok ?s3" using assms(1) by (intro run_jobs_ok write_gate_ok)
  have wr: "writeE (\<lambda>s. s\<lparr>w_tenancies := upd_where (\<lambda>r. tn_id r = i)
      (\<lambda>r. r\<lparr>tn_noticeGateAt := Some (cr_date gate)\<rparr>) (w_tenancies s)\<rparr>) u = (Inr (), write_gate i gate u)" for u
    by (simp add: writeE_eval write_gate_def)
  show ?thesis
    unfolding regenerateDeadlinesForTenancy_def
    by (simp add: bindE_apply readE_eval liftE_eval someE_eval assms(2-4) i upsert_job three wr loop
      cancel_stale [OF ok] regenerated_def live_items_def)
qed

lemma jobs_apart:
  assumes "distinct (map pi_id items)"
  shows "pairwise apart (set (date_jobs t gate @ cheque_jobs items))"
    "distinct (date_jobs t gate @ cheque_jobs items)"
proof -
  have "distinct (cheque_jobs items)"
    using assms by (auto simp: cheque_jobs_def distinct_map inj_on_def)
  then show "distinct (date_jobs t gate @ cheque_jobs items)"
    by (auto simp: date_jobs_def cheque_jobs_def)
  have "x = y" if "x \<in> set items" "y \<in> set items" "pi_id x = pi_id y" for x y
    using assms that by (auto simp: distinct_map inj_on_def)
  then show "pairwise apart (set (date_jobs t gate @ cheque_jobs items))"
    by (auto simp: pairwise_def date_jobs_def cheque_jobs_def apart_def)
qed

lemma apart_across:
  assumes "a \<in> set (date_jobs t gate)" and "b \<in> set (cheque_jobs items)"
  shows "apart a b" "apart b a"
  using assms by (auto simp: date_jobs_def cheque_jobs_def apart_def)

lemma deadline_jobs_eq:
  "noticeGate (tn_endDate t) (of_int (tn_noticePeriodDays t)) = Inr gate \<Longrightarrow>
   deadline_jobs t items = date_jobs t gate @ cheque_jobs (activeItems items)"
  by (simp add: deadline_jobs_def date_jobs_def cheque_jobs_def)

lemma live_items_distinct: "distinct (map pi_id (w_payments s)) \<Longrightarrow> distinct (map pi_id (live_items i s))"
  by (auto simp: live_items_def activeItems_def payments_of_def distinct_map intro: inj_on_subset)

lemma regenerated_ok: "deadlines_ok s \<Longrightarrow> deadlines_ok (regenerated t gate s)"
  unfolding regenerated_def by (intro drop_stale_ok run_jobs_ok write_gate_ok)

lemma regenerated_jobs:
  assumes ok: "deadlines_ok s" and "distinct (map pi_id (w_payments s))"
    and j: "j \<in> set (date_jobs t gate @ cheque_jobs (live_items (tn_id t) s))"
  shows "settled (base_of t) (w_deadlines (regenerated t gate s)) j \<and>
    open_count (base_of t) (w_deadlines (regenerated t gate s)) j =
      max 1 (open_count (base_of t) (w_deadlines s) j)"
proof -
  let ?b = "base_of t" and ?items = "live_items (tn_id t) s"
  let ?s1 = "run_jobs ?b (date_jobs t gate) s"
  let ?s2 = "write_gate (tn_id t) gate ?s1"
  let ?s3 = "run_jobs ?b (cheque_jobs ?items) ?s2"
  note ap = jobs_apart [OF live_items_distinct [OF assms(2)], of t gate "tn_id t"]
  have ok1: "deadlines_ok ?s1" and ok2: "deadlines_ok ?s2"
    using ok by (auto intro: run_jobs_ok write_gate_ok)
  have three: "settled ?b (w_deadlines ?s3) j \<and>
      open_count ?b (w_deadlines ?s3) j = max 1 (open_count ?b (w_deadlines s) j)"
  proof (cases "j \<in> set (date_jobs t gate)")
    case True
    have "\<forall>j' \<in> set (cheque_jobs ?items). apart j' j"
      using True apart_across(2) by blast
    then show ?thesis
      using run_jobs_apart [OF ok2] run_jobs_done [OF ok _ _ True, of ?b] ap
      by (auto simp: pairwise_def)
  next
    case False
    then have c: "j \<in> set (cheque_jobs ?items)" using j by simp
    have "\<forall>j' \<in> set (date_jobs t gate). apart j' j"
      using c apart_across(1) by blast
    then have "open_count ?b (w_deadlines ?s2) j = open_count ?b (w_deadlines s) j"
      using run_jobs_apart(2) [OF ok] by simp
    then show ?thesis using run_jobs_done [OF ok2 _ _ c, of ?b] ap by (auto simp: pairwise_def)
  qed
  obtain k c disc where jk: "j = (k, c, disc)" by (cases j)
  have "k = DK_CHEQUE_DUE \<Longrightarrow> \<exists>l \<in> set (map pi_id ?items). disc = Some l"
    using j jk by (auto simp: date_jobs_def cheque_jobs_def)
  from drop_stale_away [OF jk this] three show ?thesis
    by (simp add: regenerated_def)
qed

lemma regenerated_live_items: "live_items i (regenerated t gate s) = live_items i s"
  by (simp add: live_items_def payments_of_def regenerated_def drop_stale_def run_jobs_frame)

lemma regenerated_tenancies:
  "w_tenancies (regenerated t gate s) = upd_where (\<lambda>r. tn_id r = tn_id t)
     (\<lambda>r. r\<lparr>tn_noticeGateAt := Some (cr_date gate)\<rparr>) (w_tenancies s)"
  by (simp add: regenerated_def drop_stale_def run_jobs_frame write_gate_def)

text \<open>
  The rest of the calendar: a row may change only where it is an open one of the tenancy and of a
  derived kind, and then keeps its identity; the rows that appear are of the tenancy and of a
  derived kind too.
\<close>

definition derived_kinds :: "deadlineKind set" where
  "derived_kinds = {DK_NOTICE_GATE, DK_CONTRACT_EXPIRY, DK_RENEWAL_DATE, DK_CHEQUE_DUE}"

definition calendar_row :: "uid \<Rightarrow> deadline \<Rightarrow> deadline \<Rightarrow> bool" where
  "calendar_row i r r' \<longleftrightarrow> dl_id r' = dl_id r \<and> dl_kind r' = dl_kind r \<and> dl_tenancyId r' = dl_tenancyId r \<and>
     (r' = r \<or> dl_tenancyId r = Some i \<and> dl_status r = DL_OPEN \<and> dl_kind r \<in> derived_kinds)"

definition calendar_moved :: "uid \<Rightarrow> deadline list \<Rightarrow> deadline list \<Rightarrow> bool" where
  "calendar_moved i old now \<longleftrightarrow> (\<exists>rows new. now = rows @ new \<and> list_all2 (calendar_row i) old rows \<and>
     (\<forall>d \<in> set new. dl_tenancyId d = Some i \<and> dl_kind d \<in> derived_kinds))"

lemma calendar_row_trans: "calendar_row i a b \<Longrightarrow> calendar_row i b c \<Longrightarrow> calendar_row i a c"
  by (auto simp: calendar_row_def)

lemma calendar_rowI: "list_all2 (calendar_row i) rows rows"
  by (simp add: list_all2_same calendar_row_def)

lemma calendar_moved_refl: "calendar_moved i rows rows"
  unfolding calendar_moved_def using calendar_rowI by (intro exI [of _ rows] exI [of _ "[]"]) simp

lemma calendar_moved_trans:
  assumes "calendar_moved i a b" and "calendar_moved i b c"
  shows "calendar_moved i a c"
proof -
  obtain r1 n1 where 1: "b = r1 @ n1" "list_all2 (calendar_row i) a r1"
      "\<forall>d \<in> set n1. dl_tenancyId d = Some i \<and> dl_kind d \<in> derived_kinds"
    using assms(1) unfolding calendar_moved_def by blast
  obtain r2 n2 where 2: "c = r2 @ n2" "list_all2 (calendar_row i) b r2"
      "\<forall>d \<in> set n2. dl_tenancyId d = Some i \<and> dl_kind d \<in> derived_kinds"
    using assms(2) unfolding calendar_moved_def by blast
  from 1(1) 2(2) obtain x y where xy: "r2 = x @ y" "list_all2 (calendar_row i) r1 x" "list_all2 (calendar_row i) n1 y"
    by (auto simp: list_all2_append1)
  have "list_all2 (calendar_row i) a x"
    by (rule list_all2_trans [OF _ 1(2) xy(2)]) (rule calendar_row_trans)
  moreover have "\<forall>d \<in> set y. dl_tenancyId d = Some i \<and> dl_kind d \<in> derived_kinds"
    using xy(3) 1(3) by (fastforce simp: list_all2_conv_all_nth in_set_conv_nth calendar_row_def)
  ultimately show ?thesis
    unfolding calendar_moved_def using 2(1,3) xy(1) by (intro exI [of _ x] exI [of _ "y @ n2"]) auto
qed

lemma calendar_moved_upd:
  assumes "\<And>r. r \<in> set rows \<Longrightarrow> p r \<Longrightarrow> calendar_row i r (f r)"
  shows "calendar_moved i rows (upd_where p f rows)"
proof -
  have "list_all2 (calendar_row i) rows (upd_where p f rows)"
    using assms by (auto simp: list_all2_conv_all_nth upd_where_def calendar_row_def)
  then show ?thesis unfolding calendar_moved_def by (intro exI [of _ "upd_where p f rows"] exI [of _ "[]"]) simp
qed

lemma after_job_calendar:
  assumes ok: "deadlines_ok s" and k: "k \<in> derived_kinds"
  shows "calendar_moved (db_tenancyId base) (w_deadlines s) (w_deadlines (after_job base (k, c, disc) s))"
proof (cases "List.find (derives base k disc) (w_deadlines s)")
  case None
  then show ?thesis
    unfolding calendar_moved_def using k calendar_rowI
    by (intro exI [of _ "w_deadlines s"] exI [of _ "[fresh_deadline base (k, c, disc) (w_next s) (w_now s)]"])
      (simp add: after_job_def fresh_deadline_def)
next
  case (Some d)
  have d: "d \<in> set (w_deadlines s)" "derives base k disc d" using find_Some_in [OF Some] by auto
  have "calendar_row (db_tenancyId base) r (refresh c disc r)" if "r \<in> set (w_deadlines s)" "dl_id r = dl_id d" for r
    using same_deadline [OF ok that(1) d(1) that(2)] d(2) k by (auto simp: calendar_row_def refresh_def derives_def)
  then show ?thesis by (simp add: after_job_def Some calendar_moved_upd)
qed

lemma run_jobs_calendar:
  assumes "deadlines_ok s" and "\<forall>j \<in> set js. fst j \<in> derived_kinds"
  shows "calendar_moved (db_tenancyId base) (w_deadlines s) (w_deadlines (run_jobs base js s))"
  using assms
proof (induction js arbitrary: s)
  case Nil
  then show ?case by (simp add: run_jobs_def calendar_moved_refl)
next
  case (Cons j js)
  have "calendar_moved (db_tenancyId base) (w_deadlines s) (w_deadlines (after_job base j s))"
    using Cons.prems after_job_calendar by (cases j) auto
  moreover have "calendar_moved (db_tenancyId base) (w_deadlines (after_job base j s))
      (w_deadlines (run_jobs base js (after_job base j s)))"
    using Cons.prems by (intro Cons.IH after_job_ok) simp_all
  ultimately show ?case unfolding run_jobs_def fold_simps o_apply by (rule calendar_moved_trans)
qed

lemma regenerated_calendar:
  assumes "deadlines_ok s"
  shows "calendar_moved (tn_id t) (w_deadlines s) (w_deadlines (regenerated t gate s))"
proof -
  have b: "db_tenancyId (base_of t) = tn_id t" by (simp add: base_of_def)
  let ?live = "live_items (tn_id t) s"
  let ?s1 = "run_jobs (base_of t) (date_jobs t gate) s"
  let ?s2 = "write_gate (tn_id t) gate ?s1"
  let ?s3 = "run_jobs (base_of t) (cheque_jobs ?live) ?s2"
  have "calendar_moved (tn_id t) (w_deadlines s) (w_deadlines ?s1)"
    using run_jobs_calendar [OF assms, of "date_jobs t gate" "base_of t"] b by (simp add: date_jobs_def derived_kinds_def)
  moreover have "calendar_moved (tn_id t) (w_deadlines ?s1) (w_deadlines ?s3)"
    using run_jobs_calendar [of ?s2 "cheque_jobs ?live" "base_of t"] assms b
    by (simp add: cheque_jobs_def derived_kinds_def run_jobs_ok write_gate_ok)
  moreover have "calendar_moved (tn_id t) (w_deadlines ?s3) (w_deadlines (drop_stale (tn_id t) (map pi_id ?live) ?s3))"
    unfolding drop_stale_def
    by (simp, rule calendar_moved_upd) (auto simp: calendar_row_def cancelled_def cheque_open_def derived_kinds_def)
  ultimately show ?thesis unfolding regenerated_def by (meson calendar_moved_trans)
qed


text \<open>
  regenerating twice is regenerating once: the second run of an unchanged tenancy leaves the
  whole database as it is, so the many callers that regenerate after every write cannot churn the
  calendar.
\<close>

theorem regenerate_idempotent:
  assumes "deadlines_ok s" and "distinct (map pi_id (w_payments s))"
    and "List.find (\<lambda>t. tn_id t = i) (w_tenancies s) = Some t" and "tn_archivedAt t = None"
    and "regenerateDeadlinesForTenancy i s = (Inr (), u)"
  shows "regenerateDeadlinesForTenancy i u = (Inr (), u)"
proof -
  have i: "tn_id t = i" using find_Some_in [OF assms(3)] by simp
  obtain gate where g: "noticeGate (tn_endDate t) (of_int (tn_noticePeriodDays t)) = Inr gate"
    using assms(5) unfolding regenerateDeadlinesForTenancy_def
    by (auto simp: op_ok assms(3,4) someE_eval)
  have u: "u = regenerated t gate s" using regenerate_live [OF assms(1,3,4) g] assms(5) by simp
  let ?t = "t\<lparr>tn_noticeGateAt := Some (cr_date gate)\<rparr>"
  have find: "List.find (\<lambda>t. tn_id t = i) (w_tenancies u) = Some ?t"
    using assms(3) i by (simp add: u regenerated_tenancies find_upd_where_same)
  have ok: "deadlines_ok u" using regenerated_ok [OF assms(1)] by (simp add: u)
  have g': "noticeGate (tn_endDate ?t) (of_int (tn_noticePeriodDays ?t)) = Inr gate" using g by simp
  have base: "base_of ?t = base_of t" by (simp add: base_of_def)
  have items: "live_items i u = live_items i s" by (simp add: u regenerated_live_items)
  have jobs: "settled (base_of t) (w_deadlines u) j"
    if "j \<in> set (date_jobs t gate) \<union> set (cheque_jobs (live_items i s))" for j
    using regenerated_jobs [OF assms(1,2), of j t gate] that i by (simp add: u)
  have "run_jobs (base_of t) (date_jobs t gate) u = u"
    and "run_jobs (base_of t) (cheque_jobs (live_items i s)) u = u"
    using jobs by (auto intro!: run_jobs_settled ok)
  moreover have "write_gate i gate u = u"
  proof -
    have "upd_where (\<lambda>r. tn_id r = i) (\<lambda>r. r\<lparr>tn_noticeGateAt := Some (cr_date gate)\<rparr>)
        (upd_where (\<lambda>r. tn_id r = i) (\<lambda>r. r\<lparr>tn_noticeGateAt := Some (cr_date gate)\<rparr>) rows) =
      upd_where (\<lambda>r. tn_id r = i) (\<lambda>r. r\<lparr>tn_noticeGateAt := Some (cr_date gate)\<rparr>) rows" for rows
      by (induction rows) simp_all
    then have "upd_where (\<lambda>r. tn_id r = i) (\<lambda>r. r\<lparr>tn_noticeGateAt := Some (cr_date gate)\<rparr>) (w_tenancies u)
        = w_tenancies u" by (simp add: u regenerated_tenancies i)
    then show ?thesis by (simp add: write_gate_def)
  qed
  moreover have "drop_stale i (map pi_id (live_items i s)) u = u"
    using drop_stale_no_stale i by (intro drop_stale_noop) (simp add: u regenerated_def)
  moreover have "date_jobs ?t gate = date_jobs t gate" by (simp add: date_jobs_def)
  ultimately have "regenerated ?t gate u = u"
    by (simp add: regenerated_def base i items)
  with regenerate_live [OF ok find _ g'] assms(4) show ?thesis by simp
qed

lemma regenerate_archived:
  assumes "List.find (\<lambda>t. tn_id t = i) (w_tenancies s) = Some t" and "tn_archivedAt t \<noteq> None"
  shows "\<exists>u. regenerateDeadlinesForTenancy i s = (Inr (), u) \<and>
    (\<forall>d \<in> set (w_deadlines u). dl_tenancyId d = Some i \<longrightarrow> dl_status d \<noteq> DL_OPEN) \<and>
    filter (\<lambda>d. dl_tenancyId d \<noteq> Some i) (w_deadlines u) = filter (\<lambda>d. dl_tenancyId d \<noteq> Some i) (w_deadlines s)"
proof -
  let ?rows = "\<lambda>rows. upd_where (\<lambda>d. dl_tenancyId d = Some i \<and> dl_status d = DL_OPEN)
    (\<lambda>d. d\<lparr>dl_status := DL_CANCELLED\<rparr>) rows"
  have "filter (\<lambda>d. dl_tenancyId d \<noteq> Some i) (?rows rows) = filter (\<lambda>d. dl_tenancyId d \<noteq> Some i) rows" for rows
    by (induction rows) auto
  moreover have "\<forall>d \<in> set (?rows (w_deadlines s)). dl_tenancyId d = Some i \<longrightarrow> dl_status d \<noteq> DL_OPEN"
    by (auto simp: set_upd_where)
  ultimately show ?thesis
    using assms by (simp add: regenerateDeadlinesForTenancy_def bindE_apply readE_eval someE_eval writeE_eval)
qed

text \<open>
  archiving a tenancy silences it: a regeneration of an archived tenancy leaves no open
  deadline of the tenancy, of whatever kind and however made, and touches no other deadline.
\<close>

theorem archived_tenancy_has_no_open_deadline:
  assumes "List.find (\<lambda>t. tn_id t = i) (w_tenancies s) = Some t" and "tn_archivedAt t \<noteq> None"
  shows "\<exists>u. regenerateDeadlinesForTenancy i s = (Inr (), u) \<and>
    (\<forall>d \<in> set (w_deadlines u). dl_tenancyId d = Some i \<longrightarrow> dl_status d \<noteq> DL_OPEN) \<and>
    filter (\<lambda>d. dl_tenancyId d \<noteq> Some i) (w_deadlines u) = filter (\<lambda>d. dl_tenancyId d \<noteq> Some i) (w_deadlines s)"
  using assms by (rule regenerate_archived)

subsection \<open>Witnesses\<close>

lemma sample_regenerate:
  "deadlines_ok sample_world" "distinct (map pi_id (w_payments sample_world))"
  "List.find (\<lambda>t. tn_id t = 51) (w_tenancies sample_world) = Some sample_tenancy"
  "tn_archivedAt sample_tenancy = None" "0 < tn_noticePeriodDays sample_tenancy"
  by (simp_all add: deadlines_ok_def sample_defs)


theorem regenerate_idempotent_witness:
  "\<exists>u. regenerateDeadlinesForTenancy 51 sample_world = (Inr (), u) \<and>
    regenerateDeadlinesForTenancy 51 u = (Inr (), u)"
proof -
  obtain gate where g: "noticeGate (tn_endDate sample_tenancy)
      (of_int (tn_noticePeriodDays sample_tenancy)) = Inr gate"
    using sample_regenerate(5) by (auto simp: noticeGate_ok)
  note run = regenerate_live [OF sample_regenerate(1,3,4) g]
  show ?thesis using run regenerate_idempotent [OF sample_regenerate(1-4) run] by blast
qed

theorem archived_tenancy_has_no_open_deadline_witness:
  "\<exists>u. regenerateDeadlinesForTenancy 51
      (sample_world\<lparr>w_tenancies := [sample_tenancy\<lparr>tn_archivedAt := Some 7\<rparr>]\<rparr>) = (Inr (), u)"
  using archived_tenancy_has_no_open_deadline [of 51
    "sample_world\<lparr>w_tenancies := [sample_tenancy\<lparr>tn_archivedAt := Some 7\<rparr>]\<rparr>"
    "sample_tenancy\<lparr>tn_archivedAt := Some 7\<rparr>"]
  by (auto simp: sample_tenancy_def)

subsection \<open>The permit deadline and manual entries\<close>

lemma permit_row_refresh:
  "permit_row l d \<Longrightarrow> permit_row l (d\<lparr>dl_dueAt := t, dl_computedFrom := permit_computed l\<rparr>)"
  by (simp add: permit_row_def permit_computed_def)

lemma count_le_1_find:
  assumes "count_where q rows \<le> 1" and "List.find q rows = Some d" and "distinct (map k rows)"
    and "r \<in> set rows" and "q r"
  shows "r = d"
proof -
  have d: "d \<in> set rows" "q d" using find_Some_in [OF assms(2)] by auto
  have "distinct (filter q rows)" using assms(3) by (simp add: distinct_map)
  moreover have "length (filter q rows) \<le> 1" using assms(1) by (simp add: count_where_def)
  ultimately have "card (set (filter q rows)) \<le> 1" by (metis distinct_card)
  moreover have "{r, d} \<subseteq> set (filter q rows)" using d assms(4,5) by simp
  ultimately show ?thesis by (metis List.finite_set card_le_Suc0_iff_eq insert_subset One_nat_def)
qed

text \<open>
  a listing never has two open permit deadlines. When there is at most one, a sync leaves
  exactly one for a listing that is live and has a permit expiry, due at the midnight of that
  expiry, and none for a listing that is archived or whose expiry was cleared.
\<close>

theorem permit_deadline_in_sync:
  assumes "deadlines_ok s" and "count_where (permit_row l) (w_deadlines s) \<le> 1"
  shows "\<exists>r u. syncListingPermitDeadline l s = (Inr r, u) \<and> deadlines_ok u \<and>
    count_where (permit_row l) (w_deadlines u) = (if permit_live l then 1 else 0) \<and>
    (\<forall>d \<in> set (w_deadlines u). permit_row l d \<longrightarrow>
       dl_dueAt d = toUtcDateOnly (the (ls_permitExpiry l)) \<and> r = Some d)"
proof (cases "List.find (permit_row l) (w_deadlines s)")
  case None
  then have none: "\<forall>d \<in> set (w_deadlines s). \<not> permit_row l d" by (simp add: find_None_all)
  then have "count_where (permit_row l) (w_deadlines s) = 0" by (simp add: count_where_0_iff)
  with None none assms(1) show ?thesis
    by (auto simp: syncListingPermitDeadline_def op_defs getNow_def newId_def Let_def
      permit_row_def permit_computed_def deadlines_ok_def less_Suc_eq)
next
  case (Some d)
  have d: "d \<in> set (w_deadlines s)" "permit_row l d" using find_Some_in [OF Some] by auto
  have only: "permit_row l r \<longleftrightarrow> dl_id r = dl_id d" if "r \<in> set (w_deadlines s)" for r
    using count_le_1_find [OF assms(2) Some _ that, of dl_id] same_deadline [OF assms(1) that d(1)] d(2)
      assms(1) by (auto simp: deadlines_ok_def)
  have pos: "count_where (permit_row l) (w_deadlines s) = 1"
    using assms(2) d by (metis One_nat_def count_where_pos_iff le_antisym Suc_leI)
  let ?f = "if permit_live l then (\<lambda>r. r\<lparr>dl_dueAt := toUtcDateOnly (the (ls_permitExpiry l)),
    dl_computedFrom := permit_computed l\<rparr>) else (\<lambda>r. r\<lparr>dl_status := DL_CANCELLED\<rparr>)"
  let ?u = "s\<lparr>w_deadlines := upd_where (\<lambda>r. dl_id r = dl_id d) ?f (w_deadlines s)\<rparr>"
  have run: "syncListingPermitDeadline l s = (Inr (Some (?f d)), ?u)"
    by (simp add: syncListingPermitDeadline_def op_defs Some Let_def cancelDeadline_def)
  have id: "dl_id (?f r) = dl_id r" for r by simp
  have ok: "deadlines_ok ?u"
    using assms(1) by (auto simp: deadlines_ok_def map_upd_where set_upd_where)
  have after: "permit_row l r' \<and> r' = ?f d \<or> \<not> permit_row l r'" if mem: "r' \<in> set (w_deadlines ?u)" for r'
  proof -
    obtain r where r: "r \<in> set (w_deadlines s)" "r' = (if dl_id r = dl_id d then ?f r else r)"
      using mem by (auto simp: set_upd_where)
    then show ?thesis using only [OF r(1)] same_deadline [OF assms(1) r(1) d(1)] by auto
  qed
  have row: "permit_row l (?f d) \<longleftrightarrow> permit_live l"
    using permit_row_refresh [OF d(2)] by (simp add: permit_row_def)
  have "count_where (permit_row l) (w_deadlines ?u) =
      count_where (\<lambda>r. permit_live l \<and> dl_id r = dl_id d) (w_deadlines s)"
  proof -
    have "permit_row l (if dl_id r = dl_id d then ?f r else r) \<longleftrightarrow> permit_live l \<and> dl_id r = dl_id d"
      if "r \<in> set (w_deadlines s)" for r
      using only [OF that] same_deadline [OF assms(1) that d(1)] row by auto
    moreover have "w_deadlines ?u = upd_where (\<lambda>r. dl_id r = dl_id d) ?f (w_deadlines s)" by simp
    ultimately show ?thesis by (simp only: count_where_upd_where) (rule count_where_cong, blast)
  qed
  also have "\<dots> = (if permit_live l then count_where (permit_row l) (w_deadlines s) else 0)"
    using only by (auto intro: count_where_cong simp: count_where_0_iff)
  finally have "count_where (permit_row l) (w_deadlines ?u) = (if permit_live l then 1 else 0)"
    using pos by simp
  moreover have "\<forall>r \<in> set (w_deadlines ?u). permit_row l r \<longrightarrow>
      dl_dueAt r = toUtcDateOnly (the (ls_permitExpiry l)) \<and> Some (?f d) = Some r"
  proof (intro ballI impI)
    fix r assume "r \<in> set (w_deadlines ?u)" "permit_row l r"
    with after have "r = ?f d" by blast
    moreover have "permit_live l" using row \<open>permit_row l r\<close> \<open>r = ?f d\<close> by simp
    ultimately show "dl_dueAt r = toUtcDateOnly (the (ls_permitExpiry l)) \<and> Some (?f d) = Some r" by simp
  qed
  ultimately show ?thesis using run ok by blast
qed

theorem permit_deadline_in_sync_witness:
  "\<exists>l r u. permit_live l \<and> syncListingPermitDeadline l empty_world = (Inr r, u) \<and>
     count_where (permit_row l) (w_deadlines u) = 1"
proof -
  define l where "l = \<lparr> ls_id = 71, ls_workspaceId = 5, ls_propertyId = 41, ls_status = L_PUBLISHED, ls_headline = None,
    ls_askingRent = None, ls_availableFrom = None, ls_furnished = None, ls_description = None,
    ls_permitRef = None, ls_permitExpiry = Some 1798675200000, ls_readinessScore = None, ls_readiness = None,
    ls_publishedAt = None, ls_createdById = 1, ls_createdAt = 0, ls_archivedAt = None \<rparr>"
  have "permit_live l" by (simp add: permit_live_def l_def)
  moreover have "deadlines_ok empty_world" "count_where (permit_row l) (w_deadlines empty_world) \<le> 1"
    by (simp_all add: deadlines_ok_def empty_world_def)
  ultimately show ?thesis using permit_deadline_in_sync [of empty_world l] by auto
qed

definition closable :: "authz_ctx \<Rightarrow> uid \<Rightarrow> world \<Rightarrow> deadline \<Rightarrow> bool" where
  "closable ctx i s d \<longleftrightarrow> List.find (\<lambda>d. dl_id d = i) (w_deadlines s) = Some d \<and>
     hasCapability ctx ''deadlines.write'' \<and> dl_workspaceId d = cx_workspaceId ctx \<and>
     isManualDeadline d \<and> dl_status d = DL_OPEN \<and>
     (case resolveDelegateScopeIds ctx s of Inl _ \<Rightarrow> \<not> isDelegateRole (cx_role ctx)
      | Inr ids \<Rightarrow> some_in (dl_propertyId d) (cs_propertyIds ids) \<or>
                  some_in (dl_tenancyId d) (cs_tenancyIds ids))"

lemma deadline_door:
  assumes "(if isDelegateRole (cx_role ctx) then delegate_deadline_ok ctx x s
    else assertSameWorkspace ctx (map_option dl_workspaceId x)) = Inr ()"
  shows "\<exists>d. x = Some d \<and> dl_workspaceId d = cx_workspaceId ctx \<and>
    (case resolveDelegateScopeIds ctx s of Inl _ \<Rightarrow> \<not> isDelegateRole (cx_role ctx)
     | Inr ids \<Rightarrow> some_in (dl_propertyId d) (cs_propertyIds ids) \<or> some_in (dl_tenancyId d) (cs_tenancyIds ids))"
  using assms by (auto simp: delegate_deadline_ok_def assertSameWorkspace_def
    resolveDelegateScopeIds_def assertDelegate_def split: if_splits option.splits sum.splits)

lemma setDeadlineStatus_ok:
  assumes "setDeadlineStatus ctx i st s = (Inr d', u)"
  shows "\<exists>d. closable ctx i s d \<and> d' = d\<lparr>dl_status := st\<rparr> \<and>
    w_deadlines u = upd_where (\<lambda>x. dl_id x = i) (\<lambda>x. x\<lparr>dl_status := st\<rparr>) (w_deadlines s) \<and>
    length (w_audit u) = Suc (length (w_audit s))"
proof -
  let ?find = "List.find (\<lambda>d. dl_id d = i) (w_deadlines s)"
  have "(if isDelegateRole (cx_role ctx) then delegate_deadline_ok ctx ?find s
    else assertSameWorkspace ctx (map_option dl_workspaceId ?find)) = Inr ()"
    using assms by (simp only: setDeadlineStatus_def op_ok) auto
  from deadline_door [OF this] obtain d where d: "?find = Some d" "dl_workspaceId d = cx_workspaceId ctx"
    "case resolveDelegateScopeIds ctx s of Inl _ \<Rightarrow> \<not> isDelegateRole (cx_role ctx)
     | Inr ids \<Rightarrow> some_in (dl_propertyId d) (cs_propertyIds ids) \<or> some_in (dl_tenancyId d) (cs_tenancyIds ids)"
    by blast
  with assms show ?thesis
    by (auto simp: setDeadlineStatus_def op_ok requireCap_def closable_def)
qed

lemma setDeadlineStatus_error:
  assumes "setDeadlineStatus ctx i st s = (Inl e, u)"
  shows "u = s"
proof -
  have verb: "audit_verb_ok (ai_verb (audit_by ctx (if st = DL_DONE then ''deadline.complete''
      else ''deadline.cancel'') ''Deadline'' (Some i)))"
    by (simp add: audit_by_def auditOf_def audit_verb_ok_def verb_char_def)
  show ?thesis
    using assms verb by (auto simp: setDeadlineStatus_def bindE_apply readE_eval requireCap_def
      assertE_eval liftE_eval someE_def ret_eval throw_eval writeE_eval recordAudit_def getNow_eval newId_eval
      split: sum.splits option.splits if_splits)
qed

text \<open>
  closing a calendar entry by hand is all or nothing. A refusal leaves the database as it was;
  a success means the caller may write deadlines, the row is in the caller's workspace (for a
  managing agent, on the book), was open and was made by hand, and then exactly that row gets the
  asked-for status and the audit log exactly one row.
\<close>

theorem setDeadlineStatus_only_manual:
  "case setDeadlineStatus ctx i st s of
     (Inl e, u) \<Rightarrow> u = s
   | (Inr d', u) \<Rightarrow> \<exists>d. closable ctx i s d \<and> d' = d\<lparr>dl_status := st\<rparr> \<and>
       w_deadlines u = upd_where (\<lambda>x. dl_id x = i) (\<lambda>x. x\<lparr>dl_status := st\<rparr>) (w_deadlines s) \<and>
       length (w_audit u) = Suc (length (w_audit s))"
  by (auto split: prod.split sum.split dest: setDeadlineStatus_ok setDeadlineStatus_error)

end
