(* ===== verification/Documents.thy ===== *)
theory Documents
  imports Deadlines
begin

text \<open>
  \<open>services/documents.ts\<close> over \<open>storage/index.ts\<close> with its local driver: ingest with a hash, the
  access log, the read doors and archiving. A file's bytes are a string. \<open>hash\<close> stands for
  \<open>sha256Hex\<close> and \<open>sign\<close> for \<open>signPayload\<close>, both of \<open>crypto.ts\<close> over the runtime's crypto library;
  a storage key is built on a fresh id in place of a random uuid.
\<close>

subsection \<open>Storage\<close>

definition file_ext :: "string \<Rightarrow> string" where
  "file_ext fileName =
     (if CHR ''.'' \<in> set fileName
      then CHR ''.'' # rev (takeWhile (\<lambda>c. c \<noteq> CHR ''.'') (rev fileName)) else [])"

definition newStorageKey :: "uid \<Rightarrow> string \<Rightarrow> string svc" where
  "newStorageKey workspaceId fileName =
     bindE newId (\<lambda>u. ret (show_nat workspaceId @ ''/'' @ show_nat u @ file_ext fileName))"

definition storage_put :: "string \<Rightarrow> string \<Rightarrow> string svc" where
  "storage_put key bytes = thenE (writeE (\<lambda>s. s\<lparr>w_blobs := (key, bytes) # w_blobs s\<rparr>)) (ret key)"

definition storage_get :: "string \<Rightarrow> string svc" where
  "storage_get key = bindE (readE (\<lambda>s. map_of (w_blobs s) key)) (someE (ThrownError ''ENOENT''))"

definition DEFAULT_TTL_SECONDS :: int where "DEFAULT_TTL_SECONDS = 300"

definition file_payload :: "uid \<Rightarrow> int \<Rightarrow> string" where
  "file_payload documentId expires = ''file:'' @ show_nat documentId @ '':'' @ show_int expires"

record file_url =
  fu_documentId :: uid
  fu_expires :: int
  fu_sig :: string

definition signedFileUrl :: "(string \<Rightarrow> string) \<Rightarrow> uid \<Rightarrow> int \<Rightarrow> file_url svc" where
  "signedFileUrl sign documentId ttlSeconds =
     bindE getNow (\<lambda>now.
     let expires = now div 1000 + ttlSeconds in
     ret \<lparr> fu_documentId = documentId, fu_expires = expires, fu_sig = sign (file_payload documentId expires) \<rparr>)"

definition verifyFileUrl :: "(string \<Rightarrow> string) \<Rightarrow> uid \<Rightarrow> int \<Rightarrow> string \<Rightarrow> time \<Rightarrow> bool" where
  "verifyFileUrl sign documentId expires sig now \<longleftrightarrow>
     \<not> expires < now div 1000 \<and> sig = sign (file_payload documentId expires)"

subsection \<open>Ingest\<close>

record ingest_args =
  ig_workspaceId :: uid
  ig_scopeType :: scopeType
  ig_scopeId :: "uid option"
  ig_kind :: documentKind
  ig_fileName :: string
  ig_mime :: string
  ig_data :: string
  ig_uploadedById :: "uid option"
  ig_secureLinkId :: "uid option"

definition ingestDocument :: "(string \<Rightarrow> string) \<Rightarrow> ingest_args \<Rightarrow> document svc" where
  "ingestDocument hash args =
     bindE (newStorageKey (ig_workspaceId args) (ig_fileName args)) (\<lambda>k.
     bindE (storage_put k (ig_data args)) (\<lambda>storageKey.
     bindE getNow (\<lambda>now. bindE newId (\<lambda>i.
     let row = \<lparr> dc_id = i, dc_workspaceId = ig_workspaceId args, dc_scopeType = ig_scopeType args,
           dc_scopeId = ig_scopeId args, dc_kind = ig_kind args, dc_fileName = ig_fileName args,
           dc_mime = ig_mime args, dc_sizeBytes = length (ig_data args), dc_storageKey = storageKey,
           dc_sha256 = hash (ig_data args), dc_uploadedById = ig_uploadedById args,
           dc_secureLinkId = ig_secureLinkId args, dc_createdAt = now, dc_archivedAt = None \<rparr>
     in thenE (writeE (\<lambda>s. s\<lparr>w_documents := w_documents s @ [row]\<rparr>)) (ret row)))))"

definition logDocumentAccess ::
    "uid \<Rightarrow> uid \<Rightarrow> docAccessAction \<Rightarrow> uid option \<Rightarrow> uid option \<Rightarrow> string option \<Rightarrow> string option \<Rightarrow> unit svc" where
  "logDocumentAccess workspaceId documentId action actorUserId secureLinkId ip device =
     bindE getNow (\<lambda>now. bindE newId (\<lambda>i.
     writeE (\<lambda>s. s\<lparr>w_access := w_access s @
       [\<lparr> da_id = i, da_workspaceId = workspaceId, da_documentId = documentId,
          da_actorUserId = actorUserId, da_secureLinkId = secureLinkId, da_action = action,
          da_ip = ip, da_device = device, da_createdAt = now \<rparr>]\<rparr>)))"

record upload_input =
  up_scopeType :: scopeType
  up_scopeId :: "uid option"
  up_kind :: documentKind
  up_fileName :: string
  up_mime :: string
  up_data :: string

text \<open>The evidence input of a user or staff member acting in a context.\<close>

definition evidence_by :: "authz_ctx \<Rightarrow> evidenceType \<Rightarrow> scopeType \<Rightarrow> uid option \<Rightarrow> json \<Rightarrow> evidence_input" where
  "evidence_by ctx ty sty sid payload =
     (evidenceOf (cx_workspaceId ctx) ty (actor_of ctx) (Some (cx_userId ctx)) sty sid)
       \<lparr>ei_onBehalfOfId := cx_onBehalfOfId ctx, ei_payload := Some payload\<rparr>"

lemma evidence_by_ok: "\<not> (ei_actorType (evidence_by ctx ty sc i p) \<in> {A_USER, A_STAFF} \<and> ei_actorId (evidence_by ctx ty sc i p) = None)"
  by (simp add: evidence_by_def evidenceOf_def)

definition uploadDocument :: "(string \<Rightarrow> string) \<Rightarrow> authz_ctx \<Rightarrow> upload_input \<Rightarrow> document svc" where
  "uploadDocument hash ctx inp =
     thenE (requireCap ctx ''documents.write'')
     (thenE (whenE (isDelegateRole (cx_role ctx))
        (bindE (readE (propertyIdOfScope (cx_workspaceId ctx) (up_scopeType inp) (up_scopeId inp)))
          (\<lambda>propertyId. liftE (assertDelegatePropertyId ctx propertyId))))
     (bindE (ingestDocument hash
        \<lparr> ig_workspaceId = cx_workspaceId ctx, ig_scopeType = up_scopeType inp,
          ig_scopeId = up_scopeId inp, ig_kind = up_kind inp, ig_fileName = up_fileName inp,
          ig_mime = up_mime inp, ig_data = up_data inp, ig_uploadedById = Some (cx_userId ctx),
          ig_secureLinkId = None \<rparr>) (\<lambda>doc.
      thenE (logDocumentAccess (cx_workspaceId ctx) (dc_id doc) DA_UPLOADED (Some (cx_userId ctx)) None None None)
      (bindE (recordEvidence (evidence_by ctx EV_DOCUMENT_UPLOADED (up_scopeType inp) (up_scopeId inp)
         (JObj [(''documentId'', JId (dc_id doc)), (''fileName'', JStr (up_fileName inp)),
                (''sha256'', JStr (dc_sha256 doc))]))) (\<lambda>_. ret doc)))))"

subsection \<open>Reading\<close>

record document_filters =
  dcf_scopeType :: "scopeType option"
  dcf_scopeId :: "uid option"
  dcf_kind :: "documentKind option"
  dcf_includeArchived :: bool

definition document_where :: "authz_ctx \<Rightarrow> world \<Rightarrow> error + (document \<Rightarrow> bool)" where
  "document_where ctx s =
     (if cx_subjectContactId ctx \<noteq> None then
        map_sum id (\<lambda>w d. matches w (view_document d)) (contactScopedWhere ctx TB_DOCUMENT s)
      else if isDelegateRole (cx_role ctx) then
        map_sum id (\<lambda>w d. matches w (view_document d)) (clientSetScopedWhere ctx TB_DOCUMENT s)
      else case scope ctx of Inl e \<Rightarrow> Inl e
        | Inr ws \<Rightarrow>
            (case cx_clientPrincipalId ctx of
               None \<Rightarrow> Inr (\<lambda>d. dc_workspaceId d = ws)
             | Some c \<Rightarrow> Inr (\<lambda>d. matches \<lparr> wh_workspaceId = ws, wh_clause =
                 W_scope (scopeMatchClauses (resolveClientScopeIds (cx_workspaceId ctx) [c] s)) \<rparr>
                   (view_document d))))"

definition listDocuments :: "authz_ctx \<Rightarrow> document_filters \<Rightarrow> document list svc" where
  "listDocuments ctx opts =
     thenE (requireCap ctx ''documents.read'')
     (bindE (readE (document_where ctx)) (\<lambda>r.
      bindE (liftE r) (\<lambda>base.
      readE (\<lambda>s. sort_key (\<lambda>d. - dc_createdAt d) (filter (\<lambda>d. base d \<and>
        holds_for (dcf_scopeType opts) (\<lambda>x. dc_scopeType d = x) \<and>
        holds_for (dcf_scopeId opts) (\<lambda>x. dc_scopeId d = Some x) \<and>
        holds_for (dcf_kind opts) (\<lambda>x. dc_kind d = x) \<and>
        (dcf_includeArchived opts \<or> dc_archivedAt d = None)) (w_documents s))))))"

definition archived_message :: "uid \<Rightarrow> string" where
  "archived_message i = ''Document '' @ show_nat i @ '' is archived''"

definition getDocument :: "authz_ctx \<Rightarrow> uid \<Rightarrow> bool \<Rightarrow> document svc" where
  "getDocument ctx i includeArchived =
     thenE (requireCap ctx ''documents.read'')
     (bindE (readE (\<lambda>s. List.find (\<lambda>d. dc_id d = i) (w_documents s))) (\<lambda>found.
      bindE (readE (assertReadable ctx (RT_document found))) (\<lambda>r.
      thenE (liftE r)
      (bindE (someE notFound found) (\<lambda>doc.
       thenE (assertE (includeArchived \<or> dc_archivedAt doc = None) (ThrownError (archived_message i)))
         (ret doc))))))"

definition getDocumentUrl :: "(string \<Rightarrow> string) \<Rightarrow> authz_ctx \<Rightarrow> uid \<Rightarrow> (file_url \<times> string \<times> string) svc" where
  "getDocumentUrl sign ctx i =
     bindE (getDocument ctx i False) (\<lambda>doc.
     thenE (logDocumentAccess (cx_workspaceId ctx) i DA_VIEWED (Some (cx_userId ctx)) None None None)
     (bindE (signedFileUrl sign i DEFAULT_TTL_SECONDS) (\<lambda>u. ret (u, dc_fileName doc, dc_mime doc))))"

definition readDocumentBytes :: "(string \<Rightarrow> string) \<Rightarrow> uid \<Rightarrow> (document \<times> string) option svc" where
  "readDocumentBytes hash i =
     bindE (readE (\<lambda>s. List.find (\<lambda>d. dc_id d = i) (w_documents s))) (\<lambda>found.
     case found of
       None \<Rightarrow> ret None
     | Some doc \<Rightarrow>
         if dc_archivedAt doc \<noteq> None then ret None
         else
           bindE (storage_get (dc_storageKey doc)) (\<lambda>bytes.
           thenE (assertE (hash bytes = dc_sha256 doc)
             (ThrownError (''Integrity failure: stored hash mismatch for document '' @ show_nat i)))
             (ret (Some (doc, bytes)))))"

definition archiveDocument :: "authz_ctx \<Rightarrow> uid \<Rightarrow> document svc" where
  "archiveDocument ctx i =
     thenE (requireCap ctx ''documents.write'')
     (bindE (getDocument ctx i False) (\<lambda>doc.
      bindE getNow (\<lambda>now.
      thenE (writeE (\<lambda>s. s\<lparr>w_documents := upd_where (\<lambda>d. dc_id d = i)
               (\<lambda>d. d\<lparr>dc_archivedAt := Some now\<rparr>) (w_documents s)\<rparr>))
      (thenE (logDocumentAccess (cx_workspaceId ctx) i DA_DELETED (Some (cx_userId ctx)) None None None)
        (ret (doc\<lparr>dc_archivedAt := Some now\<rparr>))))))"

definition getDocumentAccessLog :: "authz_ctx \<Rightarrow> uid \<Rightarrow> document_access list svc" where
  "getDocumentAccessLog ctx documentId =
     thenE (requireCap ctx ''documents.read'')
     (bindE (getDocument ctx documentId True) (\<lambda>_.
      readE (\<lambda>s. sort_key (\<lambda>a. - da_createdAt a)
        (filter (\<lambda>a. da_documentId a = documentId) (w_access s)))))"

lemma keeps_newStorageKey [log_keeps]: "keeps extends (newStorageKey w f)"
  unfolding newStorageKey_def by (intro logs.keeps_intros log_keeps)

lemma keeps_storage [log_keeps]: "keeps extends (storage_put k d)" "keeps extends (storage_get k)"
  unfolding storage_put_def storage_get_def by (intro logs.keeps_intros keeps_quiet_write; simp)+

lemma keeps_ingestDocument [log_keeps]: "keeps extends (ingestDocument h a)"
  unfolding ingestDocument_def Let_def by (intro logs.keeps_intros log_keeps keeps_quiet_write) simp_all

lemma keeps_logDocumentAccess [log_keeps]: "keeps extends (logDocumentAccess w d a u l ip v)"
  unfolding logDocumentAccess_def by (intro logs.keeps_intros log_keeps keeps_quiet_write) simp_all

lemma keeps_uploadDocument [log_keeps]: "keeps extends (uploadDocument h ctx inp)"
  unfolding uploadDocument_def by (intro logs.keeps_intros log_keeps)

lemma keeps_getDocument [log_keeps]: "keeps extends (getDocument ctx i b)"
  unfolding getDocument_def by (intro logs.keeps_intros log_keeps)

lemma keeps_getDocumentUrl [log_keeps]: "keeps extends (getDocumentUrl g ctx i)"
  unfolding getDocumentUrl_def signedFileUrl_def Let_def by (intro logs.keeps_intros log_keeps)

lemma keeps_archiveDocument [log_keeps]: "keeps extends (archiveDocument ctx i)"
  unfolding archiveDocument_def by (intro logs.keeps_intros log_keeps keeps_quiet_write) simp_all

subsection \<open>Storage keys are never reused\<close>

lemma show_nat_range: "c \<in> set (show_nat n) \<Longrightarrow> of_char c \<in> {48..57 :: nat}"
proof (induction n rule: show_nat.induct)
  case (1 n)
  have "n mod 10 \<le> 9" by simp
  then have "of_char (digit_char n) \<in> {48..57 :: nat}" by (simp only: of_digit_char atLeastAtMost_iff) simp
  then show ?case using 1 by (subst (asm) (2) show_nat.simps) (auto split: if_splits)
qed

text \<open>No digit is one of the separators of a key or a payload.\<close>

lemma show_nat_no_sep:
  "CHR ''/'' \<notin> set (show_nat n)" "CHR ''.'' \<notin> set (show_nat n)"
  "CHR '':'' \<notin> set (show_nat n)" "CHR ''-'' \<notin> set (show_nat n)"
  using show_nat_range [of _ n] by force+

lemma show_nat_nonempty: "show_nat n \<noteq> []"
  by (subst show_nat.simps) simp

lemma read_show_nat: "read_digits (show_nat n) = n"
proof (induction n rule: show_nat.induct)
  case (1 n)
  show ?case
    using 1 by (subst show_nat.simps) (auto simp: read_digits_def of_digit_char)
qed

lemma show_nat_inj: "show_nat m = show_nat n \<longleftrightarrow> m = n"
  by (metis read_show_nat)

lemma show_int_inj: "show_int i = show_int j \<longleftrightarrow> i = j"
proof -
  have "show_nat n \<noteq> CHR ''-'' # xs" for n xs using show_nat_no_sep(4) [of n] by auto
  then have "''-'' @ show_nat m \<noteq> show_nat n" "show_nat n \<noteq> ''-'' @ show_nat m" for m n
    by (metis append_Cons)+
  then show ?thesis by (cases "i < 0"; cases "j < 0") (auto simp: show_int_def show_nat_inj nat_eq_iff)
qed

text \<open>Text up to a separator that neither side contains.\<close>

lemma append_sep_inj:
  "c \<notin> set xs \<Longrightarrow> c \<notin> set ys \<Longrightarrow> xs @ c # us = ys @ c # vs \<longleftrightarrow> xs = ys \<and> us = vs"
proof (induction xs arbitrary: ys)
  case Nil then show ?case by (cases ys) auto
next
  case (Cons x xs) then show ?case by (cases ys) auto
qed

definition storage_key :: "uid \<Rightarrow> uid \<Rightarrow> string \<Rightarrow> string" where
  "storage_key ws u fileName = show_nat ws @ ''/'' @ show_nat u @ file_ext fileName"

lemma file_ext_cases: "file_ext f = [] \<or> (\<exists>e. file_ext f = CHR ''.'' # e)"
  by (auto simp: file_ext_def)

lemma takeWhile_key: "takeWhile (\<lambda>c. c \<noteq> CHR ''.'') (show_nat u @ file_ext f) = show_nat u"
proof -
  have "takeWhile (\<lambda>c. c \<noteq> CHR ''.'') (show_nat u @ file_ext f)
      = show_nat u @ takeWhile (\<lambda>c. c \<noteq> CHR ''.'') (file_ext f)"
    by (rule takeWhile_append2) (metis show_nat_no_sep(2))
  moreover have "takeWhile (\<lambda>c. c \<noteq> CHR ''.'') (file_ext f) = []" using file_ext_cases [of f] by fastforce
  ultimately show ?thesis by (metis append_Nil2)
qed

lemma storage_key_inj: "storage_key ws u f = storage_key ws' u' f' \<Longrightarrow> u = u'"
proof -
  assume "storage_key ws u f = storage_key ws' u' f'"
  then have "show_nat ws @ CHR ''/'' # (show_nat u @ file_ext f) = show_nat ws' @ CHR ''/'' # (show_nat u' @ file_ext f')"
    unfolding storage_key_def by simp
  then have "show_nat u @ file_ext f = show_nat u' @ file_ext f'"
    using append_sep_inj [OF show_nat_no_sep(1) show_nat_no_sep(1)] by metis
  then show "u = u'" using takeWhile_key show_nat_inj by metis
qed

lemma newStorageKey_eval:
  "newStorageKey ws f s = (Inr (storage_key ws (w_next s) f), s\<lparr>w_next := Suc (w_next s)\<rparr>)"
  by (simp add: newStorageKey_def bindE_def newId_def ret_def storage_key_def)

text \<open>The row and the database an ingest leaves.\<close>

definition ingested :: "(string \<Rightarrow> string) \<Rightarrow> ingest_args \<Rightarrow> world \<Rightarrow> document" where
  "ingested hash args s = \<lparr> dc_id = Suc (w_next s), dc_workspaceId = ig_workspaceId args,
     dc_scopeType = ig_scopeType args, dc_scopeId = ig_scopeId args, dc_kind = ig_kind args,
     dc_fileName = ig_fileName args, dc_mime = ig_mime args, dc_sizeBytes = length (ig_data args),
     dc_storageKey = storage_key (ig_workspaceId args) (w_next s) (ig_fileName args),
     dc_sha256 = hash (ig_data args), dc_uploadedById = ig_uploadedById args,
     dc_secureLinkId = ig_secureLinkId args, dc_createdAt = w_now s, dc_archivedAt = None \<rparr>"

lemma ingestDocument_eval [op_eval]:
  "ingestDocument hash args s = (Inr (ingested hash args s),
     s\<lparr>w_next := Suc (Suc (w_next s)), w_blobs := (dc_storageKey (ingested hash args s), ig_data args) # w_blobs s,
       w_documents := w_documents s @ [ingested hash args s]\<rparr>)"
  by (simp add: ingestDocument_def newStorageKey_eval storage_put_def op_eval bindE_def
      op_defs newId_def getNow_def Let_def ingested_def)

text \<open>
  The ids of documents and the numbers in storage keys have been handed out; so a new document
  gets an id and a key that no older one has.
\<close>

definition storage_ok :: "world \<Rightarrow> bool" where
  "storage_ok s \<longleftrightarrow> (\<forall>d \<in> set (w_documents s). dc_id d < w_next s) \<and>
     (\<forall>b \<in> set (w_blobs s). \<forall>ws u f. fst b = storage_key ws u f \<longrightarrow> u < w_next s)"

lemma storage_ok_ingest: "storage_ok s \<Longrightarrow> storage_ok (snd (ingestDocument hash args s))"
  by (auto simp: storage_ok_def ingestDocument_eval ingested_def less_Suc_eq dest: storage_key_inj)

text \<open>What \<open>readDocumentBytes\<close> answers depends on the row and on the bytes under its key.\<close>

definition serves :: "world \<Rightarrow> document \<Rightarrow> string \<Rightarrow> bool" where
  "serves s doc bytes \<longleftrightarrow> List.find (\<lambda>d. dc_id d = dc_id doc) (w_documents s) = Some doc \<and>
     map_of (w_blobs s) (dc_storageKey doc) = Some bytes"

lemma serves_read:
  "serves s doc bytes \<Longrightarrow> dc_archivedAt doc = None \<Longrightarrow>
   readDocumentBytes hash (dc_id doc) s =
     (if hash bytes = dc_sha256 doc then (Inr (Some (doc, bytes)), s)
      else (Inl (ThrownError (''Integrity failure: stored hash mismatch for document '' @ show_nat (dc_id doc))), s))"
  by (simp add: serves_def readDocumentBytes_def storage_get_def bindE_apply op_eval)

lemma serves_ingested:
  assumes "storage_ok s"
  shows "serves (snd (ingestDocument hash args s)) (ingested hash args s) (ig_data args)"
proof -
  have "List.find (\<lambda>d. dc_id d = Suc (w_next s)) (w_documents s) = None"
    using assms by (auto simp: storage_ok_def find_None_all)
  then show ?thesis by (simp add: serves_def ingestDocument_eval find_append ingested_def)
qed

lemma serves_later:
  assumes "storage_ok s" and "serves s doc bytes"
  shows "serves (snd (ingestDocument hash args s)) doc bytes"
proof -
  have "dc_storageKey doc \<in> fst ` set (w_blobs s)"
    using assms(2) by (auto simp: serves_def dest!: map_of_SomeD intro: rev_image_eqI)
  then have "dc_storageKey doc \<noteq> storage_key (ig_workspaceId args) (w_next s) (ig_fileName args)"
    using assms(1) unfolding storage_ok_def by (metis imageE less_irrefl)
  then show ?thesis using assms(2) by (simp add: serves_def ingestDocument_eval find_append ingested_def)
qed

definition ingest_all :: "(string \<Rightarrow> string) \<Rightarrow> ingest_args list \<Rightarrow> unit svc" where
  "ingest_all hash argss = forE argss (\<lambda>a. bindE (ingestDocument hash a) (\<lambda>_. ret ()))"

lemma ingest_all_simps:
  "ingest_all hash [] s = (Inr (), s)"
  "ingest_all hash (a # as) s = ingest_all hash as (snd (ingestDocument hash a s))"
  by (simp_all add: ingest_all_def op_eval bindE_def ret_def ingestDocument_eval)

lemma ingest_all_serves:
  "storage_ok s \<Longrightarrow> serves s doc bytes \<Longrightarrow>
   storage_ok (snd (ingest_all hash as s)) \<and> serves (snd (ingest_all hash as s)) doc bytes"
  by (induction as arbitrary: s) (simp_all add: ingest_all_simps storage_ok_ingest serves_later)

lemma getDocument_ok: "getDocument ctx i b s = (Inr d, t) \<Longrightarrow>
  t = s \<and> List.find (\<lambda>d. dc_id d = i) (w_documents s) = Some d"
  unfolding getDocument_def by (clarsimp simp only: bindE_ok readE_ok assertE_ok someE_ok liftE_ok ret_ok requireCap_def)

lemma archived_not_served:
  assumes "archiveDocument ctx i s = (Inr d, t)"
  shows "readDocumentBytes hash i t = (Inr None, t)"
proof -
  obtain f where "List.find (\<lambda>d. dc_id d = i) (w_documents s) = Some f"
    and "w_documents t = upd_where (\<lambda>d. dc_id d = i) (\<lambda>d. d\<lparr>dc_archivedAt := Some (w_now s)\<rparr>) (w_documents s)"
    using assms unfolding archiveDocument_def logDocumentAccess_def
    by (clarsimp simp only: bindE_ok readE_ok writeE_ok assertE_ok ret_ok requireCap_def newId_ok getNow_ok
        dest!: getDocument_ok) simp
  then show ?thesis
    by (auto simp: readDocumentBytes_def bindE_apply op_eval find_upd_where_same dest: find_Some_in)
qed

text \<open>
  C30: what was uploaded is what is served: after an ingest and any number of later ones the
  document reads back with its row and its bytes; once the stored bytes have another hash than
  the recorded one no byte is served but an integrity error; and after it was archived nothing is.
\<close>

theorem ingested_document_reads_back:
  assumes "storage_ok s" and "ingestDocument hash args s = (Inr doc, t)"
    and "ingest_all hash later t = (r, u)"
  shows "readDocumentBytes hash (dc_id doc) u = (Inr (Some (doc, ig_data args)), u) \<and>
    (hash tampered \<noteq> hash (ig_data args) \<longrightarrow>
      (\<exists>e. fst (readDocumentBytes hash (dc_id doc) (u\<lparr>w_blobs := (dc_storageKey doc, tampered) # w_blobs u\<rparr>))
        = Inl (ThrownError e))) \<and>
    (archiveDocument ctx (dc_id doc) u = (Inr d, v) \<longrightarrow>
      fst (readDocumentBytes hash (dc_id doc) v) = Inr None)"
proof -
  have doc: "doc = ingested hash args s" using assms(2) by (simp add: ingestDocument_eval)
  have t: "t = snd (ingestDocument hash args s)" and u: "u = snd (ingest_all hash later t)"
    using assms(2,3) by simp_all
  then have sv: "serves u doc (ig_data args)"
    using ingest_all_serves [of t] storage_ok_ingest [OF assms(1)] serves_ingested [OF assms(1)] by (simp add: doc t u)
  have live: "dc_archivedAt doc = None" "dc_sha256 doc = hash (ig_data args)"
    by (simp_all add: doc ingested_def)
  have "readDocumentBytes hash (dc_id doc) u = (Inr (Some (doc, ig_data args)), u)"
    using serves_read [OF sv live(1)] live(2) by simp
  moreover have "serves (u\<lparr>w_blobs := (dc_storageKey doc, tampered) # w_blobs u\<rparr>) doc tampered"
    using sv by (simp add: serves_def)
  then have "\<exists>e. fst (readDocumentBytes hash (dc_id doc) (u\<lparr>w_blobs := (dc_storageKey doc, tampered) # w_blobs u\<rparr>))
        = Inl (ThrownError e)" if "hash tampered \<noteq> hash (ig_data args)"
    using serves_read [OF _ live(1)] live(2) that by simp
  moreover have "fst (readDocumentBytes hash (dc_id doc) v) = Inr None"
    if "archiveDocument ctx (dc_id doc) u = (Inr d, v)"
    using archived_not_served [OF that] by simp
  ultimately show ?thesis by blast
qed

subsection \<open>Signed file urls\<close>

lemma file_payload_inj: "file_payload i e = file_payload j f \<longleftrightarrow> i = j \<and> e = f"
proof -
  have "show_nat i @ CHR '':'' # show_int e = show_nat j @ CHR '':'' # show_int f \<longleftrightarrow> show_nat i = show_nat j \<and> show_int e = show_int f"
    by (rule append_sep_inj) (rule show_nat_no_sep)+
  then show ?thesis unfolding file_payload_def by (simp add: show_nat_inj show_int_inj)
qed

text \<open>
  an issued file url opens exactly its own document and only until it expires: as long as the
  signature of its payload is not the signature of another payload, the check says yes for the
  issued document and expiry up to the whole second of the expiry, and no for any other document,
  any other expiry and any later time.
\<close>

theorem signed_url_window:
  assumes "signedFileUrl sign i ttl s = (Inr url, t)"
    and "\<And>p. sign p = sign (file_payload i (w_now s div 1000 + ttl)) \<Longrightarrow> p = file_payload i (w_now s div 1000 + ttl)"
  shows "verifyFileUrl sign j e (fu_sig url) now \<longleftrightarrow>
    j = fu_documentId url \<and> e = fu_expires url \<and> j = i \<and> now div 1000 \<le> w_now s div 1000 + ttl"
proof -
  let ?e = "w_now s div 1000 + ttl"
  have url: "fu_documentId url = i" "fu_expires url = ?e" "fu_sig url = sign (file_payload i ?e)"
    using assms(1) by (auto simp: signedFileUrl_def bindE_apply op_eval Let_def)
  have "sign (file_payload j e) = sign (file_payload i ?e) \<longleftrightarrow> j = i \<and> e = ?e"
    using assms(2) file_payload_inj by blast
  then show ?thesis by (auto simp: verifyFileUrl_def url not_less)
qed

text \<open>Both, for a hash that is the content itself and a signature that is the payload itself.\<close>

definition sample_ingest :: ingest_args where
  "sample_ingest = \<lparr> ig_workspaceId = 5, ig_scopeType = S_TENANCY, ig_scopeId = Some 51, ig_kind = DOC_OTHER,
     ig_fileName = ''a.pdf'', ig_mime = ''application/pdf'', ig_data = ''bytes'', ig_uploadedById = Some 1,
     ig_secureLinkId = None \<rparr>"

theorem ingested_document_reads_back_witness:
  "\<exists>doc u. fst (readDocumentBytes id (dc_id doc) u) = Inr (Some (doc, ''bytes''))"
proof -
  let ?run = "ingestDocument id sample_ingest empty_world"
  have "storage_ok empty_world" by (simp add: storage_ok_def empty_world_def)
  moreover have "?run = (Inr (ingested id sample_ingest empty_world), snd ?run)" by (simp add: ingestDocument_eval)
  moreover have "ingest_all id [sample_ingest] (snd ?run) = (Inr (), snd (ingest_all id [sample_ingest] (snd ?run)))"
    by (simp add: ingest_all_simps)
  ultimately have "readDocumentBytes id (dc_id (ingested id sample_ingest empty_world))
      (snd (ingest_all id [sample_ingest] (snd ?run))) =
      (Inr (Some (ingested id sample_ingest empty_world, ig_data sample_ingest)), snd (ingest_all id [sample_ingest] (snd ?run)))"
    using ingested_document_reads_back by blast
  moreover have "ig_data sample_ingest = ''bytes''" by (simp add: sample_ingest_def)
  ultimately show ?thesis by (metis fst_conv)
qed

theorem signed_url_window_witness:
  "\<exists>url :: file_url. verifyFileUrl id (fu_documentId url) (fu_expires url) (fu_sig url) 300999 \<and>
    \<not> verifyFileUrl id (fu_documentId url) (fu_expires url) (fu_sig url) 301000"
proof -
  let ?url = "\<lparr>fu_documentId = 7, fu_expires = 300, fu_sig = file_payload 7 300\<rparr>"
  have run: "signedFileUrl id 7 DEFAULT_TTL_SECONDS empty_world = (Inr ?url, empty_world)"
    by (simp add: signedFileUrl_def bindE_apply op_eval DEFAULT_TTL_SECONDS_def empty_world_def)
  have "verifyFileUrl id 7 300 (fu_sig ?url) now \<longleftrightarrow> now div 1000 \<le> 300" for now
    using signed_url_window [OF run, of 7 300 now] by (simp add: empty_world_def DEFAULT_TTL_SECONDS_def)
  note this [of 300999] this [of 301000]
  then have "verifyFileUrl id 7 300 (fu_sig ?url) 300999 \<and> \<not> verifyFileUrl id 7 300 (fu_sig ?url) 301000" by simp
  then show ?thesis by (metis file_url.select_convs)
qed

end
