(* ===== verification/Tenancies.thy ===== *)
theory Tenancies
  imports Documents
begin

text \<open>
  \<open>services/tenancies.ts\<close>: reading a tenancy through its door, creating and updating it (which
  regenerates the deadlines and the risk flags), its status machine and its archive.
\<close>

text \<open>The row the read door judges: the tenancy and the client of its property.\<close>

definition tenancy_target :: "uid \<Rightarrow> world \<Rightarrow> readable_target" where
  "tenancy_target i s =
     RT_tenancy (map_option (\<lambda>t. (t, Option.bind
         (List.find (\<lambda>p. pr_id p = tn_propertyId t) (w_properties s)) pr_clientPrincipalId))
       (List.find (\<lambda>t. tn_id t = i) (w_tenancies s)))"

definition getTenancy :: "authz_ctx \<Rightarrow> uid \<Rightarrow> tenancy svc" where
  "getTenancy ctx i =
     thenE (requireCap ctx ''tenancies.read'')
     (bindE (readE (\<lambda>s. List.find (\<lambda>t. tn_id t = i) (w_tenancies s))) (\<lambda>found.
      bindE (readE (\<lambda>s. assertReadable ctx (tenancy_target i s) s)) (\<lambda>r.
      thenE (liftE r) (someE notFound found))))"

record tenancy_file =
  tf_fileName :: string
  tf_mime :: string
  tf_data :: string
  tf_kind :: "documentKind option"

definition uploadTenancyDocument ::
    "(string \<Rightarrow> string) \<Rightarrow> authz_ctx \<Rightarrow> uid \<Rightarrow> tenancy_file \<Rightarrow> document svc" where
  "uploadTenancyDocument hash ctx tenancyId file =
     thenE (requireCap ctx ''tenancies.upload'')
     (thenE (getTenancy ctx tenancyId)
     (bindE (ingestDocument hash
        \<lparr> ig_workspaceId = cx_workspaceId ctx, ig_scopeType = S_TENANCY, ig_scopeId = Some tenancyId,
          ig_kind = (case tf_kind file of None \<Rightarrow> DOC_OTHER | Some k \<Rightarrow> k), ig_fileName = tf_fileName file,
          ig_mime = tf_mime file, ig_data = tf_data file, ig_uploadedById = Some (cx_userId ctx),
          ig_secureLinkId = None \<rparr>) (\<lambda>doc.
      thenE (logDocumentAccess (cx_workspaceId ctx) (dc_id doc) DA_UPLOADED (Some (cx_userId ctx)) None None None)
      (bindE (recordEvidence ((evidence_by ctx EV_DOCUMENT_UPLOADED S_TENANCY (Some tenancyId)
          (JObj [(''documentId'', JId (dc_id doc)), (''fileName'', JStr (tf_fileName file)),
                 (''selfUpload'', JBool True)]))\<lparr>ei_tenancyId := Some tenancyId\<rparr>))
        (\<lambda>_. ret doc)))))"

record tenancy_input =
  ti_propertyId :: uid
  ti_landlordContactId :: "uid option"
  ti_tenantContactId :: "uid option"
  ti_ejariNo :: "string option"
  ti_startDate :: time
  ti_endDate :: time
  ti_annualRent :: rat
  ti_depositAmount :: "rat option"
  ti_paymentTermsNote :: "string option"
  ti_noticePeriodDays :: "int option"
  ti_contractDocId :: "uid option"
  ti_source :: "recordSource option"

definition tenancy_row :: "uid \<Rightarrow> time \<Rightarrow> uid \<Rightarrow> tenancy_input \<Rightarrow> tenancy" where
  "tenancy_row i now ws inp =
     \<lparr> tn_id = i, tn_workspaceId = ws, tn_propertyId = ti_propertyId inp,
       tn_landlordContactId = ti_landlordContactId inp, tn_tenantContactId = ti_tenantContactId inp,
       tn_ejariNo = ti_ejariNo inp, tn_startDate = toUtcDateOnly (ti_startDate inp),
       tn_endDate = toUtcDateOnly (ti_endDate inp), tn_annualRent = money (ti_annualRent inp),
       tn_depositAmount = map_option money (ti_depositAmount inp), tn_paymentTermsNote = ti_paymentTermsNote inp,
       tn_noticePeriodDays = (case ti_noticePeriodDays inp of None \<Rightarrow> 90 | Some n \<Rightarrow> n),
       tn_noticeGateAt = None, tn_status = T_ACTIVE,
       tn_source = (case ti_source inp of None \<Rightarrow> RS_MANUAL | Some x \<Rightarrow> x),
       tn_contractDocId = ti_contractDocId inp, tn_createdAt = now, tn_archivedAt = None,
       tn_renewsFromTenancyId = None \<rparr>"

definition createTenancy :: "authz_ctx \<Rightarrow> tenancy_input \<Rightarrow> tenancy svc" where
  "createTenancy ctx inp =
     thenE (requireCap ctx ''tenancies.write'')
     (bindE (readE (\<lambda>s. List.find (\<lambda>p. pr_id p = ti_propertyId inp) (w_properties s))) (\<lambda>p.
      thenE (liftE (assertOwn ctx (map_option pr_workspaceId p) (map_option pr_id p)))
      (bindE getNow (\<lambda>now. bindE newId (\<lambda>i.
       let row = tenancy_row i now (cx_workspaceId ctx) inp in
       thenE (writeE (\<lambda>s. s\<lparr>w_tenancies := w_tenancies s @ [row]\<rparr>))
       (thenE (regenerateDeadlinesForTenancy i)
       (thenE (evaluateRiskForTenancy i)
       (bindE (recordAudit (audit_by ctx ''tenancy.create'' ''Tenancy'' (Some i))) (\<lambda>_. ret row)))))))))"

text \<open>A partial update: a field that is \<open>undefined\<close> keeps the column.\<close>

record tenancy_patch =
  tp_landlordContactId :: "uid option"
  tp_tenantContactId :: "uid option"
  tp_ejariNo :: "string option"
  tp_startDate :: "time option"
  tp_endDate :: "time option"
  tp_annualRent :: "rat option"
  tp_depositAmount :: "rat option"
  tp_paymentTermsNote :: "string option"
  tp_noticePeriodDays :: "int option"
  tp_contractDocId :: "uid option"

definition or_keep :: "'a option \<Rightarrow> 'a option \<Rightarrow> 'a option" where
  "or_keep new old = (case new of None \<Rightarrow> old | Some x \<Rightarrow> Some x)"

definition or_else :: "'a option \<Rightarrow> 'a \<Rightarrow> 'a" where
  "or_else new old = (case new of None \<Rightarrow> old | Some x \<Rightarrow> x)"

definition patch_tenancy :: "tenancy_patch \<Rightarrow> tenancy \<Rightarrow> tenancy" where
  "patch_tenancy p t = t\<lparr>
     tn_landlordContactId := or_keep (tp_landlordContactId p) (tn_landlordContactId t),
     tn_tenantContactId := or_keep (tp_tenantContactId p) (tn_tenantContactId t),
     tn_ejariNo := or_keep (tp_ejariNo p) (tn_ejariNo t),
     tn_startDate := or_else (map_option toUtcDateOnly (tp_startDate p)) (tn_startDate t),
     tn_endDate := or_else (map_option toUtcDateOnly (tp_endDate p)) (tn_endDate t),
     tn_annualRent := or_else (map_option money (tp_annualRent p)) (tn_annualRent t),
     tn_depositAmount := or_keep (map_option money (tp_depositAmount p)) (tn_depositAmount t),
     tn_paymentTermsNote := or_keep (tp_paymentTermsNote p) (tn_paymentTermsNote t),
     tn_noticePeriodDays := or_else (tp_noticePeriodDays p) (tn_noticePeriodDays t),
     tn_contractDocId := or_keep (tp_contractDocId p) (tn_contractDocId t) \<rparr>"

definition updateTenancy :: "authz_ctx \<Rightarrow> uid \<Rightarrow> tenancy_patch \<Rightarrow> tenancy svc" where
  "updateTenancy ctx i p =
     thenE (requireCap ctx ''tenancies.write'')
     (bindE (getTenancy ctx i) (\<lambda>t.
      thenE (writeE (\<lambda>s. s\<lparr>w_tenancies := upd_where (\<lambda>r. tn_id r = i) (patch_tenancy p) (w_tenancies s)\<rparr>))
      (thenE (regenerateDeadlinesForTenancy i)
      (thenE (evaluateRiskForTenancy i)
      (bindE (recordAudit (audit_by ctx ''tenancy.update'' ''Tenancy'' (Some i)))
        (\<lambda>_. ret (patch_tenancy p t)))))))"

subsection \<open>The status machine\<close>

fun ALLOWED_STATUS :: "tenancyStatus \<Rightarrow> tenancyStatus list" where
  "ALLOWED_STATUS T_ACTIVE = [T_RENEWAL_DUE, T_NOTICE_SERVED, T_NEGOTIATING, T_ENDING, T_DISPUTED, T_ARCHIVED]"
| "ALLOWED_STATUS T_RENEWAL_DUE = [T_NOTICE_SERVED, T_NEGOTIATING, T_RENEWED, T_ENDING, T_DISPUTED]"
| "ALLOWED_STATUS T_NOTICE_SERVED = [T_NEGOTIATING, T_RENEWED, T_ENDING, T_DISPUTED]"
| "ALLOWED_STATUS T_NEGOTIATING = [T_RENEWED, T_ENDING, T_DISPUTED]"
| "ALLOWED_STATUS T_RENEWED = [T_ARCHIVED]"
| "ALLOWED_STATUS T_ENDING = [T_ARCHIVED, T_DISPUTED]"
| "ALLOWED_STATUS T_DISPUTED = [T_ACTIVE, T_ENDING, T_ARCHIVED]"
| "ALLOWED_STATUS T_ARCHIVED = []"

fun tenancyStatus_name :: "tenancyStatus \<Rightarrow> string" where
  "tenancyStatus_name T_ACTIVE = ''ACTIVE''"
| "tenancyStatus_name T_RENEWAL_DUE = ''RENEWAL_DUE''"
| "tenancyStatus_name T_NOTICE_SERVED = ''NOTICE_SERVED''"
| "tenancyStatus_name T_NEGOTIATING = ''NEGOTIATING''"
| "tenancyStatus_name T_RENEWED = ''RENEWED''"
| "tenancyStatus_name T_ENDING = ''ENDING''"
| "tenancyStatus_name T_DISPUTED = ''DISPUTED''"
| "tenancyStatus_name T_ARCHIVED = ''ARCHIVED''"

definition set_status :: "uid \<Rightarrow> tenancyStatus \<Rightarrow> unit svc" where
  "set_status i status = writeE (\<lambda>s. s\<lparr>w_tenancies := upd_where (\<lambda>r. tn_id r = i)
     (\<lambda>r. r\<lparr>tn_status := status\<rparr>) (w_tenancies s)\<rparr>)"

definition status_evidence :: "tenancy \<Rightarrow> uid \<Rightarrow> tenancyStatus \<Rightarrow> evidence_input \<Rightarrow> evidence_input" where
  "status_evidence t i status inp = inp\<lparr>ei_tenancyId := Some i, ei_propertyId := Some (tn_propertyId t),
     ei_payload := Some (JObj [(''field'', JStr ''status''),
       (''from'', JStr (tenancyStatus_name (tn_status t))), (''to'', JStr (tenancyStatus_name status))])\<rparr>"

definition setTenancyStatus :: "authz_ctx \<Rightarrow> uid \<Rightarrow> tenancyStatus \<Rightarrow> tenancy svc" where
  "setTenancyStatus ctx i status =
     thenE (requireCap ctx ''tenancies.write'')
     (bindE (getTenancy ctx i) (\<lambda>t.
      thenE (assertE (status \<in> set (ALLOWED_STATUS (tn_status t)))
        (AuthzError (''Cannot move tenancy from '' @ tenancyStatus_name (tn_status t) @ '' to '' @
           tenancyStatus_name status) 422))
      (thenE (set_status i status)
      (bindE (recordEvidence (status_evidence t i status
          (evidence_by ctx EV_FIELD_CORRECTED S_TENANCY (Some i) JNull)))
        (\<lambda>_. ret (t\<lparr>tn_status := status\<rparr>))))))"

definition archiveTenancy :: "authz_ctx \<Rightarrow> uid \<Rightarrow> tenancy svc" where
  "archiveTenancy ctx i =
     thenE (requireCap ctx ''tenancies.write'')
     (bindE (getTenancy ctx i) (\<lambda>t.
      bindE getNow (\<lambda>now.
      let upd = (\<lambda>r. r\<lparr>tn_archivedAt := Some now, tn_status := T_ARCHIVED\<rparr>) in
      thenE (writeE (\<lambda>s. s\<lparr>w_tenancies := upd_where (\<lambda>r. tn_id r = i) upd (w_tenancies s)\<rparr>))
      (thenE (regenerateDeadlinesForTenancy i)
      (bindE (recordAudit (audit_by ctx ''tenancy.archive'' ''Tenancy'' (Some i)))
        (\<lambda>_. ret (upd t)))))))"

subsection \<open>The door, and what every operation keeps\<close>

lemma getTenancy_ok [op_ok]:
  "getTenancy ctx i s = (Inr t, u) \<longleftrightarrow> u = s \<and> hasCapability ctx ''tenancies.read'' \<and>
     List.find (\<lambda>t. tn_id t = i) (w_tenancies s) = Some t \<and>
     assertReadable ctx (tenancy_target i s) s = Inr ()"
  by (auto simp: getTenancy_def op_ok requireCap_def)

lemma getTenancy_state [simp]: "snd (getTenancy ctx i s) = s"
  by (auto simp: getTenancy_def op_defs requireCap_def split: sum.splits option.splits)

lemma getTenancy_error: "getTenancy ctx i s = (Inl e, u) \<Longrightarrow> u = s"
  by (metis getTenancy_state snd_conv)

lemma assertReadable_workspace: "assertReadable ctx target s = Inr () \<Longrightarrow> target_workspace target = Some (cx_workspaceId ctx)"
  by (simp add: assertReadable_def split: if_splits)

lemma readable_tenancy_workspace:
  "assertReadable ctx (tenancy_target i s) s = Inr () \<Longrightarrow>
   List.find (\<lambda>t. tn_id t = i) (w_tenancies s) = Some t \<Longrightarrow> tn_workspaceId t = cx_workspaceId ctx"
  using assertReadable_workspace [of ctx "tenancy_target i s" s] by (simp add: tenancy_target_def)

lemma outcome_getTenancy [outcome]: "reads_only (getTenancy ctx i)"
  by (simp add: reads_only_def)

lemma keeps_getTenancy [log_keeps]: "keeps extends (getTenancy ctx i)"
  by (rule keepsI) (simp add: extends_def)

lemma keeps_uploadTenancyDocument [log_keeps]: "keeps extends (uploadTenancyDocument h ctx i f)"
  unfolding uploadTenancyDocument_def by (intro logs.keeps_intros log_keeps)

lemma keeps_createTenancy [log_keeps]: "keeps extends (createTenancy ctx inp)"
  unfolding createTenancy_def Let_def by (intro logs.keeps_intros log_keeps keeps_quiet_write) simp_all

lemma keeps_updateTenancy [log_keeps]: "keeps extends (updateTenancy ctx i p)"
  unfolding updateTenancy_def by (intro logs.keeps_intros log_keeps keeps_quiet_write) simp_all

lemma keeps_set_status [log_keeps]: "keeps extends (set_status i st)"
  unfolding set_status_def by (intro keeps_quiet_write) simp_all

lemma keeps_setTenancyStatus [log_keeps]: "keeps extends (setTenancyStatus ctx i st)"
  unfolding setTenancyStatus_def by (intro logs.keeps_intros log_keeps)

lemma keeps_archiveTenancy [log_keeps]: "keeps extends (archiveTenancy ctx i)"
  unfolding archiveTenancy_def Let_def by (intro logs.keeps_intros log_keeps keeps_quiet_write) simp_all

subsection \<open>The status machine\<close>

inductive moves :: "tenancyStatus \<Rightarrow> tenancyStatus \<Rightarrow> bool" where
  allowed: "b \<in> set (ALLOWED_STATUS a) \<Longrightarrow> moves a b"

inductive_cases moves_from: "moves a b"

text \<open>A run that stays out of dispute climbs: this is the height of a status.\<close>

fun height :: "tenancyStatus \<Rightarrow> nat" where
  "height T_ACTIVE = 0"
| "height T_RENEWAL_DUE = 1"
| "height T_NOTICE_SERVED = 2"
| "height T_NEGOTIATING = 3"
| "height T_RENEWED = 4"
| "height T_DISPUTED = 4"
| "height T_ENDING = 5"
| "height T_ARCHIVED = 6"

definition undisputed :: "tenancyStatus \<Rightarrow> tenancyStatus \<Rightarrow> bool" where
  "undisputed a b \<longleftrightarrow> moves a b \<and> a \<noteq> T_DISPUTED \<and> b \<noteq> T_DISPUTED"

lemma undisputed_climbs: "undisputed a b \<Longrightarrow> height a < height b"
  by (cases a) (auto simp: undisputed_def elim!: moves_from)

lemma undisputed_run_climbs: "undisputed\<^sup>+\<^sup>+ a b \<Longrightarrow> height a < height b"
  by (induction rule: tranclp_induct) (auto dest: undisputed_climbs)

text \<open>
  C14: the status machine of a tenancy. A change of status is all or nothing: an error leaves the
  database alone, and a success follows the table of allowed moves on a tenancy the caller can
  read, changes the status of exactly that tenancy and records the move in the evidence log.
  Outside disputes a tenancy never returns to a status it has left, and nothing leaves the
  archive.
\<close>

theorem tenancy_status_machine:
  "(case setTenancyStatus ctx i st s of
      (Inl e, u) \<Rightarrow> u = s
    | (Inr t', u) \<Rightarrow> \<exists>t. getTenancy ctx i s = (Inr t, s) \<and> moves (tn_status t) st \<and>
        t' = t\<lparr>tn_status := st\<rparr> \<and>
        w_tenancies u = upd_where (\<lambda>r. tn_id r = i) (\<lambda>r. r\<lparr>tn_status := st\<rparr>) (w_tenancies s) \<and>
        (\<exists>ev. w_evidence u = w_evidence s @ [ev] \<and> ev_type ev = EV_FIELD_CORRECTED \<and>
           ev_scopeType ev = S_TENANCY \<and> ev_scopeId ev = Some i)) \<and>
   \<not> undisputed\<^sup>+\<^sup>+ a a \<and> \<not> moves T_ARCHIVED b"
proof -
  have "all_or_nothing (setTenancyStatus ctx i st)"
    unfolding setTenancyStatus_def set_status_def
    by ((rule all_or_nothing_check, rule outcome)+, rule all_or_nothing_never, intro outcome)
      (simp add: status_evidence_def evidence_by_def evidenceOf_def)
  note err = all_or_nothingD [OF this, of s]
  have ok: "\<exists>t. getTenancy ctx i s = (Inr t, s) \<and> moves (tn_status t) st \<and>
        t' = t\<lparr>tn_status := st\<rparr> \<and>
        w_tenancies u = upd_where (\<lambda>r. tn_id r = i) (\<lambda>r. r\<lparr>tn_status := st\<rparr>) (w_tenancies s) \<and>
        (\<exists>ev. w_evidence u = w_evidence s @ [ev] \<and> ev_type ev = EV_FIELD_CORRECTED \<and>
           ev_scopeType ev = S_TENANCY \<and> ev_scopeId ev = Some i)"
    if "setTenancyStatus ctx i st s = (Inr t', u)" for t' u
    using that by (auto simp: setTenancyStatus_def op_ok requireCap_def set_status_def
      status_evidence_def evidence_by_def evidenceOf_def evidence_row_def intro: moves.intros)
  have "\<not> undisputed\<^sup>+\<^sup>+ a a" using undisputed_run_climbs by blast
  moreover have "\<not> moves T_ARCHIVED b" by (auto elim: moves_from)
  moreover have "case setTenancyStatus ctx i st s of
      (Inl e, u) \<Rightarrow> u = s
    | (Inr t', u) \<Rightarrow> \<exists>t. getTenancy ctx i s = (Inr t, s) \<and> moves (tn_status t) st \<and>
        t' = t\<lparr>tn_status := st\<rparr> \<and>
        w_tenancies u = upd_where (\<lambda>r. tn_id r = i) (\<lambda>r. r\<lparr>tn_status := st\<rparr>) (w_tenancies s) \<and>
        (\<exists>ev. w_evidence u = w_evidence s @ [ev] \<and> ev_type ev = EV_FIELD_CORRECTED \<and>
           ev_scopeType ev = S_TENANCY \<and> ev_scopeId ev = Some i)"
    using err ok by (auto split: prod.splits sum.splits)
  ultimately show ?thesis by blast
qed

subsection \<open>Creating and archiving\<close>

definition tenancies_ok :: "world \<Rightarrow> bool" where
  "tenancies_ok s \<longleftrightarrow> distinct (map tn_id (w_tenancies s)) \<and> (\<forall>t \<in> set (w_tenancies s). tn_id t < w_next s)"

lemma after_job_flags:
  "w_flags (after_job base j s) = w_flags s" "w_next s \<le> w_next (after_job base j s)"
  "w_now (after_job base j s) = w_now s"
  by (cases j; simp add: after_job_def split: option.splits)+

lemma run_jobs_flags:
  "w_flags (run_jobs base js s) = w_flags s \<and> w_next s \<le> w_next (run_jobs base js s) \<and>
   w_now (run_jobs base js s) = w_now s"
  unfolding run_jobs_def
proof (induction js arbitrary: s)
  case (Cons j js)
  from Cons.IH [of "after_job base j s"] after_job_flags [where base = base and j = j and s = s]
  show ?case by (metis fold_simps(2) order_trans)
qed simp

lemma regenerated_flags:
  "w_flags (regenerated t g s) = w_flags s" "w_next s \<le> w_next (regenerated t g s)"
  "w_now (regenerated t g s) = w_now s"
  using run_jobs_flags [of "base_of t" "date_jobs t g" s]
    run_jobs_flags [of "base_of t" "cheque_jobs (live_items (tn_id t) s)"
      "write_gate (tn_id t) g (run_jobs (base_of t) (date_jobs t g) s)"]
  by (auto simp: regenerated_def drop_stale_def write_gate_def)

lemma regenerated_flags_ok: "flags_ok s \<Longrightarrow> flags_ok (regenerated t g s)"
  using regenerated_flags [where t = t and g = g and s = s] by (auto simp: flags_ok_def)

lemma find_fresh_tenancy:
  "tenancies_ok s \<Longrightarrow> tn_id t = w_next s \<Longrightarrow>
   List.find (\<lambda>r. tn_id r = w_next s) (w_tenancies s @ [t]) = Some t"
  by (auto simp: tenancies_ok_def find_append split: option.splits dest!: find_Some_in)

text \<open>
  a tenancy that is created comes up armed. The new row carries the agreed terms with its
  dates on midnights, every deadline its record calls for is open with the calculators' date,
  and its flags already say whether the Ejari number is missing.
\<close>

theorem createTenancy_arms:
  assumes "tenancies_ok s" and "deadlines_ok s" and "flags_ok s" and "distinct (map pi_id (w_payments s))"
    and "createTenancy ctx inp s = (Inr t, u)"
  shows "t = tenancy_row (w_next s) (w_now s) (cx_workspaceId ctx) inp \<and>
    (\<exists>t' \<in> set (w_tenancies u). \<exists>g. t' = t\<lparr>tn_noticeGateAt := g\<rparr>) \<and>
    (\<forall>j \<in> set (deadline_jobs t (payments_of (tn_id t) s)). settled (base_of t) (w_deadlines u) j) \<and>
    (active_in (tenancy_scope t) RK_MISSING_EJARI u \<longleftrightarrow> no_ejari t)"
proof -
  define i where "i = w_next s"
  define row where "row = tenancy_row i (w_now s) (cx_workspaceId ctx) inp"
  define s1 where "s1 = s\<lparr>w_next := Suc i, w_tenancies := w_tenancies s @ [row]\<rparr>"
  obtain s2 s3 where run: "regenerateDeadlinesForTenancy i s1 = (Inr (), s2)"
      "evaluateRiskForTenancy i s2 = (Inr (), s3)" and t: "t = row"
      and u: "w_flags u = w_flags s3" "w_deadlines u = w_deadlines s3" "w_tenancies u = w_tenancies s3"
    using assms(5) by (auto simp: createTenancy_def op_ok Let_def i_def row_def s1_def)
  have row: "tn_id row = i" "tn_archivedAt row = None" by (simp_all add: row_def tenancy_row_def)
  have find: "List.find (\<lambda>r. tn_id r = i) (w_tenancies s1) = Some row"
    using find_fresh_tenancy [OF assms(1), of row] row by (simp add: s1_def i_def)
  have ok: "deadlines_ok s1" "flags_ok s1" "distinct (map pi_id (w_payments s1))"
    using assms(2-4) by (auto simp: s1_def deadlines_ok_def flags_ok_def i_def)
  obtain g where g: "noticeGate (tn_endDate row) (of_int (tn_noticePeriodDays row)) = Inr g"
    using run(1) unfolding regenerateDeadlinesForTenancy_def by (auto simp: op_ok find row)
  have s2: "s2 = regenerated row g s1" using regenerate_live [OF ok(1) find row(2) g] run(1) by simp
  let ?row = "row\<lparr>tn_noticeGateAt := Some (cr_date g)\<rparr>"
  have find2: "List.find (\<lambda>r. tn_id r = i) (w_tenancies s2) = Some ?row"
    using find row by (simp add: s2 regenerated_tenancies find_upd_where_same)
  have s3: "only_flags s2 s3" "active_in (tenancy_scope ?row) RK_MISSING_EJARI s3 \<longleftrightarrow> no_ejari ?row"
    using tenancy_rules [OF _ find2] regenerated_flags_ok [OF ok(2)] run(2) row by (auto simp: s2)
  have jobs: "settled (base_of row) (w_deadlines s2) j" if "j \<in> set (deadline_jobs row (payments_of i s))" for j
  proof -
    have "live_items i s1 = activeItems (payments_of i s)"
      by (simp add: live_items_def payments_of_def s1_def)
    then show ?thesis
      using regenerated_jobs [OF ok(1,3), of j row g] that row(1) by (simp add: s2 deadline_jobs_eq [OF g])
  qed
  have "?row \<in> set (w_tenancies u)"
    using find_Some_in [OF find2] only_flags_same(1) [OF s3(1)] u(3) by simp
  moreover have "active_in (tenancy_scope row) RK_MISSING_EJARI u \<longleftrightarrow> no_ejari row"
    using s3(2) u(1) by (simp add: active_in_def tenancy_scope_def no_ejari_def)
  ultimately show ?thesis
    using t jobs row only_flags_same(3) [OF s3(1)] u(2) by (auto simp: row_def i_def)
qed

definition sample_input :: tenancy_input where
  "sample_input = \<lparr> ti_propertyId = 41, ti_landlordContactId = None, ti_tenantContactId = None,
     ti_ejariNo = None, ti_startDate = 1798761600000, ti_endDate = 1830211200000, ti_annualRent = 95000,
     ti_depositAmount = None, ti_paymentTermsNote = None, ti_noticePeriodDays = None,
     ti_contractDocId = None, ti_source = None \<rparr>"

lemma manager_can:
  "hasCapability (sample_ctx MANAGER) ''tenancies.write''"
  "hasCapability (sample_ctx MANAGER) ''tenancies.read''"
  "hasCapability (sample_ctx MANAGER) ''payments.write''"
  "hasCapability (sample_ctx MANAGER) ''renewals.write''"
  "hasCapability (sample_ctx MANAGER) ''renewals.decide''"
  by (simp_all add: hasCapability_def sample_ctx_def roleHas_def READ_PORTFOLIO_def)

lemma manager_ctx:
  "cx_subjectContactId (sample_ctx MANAGER) = None" "cx_clientPrincipalId (sample_ctx MANAGER) = None"
  "\<not> isDelegateRole (cx_role (sample_ctx MANAGER))" "cx_workspaceId (sample_ctx MANAGER) = 5"
  "cx_userId (sample_ctx MANAGER) = 1" "\<not> cx_isStaff (sample_ctx MANAGER)"
  "persona_contact (sample_ctx MANAGER) = None"
  by (simp_all add: sample_ctx_def isPersonaRole_def isDelegateRole_def persona_contact_def)

lemma tenancy_create_verb: "audit_verb_ok ''tenancy.create''"
  by (simp add: audit_verb_ok_def verb_char_def)

lemma createTenancy_run:
  assumes "hasCapability ctx ''tenancies.write''"
    and "assertOwn ctx (map_option pr_workspaceId p) (map_option pr_id p) = Inr ()"
    and "List.find (\<lambda>p. pr_id p = ti_propertyId inp) (w_properties s) = p"
    and "row = tenancy_row (w_next s) (w_now s) (cx_workspaceId ctx) inp"
    and "s1 = s\<lparr>w_next := Suc (w_next s), w_tenancies := w_tenancies s @ [row]\<rparr>"
  shows "createTenancy ctx inp s =
    bindE (regenerateDeadlinesForTenancy (w_next s)) (\<lambda>_. thenE (evaluateRiskForTenancy (w_next s))
      (bindE (recordAudit (audit_by ctx ''tenancy.create'' ''Tenancy'' (Some (w_next s)))) (\<lambda>_. ret row))) s1"
  using assms by (simp add: createTenancy_def bindE_apply requireCap_def assertE_eval readE_eval liftE_eval
    getNow_eval newId_eval writeE_eval Let_def)

lemma sample_rows: "w_tenancies sample_world = [sample_tenancy]"
  by (simp add: sample_world_def)

lemma sample_create:
  "createTenancy (sample_ctx MANAGER) (sample_input\<lparr>ti_noticePeriodDays := n\<rparr>) sample_world =
    bindE (regenerateDeadlinesForTenancy 1000) (\<lambda>_. thenE (evaluateRiskForTenancy 1000)
      (bindE (recordAudit (audit_by (sample_ctx MANAGER) ''tenancy.create'' ''Tenancy'' (Some 1000)))
        (\<lambda>_. ret (tenancy_row 1000 0 5 (sample_input\<lparr>ti_noticePeriodDays := n\<rparr>)))))
      (sample_world\<lparr>w_next := 1001, w_tenancies :=
        [sample_tenancy, tenancy_row 1000 0 5 (sample_input\<lparr>ti_noticePeriodDays := n\<rparr>)]\<rparr>)"
proof -
  have "w_next sample_world = 1000" "w_now sample_world = 0" "w_tenancies sample_world = [sample_tenancy]"
    "List.find (\<lambda>p. pr_id p = 41) (w_properties sample_world) = Some sample_property"
    by (simp_all add: sample_world_def sample_users_def empty_world_def sample_property_def)
  moreover have "assertOwn (sample_ctx MANAGER) (Some 5) (Some 41) = Inr ()"
    by (simp add: assertOwn_def manager_ctx assertSameWorkspace_def)
  ultimately show ?thesis
    by (subst createTenancy_run [of _ "Some sample_property"])
      (simp_all add: manager_can manager_ctx sample_input_def sample_property_def)
qed

theorem createTenancy_arms_witness:
  "\<exists>t u. createTenancy (sample_ctx MANAGER) sample_input sample_world = (Inr t, u) \<and>
     active_in (tenancy_scope t) RK_MISSING_EJARI u"
proof -
  let ?row = "tenancy_row 1000 0 5 sample_input"
  let ?s1 = "sample_world\<lparr>w_next := 1001, w_tenancies := [sample_tenancy, ?row]\<rparr>"
  have in_: "sample_input\<lparr>ti_noticePeriodDays := None\<rparr> = sample_input" by (simp add: sample_input_def)
  note run = sample_create [of None, unfolded in_]
  have ok: "deadlines_ok ?s1" "flags_ok ?s1" by (simp_all add: deadlines_ok_def flags_ok_def sample_defs)
  have find: "List.find (\<lambda>r. tn_id r = 1000) (w_tenancies ?s1) = Some ?row"
    by (simp add: sample_tenancy_def tenancy_row_def)
  have "tn_noticePeriodDays ?row = 90" "tn_archivedAt ?row = None"
    by (simp_all add: tenancy_row_def sample_input_def)
  moreover from this obtain g where
    g: "noticeGate (tn_endDate ?row) (of_int (tn_noticePeriodDays ?row)) = Inr g"
    using isInteger_of_int [of 90] by (auto simp: noticeGate_ok)
  ultimately have reg: "regenerateDeadlinesForTenancy 1000 ?s1 = (Inr (), regenerated ?row g ?s1)"
    using regenerate_live [OF ok(1) find] by simp
  obtain v where v: "evaluateRiskForTenancy 1000 (regenerated ?row g ?s1) = (Inr (), v)"
    using outcome_evaluate(1) [of 1000] by (auto simp: never_fails_def)
  have "ai_verb (audit_by (sample_ctx MANAGER) ''tenancy.create'' ''Tenancy'' (Some 1000)) = ''tenancy.create''"
    by (simp add: audit_by_def auditOf_def)
  then obtain u where u: "createTenancy (sample_ctx MANAGER) sample_input sample_world = (Inr ?row, u)"
    unfolding run using reg v tenancy_create_verb by (simp add: bindE_apply recordAudit_def op_eval)
  have "tenancies_ok sample_world" "deadlines_ok sample_world" "flags_ok sample_world"
    "distinct (map pi_id (w_payments sample_world))"
    by (simp_all add: tenancies_ok_def deadlines_ok_def flags_ok_def sample_defs)
  then have "active_in (tenancy_scope ?row) RK_MISSING_EJARI u"
    using createTenancy_arms [OF _ _ _ _ u] by (simp add: no_ejari_def tenancy_row_def sample_input_def)
  with u show ?thesis by blast
qed

text \<open>
  creating a tenancy is not atomic. With a notice period of zero the call throws, from the
  notice gate calculator, after the row was inserted: the tenancy stays, without deadlines,
  flags or an audit row, and every later regeneration of it throws too.
\<close>

theorem createTenancy_keeps_refused_row:
  "\<exists>ctx inp s e u. createTenancy ctx inp s = (Inl e, u) \<and> length (w_tenancies u) = Suc (length (w_tenancies s)) \<and>
     w_deadlines u = w_deadlines s \<and> w_audit u = w_audit s \<and>
     (\<exists>e'. regenerateDeadlinesForTenancy (tn_id (last (w_tenancies u))) u = (Inl e', u))"
proof -
  let ?inp = "sample_input\<lparr>ti_noticePeriodDays := Some 0\<rparr>"
  let ?row = "tenancy_row 1000 0 5 ?inp"
  let ?s1 = "sample_world\<lparr>w_next := 1001, w_tenancies := [sample_tenancy, ?row]\<rparr>"
  have row: "tn_id ?row = 1000" "tn_noticePeriodDays ?row = 0" "tn_archivedAt ?row = None"
    by (simp_all add: tenancy_row_def)
  have "noticeGate (tn_endDate ?row) (of_int (tn_noticePeriodDays ?row)) =
      Inl (ThrownError ''noticePeriodDays must be a positive integer'')"
    using row by (simp add: noticeGate_def)
  then have reg: "regenerateDeadlinesForTenancy 1000 ?s1 =
      (Inl (ThrownError ''noticePeriodDays must be a positive integer''), ?s1)"
    using row by (simp add: regenerateDeadlinesForTenancy_def bindE_apply readE_eval someE_eval liftE_eval
      sample_tenancy_def)
  have "createTenancy (sample_ctx MANAGER) ?inp sample_world =
      (Inl (ThrownError ''noticePeriodDays must be a positive integer''), ?s1)"
    unfolding sample_create using reg by (simp add: bindE_apply)
  then show ?thesis
    using reg row
    by (intro exI [of _ "sample_ctx MANAGER"] exI [of _ ?inp] exI [of _ sample_world]
      exI [of _ "ThrownError ''noticePeriodDays must be a positive integer''"] exI [of _ ?s1])
      (simp add: sample_rows)
qed

text \<open>
  archiving a tenancy closes it for good. It is stamped and archived, no deadline of it stays
  open, and no later change of status can touch it, since nothing leaves the archive.
\<close>

theorem archiveTenancy_closes:
  assumes "archiveTenancy ctx i s = (Inr t, u)"
  shows "tn_status t = T_ARCHIVED \<and> t \<in> set (w_tenancies u) \<and> tn_archivedAt t = Some (w_now s) \<and>
    (\<forall>d \<in> set (w_deadlines u). dl_tenancyId d = Some i \<longrightarrow> dl_status d \<noteq> DL_OPEN) \<and>
    (\<forall>st. \<nexists>t' v. setTenancyStatus ctx i st u = (Inr t', v))"
proof -
  let ?f = "\<lambda>r. r\<lparr>tn_archivedAt := Some (w_now s), tn_status := T_ARCHIVED\<rparr>"
  let ?s1 = "s\<lparr>w_tenancies := upd_where (\<lambda>r. tn_id r = i) ?f (w_tenancies s)\<rparr>"
  obtain t0 s2 where t0: "List.find (\<lambda>t. tn_id t = i) (w_tenancies s) = Some t0" and t: "t = ?f t0"
    and reg: "regenerateDeadlinesForTenancy i ?s1 = (Inr (), s2)"
    and u: "w_tenancies u = w_tenancies s2" "w_deadlines u = w_deadlines s2"
    using assms by (auto simp: archiveTenancy_def op_ok Let_def)
  have id: "tn_id t0 = i" using find_Some_in [OF t0] by simp
  have find: "List.find (\<lambda>t. tn_id t = i) (w_tenancies ?s1) = Some t"
    using t0 id by (simp add: find_upd_where_same t)
  have arch: "tn_archivedAt t \<noteq> None" by (simp add: t)
  have none: "\<forall>d \<in> set (w_deadlines u). dl_tenancyId d = Some i \<longrightarrow> dl_status d \<noteq> DL_OPEN"
    using regenerate_archived [OF find arch] reg u by auto
  have same: "w_tenancies u = w_tenancies ?s1"
    using reg u find arch by (simp add: regenerateDeadlinesForTenancy_def bindE_apply readE_eval someE_eval
      writeE_eval) auto
  have "List.find (\<lambda>t. tn_id t = i) (w_tenancies u) = Some t" using find same by simp
  then have "\<nexists>t' v. setTenancyStatus ctx i st u = (Inr t', v)" for st
    by (auto simp: setTenancyStatus_def op_ok t)
  moreover have "t \<in> set (w_tenancies u)" using find_Some_in [OF find] same by simp
  ultimately show ?thesis using none by (simp add: t)
qed

lemma manager_reads: "target_workspace target = Some 5 \<Longrightarrow> assertReadable (sample_ctx MANAGER) target s = Inr ()"
  by (simp add: assertReadable_def manager_ctx)

lemma manager_getTenancy:
  "List.find (\<lambda>t. tn_id t = i) (w_tenancies s) = Some t \<Longrightarrow> tn_workspaceId t = 5 \<Longrightarrow>
   getTenancy (sample_ctx MANAGER) i s = (Inr t, s)"
  by (subst getTenancy_ok) (simp add: manager_can manager_reads tenancy_target_def)

theorem archiveTenancy_closes_witness:
  "\<exists>t u. archiveTenancy (sample_ctx MANAGER) 51 sample_world = (Inr t, u) \<and> tn_status t = T_ARCHIVED"
proof -
  let ?t = "sample_tenancy\<lparr>tn_archivedAt := Some 0, tn_status := T_ARCHIVED\<rparr>"
  have get: "getTenancy (sample_ctx MANAGER) 51 sample_world = (Inr sample_tenancy, sample_world)"
    by (rule manager_getTenancy) (simp_all add: sample_rows sample_tenancy_def)
  have verb: "audit_verb_ok ''tenancy.archive''" by (simp add: audit_verb_ok_def verb_char_def)
  have find: "List.find (\<lambda>t. tn_id t = 51) (w_tenancies (sample_world\<lparr>w_tenancies := [?t]\<rparr>)) = Some ?t"
    by (simp add: sample_tenancy_def)
  have now: "w_now sample_world = 0" "tn_id sample_tenancy = 51"
    by (simp_all add: sample_world_def sample_users_def empty_world_def sample_tenancy_def)
  obtain v where v: "regenerateDeadlinesForTenancy 51 (sample_world\<lparr>w_tenancies := [?t]\<rparr>) = (Inr (), v)"
    using regenerate_archived [OF find] by auto
  obtain t u where r: "archiveTenancy (sample_ctx MANAGER) 51 sample_world = (Inr t, u)"
    using get verb v now sample_rows
    by (simp add: archiveTenancy_def bindE_apply requireCap_def assertE_eval manager_can getNow_eval
      Let_def writeE_eval recordAudit_def newId_eval audit_by_def auditOf_def ret_eval)
  then show ?thesis using archiveTenancy_closes [OF r] by blast
qed

text \<open>
  the two ways into the archive differ. Moving a tenancy to \<open>ARCHIVED\<close> with
  \<open>setTenancyStatus\<close> succeeds and leaves the row without an archive stamp and its deadlines
  open.
\<close>

theorem status_archive_leaves_deadlines_open:
  "\<exists>ctx s t u d. setTenancyStatus ctx (tn_id t) T_ARCHIVED s = (Inr t, u) \<and> tn_status t = T_ARCHIVED \<and>
     t \<in> set (w_tenancies u) \<and> tn_archivedAt t = None \<and>
     d \<in> set (w_deadlines u) \<and> dl_tenancyId d = Some (tn_id t) \<and> dl_status d = DL_OPEN"
proof -
  define d where "d = \<lparr> dl_id = 71, dl_workspaceId = 5, dl_tenancyId = Some 51, dl_propertyId = Some 41,
    dl_kind = DK_CONTRACT_EXPIRY, dl_dueAt = 0, dl_status = DL_OPEN, dl_computedFrom = JNull, dl_createdAt = 0 \<rparr>"
  let ?s = "sample_world\<lparr>w_deadlines := [d]\<rparr>"
  let ?t = "sample_tenancy\<lparr>tn_status := T_ARCHIVED\<rparr>"
  have get: "getTenancy (sample_ctx MANAGER) 51 ?s = (Inr sample_tenancy, ?s)"
    by (rule manager_getTenancy) (simp_all add: sample_rows sample_tenancy_def)
  have t: "tn_id sample_tenancy = 51" "tn_status sample_tenancy = T_ACTIVE" "tn_archivedAt sample_tenancy = None"
    by (simp_all add: sample_tenancy_def)
  obtain u where u: "setTenancyStatus (sample_ctx MANAGER) 51 T_ARCHIVED ?s = (Inr ?t, u)"
      "w_tenancies u = [?t]" "w_deadlines u = [d]"
    using get t by (simp add: setTenancyStatus_def bindE_apply requireCap_def assertE_eval manager_can
      set_status_def writeE_eval recordEvidence_def status_evidence_def evidence_by_def evidenceOf_def
      manager_ctx getNow_eval newId_eval ret_eval sample_rows)
  then show ?thesis
    using t by (intro exI [of _ "sample_ctx MANAGER"] exI [of _ ?s] exI [of _ ?t] exI [of _ u] exI [of _ d])
      (simp add: d_def)
qed

end
