(* ===== verification/Js_Text.thy ===== *)
theory Js_Text
  imports Js_Numbers
begin

text \<open>
  The operations on strings the services share. A string is a list of character codes below 256;
  a character beyond them in a literal of the code is written as its UTF-8 bytes.
\<close>

subsection \<open>Trimming, case, joining\<close>

definition js_space :: "char \<Rightarrow> bool" where
  "js_space c \<longleftrightarrow> (of_char c :: nat) \<in> {9, 10, 11, 12, 13, 32, 160}"

definition js_trim :: "string \<Rightarrow> string" where
  "js_trim s = rev (dropWhile js_space (rev (dropWhile js_space s)))"

text \<open>\<open>String.prototype.toLowerCase\<close> on characters below 256.\<close>

definition lower_char :: "char \<Rightarrow> char" where
  "lower_char c = (let n = (of_char c :: nat) in
     if (65 \<le> n \<and> n \<le> 90) \<or> (192 \<le> n \<and> n \<le> 222 \<and> n \<noteq> 215) then char_of (n + 32) else c)"

definition js_lower :: "string \<Rightarrow> string" where
  "js_lower s = map lower_char s"

definition nl :: string where "nl = [CHR 0x0A]"

definition em_dash :: string where "em_dash = '' '' @ [CHR 0xE2, CHR 0x80, CHR 0x94] @ '' ''"

definition mid_dot :: string where "mid_dot = '' '' @ [CHR 0xC2, CHR 0xB7] @ '' ''"

definition right_arrow :: string where "right_arrow = '' '' @ [CHR 0xE2, CHR 0x86, CHR 0x92] @ '' ''"

text \<open>\<open>xs.filter(Boolean).join(" . ")\<close>.\<close>

definition join_dot :: "string option list \<Rightarrow> string" where
  "join_dot xs =
     (case filter (\<lambda>x. x \<noteq> []) (map (\<lambda>x. case x of None \<Rightarrow> [] | Some y \<Rightarrow> y) xs) of
        [] \<Rightarrow> [] | y # ys \<Rightarrow> foldl (\<lambda>acc z. acc @ mid_dot @ z) y ys)"

text \<open>\<open>x?.trim() || null\<close>.\<close>

definition trimmed :: "string option \<Rightarrow> string option" where
  "trimmed x = (case x of None \<Rightarrow> None | Some y \<Rightarrow> if js_trim y = [] then None else Some (js_trim y))"

text \<open>An optional text is truthy when it is there and not empty.\<close>

definition given :: "string option \<Rightarrow> bool" where
  "given x \<longleftrightarrow> x \<noteq> None \<and> x \<noteq> Some []"

text \<open>\<open>xs.join(sep)\<close>.\<close>

fun join_with :: "string \<Rightarrow> string list \<Rightarrow> string" where
  "join_with sep [] = []"
| "join_with sep [x] = x"
| "join_with sep (x # xs) = x @ sep @ join_with sep xs"

text \<open>\<open>orderBy\<close> a nullable text column, nulls last.\<close>

definition by_text :: "(string \<Rightarrow> rat) \<Rightarrow> ('r \<Rightarrow> string option) \<Rightarrow> 'r list \<Rightarrow> 'r list" where
  "by_text collate f rows =
     sort_key (\<lambda>r. case f r of None \<Rightarrow> 0 | Some x \<Rightarrow> collate x) (filter (\<lambda>r. f r \<noteq> None) rows) @
     filter (\<lambda>r. f r = None) rows"

end
