(* ===== verification/Listing_Readiness.thy ===== *)
theory Listing_Readiness
  imports Dates Js_Text
begin

text \<open>
  \<open>calculators/listingReadiness.ts\<close>: the weighted checklist that gates the publication of a
  listing.
\<close>

subsection \<open>The checklist\<close>

record readiness_input =
  li_askingRent :: "rat option"
  li_availableFrom :: "time option"
  li_furnished :: "bool option"
  li_description :: "string option"
  li_permitRef :: "string option"
  li_bedrooms :: "int option"
  li_sizeSqft :: "int option"

record readiness_check =
  ck_key :: string
  ck_label :: string
  ck_ok :: bool
  ck_weight :: int
  ck_required :: bool

record readiness_result =
  rr_score :: int
  rr_checks :: "readiness_check list"
  rr_canPublish :: bool
  rr_rule :: string
  rr_version :: string
  rr_inputs :: json

definition PUBLISH_THRESHOLD :: int where "PUBLISH_THRESHOLD = 70"

definition MIN_DESCRIPTION_LEN :: nat where "MIN_DESCRIPTION_LEN = 40"

definition trimmed_length :: "string option \<Rightarrow> nat" where
  "trimmed_length x = (case x of None \<Rightarrow> 0 | Some s \<Rightarrow> length (js_trim s))"

definition has_text :: "string option \<Rightarrow> bool" where
  "has_text x \<longleftrightarrow> (case x of None \<Rightarrow> False | Some s \<Rightarrow> js_trim s \<noteq> [])"

definition readiness_checks :: "readiness_input \<Rightarrow> readiness_check list" where
  "readiness_checks inp =
     [\<lparr> ck_key = ''permitRef'', ck_label = ''RERA permit recorded'',
        ck_ok = has_text (li_permitRef inp), ck_weight = 25, ck_required = True \<rparr>,
      \<lparr> ck_key = ''askingRent'', ck_label = ''Asking rent set'',
        ck_ok = 0 < (case li_askingRent inp of None \<Rightarrow> 0 | Some r \<Rightarrow> r), ck_weight = 20, ck_required = True \<rparr>,
      \<lparr> ck_key = ''availableFrom'', ck_label = ''Availability date set'',
        ck_ok = li_availableFrom inp \<noteq> None, ck_weight = 15, ck_required = False \<rparr>,
      \<lparr> ck_key = ''description'', ck_label = ''Description (40+ characters)'',
        ck_ok = MIN_DESCRIPTION_LEN \<le> trimmed_length (li_description inp), ck_weight = 15,
        ck_required = False \<rparr>,
      \<lparr> ck_key = ''furnished'', ck_label = ''Furnishing specified'',
        ck_ok = li_furnished inp \<noteq> None, ck_weight = 5, ck_required = False \<rparr>,
      \<lparr> ck_key = ''bedrooms'', ck_label = ''Bedrooms recorded'',
        ck_ok = li_bedrooms inp \<noteq> None, ck_weight = 10, ck_required = False \<rparr>,
      \<lparr> ck_key = ''sizeSqft'', ck_label = ''Size recorded'',
        ck_ok = li_sizeSqft inp \<noteq> None, ck_weight = 10, ck_required = False \<rparr>]"

definition total_weight :: "readiness_check list \<Rightarrow> int" where
  "total_weight cs = sum_list (map ck_weight cs)"

definition earned_weight :: "readiness_check list \<Rightarrow> int" where
  "earned_weight cs = sum_list (map (\<lambda>c. if ck_ok c then ck_weight c else 0) cs)"

definition listingReadiness :: "readiness_input \<Rightarrow> readiness_result" where
  "listingReadiness inp =
     (let checks = readiness_checks inp;
          score = js_round (js_mul (js_div (of_int (earned_weight checks)) (of_int (total_weight checks))) 100);
          requiredOk = list_all (\<lambda>c. \<not> ck_required c \<or> ck_ok c) checks
      in \<lparr> rr_score = score, rr_checks = checks,
           rr_canPublish = (requiredOk \<and> PUBLISH_THRESHOLD \<le> score),
           rr_rule = ''listing_readiness'', rr_version = ''v1'',
           rr_inputs = JObj [(''askingRent'', jopt JNum (li_askingRent inp)),
             (''availableFrom'', jopt (JStr \<circ> toISODate) (li_availableFrom inp)),
             (''furnished'', jopt JBool (li_furnished inp)),
             (''hasDescription'', JBool (MIN_DESCRIPTION_LEN \<le> trimmed_length (li_description inp))),
             (''permitRef'', JBool (case li_permitRef inp of None \<Rightarrow> False | Some s \<Rightarrow> s \<noteq> [])),
             (''bedrooms'', jopt (JNum \<circ> of_int) (li_bedrooms inp)),
             (''sizeSqft'', jopt (JNum \<circ> of_int) (li_sizeSqft inp))] \<rparr>)"

subsection \<open>The score is the weight earned\<close>

lemma total_is_100: "total_weight (readiness_checks inp) = 100"
  by (simp add: total_weight_def readiness_checks_def)

lemma earned_bounds: "0 \<le> earned_weight (readiness_checks inp)" "earned_weight (readiness_checks inp) \<le> 100"
  by (simp_all add: earned_weight_def readiness_checks_def)

lemma percent_exact:
  assumes "0 \<le> e" "e \<le> 100"
  shows "js_round (js_mul (js_div (of_int e) 100) 100) = e"
proof -
  define q where "q = (of_int e :: rat) / 100"
  have q: "\<bar>q\<bar> \<le> 1" using assms by (simp add: q_def)
  have e1: "\<bar>fl q - q\<bar> \<le> 1 / 2 ^ 53" using fl_error_le [OF q] by simp
  have "\<bar>fl q - q\<bar> \<le> 1" by (rule order_trans [OF e1]) simp
  then have "\<bar>fl q * 100\<bar> \<le> 200" using q unfolding abs_le_iff by linarith
  from fl_error_le [OF this] have e2: "\<bar>fl (fl q * 100) - fl q * 100\<bar> \<le> 200 / 2 ^ 53" .
  have "\<bar>fl q - q\<bar> \<le> 1 / 1000" "\<bar>fl (fl q * 100) - fl q * 100\<bar> \<le> 1 / 1000"
    by (rule order_trans [OF e1], simp, rule order_trans [OF e2], simp)
  moreover have "of_int e = q * 100" by (simp add: q_def)
  ultimately have x: "\<bar>fl (fl q * 100) - of_int e\<bar> < 1 / 2" by linarith
  have "of_int e - 1 < (of_int (js_round (fl (fl q * 100))) :: rat)"
    "(of_int (js_round (fl (fl q * 100))) :: rat) < of_int e + 1"
    using js_round_bounds [of "fl (fl q * 100)"] x unfolding abs_less_iff by linarith+
  then have "js_round (fl (fl q * 100)) = e" by linarith
  then show ?thesis by (simp add: js_ops q_def)
qed

text \<open>
  the readiness score, computed with IEEE division and multiplication, is exactly the sum of
  the weights of the checks that pass, between 0 and 100; a listing can be published if and only
  if it has a permit, a positive asking rent and a score of at least 70, which with both of
  them means 25 points from the other checks.
\<close>

theorem listing_readiness_exact:
  "rr_score (listingReadiness inp) = earned_weight (readiness_checks inp) \<and>
   0 \<le> rr_score (listingReadiness inp) \<and> rr_score (listingReadiness inp) \<le> 100 \<and>
   (rr_canPublish (listingReadiness inp) \<longleftrightarrow>
      has_text (li_permitRef inp) \<and> (\<exists>r. li_askingRent inp = Some r \<and> 0 < r) \<and>
      25 \<le> earned_weight (drop 2 (readiness_checks inp)))"
proof -
  have score: "rr_score (listingReadiness inp) = earned_weight (readiness_checks inp)"
    using percent_exact [OF earned_bounds] by (simp add: listingReadiness_def Let_def total_is_100)
  have "rr_canPublish (listingReadiness inp) \<longleftrightarrow>
      list_all (\<lambda>c. \<not> ck_required c \<or> ck_ok c) (readiness_checks inp) \<and>
      70 \<le> earned_weight (readiness_checks inp)"
    using score by (simp add: listingReadiness_def Let_def PUBLISH_THRESHOLD_def)
  also have "\<dots> \<longleftrightarrow> has_text (li_permitRef inp) \<and> (\<exists>r. li_askingRent inp = Some r \<and> 0 < r) \<and>
      25 \<le> earned_weight (drop 2 (readiness_checks inp))"
    by (auto simp: readiness_checks_def earned_weight_def split: option.splits)
  finally show ?thesis using score earned_bounds by simp
qed

end
