(* ===== verification/Frames.thy ===== *)
theory Frames
  imports Tenancies Listing_Readiness
begin

text \<open>
  What an operation leaves alone: \<open>same f\<close> says that the part \<open>f\<close> of the database is as it was. The
  rules read it off an operation's text, for any \<open>f\<close> that does not look at the tables it writes.
\<close>

definition same :: "(world \<Rightarrow> 'a) \<Rightarrow> world \<Rightarrow> world \<Rightarrow> bool" where
  "same f s t \<longleftrightarrow> f t = f s"

interpretation frame: step_law "same f" for f
  by unfold_locales (simp_all add: same_def)

lemma keeps_same_write: "(\<And>s. f (g s) = f s) \<Longrightarrow> keeps (same f) (writeE g)"
  by (rule keeps_writeE) (simp add: same_def)

lemma sameD: "keeps (same f) m \<Longrightarrow> m s = (r, t) \<Longrightarrow> f t = f s"
  using keepsD [of "same f" m s r t] by (simp add: same_def)

named_theorems frames

lemma frames_base [frames]:
  "keeps (same f) getNow" "keeps (same f) (requireCap ctx c)" "keeps (same f) (getTenancy ctx i)"
  by (simp_all add: keeps_def same_def getNow_def readE_def requireCap_def assertE_def op_defs)

lemma frames_newId [frames]: "(\<And>s n. f (s\<lparr>w_next := n\<rparr>) = f s) \<Longrightarrow> keeps (same f) newId"
  by (simp add: keeps_def same_def newId_def)

lemma frames_recordEvidence [frames]:
  "(\<And>s n. f (s\<lparr>w_next := n\<rparr>) = f s) \<Longrightarrow> (\<And>s n. f (s\<lparr>w_evidence := n\<rparr>) = f s) \<Longrightarrow>
   keeps (same f) (recordEvidence inp)"
  unfolding recordEvidence_def by (intro frame.keeps_intros frames keeps_same_write) 

lemma frames_recordAudit [frames]:
  "(\<And>s n. f (s\<lparr>w_next := n\<rparr>) = f s) \<Longrightarrow> (\<And>s n. f (s\<lparr>w_audit := n\<rparr>) = f s) \<Longrightarrow>
   keeps (same f) (recordAudit inp)"
  unfolding recordAudit_def by (intro frame.keeps_intros frames keeps_same_write)

lemma frames_notification [frames]:
  "(\<And>s n. f (s\<lparr>w_next := n\<rparr>) = f s) \<Longrightarrow> (\<And>s n. f (s\<lparr>w_messages := n\<rparr>) = f s) \<Longrightarrow>
   (\<And>s n. f (s\<lparr>w_outbox := n\<rparr>) = f s) \<Longrightarrow>
   keeps (same f) (recordNotification inp)"
  unfolding recordNotification_def notify_def enqueue_def Let_def
  by (intro frame.keeps_intros frames keeps_same_write)

lemma frames_flags [frames]:
  assumes "\<And>s n. f (s\<lparr>w_next := n\<rparr>) = f s" and "\<And>s n. f (s\<lparr>w_flags := n\<rparr>) = f s"
    and "\<And>s n. f (s\<lparr>w_evidence := n\<rparr>) = f s"
  shows "keeps (same f) (raiseFlag sc c sev)" "keeps (same f) (clearFlag sc c by)"
    "keeps (same f) (setFlag sc c sev b)" "keeps (same f) (clearPaymentLate i)" "keeps (same f) (raisePaymentLate i)"
    "keeps (same f) (evaluateRiskForTenancy j)" "keeps (same f) (evaluateRenewalRisk k)"
  unfolding setFlag_def evaluateRiskForTenancy_def evaluateRenewalRisk_def clearPaymentLate_def raisePaymentLate_def
    on_item_def clearFlag_def raiseFlag_def Let_def
  by (intro frame.keeps_intros frames keeps_same_write assms)+

lemma frames_ingest [frames]:
  assumes "\<And>s n. f (s\<lparr>w_next := n\<rparr>) = f s" and "\<And>s n. f (s\<lparr>w_documents := n\<rparr>) = f s" and "\<And>s n. f (s\<lparr>w_blobs := n\<rparr>) = f s"
  shows "keeps (same f) (ingestDocument h a)"
  unfolding ingestDocument_def newStorageKey_def storage_put_def Let_def
  by (intro frame.keeps_intros frames keeps_same_write assms)

lemma frames_logDocumentAccess [frames]:
  assumes "\<And>s n. f (s\<lparr>w_next := n\<rparr>) = f s" and "\<And>s n. f (s\<lparr>w_access := n\<rparr>) = f s"
  shows "keeps (same f) (logDocumentAccess w d a u l ip v)"
  unfolding logDocumentAccess_def by (intro frame.keeps_intros frames keeps_same_write assms)

lemma frames_links [frames]:
  assumes "\<And>s n. f (s\<lparr>w_next := n\<rparr>) = f s" and "\<And>s n. f (s\<lparr>w_links := n\<rparr>) = f s" and "\<And>s n. f (s\<lparr>w_audit := n\<rparr>) = f s"
  shows "keeps (same f) (createSecureLink h b tk ctx la)" "keeps (same f) (consumeLinkUse i)"
  unfolding createSecureLink_def consumeLinkUse_def
  by (intro frame.keeps_intros frames keeps_same_write assms)+

lemma frames_notify [frames]:
  "(\<And>s n. f (s\<lparr>w_next := n\<rparr>) = f s) \<Longrightarrow> (\<And>s n. f (s\<lparr>w_messages := n\<rparr>) = f s) \<Longrightarrow>
   (\<And>s n. f (s\<lparr>w_outbox := n\<rparr>) = f s) \<Longrightarrow> keeps (same f) (notify inp)"
  unfolding notify_def enqueue_def Let_def by (intro frame.keeps_intros frames keeps_same_write)

lemma frames_permit [frames]:
  assumes "\<And>s n. f (s\<lparr>w_next := n\<rparr>) = f s" and "\<And>s n. f (s\<lparr>w_deadlines := n\<rparr>) = f s"
  shows "keeps (same f) (syncListingPermitDeadline l)"
  unfolding syncListingPermitDeadline_def cancelDeadline_def Let_def
  by (intro frame.keeps_intros frames keeps_same_write assms)

text \<open>\<open>prisma.property.findUnique\<close>.\<close>

definition property_of :: "uid \<Rightarrow> world \<Rightarrow> property option" where
  "property_of i s = List.find (\<lambda>p. pr_id p = i) (w_properties s)"

subsection \<open>Invariants\<close>

context step_law
begin

lemma keeps_someE_bind: "(\<And>x. y = Some x \<Longrightarrow> keeps R (f x)) \<Longrightarrow> keeps R (bindE (someE e y) f)"
  by (cases y) (simp_all add: keeps_def bindE_def someE_def ret_def throw_def refl)

lemma keeps_assertE_bind: "(b \<Longrightarrow> keeps R n) \<Longrightarrow> keeps R (thenE (assertE b e) n)"
  by (cases b) (simp_all add: keeps_def bindE_def assertE_def ret_def throw_def refl)

end

text \<open>An invariant is kept by the parts of an operation that leave alone what it looks at.\<close>

definition preserves :: "(world \<Rightarrow> bool) \<Rightarrow> world \<Rightarrow> world \<Rightarrow> bool" where
  "preserves I s t \<longleftrightarrow> (I s \<longrightarrow> I t)"

interpretation inv: step_law "preserves I" for I
  by unfold_locales (simp_all add: preserves_def)

lemma keeps_preserves_same:
  "keeps (same f) m \<Longrightarrow> (\<And>s t. f s = f t \<Longrightarrow> I s \<Longrightarrow> I t) \<Longrightarrow> keeps (preserves I) m"
  unfolding keeps_def same_def preserves_def by metis

lemma preservesD: "keeps (preserves I) m \<Longrightarrow> m s = (r, t) \<Longrightarrow> I s \<Longrightarrow> I t"
  using keepsD [of "preserves I" m s r t] by (simp add: preserves_def)

lemma keeps_preserves_conj:
  "keeps (preserves I) m \<Longrightarrow> keeps (preserves J) m \<Longrightarrow> keeps (preserves (\<lambda>s. I s \<and> J s)) m"
  by (simp add: keeps_def preserves_def)

lemma count_where_upd_le:
  "(\<And>r. q (f r) \<Longrightarrow> q r) \<Longrightarrow> count_where q (upd_where p f rows) \<le> count_where q rows"
  unfolding count_where_upd_where by (rule count_where_mono) (auto split: if_splits)

end
