(* ===== verification/Payments.thy ===== *)
theory Payments
  imports Frames
begin

text \<open>
  \<open>services/payments.ts\<close>: the payment register. The runtime's printing of an amount
  (\<open>String(decimal)\<close>) and of a date (\<open>formatDubaiDate\<close>) are the parameters \<open>amt\<close> and \<open>fdate\<close>;
  non-ASCII characters of a text are its UTF-8 bytes.
\<close>

subsection \<open>Schedules\<close>

record item_input =
  im_seq :: int
  im_dueDate :: time
  im_amount :: rat
  im_instrument :: "instrument option"
  im_chequeNo :: "string option"
  im_bank :: "string option"
  im_notes :: "string option"

definition schedule_count :: "rat \<Rightarrow> int" where
  "schedule_count chequeCount = min (max 0 \<lfloor>chequeCount\<rfloor>) 12"

definition schedule_item :: "time \<Rightarrow> int \<Rightarrow> rat \<Rightarrow> int \<Rightarrow> int \<Rightarrow> item_input" where
  "schedule_item startDate termDays annualRent n i =
     (let per = js_round (js_div annualRent (of_int n));
          d0 = toUtcDateOnly startDate;
          due = setUTCDate d0 (getUTCDate d0 + js_round (js_div (of_int (i * termDays)) (of_int n)));
          amount = (if i = n - 1 then js_sub annualRent (js_mul (of_int per) (of_int (n - 1))) else of_int per)
      in \<lparr> im_seq = i + 1, im_dueDate = due, im_amount = amount, im_instrument = None,
           im_chequeNo = None, im_bank = None, im_notes = None \<rparr>)"

definition evenChequeSchedule :: "time \<Rightarrow> time \<Rightarrow> rat \<Rightarrow> rat \<Rightarrow> item_input list" where
  "evenChequeSchedule startDate endDate annualRent chequeCount =
     (let n = schedule_count chequeCount in
      if n \<le> 0 then []
      else map (schedule_item startDate (daysBetween startDate endDate) annualRent n) [0..n - 1])"

definition createItem :: "authz_ctx \<Rightarrow> uid \<Rightarrow> item_input \<Rightarrow> unit svc" where
  "createItem ctx tenancyId item =
     bindE (readE (\<lambda>s. List.find (\<lambda>p. pi_tenancyId p = tenancyId \<and> pi_seq p = im_seq item) (w_payments s)))
       (\<lambda>clash.
     if clash \<noteq> None then ret ()
     else bindE newId (\<lambda>i.
       writeE (\<lambda>s. s\<lparr>w_payments := w_payments s @
         [\<lparr> pi_id = i, pi_workspaceId = cx_workspaceId ctx, pi_tenancyId = tenancyId, pi_seq = im_seq item,
            pi_dueDate = toUtcDateOnly (im_dueDate item), pi_amount = money (im_amount item),
            pi_instrument = (case im_instrument item of None \<Rightarrow> I_CHEQUE | Some x \<Rightarrow> x),
            pi_chequeNo = im_chequeNo item, pi_bank = im_bank item, pi_status = P_SCHEDULED,
            pi_proofDocId = None, pi_confirmedById = None, pi_notes = im_notes item \<rparr>]\<rparr>)))"

definition replaceSchedule :: "authz_ctx \<Rightarrow> uid \<Rightarrow> item_input list \<Rightarrow> unit svc" where
  "replaceSchedule ctx tenancyId items =
     thenE (writeE (\<lambda>s. s\<lparr>w_payments := filter (\<lambda>p. \<not> (pi_tenancyId p = tenancyId \<and> pi_status p = P_SCHEDULED))
              (w_payments s)\<rparr>))
       (forE items (createItem ctx tenancyId))"

definition setPaymentSchedule :: "authz_ctx \<Rightarrow> uid \<Rightarrow> item_input list \<Rightarrow> payment_item list svc" where
  "setPaymentSchedule ctx tenancyId items =
     thenE (requireCap ctx ''payments.write'')
     (thenE (getTenancy ctx tenancyId)
     (thenE (assertE (distinct (map im_seq items)) (AuthzError ''Duplicate seq in schedule'' 422))
     (thenE (transaction (replaceSchedule ctx tenancyId items))
     (thenE (regenerateDeadlinesForTenancy tenancyId)
     (thenE (evaluateRiskForTenancy tenancyId)
       (readE (\<lambda>s. sort_key pi_seq (payments_of tenancyId s))))))))"

subsection \<open>The status machine\<close>

fun TRANSITIONS :: "paymentStatus \<Rightarrow> paymentStatus list" where
  "TRANSITIONS P_SCHEDULED = [P_REQUESTED, P_RECEIVED, P_LATE, P_CANCELLED]"
| "TRANSITIONS P_REQUESTED = [P_RECEIVED, P_LATE, P_CANCELLED]"
| "TRANSITIONS P_RECEIVED = [P_DEPOSITED, P_CANCELLED]"
| "TRANSITIONS P_DEPOSITED = [P_CLEARED, P_BOUNCED]"
| "TRANSITIONS P_LATE = [P_RECEIVED, P_CANCELLED]"
| "TRANSITIONS P_BOUNCED = [P_RECEIVED, P_CANCELLED]"
| "TRANSITIONS P_CLEARED = []"
| "TRANSITIONS P_CANCELLED = []"

fun TRANSITION_EVIDENCE :: "paymentStatus \<Rightarrow> evidenceType option" where
  "TRANSITION_EVIDENCE P_RECEIVED = Some EV_CHEQUE_RECEIVED"
| "TRANSITION_EVIDENCE P_DEPOSITED = Some EV_CHEQUE_DEPOSITED"
| "TRANSITION_EVIDENCE P_CLEARED = Some EV_CHEQUE_CLEARED"
| "TRANSITION_EVIDENCE P_BOUNCED = Some EV_CHEQUE_BOUNCED"
| "TRANSITION_EVIDENCE P_REQUESTED = Some EV_CHEQUE_DUE"
| "TRANSITION_EVIDENCE _ = None"

fun paymentStatus_name :: "paymentStatus \<Rightarrow> string" where
  "paymentStatus_name P_SCHEDULED = ''SCHEDULED''"
| "paymentStatus_name P_REQUESTED = ''REQUESTED''"
| "paymentStatus_name P_RECEIVED = ''RECEIVED''"
| "paymentStatus_name P_DEPOSITED = ''DEPOSITED''"
| "paymentStatus_name P_CLEARED = ''CLEARED''"
| "paymentStatus_name P_LATE = ''LATE''"
| "paymentStatus_name P_BOUNCED = ''BOUNCED''"
| "paymentStatus_name P_CANCELLED = ''CANCELLED''"

definition where_text :: "property option \<Rightarrow> string" where
  "where_text p = (case p of None \<Rightarrow> ''a property''
     | Some x \<Rightarrow> js_trim (pr_community x @ '' '' @ (case pr_unitNo x of None \<Rightarrow> [] | Some u \<Rightarrow> u)))"

definition cheque_text :: "payment_item \<Rightarrow> string" where
  "cheque_text i = (case pi_chequeNo i of Some c \<Rightarrow> c | None \<Rightarrow> ''#'' @ show_int (pi_seq i))"

definition bounce_notice :: "(rat \<Rightarrow> string) \<Rightarrow> uid \<Rightarrow> payment_item \<Rightarrow> property option \<Rightarrow> uid list \<Rightarrow> record_input" where
  "bounce_notice amt ws item p overseers =
     \<lparr> ri_ws = ws, ri_template = ''payment_bounced_v1'',
       ri_subj = ''Cheque bounced'' @ em_dash @ where_text p @ em_dash @ cheque_text item,
       ri_body = ''A cheque has been recorded as BOUNCED.'' @ nl @ nl @ ''Property: '' @ where_text p @ nl @ ''Cheque: '' @
         cheque_text item @ mid_dot @ amt (pi_amount item) @ '' AED'' @ nl @ nl @ ''Record-keeping reminder only'' @ em_dash @
         ''Seneschal holds no funds. Review before action.'',
       ri_recipients = overseers, ri_urgent = True, ri_relType = Some S_TENANCY,
       ri_relId = Some (pi_tenancyId item) \<rparr>"

definition patch_payment :: "uid \<Rightarrow> paymentStatus \<Rightarrow> uid option \<Rightarrow> string option \<Rightarrow> payment_item \<Rightarrow> payment_item" where
  "patch_payment userId to proofDocId notes p = p\<lparr> pi_status := to,
     pi_proofDocId := or_keep proofDocId (pi_proofDocId p), pi_confirmedById := Some userId,
     pi_notes := or_keep notes (pi_notes p) \<rparr>"

definition payment_evidence ::
    "(rat \<Rightarrow> string) \<Rightarrow> authz_ctx \<Rightarrow> payment_item \<Rightarrow> uid option \<Rightarrow> paymentStatus \<Rightarrow> uid option \<Rightarrow>
     evidenceType \<Rightarrow> evidence_input" where
  "payment_evidence amt ctx item propertyId to proofDocId ty =
     (evidence_by ctx ty S_PAYMENT_ITEM (Some (pi_id item))
        (JObj [(''from'', JStr (paymentStatus_name (pi_status item))), (''to'', JStr (paymentStatus_name to)),
               (''seq'', JNum (of_int (pi_seq item))), (''amount'', JStr (amt (pi_amount item))),
               (''chequeNo'', jopt JStr (pi_chequeNo item)), (''proofDocId'', jopt JId proofDocId),
               (''confirmedBy'', JId (cx_userId ctx))]))
       \<lparr>ei_tenancyId := Some (pi_tenancyId item), ei_propertyId := propertyId\<rparr>"

definition proof_readable :: "authz_ctx \<Rightarrow> uid \<Rightarrow> world \<Rightarrow> error + unit" where
  "proof_readable ctx docId s =
     (let doc = List.find (\<lambda>d. dc_id d = docId) (w_documents s) in
      if isDelegateRole (cx_role ctx) then assertReadable ctx (RT_document doc) s
      else assertSameWorkspace ctx (map_option dc_workspaceId doc))"

definition transitionPayment ::
    "(rat \<Rightarrow> string) \<Rightarrow> authz_ctx \<Rightarrow> uid \<Rightarrow> paymentStatus \<Rightarrow> uid option \<Rightarrow> string option \<Rightarrow> payment_item svc" where
  "transitionPayment amt ctx paymentItemId to proofDocId notes =
     thenE (requireCap ctx ''payments.write'')
     (bindE (readE (\<lambda>s. List.find (\<lambda>p. pi_id p = paymentItemId) (w_payments s))) (\<lambda>found.
      bindE (readE (\<lambda>s. Option.bind found (\<lambda>p. item_property p s))) (\<lambda>propertyId.
      thenE (liftE (assertOwn ctx (map_option pi_workspaceId found) propertyId))
      (bindE (someE notFound found) (\<lambda>item.
      thenE (assertE (to \<in> set (TRANSITIONS (pi_status item)))
        (AuthzError (''Invalid payment transition '' @ paymentStatus_name (pi_status item) @ right_arrow @
           paymentStatus_name to) 422))
      (thenE (case proofDocId of None \<Rightarrow> ret ()
              | Some d \<Rightarrow> bindE (readE (proof_readable ctx d)) liftE)
      (thenE (writeE (\<lambda>s. s\<lparr>w_payments := upd_where (\<lambda>p. pi_id p = paymentItemId)
                (patch_payment (cx_userId ctx) to proofDocId notes) (w_payments s)\<rparr>))
      (thenE (case TRANSITION_EVIDENCE to of None \<Rightarrow> ret ()
              | Some ty \<Rightarrow> bindE (recordEvidence (payment_evidence amt ctx item propertyId to proofDocId ty))
                            (\<lambda>_. ret ()))
      (thenE (whenE (to \<in> {P_RECEIVED, P_CLEARED, P_CANCELLED}) (clearPaymentLate paymentItemId))
      (thenE (whenE (to = P_BOUNCED)
         (bindE (readE (workspaceOverseers (cx_workspaceId ctx))) (\<lambda>overseers.
          bindE (readE (\<lambda>s. Option.bind propertyId (\<lambda>i. property_of i s))) (\<lambda>p.
          recordNotification (bounce_notice amt (cx_workspaceId ctx) item p overseers)))))
        (ret (patch_payment (cx_userId ctx) to proofDocId notes item))))))))))))"

subsection \<open>The nightly late check\<close>

definition overdue :: "uid option \<Rightarrow> time \<Rightarrow> payment_item \<Rightarrow> bool" where
  "overdue workspaceId today p \<longleftrightarrow> holds_for workspaceId (\<lambda>w. pi_workspaceId p = w) \<and>
     (pi_status p = P_SCHEDULED \<or> pi_status p = P_REQUESTED) \<and> pi_dueDate p < today"

definition late_notice ::
    "(rat \<Rightarrow> string) \<Rightarrow> (time \<Rightarrow> string) \<Rightarrow> payment_item \<Rightarrow> property option \<Rightarrow> uid list \<Rightarrow> record_input" where
  "late_notice amt fdate item p overseers =
     \<lparr> ri_ws = pi_workspaceId item, ri_template = ''payment_late_v1'',
       ri_subj = ''Cheque overdue'' @ em_dash @ where_text p @ em_dash @ formatDubaiDate fdate (pi_dueDate item),
       ri_body = ''A scheduled payment is past due and not yet recorded as received.'' @ nl @ nl @ ''Property: '' @ where_text p @
         nl @ ''Cheque: '' @ cheque_text item @ mid_dot @ amt (pi_amount item) @ '' AED'' @ nl @ ''Was due: '' @
         formatDubaiDate fdate (pi_dueDate item) @ nl @ nl @ ''Record-keeping reminder only'' @ em_dash @
         ''Seneschal holds no funds. Review before action.'',
       ri_recipients = overseers, ri_urgent = False, ri_relType = Some S_TENANCY,
       ri_relId = Some (pi_tenancyId item) \<rparr>"

text \<open>
  The overseers and their preferences are looked up once per workspace in the code; nothing in
  the loop writes memberships or preferences, so a lookup per item reads the same.
\<close>

definition markLate :: "(rat \<Rightarrow> string) \<Rightarrow> (time \<Rightarrow> string) \<Rightarrow> payment_item \<Rightarrow> unit svc" where
  "markLate amt fdate item =
     thenE (writeE (\<lambda>s. s\<lparr>w_payments := upd_where (\<lambda>p. pi_id p = pi_id item)
              (\<lambda>p. p\<lparr>pi_status := P_LATE\<rparr>) (w_payments s)\<rparr>))
     (thenE (raisePaymentLate (pi_id item))
     (bindE (readE (workspaceOverseers (pi_workspaceId item))) (\<lambda>overseers.
      bindE (readE (\<lambda>s. Option.bind (item_property item s) (\<lambda>i. property_of i s))) (\<lambda>p.
      recordNotification (late_notice amt fdate item p overseers)))))"

definition detectLatePayments :: "(rat \<Rightarrow> string) \<Rightarrow> (time \<Rightarrow> string) \<Rightarrow> uid option \<Rightarrow> nat svc" where
  "detectLatePayments amt fdate workspaceId =
     bindE getNow (\<lambda>now.
     bindE (readE (\<lambda>s. filter (overdue workspaceId (todayInDubai now)) (w_payments s))) (\<lambda>due.
     thenE (forE due (markLate amt fdate)) (ret (length due))))"

subsection \<open>Receipts and lists\<close>

definition listTenancyReceipts :: "authz_ctx \<Rightarrow> uid \<Rightarrow> document list svc" where
  "listTenancyReceipts ctx tenancyId =
     thenE (requireCap ctx ''payments.read'')
     (thenE (getTenancy ctx tenancyId)
     (bindE (readE (\<lambda>s. map pi_id (filter (\<lambda>p. pi_workspaceId p = cx_workspaceId ctx \<and>
        pi_tenancyId p = tenancyId) (w_payments s)))) (\<lambda>items.
      readE (\<lambda>s. sort_key (\<lambda>d. - dc_createdAt d) (filter (\<lambda>d. dc_workspaceId d = cx_workspaceId ctx \<and>
        dc_scopeType d = S_PAYMENT_ITEM \<and> some_in (dc_scopeId d) items \<and> dc_archivedAt d = None)
        (w_documents s))))))"

definition viewPaymentReceipt :: "(string \<Rightarrow> string) \<Rightarrow> authz_ctx \<Rightarrow> uid \<Rightarrow> (file_url \<times> string) svc" where
  "viewPaymentReceipt sign ctx documentId =
     thenE (requireCap ctx ''payments.read'')
     (bindE (getDocument ctx documentId False) (\<lambda>doc.
      thenE (assertE (dc_scopeType doc = S_PAYMENT_ITEM \<and> dc_scopeId doc \<noteq> None)
        (AuthzError ''Not a payment receipt'' 422))
      (thenE (logDocumentAccess (cx_workspaceId ctx) documentId DA_VIEWED (Some (cx_userId ctx)) None None None)
      (bindE (recordEvidence (evidence_by ctx EV_DEPOSIT_RECEIPT_VIEWED S_PAYMENT_ITEM (dc_scopeId doc)
          (JObj [(''documentId'', JId documentId)]))) (\<lambda>_.
       bindE (signedFileUrl sign documentId DEFAULT_TTL_SECONDS) (\<lambda>u. ret (u, dc_fileName doc)))))))"

definition payment_where :: "authz_ctx \<Rightarrow> world \<Rightarrow> error + (payment_item \<Rightarrow> bool)" where
  "payment_where ctx s =
     (if cx_subjectContactId ctx \<noteq> None then
        map_sum id (\<lambda>w p. matches w (view_payment p)) (contactScopedWhere ctx TB_PAYMENT_ITEM s)
      else if isDelegateRole (cx_role ctx) then
        map_sum id (\<lambda>w p. matches w (view_payment p)) (clientSetScopedWhere ctx TB_PAYMENT_ITEM s)
      else case scope ctx of Inl e \<Rightarrow> Inl e
        | Inr ws \<Rightarrow> Inr (\<lambda>p. pi_workspaceId p = ws \<and>
            holds_for (cx_clientPrincipalId ctx) (\<lambda>c.
              Option.bind (Option.bind (item_property p s) (\<lambda>i. property_of i s)) pr_clientPrincipalId = Some c)))"

definition listPayments :: "authz_ctx \<Rightarrow> uid option \<Rightarrow> paymentStatus option \<Rightarrow> payment_item list svc" where
  "listPayments ctx tenancyId status =
     thenE (requireCap ctx ''payments.read'')
     (bindE (readE (payment_where ctx)) (\<lambda>r.
      bindE (liftE r) (\<lambda>base.
      readE (\<lambda>s. sort_key (\<lambda>p. (pi_dueDate p, pi_seq p)) (filter (\<lambda>p. base p \<and>
        holds_for tenancyId (\<lambda>t. pi_tenancyId p = t) \<and> holds_for status (\<lambda>st. pi_status p = st))
        (w_payments s))))))"

subsection \<open>What every operation keeps\<close>

lemma keeps_createItem [log_keeps]: "keeps extends (createItem ctx t i)"
  unfolding createItem_def by (intro logs.keeps_intros log_keeps keeps_quiet_write) simp_all

lemma keeps_replaceSchedule [log_keeps]: "keeps extends (replaceSchedule ctx t i)"
  unfolding replaceSchedule_def by (intro logs.keeps_intros log_keeps keeps_quiet_write) simp_all

lemma keeps_setPaymentSchedule [log_keeps]: "keeps extends (setPaymentSchedule ctx t i)"
  unfolding setPaymentSchedule_def by (intro logs.keeps_intros log_keeps)

lemma keeps_transitionPayment [log_keeps]: "keeps extends (transitionPayment amt ctx i to d n)"
  unfolding transitionPayment_def by (intro logs.keeps_intros log_keeps keeps_quiet_write) simp_all

lemma keeps_markLate [log_keeps]: "keeps extends (markLate amt fd i)"
  unfolding markLate_def by (intro logs.keeps_intros log_keeps keeps_quiet_write) simp_all

lemma keeps_detectLatePayments [log_keeps]: "keeps extends (detectLatePayments amt fd w)"
  unfolding detectLatePayments_def by (intro logs.keeps_intros log_keeps)

lemma keeps_viewPaymentReceipt [log_keeps]: "keeps extends (viewPaymentReceipt g ctx d)"
  unfolding viewPaymentReceipt_def signedFileUrl_def Let_def by (intro logs.keeps_intros log_keeps)

subsection \<open>The status machine, as a whole\<close>

inductive pays :: "paymentStatus \<Rightarrow> paymentStatus \<Rightarrow> bool" where
  transition: "b \<in> set (TRANSITIONS a) \<Longrightarrow> pays a b"

inductive_simps pays_iff: "pays a b"

lemma TRANSITIONS_into:
  "P_CLEARED \<in> set (TRANSITIONS a) \<longleftrightarrow> a = P_DEPOSITED" "P_BOUNCED \<in> set (TRANSITIONS a) \<longleftrightarrow> a = P_DEPOSITED"
  "P_DEPOSITED \<in> set (TRANSITIONS a) \<longleftrightarrow> a = P_RECEIVED"
  "P_SCHEDULED \<notin> set (TRANSITIONS a)"
  by (cases a; simp)+

lemma outcome_clearPaymentLate [outcome]: "never_fails (clearPaymentLate i)" "never_fails (raisePaymentLate i)"
  unfolding clearPaymentLate_def raisePaymentLate_def on_item_def by (intro outcome)+

lemma actor_payment: "ei_actorId (payment_evidence amt ctx p pid st d ty) = Some (cx_userId ctx)"
  by (simp add: payment_evidence_def evidence_by_def evidenceOf_def)

lemma reads_only_option [outcome]:
  "reads_only m \<Longrightarrow> (\<And>x. reads_only (f x)) \<Longrightarrow> reads_only (case y of None \<Rightarrow> m | Some x \<Rightarrow> f x)"
  by (cases y) auto

lemma never_fails_skipped: "\<not> b \<Longrightarrow> never_fails (whenE b m)"
  by (simp add: whenE_def outcome)

lemma transitionPayment_refuses:
  assumes "transitionPayment amt ctx i st d n s = (Inl e, u)" and "st \<noteq> P_BOUNCED"
  shows "u = s"
proof -
  have "all_or_nothing (transitionPayment amt ctx i st d n)"
    unfolding transitionPayment_def
    by ((rule all_or_nothing_check, (intro outcome)[1])+, rule all_or_nothing_never,
      intro never_fails_skipped [OF assms(2)] outcome) (simp add: actor_payment)
  from all_or_nothingD [OF this assms(1)] show ?thesis .
qed

lemma proof_check_ok:
  "(case d of None \<Rightarrow> ret () | Some x \<Rightarrow> bindE (readE (g x)) liftE) s = (Inr r, u) \<longleftrightarrow>
     u = s \<and> (case d of None \<Rightarrow> True | Some x \<Rightarrow> g x s = Inr ())"
  by (cases d) (auto simp: op_ok)

lemma transitionPayment_moves:
  assumes "transitionPayment amt ctx i st d n s = (Inr p', u)"
  shows "\<exists>p. List.find (\<lambda>p. pi_id p = i) (w_payments s) = Some p \<and> pays (pi_status p) st \<and>
    p' = patch_payment (cx_userId ctx) st d n p \<and>
    w_payments u = upd_where (\<lambda>p. pi_id p = i) (patch_payment (cx_userId ctx) st d n) (w_payments s) \<and>
    (case TRANSITION_EVIDENCE st of None \<Rightarrow> True
     | Some ty \<Rightarrow> \<exists>ev. prefix (w_evidence s @ [ev]) (w_evidence u) \<and> ev_type ev = ty \<and> ev_scopeId ev = Some i)"
proof -
  let ?w = "s\<lparr>w_payments := upd_where (\<lambda>p. pi_id p = i) (patch_payment (cx_userId ctx) st d n) (w_payments s)\<rparr>"
  obtain p pid x1 x2 x3 s1 s2 where p: "List.find (\<lambda>p. pi_id p = i) (w_payments s) = Some p" "st \<in> set (TRANSITIONS (pi_status p))"
    and ev: "(case TRANSITION_EVIDENCE st of None \<Rightarrow> ret ()
              | Some ty \<Rightarrow> bindE (recordEvidence (payment_evidence amt ctx p pid st d ty)) (\<lambda>_. ret ())) ?w = (Inr x1, s1)"
    and clear: "whenE (st \<in> {P_RECEIVED, P_CLEARED, P_CANCELLED}) (clearPaymentLate i) s1 = (Inr x2, s2)"
    and notice: "whenE (st = P_BOUNCED) (bindE (readE (workspaceOverseers (cx_workspaceId ctx))) (\<lambda>overseers.
          bindE (readE (\<lambda>s. Option.bind pid (\<lambda>i. property_of i s))) (\<lambda>q.
          recordNotification (bounce_notice amt (cx_workspaceId ctx) p q overseers)))) s2 = (Inr x3, u)"
    and p': "p' = patch_payment (cx_userId ctx) st d n p"
    using assms unfolding transitionPayment_def
    by (clarsimp simp only: bindE_ok [of "requireCap ctx c" for c] bindE_ok [of "readE g" for g]
      bindE_ok [of "liftE g" for g] bindE_ok [of "assertE b e" for b e] bindE_ok [of "someE e x" for e x]
      readE_ok writeE_ok assertE_ok someE_ok liftE_ok ret_ok proof_check_ok requireCap_def bindE_ok)
  show ?thesis
  proof -
    have "w_payments s1 = w_payments ?w"
      using ev by (cases "TRANSITION_EVIDENCE st") (auto simp: op_ok)
    moreover have "w_payments s2 = w_payments s1"
      using clear by (rule sameD [rotated]) (intro frame.keeps_intros frames; simp)
    moreover have "w_payments u = w_payments s2"
      using notice by (rule sameD [rotated]) (intro frame.keeps_intros frames; simp)
    moreover have "prefix (w_evidence s1) (w_evidence u)"
    proof -
      have "extends s1 s2" using clear by (rule keepsD [rotated]) (intro logs.keeps_intros log_keeps)
      moreover have "extends s2 u" using notice by (rule keepsD [rotated]) (intro logs.keeps_intros log_keeps)
      ultimately show ?thesis by (auto simp: extends_def intro: prefix_order.trans)
    qed
    moreover have "case TRANSITION_EVIDENCE st of None \<Rightarrow> True
     | Some ty \<Rightarrow> \<exists>e. w_evidence s1 = w_evidence s @ [e] \<and> ev_type e = ty \<and> ev_scopeId e = Some i"
      using ev p(1) by (cases "TRANSITION_EVIDENCE st") (auto simp: op_ok evidence_row_def payment_evidence_def
        evidence_by_def evidenceOf_def dest!: find_Some_in)
    ultimately show ?thesis
      using p p' by (intro exI [of _ p]) (auto simp: pays_iff split: option.splits)
  qed
qed
text \<open>
  C15: the state machine of a payment item. An error leaves the database as it was (a bounce alone
  can fail later, in its notification). A success found the item in a state from which the table
  allows the move, patches exactly that item, and writes the evidence of the new state right
  behind the log of before. A cheque is cleared only from the bank and reaches the bank only after
  it was received; nothing leaves a cleared or a cancelled item.
\<close>

theorem payment_status_machine:
  "(case transitionPayment amt ctx i st d n s of
      (Inl e, u) \<Rightarrow> u = s \<or> st = P_BOUNCED
    | (Inr p', u) \<Rightarrow> \<exists>p. List.find (\<lambda>p. pi_id p = i) (w_payments s) = Some p \<and> pays (pi_status p) st \<and>
        p' = patch_payment (cx_userId ctx) st d n p \<and>
        w_payments u = upd_where (\<lambda>p. pi_id p = i) (patch_payment (cx_userId ctx) st d n) (w_payments s) \<and>
        (case TRANSITION_EVIDENCE st of None \<Rightarrow> True
         | Some ty \<Rightarrow> \<exists>ev. prefix (w_evidence s @ [ev]) (w_evidence u) \<and> ev_type ev = ty \<and> ev_scopeId ev = Some i)) \<and>
   {a. pays a P_CLEARED} = {P_DEPOSITED} \<and> {a. pays a P_DEPOSITED} = {P_RECEIVED} \<and>
   {b. pays P_CLEARED b \<or> pays P_CANCELLED b} = {}"
proof -
  have "{a. pays a P_CLEARED} = {P_DEPOSITED} \<and> {a. pays a P_DEPOSITED} = {P_RECEIVED} \<and>
    {b. pays P_CLEARED b \<or> pays P_CANCELLED b} = {}"
    by (auto simp: pays_iff TRANSITIONS_into)
  then show ?thesis
    using transitionPayment_refuses [of amt ctx i st d n s] transitionPayment_moves [of amt ctx i st d n s]
    by (auto split: prod.split sum.split)
qed

subsection \<open>The even schedule\<close>

lemma js_int_ops:
  assumes "\<bar>m\<bar> \<le> 2 ^ 53"
  shows "fl (of_int m) = of_int m" and "x * y = m \<Longrightarrow> js_mul (of_int x) (of_int y) = of_int m"
    and "x - y = m \<Longrightarrow> js_sub (of_int x) (of_int y) = of_int m"
    and "x + y = m \<Longrightarrow> js_add (of_int x) (of_int y) = of_int m"
  using fl_of_int [OF assms] by (auto simp: js_ops simp flip: of_int_mult of_int_diff of_int_add)

lemma near_quotient:
  fixes R n :: int
  assumes "0 \<le> R" "R \<le> 2 ^ 50" "0 < n" "n \<le> 12"
  defines "per \<equiv> js_round (js_div (of_int R) (of_int n))"
  shows "\<bar>R - n * per\<bar> < n" and "0 \<le> per"
proof -
  let ?q = "of_int R / of_int n :: rat"
  have q: "0 \<le> ?q" "?q \<le> 2 ^ 50"
    using assms by (auto simp: divide_le_eq intro: order_trans [of _ "2 ^ 50"] simp flip: of_int_le_iff)
  have "\<bar>fl ?q - ?q\<bar> \<le> 2 ^ 50 / 2 ^ 53" by (rule fl_error_le) (use q in linarith)
  then have err: "\<bar>fl ?q - ?q\<bar> \<le> 1 / 8" by simp
  have "\<bar>of_int per - fl ?q\<bar> \<le> 1 / 2"
    unfolding per_def js_div_def abs_le_iff using js_round_bounds [of "fl ?q"] by linarith
  then have "\<bar>of_int per - ?q\<bar> < 1" using err by linarith
  then have "\<bar>of_int n * (of_int per - ?q)\<bar> < of_int n * 1"
    using assms(3) by (simp add: abs_mult)
  moreover have "of_int n * (of_int per - ?q) = (of_int (n * per - R) :: rat)"
    using assms by (simp add: right_diff_distrib)
  ultimately have "\<bar>of_int (n * per - R)\<bar> < (of_int n :: rat)" by simp
  then have "\<bar>n * per - R\<bar> < n" by (simp only: of_int_abs [symmetric] of_int_less_iff)
  then show "\<bar>R - n * per\<bar> < n" by linarith
  have "0 \<le> fl ?q" by (rule fl_nonneg [OF q(1)])
  then show "0 \<le> per" unfolding per_def js_div_def js_round_def by simp
qed

text \<open>The item at position \<open>j\<close>, with exact numbers.\<close>

definition even_item :: "time \<Rightarrow> int \<Rightarrow> int \<Rightarrow> int \<Rightarrow> int \<Rightarrow> int \<Rightarrow> item_input" where
  "even_item start days R per n j =
     \<lparr> im_seq = j + 1, im_dueDate = start + js_round (js_div (of_int (j * days)) (of_int n)) * msPerDay,
       im_amount = of_int (if j = n - 1 then R - per * (n - 1) else per), im_instrument = None,
       im_chequeNo = None, im_bank = None, im_notes = None \<rparr>"

lemma schedule_item_eq:
  fixes R n :: int
  assumes "0 \<le> R" "R \<le> 2 ^ 50" "0 < n" "n \<le> 12"
  defines "per \<equiv> js_round (js_div (of_int R) (of_int n))"
  shows "schedule_item a days (of_int R) n j = even_item (toUtcDateOnly a) days R per n j"
proof -
  note near = near_quotient [OF assms(1-4), folded per_def]
  have "n * per \<le> R + 12" "0 \<le> n * per" using near assms(3,4) by auto
  moreover have "per * (n - 1) = n * per - per" "per \<le> n * per"
    using near(2) assms(3) mult_right_mono [of 1 n per] by (auto simp: algebra_simps)
  ultimately have le: "\<bar>per * (n - 1)\<bar> \<le> 2 ^ 53" "\<bar>R - per * (n - 1)\<bar> \<le> 2 ^ 53"
    using assms(1,2) near(2) by auto
  have m: "js_mul (of_int per) (of_int (n - 1)) = of_int (per * (n - 1))"
    by (rule js_int_ops(2) [OF le(1)]) simp
  have d: "js_sub (of_int R) (of_int (per * (n - 1))) = of_int (R - per * (n - 1))"
    by (rule js_int_ops(3) [OF le(2)]) simp
  have "setUTCDate (toUtcDateOnly a) (getUTCDate (toUtcDateOnly a) + k) = toUtcDateOnly a + k * msPerDay" for k
    using addDaysUtc_eq [of a k] by (simp add: addDaysUtc_def Let_def)
  then show ?thesis
    using m d by (simp add: schedule_item_def even_item_def Let_def per_def [symmetric])
qed

lemma foldl_js_add_int:
  "(\<And>y. y \<in> set ys \<Longrightarrow> 0 \<le> y) \<Longrightarrow> 0 \<le> x \<Longrightarrow> x + sum_list ys \<le> 2 ^ 53 \<Longrightarrow>
   foldl js_add (of_int x) (map of_int ys) = of_int (x + sum_list ys)"
proof (induction ys arbitrary: x)
  case (Cons y ys)
  have "0 \<le> sum_list ys" using Cons.prems(1) by (intro sum_list_nonneg) simp
  then have "js_add (of_int x) (of_int y) = of_int (x + y)"
    using Cons.prems by (intro js_int_ops(4) [where m = "x + y"]) auto
  then show ?case using Cons.IH [of "x + y"] Cons.prems by (simp add: add.assoc)
qed simp

lemma sum_even: "0 < n \<Longrightarrow> sum_list (map (\<lambda>j. if j = n - 1 then R - per * (n - 1) else per) [0..n - 1]) = (R :: int)"
proof -
  assume n: "0 < n"
  have "[0..n - 1] = [0..n - 2] @ [n - 1]"
    using n upto_rec2 [of 0 "n - 1"] by simp
  moreover have "map (\<lambda>j. if j = n - 1 then R - per * (n - 1) else per) [0..n - 2] = replicate (nat (n - 1)) per"
    by (rule nth_equalityI) auto
  ultimately show ?thesis using n by (simp add: sum_list_replicate)
qed

lemma due_offset:
  fixes j n days :: int
  assumes "0 \<le> j" "j < n" "0 \<le> days" "days \<le> 2 ^ 40"
  shows "0 \<le> js_round (js_div (of_int (j * days)) (of_int n))"
    and "js_round (js_div (of_int (j * days)) (of_int n)) \<le> days"
    and "i \<le> j \<Longrightarrow> js_round (js_div (of_int (i * days)) (of_int n)) \<le> js_round (js_div (of_int (j * days)) (of_int n))"
proof -
  have "0 \<le> of_int (j * days) / (of_int n :: rat)" using assms by simp
  then have "0 \<le> fl (of_int (j * days) / of_int n)" by (rule fl_nonneg)
  then show "0 \<le> js_round (js_div (of_int (j * days)) (of_int n))" by (simp add: js_div_def js_round_def)
  have "of_int (j * days) / (of_int n :: rat) \<le> of_int days"
    using assms mult_right_mono [of j n days] by (simp add: divide_le_eq mult.commute flip: of_int_mult)
  then have "fl (of_int (j * days) / of_int n) \<le> fl (of_int days)" by (rule fl_mono)
  then show "js_round (js_div (of_int (j * days)) (of_int n)) \<le> days"
    using js_round_mono [of "fl (of_int (j * days) / of_int n)" "of_int days"] assms
    by (simp add: js_div_def fl_of_int)
  assume "i \<le> j"
  then have "of_int (i * days) / (of_int n :: rat) \<le> of_int (j * days) / of_int n"
    using assms by (intro divide_right_mono) (auto intro!: mult_right_mono simp flip: of_int_mult)
  then show "js_round (js_div (of_int (i * days)) (of_int n)) \<le> js_round (js_div (of_int (j * days)) (of_int n))"
    unfolding js_div_def by (intro js_round_mono fl_mono)
qed


lemma even_items:
  fixes R :: int and c :: rat
  assumes "144 \<le> R" "R \<le> 2 ^ 50"
  defines "n \<equiv> schedule_count c"
  defines "per \<equiv> js_round (js_div (of_int R) (of_int n))"
  shows "evenChequeSchedule a b (of_int R) c = map (even_item (toUtcDateOnly a) (daysBetween a b) R per n) [0..n - 1]"
    and "0 \<le> n" "n \<le> 12" and "0 < n \<Longrightarrow> 0 < per \<and> 0 < R - per * (n - 1) \<and> \<bar>R - per * (n - 1) - per\<bar> < n"
proof -
  show n: "0 \<le> n" "n \<le> 12" by (simp_all add: n_def schedule_count_def)
  show "evenChequeSchedule a b (of_int R) c = map (even_item (toUtcDateOnly a) (daysBetween a b) R per n) [0..n - 1]"
    using n assms(1,2) by (simp add: evenChequeSchedule_def Let_def n_def [symmetric] per_def schedule_item_eq)
  assume pos: "0 < n"
  then have near: "\<bar>R - n * per\<bar> < n" "0 \<le> per"
    using near_quotient [of R n] n assms(1,2) by (auto simp: per_def)
  have "12 \<le> per"
  proof (rule ccontr)
    assume "\<not> 12 \<le> per"
    then have "n * per \<le> 12 * 11" using n near(2) by (intro mult_mono) auto
    with near assms(1) n show False by linarith
  qed
  moreover have "R - per * (n - 1) = R - n * per + per" by (simp add: algebra_simps)
  ultimately show "0 < per \<and> 0 < R - per * (n - 1) \<and> \<bar>R - per * (n - 1) - per\<bar> < n"
    using near n by linarith
qed

lemma of_int_sum_rat: "sum_list (map of_int ys) = (of_int (sum_list ys) :: rat)"
  by (induction ys) simp_all

text \<open>
  C17: the even split of a rent into cheques. For a whole rent of at least AED 144 the items are
  numbered 1 to the count (at most twelve), their amounts are positive, differ by less than twelve
  dirhams and add up to the rent exactly, also in the rounded arithmetic with which the mismatch
  rule adds them; the due dates ascend from the first day of the term and none is past its end.
\<close>

theorem evenChequeSchedule_exact:
  fixes R :: int and c :: rat
  assumes "144 \<le> R" "R \<le> 2 ^ 50" and "0 \<le> daysBetween a b" "daysBetween a b \<le> 2 ^ 40"
    and "0 < schedule_count c"
  defines "items \<equiv> evenChequeSchedule a b (of_int R) c"
  shows "map im_seq items = [1..schedule_count c] \<and> length items \<le> 12 \<and>
    (\<forall>x \<in> set items. 0 < im_amount x \<and> (\<forall>y \<in> set items. \<bar>im_amount x - im_amount y\<bar> < 12)) \<and>
    sum_list (map im_amount items) = of_int R \<and>
    foldl js_add 0 (map im_amount items) = of_int R \<and>
    sorted (map im_dueDate items) \<and>
    (\<forall>x \<in> set items. toUtcDateOnly a \<le> im_dueDate x \<and> im_dueDate x \<le> toUtcDateOnly a + daysBetween a b * msPerDay)"
proof -
  define n where "n = schedule_count c"
  define per where "per = js_round (js_div (of_int R) (of_int n))"
  define days where "days = daysBetween a b"
  note even = even_items [OF assms(1,2), where c = c, folded n_def, folded per_def]
  have pos: "0 < n" using assms(5) by (simp add: n_def)
  have items: "items = map (even_item (toUtcDateOnly a) days R per n) [0..n - 1]"
    unfolding items_def days_def by (rule even(1))
  let ?am = "\<lambda>j. if j = n - 1 then R - per * (n - 1) else per"
  define ys where "ys = map ?am [0..n - 1]"
  have am: "map im_amount items = map of_int ys"
    by (simp add: items ys_def even_item_def o_def if_distrib cong: if_cong)
  note parts = even(4) [OF pos]
  have "map im_seq items = [1..n]"
    by (simp add: items even_item_def o_def) (rule nth_equalityI, auto)
  moreover have "length items \<le> 12" using even(3) by (simp add: items)
  moreover have "\<forall>x \<in> set items. 0 < im_amount x \<and> (\<forall>y \<in> set items. \<bar>im_amount x - im_amount y\<bar> < 12)"
  proof -
    have "\<bar>of_int (?am i) - of_int (?am j)\<bar> < (12 :: rat)" for i j
    proof -
      have "\<bar>?am i - ?am j\<bar> < 12" using parts even(3) by auto
      then show ?thesis by (metis of_int_abs of_int_diff of_int_less_iff of_int_numeral)
    qed
    then show ?thesis using parts by (auto simp: items even_item_def)
  qed
  moreover have sum: "sum_list ys = R" unfolding ys_def by (rule sum_even [OF pos])
  moreover have "sum_list (map im_amount items) = of_int R"
    unfolding am using sum of_int_sum_rat [of ys] by simp
  moreover have "foldl js_add 0 (map im_amount items) = of_int R"
  proof -
    have "\<And>y. y \<in> set ys \<Longrightarrow> 0 \<le> y" using parts by (auto simp: ys_def)
    then show ?thesis
      unfolding am using foldl_js_add_int [of ys 0] sum assms(2) by simp
  qed
  moreover have "sorted (map im_dueDate items)"
    unfolding sorted_iff_nth_mono
  proof (intro allI impI)
    fix i j assume "i \<le> j" "j < length (map im_dueDate items)"
    then show "map im_dueDate items ! i \<le> map im_dueDate items ! j"
      using due_offset(3) [of "int j" n days "int i"] assms(3,4) by (simp add: items even_item_def days_def)
  qed
  moreover have "\<forall>x \<in> set items. toUtcDateOnly a \<le> im_dueDate x \<and> im_dueDate x \<le> toUtcDateOnly a + days * msPerDay"
    using due_offset(1,2) [where n = n and days = days] assms(3,4)
    by (auto simp: items even_item_def days_def less_imp_le
      intro!: mult_nonneg_nonneg mult_right_mono)
  ultimately show ?thesis unfolding n_def days_def by blast
qed

theorem evenChequeSchedule_exact_witness:
  "sum_list (map im_amount (evenChequeSchedule 1798761600000 1830211200000 95000 4)) = 95000"
proof -
  have "schedule_count 4 = 4" by (simp add: schedule_count_def)
  moreover have "daysBetween 1798761600000 1830211200000 = 364"
    by (rule daysBetween_eq) (simp_all add: toUtcDateOnly_modern modern_def days_of_def msPerDay_def)
  ultimately show ?thesis
    using evenChequeSchedule_exact [of 95000 1798761600000 1830211200000 4] by simp
qed

subsection \<open>The nightly check, as a whole\<close>

abbreviation late :: "payment_item \<Rightarrow> payment_item" where
  "late p \<equiv> p\<lparr>pi_status := P_LATE\<rparr>"

definition late_flag :: "world \<Rightarrow> payment_item \<Rightarrow> bool" where
  "late_flag s p \<longleftrightarrow> active_in (item_scope p (item_property p s)) RK_PAYMENT_LATE s"

lemma item_scope_late [simp]: "item_scope (late p) x = item_scope p x"
  by (simp add: item_scope_def)

lemma active_in_flags: "w_flags t = w_flags s \<Longrightarrow> active_in sc c t = active_in sc c s"
  by (simp add: active_in_def)

lemma active_raise_other: "active_in sc c s \<Longrightarrow> active_in sc c (snd (raiseFlag sc' code sev s))"
  by (auto simp: raiseFlag_eq active_in_def)

lemma raise_late:
  assumes "raisePaymentLate i s = (Inr (), t)"
  shows "active_in sc c s \<Longrightarrow> active_in sc c t"
    and "List.find (\<lambda>p. pi_id p = i) (w_payments s) = Some p \<Longrightarrow> late_flag t p"
proof -
  have t: "t = snd (raiseFlag (item_scope q (item_property q s)) RK_PAYMENT_LATE SEV_CRITICAL s)"
      "w_tenancies t = w_tenancies s"
    if "List.find (\<lambda>p. pi_id p = i) (w_payments s) = Some q" for q
    using assms that by (auto simp: raisePaymentLate_def on_item_def op_ok raiseFlag_eq)
  show "active_in sc c t" if "active_in sc c s"
    using that assms t by (cases "List.find (\<lambda>p. pi_id p = i) (w_payments s)")
      (auto simp: active_raise_other raisePaymentLate_def on_item_def op_ok)
  show "late_flag t p" if "List.find (\<lambda>p. pi_id p = i) (w_payments s) = Some p"
    using t [OF that] by (simp add: late_flag_def active_raise item_property_def)
qed

lemma markLate_step:
  assumes run: "markLate amt fd p s = (Inr (), t)"
  shows "w_payments t = upd_where (\<lambda>q. pi_id q = pi_id p) late (w_payments s)"
    and "w_tenancies t = w_tenancies s" and "w_now t = w_now s"
    and "active_in sc c s \<Longrightarrow> active_in sc c t"
    and "List.find (\<lambda>q. pi_id q = pi_id p) (w_payments s) = Some q \<Longrightarrow> late_flag t q"
proof -
  let ?w = "s\<lparr>w_payments := upd_where (\<lambda>q. pi_id q = pi_id p) late (w_payments s)\<rparr>"
  obtain x r1 s1 where flag: "raisePaymentLate (pi_id p) ?w = (Inr x, s1)"
    and notice: "recordNotification r1 s1 = (Inr (), t)"
    using run unfolding markLate_def by (auto simp only: bindE_ok writeE_ok readE_ok)
  have pay: "w_payments s1 = w_payments ?w" "w_tenancies s1 = w_tenancies ?w" "w_now s1 = w_now ?w"
    using flag by (rule sameD [rotated]; intro frame.keeps_intros frames; simp)+
  have pay': "w_payments t = w_payments s1" "w_tenancies t = w_tenancies s1" "w_now t = w_now s1" "w_flags t = w_flags s1"
    using notice by (rule sameD [rotated]; intro frame.keeps_intros frames; simp)+
  show "w_payments t = upd_where (\<lambda>q. pi_id q = pi_id p) late (w_payments s)"
    and "w_tenancies t = w_tenancies s" and "w_now t = w_now s"
    using pay pay' by simp_all
  have flag': "raisePaymentLate (pi_id p) ?w = (Inr (), s1)" using flag by simp
  show "active_in sc c t" if "active_in sc c s"
    using raise_late(1) [OF flag', of sc c] that active_in_flags [OF pay'(4)]
    by (simp add: active_in_def)
  show "late_flag t q" if "List.find (\<lambda>q. pi_id q = pi_id p) (w_payments s) = Some q"
  proof -
    have "pi_id q = pi_id p" using find_Some_in [OF that] by simp
    then have "List.find (\<lambda>q. pi_id q = pi_id p) (w_payments ?w) = Some (late q)"
      using that by (simp add: find_upd_where_same)
    from raise_late(2) [OF flag' this] show ?thesis
      using active_in_flags [OF pay'(4)] pay'(2) by (simp add: late_flag_def item_property_def)
  qed
qed

lemma markLate_loop:
  assumes "forE due (markLate amt fd) s = (Inr (), t)" and "distinct (map pi_id (w_payments s))"
  shows "w_payments t = upd_where (\<lambda>q. pi_id q \<in> pi_id ` set due) late (w_payments s) \<and>
    w_tenancies t = w_tenancies s \<and> w_now t = w_now s \<and>
    (\<forall>sc c. active_in sc c s \<longrightarrow> active_in sc c t) \<and>
    (\<forall>p \<in> set due. \<forall>q \<in> set (w_payments s). pi_id q = pi_id p \<longrightarrow> late_flag t q)"
  using assms
proof (induction due arbitrary: s)
  case Nil
  then show ?case by (simp add: op_ok upd_where_id)
next
  case (Cons p due)
  then obtain s1 where h: "markLate amt fd p s = (Inr (), s1)" and r: "forE due (markLate amt fd) s1 = (Inr (), t)"
    by (auto simp: bindE_ok)
  note step = markLate_step [OF h]
  have ids: "map pi_id (w_payments s1) = map pi_id (w_payments s)"
    unfolding step(1) by (rule map_upd_where) simp
  have IH: "w_payments t = upd_where (\<lambda>q. pi_id q \<in> pi_id ` set due) late (w_payments s1)"
    "w_tenancies t = w_tenancies s1" "w_now t = w_now s1" "\<And>sc c. active_in sc c s1 \<Longrightarrow> active_in sc c t"
    "\<And>x q. x \<in> set due \<Longrightarrow> q \<in> set (w_payments s1) \<Longrightarrow> pi_id q = pi_id x \<Longrightarrow> late_flag t q"
    using Cons.IH [OF r] Cons.prems(2) ids by auto
  have "w_payments t = upd_where (\<lambda>q. pi_id q \<in> pi_id ` set (p # due)) late (w_payments s)"
    unfolding IH(1) step(1) upd_where_def by (auto simp: o_def)
  moreover have "late_flag t q" if x: "x \<in> set (p # due)" "q \<in> set (w_payments s)" "pi_id q = pi_id x" for x q
  proof (cases "x = p")
    case True
    then have "List.find (\<lambda>q. pi_id q = pi_id p) (w_payments s) = Some q"
      using find_cong_key [OF Cons.prems(2) x(2)] x(3) by simp
    from step(5) [OF this] show ?thesis using IH(2,4) by (simp add: late_flag_def item_property_def)
  next
    case False
    then have "x \<in> set due" using x(1) by simp
    moreover have "late q \<in> set (w_payments s1) \<or> q \<in> set (w_payments s1)"
      using x(2) unfolding step(1) set_upd_where by (auto simp: image_iff)
    ultimately have "late_flag t (late q) \<or> late_flag t q" using IH(5) [of x] x(3) by auto
    then show ?thesis by (auto simp: late_flag_def item_property_def)
  qed
  ultimately show ?case using IH step by metis
qed

lemma detectLatePayments_eq:
  "detectLatePayments amt fd ws s = (Inr n, t) \<longleftrightarrow>
     (let due = filter (overdue ws (todayInDubai (w_now s))) (w_payments s) in
      n = length due \<and> forE due (markLate amt fd) s = (Inr (), t))"
  by (auto simp: detectLatePayments_def op_ok Let_def)

lemma not_overdue_late: "\<not> overdue ws today (late p)"
  by (simp add: overdue_def)

text \<open>
  C16: the nightly check settles. When it returns, exactly the items that were past due and neither
  received nor cancelled are late, each of them has its active late flag, the number returned is
  theirs, nothing is overdue any more, and running the check again at once changes nothing: one
  reminder per item.
\<close>

theorem detectLatePayments_settles:
  assumes "detectLatePayments amt fd ws s = (Inr n, t)" and "distinct (map pi_id (w_payments s))"
  shows "n = count_where (overdue ws (todayInDubai (w_now s))) (w_payments s) \<and>
    w_payments t = upd_where (overdue ws (todayInDubai (w_now s))) late (w_payments s) \<and>
    (\<forall>p \<in> set (w_payments s). overdue ws (todayInDubai (w_now s)) p \<longrightarrow> late_flag t p) \<and>
    (\<forall>p \<in> set (w_payments t). \<not> overdue ws (todayInDubai (w_now t)) p) \<and>
    detectLatePayments amt fd ws t = (Inr 0, t)"
proof -
  let ?o = "overdue ws (todayInDubai (w_now s))"
  define due where "due = filter ?o (w_payments s)"
  have n: "n = length due" and run: "forE due (markLate amt fd) s = (Inr (), t)"
    using assms(1) by (simp_all add: detectLatePayments_eq Let_def due_def)
  note loop = markLate_loop [OF run assms(2)]
  have "pi_id q \<in> pi_id ` set due \<longleftrightarrow> ?o q" if "q \<in> set (w_payments s)" for q
    using that assms(2) by (auto simp: due_def distinct_map inj_on_def)
  then have pay: "w_payments t = upd_where ?o late (w_payments s)"
    using loop unfolding upd_where_def by (auto intro: map_cong)
  have none: "\<forall>p \<in> set (w_payments t). \<not> ?o p"
    unfolding pay set_upd_where by (auto simp: not_overdue_late)
  then have "filter (overdue ws (todayInDubai (w_now t))) (w_payments t) = []"
    using loop by (simp add: filter_empty_conv)
  then have "detectLatePayments amt fd ws t = (Inr 0, t)"
    unfolding detectLatePayments_eq Let_def by (simp add: op_eval)
  moreover have "\<forall>p \<in> set (w_payments s). ?o p \<longrightarrow> late_flag t p"
    using loop unfolding due_def by auto
  moreover have "w_now t = w_now s" using loop by blast
  moreover have "n = count_where ?o (w_payments s)" using n by (simp add: count_where_def due_def)
  ultimately show ?thesis using none pay by metis
qed

definition sample_payment :: payment_item where
  "sample_payment = \<lparr> pi_id = 61, pi_workspaceId = 5, pi_tenancyId = 51, pi_seq = 1, pi_dueDate = -86400000,
     pi_amount = 90000, pi_instrument = I_CHEQUE, pi_chequeNo = None, pi_bank = None,
     pi_status = P_SCHEDULED, pi_proofDocId = None, pi_confirmedById = None, pi_notes = None \<rparr>"

theorem detectLatePayments_settles_witness:
  "\<exists>t. w_payments t = [late sample_payment] \<and> late_flag t sample_payment \<and>
     detectLatePayments (\<lambda>_. []) (\<lambda>_. []) (Some 5) t = (Inr 0, t)"
proof -
  let ?s = "empty_world\<lparr>w_payments := [sample_payment]\<rparr>"
  have now: "todayInDubai (w_now ?s) = 0"
    by (simp add: empty_world_def todayInDubai_def toUtcDateOnly_modern modern_def days_of_def msPerDay_def)
  have due: "filter (overdue (Some 5) 0) (w_payments ?s) = [sample_payment]"
    by (simp add: overdue_def sample_payment_def holds_for_def)
  have "\<exists>t. forE [sample_payment] (markLate (\<lambda>_. []) (\<lambda>_. [])) ?s = (Inr (), t)"
    by (simp add: markLate_def op_defs raisePaymentLate_def on_item_def sample_payment_def raiseFlag_eq
      recordNotification_def unique_def workspaceOverseers_def late_notice_def Let_def)
      (simp add: empty_world_def)
  then obtain t where run: "forE [sample_payment] (markLate (\<lambda>_. []) (\<lambda>_. [])) ?s = (Inr (), t)" ..
  have "detectLatePayments (\<lambda>_. []) (\<lambda>_. []) (Some 5) ?s = (Inr 1, t)"
    unfolding detectLatePayments_eq Let_def now due using run by simp
  from detectLatePayments_settles [OF this] show ?thesis
    using now by (intro exI [of _ t]) (simp add: overdue_def sample_payment_def holds_for_def)
qed

end
