(* ===== verification/Next_Action.thy ===== *)
theory Next_Action
  imports Schema
begin

text \<open>
  \<open>services/renewalNextAction.ts\<close>: the one recommendation the renewal desk shows for a tenancy,
  derived from the persisted records by a list of rules of which the first that matches wins.
\<close>

datatype nextActionCode =
    NA_CAPTURE_INDEX | NA_VERIFY_INDEX_SOURCE | NA_OPEN_CASE | NA_SERVE_NOTICE
  | NA_ADD_SERVICE_EVIDENCE | NA_PREPARE_TERMS | NA_SEND_OFFER | NA_AWAIT_TENANT
  | NA_REVIEW_COUNTER | NA_COMPLETE_RENEWAL | NA_REVIEW_COMPLETED_CASE | NA_REVIEW_CASE
  | NA_NO_ACTION

datatype urgency = UR_CRITICAL | UR_WARN | UR_NORMAL | UR_NONE

record next_action =
  na_code :: nextActionCode
  na_label :: string
  na_reason :: string
  na_urgency :: urgency
  na_dueAt :: "time option"
  na_href :: string
  na_responsibleLayer :: "string option"

record offer_state =
  os_party :: offerParty
  os_status :: offerStatus
  os_sentToTenant :: bool

record next_action_input =
  nx_tenancyId :: uid
  nx_noticeGateAt :: time
  nx_daysToGate :: int
  nx_gatePassed :: bool
  nx_hasIndex :: bool
  nx_provisionalIndex :: bool
  nx_caseStatus :: "renewalStatus option"
  nx_noticeStatus :: "noticeStatus option"
  nx_currentOffer :: "offer_state option"
  nx_hasAcceptedOffer :: bool
  nx_renewedTenancyId :: "uid option"

definition gateUrgency :: "int \<Rightarrow> urgency" where
  "gateUrgency daysToGate =
     (if daysToGate \<le> 14 then UR_CRITICAL else if daysToGate \<le> 30 then UR_WARN else UR_NORMAL)"

text \<open>The \<open>base\<close> of the code with the fields every branch sets: the urgency and the date are the gate's.\<close>

definition action :: "next_action_input \<Rightarrow> nextActionCode \<Rightarrow> string \<Rightarrow> string \<Rightarrow> string \<Rightarrow> next_action" where
  "action inp code label reason layer =
     \<lparr> na_code = code, na_label = label, na_reason = reason,
       na_urgency = gateUrgency (nx_daysToGate inp), na_dueAt = Some (nx_noticeGateAt inp),
       na_href = ''/renewals/'' @ show_nat (nx_tenancyId inp) @ ''?view=case'',
       na_responsibleLayer = Some layer \<rparr>"

definition deriveRenewalNextAction :: "next_action_input \<Rightarrow> next_action" where
  "deriveRenewalNextAction inp =
     (if nx_renewedTenancyId inp \<noteq> None \<or> nx_caseStatus inp = Some R_RENEWED then
        (action inp NA_REVIEW_COMPLETED_CASE ''Review completed renewal''
           ''The successor tenancy and renewal completion record are available.'' ''Fiduciary oversight'')
          \<lparr>na_urgency := UR_NONE, na_dueAt := None\<rparr>
      else if nx_caseStatus inp = Some R_DECLINED then
        (action inp NA_NO_ACTION ''No renewal action''
           ''The renewal case was declined. Review the record if circumstances change.'' ''Fiduciary oversight'')
          \<lparr>na_urgency := UR_NONE, na_dueAt := None\<rparr>
      else if nx_caseStatus inp = Some R_LAPSED then
        (action inp NA_REVIEW_CASE ''Review lapsed notice position''
           ''The recorded notice gate has passed without a served notice on file.'' ''Fiduciary decision'')
          \<lparr>na_urgency := UR_CRITICAL\<rparr>
      else if nx_noticeStatus inp = Some N_SERVICE_RECORDED_PENDING_EVIDENCE then
        action inp NA_ADD_SERVICE_EVIDENCE ''Add service evidence''
          ''Service was recorded but is not treated as served until proof is attached.''
          ''Decision-authorized fiduciary or manager''
      else if nx_gatePassed inp \<and> nx_noticeStatus inp \<noteq> Some N_SERVED then
        (action inp NA_REVIEW_CASE ''Review lapsed notice position''
           ''The recorded notice gate has passed without a served notice on file.'' ''Fiduciary decision'')
          \<lparr>na_urgency := UR_CRITICAL\<rparr>
      else if \<not> nx_hasIndex inp then
        action inp NA_CAPTURE_INDEX ''Capture index source''
          ''No index source is available for the renewal assessment.'' ''Authorized renewal operator''
      else if nx_provisionalIndex inp then
        action inp NA_VERIFY_INDEX_SOURCE ''Verify index source''
          ''The calculation uses a provisional concierge figure awaiting verification.''
          ''Authorized renewal operator''
      else if nx_caseStatus inp = None then
        action inp NA_OPEN_CASE ''Open renewal case''
          ''The source is captured but no renewal case has been opened.'' ''Authorized renewal operator''
      else if nx_noticeStatus inp = None \<or> nx_noticeStatus inp = Some N_GENERATED \<or>
              nx_noticeStatus inp = Some N_APPROVED then
        action inp NA_SERVE_NOTICE ''Serve notice with proof''
          ''No served notice with supporting evidence is on file.'' ''Decision-authorized fiduciary or manager''
      else if nx_noticeStatus inp = Some N_WITHDRAWN then
        (action inp NA_REVIEW_CASE ''Review withdrawn notice''
           ''The current notice was withdrawn; confirm the intended next step.'' ''Fiduciary decision'')
          \<lparr>na_urgency := UR_WARN\<rparr>
      else if nx_hasAcceptedOffer inp \<or> nx_caseStatus inp = Some R_AGREED then
        (action inp NA_COMPLETE_RENEWAL ''Complete renewal''
           ''Terms are accepted; create the successor tenancy and completion record.''
           ''Decision-authorized fiduciary or manager'')\<lparr>na_urgency := UR_NORMAL\<rparr>
      else case nx_currentOffer inp of
        None \<Rightarrow>
          (action inp NA_PREPARE_TERMS ''Prepare renewal terms''
             ''The notice is served and no proposal is currently on the table.'' ''Authorized renewal operator'')
            \<lparr>na_urgency := UR_NORMAL\<rparr>
      | Some f \<Rightarrow>
          if os_party f = OP_TENANT \<and> os_status f = O_COUNTERED then
            (action inp NA_REVIEW_COUNTER ''Review tenant counter''
               ''The tenant returned revised terms that require a recorded decision.'' ''Fiduciary decision'')
              \<lparr>na_urgency := UR_WARN\<rparr>
          else if os_party f = OP_LANDLORD \<and> os_status f = O_SENT then
            if \<not> os_sentToTenant f then
              (action inp NA_SEND_OFFER ''Send proposal to tenant''
                 ''Landlord terms are prepared but no tenant delivery link is recorded.''
                 ''Authorized renewal operator'')\<lparr>na_urgency := UR_NORMAL\<rparr>
            else
              (action inp NA_AWAIT_TENANT ''Await tenant response''
                 ''The current proposal was sent and remains open for the tenant.'' ''Tenant'')
                \<lparr>na_urgency := UR_NORMAL\<rparr>
          else
            (action inp NA_REVIEW_CASE ''Review renewal case''
               ''The persisted records do not map to a safe automatic next action.'' ''Fiduciary oversight'')
              \<lparr>na_urgency := UR_WARN\<rparr>)"

subsection \<open>What a recommendation implies\<close>

lemma action_fields [simp]:
  "na_code (action inp c l r w) = c" "na_urgency (action inp c l r w) = gateUrgency (nx_daysToGate inp)"
  "na_dueAt (action inp c l r w) = Some (nx_noticeGateAt inp)"
  by (simp_all add: action_def)

lemma gateUrgency_loud [simp]: "gateUrgency n \<noteq> UR_NONE"
  by (simp add: gateUrgency_def)

text \<open>The answer is one of the branches; a field of it is read branch by branch.\<close>

lemma field_if: "f (if b then x else y) = (if b then f x else f y)"
  by simp

lemma field_option: "f (case y of None \<Rightarrow> x | Some z \<Rightarrow> g z) = (case y of None \<Rightarrow> f x | Some z \<Rightarrow> f (g z))"
  by (cases y) simp_all

definition facts :: "next_action \<Rightarrow> nextActionCode \<times> urgency \<times> time option" where
  "facts a = (na_code a, na_urgency a, na_dueAt a)"

lemma facts_action [simp]:
  "facts (action inp c l r w) = (c, gateUrgency (nx_daysToGate inp), Some (nx_noticeGateAt inp))"
  "facts (a\<lparr>na_urgency := u\<rparr>) = (fst (facts a), u, snd (snd (facts a)))"
  "facts (a\<lparr>na_dueAt := d\<rparr>) = (fst (facts a), fst (snd (facts a)), d)"
  by (simp_all add: facts_def)

lemmas verdict = arg_cong [OF deriveRenewalNextAction_def, of facts,
  unfolded field_if [of facts] field_option [of facts] facts_action fst_conv snd_conv]

text \<open>A renewal that is over: nothing is due.\<close>

definition settled_case :: "next_action_input \<Rightarrow> bool" where
  "settled_case inp \<longleftrightarrow> nx_renewedTenancyId inp \<noteq> None \<or> nx_caseStatus inp = Some R_RENEWED \<or>
     nx_caseStatus inp = Some R_DECLINED"

text \<open>Everything the code requires before it speaks of terms.\<close>

definition ready_for_terms :: "next_action_input \<Rightarrow> bool" where
  "ready_for_terms inp \<longleftrightarrow> \<not> settled_case inp \<and> nx_noticeStatus inp = Some N_SERVED \<and>
     nx_hasIndex inp \<and> \<not> nx_provisionalIndex inp \<and>
     nx_caseStatus inp \<noteq> None \<and> nx_caseStatus inp \<noteq> Some R_LAPSED"

definition terms_code :: "nextActionCode \<Rightarrow> bool" where
  "terms_code c \<longleftrightarrow> c \<in> {NA_PREPARE_TERMS, NA_SEND_OFFER, NA_AWAIT_TENANT, NA_REVIEW_COUNTER, NA_COMPLETE_RENEWAL}"

text \<open>
  the recommendation never runs ahead of the record. It is silent exactly on a renewal that is
  over; it speaks of terms, in either direction, only for an open case whose notice is served with
  proof and whose index is verified; once the gate has passed without a served notice the answer is
  critical, or asks for the missing proof of service; and completing is recommended for exactly the
  ready cases on which an offer was accepted or the case is agreed.
\<close>

theorem next_action_sound:
  "let a = deriveRenewalNextAction inp in
   (na_urgency a = UR_NONE \<longleftrightarrow> settled_case inp) \<and> (na_dueAt a = None \<longleftrightarrow> settled_case inp) \<and>
   (terms_code (na_code a) \<longrightarrow> ready_for_terms inp) \<and>
   (na_code a = NA_COMPLETE_RENEWAL \<longleftrightarrow>
      ready_for_terms inp \<and> (nx_hasAcceptedOffer inp \<or> nx_caseStatus inp = Some R_AGREED)) \<and>
   (ready_for_terms inp \<and> na_code a \<noteq> NA_REVIEW_CASE \<longrightarrow> terms_code (na_code a)) \<and>
   (nx_gatePassed inp \<and> nx_noticeStatus inp \<noteq> Some N_SERVED \<and> \<not> settled_case inp \<longrightarrow>
      na_urgency a = UR_CRITICAL \<or> na_code a = NA_ADD_SERVICE_EVIDENCE)"
proof -
  obtain c u d where f: "facts (deriveRenewalNextAction inp) = (c, u, d)" by (cases rule: prod_cases3)
  then have "na_code (deriveRenewalNextAction inp) = c" "na_urgency (deriveRenewalNextAction inp) = u"
    "na_dueAt (deriveRenewalNextAction inp) = d" by (simp_all add: facts_def)
  moreover have "(u = UR_NONE \<longleftrightarrow> settled_case inp) \<and> (d = None \<longleftrightarrow> settled_case inp)"
    using f unfolding verdict settled_case_def by (auto split: if_splits option.splits)
  moreover have "nx_noticeStatus inp = None \<or> nx_noticeStatus inp = Some N_GENERATED \<or>
      nx_noticeStatus inp = Some N_APPROVED \<or> nx_noticeStatus inp = Some N_WITHDRAWN \<or>
      nx_noticeStatus inp = Some N_SERVICE_RECORDED_PENDING_EVIDENCE \<or> nx_noticeStatus inp = Some N_SERVED"
    by (cases "nx_noticeStatus inp"; cases "the (nx_noticeStatus inp)") simp_all
  note notices = this
  moreover have "(terms_code c \<longrightarrow> ready_for_terms inp) \<and>
      (c = NA_COMPLETE_RENEWAL \<longleftrightarrow>
        ready_for_terms inp \<and> (nx_hasAcceptedOffer inp \<or> nx_caseStatus inp = Some R_AGREED)) \<and>
      (ready_for_terms inp \<and> c \<noteq> NA_REVIEW_CASE \<longrightarrow> terms_code c)"
    using f notices unfolding verdict settled_case_def ready_for_terms_def terms_code_def
    by (auto split: if_splits option.splits)
  moreover have "nx_gatePassed inp \<and> nx_noticeStatus inp \<noteq> Some N_SERVED \<and> \<not> settled_case inp \<longrightarrow>
      u = UR_CRITICAL \<or> c = NA_ADD_SERVICE_EVIDENCE"
    using f unfolding verdict settled_case_def by (auto split: if_splits option.splits)
  ultimately show ?thesis by (simp add: Let_def)
qed

definition sample_position :: next_action_input where
  "sample_position = \<lparr> nx_tenancyId = 51, nx_noticeGateAt = 0, nx_daysToGate = 10, nx_gatePassed = False,
     nx_hasIndex = True, nx_provisionalIndex = False, nx_caseStatus = Some R_NEGOTIATING,
     nx_noticeStatus = Some N_SERVED, nx_currentOffer = None, nx_hasAcceptedOffer = True,
     nx_renewedTenancyId = None \<rparr>"

theorem next_action_sound_witness:
  "na_code (deriveRenewalNextAction sample_position) = NA_COMPLETE_RENEWAL \<and> ready_for_terms sample_position"
  using next_action_sound [of sample_position]
  by (simp add: Let_def ready_for_terms_def settled_case_def sample_position_def)

end
