(* ===== verification/Renewals.thy ===== *)
theory Renewals
  imports Payments Next_Action
begin

text \<open>
  The first half of \<open>services/renewals.ts\<close>: opening a renewal case, capturing the market index, the
  renewal report of a tenancy and the pipeline. The negotiation is in \<^theory_text>\<open>Negotiation\<close>. The
  collation order of \<open>localeCompare\<close> is the parameter \<open>collate\<close>, the key of a string in that order.
\<close>

subsection \<open>Cases\<close>

definition TERMINAL :: "renewalStatus list" where
  "TERMINAL = [R_RENEWED, R_DECLINED, R_LAPSED]"

definition active_case :: "uid \<Rightarrow> uid \<Rightarrow> renewal_case \<Rightarrow> bool" where
  "active_case ws tenancyId rc \<longleftrightarrow> rc_workspaceId rc = ws \<and> rc_tenancyId rc = tenancyId \<and>
     rc_status rc \<notin> set TERMINAL"

text \<open>An evidence row about a tenancy and its property.\<close>

definition about :: "uid \<Rightarrow> uid \<Rightarrow> evidence_input \<Rightarrow> evidence_input" where
  "about tenancyId propertyId inp = inp\<lparr>ei_tenancyId := Some tenancyId, ei_propertyId := Some propertyId\<rparr>"

definition case_row :: "uid \<Rightarrow> time \<Rightarrow> authz_ctx \<Rightarrow> tenancy \<Rightarrow> calc_result \<Rightarrow> renewal_case" where
  "case_row i now ctx t gate =
     \<lparr> rc_id = i, rc_workspaceId = cx_workspaceId ctx, rc_tenancyId = tn_id t,
       rc_propertyId = tn_propertyId t, rc_status = R_ASSESSING, rc_currentRentSnapshot = tn_annualRent t,
       rc_noticeGateAt = Some (cr_date gate), rc_expiresAt = cr_date (contractExpiry (tn_endDate t)),
       rc_renewalDate = cr_date (renewalDate (tn_endDate t)), rc_noticeServedAt = None,
       rc_noticeDocId = None, rc_decidedOfferId = None, rc_renewedTenancyId = None,
       rc_indexCaptureId = None, rc_proposedRent = None, rc_proposedStartDate = None,
       rc_proposedEndDate = None, rc_currentNoticeId = None, rc_currentOfferId = None,
       rc_archivedAt = None, rc_createdById = Some (cx_userId ctx), rc_createdAt = now,
       rc_updatedAt = now \<rparr>"

text \<open>The insert with the partial unique index \<open>RenewalCase_active_unique\<close>.\<close>

definition insertCase :: "authz_ctx \<Rightarrow> tenancy \<Rightarrow> calc_result \<Rightarrow> renewal_case svc" where
  "insertCase ctx t gate =
     bindE getNow (\<lambda>now.
     thenE (bindE (readE w_cases) (\<lambda>rows.
        assertE (\<forall>rc \<in> set rows. \<not> active_case (cx_workspaceId ctx) (tn_id t) rc)
          (UniqueViolation ''RenewalCase_active_unique'')))
     (bindE newId (\<lambda>i.
      thenE (writeE (\<lambda>s. s\<lparr>w_cases := w_cases s @ [case_row i now ctx t gate]\<rparr>))
        (ret (case_row i now ctx t gate)))))"

text \<open>
  The second half of \<open>openRenewalCase\<close>, from the insert on. Between the lookup and the insert
  another request may commit, so this half runs on a database of its own.
\<close>

definition createCase :: "authz_ctx \<Rightarrow> tenancy \<Rightarrow> renewal_case svc" where
  "createCase ctx t =
     bindE (liftE (noticeGate (tn_endDate t) (of_int (tn_noticePeriodDays t)))) (\<lambda>gate.
     bindE (catchE (bindE (insertCase ctx t gate) (\<lambda>rc. ret (Inr rc)))
        (\<lambda>e. case e of
            UniqueViolation _ \<Rightarrow>
              bindE (readE (\<lambda>s. List.find (active_case (cx_workspaceId ctx) (tn_id t)) (w_cases s)))
                (\<lambda>winner. case winner of Some w \<Rightarrow> ret (Inl w) | None \<Rightarrow> throw e)
          | _ \<Rightarrow> throw e)) (\<lambda>r.
     case r of
       Inl winner \<Rightarrow> ret winner
     | Inr created \<Rightarrow>
         bindE (recordEvidence (about (tn_id t) (tn_propertyId t)
             (evidence_by ctx EV_RENEWAL_ASSESSMENT_CREATED S_RENEWAL_CASE (Some (rc_id created))
               (JObj [(''currentRent'', JNum (tn_annualRent t))])))) (\<lambda>_.
         bindE (recordAudit (audit_by ctx ''renewal.open'' ''RenewalCase'' (Some (rc_id created)))) (\<lambda>_.
         ret created))))"

definition openRenewalCase :: "authz_ctx \<Rightarrow> uid \<Rightarrow> renewal_case svc" where
  "openRenewalCase ctx tenancyId =
     thenE (requireCap ctx ''renewals.write'')
     (bindE (getTenancy ctx tenancyId) (\<lambda>t.
      bindE (readE (\<lambda>s. List.find (active_case (cx_workspaceId ctx) tenancyId) (w_cases s))) (\<lambda>existing.
      case existing of Some rc \<Rightarrow> ret rc | None \<Rightarrow> createCase ctx t)))"

subsection \<open>Capturing the index\<close>

record capture_input =
  ci_tenancyId :: uid
  ci_marketRentAvg :: rat
  ci_capturedAt :: "time option"
  ci_source :: "string option"
  ci_indexSource :: "indexSource option"
  ci_comparableBasis :: "json option"
  ci_sourceRef :: "json option"
  ci_note :: "string option"

fun indexSource_name :: "indexSource \<Rightarrow> string" where
  "indexSource_name IX_SMART_RENTAL_INDEX_2025 = ''SMART_RENTAL_INDEX_2025''"
| "indexSource_name IX_RERA_INDEX_LEGACY = ''RERA_INDEX_LEGACY''"
| "indexSource_name IX_MANUAL_CONCIERGE = ''MANUAL_CONCIERGE''"

definition claimedOfficial :: "indexSource option \<Rightarrow> bool" where
  "claimedOfficial x \<longleftrightarrow> x = Some IX_SMART_RENTAL_INDEX_2025 \<or> x = Some IX_RERA_INDEX_LEGACY"

definition hasArtefact :: "json option \<Rightarrow> bool" where
  "hasArtefact r = (case r of Some (JObj kvs) \<Rightarrow> kvs \<noteq> [] | _ \<Rightarrow> False)"

definition DEFAULT_INDEX :: string where "DEFAULT_INDEX = ''DLD Smart Rental Index''"

text \<open>\<open>x?.trim() || d\<close>.\<close>

definition trim_or :: "string \<Rightarrow> string option \<Rightarrow> string" where
  "trim_or d x = (case x of None \<Rightarrow> d | Some v \<Rightarrow> if js_trim v = [] then d else js_trim v)"

definition missing_artefact :: error where
  "missing_artefact = AuthzError (''An official index capture must cite a source artefact (sourceRef)'' @ em_dash @
     ''e.g. the index URL, screenshot id, or reference'') 422"

definition capture_row :: "uid \<Rightarrow> time \<Rightarrow> authz_ctx \<Rightarrow> tenancy \<Rightarrow> capture_input \<Rightarrow> rent_position \<Rightarrow> rent_index_capture" where
  "capture_row i now ctx t inp position =
     (let isOfficial = claimedOfficial (ci_indexSource inp) \<and> hasArtefact (ci_sourceRef inp) in
      \<lparr> ri_id = i, ri_workspaceId = cx_workspaceId ctx, ri_tenancyId = ci_tenancyId inp,
        ri_propertyId = tn_propertyId t, ri_marketRentAvg = money (ci_marketRentAvg inp),
        ri_source = (if isOfficial then trim_or DEFAULT_INDEX (ci_source inp)
                     else ''Manual concierge estimate (awaiting verification)''),
        ri_indexSource = (if isOfficial then ci_indexSource inp else Some IX_MANUAL_CONCIERGE),
        ri_gapPct = Some (column 4 (rp_gapPct position)), ri_permittedPct = Some (rp_bandPct position),
        ri_permittedNewRentMax = Some (money (rp_ceiling position)),
        ri_calculatorVersion = Some DECREE_43_CALCULATOR_VERSION,
        ri_comparableBasis = ci_comparableBasis inp, ri_sourceRef = ci_sourceRef inp,
        ri_capturedAt = (case ci_capturedAt inp of None \<Rightarrow> now | Some c \<Rightarrow> c),
        ri_capturedById = Some (cx_userId ctx), ri_note = ci_note inp, ri_createdAt = now \<rparr>)"

definition capture_payload :: "capture_input \<Rightarrow> rent_index_capture \<Rightarrow> rent_position \<Rightarrow> json" where
  "capture_payload inp c position = JObj
     [(''marketRentAvg'', JNum (ci_marketRentAvg inp)), (''source'', JStr (ri_source c)),
      (''indexSource'', jopt (JStr \<circ> indexSource_name) (ri_indexSource c)),
      (''permittedPct'', JNum (of_int (rp_bandPct position))),
      (''permittedNewRentMax'', JNum (rp_ceiling position)),
      (''calculatorVersion'', JStr DECREE_43_CALCULATOR_VERSION)]"

definition captureRentIndex :: "authz_ctx \<Rightarrow> capture_input \<Rightarrow> rent_index_capture svc" where
  "captureRentIndex ctx inp =
     thenE (requireCap ctx ''renewals.write'')
     (thenE (assertE (0 < ci_marketRentAvg inp) (AuthzError ''Market rent must be a positive amount'' 422))
     (bindE (getTenancy ctx (ci_tenancyId inp)) (\<lambda>t.
      thenE (assertE (\<not> (claimedOfficial (ci_indexSource inp) \<and> \<not> hasArtefact (ci_sourceRef inp))) missing_artefact)
      (bindE (liftE (decree43 (tn_annualRent t) (ci_marketRentAvg inp))) (\<lambda>position.
       bindE getNow (\<lambda>now. bindE newId (\<lambda>i.
       let c = capture_row i now ctx t inp position in
       thenE (writeE (\<lambda>s. s\<lparr>w_captures := w_captures s @ [c]\<rparr>))
       (bindE (recordEvidence (about (ci_tenancyId inp) (tn_propertyId t)
           (evidence_by ctx EV_INDEX_CAPTURED S_TENANCY (Some (ci_tenancyId inp)) (capture_payload inp c position))))
         (\<lambda>_.
        bindE (recordAudit (audit_by ctx ''renewal.capture_index'' ''RentIndexCapture'' (Some i))) (\<lambda>_.
        ret c))))))))))"

subsection \<open>The figure that applies\<close>

record effective_index =
  ef_marketRentAvg :: rat
  ef_capturedAt :: time
  ef_source :: string
  ef_isBenchmark :: bool
  ef_provisional :: bool

definition pickBenchmark :: "rent_index_benchmark list \<Rightarrow> string \<Rightarrow> string option \<Rightarrow> rent_index_benchmark option" where
  "pickBenchmark candidates community building =
     (let wide = List.find (\<lambda>x. bm_community x = community \<and> bm_building x = None) candidates in
      case building of None \<Rightarrow> wide
      | Some b \<Rightarrow> if b = [] then wide
          else case List.find (\<lambda>x. bm_community x = community \<and> bm_building x = Some b) candidates of
            Some x \<Rightarrow> Some x | None \<Rightarrow> wide)"

text \<open>\<open>orderBy: { capturedAt: "desc" }\<close>.\<close>

definition newest_first :: "('r \<Rightarrow> time) \<Rightarrow> 'r list \<Rightarrow> 'r list" where
  "newest_first k rows = sort_key (\<lambda>r. - k r) rows"

definition resolveBenchmark :: "uid \<Rightarrow> string \<Rightarrow> string option \<Rightarrow> world \<Rightarrow> rent_index_benchmark option" where
  "resolveBenchmark ws community building s =
     pickBenchmark (newest_first bm_capturedAt (filter (\<lambda>b. bm_workspaceId b = ws \<and> bm_community b = community \<and>
       (bm_building b = building \<or> bm_building b = None)) (w_benchmarks s))) community building"

definition resolveEffectiveIndex :: "uid \<Rightarrow> uid \<Rightarrow> property option \<Rightarrow> world \<Rightarrow> effective_index option" where
  "resolveEffectiveIndex ws tenancyId p s =
     (case pick_max ri_capturedAt (filter (\<lambda>c. ri_workspaceId c = ws \<and> ri_tenancyId c = tenancyId) (w_captures s)) of
        Some c \<Rightarrow> Some \<lparr> ef_marketRentAvg = ri_marketRentAvg c, ef_capturedAt = ri_capturedAt c,
          ef_source = ri_source c, ef_isBenchmark = False,
          ef_provisional = (ri_indexSource c = Some IX_MANUAL_CONCIERGE) \<rparr>
      | None \<Rightarrow>
          (case p of None \<Rightarrow> None
           | Some x \<Rightarrow> if pr_community x = [] then None
               else map_option (\<lambda>b. \<lparr> ef_marketRentAvg = bm_marketRentAvg b, ef_capturedAt = bm_capturedAt b,
                 ef_source = bm_source b, ef_isBenchmark = True, ef_provisional = False \<rparr>)
                 (resolveBenchmark ws (pr_community x) (pr_building x) s)))"

record benchmark_input =
  bi_community :: string
  bi_building :: "string option"
  bi_marketRentAvg :: rat
  bi_capturedAt :: "time option"
  bi_source :: "string option"
  bi_note :: "string option"

definition benchmark_row :: "uid \<Rightarrow> time \<Rightarrow> authz_ctx \<Rightarrow> benchmark_input \<Rightarrow> rent_index_benchmark" where
  "benchmark_row i now ctx inp =
     \<lparr> bm_id = i, bm_workspaceId = cx_workspaceId ctx, bm_community = js_trim (bi_community inp),
       bm_building = trimmed (bi_building inp), bm_marketRentAvg = money (bi_marketRentAvg inp),
       bm_source = trim_or DEFAULT_INDEX (bi_source inp),
       bm_capturedAt = (case bi_capturedAt inp of None \<Rightarrow> now | Some c \<Rightarrow> c),
       bm_capturedById = Some (cx_userId ctx), bm_note = bi_note inp, bm_createdAt = now \<rparr>"

definition captureBenchmark :: "authz_ctx \<Rightarrow> benchmark_input \<Rightarrow> rent_index_benchmark svc" where
  "captureBenchmark ctx inp =
     thenE (requireCap ctx ''renewals.write'')
     (thenE (assertE (0 < bi_marketRentAvg inp) (AuthzError ''Market rent must be a positive amount'' 422))
     (thenE (assertE (js_trim (bi_community inp) \<noteq> []) (AuthzError ''Community is required'' 422))
     (bindE getNow (\<lambda>now. bindE newId (\<lambda>i.
      let b = benchmark_row i now ctx inp in
      thenE (writeE (\<lambda>s. s\<lparr>w_benchmarks := w_benchmarks s @ [b]\<rparr>))
      (bindE (recordEvidence (evidence_by ctx EV_INDEX_CAPTURED S_WORKSPACE (Some (cx_workspaceId ctx))
          (JObj [(''benchmark'', JBool True), (''community'', JStr (bm_community b)),
                 (''building'', jopt JStr (bm_building b)), (''marketRentAvg'', JNum (bi_marketRentAvg inp))])))
        (\<lambda>_.
       bindE (recordAudit (audit_by ctx ''renewal.capture_benchmark'' ''RentIndexBenchmark'' (Some i)))
         (\<lambda>_. ret b))))))))"

definition listBenchmarks :: "authz_ctx \<Rightarrow> rent_index_benchmark list svc" where
  "listBenchmarks ctx =
     thenE (requireCap ctx ''renewals.read'')
       (readE (\<lambda>s. newest_first bm_capturedAt (filter (\<lambda>b. bm_workspaceId b = cx_workspaceId ctx) (w_benchmarks s))))"

subsection \<open>The report of one tenancy\<close>

record citation_view =
  cv_source :: "string option"
  cv_capturedAt :: "time option"
  cv_calculatorVersion :: "string option"
  cv_provisional :: bool

definition json_string :: "json option \<Rightarrow> string option" where
  "json_string j = (case j of Some (JStr x) \<Rightarrow> Some x | _ \<Rightarrow> None)"

definition json_date :: "json option \<Rightarrow> time option" where
  "json_date j = (case j of Some (JDate x) \<Rightarrow> Some x | _ \<Rightarrow> None)"

text \<open>The stored \<open>capturedAt\<close> is the ISO string of a date, which is what \<open>JDate\<close> stands for.\<close>

definition normalizedOfferCitation :: "json option \<Rightarrow> citation_view option" where
  "normalizedOfferCitation v =
     (case v of
        Some (JObj kvs) \<Rightarrow> Some \<lparr> cv_source = json_string (map_of kvs ''source''),
          cv_capturedAt = json_date (map_of kvs ''capturedAt''),
          cv_calculatorVersion = json_string (map_of kvs ''calculatorVersion''),
          cv_provisional = (map_of kvs ''provisional'' = Some (JBool True)) \<rparr>
      | _ \<Rightarrow> None)"

record offer_view =
  ow_id :: uid
  ow_version :: int
  ow_party :: offerParty
  ow_annualRent :: rat
  ow_paymentSchedule :: string
  ow_paymentMethod :: "string option"
  ow_termMonths :: "int option"
  ow_status :: offerStatus
  ow_note :: "string option"
  ow_createdAt :: time
  ow_sentToTenant :: bool
  ow_sentToTenantAt :: "time option"
  ow_permittedMaxSnapshot :: "rat option"
  ow_indexCitation :: "citation_view option"

record renewal_risk =
  rr_tenancy :: tenancy
  rr_noticeGateAt :: time
  rr_expiresAt :: time
  rr_renewalDate :: time
  rr_daysToGate :: int
  rr_gatePassed :: bool
  rr_latestIndex :: "effective_index option"
  rr_position :: "rent_position option"
  rr_renewalCase :: "renewal_case option"
  rr_currentNotice :: "notice option"
  rr_offers :: "offer_view list"
  rr_nextAction :: next_action

text \<open>The links that were sent for these offers, in table order; a \<open>Map\<close> keeps the last entry of a key.\<close>

definition tenant_links :: "uid \<Rightarrow> uid list \<Rightarrow> world \<Rightarrow> secure_link list" where
  "tenant_links ws offers s = filter (\<lambda>l. sl_workspaceId l = ws \<and> sl_purpose l = LP_TENANT_OFFER \<and>
     sl_scopeType l = S_OFFER \<and> sl_scopeId l \<in> set offers) (w_links s)"

definition view_of_offer :: "secure_link list \<Rightarrow> offer \<Rightarrow> offer_view" where
  "view_of_offer links f =
     \<lparr> ow_id = of_id f, ow_version = of_version f, ow_party = of_party f, ow_annualRent = of_annualRent f,
       ow_paymentSchedule = of_paymentSchedule f, ow_paymentMethod = of_paymentMethod f,
       ow_termMonths = of_termMonths f, ow_status = of_status f, ow_note = of_note f,
       ow_createdAt = of_createdAt f, ow_sentToTenant = (of_id f \<in> set (map sl_scopeId links)),
       ow_sentToTenantAt = map_option sl_createdAt (List.find (\<lambda>l. sl_scopeId l = of_id f) (rev links)),
       ow_permittedMaxSnapshot = of_permittedMaxSnapshot f,
       ow_indexCitation = normalizedOfferCitation (of_indexCitation f) \<rparr>"

definition position_of :: "tenancy \<Rightarrow> rat option \<Rightarrow> error + rent_position option" where
  "position_of t market =
     (case market of None \<Rightarrow> Inr None | Some m \<Rightarrow> map_sum id Some (decree43 (tn_annualRent t) m))"

definition offer_state_of :: "secure_link list \<Rightarrow> offer \<Rightarrow> offer_state" where
  "offer_state_of links f = \<lparr> os_party = of_party f, os_status = of_status f,
     os_sentToTenant = (of_id f \<in> set (map sl_scopeId links)) \<rparr>"

definition risk_view ::
    "tenancy \<Rightarrow> effective_index option \<Rightarrow> renewal_case option \<Rightarrow> offer list \<Rightarrow> secure_link list \<Rightarrow>
     notice option \<Rightarrow> calc_result \<Rightarrow> time \<Rightarrow> rent_position option \<Rightarrow> renewal_risk" where
  "risk_view t eff rc offers links nt gate today position =
     (let daysToGate = daysBetween today (cr_date gate) in
      \<lparr> rr_tenancy = t, rr_noticeGateAt = cr_date gate, rr_expiresAt = cr_date (contractExpiry (tn_endDate t)),
        rr_renewalDate = cr_date (renewalDate (tn_endDate t)), rr_daysToGate = daysToGate,
        rr_gatePassed = (daysToGate < 0), rr_latestIndex = eff, rr_position = position,
        rr_renewalCase = rc, rr_currentNotice = nt, rr_offers = map (view_of_offer links) offers,
        rr_nextAction = deriveRenewalNextAction
          \<lparr> nx_tenancyId = tn_id t, nx_noticeGateAt = cr_date gate, nx_daysToGate = daysToGate,
            nx_gatePassed = (daysToGate < 0), nx_hasIndex = (eff \<noteq> None),
            nx_provisionalIndex = (case eff of None \<Rightarrow> False | Some e \<Rightarrow> ef_provisional e),
            nx_caseStatus = map_option rc_status rc, nx_noticeStatus = map_option nt_status nt,
            nx_currentOffer = (if offers = [] then None else Some (offer_state_of links (last offers))),
            nx_hasAcceptedOffer = (\<exists>f \<in> set offers. of_status f = O_ACCEPTED),
            nx_renewedTenancyId = Option.bind rc rc_renewedTenancyId \<rparr> \<rparr>)"

definition offers_of_case :: "uid \<Rightarrow> world \<Rightarrow> offer list" where
  "offers_of_case i s = sort_key of_version (filter (\<lambda>f. of_renewalCaseId f = Some i) (w_offers s))"

definition getRenewalRisk :: "authz_ctx \<Rightarrow> uid \<Rightarrow> renewal_risk svc" where
  "getRenewalRisk ctx tenancyId =
     thenE (requireCap ctx ''renewals.read'')
     (bindE (getTenancy ctx tenancyId) (\<lambda>t.
      bindE (readE (\<lambda>s. resolveEffectiveIndex (cx_workspaceId ctx) tenancyId
          (property_of (tn_propertyId t) s) s)) (\<lambda>eff.
      bindE (readE (\<lambda>s. pick_max rc_createdAt (filter (\<lambda>rc. rc_workspaceId rc = cx_workspaceId ctx \<and>
          rc_tenancyId rc = tenancyId) (w_cases s)))) (\<lambda>rc.
      bindE (readE (\<lambda>s. case rc of None \<Rightarrow> [] | Some c \<Rightarrow> offers_of_case (rc_id c) s)) (\<lambda>offers.
      bindE (readE (tenant_links (cx_workspaceId ctx) (map of_id offers))) (\<lambda>links.
      bindE (readE (\<lambda>s. Option.bind rc (\<lambda>c. pick_max nt_createdAt
          (filter (\<lambda>n. nt_renewalCaseId n = rc_id c) (w_notices s))))) (\<lambda>nt.
      bindE (liftE (noticeGate (tn_endDate t) (of_int (tn_noticePeriodDays t)))) (\<lambda>gate.
      bindE getNow (\<lambda>now.
      bindE (liftE (position_of t (map_option ef_marketRentAvg eff))) (\<lambda>position.
      ret (risk_view t eff rc offers links nt gate (todayInDubai now) position)))))))))))"

subsection \<open>The pipeline\<close>

datatype index_state = IS_MISSING | IS_PROVISIONAL | IS_VERIFIED

record pipeline_row =
  pl_tenancyId :: uid
  pl_unit :: string
  pl_ownerName :: "string option"
  pl_noticeGateAt :: time
  pl_daysToGate :: int
  pl_gatePassed :: bool
  pl_renewalDate :: time
  pl_currentRent :: rat
  pl_gapPct :: "rat option"
  pl_valueAtRisk :: "rat option"
  pl_isBenchmark :: bool
  pl_indexState :: index_state
  pl_stage :: "renewalStatus option"
  pl_nextAction :: next_action

datatype pipeline_view =
    PV_all | PV_urgent | PV_missing_index | PV_awaiting_evidence | PV_awaiting_tenant
  | PV_ready_to_complete | PV_completed

datatype pipeline_sort = PS_notice_gate | PS_renewal_date | PS_urgency | PS_uplift | PS_property

record pipeline_opts =
  po_withinDays :: "int option"
  po_clientPrincipalId :: "uid option"
  po_view :: "pipeline_view option"
  po_sort :: "pipeline_sort option"

primrec mapS :: "('a \<Rightarrow> error + 'b) \<Rightarrow> 'a list \<Rightarrow> error + 'b list" where
  "mapS f [] = Inr []"
| "mapS f (x # xs) = (case f x of Inl e \<Rightarrow> Inl e
     | Inr y \<Rightarrow> (case mapS f xs of Inl e \<Rightarrow> Inl e | Inr ys \<Rightarrow> Inr (y # ys)))"

text \<open>\<open>scopedTenancyIds\<close>: \<open>None\<close> when the whole workspace is read.\<close>

definition pipeline_scope :: "authz_ctx \<Rightarrow> uid option \<Rightarrow> world \<Rightarrow> error + uid list option" where
  "pipeline_scope ctx client s =
     (if isDelegateRole (cx_role ctx) then map_sum id (\<lambda>ids. Some (cs_tenancyIds ids)) (resolveDelegateScopeIds ctx s)
      else Inr (map_option (\<lambda>c. cs_tenancyIds (resolveClientScopeIds (cx_workspaceId ctx) [c] s))
        (case cx_clientPrincipalId ctx of None \<Rightarrow> client | Some c \<Rightarrow> Some c)))"

definition workspace_filter :: "authz_ctx \<Rightarrow> error + uid" where
  "workspace_filter ctx = (if isDelegateRole (cx_role ctx) then Inr (cx_workspaceId ctx) else scope ctx)"

definition latest_cases :: "authz_ctx \<Rightarrow> world \<Rightarrow> renewal_case list" where
  "latest_cases ctx s = newest_first rc_updatedAt
     (filter (\<lambda>rc. rc_workspaceId rc = cx_workspaceId ctx \<and> rc_archivedAt rc = None) (w_cases s))"

text \<open>The first row of a key wins: \<open>if (!map.has(k)) map.set(k, row)\<close>.\<close>

definition first_of :: "('r \<Rightarrow> 'k) \<Rightarrow> 'k \<Rightarrow> 'r list \<Rightarrow> 'r option" where
  "first_of key k rows = List.find (\<lambda>r. key r = k) rows"

definition retained :: "pipeline_view option \<Rightarrow> renewal_case list \<Rightarrow> uid \<Rightarrow> bool" where
  "retained v cases tenancyId =
     (case first_of rc_tenancyId tenancyId cases of None \<Rightarrow> False
      | Some rc \<Rightarrow> rc_status rc \<notin> set TERMINAL \<or> v = Some PV_completed)"

definition pipeline_tenancies ::
    "uid \<Rightarrow> uid list option \<Rightarrow> time \<Rightarrow> (uid \<Rightarrow> bool) \<Rightarrow> world \<Rightarrow> tenancy list" where
  "pipeline_tenancies ws scoped horizon keep s =
     sort_key tn_endDate (filter (\<lambda>t. tn_workspaceId t = ws \<and> tn_archivedAt t = None \<and>
       holds_for scoped (\<lambda>ids. tn_id t \<in> set (inIds ids)) \<and>
       (tn_endDate t \<le> horizon \<or> keep (tn_id t))) (w_tenancies s))"

definition row_index :: "authz_ctx \<Rightarrow> tenancy \<Rightarrow> property \<Rightarrow> world \<Rightarrow> (rat \<times> bool \<times> bool) option" where
  "row_index ctx t p s =
     (case first_of ri_tenancyId (tn_id t)
         (newest_first ri_capturedAt (filter (\<lambda>c. ri_workspaceId c = cx_workspaceId ctx) (w_captures s))) of
        Some c \<Rightarrow> Some (ri_marketRentAvg c, False, ri_indexSource c = Some IX_MANUAL_CONCIERGE)
      | None \<Rightarrow> map_option (\<lambda>b. (bm_marketRentAvg b, True, False))
          (pickBenchmark (newest_first bm_capturedAt
             (filter (\<lambda>b. bm_workspaceId b = cx_workspaceId ctx) (w_benchmarks s)))
             (pr_community p) (pr_building p)))"

definition pipeline_row_of ::
    "authz_ctx \<Rightarrow> time \<Rightarrow> renewal_case list \<Rightarrow> world \<Rightarrow> tenancy \<Rightarrow> error + pipeline_row" where
  "pipeline_row_of ctx today cases s t =
     (case (noticeGate (tn_endDate t) (of_int (tn_noticePeriodDays t)), property_of (tn_propertyId t) s) of
        (Inl e, _) \<Rightarrow> Inl e
      | (_, None) \<Rightarrow> Inl RecordNotFound
      | (Inr gate, Some p) \<Rightarrow>
      let daysToGate = daysBetween today (cr_date gate);
          idx = row_index ctx t p s;
          isBenchmark = (case idx of None \<Rightarrow> False | Some (_, b, _) \<Rightarrow> b);
          provisional = (case idx of None \<Rightarrow> False | Some (_, _, pv) \<Rightarrow> pv);
          rc = first_of rc_tenancyId (tn_id t) cases;
          nt = Option.bind rc (\<lambda>c. first_of nt_renewalCaseId (rc_id c) (newest_first nt_createdAt
                 (filter (\<lambda>n. nt_workspaceId n = cx_workspaceId ctx \<and> nt_archivedAt n = None) (w_notices s))));
          offers = (case rc of None \<Rightarrow> []
            | Some c \<Rightarrow> sort_key (\<lambda>f. - of_version f) (filter (\<lambda>f. of_workspaceId f = cx_workspaceId ctx \<and>
                of_renewalCaseId f = Some (rc_id c)) (w_offers s)));
          links = tenant_links (cx_workspaceId ctx) (map of_id offers) s
      in map_sum id (\<lambda>position.
           \<lparr> pl_tenancyId = tn_id t, pl_unit = join_dot [Some (pr_community p), pr_building p, pr_unitNo p],
             pl_ownerName = Option.bind (pr_clientPrincipalId p) (\<lambda>i.
               map_option cp_displayName (List.find (\<lambda>c. cp_id c = i) (w_clients s))),
             pl_noticeGateAt = cr_date gate, pl_daysToGate = daysToGate, pl_gatePassed = (daysToGate < 0),
             pl_renewalDate = cr_date (renewalDate (tn_endDate t)), pl_currentRent = tn_annualRent t,
             pl_gapPct = map_option rp_gapPct position, pl_valueAtRisk = map_option rp_valueAtRisk position,
             pl_isBenchmark = isBenchmark,
             pl_indexState = (if idx = None then IS_MISSING else if provisional then IS_PROVISIONAL else IS_VERIFIED),
             pl_stage = map_option rc_status rc,
             pl_nextAction = deriveRenewalNextAction
               \<lparr> nx_tenancyId = tn_id t, nx_noticeGateAt = cr_date gate, nx_daysToGate = daysToGate,
                 nx_gatePassed = (daysToGate < 0), nx_hasIndex = (idx \<noteq> None), nx_provisionalIndex = provisional,
                 nx_caseStatus = map_option rc_status rc, nx_noticeStatus = map_option nt_status nt,
                 nx_currentOffer = (case offers of [] \<Rightarrow> None | f # _ \<Rightarrow> Some (offer_state_of links f)),
                 nx_hasAcceptedOffer = (\<exists>f \<in> set offers. of_status f = O_ACCEPTED),
                 nx_renewedTenancyId = Option.bind rc rc_renewedTenancyId \<rparr> \<rparr>)
         (position_of t (map_option fst idx)))"

fun viewCodes :: "pipeline_view \<Rightarrow> nextActionCode list" where
  "viewCodes PV_urgent = [NA_CAPTURE_INDEX, NA_VERIFY_INDEX_SOURCE, NA_OPEN_CASE, NA_SERVE_NOTICE,
     NA_ADD_SERVICE_EVIDENCE, NA_REVIEW_CASE]"
| "viewCodes PV_awaiting_evidence = [NA_ADD_SERVICE_EVIDENCE]"
| "viewCodes PV_awaiting_tenant = [NA_AWAIT_TENANT]"
| "viewCodes PV_ready_to_complete = [NA_COMPLETE_RENEWAL]"
| "viewCodes PV_completed = [NA_REVIEW_COMPLETED_CASE]"
| "viewCodes _ = []"

definition in_view :: "pipeline_view \<Rightarrow> pipeline_row \<Rightarrow> bool" where
  "in_view v row \<longleftrightarrow>
     (if v = PV_missing_index then pl_indexState row \<noteq> IS_VERIFIED
      else if v = PV_all then True
      else na_code (pl_nextAction row) \<in> set (viewCodes v) \<and>
        (v = PV_urgent \<longrightarrow> na_urgency (pl_nextAction row) = UR_CRITICAL \<or> na_urgency (pl_nextAction row) = UR_WARN))"

fun urgencyRank :: "urgency \<Rightarrow> rat" where
  "urgencyRank UR_CRITICAL = 0"
| "urgencyRank UR_WARN = 1"
| "urgencyRank UR_NORMAL = 2"
| "urgencyRank UR_NONE = 3"

text \<open>The comparators of \<open>rows.sort\<close>, as keys; the sort is stable, as in the language.\<close>

fun pipeline_key :: "(string \<Rightarrow> rat) \<Rightarrow> pipeline_sort \<Rightarrow> pipeline_row \<Rightarrow> rat \<times> rat" where
  "pipeline_key collate PS_renewal_date r = (of_int (pl_renewalDate r), 0)"
| "pipeline_key collate PS_urgency r = (urgencyRank (na_urgency (pl_nextAction r)), of_int (pl_noticeGateAt r))"
| "pipeline_key collate PS_uplift r = (- (case pl_valueAtRisk r of None \<Rightarrow> - 1 | Some v \<Rightarrow> v), 0)"
| "pipeline_key collate PS_property r = (collate (pl_unit r), 0)"
| "pipeline_key collate PS_notice_gate r = (of_int (pl_noticeGateAt r), 0)"

definition listRenewalPipeline ::
    "(string \<Rightarrow> rat) \<Rightarrow> authz_ctx \<Rightarrow> pipeline_opts \<Rightarrow> pipeline_row list svc" where
  "listRenewalPipeline collate ctx opts =
     thenE (requireCap ctx ''renewals.read'')
     (bindE getNow (\<lambda>now.
      let within_days = (case po_withinDays opts of None \<Rightarrow> 120 | Some d \<Rightarrow> d);
          today = todayInDubai now; horizon = addDaysUtc today within_days in
      bindE (readE (pipeline_scope ctx (po_clientPrincipalId opts))) (\<lambda>r.
      bindE (liftE r) (\<lambda>scoped.
      bindE (liftE (workspace_filter ctx)) (\<lambda>ws.
      bindE (readE (latest_cases ctx)) (\<lambda>cases.
      bindE (readE (pipeline_tenancies ws scoped horizon (retained (po_view opts) cases))) (\<lambda>tenancies.
      bindE (readE (\<lambda>s. mapS (pipeline_row_of ctx today cases s) tenancies)) (\<lambda>rs.
      bindE (liftE rs) (\<lambda>rows.
      ret (sort_key (pipeline_key collate (case po_sort opts of None \<Rightarrow> PS_notice_gate | Some k \<Rightarrow> k))
        (filter (in_view (case po_view opts of None \<Rightarrow> PV_all | Some v \<Rightarrow> v)) rows)))))))))))"

subsection \<open>What every operation keeps\<close>

lemma keeps_insertCase [log_keeps]: "keeps extends (insertCase ctx t g)"
  unfolding insertCase_def by (intro logs.keeps_intros log_keeps keeps_quiet_write) simp_all

lemma keeps_createCase [log_keeps]: "keeps extends (createCase ctx t)"
  unfolding createCase_def
  by (intro logs.keeps_intros log_keeps; (rename_tac e, case_tac e)?; simp?; intro logs.keeps_intros log_keeps)

subsection \<open>One active case\<close>

text \<open>What the partial index calls active, in its own words: a case that has not ended.\<close>

definition ended :: "renewal_case \<Rightarrow> bool" where
  "ended rc \<longleftrightarrow> rc_status rc = R_RENEWED \<or> rc_status rc = R_DECLINED \<or> rc_status rc = R_LAPSED"

definition open_for :: "uid \<Rightarrow> uid \<Rightarrow> renewal_case \<Rightarrow> bool" where
  "open_for ws i rc \<longleftrightarrow> rc_workspaceId rc = ws \<and> rc_tenancyId rc = i \<and> \<not> ended rc"

definition one_open_case :: "world \<Rightarrow> bool" where
  "one_open_case s \<longleftrightarrow> (\<forall>ws i. count_where (open_for ws i) (w_cases s) \<le> 1)"

text \<open>What an opening of the tenancy \<open>i\<close> in \<open>s\<close> that returns \<open>rc\<close> and leaves \<open>u\<close> has to be.\<close>

definition opens :: "uid \<Rightarrow> uid \<Rightarrow> world \<Rightarrow> renewal_case \<Rightarrow> world \<Rightarrow> bool" where
  "opens ws i s rc u \<longleftrightarrow> rc \<in> set (w_cases u) \<and> open_for ws i rc \<and>
     (if \<exists>r \<in> set (w_cases s). open_for ws i r then u = s
      else w_cases u = w_cases s @ [rc] \<and> rc_status rc = R_ASSESSING \<and>
        (\<exists>ev. w_evidence u = w_evidence s @ [ev] \<and> ev_type ev = EV_RENEWAL_ASSESSMENT_CREATED \<and>
           ev_scopeId ev = Some (rc_id rc)))"

lemma active_open: "active_case = open_for"
  by (intro ext) (simp add: active_case_def open_for_def ended_def TERMINAL_def)

lemma insertCase_ok:
  "insertCase ctx t gate s = (Inr rc, u) \<longleftrightarrow>
     (\<forall>r \<in> set (w_cases s). \<not> active_case (cx_workspaceId ctx) (tn_id t) r) \<and>
     rc = case_row (w_next s) (w_now s) ctx t gate \<and>
     u = s\<lparr>w_next := Suc (w_next s), w_cases := w_cases s @ [rc]\<rparr>"
  by (auto simp: insertCase_def op_ok)

lemma case_row_active [simp]:
  "active_case ws i (case_row j now ctx t gate) \<longleftrightarrow> ws = cx_workspaceId ctx \<and> i = tn_id t"
  by (auto simp: active_case_def case_row_def TERMINAL_def)

lemma insertCase_cases:
  "insertCase ctx t gate s =
     (if \<exists>r \<in> set (w_cases s). active_case (cx_workspaceId ctx) (tn_id t) r
      then (Inl (UniqueViolation ''RenewalCase_active_unique''), s)
      else (Inr (case_row (w_next s) (w_now s) ctx t gate), s\<lparr>w_next := Suc (w_next s),
        w_cases := w_cases s @ [case_row (w_next s) (w_now s) ctx t gate]\<rparr>))"
  by (auto simp: insertCase_def op_defs getNow_def newId_def)

lemma renewal_open_verb: "audit_verb_ok ''renewal.open''"
  by (simp add: audit_verb_ok_def verb_char_def)

text \<open>Creating a case, on whatever database the lookup left behind.\<close>

lemma createCase_cases:
  "createCase ctx t s =
     (case noticeGate (tn_endDate t) (of_int (tn_noticePeriodDays t)) of
        Inl e \<Rightarrow> (Inl e, s)
      | Inr gate \<Rightarrow>
         (case List.find (active_case (cx_workspaceId ctx) (tn_id t)) (w_cases s) of
            Some w \<Rightarrow> (Inr w, s)
          | None \<Rightarrow> (Inr (case_row (w_next s) (w_now s) ctx t gate),
              snd (createCase ctx t s))))"
proof (cases "noticeGate (tn_endDate t) (of_int (tn_noticePeriodDays t))")
  case (Inl e)
  then show ?thesis by (simp add: createCase_def op_defs)
next
  case (Inr gate)
  show ?thesis
  proof (cases "List.find (active_case (cx_workspaceId ctx) (tn_id t)) (w_cases s)")
    case None
    then have no: "\<not> (\<exists>r \<in> set (w_cases s). active_case (cx_workspaceId ctx) (tn_id t) r)"
      by (simp add: find_None_all)
    show ?thesis
      using Inr None no renewal_open_verb
      by (simp add: createCase_def op_defs insertCase_cases recordEvidence_def recordAudit_def getNow_def newId_def
        about_def evidence_by_def evidenceOf_def audit_by_def auditOf_def)
  next
    case (Some w)
    then have "\<exists>r \<in> set (w_cases s). active_case (cx_workspaceId ctx) (tn_id t) r"
      using find_Some_in by fastforce
    then show ?thesis
      using Inr Some by (simp add: createCase_def op_defs insertCase_cases)
  qed
qed

lemma createCase_fresh:
  assumes "noticeGate (tn_endDate t) (of_int (tn_noticePeriodDays t)) = Inr gate"
    and "List.find (active_case (cx_workspaceId ctx) (tn_id t)) (w_cases s) = None"
  shows "w_cases (snd (createCase ctx t s)) = w_cases s @ [case_row (w_next s) (w_now s) ctx t gate]"
    and "\<exists>ev. w_evidence (snd (createCase ctx t s)) = w_evidence s @ [ev] \<and>
      ev_type ev = EV_RENEWAL_ASSESSMENT_CREATED \<and> ev_scopeId ev = Some (w_next s)"
proof -
  have no: "\<not> (\<exists>r \<in> set (w_cases s). active_case (cx_workspaceId ctx) (tn_id t) r)"
    using assms(2) by (simp add: find_None_all)
  show "w_cases (snd (createCase ctx t s)) = w_cases s @ [case_row (w_next s) (w_now s) ctx t gate]"
    and "\<exists>ev. w_evidence (snd (createCase ctx t s)) = w_evidence s @ [ev] \<and>
      ev_type ev = EV_RENEWAL_ASSESSMENT_CREATED \<and> ev_scopeId ev = Some (w_next s)"
    using assms(1) no renewal_open_verb
    by (simp_all add: createCase_def op_defs insertCase_cases recordEvidence_def recordAudit_def getNow_def newId_def
        about_def evidence_by_def evidenceOf_def audit_by_def auditOf_def evidence_row_def case_row_def)
qed

lemma active_same_key:
  "active_case ws i r \<Longrightarrow> active_case ws' j r \<Longrightarrow> ws = ws' \<and> i = j"
  by (simp add: active_case_def)

lemma createCase_opens:
  assumes "one_open_case s"
  shows "one_open_case (snd (createCase ctx t s)) \<and>
    (case createCase ctx t s of
       (Inl e, u) \<Rightarrow> u = s \<and> noticeGate (tn_endDate t) (of_int (tn_noticePeriodDays t)) = Inl e
     | (Inr rc, u) \<Rightarrow> opens (cx_workspaceId ctx) (tn_id t) s rc u \<and> createCase ctx t u = (Inr rc, u))"
proof (cases "noticeGate (tn_endDate t) (of_int (tn_noticePeriodDays t))")
  case (Inl e)
  then show ?thesis using assms by (simp add: createCase_cases)
next
  case (Inr gate)
  let ?a = "active_case (cx_workspaceId ctx) (tn_id t)"
  show ?thesis
  proof (cases "List.find ?a (w_cases s)")
    case None
    define rc where "rc = case_row (w_next s) (w_now s) ctx t gate"
    define u where "u = snd (createCase ctx t s)"
    have run: "createCase ctx t s = (Inr rc, u)"
      using Inr None by (subst createCase_cases) (simp add: rc_def u_def)
    note fresh = createCase_fresh [OF Inr None, folded u_def rc_def]
    have none: "\<forall>r \<in> set (w_cases s). \<not> ?a r" using None by (simp add: find_None_all)
    have act: "active_case ws i rc \<longleftrightarrow> ws = cx_workspaceId ctx \<and> i = tn_id t" for ws i by (simp add: rc_def)
    have "one_open_case u"
      unfolding one_open_case_def active_open [symmetric]
    proof (intro allI)
      fix ws i
      show "count_where (active_case ws i) (w_cases u) \<le> 1"
      proof (cases "ws = cx_workspaceId ctx \<and> i = tn_id t")
        case True
        then have "count_where (active_case ws i) (w_cases s) = 0" using none by (simp add: count_where_0_iff)
        then show ?thesis by (simp add: fresh(1))
      next
        case False
        then show ?thesis using assms by (auto simp: fresh(1) act one_open_case_def active_open [symmetric])
      qed
    qed
    moreover have "List.find ?a (w_cases u) = Some rc"
      using None by (simp add: fresh(1) find_append act)
    then have "createCase ctx t u = (Inr rc, u)" using Inr by (subst createCase_cases) simp
    moreover have "rc_status rc = R_ASSESSING" "rc_id rc = w_next s" by (simp_all add: rc_def case_row_def)
    ultimately show ?thesis using run fresh none act by (auto simp: opens_def active_open [symmetric])
  next
    case (Some w)
    then have "createCase ctx t s = (Inr w, s)" using Inr by (subst createCase_cases) simp
    then show ?thesis using assms find_Some_in [OF Some] by (auto simp: opens_def active_open [symmetric])
  qed
qed

text \<open>Creating a case does not move the door of any tenancy.\<close>

lemma createCase_door: "keeps (same (\<lambda>s. fst (getTenancy c i s))) (createCase ctx t)"
proof -
  have rows: "tenancies_of_properties ws ids (s\<lparr>w_cases := a\<rparr>) = tenancies_of_properties ws ids s"
    "payments_of_tenancies ws ids (s\<lparr>w_cases := a\<rparr>) = payments_of_tenancies ws ids s"
    "proofs_of_scopes ws ids (s\<lparr>w_cases := a\<rparr>) = proofs_of_scopes ws ids s"
    "tenancies_of_properties ws ids (s\<lparr>w_next := n\<rparr>) = tenancies_of_properties ws ids s"
    "payments_of_tenancies ws ids (s\<lparr>w_next := n\<rparr>) = payments_of_tenancies ws ids s"
    "proofs_of_scopes ws ids (s\<lparr>w_next := n\<rparr>) = proofs_of_scopes ws ids s"
    "tenancies_of_properties ws ids (s\<lparr>w_evidence := e\<rparr>) = tenancies_of_properties ws ids s"
    "payments_of_tenancies ws ids (s\<lparr>w_evidence := e\<rparr>) = payments_of_tenancies ws ids s"
    "proofs_of_scopes ws ids (s\<lparr>w_evidence := e\<rparr>) = proofs_of_scopes ws ids s"
    "tenancies_of_properties ws ids (s\<lparr>w_audit := x\<rparr>) = tenancies_of_properties ws ids s"
    "payments_of_tenancies ws ids (s\<lparr>w_audit := x\<rparr>) = payments_of_tenancies ws ids s"
    "proofs_of_scopes ws ids (s\<lparr>w_audit := x\<rparr>) = proofs_of_scopes ws ids s" for ws ids s a n e x
    by (simp_all add: tenancies_of_properties_def payments_of_tenancies_def proofs_of_scopes_def)
  have scopes: "resolveClientScopeIds ws ids (s\<lparr>w_cases := a\<rparr>) = resolveClientScopeIds ws ids s"
    "resolveContactScopeIds ws k r (s\<lparr>w_cases := a\<rparr>) = resolveContactScopeIds ws k r s"
    "delegate_scope_ids ws ids (s\<lparr>w_cases := a\<rparr>) = delegate_scope_ids ws ids s"
    "resolveClientScopeIds ws ids (s\<lparr>w_next := n\<rparr>) = resolveClientScopeIds ws ids s"
    "resolveContactScopeIds ws k r (s\<lparr>w_next := n\<rparr>) = resolveContactScopeIds ws k r s"
    "delegate_scope_ids ws ids (s\<lparr>w_next := n\<rparr>) = delegate_scope_ids ws ids s"
    "resolveClientScopeIds ws ids (s\<lparr>w_evidence := e\<rparr>) = resolveClientScopeIds ws ids s"
    "resolveContactScopeIds ws k r (s\<lparr>w_evidence := e\<rparr>) = resolveContactScopeIds ws k r s"
    "delegate_scope_ids ws ids (s\<lparr>w_evidence := e\<rparr>) = delegate_scope_ids ws ids s"
    "resolveClientScopeIds ws ids (s\<lparr>w_audit := x\<rparr>) = resolveClientScopeIds ws ids s"
    "resolveContactScopeIds ws k r (s\<lparr>w_audit := x\<rparr>) = resolveContactScopeIds ws k r s"
    "delegate_scope_ids ws ids (s\<lparr>w_audit := x\<rparr>) = delegate_scope_ids ws ids s" for ws ids k r s a n e x
    by (simp_all add: resolveClientScopeIds_def resolveContactScopeIds_def delegate_scope_ids_def rows Let_def)
  have target: "tenancy_target i (s\<lparr>w_cases := a\<rparr>) = tenancy_target i s"
    "tenancy_target i (s\<lparr>w_next := n\<rparr>) = tenancy_target i s"
    "tenancy_target i (s\<lparr>w_evidence := e\<rparr>) = tenancy_target i s"
    "tenancy_target i (s\<lparr>w_audit := x\<rparr>) = tenancy_target i s" for s a n e x
    by (simp_all add: tenancy_target_def)
  have readable: "assertReadable c y (s\<lparr>w_cases := a\<rparr>) = assertReadable c y s"
    "assertReadable c y (s\<lparr>w_next := n\<rparr>) = assertReadable c y s"
    "assertReadable c y (s\<lparr>w_evidence := e\<rparr>) = assertReadable c y s"
    "assertReadable c y (s\<lparr>w_audit := x\<rparr>) = assertReadable c y s" for y s a n e x
    by (simp_all only: assertReadable_def scopes)
  have door: "fst (getTenancy c i (s\<lparr>w_cases := a\<rparr>)) = fst (getTenancy c i s)"
    "fst (getTenancy c i (s\<lparr>w_next := n\<rparr>)) = fst (getTenancy c i s)"
    "fst (getTenancy c i (s\<lparr>w_evidence := e\<rparr>)) = fst (getTenancy c i s)"
    "fst (getTenancy c i (s\<lparr>w_audit := x\<rparr>)) = fst (getTenancy c i s)" for s a n e x
    by (simp_all add: getTenancy_def bindE_apply op_eval requireCap_def assertE_def someE_def target readable ret_def throw_def split: sum.split option.split)
  show ?thesis
    unfolding createCase_def insertCase_def
    by (intro frame.keeps_intros frames keeps_same_write door;
        (rename_tac e, case_tac e)?; simp?; intro frame.keeps_intros frames keeps_same_write door)
qed

lemma openRenewalCase_runs:
  assumes "hasCapability ctx ''renewals.write''" and "fst (getTenancy ctx i s) = Inr t"
  shows "openRenewalCase ctx i s = (case List.find (active_case (cx_workspaceId ctx) i) (w_cases s) of
       Some rc \<Rightarrow> (Inr rc, s) | None \<Rightarrow> createCase ctx t s)"
proof -
  have "getTenancy ctx i s = (Inr t, s)" using assms(2) getTenancy_state [of ctx i s] by (metis prod.collapse)
  then show ?thesis
    using assms(1) by (simp add: openRenewalCase_def bindE_apply op_eval requireCap_def assertE_eval readE_eval split: option.split)
qed

lemma openRenewalCase_opens:
  assumes "one_open_case s"
  shows "one_open_case (snd (openRenewalCase ctx i s)) \<and>
    (case openRenewalCase ctx i s of
       (Inl e, u) \<Rightarrow> u = s \<and> (\<not> hasCapability ctx ''renewals.write'' \<or> fst (getTenancy ctx i s) = Inl e \<or>
         (\<exists>x. fst (getTenancy ctx i s) = Inr x \<and> noticeGate (tn_endDate x) (of_int (tn_noticePeriodDays x)) = Inl e))
     | (Inr rc, u) \<Rightarrow> opens (cx_workspaceId ctx) i s rc u \<and> openRenewalCase ctx i u = (Inr rc, u))"
proof (cases "hasCapability ctx ''renewals.write''")
  case False
  then show ?thesis using assms by (simp add: openRenewalCase_def bindE_apply requireCap_def assertE_def throw_def)
next
  case cap: True
  show ?thesis
  proof (cases "fst (getTenancy ctx i s)")
    case (Inl e)
    then have "getTenancy ctx i s = (Inl e, s)" using getTenancy_state [of ctx i s] by (metis prod.collapse)
    then show ?thesis
      using assms cap Inl by (simp add: openRenewalCase_def bindE_apply requireCap_def assertE_eval)
  next
    case (Inr t)
    note run = openRenewalCase_runs [OF cap Inr]
    have "getTenancy ctx i s = (Inr t, s)" using Inr getTenancy_state [of ctx i s] by (metis prod.collapse)
    then have id: "tn_id t = i" by (auto simp: getTenancy_ok dest: find_Some_in)
    show ?thesis
    proof (cases "List.find (active_case (cx_workspaceId ctx) i) (w_cases s)")
      case (Some w)
      then show ?thesis
        using run assms find_Some_in [OF Some] by (auto simp: opens_def active_open [symmetric])
    next
      case None
      then have eq: "openRenewalCase ctx i s = createCase ctx t s" using run by simp
      note C = createCase_opens [OF assms, of ctx t]
      show ?thesis
      proof (cases "createCase ctx t s")
        case (Pair r u)
        show ?thesis
        proof (cases r)
          case err: (Inl e)
          then show ?thesis using C eq Pair Inr by auto
        next
          case ok: (Inr rc)
          then have o: "opens (cx_workspaceId ctx) i s rc u" and u: "one_open_case u"
            and again: "createCase ctx t u = (Inr rc, u)" using C Pair id by auto
          have "fst (getTenancy ctx i u) = Inr t"
            using sameD [OF createCase_door Pair] Inr by simp
          note run2 = openRenewalCase_runs [OF cap this]
          have "\<forall>r \<in> set (w_cases s). \<not> open_for (cx_workspaceId ctx) i r"
            using None by (simp add: find_None_all active_open)
          then have "w_cases u = w_cases s @ [rc]" "open_for (cx_workspaceId ctx) i rc"
            using o by (auto simp: opens_def)
          then have "List.find (active_case (cx_workspaceId ctx) i) (w_cases u) = Some rc"
            using None by (simp add: find_append active_open)
          then show ?thesis using run2 o u eq Pair ok by simp
        qed
      qed
    qed
  qed
qed

text \<open>
  C11: at most one renewal case of a tenancy is open, also under concurrency. Opening a case returns
  a case of that tenancy which has not ended: the open one when there is one, with nothing written,
  and otherwise a new one, added with exactly one assessment event; opening again returns the same
  case and writes nothing. It fails only where the caller may not open cases or read the tenancy, or
  in the notice calculator, with nothing written. The insert half on its own, run on any database
  that the requests since the lookup may have left, does the same: a lost race returns the winner's
  case and writes nothing. Both halves keep the invariant.
\<close>

theorem openRenewalCase_race:
  assumes "one_open_case s"
  shows "one_open_case (snd (openRenewalCase ctx i s)) \<and> one_open_case (snd (createCase ctx t s)) \<and>
    (case openRenewalCase ctx i s of
       (Inl e, u) \<Rightarrow> u = s \<and> (\<not> hasCapability ctx ''renewals.write'' \<or> fst (getTenancy ctx i s) = Inl e \<or>
         (\<exists>x. fst (getTenancy ctx i s) = Inr x \<and> noticeGate (tn_endDate x) (of_int (tn_noticePeriodDays x)) = Inl e))
     | (Inr rc, u) \<Rightarrow> opens (cx_workspaceId ctx) i s rc u \<and> openRenewalCase ctx i u = (Inr rc, u)) \<and>
    (case createCase ctx t s of
       (Inl e, u) \<Rightarrow> u = s \<and> noticeGate (tn_endDate t) (of_int (tn_noticePeriodDays t)) = Inl e
     | (Inr rc, u) \<Rightarrow> opens (cx_workspaceId ctx) (tn_id t) s rc u \<and> createCase ctx t u = (Inr rc, u))"
  using openRenewalCase_opens [OF assms, of ctx i] createCase_opens [OF assms, of ctx t] by (intro conjI) simp_all

text \<open>A tenancy whose last case has lapsed: opening starts a new one, and a second opening returns it.\<close>

theorem openRenewalCase_race_witness:
  "\<exists>rc u. openRenewalCase (sample_ctx MANAGER) 51 (sample_world\<lparr>w_cases := [sample_case\<lparr>rc_status := R_LAPSED\<rparr>]\<rparr>) = (Inr rc, u) \<and>
     w_cases u = [sample_case\<lparr>rc_status := R_LAPSED\<rparr>, rc] \<and> rc_status rc = R_ASSESSING \<and>
     openRenewalCase (sample_ctx MANAGER) 51 u = (Inr rc, u)"
proof -
  let ?old = "sample_case\<lparr>rc_status := R_LAPSED\<rparr>" and ?ctx = "sample_ctx MANAGER"
  let ?s = "sample_world\<lparr>w_cases := [?old]\<rparr>"
  have old: "\<not> open_for ws i ?old" for ws i by (simp add: open_for_def ended_def)
  then have ok: "one_open_case ?s" by (simp add: one_open_case_def)
  have get: "fst (getTenancy ?ctx 51 ?s) = Inr sample_tenancy"
    by (subst manager_getTenancy) (simp_all add: sample_rows sample_tenancy_def)
  obtain gate where "noticeGate (tn_endDate sample_tenancy) (of_int (tn_noticePeriodDays sample_tenancy)) = Inr gate"
    using isInteger_of_int [of 90] by (auto simp: noticeGate_ok sample_tenancy_def)
  moreover have "hasCapability ?ctx ''renewals.write''" by (simp add: manager_can)
  moreover note race = openRenewalCase_race [OF ok, of ?ctx 51]
  ultimately obtain rc u where run: "openRenewalCase ?ctx 51 ?s = (Inr rc, u)"
    using get by (cases "openRenewalCase ?ctx 51 ?s"; cases "fst (openRenewalCase ?ctx 51 ?s)") auto
  then show ?thesis using race old by (auto simp: opens_def)
qed

subsection \<open>One figure on every surface\<close>

lemma fold_pick:
  "fold (\<lambda>y b. if k b < k y then y else b) ys x =
     (case pick_max k ys of None \<Rightarrow> x | Some y \<Rightarrow> if k x < k y then y else x)"
  for k :: "'r \<Rightarrow> 'k::linorder"
proof (induction ys arbitrary: x)
  case (Cons y ys)
  have y: "pick_max k (y # ys) = Some (case pick_max k ys of None \<Rightarrow> y | Some z \<Rightarrow> if k y < k z then z else y)"
    using Cons.IH [of y] by (simp add: pick_max_def)
  show ?case
    unfolding y using Cons.IH [of "if k x < k y then y else x"] by (auto split: option.split)
qed (simp add: pick_max_def)

lemma pick_max_Cons:
  "pick_max k (x # xs) = Some (case pick_max k xs of None \<Rightarrow> x | Some y \<Rightarrow> if k x < k y then y else x)"
  for k :: "'r \<Rightarrow> 'k::linorder"
  using fold_pick [of k xs x] by (simp add: pick_max_def)

lemma pick_max_empty [simp]: "pick_max k [] = None"
  by simp

lemma newest_first_Cons: "newest_first k (x # xs) = insort_key (\<lambda>r. - k r) x (newest_first k xs)"
  by (simp add: newest_first_def)

lemma newest_first_Nil [simp]: "newest_first k [] = []"
  by (simp add: newest_first_def)

lemma hd_newest: "(case newest_first k rows of [] \<Rightarrow> None | r # _ \<Rightarrow> Some r) = pick_max k rows"
proof (induction rows)
  case (Cons x xs)
  then show ?case
    by (cases "newest_first k xs") (auto simp: newest_first_Cons pick_max_Cons split: option.splits)
qed (simp add: pick_max_def)

lemma find_hd: "List.find p rows = (case filter p rows of [] \<Rightarrow> None | r # _ \<Rightarrow> Some r)"
  by (induction rows) auto

text \<open>The first match of a list sorted newest first is the newest match.\<close>

lemma find_newest: "List.find p (newest_first k rows) = pick_max k (filter p rows)"
  by (simp add: find_hd newest_first_def filter_sort flip: hd_newest)

lemma pickBenchmark_filtered:
  "pickBenchmark (newest_first bm_capturedAt (filter (\<lambda>b. bm_workspaceId b = ws \<and> bm_community b = c \<and>
      (bm_building b = building \<or> bm_building b = None)) rows)) c building =
   pickBenchmark (newest_first bm_capturedAt (filter (\<lambda>b. bm_workspaceId b = ws) rows)) c building"
proof -
  have f: "List.find (\<lambda>x. bm_community x = c \<and> bm_building x = b) (newest_first bm_capturedAt
        (filter (\<lambda>b. bm_workspaceId b = ws \<and> bm_community b = c \<and> (bm_building b = building \<or> bm_building b = None)) rows)) =
      List.find (\<lambda>x. bm_community x = c \<and> bm_building x = b) (newest_first bm_capturedAt
        (filter (\<lambda>b. bm_workspaceId b = ws) rows))"
    if "b = building \<or> b = None" for b
    unfolding find_newest filter_filter using that by (intro arg_cong2 [of _ _ _ _ pick_max] refl filter_cong) auto
  show ?thesis
    using f [of None] f [of building] by (cases building) (simp_all add: pickBenchmark_def Let_def)
qed

text \<open>
  C12: the report and the pipeline never disagree on the figure. For every tenancy of a property
  with a community name, the batch lookup of the pipeline (all captures and benchmarks of the
  workspace, newest first, first match) yields exactly the market rent, the benchmark mark and the
  provisional mark of \<open>resolveEffectiveIndex\<close>: the latest capture of the tenancy, else the latest
  benchmark of its building, else the latest community-wide one, else none.
\<close>

theorem pipeline_agrees_with_report:
  assumes "pr_community p \<noteq> []"
  shows "row_index ctx t p s =
    map_option (\<lambda>e. (ef_marketRentAvg e, ef_isBenchmark e, ef_provisional e))
      (resolveEffectiveIndex (cx_workspaceId ctx) (tn_id t) (Some p) s)"
proof -
  have "first_of ri_tenancyId (tn_id t) (newest_first ri_capturedAt
      (filter (\<lambda>c. ri_workspaceId c = cx_workspaceId ctx) (w_captures s))) =
    pick_max ri_capturedAt (filter (\<lambda>c. ri_workspaceId c = cx_workspaceId ctx \<and> ri_tenancyId c = tn_id t) (w_captures s))"
    unfolding first_of_def find_newest filter_filter by (simp add: conj_commute)
  then show ?thesis
    using assms by (auto simp: row_index_def resolveEffectiveIndex_def resolveBenchmark_def pickBenchmark_filtered
      option.map_comp o_def split: option.split)
qed

theorem pipeline_agrees_with_report_witness:
  "row_index (sample_ctx MANAGER) sample_tenancy sample_property empty_world = None"
  using pipeline_agrees_with_report [of sample_property "sample_ctx MANAGER" sample_tenancy empty_world]
  by (simp add: sample_property_def resolveEffectiveIndex_def resolveBenchmark_def pickBenchmark_def empty_world_def
    pick_max_def newest_first_def)

lemma keeps_openRenewalCase [log_keeps]: "keeps extends (openRenewalCase ctx i)"
  unfolding openRenewalCase_def by (intro logs.keeps_intros log_keeps)

lemma keeps_captureRentIndex [log_keeps]: "keeps extends (captureRentIndex ctx inp)"
  unfolding captureRentIndex_def Let_def by (intro logs.keeps_intros log_keeps keeps_quiet_write) simp_all

lemma keeps_captureBenchmark [log_keeps]: "keeps extends (captureBenchmark ctx inp)"
  unfolding captureBenchmark_def Let_def by (intro logs.keeps_intros log_keeps keeps_quiet_write) simp_all

end
