(* ===== verification/Negotiation.thy ===== *)
theory Negotiation
  imports Renewals
begin

text \<open>
  The second half of \<open>services/renewals.ts\<close>: offers and counter-offers on a renewal case, their
  acceptance by the landlord's side or by the tenant (through a secure link or the portal), and the
  successor tenancy. \<open>hash\<close>, \<open>base\<close> and \<open>token\<close> are those of \<^theory_text>\<open>Secure_Links\<close>; \<open>locale_number\<close> is the
  runtime's \<open>toLocaleString("en-AE")\<close>.
\<close>

subsection \<open>Rows\<close>

text \<open>
  \<open>renewalCase.update\<close>: P2025 when the row is not there, P2002 when the partial unique index
  \<open>RenewalCase_active_unique\<close> refuses the new row; \<open>updatedAt\<close> is stamped by the client.
\<close>

definition active_clash :: "(renewal_case \<Rightarrow> renewal_case) \<Rightarrow> uid \<Rightarrow> renewal_case list \<Rightarrow> bool" where
  "active_clash f i rows \<longleftrightarrow> (\<exists>rc \<in> set rows. rc_id rc = i \<and>
     (\<exists>q \<in> set rows. rc_id q \<noteq> i \<and> active_case (rc_workspaceId q) (rc_tenancyId q) q \<and>
        active_case (rc_workspaceId q) (rc_tenancyId q) (f rc)))"

definition update_case :: "uid \<Rightarrow> (renewal_case \<Rightarrow> renewal_case) \<Rightarrow> unit svc" where
  "update_case i f =
     bindE getNow (\<lambda>now.
     thenE (bindE (readE w_cases) (\<lambda>rows.
        thenE (assertE (\<exists>rc \<in> set rows. rc_id rc = i) RecordNotFound)
          (assertE (\<not> active_clash f i rows) (UniqueViolation ''RenewalCase_active_unique''))))
       (writeE (\<lambda>s. s\<lparr>w_cases := upd_where (\<lambda>rc. rc_id rc = i)
          (\<lambda>rc. (f rc)\<lparr>rc_updatedAt := now\<rparr>) (w_cases s)\<rparr>)))"

definition find_case :: "uid \<Rightarrow> world \<Rightarrow> renewal_case option" where
  "find_case i s = List.find (\<lambda>rc. rc_id rc = i) (w_cases s)"

definition find_offer :: "uid \<Rightarrow> world \<Rightarrow> offer option" where
  "find_offer i s = List.find (\<lambda>f. of_id f = i) (w_offers s)"

definition open_offer :: "offer \<Rightarrow> bool" where
  "open_offer f \<longleftrightarrow> of_status f = O_SENT \<or> of_status f = O_COUNTERED"

definition supersede :: "(offer \<Rightarrow> bool) \<Rightarrow> unit svc" where
  "supersede p = writeE (\<lambda>s. s\<lparr>w_offers := upd_where (\<lambda>f. p f \<and> open_offer f)
     (\<lambda>f. f\<lparr>of_status := O_SUPERSEDED\<rparr>) (w_offers s)\<rparr>)"

definition next_version :: "(offer \<Rightarrow> bool) \<Rightarrow> world \<Rightarrow> int" where
  "next_version p s = (case pick_max of_version (filter p (w_offers s)) of None \<Rightarrow> 0 | Some f \<Rightarrow> of_version f) + 1"

subsection \<open>The figure an offer is measured against\<close>

definition resolveRenewalIndexCapture :: "renewal_case \<Rightarrow> world \<Rightarrow> rent_index_capture option" where
  "resolveRenewalIndexCapture rc s =
     (case Option.bind (rc_indexCaptureId rc) (\<lambda>i. List.find (\<lambda>c. ri_id c = i) (w_captures s)) of
        Some c \<Rightarrow> Some c
      | None \<Rightarrow> pick_max ri_capturedAt (filter (\<lambda>c. ri_tenancyId c = rc_tenancyId rc \<and>
          ri_permittedNewRentMax c \<noteq> None) (w_captures s)))"

definition indexCitationFrom :: "rent_index_capture \<Rightarrow> json" where
  "indexCitationFrom c = JObj
     [(''captureId'', JId (ri_id c)), (''source'', JStr (ri_source c)),
      (''indexSource'', jopt (JStr \<circ> indexSource_name) (ri_indexSource c)),
      (''capturedAt'', JDate (ri_capturedAt c)),
      (''calculatorVersion'', jopt JStr (ri_calculatorVersion c)),
      (''comparableBasis'', jopt id (ri_comparableBasis c)),
      (''marketRentAvg'', JNum (ri_marketRentAvg c)),
      (''permittedNewRentMax'', jopt JNum (ri_permittedNewRentMax c)),
      (''provisional'', JBool (ri_indexSource c = Some IX_MANUAL_CONCIERGE))]"

subsection \<open>Proposing\<close>

record offer_input =
  oi_renewalCaseId :: uid
  oi_party :: offerParty
  oi_annualRent :: rat
  oi_paymentSchedule :: string
  oi_paymentMethod :: "string option"
  oi_termMonths :: "int option"
  oi_startDate :: "time option"
  oi_note :: "string option"
  oi_viaSecureLinkId :: "uid option"

fun party_name :: "offerParty \<Rightarrow> string" where
  "party_name OP_LANDLORD = ''LANDLORD''"
| "party_name OP_TENANT = ''TENANT''"

definition offer_row ::
    "uid \<Rightarrow> time \<Rightarrow> uid \<Rightarrow> renewal_case \<Rightarrow> int \<Rightarrow> offer_input \<Rightarrow> uid option \<Rightarrow> rent_index_capture option \<Rightarrow> offer" where
  "offer_row i now ws rc version inp createdById capture =
     \<lparr> of_id = i, of_workspaceId = ws, of_renewalCaseId = Some (rc_id rc),
       of_tenancyId = Some (rc_tenancyId rc), of_listingId = None, of_prospectContactId = None,
       of_version = version, of_party = oi_party inp, of_annualRent = money (oi_annualRent inp),
       of_paymentSchedule = oi_paymentSchedule inp, of_paymentMethod = oi_paymentMethod inp,
       of_termMonths = oi_termMonths inp, of_startDate = map_option toUtcDateOnly (oi_startDate inp),
       of_note = oi_note inp, of_status = (if oi_party inp = OP_TENANT then O_COUNTERED else O_SENT),
       of_createdById = createdById, of_viaSecureLinkId = oi_viaSecureLinkId inp,
       of_permittedMaxSnapshot = Option.bind capture ri_permittedNewRentMax,
       of_indexCaptureId = map_option ri_id capture, of_indexCitation = map_option indexCitationFrom capture,
       of_responseDueDeadlineId = None, of_proposedStartDate = None, of_proposedEndDate = None,
       of_createdAt = now \<rparr>"

text \<open>\<open>try { .. } catch (e) { if (!(e instanceof AuthzError && e.status === 422)) throw e }\<close>.\<close>

definition tryMoveTenancy :: "authz_ctx \<Rightarrow> uid \<Rightarrow> tenancyStatus \<Rightarrow> unit svc" where
  "tryMoveTenancy ctx tenancyId target =
     catchE (bindE (setTenancyStatus ctx tenancyId target) (\<lambda>_. ret ()))
       (\<lambda>e. case e of AuthzError _ status \<Rightarrow> if status = 422 then ret () else throw e | _ \<Rightarrow> throw e)"

definition proposeOffer :: "authz_ctx \<Rightarrow> offer_input \<Rightarrow> offer svc" where
  "proposeOffer ctx inp =
     thenE (requireCap ctx ''renewals.write'')
     (thenE (assertE (0 < oi_annualRent inp) (AuthzError ''Offer rent must be a positive amount'' 422))
     (bindE (readE (find_case (oi_renewalCaseId inp))) (\<lambda>found.
      thenE (liftE (assertSameWorkspace ctx (map_option rc_workspaceId found)))
      (bindE (someE notFound found) (\<lambda>rc.
      thenE (getTenancy ctx (rc_tenancyId rc))
      (thenE (supersede (\<lambda>f. of_renewalCaseId f = Some (rc_id rc)))
      (bindE (readE (next_version (\<lambda>f. of_renewalCaseId f = Some (rc_id rc)))) (\<lambda>version.
       bindE (readE (resolveRenewalIndexCapture rc)) (\<lambda>capture.
       bindE getNow (\<lambda>now. bindE newId (\<lambda>i.
       let f = offer_row i now (cx_workspaceId ctx) rc version inp (Some (cx_userId ctx)) capture in
       thenE (writeE (\<lambda>s. s\<lparr>w_offers := w_offers s @ [f]\<rparr>))
       (thenE (update_case (rc_id rc) (\<lambda>c. c\<lparr>rc_status := R_NEGOTIATING, rc_currentOfferId := Some i\<rparr>))
       (thenE (tryMoveTenancy ctx (rc_tenancyId rc) T_NEGOTIATING)
       (bindE (recordEvidence (about (rc_tenancyId rc) (rc_propertyId rc)
           (evidence_by ctx (if oi_party inp = OP_TENANT then EV_OFFER_COUNTERED else EV_OFFER_PROPOSED)
             S_OFFER (Some i) (JObj [(''version'', JNum (of_int version)), (''party'', JStr (party_name (oi_party inp))),
               (''annualRent'', JNum (oi_annualRent inp)), (''paymentSchedule'', JStr (oi_paymentSchedule inp))]))))
         (\<lambda>_.
        bindE (recordAudit (audit_by ctx ''renewal.propose_offer'' ''Offer'' (Some i))) (\<lambda>_.
        thenE (evaluateRenewalRisk (rc_id rc)) (ret f)))))))))))))))))"

subsection \<open>Accepting\<close>

text \<open>
  The transaction both acceptances run: claim the offer if it is still open, supersede the other
  open offers of its case, and mark the case agreed. The claim is refused by the partial unique
  index \<open>Offer_one_accepted_per_case\<close> when another offer of the case is accepted.
\<close>

definition claim_offer :: "uid \<Rightarrow> string \<Rightarrow> unit svc" where
  "claim_offer offerId refusal =
     bindE (readE (find_offer offerId)) (\<lambda>found.
     case found of
       None \<Rightarrow> throw (AuthzError refusal 409)
     | Some f \<Rightarrow>
         if \<not> open_offer f then throw (AuthzError refusal 409)
         else
           thenE (bindE (readE w_offers) (\<lambda>rows.
             assertE (of_renewalCaseId f = None \<or> (\<forall>g \<in> set rows. of_id g \<noteq> offerId \<longrightarrow>
                 of_renewalCaseId g = of_renewalCaseId f \<longrightarrow> of_status g \<noteq> O_ACCEPTED))
               (UniqueViolation ''Offer_one_accepted_per_case'')))
             (writeE (\<lambda>s. s\<lparr>w_offers := upd_where (\<lambda>g. of_id g = offerId \<and> open_offer g)
                (\<lambda>g. g\<lparr>of_status := O_ACCEPTED\<rparr>) (w_offers s)\<rparr>)))"

definition accept_transaction :: "uid \<Rightarrow> uid \<Rightarrow> string \<Rightarrow> unit svc" where
  "accept_transaction offerId renewalCaseId refusal =
     catchE (transaction
       (thenE (claim_offer offerId refusal)
       (thenE (supersede (\<lambda>f. of_renewalCaseId f = Some renewalCaseId \<and> of_id f \<noteq> offerId))
         (update_case renewalCaseId (\<lambda>c. c\<lparr>rc_status := R_AGREED, rc_decidedOfferId := Some offerId,
            rc_currentOfferId := Some offerId\<rparr>)))))
       (\<lambda>e. case e of
           UniqueViolation _ \<Rightarrow> throw (AuthzError ''Another offer has already been accepted for this case'' 409)
         | _ \<Rightarrow> throw e)"

definition not_renewal_offer :: error where
  "not_renewal_offer = AuthzError ''Not a renewal offer'' 422"

definition acceptOffer :: "authz_ctx \<Rightarrow> uid \<Rightarrow> offer svc" where
  "acceptOffer ctx offerId =
     thenE (requireCap ctx ''renewals.decide'')
     (bindE (readE (find_offer offerId)) (\<lambda>found.
      thenE (liftE (assertSameWorkspace ctx (map_option of_workspaceId found)))
      (bindE (someE notFound found) (\<lambda>f.
       bindE (someE not_renewal_offer (of_renewalCaseId f)) (\<lambda>renewalCaseId.
       bindE (someE not_renewal_offer (of_tenancyId f)) (\<lambda>tenancyId.
       bindE (getTenancy ctx tenancyId) (\<lambda>t.
       thenE (accept_transaction offerId renewalCaseId ''Offer is no longer open to accept'')
       (thenE (tryMoveTenancy ctx tenancyId T_RENEWED)
       (bindE (recordEvidence (about tenancyId (tn_propertyId t)
           (evidence_by ctx EV_OFFER_ACCEPTED S_OFFER (Some offerId)
             (JObj [(''version'', JNum (of_int (of_version f))), (''annualRent'', JNum (of_annualRent f))])))) (\<lambda>_.
        bindE (recordAudit (audit_by ctx ''renewal.accept_offer'' ''Offer'' (Some offerId))) (\<lambda>_.
        thenE (evaluateRenewalRisk renewalCaseId) (ret f))))))))))))"

subsection \<open>The tenant's link\<close>

definition offer_message :: "(rat \<Rightarrow> string) \<Rightarrow> uid \<Rightarrow> tenancy \<Rightarrow> property option \<Rightarrow> offer \<Rightarrow> string \<Rightarrow> notify_input" where
  "offer_message locale_number ws t p f url =
     (let unit = (case p of None \<Rightarrow> [] | Some x \<Rightarrow> join_dot [Some (pr_community x), pr_unitNo x]) in
      \<lparr> ni_workspaceId = ws, ni_channel = CH_EMAIL, ni_templateCode = ''renewal_offer_v1'',
        ni_subject = Some (''Renewal proposal'' @ em_dash @ (if unit = [] then ''your tenancy'' else unit)),
        ni_body = ''Your landlord has shared a renewal proposal of AED '' @ locale_number (of_annualRent f) @
          ''/yr. View it and respond (accept, counter, or ask a question): '' @ url,
        ni_toUserId = None, ni_toContactId = tn_tenantContactId t, ni_toAddress = None,
        ni_preferChannel = None, ni_relatedType = Some S_OFFER, ni_relatedId = Some (of_id f),
        ni_category = None, ni_urgent = False \<rparr>)"

definition sendOfferToTenant ::
    "(string \<Rightarrow> string) \<Rightarrow> string \<Rightarrow> string \<Rightarrow> (rat \<Rightarrow> string) \<Rightarrow> authz_ctx \<Rightarrow> uid \<Rightarrow> (uid \<times> string) svc" where
  "sendOfferToTenant hash base token locale_number ctx offerId =
     thenE (requireCap ctx ''renewals.write'')
     (bindE (readE (find_offer offerId)) (\<lambda>found.
      thenE (liftE (assertSameWorkspace ctx (map_option of_workspaceId found)))
      (bindE (someE notFound found) (\<lambda>f.
       bindE (someE not_renewal_offer (of_tenancyId f)) (\<lambda>tenancyId.
       bindE (getTenancy ctx tenancyId) (\<lambda>t.
       bindE (createSecureLink hash base token ctx
         \<lparr> la_purpose = LP_TENANT_OFFER, la_scopeType = S_OFFER, la_scopeId = offerId,
           la_contactId = tn_tenantContactId t, la_expiresInDays = None, la_maxUses = Some 5,
           la_requiredCapability = None \<rparr>) (\<lambda>link.
       bindE (readE (property_of (tn_propertyId t))) (\<lambda>p.
       thenE (notify (offer_message locale_number (cx_workspaceId ctx) t p f (snd link)))
       (bindE (recordAudit (audit_by ctx ''renewal.send_offer'' ''Offer'' (Some offerId))) (\<lambda>_. ret link))))))))))"

record tenant_offer_view =
  tv_offerId :: uid
  tv_version :: int
  tv_proposedRent :: rat
  tv_paymentSchedule :: string
  tv_paymentMethod :: "string option"
  tv_termMonths :: "int option"
  tv_note :: "string option"
  tv_status :: offerStatus
  tv_unit :: string
  tv_currentRent :: rat
  tv_marketRentAvg :: "rat option"
  tv_indexCapturedAt :: "time option"
  tv_indexSourceLabel :: "string option"
  tv_indexProvisional :: bool
  tv_indexSourceKind :: "string option"
  tv_permittedMax :: "rat option"
  tv_currentEndDate :: time
  tv_proposedStartDate :: "time option"
  tv_proposedEndDate :: "time option"

definition cited :: "offer \<Rightarrow> string \<Rightarrow> json option" where
  "cited f k = Option.bind (of_indexCitation f) (\<lambda>j. jget j k)"

definition json_number :: "json option \<Rightarrow> rat option" where
  "json_number j = (case j of Some (JNum x) \<Rightarrow> Some x | _ \<Rightarrow> None)"

definition getOfferForLink :: "secure_link \<Rightarrow> world \<Rightarrow> tenant_offer_view option" where
  "getOfferForLink link s =
     (if sl_purpose link \<noteq> LP_TENANT_OFFER then None
      else case find_offer (sl_scopeId link) s of
        None \<Rightarrow> None
      | Some f \<Rightarrow>
          if of_tenancyId f = None \<or> \<not> open_offer f then None
          else case List.find (\<lambda>t. Some (tn_id t) = of_tenancyId f) (w_tenancies s) of
            None \<Rightarrow> None
          | Some t \<Rightarrow> Some
              \<lparr> tv_offerId = of_id f, tv_version = of_version f, tv_proposedRent = of_annualRent f,
                tv_paymentSchedule = of_paymentSchedule f, tv_paymentMethod = of_paymentMethod f,
                tv_termMonths = of_termMonths f, tv_note = of_note f, tv_status = of_status f,
                tv_unit = (case property_of (tn_propertyId t) s of None \<Rightarrow> []
                  | Some p \<Rightarrow> join_dot [Some (pr_community p), pr_building p, pr_unitNo p]),
                tv_currentRent = tn_annualRent t, tv_marketRentAvg = json_number (cited f ''marketRentAvg''),
                tv_indexCapturedAt = json_date (cited f ''capturedAt''),
                tv_indexSourceLabel = json_string (cited f ''source''),
                tv_indexProvisional = (cited f ''provisional'' = Some (JBool True)),
                tv_indexSourceKind = json_string (cited f ''indexSource''),
                tv_permittedMax = of_permittedMaxSnapshot f, tv_currentEndDate = tn_endDate t,
                tv_proposedStartDate = (case of_proposedStartDate f of None \<Rightarrow> of_startDate f | Some d \<Rightarrow> Some d),
                tv_proposedEndDate = of_proposedEndDate f \<rparr>)"

subsection \<open>The tenant's response\<close>

datatype response_action = RA_ACCEPT | RA_COUNTER | RA_ASK

record response_input =
  rs_action :: response_action
  rs_annualRent :: "rat option"
  rs_paymentSchedule :: "string option"
  rs_paymentMethod :: "string option"
  rs_note :: "string option"

record response_source =
  rc_actorType :: actorType
  rc_actorId :: "uid option"
  rc_viaSecureLinkId :: "uid option"

definition RENEW_FROM :: "tenancyStatus list" where
  "RENEW_FROM = [T_RENEWAL_DUE, T_NOTICE_SERVED, T_NEGOTIATING]"

definition response_evidence ::
    "offer \<Rightarrow> response_source \<Rightarrow> uid option \<Rightarrow> evidenceType \<Rightarrow> scopeType \<Rightarrow> uid \<Rightarrow> json \<Rightarrow> evidence_input" where
  "response_evidence f src propertyId ty sty sid payload =
     (evidenceOf (of_workspaceId f) ty (rc_actorType src) (rc_actorId src) sty (Some sid))
       \<lparr>ei_tenancyId := of_tenancyId f, ei_propertyId := propertyId, ei_payload := Some payload\<rparr>"

definition counter_complete :: "response_input \<Rightarrow> bool" where
  "counter_complete inp \<longleftrightarrow> (case rs_annualRent inp of None \<Rightarrow> False | Some r \<Rightarrow> 0 < r) \<and>
     (case rs_paymentSchedule inp of None \<Rightarrow> False | Some p \<Rightarrow> p \<noteq> [])"

definition counter_input :: "uid \<Rightarrow> response_input \<Rightarrow> response_source \<Rightarrow> offer_input" where
  "counter_input renewalCaseId inp src =
     \<lparr> oi_renewalCaseId = renewalCaseId, oi_party = OP_TENANT,
       oi_annualRent = (case rs_annualRent inp of None \<Rightarrow> 0 | Some r \<Rightarrow> r),
       oi_paymentSchedule = (case rs_paymentSchedule inp of None \<Rightarrow> [] | Some p \<Rightarrow> p),
       oi_paymentMethod = rs_paymentMethod inp, oi_termMonths = None, oi_startDate = None,
       oi_note = rs_note inp, oi_viaSecureLinkId = rc_viaSecureLinkId src \<rparr>"

text \<open>The counter-offer's row; the case's foreign keys are the offer's own.\<close>

definition counter_row ::
    "uid \<Rightarrow> time \<Rightarrow> offer \<Rightarrow> uid \<Rightarrow> uid \<Rightarrow> int \<Rightarrow> offer_input \<Rightarrow> rent_index_capture option \<Rightarrow> offer" where
  "counter_row i now f renewalCaseId tenancyId version inp capture =
     \<lparr> of_id = i, of_workspaceId = of_workspaceId f, of_renewalCaseId = Some renewalCaseId,
       of_tenancyId = Some tenancyId, of_listingId = None, of_prospectContactId = None,
       of_version = version, of_party = OP_TENANT, of_annualRent = money (oi_annualRent inp),
       of_paymentSchedule = oi_paymentSchedule inp, of_paymentMethod = oi_paymentMethod inp,
       of_termMonths = None, of_startDate = None, of_note = oi_note inp, of_status = O_COUNTERED,
       of_createdById = None, of_viaSecureLinkId = oi_viaSecureLinkId inp,
       of_permittedMaxSnapshot = Option.bind capture ri_permittedNewRentMax,
       of_indexCaptureId = map_option ri_id capture, of_indexCitation = map_option indexCitationFrom capture,
       of_responseDueDeadlineId = None, of_proposedStartDate = None, of_proposedEndDate = None,
       of_createdAt = now \<rparr>"

definition respond_counter ::
    "offer \<Rightarrow> uid \<Rightarrow> uid \<Rightarrow> renewal_case option \<Rightarrow> response_input \<Rightarrow> response_source \<Rightarrow> unit svc" where
  "respond_counter f renewalCaseId tenancyId rc inp src =
     thenE (assertE (counter_complete inp) (AuthzError ''A counter needs a rent and a payment schedule'' 422))
     (thenE (supersede (\<lambda>g. of_renewalCaseId g = Some renewalCaseId))
     (bindE (readE (next_version (\<lambda>g. of_renewalCaseId g = Some renewalCaseId))) (\<lambda>version.
      bindE (readE (\<lambda>s. Option.bind rc (\<lambda>c. resolveRenewalIndexCapture c s))) (\<lambda>capture.
      bindE getNow (\<lambda>now. bindE newId (\<lambda>i.
      let g = counter_row i now f renewalCaseId tenancyId version (counter_input renewalCaseId inp src) capture in
      thenE (writeE (\<lambda>s. s\<lparr>w_offers := w_offers s @ [g]\<rparr>))
      (thenE (update_case renewalCaseId (\<lambda>c. c\<lparr>rc_status := R_NEGOTIATING, rc_currentOfferId := Some i\<rparr>))
      (bindE (recordEvidence (response_evidence f src (map_option rc_propertyId rc) EV_OFFER_COUNTERED S_OFFER i
          (JObj [(''version'', JNum (of_int version)), (''annualRent'', jopt JNum (rs_annualRent inp)),
                 (''paymentSchedule'', jopt JStr (rs_paymentSchedule inp)),
                 (''viaLink'', JBool (rc_viaSecureLinkId src \<noteq> None))])))
        (\<lambda>_. ret ())))))))))"

definition respond_accept ::
    "offer \<Rightarrow> uid \<Rightarrow> uid \<Rightarrow> uid option \<Rightarrow> response_source \<Rightarrow> unit svc" where
  "respond_accept f renewalCaseId tenancyId propertyId src =
     thenE (accept_transaction (of_id f) renewalCaseId ''This offer is no longer open'')
     (bindE (readE (\<lambda>s. List.find (\<lambda>t. tn_id t = tenancyId) (w_tenancies s))) (\<lambda>t.
      thenE (case t of None \<Rightarrow> ret ()
        | Some x \<Rightarrow>
            whenE (tn_status x \<in> set RENEW_FROM)
              (thenE (set_status tenancyId T_RENEWED)
              (bindE (recordEvidence (response_evidence f src propertyId EV_FIELD_CORRECTED S_TENANCY tenancyId
                  (JObj [(''field'', JStr ''status''), (''from'', JStr (tenancyStatus_name (tn_status x))),
                         (''to'', JStr ''RENEWED'')]))) (\<lambda>_. ret ()))))
      (bindE (recordEvidence (response_evidence f src propertyId EV_OFFER_ACCEPTED S_OFFER (of_id f)
          (JObj [(''version'', JNum (of_int (of_version f))),
                 (''viaLink'', JBool (rc_viaSecureLinkId src \<noteq> None))])))
        (\<lambda>_. ret ()))))"

definition respond_ask :: "offer \<Rightarrow> uid option \<Rightarrow> response_input \<Rightarrow> response_source \<Rightarrow> unit svc" where
  "respond_ask f propertyId inp src =
     bindE (recordEvidence (response_evidence f src propertyId EV_TENANT_ACKNOWLEDGED S_OFFER (of_id f)
       (JObj [(''question'', JStr (case rs_note inp of None \<Rightarrow> [] | Some q \<Rightarrow> q)),
              (''viaLink'', JBool (rc_viaSecureLinkId src \<noteq> None))]))) (\<lambda>_. ret ())"

definition applyTenantOfferResponse :: "offer \<Rightarrow> response_input \<Rightarrow> response_source \<Rightarrow> unit svc" where
  "applyTenantOfferResponse f inp src =
     bindE (someE not_renewal_offer (of_renewalCaseId f)) (\<lambda>renewalCaseId.
     bindE (someE not_renewal_offer (of_tenancyId f)) (\<lambda>tenancyId.
     bindE (readE (find_case renewalCaseId)) (\<lambda>rc.
     thenE (case rs_action inp of
         RA_COUNTER \<Rightarrow> respond_counter f renewalCaseId tenancyId rc inp src
       | RA_ACCEPT \<Rightarrow> respond_accept f renewalCaseId tenancyId (map_option rc_propertyId rc) src
       | RA_ASK \<Rightarrow> respond_ask f (map_option rc_propertyId rc) inp src)
     (evaluateRenewalRisk renewalCaseId))))"

definition respondToOfferViaLink :: "secure_link \<Rightarrow> response_input \<Rightarrow> unit svc" where
  "respondToOfferViaLink link inp =
     thenE (assertE (sl_purpose link = LP_TENANT_OFFER) (AuthzError ''Wrong link purpose'' 400))
     (bindE (readE (find_offer (sl_scopeId link))) (\<lambda>found.
      bindE (someE (AuthzError ''Offer not found'' 404) found) (\<lambda>f.
      bindE (consumeLinkUse (sl_id link)) (\<lambda>consumed.
      thenE (assertE consumed (AuthzError ''This link is no longer available'' 410))
        (applyTenantOfferResponse f inp
          \<lparr> rc_actorType = A_TENANT_LINK, rc_actorId = None, rc_viaSecureLinkId = Some (sl_id link) \<rparr>)))))"

definition respondToOfferAsTenant :: "authz_ctx \<Rightarrow> uid \<Rightarrow> response_input \<Rightarrow> unit svc" where
  "respondToOfferAsTenant ctx offerId inp =
     thenE (requireCap ctx ''offers.respond'')
     (bindE (readE (find_offer offerId)) (\<lambda>found.
      bindE (someE notFound found) (\<lambda>f.
      thenE (assertE (of_workspaceId f = cx_workspaceId ctx) notFound)
      (bindE (someE not_renewal_offer (of_tenancyId f)) (\<lambda>tenancyId.
       thenE (getTenancy ctx tenancyId)
         (applyTenantOfferResponse f inp
           \<lparr> rc_actorType = A_USER, rc_actorId = Some (cx_userId ctx), rc_viaSecureLinkId = None \<rparr>))))))"

definition listOffersForTenant :: "authz_ctx \<Rightarrow> uid \<Rightarrow> offer list svc" where
  "listOffersForTenant ctx tenancyId =
     thenE (requireCap ctx ''offers.read'')
     (thenE (getTenancy ctx tenancyId)
       (readE (\<lambda>s. sort_key (\<lambda>f. - of_version f) (filter (\<lambda>f. of_workspaceId f = cx_workspaceId ctx \<and>
          of_tenancyId f = Some tenancyId) (w_offers s)))))"

subsection \<open>The successor tenancy\<close>

record mint_input =
  mt_renewalCaseId :: uid
  mt_startDate :: time
  mt_endDate :: time
  mt_annualRent :: rat
  mt_contractDocId :: "uid option"
  mt_paymentTermsNote :: "string option"
  mt_noticePeriodDays :: "int option"
  mt_chequeCount :: "rat option"

fun renewalStatus_name :: "renewalStatus \<Rightarrow> string" where
  "renewalStatus_name R_ASSESSING = ''ASSESSING''"
| "renewalStatus_name R_NOTICE_DUE = ''NOTICE_DUE''"
| "renewalStatus_name R_NOTICE_SERVED = ''NOTICE_SERVED''"
| "renewalStatus_name R_NEGOTIATING = ''NEGOTIATING''"
| "renewalStatus_name R_AGREED = ''AGREED''"
| "renewalStatus_name R_RENEWED = ''RENEWED''"
| "renewalStatus_name R_DECLINED = ''DECLINED''"
| "renewalStatus_name R_LAPSED = ''LAPSED''"

definition successor_row :: "uid \<Rightarrow> time \<Rightarrow> authz_ctx \<Rightarrow> renewal_case \<Rightarrow> tenancy \<Rightarrow> mint_input \<Rightarrow> tenancy" where
  "successor_row i now ctx rc predecessor inp =
     \<lparr> tn_id = i, tn_workspaceId = cx_workspaceId ctx, tn_propertyId = rc_propertyId rc,
       tn_landlordContactId = tn_landlordContactId predecessor,
       tn_tenantContactId = tn_tenantContactId predecessor, tn_ejariNo = None,
       tn_startDate = toUtcDateOnly (mt_startDate inp), tn_endDate = toUtcDateOnly (mt_endDate inp),
       tn_annualRent = money (mt_annualRent inp), tn_depositAmount = None,
       tn_paymentTermsNote = or_keep (mt_paymentTermsNote inp) (tn_paymentTermsNote predecessor),
       tn_noticePeriodDays = or_else (mt_noticePeriodDays inp) (tn_noticePeriodDays predecessor),
       tn_noticeGateAt = None, tn_status = T_ACTIVE, tn_source = RS_MANUAL,
       tn_contractDocId = mt_contractDocId inp, tn_createdAt = now, tn_archivedAt = None,
       tn_renewsFromTenancyId = Some (tn_id predecessor) \<rparr>"

definition already_minted :: error where
  "already_minted = AuthzError ''A successor tenancy has already been minted for this case'' 409"

text \<open>The conditional claim inside the transaction.\<close>

definition claim_case :: "uid \<Rightarrow> unit svc" where
  "claim_case i =
     bindE getNow (\<lambda>now.
     bindE (readE (\<lambda>s. count_where (\<lambda>rc. rc_id rc = i \<and> rc_status rc = R_AGREED \<and> rc_renewedTenancyId rc = None)
        (w_cases s))) (\<lambda>claimed.
     thenE (writeE (\<lambda>s. s\<lparr>w_cases := upd_where
          (\<lambda>rc. rc_id rc = i \<and> rc_status rc = R_AGREED \<and> rc_renewedTenancyId rc = None)
          (\<lambda>rc. rc\<lparr>rc_status := R_RENEWED, rc_updatedAt := now\<rparr>) (w_cases s)\<rparr>))
       (assertE (claimed = 1) already_minted)))"

definition insert_successor :: "authz_ctx \<Rightarrow> renewal_case \<Rightarrow> tenancy \<Rightarrow> mint_input \<Rightarrow> tenancy svc" where
  "insert_successor ctx rc predecessor inp =
     thenE (bindE (readE w_tenancies) (\<lambda>rows.
       assertE (\<forall>t \<in> set rows. tn_renewsFromTenancyId t \<noteq> Some (tn_id predecessor))
         (UniqueViolation ''Tenancy_renewsFromTenancyId_key'')))
     (bindE getNow (\<lambda>now. bindE newId (\<lambda>i.
      let t = successor_row i now ctx rc predecessor inp in
      thenE (writeE (\<lambda>s. s\<lparr>w_tenancies := w_tenancies s @ [t]\<rparr>)) (ret t))))"

definition mint_transaction :: "authz_ctx \<Rightarrow> renewal_case \<Rightarrow> tenancy \<Rightarrow> mint_input \<Rightarrow> tenancy svc" where
  "mint_transaction ctx rc predecessor inp =
     transaction
       (thenE (claim_case (rc_id rc))
       (bindE (insert_successor ctx rc predecessor inp) (\<lambda>t.
        thenE (set_status (tn_id predecessor) T_RENEWED)
        (thenE (update_case (rc_id rc) (\<lambda>c. c\<lparr>rc_renewedTenancyId := Some (tn_id t)\<rparr>)) (ret t)))))"

definition cheque_count :: "rat option \<Rightarrow> int" where
  "cheque_count c = (case c of None \<Rightarrow> 0 | Some x \<Rightarrow> if 0 < x then min \<lfloor>x\<rfloor> 12 else 0)"

definition mint_payload :: "tenancy \<Rightarrow> tenancy \<Rightarrow> mint_input \<Rightarrow> int \<Rightarrow> nat \<Rightarrow> json" where
  "mint_payload predecessor successor inp chequeCount generated = JObj
     [(''predecessorTenancyId'', JId (tn_id predecessor)), (''successorTenancyId'', JId (tn_id successor)),
      (''annualRent'', JNum (mt_annualRent inp)), (''startDate'', JDate (mt_startDate inp)),
      (''endDate'', JDate (mt_endDate inp)), (''chequeCount'', JNum (of_int chequeCount)),
      (''generatedItemCount'', JNum (of_nat generated))]"

text \<open>After the commit: the cheque schedule when it was asked for, else the deadlines and flags alone.\<close>

definition rearm :: "authz_ctx \<Rightarrow> tenancy \<Rightarrow> mint_input \<Rightarrow> nat svc" where
  "rearm ctx successor inp =
     (let chequeCount = cheque_count (mt_chequeCount inp) in
      if 0 < chequeCount then
        let items = evenChequeSchedule (mt_startDate inp) (mt_endDate inp) (mt_annualRent inp) (of_int chequeCount)
        in thenE (setPaymentSchedule ctx (tn_id successor) items) (ret (length items))
      else
        thenE (regenerateDeadlinesForTenancy (tn_id successor))
        (thenE (evaluateRiskForTenancy (tn_id successor)) (ret 0)))"

definition mintRenewedTenancy :: "authz_ctx \<Rightarrow> mint_input \<Rightarrow> tenancy svc" where
  "mintRenewedTenancy ctx inp =
     thenE (requireCap ctx ''renewals.decide'')
     (bindE (readE (find_case (mt_renewalCaseId inp))) (\<lambda>found.
      thenE (liftE (assertSameWorkspace ctx (map_option rc_workspaceId found)))
      (bindE (someE notFound found) (\<lambda>rc.
      thenE (assertE (rc_status rc = R_AGREED)
        (AuthzError (''Case must be AGREED to mint a successor (current: '' @ renewalStatus_name (rc_status rc) @ '')'') 422))
      (thenE (assertE (rc_renewedTenancyId rc = None) already_minted)
      (thenE (assertE (0 < mt_annualRent inp) (AuthzError ''Successor rent must be a positive amount'' 422))
      (thenE (assertE (mt_startDate inp < mt_endDate inp) (AuthzError ''Successor endDate must be after startDate'' 422))
      (bindE (getTenancy ctx (rc_tenancyId rc)) (\<lambda>predecessor.
       bindE (mint_transaction ctx rc predecessor inp) (\<lambda>successor.
       bindE (rearm ctx successor inp) (\<lambda>generated.
       bindE (recordEvidence (about (tn_id successor) (rc_propertyId rc)
           (evidence_by ctx EV_RENEWAL_COMPLETED S_RENEWAL_CASE (Some (rc_id rc))
             (mint_payload predecessor successor inp (cheque_count (mt_chequeCount inp)) generated)))) (\<lambda>_.
       bindE (recordAudit (audit_by ctx ''renewal.mint_successor'' ''RenewalCase'' (Some (rc_id rc))))
         (\<lambda>_. ret successor)))))))))))))"

subsection \<open>What every operation keeps\<close>

lemma keeps_update_case [log_keeps]: "keeps extends (update_case i f)"
  unfolding update_case_def by (intro logs.keeps_intros log_keeps keeps_quiet_write) simp_all

lemma keeps_supersede [log_keeps]: "keeps extends (supersede p)"
  unfolding supersede_def by (intro keeps_quiet_write) simp_all

lemma keeps_tryMoveTenancy [log_keeps]: "keeps extends (tryMoveTenancy ctx i st)"
  unfolding tryMoveTenancy_def
  by (rule logs.keeps_catchE, intro logs.keeps_intros log_keeps)
    (simp split: error.split, intro allI impI conjI logs.keeps_intros)

lemma keeps_claim_offer [log_keeps]: "keeps extends (claim_offer i m)"
  unfolding claim_offer_def by (intro logs.keeps_intros log_keeps keeps_quiet_write) simp_all

lemma keeps_accept_transaction [log_keeps]: "keeps extends (accept_transaction i c m)"
  unfolding accept_transaction_def
  by (rule logs.keeps_catchE, intro logs.keeps_intros log_keeps)
    (simp add: logs.keeps_throw split: error.split)

lemma keeps_proposeOffer [log_keeps]: "keeps extends (proposeOffer ctx inp)"
  unfolding proposeOffer_def Let_def by (intro logs.keeps_intros log_keeps keeps_quiet_write) simp_all

lemma keeps_acceptOffer [log_keeps]: "keeps extends (acceptOffer ctx i)"
  unfolding acceptOffer_def by (intro logs.keeps_intros log_keeps)

lemma keeps_sendOfferToTenant [log_keeps]: "keeps extends (sendOfferToTenant h b t l ctx i)"
  unfolding sendOfferToTenant_def by (intro logs.keeps_intros log_keeps)

lemma keeps_applyTenantOfferResponse [log_keeps]: "keeps extends (applyTenantOfferResponse f inp src)"
  unfolding applyTenantOfferResponse_def
  by (cases "rs_action inp")
    (simp_all add: respond_counter_def respond_accept_def respond_ask_def Let_def,
      (intro logs.keeps_intros log_keeps keeps_quiet_write; simp)+)

lemma keeps_respondToOfferViaLink [log_keeps]: "keeps extends (respondToOfferViaLink l inp)"
  unfolding respondToOfferViaLink_def by (intro logs.keeps_intros log_keeps)

lemma keeps_respondToOfferAsTenant [log_keeps]: "keeps extends (respondToOfferAsTenant ctx i inp)"
  unfolding respondToOfferAsTenant_def by (intro logs.keeps_intros log_keeps)

lemma keeps_claim_case [log_keeps]: "keeps extends (claim_case i)"
  unfolding claim_case_def by (intro logs.keeps_intros log_keeps keeps_quiet_write) simp_all

lemma keeps_insert_successor [log_keeps]: "keeps extends (insert_successor ctx rc p inp)"
  unfolding insert_successor_def Let_def by (intro logs.keeps_intros log_keeps keeps_quiet_write) simp_all

lemma keeps_mint_transaction [log_keeps]: "keeps extends (mint_transaction ctx rc p inp)"
  unfolding mint_transaction_def by (intro logs.keeps_intros log_keeps)

lemma keeps_mintRenewedTenancy [log_keeps]: "keeps extends (mintRenewedTenancy ctx inp)"
  unfolding mintRenewedTenancy_def rearm_def Let_def by (intro logs.keeps_intros log_keeps)

subsection \<open>One accepted offer\<close>

definition accepted_on :: "uid \<Rightarrow> offer \<Rightarrow> bool" where
  "accepted_on c f \<longleftrightarrow> of_renewalCaseId f = Some c \<and> of_status f = O_ACCEPTED"

definition offers_ok :: "world \<Rightarrow> bool" where
  "offers_ok s \<longleftrightarrow> distinct (map of_id (w_offers s)) \<and> (\<forall>c. count_where (accepted_on c) (w_offers s) \<le> 1)"

definition accepting :: "uid \<Rightarrow> uid \<Rightarrow> offer \<Rightarrow> offer" where
  "accepting i c f = (if of_id f = i \<and> open_offer f then f\<lparr>of_status := O_ACCEPTED\<rparr>
     else if of_renewalCaseId f = Some c \<and> of_id f \<noteq> i \<and> open_offer f then f\<lparr>of_status := O_SUPERSEDED\<rparr> else f)"

lemma update_case_ok:
  "update_case i f s = (Inr x, u) \<longleftrightarrow> (\<exists>rc \<in> set (w_cases s). rc_id rc = i) \<and> \<not> active_clash f i (w_cases s) \<and>
     u = s\<lparr>w_cases := upd_where (\<lambda>rc. rc_id rc = i) (\<lambda>rc. (f rc)\<lparr>rc_updatedAt := w_now s\<rparr>) (w_cases s)\<rparr>"
  by (auto simp: update_case_def op_ok)

lemma claim_offer_ok:
  "claim_offer i m s = (Inr x, u) \<longleftrightarrow> (\<exists>f. find_offer i s = Some f \<and> open_offer f \<and>
     (of_renewalCaseId f = None \<or> (\<forall>g \<in> set (w_offers s). of_id g \<noteq> i \<longrightarrow>
        of_renewalCaseId g = of_renewalCaseId f \<longrightarrow> of_status g \<noteq> O_ACCEPTED)) \<and>
     u = s\<lparr>w_offers := upd_where (\<lambda>g. of_id g = i \<and> open_offer g) (\<lambda>g. g\<lparr>of_status := O_ACCEPTED\<rparr>) (w_offers s)\<rparr>)"
  by (auto simp: claim_offer_def op_ok split: option.splits)

lemma catch_rethrow_ok:
  "catchE m (\<lambda>e. case e of UniqueViolation x \<Rightarrow> throw (h x) | _ \<Rightarrow> throw e) s = (Inr y, u) \<longleftrightarrow> m s = (Inr y, u)"
  by (auto simp: catchE_def op_ok split: prod.splits sum.splits error.splits)

definition agree :: "uid \<Rightarrow> time \<Rightarrow> renewal_case \<Rightarrow> renewal_case" where
  "agree i now r = r\<lparr>rc_status := R_AGREED, rc_decidedOfferId := Some i, rc_currentOfferId := Some i, rc_updatedAt := now\<rparr>"

lemma agree_fields: "rc_status (agree i now r) = R_AGREED" "rc_decidedOfferId (agree i now r) = Some i" "rc_id (agree i now r) = rc_id r"
  by (simp_all add: agree_def)

lemma agreed_row:
  "\<forall>rc \<in> set (upd_where (\<lambda>rc. rc_id rc = c) (agree i now) rows). rc_id rc = c \<longrightarrow>
     rc_status rc = R_AGREED \<and> rc_decidedOfferId rc = Some i"
  by (induction rows) (simp_all add: agree_fields)

lemma accepting_rows:
  "upd_where (\<lambda>f. (of_renewalCaseId f = Some c \<and> of_id f \<noteq> i) \<and> open_offer f) (\<lambda>f. f\<lparr>of_status := O_SUPERSEDED\<rparr>)
     (upd_where (\<lambda>g. of_id g = i \<and> open_offer g) (\<lambda>g. g\<lparr>of_status := O_ACCEPTED\<rparr>) rows) = map (accepting i c) rows"
  unfolding upd_where_def map_map
proof (rule map_cong [OF refl])
  fix f
  show "((\<lambda>f. if (of_renewalCaseId f = Some c \<and> of_id f \<noteq> i) \<and> open_offer f then f\<lparr>of_status := O_SUPERSEDED\<rparr> else f) \<circ>
      (\<lambda>g. if of_id g = i \<and> open_offer g then g\<lparr>of_status := O_ACCEPTED\<rparr> else g)) f = accepting i c f"
    by (cases "of_id f = i"; cases "open_offer f") (simp_all add: accepting_def)
qed

lemma find_map_key: "(\<And>r. p (h r) = p r) \<Longrightarrow> List.find p (map h rows) = map_option h (List.find p rows)"
  by (induction rows) auto

lemma accept_transactionD:
  assumes "accept_transaction i c m s = (Inr x, u)"
  shows "\<exists>f. find_offer i s = Some f \<and> open_offer f \<and> (of_renewalCaseId f = None \<or>
      (\<forall>g \<in> set (w_offers s). of_id g \<noteq> i \<longrightarrow> of_renewalCaseId g = of_renewalCaseId f \<longrightarrow> of_status g \<noteq> O_ACCEPTED))"
    and "\<exists>rc \<in> set (w_cases s). rc_id rc = c"
    and "u = s\<lparr>w_offers := map (accepting i c) (w_offers s),
       w_cases := upd_where (\<lambda>rc. rc_id rc = c) (agree i (w_now s)) (w_cases s)\<rparr>"
proof -
  let ?rows = "upd_where (\<lambda>g. of_id g = i \<and> open_offer g) (\<lambda>g. g\<lparr>of_status := O_ACCEPTED\<rparr>) (w_offers s)"
  obtain x1 s1 x2 s2 where claim: "claim_offer i m s = (Inr x1, s1)"
    and sup: "supersede (\<lambda>f. of_renewalCaseId f = Some c \<and> of_id f \<noteq> i) s1 = (Inr x2, s2)"
    and upd: "update_case c (\<lambda>c. c\<lparr>rc_status := R_AGREED, rc_decidedOfferId := Some i, rc_currentOfferId := Some i\<rparr>) s2 = (Inr x, u)"
    using assms unfolding accept_transaction_def catch_rethrow_ok transaction_ok bindE_ok by blast
  from claim show "\<exists>f. find_offer i s = Some f \<and> open_offer f \<and> (of_renewalCaseId f = None \<or>
      (\<forall>g \<in> set (w_offers s). of_id g \<noteq> i \<longrightarrow> of_renewalCaseId g = of_renewalCaseId f \<longrightarrow> of_status g \<noteq> O_ACCEPTED))"
    unfolding claim_offer_ok by blast
  from claim have s1: "s1 = s\<lparr>w_offers := ?rows\<rparr>" unfolding claim_offer_ok by blast
  from sup have s2: "s2 = s\<lparr>w_offers := map (accepting i c) (w_offers s)\<rparr>"
    unfolding supersede_def writeE_ok s1 accepting_rows [symmetric] by simp
  show "\<exists>rc \<in> set (w_cases s). rc_id rc = c" using upd unfolding update_case_ok s2 by simp
  show "u = s\<lparr>w_offers := map (accepting i c) (w_offers s),
       w_cases := upd_where (\<lambda>rc. rc_id rc = c) (agree i (w_now s)) (w_cases s)\<rparr>"
    using upd unfolding update_case_ok s2 agree_def [abs_def] by simp
qed

lemma accept_transaction_error: "accept_transaction i c m s = (Inl e, u) \<Longrightarrow> u = s"
  unfolding accept_transaction_def catchE_def
  by (auto simp: throw_def split: prod.splits sum.splits error.splits dest: transaction_rolls_back)


lemma accepting_id [simp]: "of_id (accepting i c f) = of_id f" "of_renewalCaseId (accepting i c f) = of_renewalCaseId f"
  by (simp_all add: accepting_def)

lemma count_where_map: "count_where p (map h rows) = count_where (\<lambda>r. p (h r)) rows"
  by (induction rows) simp_all

lemma count_accepting:
  assumes "\<And>g. g \<in> set rows \<Longrightarrow> of_id g \<noteq> i \<Longrightarrow> of_renewalCaseId g = Some k \<Longrightarrow> of_status g \<noteq> O_ACCEPTED"
    and "distinct (map of_id rows)"
  shows "count_where (accepted_on k) (map (accepting i c) rows) \<le> 1"
proof -
  have "of_id g = i" if "g \<in> set rows" "accepted_on k (accepting i c g)" for g
    using assms(1) [OF that(1)] that(2) by (cases "of_id g = i") (auto simp: accepted_on_def accepting_def split: if_splits)
  then have "count_where (accepted_on k) (map (accepting i c) rows) \<le> count_where (\<lambda>g. of_id g = i) rows"
    unfolding count_where_map by (intro count_where_mono) auto
  also have "\<dots> \<le> 1" by (rule count_where_distinct_key [OF assms(2)]) 
  finally show ?thesis .
qed

lemma accept_keeps_offers:
  assumes "offers_ok s" and "accept_transaction i c m s = (Inr x, u)"
  shows "offers_ok u"
proof -
  obtain f where f: "find_offer i s = Some f" "open_offer f" and one: "of_renewalCaseId f = None \<or>
      (\<forall>g \<in> set (w_offers s). of_id g \<noteq> i \<longrightarrow> of_renewalCaseId g = of_renewalCaseId f \<longrightarrow> of_status g \<noteq> O_ACCEPTED)"
    using accept_transactionD(1) [OF assms(2)] by blast
  have rows: "w_offers u = map (accepting i c) (w_offers s)" using accept_transactionD(3) [OF assms(2)] by simp
  have ids: "distinct (map of_id (w_offers s))" using assms(1) by (simp add: offers_ok_def)
  have mem: "f \<in> set (w_offers s)" "of_id f = i" using f(1) find_Some_in by (fastforce simp: find_offer_def)+
  have "count_where (accepted_on k) (w_offers u) \<le> 1" for k
  proof (cases "of_renewalCaseId f = Some k")
    case True
    then show ?thesis unfolding rows using one by (intro count_accepting ids) auto
  next
    case False
    have only: "g = f" if "g \<in> set (w_offers s)" "of_id g = i" for g
      using that mem ids by (auto simp: distinct_map inj_on_def)
    have "accepted_on k (accepting i c g) \<Longrightarrow> accepted_on k g" if "g \<in> set (w_offers s)" for g
      using that False only [OF that] by (auto simp: accepted_on_def accepting_def split: if_splits)
    then have "count_where (accepted_on k) (w_offers u) \<le> count_where (accepted_on k) (w_offers s)"
      unfolding rows count_where_map by (intro count_where_mono) auto
    also have "\<dots> \<le> 1" using assms(1) by (simp add: offers_ok_def)
    finally show ?thesis .
  qed
  then show ?thesis unfolding offers_ok_def using ids rows by (simp add: o_def)
qed

text \<open>
  C5: one acceptance per renewal case. The transaction both acceptances share is all or nothing and
  keeps at most one accepted offer on every case, from any database. When it succeeds the offer was
  still open, it is the one accepted offer, no offer of its case stays open and the case is agreed
  on it; every later acceptance of any offer of that case, by either side, is refused and writes
  nothing.
\<close>

theorem one_acceptance_per_case:
  assumes "offers_ok s" and "accept_transaction i c m s = (r, u)"
    and "\<exists>f. find_offer i s = Some f \<and> of_renewalCaseId f = Some c"
  shows "offers_ok u \<and>
    (case r of
       Inl e \<Rightarrow> u = s
     | Inr _ \<Rightarrow> (\<exists>f. find_offer i s = Some f \<and> open_offer f \<and> find_offer i u = Some (f\<lparr>of_status := O_ACCEPTED\<rparr>)) \<and>
         (\<forall>g \<in> set (w_offers u). of_renewalCaseId g = Some c \<longrightarrow> \<not> open_offer g) \<and>
         (\<forall>rc \<in> set (w_cases u). rc_id rc = c \<longrightarrow> rc_status rc = R_AGREED \<and> rc_decidedOfferId rc = Some i) \<and>
         (\<forall>j m'. (\<exists>g. find_offer j u = Some g \<and> of_renewalCaseId g = Some c) \<longrightarrow>
            (\<exists>e. accept_transaction j c m' u = (Inl e, u))))"
proof (cases r)
  case (Inl e)
  then show ?thesis using assms accept_transaction_error [of i c m s e u] by simp
next
  case (Inr x)
  have run: "accept_transaction i c m s = (Inr x, u)" using assms(2) Inr by simp
  note D = accept_transactionD [OF run]
  obtain f where f: "find_offer i s = Some f" "open_offer f" "of_renewalCaseId f = Some c"
    using D(1) assms(3) by auto
  have fi: "of_id f = i" "f \<in> set (w_offers s)" using f(1) find_Some_in by (fastforce simp: find_offer_def)+
  have rows: "w_offers u = map (accepting i c) (w_offers s)" using D(3) by simp
  have closed: "\<not> open_offer (accepting i c g)" if "of_renewalCaseId g = Some c" for g
    using that by (auto simp: accepting_def open_offer_def)
  have "find_offer i u = Some (accepting i c f)"
    using f(1) unfolding find_offer_def rows by (subst find_map_key) simp_all
  then have found: "find_offer i u = Some (f\<lparr>of_status := O_ACCEPTED\<rparr>)" using f(2) fi by (simp add: accepting_def)
  have none: "\<forall>g \<in> set (w_offers u). of_renewalCaseId g = Some c \<longrightarrow> \<not> open_offer g"
    using closed unfolding rows by auto
  have again: "\<exists>e. accept_transaction j c m' u = (Inl e, u)"
    if "find_offer j u = Some g" "of_renewalCaseId g = Some c" for j g m'
  proof (cases "accept_transaction j c m' u")
    case (Pair r' v)
    show ?thesis
    proof (cases r')
      case (Inl e)
      then show ?thesis using Pair accept_transaction_error [of j c m' u e v] by simp
    next
      case (Inr y)
      then have "open_offer g" using accept_transactionD(1) [of j c m' u y v] Pair that(1) by auto
      moreover have "g \<in> set (w_offers u)" using that(1) find_Some_in by (fastforce simp: find_offer_def)
      ultimately show ?thesis using none that(2) by blast
    qed
  qed
  have agreed: "\<forall>rc \<in> set (w_cases u). rc_id rc = c \<longrightarrow> rc_status rc = R_AGREED \<and> rc_decidedOfferId rc = Some i"
    using D(3) agreed_row [of c i "w_now s" "w_cases s"] by simp
  show ?thesis
    unfolding Inr sum.case
  proof (intro conjI)
    show "\<exists>f. find_offer i s = Some f \<and> open_offer f \<and> find_offer i u = Some (f\<lparr>of_status := O_ACCEPTED\<rparr>)"
      using f found by blast
    show "\<forall>j m'. (\<exists>g. find_offer j u = Some g \<and> of_renewalCaseId g = Some c) \<longrightarrow>
            (\<exists>e. accept_transaction j c m' u = (Inl e, u))"
      by (intro allI impI, elim exE conjE, rule again)
  qed (rule accept_keeps_offers [OF assms(1) run] none agreed)+
qed


definition sample_offer :: offer where
  "sample_offer = \<lparr> of_id = 91, of_workspaceId = 5, of_renewalCaseId = Some 81, of_tenancyId = Some 51,
     of_listingId = None, of_prospectContactId = None, of_version = 1, of_party = OP_LANDLORD,
     of_annualRent = 95000, of_paymentSchedule = ''4 cheques'', of_paymentMethod = None, of_termMonths = None,
     of_startDate = None, of_note = None, of_status = O_SENT, of_createdById = Some 1, of_viaSecureLinkId = None,
     of_permittedMaxSnapshot = None, of_indexCaptureId = None, of_indexCitation = None,
     of_responseDueDeadlineId = None, of_proposedStartDate = None, of_proposedEndDate = None,
     of_createdAt = 0 \<rparr>"

definition deal_world :: world where
  "deal_world = sample_world\<lparr>w_cases := [sample_case], w_offers := [sample_offer]\<rparr>"

lemma deal_find:
  "find_offer 91 deal_world = Some sample_offer" "find_case 81 deal_world = Some sample_case"
  "w_offers deal_world = [sample_offer]" "w_cases deal_world = [sample_case]"
  "w_tenancies deal_world = [sample_tenancy]" "w_now deal_world = 0"
  by (simp_all add: find_offer_def find_case_def deal_world_def sample_offer_def sample_case_def sample_rows)
    (simp add: sample_world_def sample_users_def empty_world_def)

theorem one_acceptance_per_case_witness:
  "\<exists>u. accept_transaction 91 81 ''closed'' deal_world = (Inr (), u) \<and>
     (\<exists>e. accept_transaction 91 81 ''closed'' u = (Inl e, u))"
proof -
  have ids: "of_id sample_offer = 91" "of_status sample_offer = O_SENT" "of_renewalCaseId sample_offer = Some 81"
    "rc_id sample_case = 81" by (simp_all add: sample_offer_def sample_case_def)
  have "offers_ok deal_world"
    using ids by (simp add: offers_ok_def deal_find accepted_on_def)
  moreover obtain u where u: "accept_transaction 91 81 ''closed'' deal_world = (Inr (), u)"
    using ids by (simp add: accept_transaction_def catchE_def transaction_def bindE_apply claim_offer_def readE_eval
      deal_find open_offer_def assertE_eval writeE_eval supersede_def update_case_def getNow_eval active_clash_def)
  moreover have "\<exists>f. find_offer 91 deal_world = Some f \<and> of_renewalCaseId f = Some 81"
    using ids deal_find by simp
  moreover from ids have "of_renewalCaseId (sample_offer\<lparr>of_status := O_ACCEPTED\<rparr>) = Some 81" by simp
  ultimately show ?thesis
    using one_acceptance_per_case [of deal_world 91 81 "''closed''" "Inr ()" u] deal_find(1) by auto
qed

subsection \<open>One successor\<close>

definition one_successor :: "world \<Rightarrow> bool" where
  "one_successor s \<longleftrightarrow> (\<forall>p. count_where (\<lambda>t. tn_renewsFromTenancyId t = Some p) (w_tenancies s) \<le> 1)"

definition mintable :: "uid \<Rightarrow> renewal_case \<Rightarrow> bool" where
  "mintable i rc \<longleftrightarrow> rc_id rc = i \<and> rc_status rc = R_AGREED \<and> rc_renewedTenancyId rc = None"

definition minted :: "uid \<Rightarrow> time \<Rightarrow> renewal_case \<Rightarrow> renewal_case" where
  "minted i now rc = rc\<lparr>rc_renewedTenancyId := Some i, rc_updatedAt := now\<rparr>"

definition claimed :: "time \<Rightarrow> renewal_case \<Rightarrow> renewal_case" where
  "claimed now rc = rc\<lparr>rc_status := R_RENEWED, rc_updatedAt := now\<rparr>"

lemma claim_case_ok:
  "claim_case i s = (Inr x, u) \<longleftrightarrow> count_where (mintable i) (w_cases s) = 1 \<and>
     u = s\<lparr>w_cases := upd_where (mintable i) (claimed (w_now s)) (w_cases s)\<rparr>"
  unfolding claim_case_def mintable_def [abs_def] claimed_def [abs_def] by (auto simp: op_ok)

lemma insert_successor_ok:
  "insert_successor ctx rc p inp s = (Inr t, u) \<longleftrightarrow>
     (\<forall>q \<in> set (w_tenancies s). tn_renewsFromTenancyId q \<noteq> Some (tn_id p)) \<and>
     t = successor_row (w_next s) (w_now s) ctx rc p inp \<and>
     u = s\<lparr>w_next := Suc (w_next s), w_tenancies := w_tenancies s @ [t]\<rparr>"
  by (auto simp: insert_successor_def op_ok Let_def)

abbreviation renewed_status :: "tenancy \<Rightarrow> tenancy" where
  "renewed_status r \<equiv> r\<lparr>tn_status := T_RENEWED\<rparr>"

lemma mint_transactionD:
  assumes "mint_transaction ctx rc p inp s = (Inr t, u)"
  shows "t = successor_row (w_next s) (w_now s) ctx rc p inp"
    and "count_where (mintable (rc_id rc)) (w_cases s) = 1"
    and "\<forall>q \<in> set (w_tenancies s). tn_renewsFromTenancyId q \<noteq> Some (tn_id p)"
    and "w_tenancies u = upd_where (\<lambda>r. tn_id r = tn_id p) renewed_status (w_tenancies s @ [t])"
    and "w_cases u = upd_where (\<lambda>c. rc_id c = rc_id rc) (minted (tn_id t) (w_now s))
      (upd_where (mintable (rc_id rc)) (claimed (w_now s)) (w_cases s))"
  using assms unfolding mint_transaction_def transaction_ok
  by (auto simp: bindE_ok claim_case_ok insert_successor_ok set_status_def writeE_ok update_case_ok ret_ok minted_def [abs_def])

lemma mint_transaction_error: "mint_transaction ctx rc p inp s = (Inl e, u) \<Longrightarrow> u = s"
  unfolding mint_transaction_def by (rule transaction_rolls_back)


lemma mint_spends_case:
  assumes "mint_transaction ctx rc p inp s = (Inr t, u)"
  shows "count_where (mintable (rc_id rc)) (w_cases u) = 0"
  unfolding mint_transactionD(5) [OF assms] count_where_0_iff set_upd_where
  by (auto simp: mintable_def minted_def claimed_def)

lemma renewed_keeps_link: "tn_renewsFromTenancyId (if q then renewed_status r else r) = tn_renewsFromTenancyId r"
  by simp

lemma successor_links:
  assumes "mint_transaction ctx rc p inp s = (Inr t, u)"
  shows "count_where (\<lambda>t. tn_renewsFromTenancyId t = Some i) (w_tenancies u) =
    count_where (\<lambda>t. tn_renewsFromTenancyId t = Some i) (w_tenancies s) + (if i = tn_id p then 1 else 0)"
  unfolding mint_transactionD(4) [OF assms] count_where_upd_where renewed_keeps_link
  by (simp add: mint_transactionD(1) [OF assms] successor_row_def)

text \<open>
  C4: a renewal is minted once. The transaction is all or nothing and keeps at most one successor per
  tenancy, from any database. A success found the case agreed and unminted; it appends one active
  tenancy that points back at its predecessor, marks the predecessor renewed and spends the case:
  afterwards no request can mint another successor from the same case, or a second one for the
  same predecessor from any case, and a refused request writes nothing.
\<close>

theorem mint_once:
  assumes "tenancies_ok s" and "one_successor s" and "p \<in> set (w_tenancies s)"
    and "mint_transaction ctx rc p inp s = (r, u)"
  shows "one_successor u \<and>
    (case r of
       Inl e \<Rightarrow> u = s
     | Inr t \<Rightarrow> t \<in> set (w_tenancies u) \<and> length (w_tenancies u) = Suc (length (w_tenancies s)) \<and>
         tn_status t = T_ACTIVE \<and> tn_renewsFromTenancyId t = Some (tn_id p) \<and>
         renewed_status p \<in> set (w_tenancies u) \<and>
         count_where (mintable (rc_id rc)) (w_cases s) = 1 \<and>
         (\<forall>ctx' rc' p' inp'. rc_id rc' = rc_id rc \<or> tn_id p' = tn_id p \<longrightarrow>
            (\<exists>e. mint_transaction ctx' rc' p' inp' u = (Inl e, u))))"
proof (cases r)
  case (Inl e)
  then show ?thesis using assms mint_transaction_error [of ctx rc p inp s e u] by simp
next
  case (Inr t)
  have run: "mint_transaction ctx rc p inp s = (Inr t, u)" using assms(4) Inr by simp
  note D = mint_transactionD [OF run]
  have fresh: "tn_id t = w_next s" "tn_id p < w_next s"
    using D(1) assms(1,3) by (simp_all add: successor_row_def tenancies_ok_def)
  have none: "count_where (\<lambda>t. tn_renewsFromTenancyId t = Some (tn_id p)) (w_tenancies s) = 0"
    using D(3) by (simp add: count_where_0_iff)
  have one: "one_successor u"
    unfolding one_successor_def successor_links [OF run] using none assms(2) by (simp add: one_successor_def)
  have again: "\<exists>e. mint_transaction ctx' rc' p' inp' u = (Inl e, u)"
    if same: "rc_id rc' = rc_id rc \<or> tn_id p' = tn_id p" for ctx' rc' p' inp'
  proof (cases "mint_transaction ctx' rc' p' inp' u")
    case (Pair r' v)
    have "\<not> (\<exists>t'. r' = Inr t')"
    proof
      assume "\<exists>t'. r' = Inr t'"
      then obtain t' where second: "mint_transaction ctx' rc' p' inp' u = (Inr t', v)" using Pair by blast
      have "count_where (\<lambda>t. tn_renewsFromTenancyId t = Some (tn_id p')) (w_tenancies u) = 0"
        using mint_transactionD(3) [OF second] by (simp add: count_where_0_iff)
      then have "tn_id p' \<noteq> tn_id p" using successor_links [OF run, of "tn_id p'"] by auto
      moreover have "rc_id rc' \<noteq> rc_id rc"
        using mint_transactionD(2) [OF second] mint_spends_case [OF run] by auto
      ultimately show False using same by blast
    qed
    then obtain e where "r' = Inl e" by (cases r') auto
    then show ?thesis using Pair mint_transaction_error [of ctx' rc' p' inp' u e v] by simp
  qed
  have mem: "t \<in> set (w_tenancies u)" "renewed_status p \<in> set (w_tenancies u)"
    using D(4) fresh assms(3) by (auto simp: set_upd_where image_iff intro: bexI [of _ p])
  show ?thesis
    unfolding Inr sum.case
  proof (intro conjI one mem)
    show "length (w_tenancies u) = Suc (length (w_tenancies s))" using D(4) by simp
    show "tn_status t = T_ACTIVE" "tn_renewsFromTenancyId t = Some (tn_id p)"
      using D(1) by (simp_all add: successor_row_def)
    show "count_where (mintable (rc_id rc)) (w_cases s) = 1" by (rule D(2))
    show "\<forall>ctx' rc' p' inp'. rc_id rc' = rc_id rc \<or> tn_id p' = tn_id p \<longrightarrow>
            (\<exists>e. mint_transaction ctx' rc' p' inp' u = (Inl e, u))"
      using again by blast
  qed
qed

definition sample_mint :: mint_input where
  "sample_mint = \<lparr> mt_renewalCaseId = 81, mt_startDate = 1798761600000, mt_endDate = 1830211200000,
     mt_annualRent = 95000, mt_contractDocId = None, mt_paymentTermsNote = None, mt_noticePeriodDays = None,
     mt_chequeCount = Some 4 \<rparr>"

theorem mint_once_witness:
  "\<exists>t u. mint_transaction (sample_ctx MANAGER) sample_case sample_tenancy sample_mint
      (deal_world\<lparr>w_cases := [sample_case\<lparr>rc_status := R_AGREED\<rparr>]\<rparr>) = (Inr t, u) \<and>
     tn_renewsFromTenancyId t = Some 51 \<and> one_successor u"
proof -
  let ?s = "deal_world\<lparr>w_cases := [sample_case\<lparr>rc_status := R_AGREED\<rparr>]\<rparr>"
  have ids: "tn_id sample_tenancy = 51" "tn_renewsFromTenancyId sample_tenancy = None" "rc_id sample_case = 81"
    "rc_renewedTenancyId sample_case = None"
    by (simp_all add: sample_tenancy_def sample_case_def)
  have "w_next deal_world = 1000"
    by (simp add: deal_world_def) (simp add: sample_world_def sample_users_def empty_world_def)
  then have ok: "tenancies_ok ?s" "one_successor ?s" "sample_tenancy \<in> set (w_tenancies ?s)"
    using ids by (simp_all add: tenancies_ok_def one_successor_def deal_find)
  obtain t u where run: "mint_transaction (sample_ctx MANAGER) sample_case sample_tenancy sample_mint ?s = (Inr t, u)"
    using ids by (simp add: mint_transaction_def transaction_def bindE_apply claim_case_def getNow_eval readE_eval writeE_eval
      assertE_eval insert_successor_def deal_find newId_eval ret_eval Let_def set_status_def update_case_def active_clash_def)
  show ?thesis using mint_once [OF ok run] run ids by auto
qed

text \<open>
  a completed renewal can be reopened. \<open>proposeOffer\<close> never looks at the status of the case: on a
  renewed case whose successor tenancy exists it succeeds, and the case is back in negotiation.
\<close>

theorem proposeOffer_reopens_completed_case:
  "\<exists>ctx inp s rc f u. rc \<in> set (w_cases s) \<and> rc_id rc = oi_renewalCaseId inp \<and> rc_status rc = R_RENEWED \<and>
     rc_renewedTenancyId rc \<noteq> None \<and> proposeOffer ctx inp s = (Inr f, u) \<and>
     (\<exists>rc' \<in> set (w_cases u). rc_id rc' = rc_id rc \<and> rc_status rc' = R_NEGOTIATING \<and>
        rc_renewedTenancyId rc' = rc_renewedTenancyId rc)"
proof -
  define rc where "rc = sample_case\<lparr>rc_status := R_RENEWED, rc_renewedTenancyId := Some 52\<rparr>"
  define s where "s = deal_world\<lparr>w_cases := [rc], w_offers := []\<rparr>"
  define inp where "inp = \<lparr> oi_renewalCaseId = 81, oi_party = OP_LANDLORD, oi_annualRent = 95000,
    oi_paymentSchedule = ''1'', oi_paymentMethod = None, oi_termMonths = None, oi_startDate = None,
    oi_note = None, oi_viaSecureLinkId = None \<rparr>"
  have rc: "rc_id rc = 81" "rc_workspaceId rc = 5" "rc_tenancyId rc = 51" "rc_status rc = R_RENEWED"
    "rc_renewedTenancyId rc = Some 52" by (simp_all add: rc_def sample_case_def)
  have get: "getTenancy (sample_ctx MANAGER) 51 s = (Inr sample_tenancy, s)"
    by (rule manager_getTenancy) (simp_all add: s_def deal_find sample_tenancy_def)
  have verb: "audit_verb_ok ''renewal.propose_offer''" by (simp add: audit_verb_ok_def verb_char_def)
  define f where "f = offer_row (w_next s) (w_now s) 5 rc 1 inp (Some 1) (resolveRenewalIndexCapture rc s)"
  define rc' where "rc' = rc\<lparr>rc_status := R_NEGOTIATING, rc_currentOfferId := Some (w_next s), rc_updatedAt := w_now s\<rparr>"
  define s1 where "s1 = s\<lparr>w_next := Suc (w_next s), w_offers := [f], w_cases := [rc']\<rparr>"
  have get1: "getTenancy (sample_ctx MANAGER) 51 s1 = (Inr sample_tenancy, s1)"
    by (rule manager_getTenancy) (simp_all add: s1_def s_def deal_find sample_tenancy_def)
  have "tn_status sample_tenancy = T_ACTIVE" by (simp add: sample_tenancy_def)
  then obtain v where move: "tryMoveTenancy (sample_ctx MANAGER) 51 T_NEGOTIATING s1 = (Inr (), v)" "w_cases v = [rc']"
    using get1 by (simp add: tryMoveTenancy_def catchE_def setTenancyStatus_def bindE_apply requireCap_def
      assertE_eval manager_can set_status_def writeE_eval recordEvidence_def status_evidence_def evidence_by_def
      evidenceOf_def manager_ctx getNow_eval newId_eval ret_eval s1_def)
  obtain v1 ev where log: "recordEvidence (about 51 (rc_propertyId rc) (evidence_by (sample_ctx MANAGER) EV_OFFER_PROPOSED
      S_OFFER (Some (w_next s)) (JObj [(''version'', JNum (of_int 1)), (''party'', JStr ''LANDLORD''),
        (''annualRent'', JNum 95000), (''paymentSchedule'', JStr ''1'')]))) v = (Inr ev, v1)" "w_cases v1 = [rc']"
    using move(2) by (simp add: recordEvidence_def about_def evidence_by_def evidenceOf_def op_defs newId_def getNow_def)
  obtain v2 au where audit: "recordAudit (audit_by (sample_ctx MANAGER) ''renewal.propose_offer'' ''Offer'' (Some (w_next s))) v1 =
      (Inr au, v2)" "w_cases v2 = [rc']"
    using log(2) verb by (simp add: recordAudit_def audit_by_def auditOf_def op_defs newId_def getNow_def)
  obtain u where risk: "evaluateRenewalRisk 81 v2 = (Inr (), u)"
    using outcome_evaluate(2) [of 81] by (auto simp: never_fails_def)
  have cases: "w_cases u = [rc']"
    using sameD [OF frames_flags(7) risk, of w_cases] audit(2) by simp
  have "proposeOffer (sample_ctx MANAGER) inp s = (Inr f, u)"
  proof -
    have "find_case 81 s = Some rc" using rc by (simp add: s_def find_case_def)
    moreover have "supersede (\<lambda>f. of_renewalCaseId f = Some 81) s = (Inr (), s)"
      by (simp add: supersede_def writeE_eval s_def)
    moreover have "next_version (\<lambda>f. of_renewalCaseId f = Some 81) s = 1"
      by (simp add: next_version_def s_def)
    moreover have "update_case 81 (\<lambda>c. c\<lparr>rc_status := R_NEGOTIATING, rc_currentOfferId := Some (w_next s)\<rparr>)
        (s\<lparr>w_next := Suc (w_next s), w_offers := [f]\<rparr>) = (Inr (), s1)"
      using rc by (simp add: update_case_def bindE_apply getNow_eval readE_eval assertE_eval writeE_eval s1_def s_def
        rc'_def active_clash_def)
    moreover have "w_offers s = []" by (simp add: s_def)
    ultimately show ?thesis
      using get move log audit risk rc
      by (simp add: proposeOffer_def bindE_apply requireCap_def assertE_eval manager_can readE_eval liftE_eval
        assertSameWorkspace_def manager_ctx someE_eval getNow_eval newId_eval writeE_eval Let_def ret_eval inp_def f_def)
  qed
  moreover have "rc \<in> set (w_cases s)" by (simp add: s_def)
  moreover have "rc_id rc' = 81" "rc_status rc' = R_NEGOTIATING" "rc_renewedTenancyId rc' = Some 52"
    using rc by (simp_all add: rc'_def)
  ultimately show ?thesis
    using rc cases by (intro exI [of _ "sample_ctx MANAGER"] exI [of _ inp] exI [of _ s] exI [of _ rc] exI [of _ f] exI [of _ u])
      (simp add: inp_def)
qed

subsection \<open>The frozen citation\<close>

lemma supersede_captures:
  "supersede p s = (Inr x, u) \<Longrightarrow> \<forall>rc. resolveRenewalIndexCapture rc u = resolveRenewalIndexCapture rc s"
  by (auto simp: supersede_def writeE_ok resolveRenewalIndexCapture_def split: option.split)

lemma proposeOffer_row:
  assumes "proposeOffer ctx inp s = (Inr f, u)"
  shows "\<exists>i now version rc. find_case (oi_renewalCaseId inp) s = Some rc \<and>
    f = offer_row i now (cx_workspaceId ctx) rc version inp (Some (cx_userId ctx)) (resolveRenewalIndexCapture rc s)"
proof -
  obtain rc x u1 i now version where found: "find_case (oi_renewalCaseId inp) s = Some rc"
    and sup: "supersede (\<lambda>f. of_renewalCaseId f = Some (rc_id rc)) s = (Inr x, u1)"
    and f: "f = offer_row i now (cx_workspaceId ctx) rc version inp (Some (cx_userId ctx)) (resolveRenewalIndexCapture rc u1)"
    using assms unfolding proposeOffer_def Let_def
    by (clarsimp simp only: bindE_ok readE_ok writeE_ok assertE_ok someE_ok liftE_ok ret_ok requireCap_def
      getTenancy_ok newId_ok getNow_ok)
  show ?thesis using found f supersede_captures [OF sup] by auto
qed

text \<open>
  the tenant sees what the offer was assessed against. Whatever happened to the captures since,
  the page behind the tenant's link shows the market rent, the capture moment, the source, the
  provisional mark and the permitted maximum of the capture that applied to the case when the
  offer was proposed, as they survive the JSON of the offer's citation.
\<close>

theorem tenant_sees_frozen_index:
  assumes "proposeOffer ctx inp s = (Inr f, u)" and "find_case (oi_renewalCaseId inp) s = Some rc"
    and "resolveRenewalIndexCapture rc s = Some c"
    and "find_offer (sl_scopeId link) v = Some f" and "getOfferForLink link v = Some w"
  shows "tv_proposedRent w = money (oi_annualRent inp) \<and> tv_marketRentAvg w = Some (ri_marketRentAvg c) \<and>
    tv_indexCapturedAt w = Some (ri_capturedAt c) \<and> tv_indexSourceLabel w = Some (ri_source c) \<and>
    tv_indexProvisional w = (ri_indexSource c = Some IX_MANUAL_CONCIERGE) \<and>
    tv_permittedMax w = ri_permittedNewRentMax c"
proof -
  obtain i now version where f: "f = offer_row i now (cx_workspaceId ctx) rc version inp (Some (cx_userId ctx)) (Some c)"
    using proposeOffer_row [OF assms(1)] assms(2,3) by auto
  show ?thesis
    using assms(4,5) unfolding getOfferForLink_def
    by (auto simp: f offer_row_def cited_def indexCitationFrom_def json_number_def json_date_def json_string_def
      split: if_splits option.splits)
qed

end
