(* ===== verification/Notices.thy ===== *)
theory Notices
  imports Negotiation
begin

text \<open>
  \<open>services/notice.ts\<close>: the landlord's notice on a renewal case, drafted, approved and served. A
  notice is served only with a proof of service; without one the attempt is recorded and nothing
  else moves.
\<close>

subsection \<open>Drafting and approving\<close>

record prepare_input =
  pn_renewalCaseId :: uid
  pn_kind :: noticeKind
  pn_templateCode :: "string option"
  pn_templateVersion :: "string option"
  pn_docId :: "uid option"

definition find_notice :: "uid \<Rightarrow> world \<Rightarrow> notice option" where
  "find_notice i s = List.find (\<lambda>n. nt_id n = i) (w_notices s)"

definition update_notice :: "uid \<Rightarrow> (notice \<Rightarrow> notice) \<Rightarrow> unit svc" where
  "update_notice i f =
     thenE (bindE (readE (find_notice i)) (\<lambda>n. assertE (n \<noteq> None) RecordNotFound))
       (writeE (\<lambda>s. s\<lparr>w_notices := upd_where (\<lambda>n. nt_id n = i) f (w_notices s)\<rparr>))"

fun noticeKind_name :: "noticeKind \<Rightarrow> string" where
  "noticeKind_name NK_RENEWAL_CHANGE = ''RENEWAL_CHANGE''"
| "noticeKind_name NK_NON_RENEWAL = ''NON_RENEWAL''"

fun noticeStatus_name :: "noticeStatus \<Rightarrow> string" where
  "noticeStatus_name N_GENERATED = ''GENERATED''"
| "noticeStatus_name N_APPROVED = ''APPROVED''"
| "noticeStatus_name N_SERVICE_RECORDED_PENDING_EVIDENCE = ''SERVICE_RECORDED_PENDING_EVIDENCE''"
| "noticeStatus_name N_SERVED = ''SERVED''"
| "noticeStatus_name N_WITHDRAWN = ''WITHDRAWN''"

fun serviceMethod_name :: "serviceMethod \<Rightarrow> string" where
  "serviceMethod_name SM_EMAIL = ''EMAIL''"
| "serviceMethod_name SM_COURIER = ''COURIER''"
| "serviceMethod_name SM_IN_PERSON = ''IN_PERSON''"
| "serviceMethod_name SM_REGISTERED_POST = ''REGISTERED_POST''"
| "serviceMethod_name SM_OTHER = ''OTHER''"

definition notice_row :: "uid \<Rightarrow> time \<Rightarrow> uid \<Rightarrow> prepare_input \<Rightarrow> notice" where
  "notice_row i now ws inp =
     \<lparr> nt_id = i, nt_workspaceId = ws, nt_renewalCaseId = pn_renewalCaseId inp, nt_kind = pn_kind inp,
       nt_status = N_GENERATED, nt_generatedAt = now, nt_approvedAt = None, nt_approvedById = None,
       nt_servedAt = None, nt_servedById = None, nt_serviceMethod = None, nt_serviceRef = None,
       nt_docId = pn_docId inp, nt_attestation = None, nt_attestedById = None, nt_attestedAt = None,
       nt_templateCode = pn_templateCode inp, nt_templateVersion = pn_templateVersion inp,
       nt_archivedAt = None, nt_createdAt = now \<rparr>"

definition case_evidence :: "authz_ctx \<Rightarrow> evidenceType \<Rightarrow> renewal_case \<Rightarrow> json \<Rightarrow> evidence_input" where
  "case_evidence ctx ty rc payload =
     about (rc_tenancyId rc) (rc_propertyId rc) (evidence_by ctx ty S_RENEWAL_CASE (Some (rc_id rc)) payload)"

definition prepareNotice :: "authz_ctx \<Rightarrow> prepare_input \<Rightarrow> notice svc" where
  "prepareNotice ctx inp =
     thenE (requireCap ctx ''renewals.decide'')
     (bindE (readE (find_case (pn_renewalCaseId inp))) (\<lambda>found.
      thenE (liftE (assertSameWorkspace ctx (map_option rc_workspaceId found)))
      (bindE (someE notFound found) (\<lambda>rc.
      thenE (getTenancy ctx (rc_tenancyId rc))
      (bindE getNow (\<lambda>now. bindE newId (\<lambda>i.
       let n = notice_row i now (cx_workspaceId ctx) inp in
       thenE (writeE (\<lambda>s. s\<lparr>w_notices := w_notices s @ [n]\<rparr>))
       (thenE (update_case (pn_renewalCaseId inp) (\<lambda>c. c\<lparr>rc_currentNoticeId := Some i\<rparr>))
       (bindE (recordEvidence (case_evidence ctx EV_NOTICE_GENERATED rc
           (JObj [(''noticeId'', JId i), (''kind'', JStr (noticeKind_name (pn_kind inp))),
                  (''templateCode'', jopt JStr (pn_templateCode inp))]))) (\<lambda>_.
        bindE (recordAudit (audit_by ctx ''notice.prepare'' ''Notice'' (Some i))) (\<lambda>_. ret n)))))))))))"

definition approveNotice :: "authz_ctx \<Rightarrow> uid \<Rightarrow> notice svc" where
  "approveNotice ctx noticeId =
     thenE (requireCap ctx ''renewals.decide'')
     (bindE (readE (find_notice noticeId)) (\<lambda>found.
      thenE (liftE (assertSameWorkspace ctx (map_option nt_workspaceId found)))
      (bindE (someE notFound found) (\<lambda>n.
      thenE (assertE (nt_status n = N_GENERATED)
        (AuthzError (''Notice cannot be approved from '' @ noticeStatus_name (nt_status n)) 422))
      (bindE (readE (find_case (nt_renewalCaseId n))) (\<lambda>c.
       bindE (someE RecordNotFound c) (\<lambda>rc.
       thenE (getTenancy ctx (rc_tenancyId rc))
       (bindE getNow (\<lambda>now.
        let upd = (\<lambda>n. n\<lparr>nt_status := N_APPROVED, nt_approvedAt := Some now,
                     nt_approvedById := Some (cx_userId ctx)\<rparr>) in
        thenE (update_notice noticeId upd)
        (bindE (recordEvidence (case_evidence ctx EV_NOTICE_APPROVED rc (JObj [(''noticeId'', JId noticeId)]))) (\<lambda>_.
         bindE (recordAudit (audit_by ctx ''notice.approve'' ''Notice'' (Some noticeId))) (\<lambda>_.
         ret (upd n)))))))))))))"

subsection \<open>Serving\<close>

record service_input =
  sv_serviceMethod :: serviceMethod
  sv_serviceRef :: "string option"
  sv_docId :: "uid option"
  sv_attestation :: "string option"

text \<open>\<open>!!input.serviceRef\<close>: a string that is there and not empty.\<close>

definition has_string :: "string option \<Rightarrow> bool" where
  "has_string x = (case x of None \<Rightarrow> False | Some v \<Rightarrow> v \<noteq> [])"

definition hasEvidence :: "service_input \<Rightarrow> bool" where
  "hasEvidence inp \<longleftrightarrow> has_string (sv_serviceRef inp) \<or> sv_docId inp \<noteq> None \<or> has_string (sv_attestation inp)"

definition evidenceForm :: "service_input \<Rightarrow> string" where
  "evidenceForm inp =
     (if sv_docId inp \<noteq> None then ''DOCUMENT''
      else if has_string (sv_serviceRef inp) then ''DELIVERY_REF'' else ''ATTESTATION'')"

definition served :: "uid \<Rightarrow> time \<Rightarrow> service_input \<Rightarrow> notice \<Rightarrow> notice" where
  "served userId servedAt inp n = n\<lparr> nt_status := N_SERVED, nt_servedAt := Some servedAt,
     nt_servedById := Some userId, nt_serviceMethod := Some (sv_serviceMethod inp),
     nt_serviceRef := sv_serviceRef inp, nt_docId := or_keep (sv_docId inp) (nt_docId n),
     nt_attestation := sv_attestation inp,
     nt_attestedById := (if has_string (sv_attestation inp) then Some userId else None),
     nt_attestedAt := (if has_string (sv_attestation inp) then Some servedAt else None) \<rparr>"

definition markNoticeServed ::
    "authz_ctx \<Rightarrow> notice \<Rightarrow> renewal_case \<Rightarrow> tenancyStatus \<Rightarrow> service_input \<Rightarrow> time \<Rightarrow> notice option svc" where
  "markNoticeServed ctx n rc tenancyStatus inp servedAt =
     (let docId = or_keep (sv_docId inp) (nt_docId n) in
      thenE (transaction
        (thenE (update_notice (nt_id n) (\<lambda>m. (served (cx_userId ctx) servedAt inp m)\<lparr>nt_docId := docId\<rparr>))
          (update_case (rc_id rc) (\<lambda>c. c\<lparr>rc_status := R_NOTICE_SERVED, rc_noticeServedAt := Some servedAt,
             rc_noticeDocId := docId\<rparr>))))
      (thenE (whenE (tenancyStatus = T_ACTIVE \<or> tenancyStatus = T_RENEWAL_DUE)
         (bindE (setTenancyStatus ctx (rc_tenancyId rc) T_NOTICE_SERVED) (\<lambda>_. ret ())))
      (bindE (recordEvidence (case_evidence ctx EV_NOTICE_SERVED rc
          (JObj [(''noticeId'', JId (nt_id n)), (''serviceMethod'', JStr (serviceMethod_name (sv_serviceMethod inp))),
                 (''serviceRef'', jopt JStr (sv_serviceRef inp)), (''evidenceForm'', JStr (evidenceForm inp))]))) (\<lambda>_.
       bindE (recordAudit (audit_by ctx ''notice.serve'' ''Notice'' (Some (nt_id n)))) (\<lambda>_.
       thenE (evaluateRenewalRisk (rc_id rc)) (readE (find_notice (nt_id n))))))))"

definition record_pending :: "authz_ctx \<Rightarrow> notice \<Rightarrow> renewal_case \<Rightarrow> service_input \<Rightarrow> notice option svc" where
  "record_pending ctx n rc inp =
     thenE (update_notice (nt_id n) (\<lambda>m. m\<lparr>nt_status := N_SERVICE_RECORDED_PENDING_EVIDENCE,
        nt_serviceMethod := Some (sv_serviceMethod inp), nt_docId := or_keep (sv_docId inp) (nt_docId n)\<rparr>))
     (bindE (recordEvidence (case_evidence ctx EV_NOTICE_SERVICE_RECORDED rc
         (JObj [(''noticeId'', JId (nt_id n)), (''serviceMethod'', JStr (serviceMethod_name (sv_serviceMethod inp))),
                (''pendingEvidence'', JBool True)]))) (\<lambda>_.
      bindE (recordAudit (audit_by ctx ''notice.record_service_pending'' ''Notice'' (Some (nt_id n)))) (\<lambda>_.
      thenE (evaluateRenewalRisk (rc_id rc)) (readE (find_notice (nt_id n))))))"

definition serveNoticeFormal :: "authz_ctx \<Rightarrow> uid \<Rightarrow> service_input \<Rightarrow> time option \<Rightarrow> notice option svc" where
  "serveNoticeFormal ctx noticeId inp servedAt =
     thenE (requireCap ctx ''renewals.decide'')
     (bindE (readE (find_notice noticeId)) (\<lambda>found.
      thenE (liftE (assertSameWorkspace ctx (map_option nt_workspaceId found)))
      (bindE (someE notFound found) (\<lambda>n.
      thenE (assertE (nt_status n = N_APPROVED)
        (AuthzError (''Notice must be APPROVED before service (current: '' @ noticeStatus_name (nt_status n) @ '')'') 422))
      (bindE (readE (find_case (nt_renewalCaseId n))) (\<lambda>c.
       bindE (someE RecordNotFound c) (\<lambda>rc.
       bindE (getTenancy ctx (rc_tenancyId rc)) (\<lambda>t.
       bindE getNow (\<lambda>now.
       if hasEvidence inp
       then markNoticeServed ctx n rc (tn_status t) inp (case servedAt of None \<Rightarrow> now | Some d \<Rightarrow> d)
       else record_pending ctx n rc inp)))))))))"

record confirm_input =
  cf_noticeId :: uid
  cf_serviceMethod :: "serviceMethod option"
  cf_serviceRef :: "string option"
  cf_docId :: "uid option"
  cf_attestation :: "string option"

definition confirm_service :: "notice \<Rightarrow> confirm_input \<Rightarrow> service_input" where
  "confirm_service n inp =
     \<lparr> sv_serviceMethod = (case cf_serviceMethod inp of Some m \<Rightarrow> m
         | None \<Rightarrow> (case nt_serviceMethod n of Some m \<Rightarrow> m | None \<Rightarrow> SM_OTHER)),
       sv_serviceRef = cf_serviceRef inp, sv_docId = cf_docId inp, sv_attestation = cf_attestation inp \<rparr>"

definition confirmNoticeService :: "authz_ctx \<Rightarrow> confirm_input \<Rightarrow> notice option svc" where
  "confirmNoticeService ctx inp =
     thenE (requireCap ctx ''renewals.decide'')
     (bindE (readE (find_notice (cf_noticeId inp))) (\<lambda>found.
      thenE (liftE (assertSameWorkspace ctx (map_option nt_workspaceId found)))
      (bindE (someE notFound found) (\<lambda>n.
      thenE (assertE (nt_status n = N_SERVICE_RECORDED_PENDING_EVIDENCE)
        (AuthzError (''Notice must be pending service evidence to confirm (current: '' @
           noticeStatus_name (nt_status n) @ '')'') 422))
      (thenE (assertE (hasEvidence (confirm_service n inp))
        (AuthzError ''Confirming service needs a delivery reference, a service document, or a signed attestation'' 422))
      (bindE (readE (find_case (nt_renewalCaseId n))) (\<lambda>c.
       bindE (someE RecordNotFound c) (\<lambda>rc.
       bindE (getTenancy ctx (rc_tenancyId rc)) (\<lambda>t.
       bindE getNow (\<lambda>now.
       markNoticeServed ctx n rc (tn_status t) (confirm_service n inp) now))))))))))"

definition serveRenewalNotice :: "authz_ctx \<Rightarrow> uid \<Rightarrow> service_input \<Rightarrow> time option \<Rightarrow> notice option svc" where
  "serveRenewalNotice ctx renewalCaseId inp servedAt =
     bindE (prepareNotice ctx \<lparr> pn_renewalCaseId = renewalCaseId, pn_kind = NK_RENEWAL_CHANGE,
        pn_templateCode = None, pn_templateVersion = None, pn_docId = sv_docId inp \<rparr>) (\<lambda>n.
     thenE (approveNotice ctx (nt_id n)) (serveNoticeFormal ctx (nt_id n) inp servedAt))"

subsection \<open>What every operation keeps\<close>

lemma keeps_update_notice [log_keeps]: "keeps extends (update_notice i f)"
  unfolding update_notice_def by (intro logs.keeps_intros log_keeps keeps_quiet_write) simp_all

lemma keeps_prepareNotice [log_keeps]: "keeps extends (prepareNotice ctx inp)"
  unfolding prepareNotice_def Let_def by (intro logs.keeps_intros log_keeps keeps_quiet_write) simp_all

lemma keeps_approveNotice [log_keeps]: "keeps extends (approveNotice ctx i)"
  unfolding approveNotice_def Let_def by (intro logs.keeps_intros log_keeps)

lemma keeps_markNoticeServed [log_keeps]: "keeps extends (markNoticeServed ctx n rc st inp servedAt)"
  unfolding markNoticeServed_def Let_def by (intro logs.keeps_intros log_keeps)

lemma keeps_record_pending [log_keeps]: "keeps extends (record_pending ctx n rc inp)"
  unfolding record_pending_def by (intro logs.keeps_intros log_keeps)

lemma keeps_serveNoticeFormal [log_keeps]: "keeps extends (serveNoticeFormal ctx i inp servedAt)"
  unfolding serveNoticeFormal_def by (intro logs.keeps_intros log_keeps)

lemma keeps_confirmNoticeService [log_keeps]: "keeps extends (confirmNoticeService ctx inp)"
  unfolding confirmNoticeService_def by (intro logs.keeps_intros log_keeps)

lemma keeps_serveRenewalNotice [log_keeps]: "keeps extends (serveRenewalNotice ctx i inp servedAt)"
  unfolding serveRenewalNotice_def by (intro logs.keeps_intros log_keeps)

subsection \<open>Served means proven\<close>

definition has_proof :: "notice \<Rightarrow> bool" where
  "has_proof n \<longleftrightarrow> has_string (nt_serviceRef n) \<or> nt_docId n \<noteq> None \<or> has_string (nt_attestation n)"

definition proven :: "world \<Rightarrow> bool" where
  "proven s \<longleftrightarrow> (\<forall>n \<in> set (w_notices s). nt_status n = N_SERVED \<longrightarrow> has_proof n)"

definition keeps_proven :: "world \<Rightarrow> world \<Rightarrow> bool" where
  "keeps_proven s t \<longleftrightarrow> (proven s \<longrightarrow> proven t)"

interpretation notice_law: step_law keeps_proven
  by unfold_locales (auto simp: keeps_proven_def)

lemma keeps_proven_same: "keeps (same w_notices) m \<Longrightarrow> keeps keeps_proven m"
  by (auto simp: keeps_def same_def keeps_proven_def proven_def)

lemma keeps_proven_update:
  "(\<And>n. nt_status (f n) = N_SERVED \<Longrightarrow> has_proof (f n)) \<Longrightarrow> keeps keeps_proven (update_notice i f)"
  unfolding update_notice_def
  by (intro notice_law.keeps_intros keeps_writeE) (auto simp: keeps_proven_def proven_def set_upd_where)

lemma frames_update_case [frames]: "(\<And>s n. f (s\<lparr>w_cases := n\<rparr>) = f s) \<Longrightarrow> keeps (same f) (update_case i g)"
  unfolding update_case_def by (intro frame.keeps_intros frames keeps_same_write)

lemma frames_setTenancyStatus [frames]:
  "(\<And>s n. f (s\<lparr>w_tenancies := n\<rparr>) = f s) \<Longrightarrow> (\<And>s n. f (s\<lparr>w_next := n\<rparr>) = f s) \<Longrightarrow>
   (\<And>s n. f (s\<lparr>w_evidence := n\<rparr>) = f s) \<Longrightarrow> keeps (same f) (setTenancyStatus ctx i st)"
  unfolding setTenancyStatus_def set_status_def by (intro frame.keeps_intros frames keeps_same_write)

lemma proven_steps:
  "keeps keeps_proven (requireCap ctx c)" "keeps keeps_proven getNow" "keeps keeps_proven newId"
  "keeps keeps_proven (getTenancy ctx i)" "keeps keeps_proven (update_case i g)"
  "keeps keeps_proven (recordEvidence e)" "keeps keeps_proven (recordAudit a)"
  "keeps keeps_proven (evaluateRenewalRisk i)" "keeps keeps_proven (setTenancyStatus ctx i st)"
  by (intro keeps_proven_same frames; simp)+

lemma keeps_proven_prepare: "keeps keeps_proven (prepareNotice ctx inp)"
  unfolding prepareNotice_def Let_def
  by (intro notice_law.keeps_intros proven_steps keeps_writeE)
    (auto simp: keeps_proven_def proven_def notice_row_def)

lemma keeps_proven_approve: "keeps keeps_proven (approveNotice ctx i)"
  unfolding approveNotice_def Let_def
  by (intro notice_law.keeps_intros proven_steps keeps_proven_update) simp

lemma served_proof:
  "hasEvidence inp \<Longrightarrow> has_proof ((served u t inp n)\<lparr>nt_docId := or_keep (sv_docId inp) d\<rparr>)"
  by (auto simp: hasEvidence_def has_proof_def served_def or_keep_def split: option.splits)

lemma keeps_proven_mark: "hasEvidence inp \<Longrightarrow> keeps keeps_proven (markNoticeServed ctx n rc st inp d)"
  unfolding markNoticeServed_def Let_def
  by (intro notice_law.keeps_intros proven_steps keeps_proven_update served_proof)

lemma keeps_proven_pending: "keeps keeps_proven (record_pending ctx n rc inp)"
  unfolding record_pending_def
  by (intro notice_law.keeps_intros proven_steps keeps_proven_update) simp

lemma keeps_proven_serve: "keeps keeps_proven (serveNoticeFormal ctx i inp d)"
proof -
  have "keeps keeps_proven (if hasEvidence inp then markNoticeServed ctx n rc st inp t else record_pending ctx n rc inp)"
    for n rc st t by (simp add: keeps_proven_mark keeps_proven_pending)
  then show ?thesis
    unfolding serveNoticeFormal_def by (intro notice_law.keeps_bindE notice_law.keeps_readE notice_law.keeps_liftE
      notice_law.keeps_someE notice_law.keeps_assertE proven_steps)
qed

lemma keeps_proven_guarded:
  "(b \<Longrightarrow> keeps keeps_proven m) \<Longrightarrow> keeps keeps_proven (thenE (assertE b e) m)"
  by (cases b) (auto simp: keeps_def op_defs keeps_proven_def)

lemma keeps_proven_confirm: "keeps keeps_proven (confirmNoticeService ctx inp)"
  unfolding confirmNoticeService_def
  by (intro keeps_proven_guarded keeps_proven_mark notice_law.keeps_intros proven_steps)

lemma frames_update_notice [frames]:
  "(\<And>s n. f (s\<lparr>w_notices := n\<rparr>) = f s) \<Longrightarrow> keeps (same f) (update_notice i g)"
  unfolding update_notice_def by (intro frame.keeps_intros frames keeps_same_write)

lemma pending_outcome:
  assumes "record_pending ctx n rc inp s = (Inr r, u)"
  shows "w_cases u = w_cases s \<and> w_tenancies u = w_tenancies s \<and>
    map_option nt_status r = Some N_SERVICE_RECORDED_PENDING_EVIDENCE"
proof -
  let ?f = "\<lambda>m. m\<lparr>nt_status := N_SERVICE_RECORDED_PENDING_EVIDENCE,
        nt_serviceMethod := Some (sv_serviceMethod inp), nt_docId := or_keep (sv_docId inp) (nt_docId n)\<rparr>"
  have "w_cases u = w_cases s" "w_tenancies u = w_tenancies s"
    using assms by (rule sameD [rotated], unfold record_pending_def, intro frame.keeps_intros frames; simp)+
  moreover obtain x1 s1 where upd: "update_notice (nt_id n) ?f s = (Inr x1, s1)"
    and rest: "bindE (recordEvidence (case_evidence ctx EV_NOTICE_SERVICE_RECORDED rc
         (JObj [(''noticeId'', JId (nt_id n)), (''serviceMethod'', JStr (serviceMethod_name (sv_serviceMethod inp))),
                (''pendingEvidence'', JBool True)]))) (\<lambda>_.
      bindE (recordAudit (audit_by ctx ''notice.record_service_pending'' ''Notice'' (Some (nt_id n)))) (\<lambda>_.
      thenE (evaluateRenewalRisk (rc_id rc)) (readE (find_notice (nt_id n))))) s1 = (Inr r, u)"
    using assms unfolding record_pending_def by (subst (asm) bindE_ok) blast
  moreover have "w_notices u = w_notices s1"
    using rest by (rule sameD [rotated]) (intro frame.keeps_intros frames; simp)
  moreover have "r = find_notice (nt_id n) u" using rest by (auto simp only: bindE_ok readE_ok)
  moreover have "map_option nt_status (find_notice (nt_id n) s1) = Some N_SERVICE_RECORDED_PENDING_EVIDENCE"
  proof -
    have s1: "s1 = s\<lparr>w_notices := upd_where (\<lambda>m. nt_id m = nt_id n) ?f (w_notices s)\<rparr>" "find_notice (nt_id n) s \<noteq> None"
      using upd by (auto simp: update_notice_def op_ok)
    then obtain m where m: "List.find (\<lambda>m. nt_id m = nt_id n) (w_notices s) = Some m" by (auto simp: find_notice_def)
    then show ?thesis using find_Some_in [OF m] by (simp add: s1(1) find_notice_def find_upd_where_same)
  qed
  ultimately show ?thesis by (simp add: find_notice_def)
qed

text \<open>
  C6: no notice is ever served without proof. Every operation of the notice service, also the
  composed \<open>serveRenewalNotice\<close> and whatever it returns, keeps the invariant that a served notice
  carries a delivery reference, a document or an attestation; and without a proof the formal
  service leaves the case and the tenancy where they were and the notice pending.
\<close>

theorem served_notice_has_proof:
  assumes "proven s"
  shows "proven (snd (prepareNotice ctx pinp s)) \<and> proven (snd (approveNotice ctx i s)) \<and>
    proven (snd (serveNoticeFormal ctx i inp d s)) \<and> proven (snd (confirmNoticeService ctx cinp s)) \<and>
    proven (snd (serveRenewalNotice ctx k inp d s)) \<and>
    (\<forall>n u. serveNoticeFormal ctx i inp d s = (Inr n, u) \<and> \<not> hasEvidence inp \<longrightarrow>
       w_cases u = w_cases s \<and> w_tenancies u = w_tenancies s \<and>
       map_option nt_status n = Some N_SERVICE_RECORDED_PENDING_EVIDENCE)"
proof -
  have "keeps keeps_proven (serveRenewalNotice ctx k inp d)"
    unfolding serveRenewalNotice_def
    by (intro notice_law.keeps_intros keeps_proven_prepare keeps_proven_approve keeps_proven_serve)
  moreover have "w_cases u = w_cases s \<and> w_tenancies u = w_tenancies s \<and>
       map_option nt_status n = Some N_SERVICE_RECORDED_PENDING_EVIDENCE"
    if run: "serveNoticeFormal ctx i inp d s = (Inr n, u)" "\<not> hasEvidence inp" for n u
    using that by (auto simp: serveNoticeFormal_def op_ok dest: pending_outcome)
  ultimately show ?thesis
    using assms keeps_proven_prepare keeps_proven_approve keeps_proven_serve keeps_proven_confirm
    unfolding keeps_def keeps_proven_def by blast
qed

definition sample_notice :: notice where
  "sample_notice = \<lparr> nt_id = 95, nt_workspaceId = 5, nt_renewalCaseId = 81, nt_kind = NK_RENEWAL_CHANGE,
     nt_status = N_APPROVED, nt_generatedAt = 0, nt_approvedAt = Some 0, nt_approvedById = Some 1,
     nt_servedAt = None, nt_servedById = None, nt_serviceMethod = None, nt_serviceRef = None, nt_docId = None,
     nt_attestation = None, nt_attestedById = None, nt_attestedAt = None, nt_templateCode = None,
     nt_templateVersion = None, nt_archivedAt = None, nt_createdAt = 0 \<rparr>"

definition bare_service :: service_input where
  "bare_service = \<lparr> sv_serviceMethod = SM_COURIER, sv_serviceRef = Some [], sv_docId = None, sv_attestation = None \<rparr>"

theorem served_notice_has_proof_witness:
  "\<exists>n u. serveNoticeFormal (sample_ctx MANAGER) 95 bare_service None (deal_world\<lparr>w_notices := [sample_notice]\<rparr>) =
      (Inr (Some n), u) \<and> nt_status n = N_SERVICE_RECORDED_PENDING_EVIDENCE \<and> w_cases u = [sample_case] \<and> proven u"
proof -
  let ?s = "deal_world\<lparr>w_notices := [sample_notice]\<rparr>"
  have p: "proven ?s" by (simp add: proven_def sample_notice_def)
  have none: "\<not> hasEvidence bare_service" by (simp add: hasEvidence_def bare_service_def has_string_def)
  have n: "nt_id sample_notice = 95" "nt_workspaceId sample_notice = 5" "nt_renewalCaseId sample_notice = 81"
    "nt_status sample_notice = N_APPROVED" "rc_tenancyId sample_case = 51" "rc_id sample_case = 81"
    by (simp_all add: sample_notice_def sample_case_def)
  have get: "getTenancy (sample_ctx MANAGER) 51 ?s = (Inr sample_tenancy, ?s)"
    by (rule manager_getTenancy) (simp_all add: deal_find sample_tenancy_def)
  have "find_case 81 ?s = Some sample_case" using n by (simp add: find_case_def deal_find)
  then have step: "serveNoticeFormal (sample_ctx MANAGER) 95 bare_service None ?s =
      record_pending (sample_ctx MANAGER) sample_notice sample_case bare_service ?s"
    using get n none by (simp add: serveNoticeFormal_def bindE_apply requireCap_def assertE_eval manager_can readE_eval
      liftE_eval assertSameWorkspace_def manager_ctx someE_eval find_notice_def getNow_eval)
  have verb: "audit_verb_ok ''notice.record_service_pending''" by (simp add: audit_verb_ok_def verb_char_def)
  have never: "\<exists>x t. evaluateRenewalRisk 81 v = (Inr x, t)" for v
    using outcome_evaluate(2) [of 81] unfolding never_fails_def by blast
  have "\<exists>r u. record_pending (sample_ctx MANAGER) sample_notice sample_case bare_service ?s = (Inr r, u)"
  proof -
    have "\<not> (ei_actorType (case_evidence (sample_ctx MANAGER) ty sample_case j) \<in> {A_USER, A_STAFF} \<and>
        ei_actorId (case_evidence (sample_ctx MANAGER) ty sample_case j) = None)" for ty j
      by (simp add: case_evidence_def about_def evidence_by_def evidenceOf_def)
    note ev = recordEvidence_eval [OF this]
    have au: "\<exists>x t. recordAudit (audit_by (sample_ctx MANAGER) ''notice.record_service_pending'' ''Notice'' (Some 95)) v = (Inr x, t)" for v
      using verb by (simp add: recordAudit_def audit_by_def auditOf_def op_defs newId_def getNow_def)
    have up: "\<exists>t. update_notice 95 f ?s = (Inr (), t)" for f
      using n by (simp add: update_notice_def op_defs find_notice_def)
    show ?thesis
      unfolding record_pending_def n bindE_ok
      using up ev au never by (auto simp: readE_ok bindE_ok) metis
  qed
  then obtain r u where run: "serveNoticeFormal (sample_ctx MANAGER) 95 bare_service None ?s = (Inr r, u)"
    unfolding step by blast
  then have "w_cases u = [sample_case]" "map_option nt_status r = Some N_SERVICE_RECORDED_PENDING_EVIDENCE" "proven u"
    using served_notice_has_proof [OF p, of "sample_ctx MANAGER" undefined 95 bare_service None undefined 81] none
    by (auto simp: deal_find)
  with run show ?thesis by (cases r) auto
qed

end
