(* ===== verification/Rate_Limit.thy ===== *)
theory Rate_Limit
  imports Schema
begin

text \<open>
  \<open>services/rateLimit.ts\<close>: the fixed-window limiter, one \<open>INSERT ... ON CONFLICT DO UPDATE\<close> per hit.
\<close>

record limit_result =
  lr_ok :: bool
  lr_count :: int
  lr_remaining :: int

text \<open>The \<open>DO UPDATE SET\<close> on an existing row.\<close>

definition roll_window :: "int \<Rightarrow> time \<Rightarrow> rate_limit \<Rightarrow> rate_limit" where
  "roll_window windowMs now r =
     r\<lparr>rl_count := (if now - rl_windowStart r > windowMs then 1 else rl_count r + 1),
       rl_windowStart := (if now - rl_windowStart r > windowMs then now else rl_windowStart r)\<rparr>"

definition consumeRateLimit :: "string \<Rightarrow> int \<Rightarrow> int \<Rightarrow> limit_result svc" where
  "consumeRateLimit key limit windowMs =
     bindE getNow (\<lambda>now.
     bindE (readE (\<lambda>s. List.find (\<lambda>r. rl_key r = key) (w_limits s))) (\<lambda>row.
     let row' = (case row of
           None \<Rightarrow> \<lparr> rl_key = key, rl_windowStart = now, rl_count = 1 \<rparr>
         | Some r \<Rightarrow> roll_window windowMs now r) in
     thenE (writeE (\<lambda>s. s\<lparr>w_limits := (if row = None then w_limits s @ [row']
              else upd_where (\<lambda>r. rl_key r = key) (roll_window windowMs now) (w_limits s))\<rparr>))
       (ret \<lparr> lr_ok = rl_count row' \<le> limit, lr_count = rl_count row',
              lr_remaining = max 0 (limit - rl_count row') \<rparr>)))"

subsection \<open>How much gets through\<close>

text \<open>The hits of one key at the given instants; how many were admitted.\<close>

fun admitted :: "string \<Rightarrow> int \<Rightarrow> int \<Rightarrow> time list \<Rightarrow> world \<Rightarrow> nat" where
  "admitted key limit windowMs [] s = 0"
| "admitted key limit windowMs (now # ts) s =
     (case consumeRateLimit key limit windowMs (s\<lparr>w_now := now\<rparr>) of
        (Inr r, t) \<Rightarrow> (if lr_ok r then 1 else 0) + admitted key limit windowMs ts t
      | (Inl _, t) \<Rightarrow> admitted key limit windowMs ts t)"

definition limit_row :: "string \<Rightarrow> world \<Rightarrow> rate_limit option" where
  "limit_row key s = List.find (\<lambda>r. rl_key r = key) (w_limits s)"

lemma consumeRateLimit_eq:
  assumes "consumeRateLimit key limit windowMs s = (res, t)"
  shows "\<exists>row. limit_row key t = Some row \<and>
    row = (case limit_row key s of None \<Rightarrow> \<lparr> rl_key = key, rl_windowStart = w_now s, rl_count = 1 \<rparr>
           | Some r \<Rightarrow> roll_window windowMs (w_now s) r) \<and>
    res = Inr \<lparr> lr_ok = rl_count row \<le> limit, lr_count = rl_count row,
                lr_remaining = max 0 (limit - rl_count row) \<rparr>"
proof (cases "limit_row key s")
  case None
  with assms show ?thesis
    by (auto simp: consumeRateLimit_def op_defs getNow_def limit_row_def Let_def find_append)
next
  case (Some r)
  have "List.find (\<lambda>r. rl_key r = key) (upd_where (\<lambda>r. rl_key r = key) (roll_window windowMs now) rows) =
      map_option (roll_window windowMs now) (List.find (\<lambda>r. rl_key r = key) rows)" for now rows
    by (induction rows) (auto simp: roll_window_def)
  with Some assms show ?thesis
    by (auto simp: consumeRateLimit_def op_defs getNow_def limit_row_def Let_def)
qed

text \<open>
  What a key can still admit in the interval that begins at \<open>a\<close>: the rest of a window that began
  in it, or the rest of an older window and one full window more.
\<close>

definition allowance :: "int \<Rightarrow> time \<Rightarrow> rate_limit option \<Rightarrow> int" where
  "allowance limit a row =
     (case row of None \<Rightarrow> max 0 limit
      | Some r \<Rightarrow> if a \<le> rl_windowStart r then max 0 (limit - rl_count r)
                  else max 0 limit + max 0 (limit - rl_count r))"

lemma admitted_allowance:
  assumes "sorted ts" and "\<forall>x \<in> set ts. a \<le> x \<and> x \<le> a + windowMs"
    and "\<forall>r. limit_row key s = Some r \<longrightarrow> 0 \<le> rl_count r"
  shows "int (admitted key limit windowMs ts s) \<le> allowance limit a (limit_row key s)"
  using assms
proof (induction ts arbitrary: s)
  case Nil
  then show ?case by (auto simp: allowance_def split: option.splits)
next
  case (Cons now ts)
  obtain res t where c: "consumeRateLimit key limit windowMs (s\<lparr>w_now := now\<rparr>) = (res, t)"
    by fastforce
  have same: "limit_row key (s\<lparr>w_now := now\<rparr>) = limit_row key s" by (simp add: limit_row_def)
  obtain row where row: "limit_row key t = Some row"
    "row = (case limit_row key s of None \<Rightarrow> \<lparr> rl_key = key, rl_windowStart = now, rl_count = 1 \<rparr>
           | Some r \<Rightarrow> roll_window windowMs now r)"
    and res: "res = Inr \<lparr> lr_ok = rl_count row \<le> limit, lr_count = rl_count row,
                lr_remaining = max 0 (limit - rl_count row) \<rparr>"
    using consumeRateLimit_eq [OF c] unfolding same by (auto split: option.splits)
  have cnt: "0 < rl_count row" using Cons.prems(3)
    by (auto simp: row(2) roll_window_def split: option.splits)
  have "int (admitted key limit windowMs ts t) \<le> allowance limit a (Some row)"
    using Cons.IH [of t] Cons.prems cnt row(1) by auto
  moreover have "(if rl_count row \<le> limit then 1 else 0) + allowance limit a (Some row)
      \<le> allowance limit a (limit_row key s)"
    using Cons.prems(2,3)
    by (auto simp: allowance_def row(2) roll_window_def split: option.splits)
  moreover have "admitted key limit windowMs (now # ts) s =
      (if rl_count row \<le> limit then 1 else 0) + admitted key limit windowMs ts t"
    by (simp add: c res)
  ultimately show ?case using row by auto
qed

text \<open>
  however the hits of a key are spaced, at most twice the limit are admitted within any stretch
  of time as long as the window, which is the burst the comment in the code allows; and a key
  that was never seen admits at most the limit in its first window.
\<close>

theorem rate_limit_burst:
  assumes "sorted ts" and "\<forall>x \<in> set ts. a \<le> x \<and> x \<le> a + windowMs" and "0 \<le> limit"
    and "\<forall>r. limit_row key s = Some r \<longrightarrow> 0 \<le> rl_count r"
  shows "int (admitted key limit windowMs ts s) \<le> 2 * limit \<and>
    (limit_row key s = None \<longrightarrow> int (admitted key limit windowMs ts s) \<le> limit)"
  using admitted_allowance [OF assms(1,2,4), of limit] assms(3,4)
  by (auto simp: allowance_def split: option.splits if_splits)

theorem rate_limit_burst_witness:
  "int (admitted ''login'' 2 1000 [0, 10, 20] empty_world) \<le> 2"
proof -
  have "limit_row ''login'' empty_world = None" by (simp add: limit_row_def empty_world_def)
  then show ?thesis
    using rate_limit_burst [of "[0, 10, 20]" 0 1000 2 "''login''" empty_world] by simp
qed

end
