(* ===== verification/Consent.thy ===== *)
theory Consent
  imports Documents
begin

text \<open>
  \<open>services/consent.ts\<close>: the consent to be messaged, a history of grants that a revocation stamps
  and never deletes; with \<open>localizedNoticeVersion\<close> of \<open>lib/noticeLocale.ts\<close>.
\<close>

definition MESSAGING_NOTICE_VERSION :: string where
  "MESSAGING_NOTICE_VERSION = ''messaging_notice_v1''"

datatype consent_target = TG_contact uid | TG_user uid

definition target_of :: "consent_target \<Rightarrow> consent_record \<Rightarrow> bool" where
  "target_of target c \<longleftrightarrow> (case target of TG_contact i \<Rightarrow> cn_contactId c = Some i | TG_user i \<Rightarrow> cn_userId c = Some i)"

fun target_json :: "consent_target \<Rightarrow> string \<times> json" where
  "target_json (TG_contact i) = (''contactId'', JId i)"
| "target_json (TG_user i) = (''userId'', JId i)"

fun consentSource_name :: "consentSource \<Rightarrow> string" where
  "consentSource_name CS_SECURE_LINK = ''SECURE_LINK''"
| "consentSource_name CS_WHATSAPP_OPTIN = ''WHATSAPP_OPTIN''"
| "consentSource_name CS_FORM = ''FORM''"
| "consentSource_name CS_CONTRACT = ''CONTRACT''"

definition assertTargetInWorkspace :: "authz_ctx \<Rightarrow> consent_target \<Rightarrow> unit svc" where
  "assertTargetInWorkspace ctx target =
     (case target of
        TG_contact i \<Rightarrow>
          bindE (readE (\<lambda>s. List.find (\<lambda>c. ct_id c = i) (w_contacts s))) (\<lambda>contact.
            liftE (assertSameWorkspace ctx (map_option ct_workspaceId contact)))
      | TG_user i \<Rightarrow>
          bindE (readE (\<lambda>s. List.find (\<lambda>m. mb_workspaceId m = cx_workspaceId ctx \<and> mb_userId m = i) (w_memberships s)))
            (\<lambda>membership. assertE (membership \<noteq> None) notFound))"

definition consent_row :: "uid \<Rightarrow> time \<Rightarrow> uid \<Rightarrow> consent_target \<Rightarrow> consentSource \<Rightarrow> string \<Rightarrow> uid option \<Rightarrow> consent_record" where
  "consent_row i now ws target source version link =
     \<lparr> cn_id = i, cn_workspaceId = ws,
       cn_contactId = (case target of TG_contact c \<Rightarrow> Some c | TG_user _ \<Rightarrow> None),
       cn_userId = (case target of TG_user u \<Rightarrow> Some u | TG_contact _ \<Rightarrow> None),
       cn_purpose = CP_MESSAGING, cn_source = source, cn_noticeVersion = version,
       cn_secureLinkId = link, cn_grantedAt = now, cn_revokedAt = None \<rparr>"

definition createConsent :: "uid \<Rightarrow> consent_target \<Rightarrow> consentSource \<Rightarrow> string \<Rightarrow> uid option \<Rightarrow> unit svc" where
  "createConsent ws target source version link =
     bindE getNow (\<lambda>now. bindE newId (\<lambda>i.
     writeE (\<lambda>s. s\<lparr>w_consents := w_consents s @ [consent_row i now ws target source version link]\<rparr>)))"

definition grantMessagingConsent :: "authz_ctx \<Rightarrow> consent_target \<Rightarrow> consentSource \<Rightarrow> unit svc" where
  "grantMessagingConsent ctx target source =
     thenE (requireCap ctx ''messaging.manage'')
     (thenE (assertTargetInWorkspace ctx target)
     (thenE (createConsent (cx_workspaceId ctx) target source MESSAGING_NOTICE_VERSION None)
     (bindE (recordEvidence (evidence_by ctx EV_CONSENT_GRANTED S_WORKSPACE (Some (cx_workspaceId ctx))
         (JObj [(''purpose'', JStr ''MESSAGING''), target_json target,
                (''source'', JStr (consentSource_name source))]))) (\<lambda>_. ret ()))))"

text \<open>The active grants of a target in a workspace.\<close>

definition active_consent :: "uid \<Rightarrow> consent_target \<Rightarrow> consent_record \<Rightarrow> bool" where
  "active_consent ws target c \<longleftrightarrow> cn_workspaceId c = ws \<and> target_of target c \<and>
     cn_purpose c = CP_MESSAGING \<and> cn_revokedAt c = None"

definition revokeMessagingConsent :: "authz_ctx \<Rightarrow> consent_target \<Rightarrow> unit svc" where
  "revokeMessagingConsent ctx target =
     thenE (requireCap ctx ''messaging.manage'')
     (thenE (assertTargetInWorkspace ctx target)
     (bindE getNow (\<lambda>now.
      thenE (writeE (\<lambda>s. s\<lparr>w_consents := upd_where (active_consent (cx_workspaceId ctx) target)
               (\<lambda>c. c\<lparr>cn_revokedAt := Some now\<rparr>) (w_consents s)\<rparr>))
     (bindE (recordEvidence (evidence_by ctx EV_CONSENT_REVOKED S_WORKSPACE (Some (cx_workspaceId ctx))
         (JObj [(''purpose'', JStr ''MESSAGING''), target_json target]))) (\<lambda>_. ret ())))))"

definition hasActiveMessagingConsent :: "consent_target \<Rightarrow> uid option \<Rightarrow> world \<Rightarrow> bool" where
  "hasActiveMessagingConsent target workspaceId s \<longleftrightarrow>
     List.find (\<lambda>c. target_of target c \<and> holds_for workspaceId (\<lambda>w. cn_workspaceId c = w) \<and>
       cn_purpose c = CP_MESSAGING \<and> cn_revokedAt c = None) (w_consents s) \<noteq> None"

subsection \<open>The opt-in behind a secure link\<close>

datatype linkLang = LL_en | LL_ar | LL_both

definition localizedNoticeVersion :: "string \<Rightarrow> linkLang \<Rightarrow> string" where
  "localizedNoticeVersion base lang =
     (if lang = LL_ar then base @ ''+ar'' else if lang = LL_both then base @ ''+en-ar'' else base)"

definition recordLinkMessagingOptIn :: "secure_link \<Rightarrow> linkLang \<Rightarrow> unit svc" where
  "recordLinkMessagingOptIn link lang =
     (case sl_contactId link of
        None \<Rightarrow> ret ()
      | Some c \<Rightarrow>
          let noticeVersion = localizedNoticeVersion MESSAGING_NOTICE_VERSION lang in
          thenE (createConsent (sl_workspaceId link) (TG_contact c) CS_WHATSAPP_OPTIN noticeVersion (Some (sl_id link)))
          (bindE (recordEvidence ((evidenceOf (sl_workspaceId link) EV_CONSENT_GRANTED A_TENANT_LINK None
              S_WORKSPACE (Some (sl_workspaceId link)))
              \<lparr>ei_payload := Some (JObj [(''purpose'', JStr ''MESSAGING''), (''contactId'', JId c),
                 (''viaLink'', JBool True), (''noticeVersion'', JStr noticeVersion)])\<rparr>)) (\<lambda>_. ret ())))"

subsection \<open>What a grant and a revocation do\<close>

lemma keeps_createConsent [log_keeps]: "keeps extends (createConsent w t so v l)"
  unfolding createConsent_def by (intro logs.keeps_intros log_keeps keeps_quiet_write) simp_all

lemma keeps_assertTarget [log_keeps]: "keeps extends (assertTargetInWorkspace ctx t)"
  unfolding assertTargetInWorkspace_def by (cases t) (simp; intro logs.keeps_intros log_keeps)+

lemma keeps_consent [log_keeps]:
  "keeps extends (grantMessagingConsent ctx t so)" "keeps extends (revokeMessagingConsent ctx t)"
  "keeps extends (recordLinkMessagingOptIn l g)"
  unfolding grantMessagingConsent_def revokeMessagingConsent_def recordLinkMessagingOptIn_def Let_def
  by (intro logs.keeps_intros log_keeps keeps_quiet_write; simp)+

lemma hasActive_iff:
  "hasActiveMessagingConsent target (Some ws) s \<longleftrightarrow> (\<exists>c \<in> set (w_consents s). active_consent ws target c)"
  by (auto simp: hasActiveMessagingConsent_def active_consent_def find_None_iff holds_for_def)

lemma assertTarget_state: "assertTargetInWorkspace ctx target s = (r, t) \<Longrightarrow> t = s"
  unfolding assertTargetInWorkspace_def
  by (cases target) (auto simp: op_defs split: if_splits)

lemma actor_consent:
  "\<not> (ei_actorType (evidence_by ctx ty sc i p) \<in> {A_USER, A_STAFF} \<and> ei_actorId (evidence_by ctx ty sc i p) = None)"
  by (simp add: evidence_by_def evidenceOf_def)

text \<open>
  consent follows the last decision. A grant either is refused and writes nothing or appends one
  record, after which the subject can be messaged in that workspace; a revocation deletes nothing,
  stamps exactly the active records of the subject in that workspace, leaves none of them active
  and changes nobody's consent in any other workspace.
\<close>

theorem consent_follows_last_decision:
  "(case grantMessagingConsent ctx target source s of
      (Inl e, t) \<Rightarrow> t = s
    | (Inr _, t) \<Rightarrow> hasActiveMessagingConsent target (Some (cx_workspaceId ctx)) t \<and>
        (\<exists>c. w_consents t = w_consents s @ [c] \<and> cn_grantedAt c = w_now s)) \<and>
   (case revokeMessagingConsent ctx target s of
      (Inl e, t) \<Rightarrow> t = s
    | (Inr _, t) \<Rightarrow> \<not> hasActiveMessagingConsent target (Some (cx_workspaceId ctx)) t \<and>
        w_consents t = upd_where (active_consent (cx_workspaceId ctx) target)
          (\<lambda>c. c\<lparr>cn_revokedAt := Some (w_now s)\<rparr>) (w_consents s) \<and>
        {(w, tg). w \<noteq> cx_workspaceId ctx \<and> hasActiveMessagingConsent tg (Some w) t} =
        {(w, tg). w \<noteq> cx_workspaceId ctx \<and> hasActiveMessagingConsent tg (Some w) s})"
proof
  show "case grantMessagingConsent ctx target source s of
      (Inl e, t) \<Rightarrow> t = s
    | (Inr _, t) \<Rightarrow> hasActiveMessagingConsent target (Some (cx_workspaceId ctx)) t \<and>
        (\<exists>c. w_consents t = w_consents s @ [c] \<and> cn_grantedAt c = w_now s)"
    using assertTarget_state [of ctx target s] actor_consent
    by (cases "assertTargetInWorkspace ctx target s"; cases target)
      (auto simp: grantMessagingConsent_def createConsent_def requireCap_def bindE_apply assertE_eval ret_eval
        getNow_eval newId_eval writeE_eval recordEvidence_eval hasActive_iff active_consent_def target_of_def consent_row_def
        split: sum.splits)
next
  let ?upd = "upd_where (active_consent (cx_workspaceId ctx) target) (\<lambda>c. c\<lparr>cn_revokedAt := Some (w_now s)\<rparr>) (w_consents s)"
  have gone: "\<not> (\<exists>c \<in> set ?upd. active_consent (cx_workspaceId ctx) target c)"
    by (auto simp: set_upd_where active_consent_def target_of_def split: consent_target.splits)
  have others: "w \<noteq> cx_workspaceId ctx \<Longrightarrow>
      (\<exists>c \<in> set ?upd. active_consent w tg c) = (\<exists>c \<in> set (w_consents s). active_consent w tg c)" for w tg
    unfolding set_upd_where bex_simps by (rule bex_cong) (auto simp: active_consent_def target_of_def)
  then have worlds: "{(w, tg). w \<noteq> cx_workspaceId ctx \<and> hasActiveMessagingConsent tg (Some w) t} =
      {(w, tg). w \<noteq> cx_workspaceId ctx \<and> hasActiveMessagingConsent tg (Some w) s}" if "w_consents t = ?upd" for t
    unfolding hasActive_iff that by auto
  show "case revokeMessagingConsent ctx target s of
      (Inl e, t) \<Rightarrow> t = s
    | (Inr _, t) \<Rightarrow> \<not> hasActiveMessagingConsent target (Some (cx_workspaceId ctx)) t \<and>
        w_consents t = ?upd \<and>
        {(w, tg). w \<noteq> cx_workspaceId ctx \<and> hasActiveMessagingConsent tg (Some w) t} =
        {(w, tg). w \<noteq> cx_workspaceId ctx \<and> hasActiveMessagingConsent tg (Some w) s}"
    using assertTarget_state [of ctx target s] actor_consent gone
    by (cases "assertTargetInWorkspace ctx target s")
      (simp add: revokeMessagingConsent_def requireCap_def bindE_apply assertE_eval ret_eval
        getNow_eval newId_eval writeE_eval recordEvidence_eval hasActive_iff [of target] worlds split: sum.splits)
qed

end
