(* ===== verification/Outbox.thy ===== *)
theory Outbox
  imports Evidence
begin

text \<open>
  \<open>outbox/index.ts\<close>: the dispatcher of the outbox. A batch of due rows is claimed under a lease,
  handed to the handler of its topic, and flipped to dispatched, back to pending with a backoff, or
  to failed after the fifth attempt. A handler is an operation on the database; the table of
  handlers is an argument (\<open>runner.ts\<close> provides it). The rows another worker holds locked during
  the claim (\<open>FOR UPDATE SKIP LOCKED\<close>) are an argument too.
\<close>

subsection \<open>Terminal payloads\<close>

definition MAX_ATTEMPTS :: int where "MAX_ATTEMPTS = 5"

definition LEASE_MS :: int where "LEASE_MS = 60000"

definition TERMINAL_PAYLOAD_STRIP_KEYS :: "string list" where
  "TERMINAL_PAYLOAD_STRIP_KEYS = [''body'']"

fun scrubTerminalPayload :: "json \<Rightarrow> json" where
  "scrubTerminalPayload (JObj kvs) = JObj (filter (\<lambda>(k, v). k \<notin> set TERMINAL_PAYLOAD_STRIP_KEYS) kvs)"
| "scrubTerminalPayload j = j"

subsection \<open>Claiming\<close>

type_synonym handler = "json \<Rightarrow> string option \<Rightarrow> unit svc"

type_synonym handlers = "string \<Rightarrow> handler option"

definition lease_expired :: "time \<Rightarrow> outbox_entry \<Rightarrow> bool" where
  "lease_expired now r \<longleftrightarrow> ob_status r = OB_processing \<and>
     (case ob_lockedUntil r of None \<Rightarrow> False | Some t \<Rightarrow> t < now)"

definition release :: "outbox_entry \<Rightarrow> outbox_entry" where
  "release r = r\<lparr>ob_status := OB_pending, ob_lockedUntil := None\<rparr>"

definition recoverLeases :: "unit svc" where
  "recoverLeases =
     bindE getNow (\<lambda>now. writeE (\<lambda>s. s\<lparr>w_outbox := upd_where (lease_expired now) release (w_outbox s)\<rparr>))"

definition due :: "time \<Rightarrow> outbox_entry \<Rightarrow> bool" where
  "due now r \<longleftrightarrow> ob_status r = OB_pending \<and> ob_availableAt r \<le> now"

definition due_ids :: "uid list \<Rightarrow> nat \<Rightarrow> time \<Rightarrow> outbox_entry list \<Rightarrow> uid list" where
  "due_ids locked batchSize now rows =
     map ob_id (take batchSize (sort_key ob_availableAt
       (filter (\<lambda>r. due now r \<and> ob_id r \<notin> set locked) rows)))"

definition lease :: "time \<Rightarrow> outbox_entry \<Rightarrow> outbox_entry" where
  "lease now r = r\<lparr>ob_status := OB_processing, ob_lockedUntil := Some (now + LEASE_MS)\<rparr>"

definition claimBatch :: "uid list \<Rightarrow> nat \<Rightarrow> outbox_entry list svc" where
  "claimBatch locked batchSize = transaction
     (bindE getNow (\<lambda>now.
      bindE (readE (\<lambda>s. due_ids locked batchSize now (w_outbox s))) (\<lambda>ids.
      if ids = [] then ret []
      else
        thenE (writeE (\<lambda>s. s\<lparr>w_outbox := upd_where (\<lambda>r. ob_id r \<in> set ids) (lease now) (w_outbox s)\<rparr>))
          (readE (\<lambda>s. filter (\<lambda>r. ob_id r \<in> set ids) (w_outbox s))))))"

subsection \<open>Processing\<close>

definition update_entry :: "uid \<Rightarrow> (outbox_entry \<Rightarrow> outbox_entry) \<Rightarrow> unit svc" where
  "update_entry i f =
     thenE (bindE (readE (\<lambda>s. List.find (\<lambda>r. ob_id r = i) (w_outbox s)))
              (\<lambda>r. assertE (r \<noteq> None) RecordNotFound))
       (writeE (\<lambda>s. s\<lparr>w_outbox := upd_where (\<lambda>r. ob_id r = i) f (w_outbox s)\<rparr>))"

text \<open>The success flip increments the stored counter; the failure flip writes the claimed one plus one.\<close>

definition dispatched :: "outbox_entry \<Rightarrow> outbox_entry \<Rightarrow> outbox_entry" where
  "dispatched entry r = r\<lparr>ob_status := OB_dispatched, ob_attempts := ob_attempts r + 1,
     ob_lockedUntil := None, ob_payload := scrubTerminalPayload (ob_payload entry)\<rparr>"

definition backoff :: "int \<Rightarrow> int" where
  "backoff attempts = 60000 * 2 ^ nat (attempts - 1)"

definition retried :: "outbox_entry \<Rightarrow> time \<Rightarrow> outbox_entry \<Rightarrow> outbox_entry" where
  "retried entry now r =
     (let attempts = ob_attempts entry + 1; failed = MAX_ATTEMPTS \<le> attempts in
      r\<lparr>ob_status := (if failed then OB_failed else OB_pending), ob_attempts := attempts,
        ob_lockedUntil := None, ob_availableAt := now + backoff attempts,
        ob_payload := (if failed then scrubTerminalPayload (ob_payload entry) else ob_payload r)\<rparr>)"

definition handle :: "handlers \<Rightarrow> outbox_entry \<Rightarrow> unit svc" where
  "handle handlers entry =
     bindE (someE (ThrownError (''No handler for topic '' @ ob_topic entry)) (handlers (ob_topic entry)))
       (\<lambda>h. h (ob_payload entry) (ob_idempotencyKey entry))"

definition processEntry :: "handlers \<Rightarrow> outbox_entry \<Rightarrow> unit svc" where
  "processEntry handlers entry =
     catchE (thenE (handle handlers entry) (update_entry (ob_id entry) (dispatched entry)))
       (\<lambda>_. bindE getNow (\<lambda>now. update_entry (ob_id entry) (retried entry now)))"

definition dispatchPending :: "handlers \<Rightarrow> uid list \<Rightarrow> nat \<Rightarrow> nat svc" where
  "dispatchPending handlers locked batchSize =
     thenE recoverLeases
     (bindE (claimBatch locked batchSize) (\<lambda>claimed.
      thenE (forE claimed (processEntry handlers)) (ret (length claimed))))"


subsection \<open>What the dispatcher asks of a handler\<close>

text \<open>
  A handler may enqueue rows of its own, with fresh ids, but leaves the rows that are there alone.
\<close>

definition fresh_rows :: "world \<Rightarrow> world \<Rightarrow> outbox_entry list \<Rightarrow> bool" where
  "fresh_rows s t new \<longleftrightarrow> distinct (map ob_id new) \<and>
     (\<forall>r \<in> set new. w_next s \<le> ob_id r \<and> ob_id r < w_next t \<and> ob_status r = OB_pending \<and> ob_attempts r = 0)"

definition queue_grows :: "world \<Rightarrow> world \<Rightarrow> bool" where
  "queue_grows s t \<longleftrightarrow> w_next s \<le> w_next t \<and> w_now t = w_now s \<and>
     (\<exists>new. w_outbox t = w_outbox s @ new \<and> fresh_rows s t new)"

interpretation queue: step_law queue_grows
proof
  show "queue_grows s s" for s by (simp add: queue_grows_def fresh_rows_def)
next
  fix s t u assume "queue_grows s t" "queue_grows t u"
  then obtain a b where "w_outbox t = w_outbox s @ a" "fresh_rows s t a"
      "w_outbox u = w_outbox t @ b" "fresh_rows t u b"
      and le: "w_next s \<le> w_next t" "w_next t \<le> w_next u" "w_now u = w_now s"
    by (auto simp: queue_grows_def)
  then have "w_outbox u = w_outbox s @ a @ b" "fresh_rows s u (a @ b)"
    by (fastforce simp: fresh_rows_def)+
  with le show "queue_grows s u" by (auto simp: queue_grows_def)
qed

named_theorems queue_keeps

lemma queue_keeps_enqueue [queue_keeps]: "keeps queue_grows (enqueue topic payload av key)"
proof (rule keepsI)
  fix s
  show "queue_grows s (snd (enqueue topic payload av key s))"
    by (simp add: enqueue_def op_defs getNow_def newId_def queue_grows_def fresh_rows_def)
qed

lemma queue_keeps_write:
  assumes "\<And>s. w_outbox (f s) = w_outbox s" and "\<And>s. w_next (f s) = w_next s" and "\<And>s. w_now (f s) = w_now s"
  shows "keeps queue_grows (writeE f)"
  by (rule keeps_writeE) (simp add: queue_grows_def fresh_rows_def assms)

lemma queue_keeps_basic [queue_keeps]:
  "keeps queue_grows newId" "keeps queue_grows getNow" "keeps queue_grows (recordEvidence inp)"
  by (simp_all add: keeps_def queue_grows_def fresh_rows_def newId_def getNow_def recordEvidence_def op_defs)

subsection \<open>The contract of a row\<close>

datatype job = Waiting nat | Held nat | Done | Dead

text \<open>
  What a row promises its producer: at most five attempts, each of them under a lease; a lease that
  expires gives the attempt back; done and dead are final.
\<close>

inductive job_step :: "job \<Rightarrow> job \<Rightarrow> bool" where
  claim: "job_step (Waiting k) (Held k)"
| expire: "job_step (Held k) (Waiting k)"
| finish: "job_step (Held k) Done"
| again: "Suc k < 5 \<Longrightarrow> job_step (Held k) (Waiting (Suc k))"
| give_up: "Suc k = 5 \<Longrightarrow> job_step (Held k) Dead"

inductive_simps job_step_simps [simp]: "job_step Done j" "job_step Dead j"

fun abs_job :: "outbox_entry \<Rightarrow> job" where
  "abs_job r = (case ob_status r of OB_pending \<Rightarrow> Waiting (nat (ob_attempts r))
     | OB_processing \<Rightarrow> Held (nat (ob_attempts r)) | OB_dispatched \<Rightarrow> Done | OB_failed \<Rightarrow> Dead)"

definition terminal :: "outbox_entry \<Rightarrow> bool" where
  "terminal r \<longleftrightarrow> ob_status r = OB_dispatched \<or> ob_status r = OB_failed"

definition sound_row :: "outbox_entry \<Rightarrow> bool" where
  "sound_row r \<longleftrightarrow> 0 \<le> ob_attempts r \<and> ob_attempts r \<le> MAX_ATTEMPTS \<and>
     (ob_status r = OB_failed \<longrightarrow> ob_attempts r = MAX_ATTEMPTS) \<and>
     (\<not> terminal r \<longrightarrow> ob_attempts r < MAX_ATTEMPTS) \<and> (terminal r \<longrightarrow> jget (ob_payload r) ''body'' = None)"

definition outbox_ok :: "world \<Rightarrow> bool" where
  "outbox_ok s \<longleftrightarrow> distinct (map ob_id (w_outbox s)) \<and>
     (\<forall>r \<in> set (w_outbox s). sound_row r \<and> ob_id r < w_next s)"

definition work :: "outbox_entry \<Rightarrow> nat" where
  "work r = (if terminal r then 0 else nat (MAX_ATTEMPTS - ob_attempts r))"

text \<open>
  What the answer \<open>x\<close> of the handler makes of the claimed row \<open>e\<close>, and the jobs it stands for: a
  handler that returns finishes the job, one that throws costs it an attempt.
\<close>

definition settles :: "(error + unit) \<Rightarrow> time \<Rightarrow> outbox_entry \<Rightarrow> outbox_entry \<Rightarrow> bool" where
  "settles x now e r \<longleftrightarrow> r = (case x of Inr _ \<Rightarrow> dispatched e e | Inl _ \<Rightarrow> retried e now e)"

definition outcome :: "(error + unit) \<Rightarrow> job \<Rightarrow> job" where
  "outcome x j = (case j of
       Held k \<Rightarrow> (case x of Inr _ \<Rightarrow> Done | Inl _ \<Rightarrow> if Suc k < 5 then Waiting (Suc k) else Dead)
     | _ \<Rightarrow> j)"

text \<open>
  The claimed rows are processed in turn: the handler of \<open>e\<close> runs in the state the rows before it
  have left.
\<close>

definition served :: "handlers \<Rightarrow> outbox_entry list \<Rightarrow> world \<Rightarrow> outbox_entry \<Rightarrow> outbox_entry \<Rightarrow> bool" where
  "served handlers claimed s e r \<longleftrightarrow> (\<exists>before after u x u'. claimed = before @ e # after \<and>
     forE before (processEntry handlers) s = (Inr (), u) \<and> handle handlers e u = (x, u') \<and>
     settles x (w_now s) e r)"

definition answered :: "handlers \<Rightarrow> outbox_entry list \<Rightarrow> world \<Rightarrow> outbox_entry \<Rightarrow> outbox_entry \<Rightarrow> bool" where
  "answered handlers claimed s e r \<longleftrightarrow> (\<exists>before after u x u'. claimed = before @ e # after \<and>
     forE before (processEntry handlers) s = (Inr (), u) \<and> handle handlers e u = (x, u') \<and>
     abs_job e = Held (nat (ob_attempts e)) \<and> abs_job r = outcome x (abs_job e))"

definition recovered :: "time \<Rightarrow> outbox_entry \<Rightarrow> outbox_entry" where
  "recovered now r = (if lease_expired now r then release r else r)"

text \<open>What a dispatch makes of a row of before, when it claimed \<open>claimed\<close> and ran from \<open>s\<close>.\<close>

definition treated :: "handlers \<Rightarrow> outbox_entry list \<Rightarrow> world \<Rightarrow> outbox_entry \<Rightarrow> outbox_entry \<Rightarrow> bool" where
  "treated handlers claimed s r r' \<longleftrightarrow> (case List.find (\<lambda>e. ob_id e = ob_id r) claimed of
       None \<Rightarrow> r' = recovered (w_now s) r
     | Some e \<Rightarrow> e = lease (w_now s) (recovered (w_now s) r) \<and> answered handlers claimed s e r')"

definition promised :: "outbox_entry \<Rightarrow> outbox_entry \<Rightarrow> bool" where
  "promised r r' \<longleftrightarrow> ob_id r' = ob_id r \<and> job_step\<^sup>*\<^sup>* (abs_job r) (abs_job r') \<and> (terminal r \<longrightarrow> r' = r)"

lemma scrubbed: "jget (scrubTerminalPayload j) ''body'' = None"
  by (cases j rule: scrubTerminalPayload.cases)
    (auto simp: TERMINAL_PAYLOAD_STRIP_KEYS_def map_of_eq_None_iff)

lemma job_step_failed:
  assumes "0 \<le> a" and "a < 5"
  shows "4 \<le> a \<Longrightarrow> job_step (Held (nat a)) Dead"
    and "\<not> 4 \<le> a \<Longrightarrow> job_step (Held (nat a)) (Waiting (Suc (nat a)))"
  using assms by (auto intro!: job_step.intros)

lemma settles_row:
  assumes "settles x now e r" and "sound_row e" and "ob_status e = OB_processing"
  shows "sound_row r" and "ob_id r = ob_id e" and "job_step (abs_job e) (abs_job r)" and "work r < work e"
    and "abs_job r = outcome x (abs_job e)"
  using assms scrubbed [of "ob_payload e"]
  by (auto simp: settles_def dispatched_def retried_def sound_row_def terminal_def work_def MAX_ATTEMPTS_def
      Let_def nat_add_distrib outcome_def split: if_splits sum.splits intro: job_step.finish intro!: job_step_failed)

lemma sum_work_drop:
  "list_all2 (\<lambda>r r'. if q r then g r' < g r else g r' = (g r :: nat)) xs ys \<Longrightarrow>
   sum_list (map g ys) + count_where q xs \<le> sum_list (map g xs)"
  by (induction rule: list_all2_induct) (auto split: if_splits)

lemma release_row:
  assumes "sound_row r"
  shows "sound_row (if lease_expired now r then release r else r)"
    and "work (if lease_expired now r then release r else r) = work r"
    and "job_step\<^sup>*\<^sup>* (abs_job r) (abs_job (if lease_expired now r then release r else r))"
    and "terminal r \<Longrightarrow> \<not> lease_expired now r"
  using assms by (auto simp: sound_row_def release_def lease_expired_def terminal_def work_def
      intro: job_step.expire r_into_rtranclp)

lemma lease_row:
  assumes "due now r" and "sound_row r"
  shows "sound_row (lease now r)" "ob_status (lease now r) = OB_processing" "work (lease now r) = work r"
    "job_step (abs_job r) (abs_job (lease now r))" "ob_id (lease now r) = ob_id r"
  using assms by (auto simp: due_def lease_def sound_row_def terminal_def work_def intro: job_step.claim)

definition advanced :: "(outbox_entry \<Rightarrow> bool) \<Rightarrow> outbox_entry \<Rightarrow> outbox_entry \<Rightarrow> bool" where
  "advanced q r r' \<longleftrightarrow> sound_row r' \<and> ob_id r' = ob_id r \<and>
     (if q r then work r' < work r else work r' = work r) \<and>
     job_step\<^sup>*\<^sup>* (abs_job r) (abs_job r') \<and> (terminal r \<longrightarrow> r' = r)"

locale dispatcher =
  fixes handlers :: handlers
  assumes handler_law: "handlers topic = Some h \<Longrightarrow> keeps queue_grows (h payload key)"
begin

lemma keeps_handle: "keeps queue_grows (handle handlers e)"
  unfolding handle_def someE_def bindE_def throw_def ret_def keeps_def
  using handler_law queue.refl by (auto simp: keeps_def split: option.splits)

lemma processEntry_settles:
  assumes rows: "distinct (map ob_id (w_outbox s))" "\<forall>r \<in> set (w_outbox s). ob_id r < w_next s"
    and e: "e \<in> set (w_outbox s)"
  obtains x s' e' where "handle handlers e s = (x, s')" and "queue_grows s s'" and "settles x (w_now s) e e'"
    and "processEntry handlers e s = (Inr (), s'\<lparr>w_outbox := upd_where (\<lambda>r. r = e) (\<lambda>_. e') (w_outbox s')\<rparr>)"
proof -
  obtain r s' where run: "handle handlers e s = (r, s')" by (cases "handle handlers e s")
  then have grows: "queue_grows s s'" by (rule keepsD [OF keeps_handle])
  then obtain new where new: "w_outbox s' = w_outbox s @ new" "fresh_rows s s' new" "w_now s' = w_now s"
    by (auto simp: queue_grows_def)
  have "ob_id x = ob_id e \<Longrightarrow> x = e" if "x \<in> set (w_outbox s')" for x
  proof (cases "x \<in> set new")
    case True
    then have "w_next s \<le> ob_id x" using new by (simp add: fresh_rows_def)
    moreover have "ob_id e < w_next s" using e rows by simp
    ultimately show "ob_id x = ob_id e \<Longrightarrow> x = e" by simp
  next
    case False
    then show "ob_id x = ob_id e \<Longrightarrow> x = e"
      using that e rows(1) new(1) by (auto simp: distinct_map dest: inj_onD)
  qed
  then have same: "ob_id x = ob_id e \<longleftrightarrow> x = e" if "x \<in> set (w_outbox s')" for x
    using that by blast
  then have upd: "upd_where (\<lambda>x. ob_id x = ob_id e) f (w_outbox s') = upd_where (\<lambda>x. x = e) (\<lambda>_. f e) (w_outbox s')" for f
    by (auto simp: upd_where_def)
  have found: "List.find (\<lambda>x. ob_id x = ob_id e) (w_outbox s') \<noteq> None"
    using e new by (auto simp: find_None_iff)
  show ?thesis
  proof (cases r)
    case (Inl err)
    then show ?thesis
      using that [OF run grows, of "retried e (w_now s) e"] run found new(3)
      by (simp add: processEntry_def update_entry_def settles_def op_defs getNow_def upd)
  next
    case (Inr u)
    then show ?thesis
      using that [OF run grows, of "dispatched e e"] run found new(3)
      by (simp add: processEntry_def update_entry_def settles_def op_defs getNow_def upd)
  qed
qed

lemma loop_settles:
  assumes "distinct (map ob_id (w_outbox s))" "\<forall>r \<in> set (w_outbox s). ob_id r < w_next s"
    and "set es \<subseteq> set (w_outbox s)" and "distinct es"
  shows "\<exists>t rows new. forE es (processEntry handlers) s = (Inr (), t) \<and> w_outbox t = rows @ new \<and>
    fresh_rows s t new \<and> w_next s \<le> w_next t \<and> w_now t = w_now s \<and>
    list_all2 (\<lambda>r r'. if r \<in> set es then served handlers es s r r' else r' = r) (w_outbox s) rows"
  using assms
proof (induction es arbitrary: s)
  case Nil
  then show ?case
    by (intro exI [of _ s] exI [of _ "w_outbox s"] exI [of _ "[]"])
      (simp add: ret_def fresh_rows_def list_all2_conv_all_nth)
next
  case (Cons e es)
  then have "e \<in> set (w_outbox s)" by simp
  then obtain x s' e' where x: "handle handlers e s = (x, s')" and s': "queue_grows s s'"
    and e': "settles x (w_now s) e e'"
    and run: "processEntry handlers e s = (Inr (), s'\<lparr>w_outbox := upd_where (\<lambda>r. r = e) (\<lambda>_. e') (w_outbox s')\<rparr>)"
    using processEntry_settles [OF Cons.prems(1,2)] by blast
  then obtain new where new: "w_outbox s' = w_outbox s @ new" "fresh_rows s s' new" "w_next s \<le> w_next s'" "w_now s' = w_now s"
    by (auto simp: queue_grows_def)
  have e'_id: "ob_id e' = ob_id e"
    using e' by (auto simp: settles_def dispatched_def retried_def Let_def split: sum.splits)
  have away: "r \<noteq> e \<and> r \<notin> set es" if "r \<in> set new" for r
  proof -
    have "w_next s \<le> ob_id r" using that new(2) by (simp add: fresh_rows_def)
    moreover have "\<forall>x \<in> set (e # es). ob_id x < w_next s" using Cons.prems(2,3) by blast
    ultimately show ?thesis by force
  qed
  define u where "u = s'\<lparr>w_outbox := upd_where (\<lambda>r. r = e) (\<lambda>_. e') (w_outbox s')\<rparr>"
  have rows_u: "w_outbox u = upd_where (\<lambda>r. r = e) (\<lambda>_. e') (w_outbox s) @ new"
    using away new(1) by (auto simp: u_def upd_where_id)
  have ids: "map ob_id (w_outbox u) = map ob_id (w_outbox s')"
    unfolding u_def by (simp add: upd_where_def e'_id)
  have "\<exists>t rows new'. forE es (processEntry handlers) u = (Inr (), t) \<and> w_outbox t = rows @ new' \<and>
    fresh_rows u t new' \<and> w_next u \<le> w_next t \<and> w_now t = w_now u \<and>
    list_all2 (\<lambda>r r'. if r \<in> set es then served handlers es u r r' else r' = r) (w_outbox u) rows"
  proof (rule Cons.IH)
    show "distinct (map ob_id (w_outbox u))"
      unfolding ids using Cons.prems(1,2) new by (fastforce simp: fresh_rows_def)
    have "\<forall>i \<in> set (map ob_id (w_outbox s')). i < w_next s'"
      using Cons.prems(2) new by (fastforce simp: fresh_rows_def)
    then have "\<forall>i \<in> set (map ob_id (w_outbox u)). i < w_next u"
      unfolding ids by (simp add: u_def)
    then show "\<forall>r \<in> set (w_outbox u). ob_id r < w_next u" by simp
    show "set es \<subseteq> set (w_outbox u)"
      using Cons.prems(3,4) unfolding rows_u by (auto simp: set_upd_where)
    show "distinct es" using Cons.prems(4) by simp
  qed
  then obtain t rows new' where t: "forE es (processEntry handlers) u = (Inr (), t)" "w_outbox t = rows @ new'"
      "fresh_rows u t new'" "w_next u \<le> w_next t" "w_now t = w_now u"
    and all: "list_all2 (\<lambda>r r'. if r \<in> set es then served handlers es u r r' else r' = r) (w_outbox u) rows"
    by blast
  from all obtain xs ys where xs: "rows = xs @ ys"
      "list_all2 (\<lambda>r r'. if r \<in> set es then served handlers es u r r' else r' = r) (upd_where (\<lambda>r. r = e) (\<lambda>_. e') (w_outbox s)) xs"
      "list_all2 (\<lambda>r r'. if r \<in> set es then served handlers es u r r' else r' = r) new ys"
    unfolding rows_u list_all2_append1 by blast
  have ys: "ys = new"
    using xs(3) away by (auto simp: list_all2_conv_all_nth intro: nth_equalityI)
  have e'_es: "e' \<notin> set es"
    using e'_id Cons.prems(1,3,4) by (auto simp: distinct_map dest: inj_onD)
  have first: "served handlers (e # es) s e e'"
    unfolding served_def using x e' by (intro exI [of _ "[]"] exI [of _ es]) (auto simp: ret_def)
  have later: "served handlers (e # es) s r r'" if "served handlers es u r r'" for r r'
  proof -
    from that obtain before after v y v' where v: "es = before @ r # after"
        "forE before (processEntry handlers) u = (Inr (), v)" "handle handlers r v = (y, v')"
        "settles y (w_now u) r r'"
      unfolding served_def by blast
    have "forE (e # before) (processEntry handlers) s = (Inr (), v)"
      using run v(2) by (simp add: bindE_def u_def)
    moreover have "w_now u = w_now s" using new(4) by (simp add: u_def)
    ultimately show ?thesis
      unfolding served_def using v by (intro exI [of _ "e # before"] exI [of _ after]) auto
  qed
  have "list_all2 (\<lambda>r r'. if r \<in> set (e # es) then served handlers (e # es) s r r' else r' = r) (w_outbox s) xs"
    using xs(2) first later e'_es Cons.prems(4)
    by (auto simp: list_all2_conv_all_nth upd_where_def u_def split: if_splits)
  moreover have "fresh_rows s t (new @ new')"
    using new t(3,4) by (fastforce simp: fresh_rows_def u_def)
  moreover have "forE (e # es) (processEntry handlers) s = (Inr (), t)"
    using run t(1) by (simp add: bindE_def u_def)
  moreover have "w_outbox t = xs @ new @ new'" "w_next s \<le> w_next t" "w_now t = w_now s"
    using t(2,4,5) new(3,4) xs(1) ys by (simp_all add: u_def)
  ultimately show ?case
    by (intro exI [of _ t] exI [of _ xs] exI [of _ "new @ new'"]) (simp only: simp_thms)
qed

text \<open>One batch, row by row.\<close>

lemma dispatch_rows:
  fixes locked :: "uid list" and b :: nat
  assumes ok: "outbox_ok s"
  defines "rows1 \<equiv> upd_where (lease_expired (w_now s)) release (w_outbox s)"
  defines "ids \<equiv> due_ids locked b (w_now s) rows1"
  shows "\<exists>es s2 t rows new. thenE recoverLeases (claimBatch locked b) s = (Inr es, s2) \<and> length es = length ids \<and>
    w_now s2 = w_now s \<and> es = map (lease (w_now s)) (filter (\<lambda>r. ob_id r \<in> set ids) rows1) \<and>
    dispatchPending handlers locked b s = (Inr (length ids), t) \<and> w_outbox t = rows @ new \<and>
    fresh_rows s t new \<and> w_next s \<le> w_next t \<and>
    list_all2 (\<lambda>r r'. if ob_id r \<in> set ids then served handlers es s2 (lease (w_now s) r) r' else r' = r) rows1 rows"
proof -
  define s2 where "s2 = s\<lparr>w_outbox := upd_where (\<lambda>r. ob_id r \<in> set ids) (lease (w_now s)) rows1\<rparr>"
  define es where "es = filter (\<lambda>r. ob_id r \<in> set ids) (w_outbox s2)"
  have ids2: "map ob_id (w_outbox s2) = map ob_id (w_outbox s)" "map ob_id rows1 = map ob_id (w_outbox s)"
    by (simp_all add: s2_def rows1_def map_upd_where lease_def release_def)
  have dist: "distinct (map ob_id (w_outbox s2))" and bound: "\<forall>r \<in> set (w_outbox s2). ob_id r < w_next s2"
  proof -
    show "distinct (map ob_id (w_outbox s2))" using ok unfolding ids2 by (simp add: outbox_ok_def)
    have "\<forall>i \<in> set (map ob_id (w_outbox s2)). i < w_next s" using ok unfolding ids2 by (auto simp: outbox_ok_def)
    then show "\<forall>r \<in> set (w_outbox s2). ob_id r < w_next s2" by (simp add: s2_def)
  qed
  have claimed: "length es = length ids"
  proof -
    have sub: "set ids \<subseteq> set (map ob_id rows1)"
      by (auto simp: ids_def due_ids_def dest!: in_set_takeD)
    have "distinct (map ob_id rows1)" using dist ids2 by simp
    then have "distinct (map ob_id (sort_key ob_availableAt (filter P rows1)))" for P
      by (simp add: distinct_map inj_on_def)
    then have "distinct ids"
      unfolding ids_def due_ids_def by (simp add: take_map [symmetric] distinct_take)
    moreover have "distinct (map ob_id es)" using dist unfolding es_def by (simp add: distinct_map_filter)
    moreover have "set (map ob_id es) = set ids"
    proof -
      have "set (map ob_id es) = {i \<in> set (map ob_id (w_outbox s2)). i \<in> set ids}" by (auto simp: es_def)
      with sub show ?thesis unfolding ids2 by auto
    qed
    ultimately have "length (map ob_id es) = length ids" by (metis distinct_card)
    then show ?thesis by simp
  qed
  have take_es: "thenE recoverLeases (claimBatch locked b) s = (Inr es, s2)"
  proof (cases "ids = []")
    case True
    then have "es = []" "s2 = s\<lparr>w_outbox := rows1\<rparr>" by (simp_all add: es_def s2_def upd_where_def)
    with True show ?thesis
      by (simp add: recoverLeases_def claimBatch_def op_defs getNow_def ids_def rows1_def)
  next
    case False
    then show ?thesis
      by (simp add: recoverLeases_def claimBatch_def op_defs getNow_def ids_def rows1_def s2_def es_def)
  qed
  have claim: "thenE recoverLeases (bindE (claimBatch locked b) f) s = f es s2" for f :: "_ \<Rightarrow> nat svc"
    using take_es by (auto simp: bindE_def split: prod.splits sum.splits)
  have leased: "es = map (lease (w_now s)) (filter (\<lambda>r. ob_id r \<in> set ids) rows1)"
    unfolding es_def s2_def upd_where_def by (induction rows1) (auto simp: lease_def)
  have "distinct es" "set es \<subseteq> set (w_outbox s2)"
    using dist by (auto simp: es_def distinct_map)
  then obtain t rows new where t: "forE es (processEntry handlers) s2 = (Inr (), t)" "w_outbox t = rows @ new"
      "fresh_rows s2 t new" "w_next s2 \<le> w_next t" "w_now t = w_now s2"
    and all: "list_all2 (\<lambda>r r'. if r \<in> set es then served handlers es s2 r r' else r' = r) (w_outbox s2) rows"
    using loop_settles [OF dist bound] by blast
  have "dispatchPending handlers locked b s = (Inr (length ids), t)"
    unfolding dispatchPending_def claim using t(1) claimed by (simp add: op_defs)
  moreover have "fresh_rows s t new" "w_next s \<le> w_next t" "w_now s2 = w_now s"
    using t(3-5) by (simp_all add: s2_def fresh_rows_def)
  moreover have "list_all2 (\<lambda>r r'. if ob_id r \<in> set ids then served handlers es s2 (lease (w_now s) r) r' else r' = r) rows1 rows"
    using all by (auto simp: list_all2_conv_all_nth es_def s2_def upd_where_def lease_def split: if_splits)
  ultimately show ?thesis using t(2) take_es leased claimed
    by (intro exI [of _ es] exI [of _ s2] exI [of _ t] exI [of _ rows] exI [of _ new]) (simp only: simp_thms)
qed

lemma dispatch_pointwise:
  fixes locked :: "uid list" and b :: nat
  assumes ok: "outbox_ok s"
  obtains n t rows new q es s2 where "thenE recoverLeases (claimBatch locked b) s = (Inr es, s2)" and "length es = n"
    and "dispatchPending handlers locked b s = (Inr n, t)" and "w_outbox t = rows @ new"
    and "fresh_rows s t new" and "w_next s \<le> w_next t"
    and "n = min b (count_where (\<lambda>r. due (w_now s) r \<and> ob_id r \<notin> set locked)
               (upd_where (lease_expired (w_now s)) release (w_outbox s)))"
    and "n = count_where q (w_outbox s)"
    and "list_all2 (advanced q) (w_outbox s) rows"
    and "list_all2 (treated handlers es s2) (w_outbox s) rows"
proof -
  let ?rel = "\<lambda>r. if lease_expired (w_now s) r then release r else r"
  let ?free = "\<lambda>r. due (w_now s) r \<and> ob_id r \<notin> set locked"
  define rows1 where "rows1 = upd_where (lease_expired (w_now s)) release (w_outbox s)"
  define ids where "ids = due_ids locked b (w_now s) rows1"
  define q where "q r \<longleftrightarrow> ob_id r \<in> set ids" for r :: outbox_entry
  obtain es s2 t rows new where es: "thenE recoverLeases (claimBatch locked b) s = (Inr es, s2)" "length es = length ids"
      "w_now s2 = w_now s" "es = map (lease (w_now s)) (filter q rows1)"
    and t: "dispatchPending handlers locked b s = (Inr (length ids), t)" "w_outbox t = rows @ new"
      "fresh_rows s t new" "w_next s \<le> w_next t"
    and all: "list_all2 (\<lambda>r r'. if q r then served handlers es s2 (lease (w_now s) r) r' else r' = r) rows1 rows"
    using dispatch_rows [OF ok, of locked b] unfolding q_def [abs_def] ids_def rows1_def by blast
  have len: "length ids = min b (count_where ?free rows1)"
    by (simp add: ids_def due_ids_def count_where_def)
  have ids1: "map ob_id rows1 = map ob_id (w_outbox s)"
    by (simp add: rows1_def map_upd_where release_def)
  then have dist: "distinct (map ob_id rows1)" using ok by (simp add: outbox_ok_def)
  define batch where "batch = take b (sort_key ob_availableAt (filter ?free rows1))"
  have ids_batch: "ids = map ob_id batch" by (simp add: ids_def due_ids_def batch_def)
  have batch: "x \<in> set rows1 \<and> ?free x" if "x \<in> set batch" for x
    using in_set_takeD [OF that [unfolded batch_def]] by simp
  have due: "due (w_now s) r" if "r \<in> set rows1" "q r" for r
  proof -
    from that(2) obtain x where "x \<in> set batch" "ob_id x = ob_id r"
      unfolding q_def ids_batch by (metis imageE list.set_map)
    then have x: "x \<in> set rows1" "?free x" "ob_id x = ob_id r" using batch by blast+
    then have "x = r" using that(1) dist by (auto simp: distinct_map dest: inj_onD)
    with x show ?thesis by simp
  qed
  have cnt: "length ids = count_where q (w_outbox s)"
  proof -
    have "distinct (map ob_id (sort_key ob_availableAt (filter ?free rows1)))"
      using dist by (simp add: distinct_map inj_on_def)
    then have "distinct ids" unfolding ids_def due_ids_def by (simp add: take_map [symmetric] distinct_take)
    moreover have "set ids \<subseteq> set (map ob_id (w_outbox s))"
      using batch unfolding ids1 [symmetric] ids_batch by auto
    then have "set (map ob_id (filter q (w_outbox s))) = set ids" by (auto simp: q_def)
    moreover have "distinct (map ob_id (filter q (w_outbox s)))" using ok by (simp add: outbox_ok_def distinct_map_filter)
    ultimately have "length ids = length (map ob_id (filter q (w_outbox s)))" by (metis distinct_card)
    then show ?thesis by (simp add: count_where_def)
  qed
  have found: "List.find (\<lambda>e. ob_id e = ob_id r) es = (if q r then Some (lease (w_now s) (?rel r)) else None)"
    if r: "r \<in> set (w_outbox s)" for r
  proof -
    have rel: "?rel r \<in> set rows1" "ob_id (?rel r) = ob_id r"
      using r by (auto simp: rows1_def set_upd_where release_def)
    have only: "x = ?rel r" if "x \<in> set rows1" "ob_id x = ob_id r" for x
      using that rel dist by (metis distinct_map inj_onD)
    show ?thesis
    proof (cases "q r")
      case True
      then have "lease (w_now s) (?rel r) \<in> set es" using rel unfolding es(4) by (auto simp: q_def)
      then have "List.find (\<lambda>e. ob_id e = ob_id r) es \<noteq> None"
        using rel(2) by (auto simp: find_None_iff lease_def)
      then obtain e where e: "List.find (\<lambda>e. ob_id e = ob_id r) es = Some e" by blast
      then have "e \<in> set es" "ob_id e = ob_id r" by (auto dest: find_Some_in)
      then obtain x where "x \<in> set rows1" "e = lease (w_now s) x" unfolding es(4) by auto
      moreover from this \<open>ob_id e = ob_id r\<close> have "x = ?rel r" by (intro only) (simp_all add: lease_def)
      ultimately show ?thesis using e True by simp
    next
      case False
      then have "ob_id e \<noteq> ob_id r" if "e \<in> set es" for e using that unfolding es(4) by (auto simp: q_def lease_def)
      with False show ?thesis by (simp add: find_None_iff)
    qed
  qed
  have row: "sound_row r' \<and> ob_id r' = ob_id r \<and> (if q r then work r' < work r else work r' = work r) \<and>
      job_step\<^sup>*\<^sup>* (abs_job r) (abs_job r') \<and> (terminal r \<longrightarrow> r' = r) \<and>
      treated handlers es s2 r r'"
    if r: "r \<in> set (w_outbox s)" and r': "if q r then served handlers es s2 (lease (w_now s) (?rel r)) r' else r' = ?rel r" for r r'
  proof -
    have sr: "sound_row r" using r ok by (simp add: outbox_ok_def)
    note R = release_row [OF sr, of "w_now s"]
    have rel_id: "ob_id (?rel r) = ob_id r" by (simp add: release_def)
    have still: "terminal r \<longrightarrow> ?rel r = r" using R(4) by simp
    show ?thesis
    proof (cases "q r")
      case False
      then have "r' = ?rel r" using r' by simp
      moreover from this have "treated handlers es s2 r r'"
        using found [OF r] False es(3) by (simp add: treated_def recovered_def)
      ultimately show ?thesis using R(1-3) rel_id still False by (simp only: if_False simp_thms)
    next
      case True
      have "?rel r \<in> set rows1" using r by (auto simp: rows1_def set_upd_where)
      moreover have "q (?rel r)" using True rel_id by (simp add: q_def)
      ultimately have d: "due (w_now s) (?rel r)" by (rule due)
      note L = lease_row [OF d R(1)]
      let ?e = "lease (w_now s) (?rel r)"
      have "served handlers es s2 ?e r'" using r' True by simp
      then obtain before after u x u' where run: "es = before @ ?e # after"
          "forE before (processEntry handlers) s2 = (Inr (), u)" "handle handlers ?e u = (x, u')"
        and settled: "settles x (w_now s) ?e r'" unfolding served_def es(3) by blast
      note S = settles_row [OF settled L(1,2)]
      have "abs_job ?e = Held (nat (ob_attempts ?e))" using L(2) by simp
      then have "answered handlers es s2 ?e r'"
        unfolding answered_def using run S(5) by blast
      then have "treated handlers es s2 r r'"
        using found [OF r] True es(3) by (simp add: treated_def recovered_def)
      moreover
      have "job_step\<^sup>*\<^sup>* (abs_job r) (abs_job r')"
        using R(3) L(4) S(3) by (meson rtranclp.rtrancl_into_rtrancl)
      moreover have "\<not> terminal r" using d still by (auto simp: due_def terminal_def)
      moreover have "ob_id r' = ob_id r" using S(2) L(5) rel_id by (simp only:)
      moreover have "work r' < work r" using S(4) L(3) R(2) by (simp only:)
      ultimately show ?thesis using S(1) True by (simp only: if_True simp_thms)
    qed
  qed
  have "list_all2 (\<lambda>r r'. advanced q r r' \<and> treated handlers es s2 r r') (w_outbox s) rows"
  proof (rule list_all2_all_nthI)
    show "length (w_outbox s) = length rows" using all by (simp add: list_all2_conv_all_nth rows1_def)
  next
    fix i assume i: "i < length (w_outbox s)"
    then have nth: "rows1 ! i = ?rel (w_outbox s ! i)" by (simp add: rows1_def upd_where_def)
    have same: "q (?rel (w_outbox s ! i)) = q (w_outbox s ! i)" by (simp add: q_def release_def)
    have "i < length rows1" using i by (simp add: rows1_def)
    from list_all2_nthD [OF all this] have "if q (w_outbox s ! i)
        then served handlers es s2 (lease (w_now s) (?rel (w_outbox s ! i))) (rows ! i) else rows ! i = ?rel (w_outbox s ! i)"
      unfolding nth same .
    from row [OF nth_mem [OF i] this] show "advanced q (w_outbox s ! i) (rows ! i) \<and>
        treated handlers es s2 (w_outbox s ! i) (rows ! i)"
      unfolding advanced_def by (elim conjE) (intro conjI; assumption)
  qed
  then have "list_all2 (advanced q) (w_outbox s) rows" "list_all2 (treated handlers es s2) (w_outbox s) rows"
    by (auto elim: list_all2_mono)
  with es t cnt len show thesis
    by (intro that) (simp_all add: rows1_def)
qed

text \<open>The contract, and progress.\<close>

lemma dispatch_refines:
  assumes "outbox_ok s"
  shows "\<exists>claimed s1 t rows new. thenE recoverLeases (claimBatch locked b) s = (Inr claimed, s1) \<and>
    dispatchPending handlers locked b s = (Inr (length claimed), t) \<and> outbox_ok t \<and> w_outbox t = rows @ new \<and>
    list_all2 promised (w_outbox s) rows \<and> list_all2 (treated handlers claimed s1) (w_outbox s) rows \<and>
    (\<forall>r \<in> set new. abs_job r = Waiting 0)"
proof -
  obtain n t rows new q es s2 where es: "thenE recoverLeases (claimBatch locked b) s = (Inr es, s2)" "length es = n"
    and t: "dispatchPending handlers locked b s = (Inr n, t)" "w_outbox t = rows @ new"
      "fresh_rows s t new" "w_next s \<le> w_next t"
    and all: "list_all2 (advanced q) (w_outbox s) rows" and outcomes: "list_all2 (treated handlers es s2) (w_outbox s) rows"
    by (rule dispatch_pointwise [OF assms])
  have ids: "map ob_id rows = map ob_id (w_outbox s)"
    using all by (induction rule: list_all2_induct) (simp_all add: advanced_def)
  have sound: "\<forall>r \<in> set rows. sound_row r"
    using all by (induction rule: list_all2_induct) (simp_all add: advanced_def)
  have "\<forall>i \<in> set (map ob_id rows). i < w_next s" using assms unfolding ids by (simp add: outbox_ok_def)
  then have bound: "\<forall>r \<in> set rows. ob_id r < w_next s" by simp
  have "outbox_ok t"
    unfolding outbox_ok_def t(2)
  proof
    show "distinct (map ob_id (rows @ new))"
      using assms t(3) bound ids by (fastforce simp: outbox_ok_def fresh_rows_def)
    show "\<forall>r \<in> set (rows @ new). sound_row r \<and> ob_id r < w_next t"
      using sound bound t(3,4)
      by (fastforce simp: fresh_rows_def sound_row_def terminal_def MAX_ATTEMPTS_def)
  qed
  moreover have "list_all2 promised (w_outbox s) rows"
    using all by (rule list_all2_mono) (simp add: promised_def advanced_def)
  moreover have "\<forall>r \<in> set new. abs_job r = Waiting 0" using t(3) by (simp add: fresh_rows_def)
  ultimately show ?thesis using t(1,2) es outcomes by blast
qed

lemma dispatch_drains:
  assumes "outbox_ok s"
  shows "\<exists>n t rows new. dispatchPending handlers locked b s = (Inr n, t) \<and> outbox_ok t \<and> w_outbox t = rows @ new \<and>
    length rows = length (w_outbox s) \<and>
    n = min b (count_where (\<lambda>r. due (w_now s) r \<and> ob_id r \<notin> set locked)
          (upd_where (lease_expired (w_now s)) release (w_outbox s))) \<and>
    sum_list (map work rows) + n \<le> sum_list (map work (w_outbox s))"
proof -
  obtain n t rows new q where t: "dispatchPending handlers locked b s = (Inr n, t)" "w_outbox t = rows @ new"
    and n: "n = min b (count_where (\<lambda>r. due (w_now s) r \<and> ob_id r \<notin> set locked)
               (upd_where (lease_expired (w_now s)) release (w_outbox s)))" "n = count_where q (w_outbox s)"
    and all: "list_all2 (advanced q) (w_outbox s) rows"
    by (rule dispatch_pointwise [OF assms])
  have "list_all2 (\<lambda>r r'. if q r then work r' < work r else work r' = work r) (w_outbox s) rows"
    using all by (rule list_all2_mono) (simp add: advanced_def)
  then have "sum_list (map work rows) + n \<le> sum_list (map work (w_outbox s))"
    unfolding n(2) by (rule sum_work_drop)
  moreover have "outbox_ok t" using dispatch_refines [OF assms, of locked b] t(1) by auto
  moreover have "length rows = length (w_outbox s)" using all by (simp add: list_all2_lengthD)
  ultimately show ?thesis using t n(1) by blast
qed

end

end
