(* ===== verification/Delivery.thy ===== *)
theory Delivery
  imports Payments Consent Outbox
begin

text \<open>
  \<open>deliverNotification\<close> of \<open>notify/index.ts\<close>, \<open>notify/whatsappEvents.ts\<close> and the table of handlers of
  \<open>outbox/runner.ts\<close>. The provider adapters (\<open>email.ts\<close> and \<open>whatsapp.ts\<close> over the network) are the
  argument \<open>send\<close>: what the provider answers to a message on a channel; \<open>configured\<close> is
  \<open>whatsappConfigured()\<close>.
\<close>

subsection \<open>Delivering a queued message\<close>

record send_args =
  sa_to :: string
  sa_subject :: "string option"
  sa_body :: string
  sa_idempotencyKey :: "string option"

type_synonym provider = "channel \<Rightarrow> send_args \<Rightarrow> error + string option"

definition json_id :: "json \<Rightarrow> string \<Rightarrow> uid option" where
  "json_id j k = (case jget j k of Some (JId i) \<Rightarrow> Some i | _ \<Rightarrow> None)"

definition json_text :: "json \<Rightarrow> string \<Rightarrow> string option" where
  "json_text j k = (case jget j k of Some (JStr x) \<Rightarrow> Some x | _ \<Rightarrow> None)"

definition find_message :: "uid \<Rightarrow> world \<Rightarrow> notification_message option" where
  "find_message i s = List.find (\<lambda>m. nm_id m = i) (w_messages s)"

definition update_message :: "uid \<Rightarrow> (notification_message \<Rightarrow> notification_message) \<Rightarrow> unit svc" where
  "update_message i f =
     thenE (bindE (readE (find_message i)) (\<lambda>m. assertE (m \<noteq> None) RecordNotFound))
       (writeE (\<lambda>s. s\<lparr>w_messages := upd_where (\<lambda>m. nm_id m = i) f (w_messages s)\<rparr>))"

definition failed :: "notification_message \<Rightarrow> notification_message" where
  "failed m = m\<lparr>nm_status := MS_FAILED\<rparr>"

definition sent :: "string option \<Rightarrow> notification_message \<Rightarrow> notification_message" where
  "sent providerRef m = m\<lparr>nm_status := MS_SENT, nm_providerRef := providerRef\<rparr>"

definition or_value :: "'a option \<Rightarrow> 'a option \<Rightarrow> 'a option" where
  "or_value x y = (if x = None then y else x)"

definition recipient :: "notification_message \<Rightarrow> world \<Rightarrow> user option \<times> contact option" where
  "recipient m s =
     (Option.bind (nm_toUserId m) (\<lambda>i. List.find (\<lambda>u. us_id u = i) (w_users s)),
      Option.bind (nm_toContactId m) (\<lambda>i. List.find (\<lambda>c. ct_id c = i) (w_contacts s)))"

definition email_of :: "json \<Rightarrow> user option \<times> contact option \<Rightarrow> string option" where
  "email_of payload r = or_value (json_text payload ''toAddress'')
     (or_value (map_option us_email (fst r)) (Option.bind (snd r) ct_email))"

definition phone_of :: "user option \<times> contact option \<Rightarrow> string option" where
  "phone_of r = or_value (Option.bind (fst r) us_phone) (Option.bind (snd r) ct_phone)"

definition consented :: "notification_message \<Rightarrow> world \<Rightarrow> bool" where
  "consented m s =
     (case nm_toUserId m of
        Some u \<Rightarrow> hasActiveMessagingConsent (TG_user u) (Some (nm_workspaceId m)) s
      | None \<Rightarrow> (case nm_toContactId m of
           Some c \<Rightarrow> hasActiveMessagingConsent (TG_contact c) (Some (nm_workspaceId m)) s
         | None \<Rightarrow> False))"

text \<open>A string that is there and not empty.\<close>

definition filled :: "string option \<Rightarrow> bool" where
  "filled x = (case x of None \<Rightarrow> False | Some v \<Rightarrow> v \<noteq> [])"

definition resolve_channel :: "bool \<Rightarrow> json \<Rightarrow> notification_message \<Rightarrow> world \<Rightarrow> channel" where
  "resolve_channel configured payload m s =
     (let channel = (if json_text payload ''preferChannel'' = Some ''WHATSAPP'' then CH_WHATSAPP else nm_channel m) in
      if channel = CH_WHATSAPP \<and> (\<not> configured \<or> \<not> consented m s \<or> \<not> filled (phone_of (recipient m s)))
      then CH_EMAIL else channel)"

definition adapterFor :: "provider \<Rightarrow> channel \<Rightarrow> error + (send_args \<Rightarrow> error + string option)" where
  "adapterFor send channel =
     (if channel = CH_EMAIL \<or> channel = CH_WHATSAPP then Inr (send channel)
      else Inl (ThrownError (''No adapter for channel '' @ channel_name channel)))"

definition deliver_body :: "json \<Rightarrow> notification_message \<Rightarrow> string option" where
  "deliver_body payload m =
     (if isSensitiveTemplate (nm_templateCode m) then json_text payload ''body''
      else Some (case nm_bodyRef m of None \<Rightarrow> [] | Some b \<Rightarrow> b))"

definition sendVia :: "provider \<Rightarrow> channel \<Rightarrow> uid \<Rightarrow> send_args \<Rightarrow> unit svc" where
  "sendVia send channel messageId args =
     bindE (liftE (adapterFor send channel)) (\<lambda>adapter.
     catchE
       (bindE (liftE (adapter args)) (\<lambda>providerRef. update_message messageId (sent providerRef)))
       (\<lambda>err. thenE (update_message messageId failed) (throw err)))"

definition deliverNotification :: "provider \<Rightarrow> bool \<Rightarrow> json \<Rightarrow> string option \<Rightarrow> unit svc" where
  "deliverNotification send configured payload key =
     bindE (someE (ThrownError ''Argument id is missing'') (json_id payload ''messageId'')) (\<lambda>messageId.
     bindE (readE (find_message messageId)) (\<lambda>found.
     case found of
       None \<Rightarrow> ret ()
     | Some m \<Rightarrow>
       if nm_status m \<noteq> MS_QUEUED then ret ()
       else
         (case deliver_body payload m of
            None \<Rightarrow> update_message messageId failed
          | Some body \<Rightarrow>
              bindE (readE (recipient m)) (\<lambda>r.
              bindE (readE (resolve_channel configured payload m)) (\<lambda>channel.
              let to = (if channel = CH_WHATSAPP then phone_of r else email_of payload r) in
              if \<not> filled to then update_message messageId failed
              else
                thenE (whenE (channel \<noteq> nm_channel m) (update_message messageId (\<lambda>m. m\<lparr>nm_channel := channel\<rparr>)))
                  (sendVia send channel messageId \<lparr> sa_to = the to, sa_subject = nm_subject m, sa_body = body,
                     sa_idempotencyKey = key \<rparr>))))))"

subsection \<open>Provider events\<close>

fun RANK :: "messageStatus \<Rightarrow> int" where
  "RANK MS_QUEUED = 0"
| "RANK MS_SENT = 1"
| "RANK MS_DELIVERED = 2"
| "RANK MS_READ = 3"
| "RANK _ = -1"

definition event_status :: "string \<Rightarrow> messageStatus option" where
  "event_status event = map_of [(''sent'', MS_SENT), (''delivered'', MS_DELIVERED), (''read'', MS_READ)] event"

definition nextStatus :: "messageStatus \<Rightarrow> string \<Rightarrow> messageStatus option" where
  "nextStatus current event =
     (if event = ''failed'' then (if current = MS_QUEUED \<or> current = MS_SENT then Some MS_FAILED else None)
      else case event_status event of
        None \<Rightarrow> None
      | Some target \<Rightarrow> if current = MS_FAILED then None
          else if RANK current < RANK target then Some target else None)"

text \<open>\<open>(x ?? [])\<close> of a payload field that is declared to be an array.\<close>

definition json_items :: "json \<Rightarrow> string \<Rightarrow> json list" where
  "json_items j k = (case jget j k of Some (JArr xs) \<Rightarrow> xs | _ \<Rightarrow> [])"

definition statusEvent :: "string \<Rightarrow> string \<Rightarrow> unit svc" where
  "statusEvent ref event =
     bindE (readE (\<lambda>s. List.find (\<lambda>m. nm_providerRef m = Some ref) (w_messages s))) (\<lambda>found.
     case found of
       None \<Rightarrow> ret ()
     | Some m \<Rightarrow> (case nextStatus (nm_status m) event of
           None \<Rightarrow> ret ()
         | Some st \<Rightarrow> update_message (nm_id m) (\<lambda>r. r\<lparr>nm_status := st\<rparr>)))"

definition digits_of :: "string \<Rightarrow> string" where
  "digits_of x = List.filter (\<lambda>c. c \<in> set ''0123456789'') x"

definition inboundMessage :: "json \<Rightarrow> string \<Rightarrow> unit svc" where
  "inboundMessage m sender =
     (let fromDigits = digits_of sender in
      if fromDigits = [] then ret ()
      else
        bindE (readE (\<lambda>s. filter (\<lambda>c. map_option digits_of (ct_phone c) = Some fromDigits) (w_contacts s))) (\<lambda>matches.
        if length matches \<noteq> 1 then ret ()
        else
          (let contact = hd matches in
           bindE (recordEvidence ((evidenceOf (ct_workspaceId contact) EV_TENANT_ACKNOWLEDGED A_TENANT_LINK None
                S_WORKSPACE (Some (ct_workspaceId contact)))
                \<lparr>ei_payload := Some (JObj [(''from'', JStr sender),
                   (''text'', JStr (case Option.bind (jget m ''text'') (\<lambda>t. json_text t ''body'') of None \<Rightarrow> [] | Some b \<Rightarrow> b)),
                   (''wamid'', case jget m ''id'' of None \<Rightarrow> JNull | Some i \<Rightarrow> i)])\<rparr>)) (\<lambda>_. ret ()))))"

definition applyChange :: "json \<Rightarrow> unit svc" where
  "applyChange change =
     (let val = (case jget change ''value'' of None \<Rightarrow> JObj [] | Some v \<Rightarrow> v) in
      thenE (forE (json_items val ''statuses'') (\<lambda>st.
          case json_text st ''id'' of None \<Rightarrow> ret ()
          | Some i \<Rightarrow> (case json_text st ''status'' of None \<Rightarrow> ret ()
              | Some ev \<Rightarrow> if i = [] \<or> ev = [] then ret () else statusEvent i ev)))
        (forE (json_items val ''messages'') (\<lambda>m.
          case json_text m ''from'' of None \<Rightarrow> ret () | Some f \<Rightarrow> if f = [] then ret () else inboundMessage m f)))"

definition applyWhatsappEvents :: "json \<Rightarrow> unit svc" where
  "applyWhatsappEvents payload =
     forE (json_items payload ''entry'') (\<lambda>entry. forE (json_items entry ''changes'') applyChange)"

subsection \<open>The runner's handlers\<close>

text \<open>Without a workspace in the payload the filter of \<open>evaluateWorkspaceRisk\<close> is dropped.\<close>

definition evaluateAllRisk :: "unit svc" where
  "evaluateAllRisk =
     bindE (readE (\<lambda>s. map tn_id (filter (\<lambda>t. tn_archivedAt t = None) (w_tenancies s)))) (\<lambda>tenancies.
     thenE (forE tenancies evaluateRiskForTenancy)
     (bindE (readE (\<lambda>s. map rc_id (filter (\<lambda>rc. rc_archivedAt rc = None \<and>
         rc_status rc \<notin> {R_RENEWED, R_DECLINED, R_LAPSED}) (w_cases s))))
        (\<lambda>cases. forE cases evaluateRenewalRisk)))"

definition runner_handlers :: "provider \<Rightarrow> bool \<Rightarrow> (rat \<Rightarrow> string) \<Rightarrow> (time \<Rightarrow> string) \<Rightarrow> handlers" where
  "runner_handlers send configured amt fdate = map_of
     [(''notification.send'', deliverNotification send configured),
      (''risk.evaluate'', \<lambda>payload _. case json_id payload ''workspaceId'' of
         None \<Rightarrow> evaluateAllRisk | Some ws \<Rightarrow> evaluateWorkspaceRisk ws),
      (''payments.late_check'', \<lambda>payload _. bindE (detectLatePayments amt fdate (json_id payload ''workspaceId'')) (\<lambda>_. ret ())),
      (''whatsapp.status'', \<lambda>payload _. applyWhatsappEvents payload)]"

subsection \<open>The handlers leave the queue alone\<close>

lemma queue_keeps_flags [queue_keeps]:
  "keeps queue_grows (raiseFlag sc c sev)" "keeps queue_grows (clearFlag sc c by)"
  "keeps queue_grows (setFlag sc c sev b)" "keeps queue_grows (raisePaymentLate i)"
  "keeps queue_grows (evaluateRiskForTenancy j)" "keeps queue_grows (evaluateRenewalRisk k)"
  unfolding setFlag_def evaluateRiskForTenancy_def evaluateRenewalRisk_def raisePaymentLate_def
    on_item_def clearFlag_def raiseFlag_def Let_def
  by (intro queue.keeps_intros queue_keeps queue_keeps_write; simp)+

lemma queue_keeps_risk [queue_keeps]:
  "keeps queue_grows (evaluateWorkspaceRisk ws)" "keeps queue_grows evaluateAllRisk"
  unfolding evaluateWorkspaceRisk_def evaluateAllRisk_def by (intro queue.keeps_intros queue_keeps)+

lemma queue_keeps_notification [queue_keeps]: "keeps queue_grows (recordNotification inp)"
  unfolding recordNotification_def notify_def Let_def
  by (intro queue.keeps_intros queue_keeps queue_keeps_write) simp_all

lemma queue_keeps_late [queue_keeps]: "keeps queue_grows (detectLatePayments amt fd ws)"
  unfolding detectLatePayments_def markLate_def
  by (intro queue.keeps_intros queue_keeps queue_keeps_write) simp_all

lemma queue_keeps_update_message [queue_keeps]: "keeps queue_grows (update_message i f)"
  unfolding update_message_def by (intro queue.keeps_intros queue_keeps queue_keeps_write) simp_all

lemma queue_keeps_deliver [queue_keeps]: "keeps queue_grows (deliverNotification send cf payload key)"
  unfolding deliverNotification_def sendVia_def Let_def by (intro queue.keeps_intros queue_keeps)

lemma queue_keeps_whatsapp [queue_keeps]: "keeps queue_grows (applyWhatsappEvents payload)"
  unfolding applyWhatsappEvents_def applyChange_def statusEvent_def inboundMessage_def Let_def
  by (intro queue.keeps_intros queue_keeps)

interpretation runner: dispatcher "runner_handlers send configured amt fdate" for send configured amt fdate
proof
  fix topic h payload key
  assume "runner_handlers send configured amt fdate topic = Some h"
  then show "keeps queue_grows (h payload key)"
    by (auto simp: runner_handlers_def split: if_splits intro!: queue.keeps_intros queue_keeps)
qed

subsection \<open>The dispatcher with its handlers\<close>

text \<open>
  C7: the dispatcher implements the contract of a row. Whatever the handlers and the providers do, a
  dispatch returns and counts the rows it claimed. Each claimed row went to its handler, in the state
  the claimed rows before it had left, and what became of it is what the handler said: done when it
  returned, back in the queue with one more attempt when it threw, dead when that was the fifth. A
  row that was not claimed is as it was, an expired lease apart, which goes back to the queue
  uncounted. So every row of before moves along the steps a job may take, done and dead rows are
  never written again, the rows that appear are fresh jobs, and the queue stays well formed: in
  particular no settled row keeps the secret body of a message.
\<close>

theorem dispatch_refines_jobs:
  assumes "outbox_ok s"
  shows "\<exists>claimed s1 t rows new. thenE recoverLeases (claimBatch locked b) s = (Inr claimed, s1) \<and>
    dispatchPending (runner_handlers send configured amt fdate) locked b s = (Inr (length claimed), t) \<and>
    outbox_ok t \<and> w_outbox t = rows @ new \<and> list_all2 promised (w_outbox s) rows \<and>
    list_all2 (treated (runner_handlers send configured amt fdate) claimed s1) (w_outbox s) rows \<and>
    (\<forall>r \<in> set new. abs_job r = Waiting 0)"
  using assms by (rule runner.dispatch_refines)

text \<open>
  the queue drains. A dispatch processes as many rows as are due and not locked, up to the size of
  its batch, and the attempts the rows of before have left drop by at least as many: while
  something is due there is progress, and no row is tried for ever.
\<close>

theorem dispatch_makes_progress:
  assumes "outbox_ok s"
  shows "\<exists>n t rows new. dispatchPending (runner_handlers send configured amt fdate) locked b s = (Inr n, t) \<and>
    outbox_ok t \<and> w_outbox t = rows @ new \<and> length rows = length (w_outbox s) \<and>
    n = min b (count_where (\<lambda>r. due (w_now s) r \<and> ob_id r \<notin> set locked)
          (upd_where (lease_expired (w_now s)) release (w_outbox s))) \<and>
    sum_list (map work rows) + n \<le> sum_list (map work (w_outbox s))"
  using assms by (rule runner.dispatch_drains)

text \<open>A queue with one row on its last attempt.\<close>

definition sample_entry :: outbox_entry where
  "sample_entry = \<lparr> ob_id = 1, ob_topic = ''notification.send'',
     ob_payload = JObj [(''messageId'', JId 2), (''body'', JStr ''secret'')], ob_status = OB_pending,
     ob_attempts = 4, ob_availableAt = 0, ob_lockedUntil = None, ob_idempotencyKey = None \<rparr>"

lemma outbox_ok_sample: "outbox_ok (empty_world\<lparr>w_outbox := [sample_entry]\<rparr>)"
  by (simp add: outbox_ok_def sample_entry_def empty_world_def sound_row_def terminal_def MAX_ATTEMPTS_def)

lemma dispatch_refines_jobs_witness:
  "\<exists>claimed s1 t r new. thenE recoverLeases (claimBatch [] 20) (empty_world\<lparr>w_outbox := [sample_entry]\<rparr>) = (Inr claimed, s1) \<and>
    dispatchPending (runner_handlers (\<lambda>_ _. Inr None) True (\<lambda>_. []) (\<lambda>_. [])) [] 20
      (empty_world\<lparr>w_outbox := [sample_entry]\<rparr>) = (Inr (length claimed), t) \<and>
    outbox_ok t \<and> w_outbox t = r # new \<and> promised sample_entry r \<and>
    treated (runner_handlers (\<lambda>_ _. Inr None) True (\<lambda>_. []) (\<lambda>_. [])) claimed s1 sample_entry r \<and>
    (\<forall>r \<in> set new. abs_job r = Waiting 0)"
  using dispatch_refines_jobs [OF outbox_ok_sample, where send = "\<lambda>_ _. Inr None" and configured = True and amt = "\<lambda>_. []"
    and fdate = "\<lambda>_. []" and locked = "[]" and b = 20]
  by (auto simp: list_all2_Cons1)

lemma dispatch_makes_progress_witness:
  "\<exists>t rows new. dispatchPending (runner_handlers (\<lambda>_ _. Inr None) True (\<lambda>_. []) (\<lambda>_. [])) [] 20
      (empty_world\<lparr>w_outbox := [sample_entry]\<rparr>) = (Inr 1, t) \<and> w_outbox t = rows @ new \<and>
    length rows = 1 \<and> sum_list (map work rows) = 0"
proof -
  have "work sample_entry = 1" by (simp add: work_def sample_entry_def terminal_def MAX_ATTEMPTS_def)
  moreover have "count_where (\<lambda>r. due 0 r \<and> ob_id r \<notin> set []) (upd_where (lease_expired 0) release [sample_entry]) = 1"
    by (simp add: sample_entry_def due_def lease_expired_def)
  ultimately obtain t rows new where
      "dispatchPending (runner_handlers (\<lambda>_ _. Inr None) True (\<lambda>_. []) (\<lambda>_. [])) [] 20
        (empty_world\<lparr>w_outbox := [sample_entry]\<rparr>) = (Inr 1, t)"
      "w_outbox t = rows @ new" "length rows = 1" "sum_list (map work rows) + 1 \<le> 1"
    using dispatch_makes_progress [OF outbox_ok_sample, of "\<lambda>_ _. Inr None" True "\<lambda>_. []" "\<lambda>_. []" "[]" 20]
    by (auto simp: empty_world_def simp del: upd_where_Cons)
  then show ?thesis by (intro exI [of _ t] exI [of _ rows] exI [of _ new]) simp
qed

subsection \<open>What may be sent\<close>

text \<open>
  The messages a provider may be asked to send for the queued message \<open>m\<close>: over e-mail to its
  address; over WhatsApp to the phone of its recipient, when the provider is configured and the
  recipient consents; with the live body of a sensitive template and the stored one of any other.
\<close>

definition permitted :: "bool \<Rightarrow> json \<Rightarrow> string option \<Rightarrow> notification_message \<Rightarrow> world \<Rightarrow> channel \<Rightarrow> send_args \<Rightarrow> bool" where
  "permitted configured payload key m s channel a \<longleftrightarrow>
     nm_status m = MS_QUEUED \<and> sa_idempotencyKey a = key \<and> sa_subject a = nm_subject m \<and>
     deliver_body payload m = Some (sa_body a) \<and> sa_to a \<noteq> [] \<and>
     (channel = CH_EMAIL \<and> email_of payload (recipient m s) = Some (sa_to a) \<or>
      channel = CH_WHATSAPP \<and> configured \<and> consented m s \<and> phone_of (recipient m s) = Some (sa_to a))"

lemma filled_Some: "filled x \<longleftrightarrow> (\<exists>v. x = Some v \<and> v \<noteq> [])"
  by (auto simp: filled_def split: option.splits)

lemma resolved_whatsapp:
  "resolve_channel configured payload m s = CH_WHATSAPP \<Longrightarrow> configured \<and> consented m s \<and> filled (phone_of (recipient m s))"
  by (auto simp: resolve_channel_def Let_def split: if_splits)

lemma sendVia_cong:
  "(\<And>x. ch = CH_EMAIL \<or> ch = CH_WHATSAPP \<Longrightarrow> send ch a = send' ch a) \<Longrightarrow> sendVia send ch i a = sendVia send' ch i a"
  by (auto simp: sendVia_def adapterFor_def liftE_def bindE_def)

lemma deliver_asks_permitted:
  assumes m: "find_message i s = Some m" and i: "json_id payload ''messageId'' = Some i"
    and agree: "\<And>ch a. permitted configured payload key m s ch a \<Longrightarrow> send ch a = send' ch a"
  shows "deliverNotification send configured payload key s = deliverNotification send' configured payload key s"
proof (cases "nm_status m = MS_QUEUED")
  case True
  define ch where "ch = resolve_channel configured payload m s"
  define to where "to = (if ch = CH_WHATSAPP then phone_of (recipient m s) else email_of payload (recipient m s))"
  have asked: "sendVia send ch i \<lparr> sa_to = the to, sa_subject = nm_subject m, sa_body = body, sa_idempotencyKey = key \<rparr> =
      sendVia send' ch i \<lparr> sa_to = the to, sa_subject = nm_subject m, sa_body = body, sa_idempotencyKey = key \<rparr>"
    if "filled to" "deliver_body payload m = Some body" for body
    using that True resolved_whatsapp [of configured payload m s]
    by (intro sendVia_cong agree) (auto simp: permitted_def to_def ch_def filled_Some)
  show ?thesis
  proof (cases "deliver_body payload m")
    case None
    then show ?thesis by (simp add: deliverNotification_def i m True op_defs)
  next
    case (Some body)
    then show ?thesis
      using asked
      by (simp add: deliverNotification_def i m True bindE_apply someE_eval readE_eval Let_def
          ch_def [symmetric] to_def [symmetric] split: sum.split prod.split)
  qed
next
  case False
  then show ?thesis by (simp add: deliverNotification_def i m op_defs)
qed

text \<open>
  C8: nothing is sent that may not be sent. What a delivery does depends on the provider's answer to
  the permitted messages only: two providers that agree on those leave the same database and the
  same outcome. So over WhatsApp nothing is ever asked of the provider without an active consent of
  the recipient in the workspace of the message, whatever channel the message prefers.
\<close>

theorem delivery_sends_only_permitted:
  assumes "find_message i s = Some m" and "json_id payload ''messageId'' = Some i"
    and "\<And>ch a. permitted configured payload key m s ch a \<Longrightarrow> send ch a = send' ch a"
  shows "deliverNotification send configured payload key s = deliverNotification send' configured payload key s"
  using assms by (rule deliver_asks_permitted)

text \<open>A WhatsApp message to a contact who has not consented.\<close>

definition sample_message :: notification_message where
  "sample_message = \<lparr> nm_id = 2, nm_workspaceId = 7, nm_channel = CH_WHATSAPP, nm_direction = DIR_OUTBOUND,
     nm_toUserId = None, nm_toContactId = Some 4, nm_templateCode = Some ''payment_late_v1'',
     nm_subject = None, nm_bodyRef = Some ''overdue'', nm_providerRef = None, nm_status = MS_QUEUED,
     nm_relatedType = None, nm_relatedId = None, nm_category = None, nm_urgent = False,
     nm_readAt = None, nm_digestedAt = None, nm_emailMessageId = None, nm_createdAt = 0 \<rparr>"

definition message_world :: world where
  "message_world = empty_world\<lparr>w_messages := [sample_message],
     w_contacts := [\<lparr> ct_id = 4, ct_workspaceId = 7, ct_kind = CK_TENANT, ct_name = ''T'',
       ct_phone = Some ''+971501'', ct_email = Some ''t@x'', ct_company = None, ct_emiratesId = None, ct_nationality = None,
       ct_licenseNo = None, ct_licensingAuthority = None, ct_notes = None, ct_verifiedAt = None, ct_verifiedById = None, ct_archivedAt = None \<rparr>]\<rparr>"

lemma message_found: "find_message 2 message_world = Some sample_message"
  by (simp add: find_message_def message_world_def sample_message_def)

lemma delivery_sends_only_permitted_witness:
  "deliverNotification (\<lambda>_ _. Inr (Some ''ref'')) True (JObj [(''messageId'', JId 2)]) None message_world =
   deliverNotification (\<lambda>ch _. if ch = CH_WHATSAPP then Inl RecordNotFound else Inr (Some ''ref'')) True
     (JObj [(''messageId'', JId 2)]) None message_world"
proof (rule delivery_sends_only_permitted [OF message_found])
  show "json_id (JObj [(''messageId'', JId 2)]) ''messageId'' = Some 2" by (simp add: json_id_def)
next
  fix ch a assume "permitted True (JObj [(''messageId'', JId 2)]) None sample_message message_world ch a"
  then show "Inr (Some ''ref'') = (if ch = CH_WHATSAPP then Inl RecordNotFound else Inr (Some ''ref''))"
    by (auto simp: permitted_def consented_def sample_message_def hasActiveMessagingConsent_def
        message_world_def empty_world_def)
qed

subsection \<open>A failed send\<close>

lemma deliver_settled:
  assumes "find_message i s = Some m" and "json_id payload ''messageId'' = Some i" and "nm_status m \<noteq> MS_QUEUED"
  shows "deliverNotification send configured payload key s = (Inr (), s)"
  using assms by (simp add: deliverNotification_def op_defs)

lemma find_updated_message:
  "(\<And>m. nm_id (f m) = nm_id m) \<Longrightarrow> find_message i s = Some m \<Longrightarrow>
   find_message i (s\<lparr>w_messages := upd_where (\<lambda>m. nm_id m = i) f (w_messages s)\<rparr>) = Some (f m)"
  using find_Some_in [of "\<lambda>m. nm_id m = i" "w_messages s" m]
  by (simp add: find_message_def find_upd_where_same)

lemma update_message_eval [op_eval]:
  "find_message i s = Some m \<Longrightarrow>
   update_message i f s = (Inr (), s\<lparr>w_messages := upd_where (\<lambda>m. nm_id m = i) f (w_messages s)\<rparr>)"
  by (simp add: update_message_def op_defs)

text \<open>
  C18: a failed send is never retried. When the provider refuses the message, the delivery marks it
  failed and rethrows, so that the dispatcher puts the row back for another attempt; but every later
  attempt finds a message that is no longer queued, returns without asking any provider and leaves
  the database alone, so the row counts as dispatched although nothing was ever sent.
\<close>

theorem failed_send_is_never_retried:
  assumes m: "find_message i s = Some m" and i: "json_id payload ''messageId'' = Some i"
    and queued: "nm_status m = MS_QUEUED" and ch: "nm_channel m = CH_EMAIL \<or> nm_channel m = CH_WHATSAPP"
    and down: "\<And>c a. \<exists>e. send c a = Inl e"
  shows "\<exists>r t m'. deliverNotification send configured payload key s = (r, t) \<and>
    find_message i t = Some m' \<and> nm_status m' = MS_FAILED \<and>
    (\<forall>send' configured' t'. find_message i t' = Some m' \<longrightarrow>
       deliverNotification send' configured' payload key t' = (Inr (), t'))"
proof -
  have settled: "\<exists>r t m'. deliverNotification send configured payload key s = (r, t) \<and>
      find_message i t = Some m' \<and> nm_status m' = MS_FAILED"
  proof (cases "deliver_body payload m")
    case None
    then show ?thesis
      using m i queued find_updated_message [of failed i s m]
      by (simp add: deliverNotification_def someE_eval readE_eval bindE_apply update_message_eval failed_def)
  next
    case (Some body)
    define c where "c = resolve_channel configured payload m s"
    define to where "to = (if c = CH_WHATSAPP then phone_of (recipient m s) else email_of payload (recipient m s))"
    define u where "u = (if c \<noteq> nm_channel m
        then s\<lparr>w_messages := upd_where (\<lambda>m. nm_id m = i) (\<lambda>m. m\<lparr>nm_channel := c\<rparr>) (w_messages s)\<rparr> else s)"
    have c: "c = CH_EMAIL \<or> c = CH_WHATSAPP"
      using ch by (auto simp: c_def resolve_channel_def Let_def)
    have u: "\<exists>m'. find_message i u = Some m'"
      using m find_updated_message [of "\<lambda>m. m\<lparr>nm_channel := c\<rparr>" i s m] by (auto simp: u_def)
    then obtain m' where m': "find_message i u = Some m'" ..
    have switch: "whenE (c \<noteq> nm_channel m) (update_message i (\<lambda>m. m\<lparr>nm_channel := c\<rparr>)) s = (Inr (), u)"
      using m by (simp add: whenE_eval update_message_eval u_def)
    obtain e where e: "send c \<lparr> sa_to = the to, sa_subject = nm_subject m, sa_body = body, sa_idempotencyKey = key \<rparr> = Inl e"
      using down by blast
    have fails: "sendVia send c i \<lparr> sa_to = the to, sa_subject = nm_subject m, sa_body = body, sa_idempotencyKey = key \<rparr> u =
        (Inl e, u\<lparr>w_messages := upd_where (\<lambda>m. nm_id m = i) failed (w_messages u)\<rparr>)"
      using c e m' by (auto simp: sendVia_def adapterFor_def bindE_apply liftE_eval catchE_def update_message_eval throw_eval)
    show ?thesis
    proof (cases "filled to")
      case True
      then have "deliverNotification send configured payload key s =
          (Inl e, u\<lparr>w_messages := upd_where (\<lambda>m. nm_id m = i) failed (w_messages u)\<rparr>)"
        using Some m i queued switch fails
        by (simp add: deliverNotification_def bindE_apply someE_eval readE_eval Let_def
            c_def [symmetric] to_def [symmetric])
      then show ?thesis using find_updated_message [of failed i u m'] m' by (simp add: failed_def)
    next
      case False
      then show ?thesis
        using Some m i queued find_updated_message [of failed i s m]
        by (simp add: deliverNotification_def bindE_apply someE_eval readE_eval Let_def
            c_def [symmetric] to_def [symmetric] update_message_eval failed_def)
    qed
  qed
  then show ?thesis using i deliver_settled by (metis messageStatus.distinct(7))
qed

lemma failed_send_is_never_retried_witness:
  "\<exists>r t m'. deliverNotification (\<lambda>_ _. Inl (ThrownError ''Resend 503'')) True (JObj [(''messageId'', JId 2)]) None message_world = (r, t) \<and>
    find_message 2 t = Some m' \<and> nm_status m' = MS_FAILED \<and>
    (\<forall>send' configured' t'. find_message 2 t' = Some m' \<longrightarrow>
       deliverNotification send' configured' (JObj [(''messageId'', JId 2)]) None t' = (Inr (), t'))"
  by (rule failed_send_is_never_retried [OF message_found]) (simp_all add: json_id_def sample_message_def)

subsection \<open>Provider events in any order\<close>

definition advance :: "messageStatus \<Rightarrow> string \<Rightarrow> messageStatus" where
  "advance st event = (case nextStatus st event of None \<Rightarrow> st | Some st' \<Rightarrow> st')"

definition set_message_status :: "uid \<Rightarrow> messageStatus \<Rightarrow> world \<Rightarrow> world" where
  "set_message_status i st s =
     s\<lparr>w_messages := upd_where (\<lambda>m. nm_id m = i) (\<lambda>m. m\<lparr>nm_status := st\<rparr>) (w_messages s)\<rparr>"

text \<open>The highest status named by a set of events, at least the current one.\<close>

definition top_rank :: "messageStatus \<Rightarrow> string set \<Rightarrow> int" where
  "top_rank st events = Max (insert (RANK st) (RANK ` {x. \<exists>e \<in> events. event_status e = Some x}))"

lemma event_status_cases: "event_status e = Some x \<Longrightarrow> x \<in> {MS_SENT, MS_DELIVERED, MS_READ}"
  by (auto simp: event_status_def split: if_splits)

lemma RANK_inj: "RANK x = RANK y \<Longrightarrow> x \<noteq> MS_FAILED \<Longrightarrow> y \<noteq> MS_FAILED \<Longrightarrow> x = y"
  by (cases x; cases y) simp_all

lemma advance_alive:
  assumes "st \<noteq> MS_FAILED" and "e \<noteq> ''failed''"
  shows "advance st e \<noteq> MS_FAILED"
    and "RANK (advance st e) = (case event_status e of None \<Rightarrow> RANK st | Some x \<Rightarrow> max (RANK st) (RANK x))"
  using assms event_status_cases [of e] by (auto simp: advance_def nextStatus_def max_def split: option.splits)

lemma Max_insert_max: "finite A \<Longrightarrow> Max (insert (max x y) A) = max x (Max (insert y A))" for x :: int
  by (cases "A = {}") (simp_all add: max.assoc)

lemma foldl_advance:
  assumes "st \<noteq> MS_FAILED" and "''failed'' \<notin> set es"
  shows "foldl advance st es \<noteq> MS_FAILED \<and> RANK (foldl advance st es) = top_rank st (set es)"
  using assms
proof (induction es arbitrary: st)
  case Nil
  then show ?case by (simp add: top_rank_def)
next
  case (Cons e es)
  have fin: "finite (RANK ` {x. \<exists>e \<in> E. event_status e = Some x})" for E
    by (rule finite_subset [of _ "RANK ` {MS_SENT, MS_DELIVERED, MS_READ}"]) (use event_status_cases in blast, simp)
  have "{x. \<exists>d \<in> set (e # es). event_status d = Some x} =
      (case event_status e of None \<Rightarrow> {} | Some x \<Rightarrow> {x}) \<union> {x. \<exists>d \<in> set es. event_status d = Some x}"
    by (auto split: option.splits)
  then have "top_rank (advance st e) (set es) = top_rank st (set (e # es))"
    using advance_alive [of st e] Cons.prems fin [of "set es"]
    by (cases "event_status e") (auto simp: top_rank_def max.commute Max_insert_max insert_commute)
  moreover have "advance st e \<noteq> MS_FAILED" using Cons.prems by (intro advance_alive) auto
  ultimately show ?case using Cons by simp
qed

lemma statusEvents_run:
  assumes "List.find (\<lambda>m. nm_providerRef m = Some ref) (w_messages s) = Some m" and "distinct (map nm_id (w_messages s))"
  shows "forE es (statusEvent ref) (set_message_status (nm_id m) st s) =
    (Inr (), set_message_status (nm_id m) (foldl advance st es) s)"
proof (induction es arbitrary: st)
  case Nil
  then show ?case by (simp add: ret_def)
next
  case (Cons e es)
  have found: "List.find (\<lambda>m. nm_providerRef m = Some ref) (w_messages (set_message_status (nm_id m) st s)) =
      Some (m\<lparr>nm_status := st\<rparr>)"
    using assms(1) by (simp add: set_message_status_def find_upd_where_same)
  have here: "find_message (nm_id m) s = Some m"
    using assms find_Some_in [OF assms(1)] by (simp add: find_message_def find_distinct_key)
  have twice: "set_message_status i b (set_message_status i a s) = set_message_status i b s" for i a b
    by (simp add: set_message_status_def upd_where_def)
  have "statusEvent ref e (set_message_status (nm_id m) st s) = (Inr (), set_message_status (nm_id m) (advance st e) s)"
  proof (cases "nextStatus st e")
    case None
    then show ?thesis by (simp add: statusEvent_def op_eval bindE_apply found advance_def)
  next
    case (Some x)
    have "find_message (nm_id m) (set_message_status (nm_id m) st s) = Some (m\<lparr>nm_status := st\<rparr>)"
      using find_updated_message [OF _ here, of "\<lambda>m. m\<lparr>nm_status := st\<rparr>"] by (simp add: set_message_status_def)
    then have "update_message (nm_id m) (\<lambda>r. r\<lparr>nm_status := x\<rparr>) (set_message_status (nm_id m) st s) =
        (Inr (), set_message_status (nm_id m) x s)"
      using twice [of "nm_id m" x st] by (simp add: update_message_eval set_message_status_def)
    with Some show ?thesis
      by (simp add: statusEvent_def readE_eval bindE_apply found advance_def)
  qed
  with Cons.IH show ?case by (simp add: bindE_def)
qed

text \<open>
  delivery receipts may come in any order and any number of times. Two runs over the same set of
  receipts, none of them a failure, leave the same database, and the message ends in the highest
  status a receipt reported; a message that has failed stays as it is whatever comes.
\<close>

theorem receipts_order_free:
  assumes m: "List.find (\<lambda>m. nm_providerRef m = Some ref) (w_messages s) = Some m"
    and ids: "distinct (map nm_id (w_messages s))" and same: "set xs = set ys"
    and ok: "nm_status m = MS_FAILED \<or> ''failed'' \<notin> set xs"
  shows "forE xs (statusEvent ref) s = forE ys (statusEvent ref) s \<and>
    (\<exists>t m'. forE xs (statusEvent ref) s = (Inr (), t) \<and> find_message (nm_id m) t = Some m' \<and>
      (if nm_status m = MS_FAILED then t = s else RANK (nm_status m') = top_rank (nm_status m) (set xs)))"
proof -
  have mem: "m \<in> set (w_messages s)" using find_Some_in [OF m] by simp
  have start: "set_message_status (nm_id m) (nm_status m) s = s"
  proof -
    have "upd_where (\<lambda>r. nm_id r = nm_id m) (\<lambda>r. r\<lparr>nm_status := nm_status m\<rparr>) (w_messages s) = w_messages s"
    proof (unfold upd_where_def, intro map_idI)
      fix r assume "r \<in> set (w_messages s)"
      then have "nm_id r = nm_id m \<Longrightarrow> r = m" using mem ids by (auto simp: distinct_map dest: inj_onD)
      then show "(if nm_id r = nm_id m then r\<lparr>nm_status := nm_status m\<rparr> else r) = r" by auto
    qed
    then show ?thesis by (simp add: set_message_status_def)
  qed
  have run: "forE es (statusEvent ref) s = (Inr (), set_message_status (nm_id m) (foldl advance (nm_status m) es) s)" for es
    using statusEvents_run [OF m ids, of es "nm_status m"] unfolding start .
  have dead: "foldl advance MS_FAILED es = MS_FAILED" for es
    by (induction es) (auto simp: advance_def nextStatus_def split: option.splits)
  have here: "find_message (nm_id m) s = Some m"
    using mem ids by (simp add: find_message_def find_distinct_key)
  have "find_message (nm_id m) (set_message_status (nm_id m) st s) = Some (m\<lparr>nm_status := st\<rparr>)" for st
    using find_updated_message [OF _ here, of "\<lambda>m. m\<lparr>nm_status := st\<rparr>"] by (simp add: set_message_status_def)
  moreover have "foldl advance (nm_status m) xs = foldl advance (nm_status m) ys"
  proof (cases "nm_status m = MS_FAILED")
    case False
    then show ?thesis
      using ok same foldl_advance [OF False] RANK_inj by metis
  qed (simp add: dead)
  moreover have "nm_status m \<noteq> MS_FAILED \<Longrightarrow> RANK (foldl advance (nm_status m) xs) = top_rank (nm_status m) (set xs)"
    using ok foldl_advance by blast
  ultimately show ?thesis
    using run dead start by (auto split: if_splits)
qed

text \<open>A message on its way, and three receipts in the wrong order with a repetition.\<close>

lemma receipts_order_free_witness:
  "forE [''read'', ''sent'', ''delivered'', ''read''] (statusEvent ''w1'')
     (message_world\<lparr>w_messages := [sent (Some ''w1'') sample_message]\<rparr>) =
   forE [''sent'', ''delivered'', ''read''] (statusEvent ''w1'')
     (message_world\<lparr>w_messages := [sent (Some ''w1'') sample_message]\<rparr>)"
  by (rule receipts_order_free [THEN conjunct1])
    (auto simp: sent_def sample_message_def)

end
