(* ===== verification/Auth.thy ===== *)
theory Auth
  imports Frames
begin

text \<open>
  \<open>server/auth/index.ts\<close> and the context half of \<open>auth/request.ts\<close>: sign-in with a password and a
  lockout, sessions, password reset and the choice of the workspace. \<open>hash\<close> is the token hash and
  \<open>hashPassword\<close>, \<open>verify\<close> the password hash and check of \<open>crypto.ts\<close> over the runtime's scrypt;
  \<open>token\<close> is what the random source returned. Cookies and redirects are the framework's.
\<close>

subsection \<open>Constants\<close>

definition normalized_email :: "string \<Rightarrow> string" where
  "normalized_email e = js_lower (js_trim e)"

definition SESSION_TTL_MS :: int where "SESSION_TTL_MS = 30 * 24 * 60 * 60 * 1000"
definition MAX_LOGIN_FAILURES :: int where "MAX_LOGIN_FAILURES = 5"
definition LOGIN_LOCK_MS :: int where "LOGIN_LOCK_MS = 15 * 60 * 1000"
definition RESET_TTL_MS :: int where "RESET_TTL_MS = 60 * 60 * 1000"
definition RESET_COOLDOWN_MS :: int where "RESET_COOLDOWN_MS = 60 * 1000"
definition MIN_PASSWORD_LENGTH :: nat where "MIN_PASSWORD_LENGTH = 10"

definition LOGIN_FAILED_MESSAGE :: string where "LOGIN_FAILED_MESSAGE = ''Invalid email or password.''"

definition policy_message :: string where
  "policy_message = ''Password must be at least 10 characters.''"

definition password_ok :: "string \<Rightarrow> bool" where
  "password_ok plain \<longleftrightarrow> MIN_PASSWORD_LENGTH \<le> length plain"

definition find_user :: "string \<Rightarrow> world \<Rightarrow> user option" where
  "find_user email s = List.find (\<lambda>u. us_email u = email) (w_users s)"

definition set_user :: "uid \<Rightarrow> (user \<Rightarrow> user) \<Rightarrow> unit svc" where
  "set_user i f =
     thenE (bindE (readE (\<lambda>s. List.find (\<lambda>u. us_id u = i) (w_users s))) (\<lambda>u. assertE (u \<noteq> None) RecordNotFound))
       (writeE (\<lambda>s. s\<lparr>w_users := upd_where (\<lambda>u. us_id u = i) f (w_users s)\<rparr>))"

definition with_password :: "string \<Rightarrow> time \<Rightarrow> user \<Rightarrow> user" where
  "with_password passwordHash now u =
     u\<lparr> us_passwordHash := Some passwordHash, us_passwordSetAt := Some now, us_failedLoginCount := 0,
        us_loginLockedUntil := None \<rparr>"

subsection \<open>Sessions\<close>

record client_meta =
  cm_ip :: "string option"
  cm_device :: "string option"

definition session_row :: "(string \<Rightarrow> string) \<Rightarrow> string \<Rightarrow> uid \<Rightarrow> client_meta \<Rightarrow> uid \<Rightarrow> time \<Rightarrow> session" where
  "session_row hash token userId meta i now =
     \<lparr> se_id = i, se_userId = userId, se_tokenHash = hash token, se_expiresAt = now + SESSION_TTL_MS,
       se_revokedAt = None, se_ip = cm_ip meta, se_device = cm_device meta, se_createdAt = now \<rparr>"

definition createSession ::
    "(string \<Rightarrow> string) \<Rightarrow> string \<Rightarrow> uid \<Rightarrow> bool \<Rightarrow> client_meta \<Rightarrow> string svc" where
  "createSession hash token userId isPlatformAdmin meta =
     bindE getNow (\<lambda>now. bindE newId (\<lambda>i.
     thenE (bindE (readE w_sessions) (\<lambda>rows.
        assertE (\<forall>r \<in> set rows. se_tokenHash r \<noteq> hash token) (UniqueViolation ''Session_tokenHash'')))
     (thenE (writeE (\<lambda>s. s\<lparr>w_sessions := w_sessions s @ [session_row hash token userId meta i now]\<rparr>))
     (thenE (recordAudit ((auditOf None (if isPlatformAdmin then A_STAFF else A_USER) (Some userId)
          ''session.create'' ''Session'' None)\<lparr>ai_ip := cm_ip meta\<rparr>))
       (ret token)))))"

definition sessionUser :: "(string \<Rightarrow> string) \<Rightarrow> string option \<Rightarrow> world \<Rightarrow> user option" where
  "sessionUser hash sessionToken s =
     (if sessionToken \<in> {None, Some []} then None
      else case List.find (\<lambda>r. se_tokenHash r = hash (the sessionToken)) (w_sessions s) of
        None \<Rightarrow> None
      | Some r \<Rightarrow>
          if se_revokedAt r \<noteq> None \<or> se_expiresAt r < w_now s then None
          else List.find (\<lambda>u. us_id u = se_userId r) (w_users s))"

definition revokeSession :: "(string \<Rightarrow> string) \<Rightarrow> string \<Rightarrow> unit svc" where
  "revokeSession hash sessionToken =
     bindE getNow (\<lambda>now.
     writeE (\<lambda>s. s\<lparr>w_sessions := upd_where (\<lambda>r. se_tokenHash r = hash sessionToken \<and> se_revokedAt r = None)
       (\<lambda>r. r\<lparr>se_revokedAt := Some now\<rparr>) (w_sessions s)\<rparr>))"

subsection \<open>Passwords and sign-in\<close>

definition setUserPassword :: "(string \<Rightarrow> string) \<Rightarrow> uid \<Rightarrow> string \<Rightarrow> unit svc" where
  "setUserPassword hashPassword userId plain =
     thenE (assertE (password_ok plain) (ThrownError policy_message))
     (bindE getNow (\<lambda>now. set_user userId (with_password (hashPassword plain) now)))"

definition spendOnPassword :: "(string \<Rightarrow> string \<Rightarrow> bool) \<Rightarrow> string \<Rightarrow> string option \<Rightarrow> bool" where
  "spendOnPassword verify plain stored =
     (case stored of None \<Rightarrow> False | Some h \<Rightarrow> h \<noteq> [] \<and> verify plain h)"

definition is_locked :: "time \<Rightarrow> user \<Rightarrow> bool" where
  "is_locked now u \<longleftrightarrow> (case us_loginLockedUntil u of None \<Rightarrow> False | Some l \<Rightarrow> now < l)"

text \<open>
  The failed attempt is counted on the row \<open>r\<close> from the values read before as \<open>u\<close>. The model runs an
  attempt in one step; two that overlap may both write the same count.
\<close>

definition count_failure :: "time \<Rightarrow> user \<Rightarrow> user \<Rightarrow> user" where
  "count_failure now u r = (let nextCount = us_failedLoginCount u + 1 in
     r\<lparr> us_failedLoginCount := nextCount,
        us_loginLockedUntil := (if MAX_LOGIN_FAILURES \<le> nextCount then Some (now + LOGIN_LOCK_MS)
                                else us_loginLockedUntil u) \<rparr>)"

text \<open>\<open>Inl\<close> for \<open>{error}\<close>, \<open>Inr\<close> for \<open>{sessionToken}\<close>.\<close>

definition loginWithPassword ::
    "(string \<Rightarrow> string) \<Rightarrow> (string \<Rightarrow> string \<Rightarrow> bool) \<Rightarrow> string \<Rightarrow> string \<Rightarrow> string \<Rightarrow> client_meta \<Rightarrow> (string + string) svc" where
  "loginWithPassword hash verify token email password meta =
     bindE (readE (find_user (normalized_email email))) (\<lambda>found.
     bindE getNow (\<lambda>now.
     let locked = (case found of None \<Rightarrow> False | Some u \<Rightarrow> is_locked now u);
         matches = spendOnPassword verify password (Option.bind found us_passwordHash)
     in case found of
       None \<Rightarrow> ret (Inl LOGIN_FAILED_MESSAGE)
     | Some u \<Rightarrow>
         if locked \<or> \<not> matches then
           thenE (whenE (\<not> locked) (set_user (us_id u) (count_failure now u)))
             (ret (Inl LOGIN_FAILED_MESSAGE))
         else
           thenE (set_user (us_id u) (\<lambda>u. u\<lparr>us_failedLoginCount := 0, us_loginLockedUntil := None\<rparr>))
           (bindE (createSession hash token (us_id u) (us_isPlatformAdmin u) meta) (\<lambda>tk. ret (Inr tk)))))"

subsection \<open>Password reset\<close>

text \<open>The workspace id \<open>"system"\<close> of a mail to a user without a membership.\<close>

definition SYSTEM_WORKSPACE :: uid where "SYSTEM_WORKSPACE = 0"

definition live_reset :: "uid \<Rightarrow> time \<Rightarrow> password_reset \<Rightarrow> bool" where
  "live_reset userId now r \<longleftrightarrow> rs_userId r = userId \<and> rs_usedAt r = None \<and> now < rs_expiresAt r"

definition reset_mail :: "string \<Rightarrow> string \<Rightarrow> user \<Rightarrow> uid \<Rightarrow> string \<Rightarrow> notify_input" where
  "reset_mail base token u ws email =
     \<lparr> ni_workspaceId = ws, ni_channel = CH_EMAIL, ni_templateCode = ''auth_reset_v1'',
       ni_subject = Some ''Reset your Seneschal password'',
       ni_body = ''Reset your password using this one-time link (expires in 1 hour):'' @ nl @ base @
         ''/login/reset/'' @ token,
       ni_toUserId = Some (us_id u), ni_toContactId = None, ni_toAddress = Some email,
       ni_preferChannel = None, ni_relatedType = None, ni_relatedId = None, ni_category = None,
       ni_urgent = False \<rparr>"

definition reset_row :: "(string \<Rightarrow> string) \<Rightarrow> string \<Rightarrow> uid \<Rightarrow> uid \<Rightarrow> time \<Rightarrow> password_reset" where
  "reset_row hash token userId i now =
     \<lparr> rs_id = i, rs_userId = userId, rs_tokenHash = hash token, rs_expiresAt = now + RESET_TTL_MS,
       rs_usedAt = None, rs_createdAt = now \<rparr>"

definition requestPasswordReset :: "(string \<Rightarrow> string) \<Rightarrow> string \<Rightarrow> string \<Rightarrow> string \<Rightarrow> unit svc" where
  "requestPasswordReset hash base token email =
     bindE (readE (find_user (normalized_email email))) (\<lambda>found.
     case found of
       None \<Rightarrow> ret ()
     | Some u \<Rightarrow>
         bindE getNow (\<lambda>now.
         bindE (readE (\<lambda>s. List.find (\<lambda>r. rs_userId r = us_id u \<and> now - RESET_COOLDOWN_MS < rs_createdAt r) (w_resets s)))
          (\<lambda>recent.
         if recent \<noteq> None then ret ()
         else
           thenE (writeE (\<lambda>s. s\<lparr>w_resets := upd_where (live_reset (us_id u) now) (\<lambda>r. r\<lparr>rs_expiresAt := now\<rparr>) (w_resets s)\<rparr>))
           (bindE newId (\<lambda>i.
            thenE (bindE (readE w_resets) (\<lambda>rows.
              assertE (\<forall>r \<in> set rows. rs_tokenHash r \<noteq> hash token) (UniqueViolation ''PasswordReset_tokenHash'')))
            (thenE (writeE (\<lambda>s. s\<lparr>w_resets := w_resets s @ [reset_row hash token (us_id u) i now]\<rparr>))
            (bindE (readE (\<lambda>s. List.find (\<lambda>m. mb_userId m = us_id u \<and> mb_revokedAt m = None) (w_memberships s)))
              (\<lambda>membership.
             bindE (notify (reset_mail base token u
               (case membership of None \<Rightarrow> SYSTEM_WORKSPACE | Some m \<Rightarrow> mb_workspaceId m) (normalized_email email)))
               (\<lambda>_. ret ())))))))))"

definition invalid_reset :: string where "invalid_reset = ''This reset link is no longer valid.''"

definition resetPassword ::
    "(string \<Rightarrow> string) \<Rightarrow> (string \<Rightarrow> string) \<Rightarrow> string \<Rightarrow> string \<Rightarrow> string \<Rightarrow> client_meta \<Rightarrow> (string + string) svc" where
  "resetPassword hash hashPassword sessionToken token plain meta =
     (if \<not> password_ok plain then ret (Inl policy_message)
      else
        bindE (readE (\<lambda>s. List.find (\<lambda>r. rs_tokenHash r = hash token) (w_resets s))) (\<lambda>found.
        bindE getNow (\<lambda>now.
        case found of
          None \<Rightarrow> ret (Inl invalid_reset)
        | Some row \<Rightarrow>
            if rs_usedAt row \<noteq> None \<or> rs_expiresAt row < now then ret (Inl invalid_reset)
            else
              bindE (readE (\<lambda>s. List.find (\<lambda>u. us_id u = rs_userId row) (w_users s))) (\<lambda>user.
              case user of
                None \<Rightarrow> ret (Inl invalid_reset)
              | Some u \<Rightarrow>
                  thenE (transaction
                    (thenE (writeE (\<lambda>s. s\<lparr>w_resets := upd_where (\<lambda>r. rs_id r = rs_id row) (\<lambda>r. r\<lparr>rs_usedAt := Some now\<rparr>) (w_resets s)\<rparr>))
                    (thenE (writeE (\<lambda>s. s\<lparr>w_resets := upd_where (\<lambda>r. rs_userId r = us_id u \<and> rs_usedAt r = None \<and> rs_id r \<noteq> rs_id row)
                        (\<lambda>r. r\<lparr>rs_expiresAt := now\<rparr>) (w_resets s)\<rparr>))
                      (set_user (us_id u) (with_password (hashPassword plain) now)))))
                  (bindE (createSession hash sessionToken (us_id u) (us_isPlatformAdmin u) meta) (\<lambda>tk. ret (Inr tk)))))))"

subsection \<open>The context of a request\<close>

text \<open>An \<open>AuthzError\<close> of the preferred workspace falls back; any other error is rethrown.\<close>

definition resolveCtxFor :: "uid \<Rightarrow> uid option \<Rightarrow> authz_ctx svc" where
  "resolveCtxFor userId preferred =
     (let fallback =
        bindE (readE (\<lambda>s. filter (\<lambda>m. mb_userId m = userId \<and> mb_revokedAt m = None) (w_memberships s))) (\<lambda>memberships.
        bindE (someE (forbidden ''No workspace membership'') (pickMembership memberships)) (\<lambda>m.
        authz userId (mb_workspaceId m)))
      in case preferred of
           None \<Rightarrow> fallback
         | Some ws \<Rightarrow> catchE (authz userId ws) (\<lambda>e. case e of AuthzError _ _ \<Rightarrow> fallback | _ \<Rightarrow> throw e))"

definition homePathFor :: "role \<Rightarrow> string" where
  "homePathFor r = (if isPersonaRole r then ''/portal'' else if r = ORG_ADMIN then ''/members'' else ''/dashboard'')"

definition requireCtx :: "(string \<Rightarrow> string) \<Rightarrow> string option \<Rightarrow> uid option \<Rightarrow> authz_ctx svc" where
  "requireCtx hash sessionCookie workspaceCookie =
     bindE (readE (sessionUser hash sessionCookie)) (\<lambda>found.
     bindE (someE (AuthzError ''Not signed in'' 401) found) (\<lambda>u. resolveCtxFor (us_id u) workspaceCookie))"

definition requirePlatformAdmin :: "(string \<Rightarrow> string) \<Rightarrow> string option \<Rightarrow> uid svc" where
  "requirePlatformAdmin hash sessionCookie =
     bindE (readE (sessionUser hash sessionCookie)) (\<lambda>found.
     bindE (someE (AuthzError ''Not signed in'' 401) found) (\<lambda>u.
     thenE (assertE (us_isPlatformAdmin u) (forbidden ''Platform admin only'')) (ret (us_id u))))"

subsection \<open>Sign-in\<close>

lemma set_user_eval:
  "List.find (\<lambda>u. us_id u = i) (w_users s) = Some u \<Longrightarrow>
   set_user i f s = (Inr (), s\<lparr>w_users := upd_where (\<lambda>u. us_id u = i) f (w_users s)\<rparr>)"
  by (simp add: set_user_def bindE_apply op_eval)

lemma find_user_id:
  "distinct (map us_id (w_users s)) \<Longrightarrow> find_user e s = Some u \<Longrightarrow> List.find (\<lambda>v. us_id v = us_id u) (w_users s) = Some u"
  by (auto simp: find_user_def dest!: find_Some_in intro: find_cong_key)

lemma createSession_ok:
  "createSession hash token userId adm meta s = (Inr tk, t) \<longleftrightarrow>
     (\<forall>r \<in> set (w_sessions s). se_tokenHash r \<noteq> hash token) \<and> tk = token \<and>
     t = s\<lparr>w_next := Suc (Suc (w_next s)),
       w_sessions := w_sessions s @ [session_row hash token userId meta (w_next s) (w_now s)],
       w_audit := w_audit s @ [audit_row (Suc (w_next s)) (w_now s)
         ((auditOf None (if adm then A_STAFF else A_USER) (Some userId) ''session.create'' ''Session'' None)\<lparr>ai_ip := cm_ip meta\<rparr>)]\<rparr>"
proof -
  have "audit_verb_ok ''session.create''" by (simp add: audit_verb_ok_def verb_char_def)
  then have "audit_verb_ok (ai_verb ((auditOf None a (Some userId) ''session.create'' ''Session'' None)\<lparr>ai_ip := x\<rparr>))" for a x
    by (simp add: auditOf_def)
  then show ?thesis
    unfolding createSession_def
    by (simp only: bindE_ok readE_ok writeE_ok assertE_ok ret_ok newId_ok getNow_ok recordAudit_ok simp_thms) auto
qed

definition cleared_login :: "user \<Rightarrow> user" where
  "cleared_login u = u\<lparr>us_failedLoginCount := 0, us_loginLockedUntil := None\<rparr>"

lemma login_cases:
  assumes "distinct (map us_id (w_users s))" and "find_user (normalized_email email) s = Some u"
  shows "is_locked (w_now s) u \<Longrightarrow> loginWithPassword hash verify token email pw meta s = (Inr (Inl LOGIN_FAILED_MESSAGE), s)"
    and "\<not> is_locked (w_now s) u \<Longrightarrow> \<not> spendOnPassword verify pw (us_passwordHash u) \<Longrightarrow>
      loginWithPassword hash verify token email pw meta s = (Inr (Inl LOGIN_FAILED_MESSAGE),
        s\<lparr>w_users := upd_where (\<lambda>v. us_id v = us_id u) (count_failure (w_now s) u) (w_users s)\<rparr>)"
    and "\<not> is_locked (w_now s) u \<Longrightarrow> spendOnPassword verify pw (us_passwordHash u) \<Longrightarrow>
      loginWithPassword hash verify token email pw meta s =
        (case createSession hash token (us_id u) (us_isPlatformAdmin u) meta
            (s\<lparr>w_users := upd_where (\<lambda>v. us_id v = us_id u) cleared_login (w_users s)\<rparr>) of
          (Inl e, t) \<Rightarrow> (Inl e, t) | (Inr tk, t) \<Rightarrow> (Inr (Inr tk), t))"
  using assms(2) set_user_eval [OF find_user_id [OF assms]]
  by (simp_all add: loginWithPassword_def bindE_apply op_eval whenE_eval Let_def cleared_login_def [abs_def] split: prod.splits sum.splits)

text \<open>
  C23: a sign-in hands out a session exactly to a known user that is not locked out and whose stored
  password the check accepts; every other attempt gets the same answer, whether the address is
  unknown, the password missing or wrong, or the account locked, in which case even the right
  password is refused and nothing changes. A handed-out session opens its own user until it
  expires after thirty days or is revoked.
\<close>

theorem login_exact:
  assumes "distinct (map us_id (w_users s))" and "token \<noteq> []"
    and "\<And>r. r \<in> set (w_sessions s) \<Longrightarrow> se_tokenHash r \<noteq> hash token"
  shows "case find_user (normalized_email email) s of
      None \<Rightarrow> loginWithPassword hash verify token email pw meta s = (Inr (Inl LOGIN_FAILED_MESSAGE), s)
    | Some u \<Rightarrow>
        if is_locked (w_now s) u then loginWithPassword hash verify token email pw meta s = (Inr (Inl LOGIN_FAILED_MESSAGE), s)
        else if \<not> spendOnPassword verify pw (us_passwordHash u)
          then fst (loginWithPassword hash verify token email pw meta s) = Inr (Inl LOGIN_FAILED_MESSAGE)
        else \<exists>t. loginWithPassword hash verify token email pw meta s = (Inr (Inr token), t) \<and>
          sessionUser hash (Some token) (t\<lparr>w_now := now\<rparr>) =
            (if w_now s + SESSION_TTL_MS < now then None else Some (cleared_login u)) \<and>
          sessionUser hash (Some token) (snd (revokeSession hash token t)\<lparr>w_now := now\<rparr>) = None"
proof (cases "find_user (normalized_email email) s")
  case None
  then show ?thesis by (simp add: loginWithPassword_def bindE_apply op_eval)
next
  case (Some u)
  note cases = login_cases [OF assms(1) Some]
  show ?thesis
  proof (cases "is_locked (w_now s) u \<or> \<not> spendOnPassword verify pw (us_passwordHash u)")
    case True
    then show ?thesis by (cases "is_locked (w_now s) u") (simp_all add: cases(1,2) Some)
  next
    case False
    let ?s = "s\<lparr>w_users := upd_where (\<lambda>v. us_id v = us_id u) cleared_login (w_users s)\<rparr>"
    obtain t where t: "createSession hash token (us_id u) (us_isPlatformAdmin u) meta ?s = (Inr token, t)"
      using assms(3) unfolding createSession_ok by simp
    have sessions: "w_sessions t = w_sessions s @ [session_row hash token (us_id u) meta (w_next s) (w_now s)]"
      and users: "w_users t = w_users ?s" and now: "w_now t = w_now s"
      using t unfolding createSession_ok by simp_all
    have run: "loginWithPassword hash verify token email pw meta s = (Inr (Inr token), t)"
      using False cases(3) t by simp
    let ?row = "session_row hash token (us_id u) meta (w_next s) (w_now s)"
    have found: "List.find (\<lambda>r. se_tokenHash r = hash token) (w_sessions t) = Some ?row"
      unfolding sessions using assms(3) by (intro find_append_new) (auto simp: session_row_def)
    have user: "List.find (\<lambda>v. us_id v = us_id u) (w_users t) = Some (cleared_login u)"
      using find_user_id [OF assms(1) Some] by (simp add: users find_upd_where_same cleared_login_def)
    have "List.find (\<lambda>r. se_tokenHash r = hash token) (w_sessions (snd (revokeSession hash token t)))
        = Some (?row\<lparr>se_revokedAt := Some (w_now t)\<rparr>)"
      by (simp add: revokeSession_def bindE_apply op_eval find_upd_where_same found) (simp add: session_row_def)
    then show ?thesis using False Some run found user assms(2)
      by (auto simp: sessionUser_def) (simp_all add: session_row_def)
  qed
qed

text \<open>Attempts at one account, one after the other; each is a time, the token it would hand out and a password.\<close>

type_synonym attempt = "time \<times> string \<times> string"

primrec attempts ::
    "(string \<Rightarrow> string) \<Rightarrow> (string \<Rightarrow> string \<Rightarrow> bool) \<Rightarrow> string \<Rightarrow> client_meta \<Rightarrow> attempt list \<Rightarrow> world \<Rightarrow>
     (error + (string + string)) list \<times> world" where
  "attempts hash verify email meta [] s = ([], s)"
| "attempts hash verify email meta (g # gs) s =
     (let (r, t) = loginWithPassword hash verify (fst (snd g)) email (snd (snd g)) meta (s\<lparr>w_now := fst g\<rparr>);
          (rs, u) = attempts hash verify email meta gs t
      in (r # rs, u))"

lemma attempts_append:
  "attempts hash verify email meta (xs @ ys) s =
     (let (rs, t) = attempts hash verify email meta xs s; (rs', u) = attempts hash verify email meta ys t in (rs @ rs', u))"
  by (induction xs arbitrary: s) (simp_all add: Let_def split: prod.splits)

definition refused_all :: "nat \<Rightarrow> (error + (string + string)) list" where
  "refused_all n = replicate n (Inr (Inl LOGIN_FAILED_MESSAGE))"

text \<open>The account stands, and nobody was let in.\<close>

definition account :: "string \<Rightarrow> user \<Rightarrow> session list \<Rightarrow> world \<Rightarrow> bool" where
  "account email u sessions s \<longleftrightarrow> distinct (map us_id (w_users s)) \<and> find_user (normalized_email email) s = Some u \<and>
     w_sessions s = sessions"

lemma attempts_locked:
  assumes "account email u se s" and "us_loginLockedUntil u = Some l" and "\<And>g. g \<in> set gs \<Longrightarrow> fst g < l"
  shows "\<exists>t. attempts hash verify email meta gs s = (refused_all (length gs), t) \<and> account email u se t"
  using assms
proof (induction gs arbitrary: s)
  case (Cons g gs)
  let ?s = "s\<lparr>w_now := fst g\<rparr>"
  have acc: "account email u se ?s" using Cons.prems(1) by (simp add: account_def find_user_def)
  then have "loginWithPassword hash verify (fst (snd g)) email (snd (snd g)) meta ?s = (Inr (Inl LOGIN_FAILED_MESSAGE), ?s)"
    using login_cases(1) [of ?s email u] Cons.prems(2,3) by (simp add: account_def is_locked_def)
  then show ?case using Cons.IH [OF acc] Cons.prems(2,3) by (auto simp: refused_all_def)
qed (simp add: refused_all_def)

lemma attempts_wrong:
  assumes "account email u se s" and "gs \<noteq> []" and "length gs = nat (max 1 (MAX_LOGIN_FAILURES - us_failedLoginCount u))"
    and "\<And>g. g \<in> set gs \<Longrightarrow> \<not> is_locked (fst g) u"
    and "\<And>g. g \<in> set gs \<Longrightarrow> \<not> spendOnPassword verify (snd (snd g)) (us_passwordHash u)"
  shows "\<exists>t v. attempts hash verify email meta gs s = (refused_all (length gs), t) \<and> account email v se t \<and>
    us_loginLockedUntil v = Some (fst (last gs) + LOGIN_LOCK_MS)"
  using assms
proof (induction gs arbitrary: s u)
  case (Cons g gs)
  let ?s = "s\<lparr>w_now := fst g\<rparr>" and ?v = "count_failure (fst g) u u"
  let ?t = "?s\<lparr>w_users := upd_where (\<lambda>v. us_id v = us_id u) (count_failure (fst g) u) (w_users s)\<rparr>"
  have keep: "us_id (count_failure n a x) = us_id x" "us_email (count_failure n a x) = us_email x"
    "us_passwordHash (count_failure n a x) = us_passwordHash x" "us_failedLoginCount (count_failure n a x) = us_failedLoginCount a + 1"
    for n a x by (simp_all add: count_failure_def Let_def)
  have s: "distinct (map us_id (w_users ?s))" "find_user (normalized_email email) ?s = Some u" "w_sessions s = se"
    using Cons.prems(1) by (simp_all add: account_def find_user_def)
  have step: "loginWithPassword hash verify (fst (snd g)) email (snd (snd g)) meta ?s = (Inr (Inl LOGIN_FAILED_MESSAGE), ?t)"
    using login_cases(2) [OF s(1,2)] Cons.prems(4,5) by simp
  have t: "account email ?v se ?t"
    using s by (simp add: account_def map_upd_where keep find_user_def find_upd_where_same)
  show ?case
  proof (cases "gs = []")
    case True
    then have "MAX_LOGIN_FAILURES \<le> us_failedLoginCount u + 1" using Cons.prems(3) by (simp add: max_def split: if_splits)
    then have "us_loginLockedUntil ?v = Some (fst g + LOGIN_LOCK_MS)" by (simp add: count_failure_def Let_def)
    then show ?thesis using True step t by (auto simp: refused_all_def)
  next
    case False
    then have n: "length gs = nat (max 1 (MAX_LOGIN_FAILURES - us_failedLoginCount ?v))" "us_failedLoginCount u + 1 < MAX_LOGIN_FAILURES"
      using Cons.prems(3) unfolding keep by (cases gs; simp add: max_def split: if_splits; linarith)+
    then have "us_loginLockedUntil ?v = us_loginLockedUntil u" by (simp add: count_failure_def Let_def)
    then have "\<not> is_locked (fst h) ?v" if "h \<in> set gs" for h
      using Cons.prems(4) [of h] that by (simp add: is_locked_def)
    then obtain x w where "attempts hash verify email meta gs ?t = (refused_all (length gs), x)" "account email w se x"
        "us_loginLockedUntil w = Some (fst (last gs) + LOGIN_LOCK_MS)"
      using Cons.IH [OF t False n(1)] Cons.prems(5) keep by auto
    then show ?thesis using False step by (auto simp: refused_all_def)
  qed
qed simp


text \<open>Witnesses: an account with a password, tried right and wrong.\<close>

definition sample_user :: user where
  "sample_user = \<lparr> us_id = 1, us_email = ''a@b'', us_name = ''A'', us_phone = None, us_locale = ''en'',
     us_isPlatformAdmin = False, us_passwordHash = Some ''longpassword'', us_passwordSetAt = None,
     us_failedLoginCount = 0, us_loginLockedUntil = None \<rparr>"

definition user_world :: world where
  "user_world = empty_world\<lparr>w_users := [sample_user]\<rparr>"

lemma user_world_facts:
  "distinct (map us_id (w_users user_world))" "find_user (normalized_email '' A@b'') user_world = Some sample_user"
  "w_sessions user_world = []" "w_resets user_world = []" "w_now user_world = 0"
proof -
  have "normalized_email '' A@b'' = ''a@b''" by code_simp
  then show "find_user (normalized_email '' A@b'') user_world = Some sample_user"
    by (simp add: user_world_def find_user_def sample_user_def)
qed (simp_all add: user_world_def empty_world_def)

theorem login_exact_witness:
  "\<exists>t. loginWithPassword id (=) ''tok'' '' A@b'' ''longpassword'' \<lparr> cm_ip = None, cm_device = None \<rparr> user_world = (Inr (Inr ''tok''), t) \<and>
     sessionUser id (Some ''tok'') (t\<lparr>w_now := 2592000000\<rparr>) = Some sample_user"
proof -
  have "\<not> is_locked 0 sample_user" "spendOnPassword (=) ''longpassword'' (us_passwordHash sample_user)"
    "cleared_login sample_user = sample_user"
    by (simp_all add: is_locked_def spendOnPassword_def sample_user_def cleared_login_def)
  then show ?thesis
    using login_exact [OF user_world_facts(1), where token = "''tok''" and hash = id and email = "'' A@b''" and verify = "(=)"
        and pw = "''longpassword''" and meta = "\<lparr> cm_ip = None, cm_device = None \<rparr>" and now = 2592000000]
    by (simp add: user_world_facts SESSION_TTL_MS_def) blast
qed


subsection \<open>Password reset\<close>

lemma resetPassword_ok:
  assumes "resetPassword hash hashPassword sessionToken token plain meta s = (Inr (Inr tk), t)"
  obtains row u where "password_ok plain" "List.find (\<lambda>r. rs_tokenHash r = hash token) (w_resets s) = Some row"
    "rs_usedAt row = None" "w_now s \<le> rs_expiresAt row" "List.find (\<lambda>u. us_id u = rs_userId row) (w_users s) = Some u"
    "w_resets t = upd_where (\<lambda>r. rs_userId r = us_id u \<and> rs_usedAt r = None \<and> rs_id r \<noteq> rs_id row) (\<lambda>r. r\<lparr>rs_expiresAt := w_now s\<rparr>)
       (upd_where (\<lambda>r. rs_id r = rs_id row) (\<lambda>r. r\<lparr>rs_usedAt := Some (w_now s)\<rparr>) (w_resets s))"
    "w_users t = upd_where (\<lambda>v. us_id v = us_id u) (with_password (hashPassword plain) (w_now s)) (w_users s)"
    "w_now t = w_now s"
proof -
  have ok: "password_ok plain" using assms by (auto simp: resetPassword_def ret_eval split: if_splits)
  obtain row where row: "List.find (\<lambda>r. rs_tokenHash r = hash token) (w_resets s) = Some row"
    using assms ok by (auto simp: resetPassword_def bindE_apply op_eval split: option.splits)
  have live: "rs_usedAt row = None" "w_now s \<le> rs_expiresAt row"
    using assms ok row by (auto simp: resetPassword_def bindE_apply op_eval split: if_splits)
  obtain u where u: "List.find (\<lambda>u. us_id u = rs_userId row) (w_users s) = Some u"
    using assms ok row live by (auto simp: resetPassword_def bindE_apply op_eval split: option.splits)
  have id: "us_id u = rs_userId row" using find_Some_in [OF u] by simp
  let ?r = "upd_where (\<lambda>r. rs_userId r = us_id u \<and> rs_usedAt r = None \<and> rs_id r \<noteq> rs_id row) (\<lambda>r. r\<lparr>rs_expiresAt := w_now s\<rparr>)
       (upd_where (\<lambda>r. rs_id r = rs_id row) (\<lambda>r. r\<lparr>rs_usedAt := Some (w_now s)\<rparr>) (w_resets s))"
  let ?u = "upd_where (\<lambda>v. us_id v = us_id u) (with_password (hashPassword plain) (w_now s)) (w_users s)"
  have "createSession hash sessionToken (us_id u) (us_isPlatformAdmin u) meta (s\<lparr>w_resets := ?r, w_users := ?u\<rparr>) = (Inr tk, t)"
    using assms ok row live u
    by (auto simp: resetPassword_def bindE_apply op_eval transaction_def set_user_eval id split: prod.splits sum.splits)
  then have "w_resets t = ?r" "w_users t = ?u" "w_now t = w_now s" by (simp_all add: createSession_ok)
  then show thesis using that ok row live u by blast
qed

text \<open>
  a reset link works once and the last one wins: after a reset the account has the new password
  and no lockout, the used link is refused from then on, and so is, from the next instant on,
  every other link that account was ever sent and had not used.
\<close>

theorem reset_link_works_once:
  assumes "resetPassword hash hashPassword sessionToken token plain meta s = (Inr (Inr tk), t)"
    and "distinct (map rs_id (w_resets s))" and "w_now s < now" and "password_ok plain2"
    and "List.find (\<lambda>r. rs_tokenHash r = hash token) (w_resets s) = Some row"
    and "other = token \<or> (\<exists>r. List.find (\<lambda>r. rs_tokenHash r = hash other) (w_resets s) = Some r \<and> rs_userId r = rs_userId row)"
  shows "(\<exists>u \<in> set (w_users t). us_id u = rs_userId row \<and> us_passwordHash u = Some (hashPassword plain) \<and> \<not> is_locked now u) \<and>
    resetPassword hash hashPassword st2 other plain2 meta2 (t\<lparr>w_now := now\<rparr>) = (Inr (Inl invalid_reset), t\<lparr>w_now := now\<rparr>)"
proof -
  obtain row' u where row': "List.find (\<lambda>r. rs_tokenHash r = hash token) (w_resets s) = Some row'"
    and live: "rs_usedAt row' = None" and u': "List.find (\<lambda>u. us_id u = rs_userId row') (w_users s) = Some u"
    and resets': "w_resets t = upd_where (\<lambda>r. rs_userId r = us_id u \<and> rs_usedAt r = None \<and> rs_id r \<noteq> rs_id row') (\<lambda>r. r\<lparr>rs_expiresAt := w_now s\<rparr>)
       (upd_where (\<lambda>r. rs_id r = rs_id row') (\<lambda>r. r\<lparr>rs_usedAt := Some (w_now s)\<rparr>) (w_resets s))"
    and users: "w_users t = upd_where (\<lambda>v. us_id v = us_id u) (with_password (hashPassword plain) (w_now s)) (w_users s)"
    by (rule resetPassword_ok [OF assms(1)])
  have same: "row' = row" using row' assms(5) by simp
  note u = u' [unfolded same] and resets = resets' [unfolded same]
  have id: "us_id u = rs_userId row" "u \<in> set (w_users s)" using find_Some_in [OF u] by auto
  have "with_password (hashPassword plain) (w_now s) u \<in> set (w_users t)"
    using id(2) by (auto simp: users set_upd_where)
  then have first: "\<exists>u \<in> set (w_users t). us_id u = rs_userId row \<and> us_passwordHash u = Some (hashPassword plain) \<and> \<not> is_locked now u"
    by (rule bexI [rotated]) (simp add: with_password_def is_locked_def id)
  obtain r where r: "List.find (\<lambda>r. rs_tokenHash r = hash other) (w_resets s) = Some r" "rs_userId r = rs_userId row"
    using assms(5,6) by blast
  let ?r1 = "if rs_id r = rs_id row then r\<lparr>rs_usedAt := Some (w_now s)\<rparr> else r"
  let ?r2 = "if rs_userId ?r1 = us_id u \<and> rs_usedAt ?r1 = None \<and> rs_id ?r1 \<noteq> rs_id row then ?r1\<lparr>rs_expiresAt := w_now s\<rparr> else ?r1"
  have found: "List.find (\<lambda>r. rs_tokenHash r = hash other) (w_resets t) = Some ?r2"
    unfolding resets by (simp add: find_upd_where_same r(1))
  have "rs_usedAt ?r2 \<noteq> None \<or> rs_expiresAt ?r2 < now"
    using assms(3) id(1) r(2) by auto
  then have "resetPassword hash hashPassword st2 other plain2 meta2 (t\<lparr>w_now := now\<rparr>) = (Inr (Inl invalid_reset), t\<lparr>w_now := now\<rparr>)"
    using assms(4) found by (simp add: resetPassword_def bindE_apply op_eval)
  then show ?thesis using first by blast
qed

definition sample_reset :: password_reset where
  "sample_reset = \<lparr> rs_id = 7, rs_userId = 1, rs_tokenHash = ''r1'', rs_expiresAt = 10, rs_usedAt = None, rs_createdAt = 0 \<rparr>"

theorem reset_link_works_once_witness:
  "\<exists>t. resetPassword id id ''st'' ''r1'' ''newpassword'' \<lparr> cm_ip = None, cm_device = None \<rparr>
       (user_world\<lparr>w_resets := [sample_reset, sample_reset\<lparr>rs_id := 8, rs_tokenHash := ''r2''\<rparr>]\<rparr>) = (Inr (Inr ''st''), t) \<and>
     fst (resetPassword id id ''s2'' ''r2'' ''otherpassword'' \<lparr> cm_ip = None, cm_device = None \<rparr> (t\<lparr>w_now := 1\<rparr>)) =
       Inr (Inl invalid_reset)"
proof -
  let ?meta = "\<lparr> cm_ip = None, cm_device = None \<rparr>"
  let ?s = "user_world\<lparr>w_resets := [sample_reset, sample_reset\<lparr>rs_id := 8, rs_tokenHash := ''r2''\<rparr>]\<rparr>"
  define t where "t = snd (resetPassword id id ''st'' ''r1'' ''newpassword'' ?meta ?s)"
  have verb: "audit_verb_ok ''session.create''" by (simp add: audit_verb_ok_def verb_char_def)
  have tables: "w_users user_world = [sample_user]" "w_sessions user_world = []" "us_id sample_user = 1" "w_now user_world = 0"
    by (simp_all add: user_world_def empty_world_def sample_user_def)
  have "fst (resetPassword id id ''st'' ''r1'' ''newpassword'' ?meta ?s) = Inr (Inr ''st'')"
    by (simp add: resetPassword_def bindE_apply op_eval password_ok_def MIN_PASSWORD_LENGTH_def sample_reset_def tables
        transaction_def set_user_def createSession_def recordAudit_def auditOf_def verb)
  then have run: "resetPassword id id ''st'' ''r1'' ''newpassword'' ?meta ?s = (Inr (Inr ''st''), t)"
    by (simp add: t_def prod_eq_iff)
  have "List.find (\<lambda>r. rs_tokenHash r = id ''r1'') (w_resets ?s) = Some sample_reset"
    "List.find (\<lambda>r. rs_tokenHash r = id ''r2'') (w_resets ?s) = Some (sample_reset\<lparr>rs_id := 8, rs_tokenHash := ''r2''\<rparr>)"
    "distinct (map rs_id (w_resets ?s))" "w_now ?s < 1" "password_ok ''otherpassword''"
    by (simp_all add: sample_reset_def user_world_facts password_ok_def MIN_PASSWORD_LENGTH_def)
  then have "resetPassword id id ''s2'' ''r2'' ''otherpassword'' ?meta (t\<lparr>w_now := 1\<rparr>) = (Inr (Inl invalid_reset), t\<lparr>w_now := 1\<rparr>)"
    using reset_link_works_once [OF run, of 1 "''otherpassword''" sample_reset "''r2''" "''s2''" ?meta] by auto
  with run show ?thesis by auto
qed

end
