(* ===== verification/Members.thy ===== *)
theory Members
  imports Auth
begin

text \<open>
  \<open>services/members.ts\<close> with \<open>lib/seats.ts\<close>, \<open>services/assignments.ts\<close>, \<open>services/admin.ts\<close> and
  \<open>server/admin/provisioning.ts\<close>: who is let into a workspace, in which seat, with which overlay
  and with which units. Ids of contacts are never strings with blanks, so the trimming of
  \<open>subjectContactId\<close> is not a branch here; the members of the platform plane are users.
\<close>

subsection \<open>Seats\<close>

definition INVITEABLE_SEATS :: "role list" where
  "INVITEABLE_SEATS = [ORG_ADMIN, MANAGER, MANAGING_AGENT, LANDLORD]"

definition isInviteableSeat :: "role \<Rightarrow> bool" where
  "isInviteableSeat r \<longleftrightarrow> r \<in> set INVITEABLE_SEATS"

definition inviteableSeatsFor :: "workspaceType \<Rightarrow> role list" where
  "inviteableSeatsFor ty =
     (if ty = WT_FIDUCIARY then INVITEABLE_SEATS else filter (\<lambda>seat. seat \<noteq> LANDLORD) INVITEABLE_SEATS)"

fun ROLE_SEAT_LABEL :: "role \<Rightarrow> string" where
  "ROLE_SEAT_LABEL WORKSPACE_ADMIN = ''Workspace admin''"
| "ROLE_SEAT_LABEL ORG_ADMIN = ''Office admin''"
| "ROLE_SEAT_LABEL MANAGER = ''Staff''"
| "ROLE_SEAT_LABEL FIDUCIARY = ''Fiduciary''"
| "ROLE_SEAT_LABEL MANAGING_AGENT = ''Agent''"
| "ROLE_SEAT_LABEL AGENT = ''Agent''"
| "ROLE_SEAT_LABEL CLIENT_VIEWER = ''Client viewer''"
| "ROLE_SEAT_LABEL AUDITOR = ''Auditor''"
| "ROLE_SEAT_LABEL LANDLORD = ''Owner''"
| "ROLE_SEAT_LABEL TENANT = ''Tenant''"
| "ROLE_SEAT_LABEL LICENSED_PARTNER = ''Licensed partner''"
| "ROLE_SEAT_LABEL VENDOR = ''Vendor''"

definition memberSeatLabel :: "role \<Rightarrow> bool \<Rightarrow> string" where
  "memberSeatLabel r overlayOfficeAdmin =
     (if overlayOfficeAdmin \<and> r \<noteq> ORG_ADMIN then ROLE_SEAT_LABEL r @ mid_dot @ ''office admin'' else ROLE_SEAT_LABEL r)"

definition emailForOwnerContactChoice :: "(uid \<times> string option) list \<Rightarrow> uid option \<Rightarrow> string" where
  "emailForOwnerContactChoice contacts contactId =
     (case contactId of None \<Rightarrow> []
      | Some i \<Rightarrow> (case List.find (\<lambda>c. fst c = i) contacts of Some (_, Some e) \<Rightarrow> e | _ \<Rightarrow> []))"

subsection \<open>Invitations\<close>

definition INVITE_TTL_DAYS :: int where "INVITE_TTL_DAYS = 14"

definition GRANTABLE_BUNDLES :: "capBundle list" where "GRANTABLE_BUNDLES = GRANT_HONORED_BUNDLES"

text \<open>The audit input of \<open>actor(ctx, onBehalfOfId)\<close>.\<close>

definition audit_for :: "authz_ctx \<Rightarrow> uid option \<Rightarrow> string \<Rightarrow> string \<Rightarrow> uid option \<Rightarrow> audit_input" where
  "audit_for ctx onBehalfOf verb oty oid =
     (auditOf (Some (cx_workspaceId ctx)) (actor_of ctx) (Some (cx_userId ctx)) verb oty oid)
       \<lparr>ai_onBehalfOfId := onBehalfOf\<rparr>"

definition open_invite :: "time \<Rightarrow> workspace_invite \<Rightarrow> bool" where
  "open_invite now v \<longleftrightarrow> iv_acceptedAt v = None \<and> iv_revokedAt v = None \<and> now < iv_expiresAt v"

definition workspace_type :: "uid \<Rightarrow> workspaceType svc" where
  "workspace_type i =
     bindE (readE (\<lambda>s. List.find (\<lambda>w. ws_id w = i) (w_workspaces s))) (\<lambda>w.
     bindE (someE RecordNotFound w) (\<lambda>w. ret (ws_type w)))"

text \<open>Is there a live owner seat for the contact?\<close>

definition owner_seated :: "uid \<Rightarrow> uid \<Rightarrow> world \<Rightarrow> bool" where
  "owner_seated ws contactId s \<longleftrightarrow> List.find (\<lambda>m. mb_workspaceId m = ws \<and> mb_role m = LANDLORD \<and>
     mb_subjectContactId m = Some contactId \<and> mb_revokedAt m = None) (w_memberships s) \<noteq> None"

definition assertOwnerInviteContact :: "uid \<Rightarrow> uid \<Rightarrow> unit svc" where
  "assertOwnerInviteContact ws contactId =
     thenE (bindE (readE (\<lambda>s. List.find (\<lambda>c. ct_id c = contactId \<and> ct_workspaceId c = ws \<and> ct_kind c = CK_OWNER \<and>
        ct_archivedAt c = None) (w_contacts s))) (\<lambda>contact. assertE (contact \<noteq> None) notFound))
     (bindE (readE (owner_seated ws contactId)) (\<lambda>seated.
       assertE (\<not> seated) (AuthzError ''That owner already has a member seat.'' 409)))"

definition intendedBundlesForSeat :: "role \<Rightarrow> capBundle list" where
  "intendedBundlesForSeat r = (if r = ORG_ADMIN then [B_ORG_ADMIN] else [])"

definition live_member_of :: "uid \<Rightarrow> string \<Rightarrow> world \<Rightarrow> bool" where
  "live_member_of ws email s \<longleftrightarrow>
     (case find_user email s of None \<Rightarrow> False
      | Some u \<Rightarrow> List.find (\<lambda>m. mb_workspaceId m = ws \<and> mb_userId m = us_id u \<and> mb_revokedAt m = None) (w_memberships s) \<noteq> None)"

record invite_args =
  va_email :: string
  va_role :: role
  va_subjectContactId :: "uid option"

definition invite_row :: "(string \<Rightarrow> string) \<Rightarrow> string \<Rightarrow> authz_ctx \<Rightarrow> invite_args \<Rightarrow> uid \<Rightarrow> time \<Rightarrow> workspace_invite" where
  "invite_row hash token ctx args i now =
     \<lparr> iv_id = i, iv_workspaceId = cx_workspaceId ctx, iv_email = normalized_email (va_email args),
       iv_intendedBundles = intendedBundlesForSeat (va_role args), iv_intendedRole = Some (va_role args),
       iv_subjectContactId = (if va_role args = LANDLORD then va_subjectContactId args else None),
       iv_tokenHash = hash token, iv_invitedById = Some (cx_userId ctx), iv_platformIssued = False,
       iv_expiresAt = now + INVITE_TTL_DAYS * 24 * 60 * 60 * 1000, iv_acceptedAt = None,
       iv_acceptedUserId = None, iv_revokedAt = None, iv_createdAt = now \<rparr>"

definition add_invite :: "workspace_invite \<Rightarrow> unit svc" where
  "add_invite v =
     thenE (bindE (readE w_invites) (\<lambda>rows.
        assertE (\<forall>r \<in> set rows. iv_tokenHash r \<noteq> iv_tokenHash v) (UniqueViolation ''WorkspaceInvite_tokenHash'')))
       (writeE (\<lambda>s. s\<lparr>w_invites := w_invites s @ [v]\<rparr>))"

definition owner_invite_checks :: "authz_ctx \<Rightarrow> invite_args \<Rightarrow> unit svc" where
  "owner_invite_checks ctx args =
     (if va_role args = LANDLORD then
        bindE (someE (AuthzError ''Pick the owner contact they act as.'' 422) (va_subjectContactId args)) (\<lambda>c.
        thenE (assertOwnerInviteContact (cx_workspaceId ctx) c)
        (bindE getNow (\<lambda>now.
         bindE (readE (\<lambda>s. List.find (\<lambda>v. iv_workspaceId v = cx_workspaceId ctx \<and> iv_intendedRole v = Some LANDLORD \<and>
             iv_subjectContactId v = Some c \<and> open_invite now v) (w_invites s))) (\<lambda>pending.
         assertE (pending = None) (AuthzError ''An invitation is already outstanding for that owner.'' 409)))))
      else assertE (va_subjectContactId args = None) (AuthzError ''That seat is not bound to a contact.'' 422))"

definition inviteMember ::
    "(string \<Rightarrow> string) \<Rightarrow> string \<Rightarrow> string \<Rightarrow> authz_ctx \<Rightarrow> invite_args \<Rightarrow> (uid \<times> string \<times> string) svc" where
  "inviteMember hash base token ctx args =
     thenE (requireCap ctx ''members.invite'')
     (thenE (assertE (normalized_email (va_email args) \<noteq> []) (AuthzError ''Email required'' 422))
     (thenE (assertE (isInviteableSeat (va_role args)) (AuthzError ''That seat is not invited from here.'' 422))
     (bindE (workspace_type (cx_workspaceId ctx)) (\<lambda>ty.
      thenE (assertE (va_role args \<in> set (inviteableSeatsFor ty))
        (AuthzError ''Owner seats are invited from an agency workspace.'' 422))
      (thenE (owner_invite_checks ctx args)
      (bindE getNow (\<lambda>now.
       thenE (bindE (readE (\<lambda>s. List.find (\<lambda>v. iv_workspaceId v = cx_workspaceId ctx \<and>
           iv_email v = normalized_email (va_email args) \<and> open_invite now v) (w_invites s))) (\<lambda>live.
         assertE (live = None) (AuthzError ''An invitation is already outstanding for this email.'' 409)))
       (thenE (bindE (readE (live_member_of (cx_workspaceId ctx) (normalized_email (va_email args)))) (\<lambda>member.
         assertE (va_role args = ORG_ADMIN \<or> \<not> member)
           (AuthzError ''That person is already a member of this workspace.'' 409)))
       (bindE newId (\<lambda>i.
        thenE (add_invite (invite_row hash token ctx args i now))
        (thenE (recordAudit (audit_for ctx None ''invite.issue'' ''WorkspaceInvite'' (Some i)))
          (ret (i, token, base @ ''/invite/'' @ token)))))))))))))"

definition inviteOrgAdmin ::
    "(string \<Rightarrow> string) \<Rightarrow> string \<Rightarrow> string \<Rightarrow> authz_ctx \<Rightarrow> string \<Rightarrow> (uid \<times> string \<times> string) svc" where
  "inviteOrgAdmin hash base token ctx email =
     inviteMember hash base token ctx \<lparr> va_email = email, va_role = ORG_ADMIN, va_subjectContactId = None \<rparr>"

definition revokeInvite :: "authz_ctx \<Rightarrow> uid \<Rightarrow> unit svc" where
  "revokeInvite ctx inviteId =
     thenE (requireCap ctx ''members.manage'')
     (bindE (readE (\<lambda>s. List.find (\<lambda>v. iv_id v = inviteId) (w_invites s))) (\<lambda>found.
      thenE (assertE (map_option iv_workspaceId found = Some (cx_workspaceId ctx)) notFound)
      (bindE getNow (\<lambda>now.
       thenE (writeE (\<lambda>s. s\<lparr>w_invites := upd_where (\<lambda>v. iv_id v = inviteId) (\<lambda>v. v\<lparr>iv_revokedAt := Some now\<rparr>) (w_invites s)\<rparr>))
       (thenE (recordAudit (audit_for ctx None ''invite.revoke'' ''WorkspaceInvite'' (Some inviteId))) (ret ()))))))"

subsection \<open>Accepting\<close>

text \<open>\<open>prisma.membership.create\<close>, under the unique index on workspace, user and role.\<close>

definition create_membership :: "uid \<Rightarrow> uid \<Rightarrow> role \<Rightarrow> uid option \<Rightarrow> uid option \<Rightarrow> uid svc" where
  "create_membership ws userId r clientPrincipalId subjectContactId =
     bindE getNow (\<lambda>now. bindE newId (\<lambda>i.
     thenE (bindE (readE w_memberships) (\<lambda>rows.
        assertE (\<forall>m \<in> set rows. \<not> (mb_workspaceId m = ws \<and> mb_userId m = userId \<and> mb_role m = r))
          (UniqueViolation ''Membership_workspaceId_userId_role'')))
     (thenE (writeE (\<lambda>s. s\<lparr>w_memberships := w_memberships s @
        [\<lparr> mb_id = i, mb_workspaceId = ws, mb_userId = userId, mb_role = r, mb_clientPrincipalId = clientPrincipalId,
           mb_subjectContactId = subjectContactId, mb_createdAt = now, mb_revokedAt = None \<rparr>]\<rparr>))
       (ret i))))"

definition seatOrReactivate :: "uid \<Rightarrow> uid \<Rightarrow> role \<Rightarrow> uid option \<Rightarrow> unit svc" where
  "seatOrReactivate ws userId r subjectContactId =
     bindE (readE (\<lambda>s. List.find (\<lambda>m. mb_workspaceId m = ws \<and> mb_userId m = userId \<and> mb_role m = r) (w_memberships s)))
      (\<lambda>existing.
     thenE (assertE (case existing of None \<Rightarrow> True | Some m \<Rightarrow> mb_revokedAt m \<noteq> None)
        (AuthzError ''That person is already a member of this workspace.'' 409))
     (case existing of
        Some m \<Rightarrow> writeE (\<lambda>s. s\<lparr>w_memberships := upd_where (\<lambda>x. mb_id x = mb_id m)
          (\<lambda>x. x\<lparr> mb_revokedAt := None,
             mb_subjectContactId := (if r = LANDLORD then subjectContactId else mb_subjectContactId x) \<rparr>) (w_memberships s)\<rparr>)
      | None \<Rightarrow> thenE (create_membership ws userId r None (if r = LANDLORD then subjectContactId else None)) (ret ())))"

text \<open>\<open>prisma.membershipGrant.create\<close>, under the partial unique index on live grants.\<close>

definition create_grant :: "uid \<Rightarrow> capBundle \<Rightarrow> uid \<Rightarrow> membership_grant svc" where
  "create_grant membershipId b grantedById =
     bindE getNow (\<lambda>now. bindE newId (\<lambda>i.
     let g = \<lparr> gr_id = i, gr_membershipId = membershipId, gr_bundle = b, gr_grantedById = grantedById,
               gr_grantedAt = now, gr_revokedAt = None, gr_revokedById = None \<rparr> in
     thenE (bindE (readE w_grants) (\<lambda>rows.
        assertE (\<forall>x \<in> set rows. \<not> (gr_membershipId x = membershipId \<and> gr_bundle x = b \<and> gr_revokedAt x = None))
          (UniqueViolation ''MembershipGrant_live_unique'')))
     (thenE (writeE (\<lambda>s. s\<lparr>w_grants := w_grants s @ [g]\<rparr>)) (ret g))))"

definition live_grant :: "uid \<Rightarrow> capBundle \<Rightarrow> world \<Rightarrow> membership_grant option" where
  "live_grant membershipId b s =
     List.find (\<lambda>g. gr_membershipId g = membershipId \<and> gr_bundle g = b \<and> gr_revokedAt g = None) (w_grants s)"

record accept_opts =
  xo_name :: "string option"
  xo_confirmEmail :: "string option"
  xo_password :: "string option"

text \<open>\<open>prisma.user.upsert\<close> by the invited email; the result is the row as it then is.\<close>

definition upsert_invitee :: "string \<Rightarrow> string option \<Rightarrow> user svc" where
  "upsert_invitee email name =
     bindE (readE (find_user email)) (\<lambda>found.
     case found of
       Some u \<Rightarrow>
         let u' = (if given name then u\<lparr>us_name := the name\<rparr> else u) in
         thenE (writeE (\<lambda>s. s\<lparr>w_users := upd_where (\<lambda>x. us_id x = us_id u) (\<lambda>x. if given name then x\<lparr>us_name := the name\<rparr> else x) (w_users s)\<rparr>))
           (ret u')
     | None \<Rightarrow>
         bindE newId (\<lambda>i.
         let u = \<lparr> us_id = i, us_email = email, us_name = (case name of None \<Rightarrow> email | Some n \<Rightarrow> n), us_phone = None,
               us_locale = ''en'', us_isPlatformAdmin = False, us_passwordHash = None, us_passwordSetAt = None,
               us_failedLoginCount = 0, us_loginLockedUntil = None \<rparr> in
         thenE (writeE (\<lambda>s. s\<lparr>w_users := w_users s @ [u]\<rparr>)) (ret u)))"

definition set_invitee_password :: "(string \<Rightarrow> string) \<Rightarrow> user \<Rightarrow> string option \<Rightarrow> unit svc" where
  "set_invitee_password hashPassword u password =
     thenE (assertE (given (us_passwordHash u) \<or> given password) (AuthzError ''Set a password to accept this invitation.'' 422))
     (if given password then
        thenE (assertE (password_ok (the password)) (AuthzError policy_message 422))
        (bindE getNow (\<lambda>now. set_user (us_id u) (with_password (hashPassword (the password)) now)))
      else ret ())"

definition seat_of :: "workspace_invite \<Rightarrow> role option" where
  "seat_of v = (case iv_intendedRole v of Some r \<Rightarrow> Some r
     | None \<Rightarrow> if B_ORG_ADMIN \<in> set (iv_intendedBundles v) then Some ORG_ADMIN else None)"

definition seat_org_admin :: "workspace_invite \<Rightarrow> user \<Rightarrow> membership list \<Rightarrow> unit svc" where
  "seat_org_admin v u existing =
     (case pickMembership existing of
        None \<Rightarrow> seatOrReactivate (iv_workspaceId v) (us_id u) ORG_ADMIN None
      | Some target \<Rightarrow>
          bindE (readE (live_grant (mb_id target) B_ORG_ADMIN)) (\<lambda>g.
          if mb_role target = ORG_ADMIN \<or> g \<noteq> None then ret ()
          else thenE (create_grant (mb_id target) B_ORG_ADMIN
                 (case iv_invitedById v of Some i \<Rightarrow> i | None \<Rightarrow> us_id u)) (ret ())))"

definition seat_invitee :: "workspace_invite \<Rightarrow> user \<Rightarrow> unit svc" where
  "seat_invitee v u =
     bindE (someE (AuthzError ''Unsupported invite'' 422)
       (case seat_of v of Some r \<Rightarrow> if isInviteableSeat r then Some r else None | None \<Rightarrow> None)) (\<lambda>seat.
     bindE (readE (\<lambda>s. filter (\<lambda>m. mb_workspaceId m = iv_workspaceId v \<and> mb_userId m = us_id u \<and> mb_revokedAt m = None)
        (w_memberships s))) (\<lambda>existing.
     if seat = ORG_ADMIN then seat_org_admin v u existing
     else
       thenE (assertE (existing = []) (AuthzError ''That person is already a member of this workspace.'' 409))
       (thenE (if seat = LANDLORD then
                 bindE (someE (AuthzError ''Owner invite is missing its contact.'' 422) (iv_subjectContactId v))
                   (assertOwnerInviteContact (iv_workspaceId v))
               else ret ())
         (seatOrReactivate (iv_workspaceId v) (us_id u) seat (if seat = LANDLORD then iv_subjectContactId v else None)))))"

record accepted =
  xr_workspaceId :: uid
  xr_userId :: uid
  xr_isPlatformAdmin :: bool
  xr_intendedRole :: "role option"

definition findInvite :: "(string \<Rightarrow> string) \<Rightarrow> string \<Rightarrow> world \<Rightarrow> workspace_invite option" where
  "findInvite hash token s = List.find (\<lambda>v. iv_tokenHash v = hash token) (w_invites s)"

definition acceptInvite ::
    "(string \<Rightarrow> string) \<Rightarrow> (string \<Rightarrow> string) \<Rightarrow> string \<Rightarrow> accept_opts \<Rightarrow> accepted svc" where
  "acceptInvite hash hashPassword token opts =
     bindE (readE (findInvite hash token)) (\<lambda>found.
     bindE (someE (AuthzError ''Invalid invite'' 404) found) (\<lambda>v.
     bindE getNow (\<lambda>now.
     thenE (assertE (iv_revokedAt v = None) (AuthzError ''This invite was revoked'' 410))
     (thenE (assertE (iv_acceptedAt v = None) (AuthzError ''This invite was already used'' 410))
     (thenE (assertE (\<not> iv_expiresAt v < now) (AuthzError ''This invite has expired'' 410))
     (thenE (assertE (\<not> (given (xo_confirmEmail opts) \<and> normalized_email (the (xo_confirmEmail opts)) \<noteq> iv_email v))
        (forbidden ''That email does not match this invite''))
     (bindE (upsert_invitee (iv_email v) (xo_name opts)) (\<lambda>u.
      thenE (set_invitee_password hashPassword u (xo_password opts))
      (thenE (if iv_platformIssued v then ret () else seat_invitee v u)
      (thenE (writeE (\<lambda>s. s\<lparr>w_invites := upd_where (\<lambda>x. iv_id x = iv_id v)
          (\<lambda>x. x\<lparr>iv_acceptedAt := Some now, iv_acceptedUserId := Some (us_id u)\<rparr>) (w_invites s)\<rparr>))
      (thenE (recordAudit (auditOf (Some (iv_workspaceId v)) A_USER (Some (us_id u)) ''invite.accept'' ''WorkspaceInvite'' (Some (iv_id v))))
        (ret \<lparr> xr_workspaceId = iv_workspaceId v, xr_userId = us_id u, xr_isPlatformAdmin = us_isPlatformAdmin u,
               xr_intendedRole = seat_of v \<rparr>))))))))))))"

record invite_preview =
  vp_email :: string
  vp_workspaceName :: string
  vp_valid :: bool
  vp_intendedRole :: "role option"
  vp_ownerContactName :: "string option"

definition peekInvite :: "(string \<Rightarrow> string) \<Rightarrow> string \<Rightarrow> world \<Rightarrow> invite_preview option" where
  "peekInvite hash token s =
     map_option (\<lambda>v. \<lparr> vp_email = iv_email v,
         vp_workspaceName = (case List.find (\<lambda>w. ws_id w = iv_workspaceId v) (w_workspaces s) of None \<Rightarrow> [] | Some w \<Rightarrow> ws_name w),
         vp_valid = open_invite (w_now s) v, vp_intendedRole = seat_of v,
         vp_ownerContactName = (case iv_subjectContactId v of None \<Rightarrow> None
           | Some c \<Rightarrow> map_option ct_name (List.find (\<lambda>x. ct_id x = c) (w_contacts s))) \<rparr>)
       (findInvite hash token s)"

subsection \<open>The people view\<close>

record seat_copy =
  sy_role :: role
  sy_label :: string
  sy_hint :: string

definition INVITE_SEAT_COPY :: "seat_copy list" where
  "INVITE_SEAT_COPY =
     [\<lparr> sy_role = ORG_ADMIN, sy_label = ROLE_SEAT_LABEL ORG_ADMIN,
        sy_hint = ''Members and assignments. Cannot open a tenancy.'' \<rparr>,
      \<lparr> sy_role = MANAGER, sy_label = ROLE_SEAT_LABEL MANAGER, sy_hint = ''Day-to-day portfolio work.'' \<rparr>,
      \<lparr> sy_role = MANAGING_AGENT, sy_label = ROLE_SEAT_LABEL MANAGING_AGENT,
        sy_hint = ''Assign them to properties after they join. An empty book signs in to empty lists.'' \<rparr>,
      \<lparr> sy_role = LANDLORD, sy_label = ROLE_SEAT_LABEL LANDLORD,
        sy_hint = ''A client owner. Pick the OWNER contact they act as. Agency workspaces only.'' \<rparr>]"

definition inviteSeatCopyFor :: "workspaceType \<Rightarrow> seat_copy list" where
  "inviteSeatCopyFor ty = filter (\<lambda>seat. sy_role seat \<in> set (inviteableSeatsFor ty)) INVITE_SEAT_COPY"

record owner_contact =
  oc_id :: uid
  oc_name :: string
  oc_email :: "string option"
  oc_taken :: bool

definition listOwnerContactsForInvite :: "(string \<Rightarrow> rat) \<Rightarrow> authz_ctx \<Rightarrow> workspaceType \<Rightarrow> world \<Rightarrow> owner_contact list" where
  "listOwnerContactsForInvite collate ctx ty s =
     (if ty \<noteq> WT_FIDUCIARY then []
      else
        let contacts = sort_key (\<lambda>c. collate (ct_name c)) (filter (\<lambda>c. ct_workspaceId c = cx_workspaceId ctx \<and>
              ct_kind c = CK_OWNER \<and> ct_archivedAt c = None) (w_contacts s));
            seated = filter (\<lambda>m. mb_workspaceId m = cx_workspaceId ctx \<and> mb_role m = LANDLORD \<and> mb_revokedAt m = None \<and>
              mb_subjectContactId m \<noteq> None) (w_memberships s);
            pending = filter (\<lambda>v. iv_workspaceId v = cx_workspaceId ctx \<and> iv_intendedRole v = Some LANDLORD \<and>
              open_invite (w_now s) v \<and> iv_subjectContactId v \<noteq> None) (w_invites s);
            taken = map mb_subjectContactId seated @ map iv_subjectContactId pending
        in map (\<lambda>c. \<lparr> oc_id = ct_id c, oc_name = ct_name c, oc_email = ct_email c,
                      oc_taken = Some (ct_id c) \<in> set taken \<rparr>) contacts)"

record member_row =
  mr_membershipId :: uid
  mr_role :: role
  mr_seatLabel :: string
  mr_officeAdminOverlay :: bool
  mr_name :: string
  mr_email :: string
  mr_isSelf :: bool

record invite_view =
  nv_id :: uid
  nv_email :: string
  nv_seatLabel :: string
  nv_expiresAt :: time

record people_view =
  pv_members :: "member_row list"
  pv_invites :: "invite_view list"
  pv_workspaceType :: workspaceType
  pv_seats :: "seat_copy list"
  pv_ownerContacts :: "owner_contact list"
  pv_canRecordContacts :: bool

definition member_view :: "authz_ctx \<Rightarrow> world \<Rightarrow> membership \<Rightarrow> member_row" where
  "member_view ctx s m =
     (let bundles = map gr_bundle (filter (\<lambda>g. gr_membershipId g = mb_id m \<and> gr_revokedAt g = None) (w_grants s));
          u = List.find (\<lambda>u. us_id u = mb_userId m) (w_users s)
      in \<lparr> mr_membershipId = mb_id m, mr_role = mb_role m, mr_seatLabel = memberSeatLabel (mb_role m) (B_ORG_ADMIN \<in> set bundles),
           mr_officeAdminOverlay = (B_ORG_ADMIN \<in> set bundles \<and> mb_role m \<noteq> ORG_ADMIN),
           mr_name = (case u of None \<Rightarrow> [] | Some x \<Rightarrow> us_name x), mr_email = (case u of None \<Rightarrow> [] | Some x \<Rightarrow> us_email x),
           mr_isSelf = (mb_userId m = cx_userId ctx) \<rparr>)"

definition listMembers :: "(string \<Rightarrow> rat) \<Rightarrow> authz_ctx \<Rightarrow> people_view svc" where
  "listMembers collate ctx =
     thenE (requireCap ctx ''members.read'')
     (bindE (readE (\<lambda>s. sort_key mb_createdAt (filter (\<lambda>m. mb_workspaceId m = cx_workspaceId ctx \<and> mb_revokedAt m = None)
        (w_memberships s)))) (\<lambda>memberships.
      bindE (readE (\<lambda>s. sort_key (\<lambda>v. - iv_createdAt v) (filter (\<lambda>v. iv_workspaceId v = cx_workspaceId ctx \<and>
        iv_acceptedAt v = None \<and> iv_revokedAt v = None) (w_invites s)))) (\<lambda>invites.
      bindE (workspace_type (cx_workspaceId ctx)) (\<lambda>ty.
      bindE (readE (listOwnerContactsForInvite collate ctx ty)) (\<lambda>ownerContacts.
      bindE (readE (\<lambda>s. map (member_view ctx s) memberships)) (\<lambda>members.
        ret \<lparr> pv_members = members,
              pv_invites = map (\<lambda>v. \<lparr> nv_id = iv_id v, nv_email = iv_email v,
                 nv_seatLabel = (case iv_intendedRole v of None \<Rightarrow> ''Invite'' | Some r \<Rightarrow> ROLE_SEAT_LABEL r),
                 nv_expiresAt = iv_expiresAt v \<rparr>) invites,
              pv_workspaceType = ty, pv_seats = inviteSeatCopyFor ty, pv_ownerContacts = ownerContacts,
              pv_canRecordContacts = hasCapability ctx ''contacts.write'' \<rparr>))))))"

subsection \<open>Overlays and removal\<close>

definition not_grantable :: "capBundle \<Rightarrow> string" where
  "not_grantable b = bundle_name b @ '' is not grantable here'' @ em_dash @
     ''PRINCIPAL is platform seat-zero only; DELEGATE/CLIENT_VIEWER data scope comes from the base role''"

definition find_membership :: "uid \<Rightarrow> world \<Rightarrow> membership option" where
  "find_membership i s = List.find (\<lambda>m. mb_id m = i) (w_memberships s)"

definition grantBundle :: "authz_ctx \<Rightarrow> uid \<Rightarrow> capBundle \<Rightarrow> membership_grant svc" where
  "grantBundle ctx membershipId b =
     thenE (requireCap ctx ''members.manage'')
     (thenE (assertE (b \<in> set GRANTABLE_BUNDLES) (AuthzError (not_grantable b) 422))
     (bindE (readE (find_membership membershipId)) (\<lambda>found.
      bindE (someE notFound (case found of None \<Rightarrow> None | Some m \<Rightarrow>
        if mb_workspaceId m = cx_workspaceId ctx \<and> mb_revokedAt m = None then Some m else None)) (\<lambda>target.
      thenE (assertE (mb_userId target \<noteq> cx_userId ctx) (forbidden ''You cannot grant a bundle to your own membership''))
      (bindE (readE (live_grant (mb_id target) b)) (\<lambda>existing.
       case existing of
         Some g \<Rightarrow> ret g
       | None \<Rightarrow>
           bindE (create_grant (mb_id target) b (cx_userId ctx)) (\<lambda>g.
           thenE (recordAudit (audit_for ctx (Some (mb_userId target)) ''grant.create'' ''MembershipGrant'' (Some (gr_id g))))
             (ret g))))))))"

definition revokeBundle :: "authz_ctx \<Rightarrow> uid \<Rightarrow> capBundle \<Rightarrow> membership_grant option svc" where
  "revokeBundle ctx membershipId b =
     thenE (requireCap ctx ''members.manage'')
     (bindE (readE (find_membership membershipId)) (\<lambda>member.
      bindE (readE (\<lambda>s. if map_option mb_workspaceId member = Some (cx_workspaceId ctx)
        then live_grant membershipId b s else None)) (\<lambda>live.
      case live of
        None \<Rightarrow> ret None
      | Some g \<Rightarrow>
          bindE getNow (\<lambda>now.
          let g' = g\<lparr>gr_revokedAt := Some now, gr_revokedById := Some (cx_userId ctx)\<rparr> in
          thenE (writeE (\<lambda>s. s\<lparr>w_grants := upd_where (\<lambda>x. gr_id x = gr_id g)
              (\<lambda>x. x\<lparr>gr_revokedAt := Some now, gr_revokedById := Some (cx_userId ctx)\<rparr>) (w_grants s)\<rparr>))
          (thenE (recordAudit (audit_for ctx (map_option mb_userId member) ''grant.revoke'' ''MembershipGrant'' (Some (gr_id g))))
            (ret (Some g')))))))"

definition removeMember :: "authz_ctx \<Rightarrow> uid \<Rightarrow> unit svc" where
  "removeMember ctx membershipId =
     thenE (requireCap ctx ''members.manage'')
     (bindE (readE (find_membership membershipId)) (\<lambda>found.
      bindE (someE notFound (case found of None \<Rightarrow> None | Some m \<Rightarrow>
        if mb_workspaceId m = cx_workspaceId ctx then Some m else None)) (\<lambda>target.
      thenE (assertE (mb_userId target \<noteq> cx_userId ctx) (forbidden ''You cannot remove your own membership''))
      (bindE getNow (\<lambda>now.
       thenE (writeE (\<lambda>s. s\<lparr>w_memberships := upd_where (\<lambda>m. mb_id m = membershipId)
           (\<lambda>m. m\<lparr>mb_revokedAt := Some now\<rparr>) (w_memberships s)\<rparr>))
       (thenE (recordAudit (audit_for ctx (Some (mb_userId target)) ''membership.revoke'' ''Membership'' (Some membershipId)))
         (ret ())))))))"

subsection \<open>The agent book\<close>

definition assertDelegateMembership :: "authz_ctx \<Rightarrow> uid \<Rightarrow> unit svc" where
  "assertDelegateMembership ctx membershipId =
     bindE (readE (find_membership membershipId)) (\<lambda>found.
     bindE (someE notFound (case found of None \<Rightarrow> None | Some m \<Rightarrow>
       if mb_workspaceId m = cx_workspaceId ctx \<and> mb_revokedAt m = None then Some m else None)) (\<lambda>m.
     assertE (mb_role m = MANAGING_AGENT)
       (AuthzError ''Assignments apply only to delegate (MANAGING_AGENT) memberships'' 422)))"

definition assertPropertyInWorkspace :: "authz_ctx \<Rightarrow> uid \<Rightarrow> unit svc" where
  "assertPropertyInWorkspace ctx propertyId =
     bindE (readE (\<lambda>s. List.find (\<lambda>p. pr_id p = propertyId) (w_properties s))) (\<lambda>p.
     assertE (map_option pr_workspaceId p = Some (cx_workspaceId ctx)) notFound)"

text \<open>\<open>propertyAssignment.create\<close>, under the partial unique index on live rows of a property.\<close>

definition create_assignment :: "authz_ctx \<Rightarrow> uid \<Rightarrow> uid \<Rightarrow> property_assignment svc" where
  "create_assignment ctx membershipId propertyId =
     bindE getNow (\<lambda>now. bindE newId (\<lambda>i.
     let a = \<lparr> as_id = i, as_workspaceId = cx_workspaceId ctx, as_membershipId = membershipId, as_propertyId = propertyId,
               as_assignedById = Some (cx_userId ctx), as_assignedAt = now, as_revokedAt = None, as_revokedById = None \<rparr> in
     thenE (bindE (readE w_assignments) (\<lambda>rows.
        assertE (\<forall>x \<in> set rows. \<not> (as_propertyId x = propertyId \<and> as_revokedAt x = None))
          (UniqueViolation ''PropertyAssignment_live_property_unique'')))
     (thenE (writeE (\<lambda>s. s\<lparr>w_assignments := w_assignments s @ [a]\<rparr>)) (ret a))))"

definition assignProperty :: "authz_ctx \<Rightarrow> uid \<Rightarrow> uid \<Rightarrow> property_assignment svc" where
  "assignProperty ctx membershipId propertyId =
     thenE (requireCap ctx ''clients.assign'')
     (thenE (assertDelegateMembership ctx membershipId)
     (thenE (assertPropertyInWorkspace ctx propertyId)
     (bindE (readE (\<lambda>s. List.find (\<lambda>a. as_propertyId a = propertyId \<and> as_revokedAt a = None) (w_assignments s))) (\<lambda>existing.
      case existing of
        Some a \<Rightarrow>
          if as_membershipId a = membershipId then ret a
          else throw (AuthzError ''That property already has a responsible agent.'' 409)
      | None \<Rightarrow>
          bindE (create_assignment ctx membershipId propertyId) (\<lambda>row.
          thenE (recordAudit (audit_for ctx (cx_onBehalfOfId ctx) ''assignment.create'' ''PropertyAssignment'' (Some (as_id row))))
            (ret row))))))"

definition revokeProperty :: "authz_ctx \<Rightarrow> uid \<Rightarrow> uid \<Rightarrow> property_assignment option svc" where
  "revokeProperty ctx membershipId propertyId =
     thenE (requireCap ctx ''clients.assign'')
     (bindE (readE (\<lambda>s. List.find (\<lambda>a. as_workspaceId a = cx_workspaceId ctx \<and> as_membershipId a = membershipId \<and>
         as_propertyId a = propertyId \<and> as_revokedAt a = None) (w_assignments s))) (\<lambda>live.
      case live of
        None \<Rightarrow> ret None
      | Some a \<Rightarrow>
          bindE getNow (\<lambda>now.
          let a' = a\<lparr>as_revokedAt := Some now, as_revokedById := Some (cx_userId ctx)\<rparr> in
          thenE (writeE (\<lambda>s. s\<lparr>w_assignments := upd_where (\<lambda>x. as_id x = as_id a)
              (\<lambda>x. x\<lparr>as_revokedAt := Some now, as_revokedById := Some (cx_userId ctx)\<rparr>) (w_assignments s)\<rparr>))
          (thenE (recordAudit (audit_for ctx (cx_onBehalfOfId ctx) ''assignment.revoke'' ''PropertyAssignment'' (Some (as_id a))))
            (ret (Some a'))))))"

text \<open>The creator claims the new unit; the context of the request then reads it too.\<close>

definition claimCreatedProperty :: "authz_ctx \<Rightarrow> uid \<Rightarrow> authz_ctx svc" where
  "claimCreatedProperty ctx propertyId =
     bindE (readE (\<lambda>s. List.find (\<lambda>m. mb_workspaceId m = cx_workspaceId ctx \<and> mb_userId m = cx_userId ctx \<and>
        mb_role m = MANAGING_AGENT \<and> mb_revokedAt m = None) (w_memberships s))) (\<lambda>found.
     bindE (someE notFound found) (\<lambda>m.
     thenE (create_assignment ctx (mb_id m) propertyId)
       (ret (if propertyId \<in> set (cx_delegatePropertyIds ctx) then ctx
             else ctx\<lparr>cx_delegatePropertyIds := cx_delegatePropertyIds ctx @ [propertyId]\<rparr>))))"

record grid_property =
  gp_id :: uid
  gp_label :: string
  gp_clientName :: "string option"

record assignment_grid =
  ag_delegates :: "(uid \<times> string \<times> string) list"
  ag_properties :: "grid_property list"
  ag_assignedKeys :: "(uid \<times> uid) list"

definition listAssignmentGrid :: "(string \<Rightarrow> rat) \<Rightarrow> authz_ctx \<Rightarrow> assignment_grid svc" where
  "listAssignmentGrid collate ctx =
     thenE (requireCap ctx ''clients.assign'')
     (readE (\<lambda>s.
        let delegates = sort_key mb_createdAt (filter (\<lambda>m. mb_workspaceId m = cx_workspaceId ctx \<and> mb_role m = MANAGING_AGENT \<and>
              mb_revokedAt m = None) (w_memberships s));
            properties = sort_key (\<lambda>p. collate (pr_community p)) (by_text collate pr_building (by_text collate pr_unitNo
              (filter (\<lambda>p. pr_workspaceId p = cx_workspaceId ctx \<and> pr_archivedAt p = None) (w_properties s))));
            live = filter (\<lambda>a. as_workspaceId a = cx_workspaceId ctx \<and> as_revokedAt a = None) (w_assignments s)
        in \<lparr> ag_delegates = map (\<lambda>m. (mb_id m, case List.find (\<lambda>u. us_id u = mb_userId m) (w_users s) of
                 None \<Rightarrow> ([], []) | Some u \<Rightarrow> (us_name u, us_email u))) delegates,
             ag_properties = map (\<lambda>p. \<lparr> gp_id = pr_id p, gp_label = join_dot [Some (pr_community p), pr_building p, pr_unitNo p],
                 gp_clientName = (case pr_clientPrincipalId p of None \<Rightarrow> None | Some c \<Rightarrow>
                   map_option cp_displayName (List.find (\<lambda>x. cp_id x = c) (w_clients s))) \<rparr>) properties,
             ag_assignedKeys = map (\<lambda>a. (as_membershipId a, as_propertyId a)) live \<rparr>))"

end
