(* ===== verification/Provisioning.thy ===== *)
theory Provisioning
  imports Members
begin

text \<open>
  The platform plane: \<open>admin/provisioning.ts\<close> with \<open>lib/licences.ts\<close> (seat zero of a new customer,
  suspension, archiving, plans) and \<open>services/admin.ts\<close> (onboarding a scoped seat). The operator is
  a platform administrator; the caller has checked it for \<open>provisioning.ts\<close>, and
  \<open>staffCreateMembership\<close> checks it itself. Ids are never empty strings.
\<close>

definition isProvisionableLicence :: "workspaceType \<Rightarrow> bool" where
  "isProvisionableLicence ty \<longleftrightarrow> ty \<in> {WT_FIDUCIARY, WT_OWNER}"

definition operator_audit :: "uid \<Rightarrow> uid option \<Rightarrow> uid \<Rightarrow> string \<Rightarrow> string \<Rightarrow> uid option \<Rightarrow> audit_input" where
  "operator_audit operator onBehalfOf ws verb oty oid =
     (auditOf (Some ws) A_STAFF (Some operator) verb oty oid)\<lparr>ai_onBehalfOfId := onBehalfOf\<rparr>"

record provision_input =
  vi_name :: string
  vi_type :: workspaceType
  vi_customerEmail :: string
  vi_customerName :: string
  vi_planCode :: "string option"

definition find_plan :: "string \<Rightarrow> world \<Rightarrow> plan option" where
  "find_plan code s = List.find (\<lambda>p. pn_code p = code) (w_plans s)"

definition create_workspace :: "string \<Rightarrow> workspaceType \<Rightarrow> uid svc" where
  "create_workspace name ty =
     bindE newId (\<lambda>i.
     thenE (writeE (\<lambda>s. s\<lparr>w_workspaces := w_workspaces s @
        [\<lparr> ws_id = i, ws_name = name, ws_type = ty, ws_suspendedAt = None, ws_archivedAt = None \<rparr>]\<rparr>))
       (ret i))"

definition upsert_customer :: "string \<Rightarrow> string \<Rightarrow> uid svc" where
  "upsert_customer email name =
     bindE (readE (find_user email)) (\<lambda>found.
     case found of
       Some u \<Rightarrow> ret (us_id u)
     | None \<Rightarrow>
         bindE newId (\<lambda>i.
         thenE (writeE (\<lambda>s. s\<lparr>w_users := w_users s @
           [\<lparr> us_id = i, us_email = email, us_name = name, us_phone = None, us_locale = ''en'', us_isPlatformAdmin = False,
              us_passwordHash = None, us_passwordSetAt = None, us_failedLoginCount = 0, us_loginLockedUntil = None \<rparr>]\<rparr>))
           (ret i)))"

definition seat_zero_invite :: "(string \<Rightarrow> string) \<Rightarrow> string \<Rightarrow> uid \<Rightarrow> string \<Rightarrow> uid \<Rightarrow> time \<Rightarrow> workspace_invite" where
  "seat_zero_invite hash token ws email i now =
     \<lparr> iv_id = i, iv_workspaceId = ws, iv_email = email, iv_intendedBundles = [B_PRINCIPAL],
       iv_intendedRole = Some WORKSPACE_ADMIN, iv_subjectContactId = None, iv_tokenHash = hash token,
       iv_invitedById = None, iv_platformIssued = True,
       iv_expiresAt = now + INVITE_TTL_DAYS * 24 * 60 * 60 * 1000, iv_acceptedAt = None,
       iv_acceptedUserId = None, iv_revokedAt = None, iv_createdAt = now \<rparr>"

definition create_subscription :: "uid \<Rightarrow> plan \<Rightarrow> uid svc" where
  "create_subscription ws p =
     bindE getNow (\<lambda>now. bindE newId (\<lambda>i.
     thenE (writeE (\<lambda>s. s\<lparr>w_subscriptions := w_subscriptions s @
        [\<lparr> su_id = i, su_workspaceId = ws, su_planId = pn_id p, su_status = ''active'', su_period = ''YEAR'', su_startedAt = now \<rparr>]\<rparr>))
       (ret i)))"

record provisioned =
  pz_workspaceId :: uid
  pz_inviteId :: uid
  pz_inviteToken :: string
  pz_inviteUrl :: string

definition provision_transaction ::
    "(string \<Rightarrow> string) \<Rightarrow> string \<Rightarrow> uid \<Rightarrow> provision_input \<Rightarrow> plan option \<Rightarrow> (uid \<times> uid) svc" where
  "provision_transaction hash token operator inp plan_row =
     transaction
       (bindE (create_workspace (vi_name inp) (vi_type inp)) (\<lambda>ws.
        bindE (upsert_customer (vi_customerEmail inp) (vi_customerName inp)) (\<lambda>u.
        bindE (create_membership ws u WORKSPACE_ADMIN None None) (\<lambda>m.
        bindE getNow (\<lambda>now. bindE newId (\<lambda>i.
        thenE (add_invite (seat_zero_invite hash token ws (vi_customerEmail inp) i now))
        (thenE (case plan_row of None \<Rightarrow> ret () | Some p \<Rightarrow>
            bindE (create_subscription ws p) (\<lambda>sub.
            thenE (recordAudit (operator_audit operator (Some u) ws ''subscription.assign'' ''Subscription'' (Some sub))) (ret ())))
        (thenE (recordAudit (operator_audit operator (Some u) ws ''workspace.provision'' ''Workspace'' (Some ws)))
        (thenE (recordAudit (operator_audit operator (Some u) ws ''invite.issue'' ''WorkspaceInvite'' (Some i)))
          (ret (ws, i)))))))))))"

definition provisionWorkspace ::
    "(string \<Rightarrow> string) \<Rightarrow> string \<Rightarrow> string \<Rightarrow> uid \<Rightarrow> provision_input \<Rightarrow> provisioned svc" where
  "provisionWorkspace hash base token operator inp =
     bindE (readE (\<lambda>s. case vi_planCode inp of None \<Rightarrow> None | Some c \<Rightarrow> if c = [] then None else find_plan c s)) (\<lambda>plan_row.
     thenE (assertE (\<not> (vi_planCode inp \<notin> {None, Some []} \<and> plan_row = None))
        (AuthzError (''Unknown plan '' @ the (vi_planCode inp)) 404))
     (thenE (assertE (isProvisionableLicence (vi_type inp)) (AuthzError ''Seneschal licences are Landlord or Fiduciary.'' 422))
     (bindE (provision_transaction hash token operator inp plan_row) (\<lambda>(ws, i).
       ret \<lparr> pz_workspaceId = ws, pz_inviteId = i, pz_inviteToken = token, pz_inviteUrl = base @ ''/invite/'' @ token \<rparr>))))"

definition loadWorkspace :: "uid \<Rightarrow> unit svc" where
  "loadWorkspace i =
     bindE (readE (\<lambda>s. List.find (\<lambda>w. ws_id w = i) (w_workspaces s))) (\<lambda>w.
     assertE (w \<noteq> None) (AuthzError ''Workspace not found'' 404))"

definition set_workspace :: "uid \<Rightarrow> uid \<Rightarrow> (time \<Rightarrow> workspace \<Rightarrow> workspace) \<Rightarrow> string \<Rightarrow> unit svc" where
  "set_workspace operator i f verb =
     thenE (loadWorkspace i)
     (bindE getNow (\<lambda>now.
      thenE (writeE (\<lambda>s. s\<lparr>w_workspaces := upd_where (\<lambda>w. ws_id w = i) (f now) (w_workspaces s)\<rparr>))
      (thenE (recordAudit (operator_audit operator None i verb ''Workspace'' (Some i))) (ret ()))))"

definition suspendWorkspace :: "uid \<Rightarrow> uid \<Rightarrow> unit svc" where
  "suspendWorkspace operator i = set_workspace operator i (\<lambda>now w. w\<lparr>ws_suspendedAt := Some now\<rparr>) ''workspace.suspend''"

definition unsuspendWorkspace :: "uid \<Rightarrow> uid \<Rightarrow> unit svc" where
  "unsuspendWorkspace operator i = set_workspace operator i (\<lambda>now w. w\<lparr>ws_suspendedAt := None\<rparr>) ''workspace.unsuspend''"

definition archiveWorkspace :: "uid \<Rightarrow> uid \<Rightarrow> unit svc" where
  "archiveWorkspace operator i = set_workspace operator i (\<lambda>now w. w\<lparr>ws_archivedAt := Some now\<rparr>) ''workspace.archive''"

definition unarchiveWorkspace :: "uid \<Rightarrow> uid \<Rightarrow> unit svc" where
  "unarchiveWorkspace operator i = set_workspace operator i (\<lambda>now w. w\<lparr>ws_archivedAt := None\<rparr>) ''workspace.unarchive''"

definition attachPlan :: "uid \<Rightarrow> uid \<Rightarrow> string \<Rightarrow> uid svc" where
  "attachPlan operator ws planCode =
     bindE (readE (find_plan planCode)) (\<lambda>found.
     bindE (someE (AuthzError (''Unknown plan '' @ planCode) 404) found) (\<lambda>p.
     bindE (create_subscription ws p) (\<lambda>sub.
     thenE (recordAudit (operator_audit operator None ws ''subscription.assign'' ''Subscription'' (Some sub))) (ret sub))))"

record seat_input =
  si_workspaceId :: uid
  si_userId :: uid
  si_role :: role
  si_clientPrincipalId :: "uid option"
  si_subjectContactId :: "uid option"

definition staffCreateMembership :: "user \<Rightarrow> seat_input \<Rightarrow> uid svc" where
  "staffCreateMembership operator args =
     thenE (assertE (us_isPlatformAdmin operator) (forbidden ''Platform admin only''))
     (thenE (assertE (\<not> (isPersonaRole (si_role args) \<and> si_subjectContactId args = None))
        (AuthzError (role_name (si_role args) @ '' membership requires subjectContactId'') 422))
     (thenE (assertE (\<not> (si_role args = CLIENT_VIEWER \<and> si_clientPrincipalId args = None))
        (AuthzError ''CLIENT_VIEWER membership requires clientPrincipalId'' 422))
     (bindE (create_membership (si_workspaceId args) (si_userId args) (si_role args) (si_clientPrincipalId args)
        (if isPersonaRole (si_role args) then si_subjectContactId args else None)) (\<lambda>m.
     thenE (recordAudit (operator_audit (us_id operator) (Some (si_userId args)) (si_workspaceId args)
        ''membership.create'' ''Membership'' (Some m)))
       (ret m)))))"

end
