(* ===== verification/People.thy ===== *)
theory People
  imports Provisioning
begin

text \<open>
  What every sequence of member, agent-book and platform operations keeps of the memberships, the
  overlays and the agent book, and what an invitation, its acceptance and a removal achieve.
\<close>

subsection \<open>The logs\<close>

lemma keeps_set_user [log_keeps]: "keeps extends (set_user i f)"
  unfolding set_user_def by (intro logs.keeps_intros log_keeps keeps_quiet_write) simp_all

lemma keeps_people_parts [log_keeps]:
  "keeps extends (requireCap ctx c)" "keeps extends (workspace_type i)" "keeps extends (assertOwnerInviteContact w j)"
  "keeps extends (add_invite v)" "keeps extends (create_membership w u r cp sc)" "keeps extends (create_grant m b g)"
  "keeps extends (create_assignment ctx m p)" "keeps extends (upsert_invitee e n)"
  "keeps extends (create_workspace nm ty)" "keeps extends (upsert_customer e nm)" "keeps extends (create_subscription w pl)"
  "keeps extends (assertDelegateMembership ctx m)" "keeps extends (assertPropertyInWorkspace ctx p)" "keeps extends (loadWorkspace i)"
  unfolding requireCap_def workspace_type_def assertOwnerInviteContact_def add_invite_def create_membership_def create_grant_def
    create_assignment_def upsert_invitee_def create_workspace_def upsert_customer_def create_subscription_def Let_def
    assertDelegateMembership_def assertPropertyInWorkspace_def loadWorkspace_def
  by (intro logs.keeps_intros log_keeps keeps_quiet_write; simp)+

lemma keeps_seatOrReactivate [log_keeps]: "keeps extends (seatOrReactivate w u r sc)"
  unfolding seatOrReactivate_def
  by (intro logs.keeps_intros log_keeps keeps_quiet_write; simp)+

lemma keeps_accept_parts [log_keeps]:
  "keeps extends (set_invitee_password hp u pw)" "keeps extends (seat_org_admin v u ex)" "keeps extends (owner_invite_checks ctx args)"
  unfolding set_invitee_password_def seat_org_admin_def owner_invite_checks_def
  by (intro logs.keeps_intros log_keeps keeps_quiet_write; simp)+

lemma keeps_seat_invitee [log_keeps]: "keeps extends (seat_invitee v u)"
  unfolding seat_invitee_def
  by (intro logs.keeps_intros log_keeps)

lemma keeps_members [log_keeps]:
  "keeps extends (inviteMember h base tk ctx args)" "keeps extends (revokeInvite ctx i)" "keeps extends (acceptInvite h hp tk opts)"
  "keeps extends (grantBundle ctx m b)" "keeps extends (revokeBundle ctx m b)" "keeps extends (removeMember ctx m)"
  "keeps extends (assignProperty ctx m p)" "keeps extends (revokeProperty ctx m p)" "keeps extends (claimCreatedProperty ctx p)"
  unfolding inviteMember_def revokeInvite_def acceptInvite_def grantBundle_def revokeBundle_def removeMember_def
    assignProperty_def revokeProperty_def claimCreatedProperty_def Let_def
  by (intro logs.keeps_intros log_keeps keeps_quiet_write; simp)+

lemma keeps_provision [log_keeps]: "keeps extends (provisionWorkspace h base tk op inp)"
  unfolding provisionWorkspace_def provision_transaction_def split_beta
  by (intro logs.keeps_intros log_keeps keeps_quiet_write; simp)+

lemma keeps_platform [log_keeps]:
  "keeps extends (set_workspace op i f v)" "keeps extends (attachPlan op w c)" "keeps extends (staffCreateMembership adm si)"
  unfolding set_workspace_def attachPlan_def staffCreateMembership_def
  by (intro logs.keeps_intros log_keeps keeps_quiet_write; simp)+

subsection \<open>Seats, overlays and books stay unique\<close>

definition seats_wf :: "world \<Rightarrow> bool" where
  "seats_wf s \<longleftrightarrow> distinct (map mb_id (w_memberships s)) \<and> (\<forall>m \<in> set (w_memberships s). mb_id m < w_next s) \<and>
     distinct (map (\<lambda>m. (mb_workspaceId m, mb_userId m, mb_role m)) (w_memberships s))"

definition is_live_grant :: "uid \<Rightarrow> capBundle \<Rightarrow> membership_grant \<Rightarrow> bool" where
  "is_live_grant i b g \<longleftrightarrow> gr_membershipId g = i \<and> gr_bundle g = b \<and> gr_revokedAt g = None"

definition overlays_wf :: "world \<Rightarrow> bool" where
  "overlays_wf s \<longleftrightarrow> (\<forall>g \<in> set (w_grants s). gr_bundle g = B_ORG_ADMIN) \<and>
     (\<forall>i b. count_where (is_live_grant i b) (w_grants s) \<le> 1)"

definition is_live_assignment :: "uid \<Rightarrow> property_assignment \<Rightarrow> bool" where
  "is_live_assignment p a \<longleftrightarrow> as_propertyId a = p \<and> as_revokedAt a = None"

definition books_wf :: "world \<Rightarrow> bool" where
  "books_wf s \<longleftrightarrow> (\<forall>p. count_where (is_live_assignment p) (w_assignments s) \<le> 1)"

text \<open>The live rows of the seats that nobody can be invited into.\<close>

definition closed_seats :: "world \<Rightarrow> membership set" where
  "closed_seats s = {m \<in> set (w_memberships s). mb_revokedAt m = None \<and> \<not> isInviteableSeat (mb_role m)}"

definition seats_law :: "world \<Rightarrow> world \<Rightarrow> bool" where
  "seats_law s t \<longleftrightarrow> (seats_wf s \<longrightarrow> seats_wf t \<and> closed_seats t \<subseteq> closed_seats s)"

interpretation seats: step_law seats_law
  by unfold_locales (auto simp: seats_law_def)

lemma seats_law_idle: "keeps (same w_memberships) m \<Longrightarrow> keeps extends m \<Longrightarrow> keeps seats_law m"
  by (auto simp: keeps_def same_def extends_def seats_law_def seats_wf_def closed_seats_def intro: less_le_trans)

lemma overlays_idle: "keeps (same w_grants) m \<Longrightarrow> keeps (preserves overlays_wf) m"
  by (rule keeps_preserves_same) (auto simp: overlays_wf_def)

lemma books_idle: "keeps (same w_assignments) m \<Longrightarrow> keeps (preserves books_wf) m"
  by (rule keeps_preserves_same) (auto simp: books_wf_def)

subsubsection \<open>What the parts touch\<close>

lemma frames_set_user [frames]: "(\<And>s n. f (s\<lparr>w_users := n\<rparr>) = f s) \<Longrightarrow> keeps (same f) (set_user i g)"
  unfolding set_user_def by (intro frame.keeps_intros frames keeps_same_write)

lemma frames_reads [frames]:
  "keeps (same f) (workspace_type i)" "keeps (same f) (assertOwnerInviteContact w j)" "keeps (same f) (owner_invite_checks ctx args)"
  "keeps (same f) (assertDelegateMembership ctx m)" "keeps (same f) (assertPropertyInWorkspace ctx p)" "keeps (same f) (loadWorkspace i)"
  unfolding workspace_type_def assertOwnerInviteContact_def owner_invite_checks_def assertDelegateMembership_def
    assertPropertyInWorkspace_def loadWorkspace_def
  by (intro frame.keeps_intros frames)+

lemma frames_add_invite [frames]: "(\<And>s n. f (s\<lparr>w_invites := n\<rparr>) = f s) \<Longrightarrow> keeps (same f) (add_invite v)"
  unfolding add_invite_def by (intro frame.keeps_intros frames keeps_same_write)

lemma frames_seats [frames]:
  assumes "\<And>s n. f (s\<lparr>w_next := n\<rparr>) = f s" and "\<And>s n. f (s\<lparr>w_memberships := n\<rparr>) = f s"
  shows "keeps (same f) (create_membership w u r cp sc)" "keeps (same f) (seatOrReactivate w u r sc)"
proof -
  show c: "keeps (same f) (create_membership w u r cp sc)" for r cp sc
    unfolding create_membership_def by (intro frame.keeps_intros frames keeps_same_write assms)
  show "keeps (same f) (seatOrReactivate w u r sc)"
    unfolding seatOrReactivate_def by (intro frame.keeps_intros frames keeps_same_write assms c)
qed

lemma frames_create_grant [frames]:
  "(\<And>s n. f (s\<lparr>w_next := n\<rparr>) = f s) \<Longrightarrow> (\<And>s n. f (s\<lparr>w_grants := n\<rparr>) = f s) \<Longrightarrow> keeps (same f) (create_grant m b g)"
  unfolding create_grant_def Let_def by (intro frame.keeps_intros frames keeps_same_write)

lemma frames_create_assignment [frames]:
  "(\<And>s n. f (s\<lparr>w_next := n\<rparr>) = f s) \<Longrightarrow> (\<And>s n. f (s\<lparr>w_assignments := n\<rparr>) = f s) \<Longrightarrow> keeps (same f) (create_assignment ctx m p)"
  unfolding create_assignment_def Let_def by (intro frame.keeps_intros frames keeps_same_write)

lemma frames_users [frames]:
  assumes "\<And>s n. f (s\<lparr>w_next := n\<rparr>) = f s" and "\<And>s n. f (s\<lparr>w_users := n\<rparr>) = f s"
  shows "keeps (same f) (upsert_invitee e n)" "keeps (same f) (set_invitee_password hp u pw)" "keeps (same f) (upsert_customer e nm)"
  unfolding upsert_invitee_def set_invitee_password_def upsert_customer_def Let_def
  by (intro frame.keeps_intros frames keeps_same_write assms)+

lemma frames_platform [frames]:
  assumes "\<And>s n. f (s\<lparr>w_next := n\<rparr>) = f s"
  shows "(\<And>s n. f (s\<lparr>w_workspaces := n\<rparr>) = f s) \<Longrightarrow> keeps (same f) (create_workspace nm ty)"
    "(\<And>s n. f (s\<lparr>w_subscriptions := n\<rparr>) = f s) \<Longrightarrow> keeps (same f) (create_subscription w pl)"
  unfolding create_workspace_def create_subscription_def by (intro frame.keeps_intros frames keeps_same_write assms; simp)+

subsubsection \<open>The writers\<close>

lemma create_membership_seats:
  "seats_wf s \<Longrightarrow> create_membership w u r cp sc s = (x, t) \<Longrightarrow>
   seats_wf t \<and> (isInviteableSeat r \<longrightarrow> closed_seats t \<subseteq> closed_seats s)"
  by (auto simp: create_membership_def bindE_apply op_eval getNow_def newId_def assertE_eval seats_wf_def closed_seats_def less_Suc_eq
      split: if_splits) (use less_irrefl in blast)+

lemma upd_membership_seats:
  assumes "seats_wf s" and "List.find P (w_memberships s) = Some m" and "\<And>x. mb_id (f x) = mb_id x" "\<And>x. mb_workspaceId (f x) = mb_workspaceId x"
    "\<And>x. mb_userId (f x) = mb_userId x" "\<And>x. mb_role (f x) = mb_role x" and "isInviteableSeat (mb_role m)"
  shows "seats_wf (s\<lparr>w_memberships := upd_where (\<lambda>x. mb_id x = mb_id m) f (w_memberships s)\<rparr>) \<and>
    closed_seats (s\<lparr>w_memberships := upd_where (\<lambda>x. mb_id x = mb_id m) f (w_memberships s)\<rparr>) \<subseteq> closed_seats s"
proof -
  have m: "m \<in> set (w_memberships s)" using find_Some_in [OF assms(2)] by simp
  have one: "x = m" if "x \<in> set (w_memberships s)" "mb_id x = mb_id m" for x
    using assms(1) m that by (auto simp: seats_wf_def distinct_map inj_on_def)
  show ?thesis
    using assms(1,3-7) by (auto simp: seats_wf_def closed_seats_def map_upd_where set_upd_where) (metis one)
qed

lemma seatOrReactivate_seats:
  assumes "isInviteableSeat r" shows "keeps seats_law (seatOrReactivate w u r sc)"
proof (rule keepsI, unfold seats_law_def, intro impI)
  fix s assume wf: "seats_wf s"
  let ?P = "\<lambda>m. mb_workspaceId m = w \<and> mb_userId m = u \<and> mb_role m = r"
  show "seats_wf (snd (seatOrReactivate w u r sc s)) \<and> closed_seats (snd (seatOrReactivate w u r sc s)) \<subseteq> closed_seats s"
  proof (cases "List.find ?P (w_memberships s)")
    case None
    define res where "res = create_membership w u r None (if r = LANDLORD then sc else None) s"
    have "snd (seatOrReactivate w u r sc s) = snd res"
      using None by (simp add: seatOrReactivate_def bindE_apply op_eval res_def split: prod.split sum.split)
    then show ?thesis using create_membership_seats [OF wf] assms res_def by (metis prod.collapse)
  next
    case (Some m)
    have r: "mb_role m = r" using find_Some_in [OF Some] by simp
    show ?thesis
    proof (cases "mb_revokedAt m")
      case None
      then show ?thesis using Some wf by (simp add: seatOrReactivate_def bindE_apply op_eval assertE_eval)
    next
      case (Some x)
      let ?f = "\<lambda>x. x\<lparr> mb_revokedAt := None, mb_subjectContactId := (if r = LANDLORD then sc else mb_subjectContactId x) \<rparr>"
      have "snd (seatOrReactivate w u r sc s) = s\<lparr>w_memberships := upd_where (\<lambda>x. mb_id x = mb_id m) ?f (w_memberships s)\<rparr>"
        using \<open>List.find ?P (w_memberships s) = Some m\<close> Some by (simp add: seatOrReactivate_def bindE_apply op_eval assertE_eval)
      then show ?thesis
        using upd_membership_seats [OF wf \<open>List.find ?P (w_memberships s) = Some m\<close>, of ?f] r assms by simp
    qed
  qed
qed

lemma keeps_overlays_grant: "b = B_ORG_ADMIN \<Longrightarrow> keeps (preserves overlays_wf) (create_grant i b g)"
proof (rule keepsI, unfold preserves_def, intro impI)
  fix s assume b: "b = B_ORG_ADMIN" and wf: "overlays_wf s"
  show "overlays_wf (snd (create_grant i b g s))"
  proof (cases "\<forall>x \<in> set (w_grants s). \<not> is_live_grant i b x")
    case True
    then have "count_where (is_live_grant i b) (w_grants s) = 0" by (simp add: count_where_0_iff)
    then show ?thesis
      using wf b True by (auto simp: overlays_wf_def create_grant_def bindE_apply op_eval getNow_def newId_def Let_def assertE_eval
          is_live_grant_def)
  next
    case False
    then show ?thesis
      using wf by (auto simp: create_grant_def bindE_apply op_eval getNow_def newId_def Let_def assertE_eval overlays_wf_def
          is_live_grant_def)
  qed
qed

lemma keeps_books_assignment: "keeps (preserves books_wf) (create_assignment ctx m p)"
proof (rule keepsI, unfold preserves_def, intro impI)
  fix s assume wf: "books_wf s"
  show "books_wf (snd (create_assignment ctx m p s))"
  proof (cases "\<forall>x \<in> set (w_assignments s). \<not> is_live_assignment p x")
    case True
    then have "count_where (is_live_assignment p) (w_assignments s) = 0" by (simp add: count_where_0_iff)
    then show ?thesis
      using wf True by (auto simp: books_wf_def create_assignment_def bindE_apply op_eval getNow_def newId_def Let_def assertE_eval
          is_live_assignment_def)
  next
    case False
    then show ?thesis
      using wf by (auto simp: create_assignment_def bindE_apply op_eval getNow_def newId_def Let_def assertE_eval books_wf_def
          is_live_assignment_def)
  qed
qed

subsubsection \<open>The operations\<close>

lemma seats_seat_invitee: "keeps seats_law (seat_invitee v u)"
proof -
  have c: "keeps seats_law (create_grant i b g)" for i b g
    by (rule seats_law_idle) (intro frames log_keeps; simp)+
  have r: "keeps seats_law (assertOwnerInviteContact w j)" for w j
    by (rule seats_law_idle) (intro frames log_keeps)+
  have o: "keeps seats_law (seat_org_admin v u ex)" for ex
    unfolding seat_org_admin_def
    by (intro seats.keeps_intros seatOrReactivate_seats c) (simp add: isInviteableSeat_def INVITEABLE_SEATS_def)
  show ?thesis unfolding seat_invitee_def
    by (intro seats.keeps_someE_bind seats.keeps_intros o r seatOrReactivate_seats)
      (auto split: option.splits if_splits)
qed

lemma seats_removal:
  "keeps seats_law (writeE (\<lambda>s. s\<lparr>w_memberships := upd_where (\<lambda>m. mb_id m = i) (\<lambda>m. m\<lparr>mb_revokedAt := Some now\<rparr>) (w_memberships s)\<rparr>))"
  by (rule keeps_writeE) (auto simp: seats_law_def seats_wf_def closed_seats_def map_upd_where set_upd_where)

text \<open>A part that touches no seat.\<close>

lemma seats_quiet:
  "(\<And>s. w_memberships (f s) = w_memberships s) \<Longrightarrow> (\<And>s. w_next (f s) = w_next s) \<Longrightarrow> keeps seats_law (writeE f)"
  by (rule keeps_writeE) (simp add: seats_law_def seats_wf_def closed_seats_def)

lemma seats_idle_parts:
  "keeps seats_law (requireCap ctx c)" "keeps seats_law (workspace_type i)" "keeps seats_law (owner_invite_checks ctx args)" "keeps seats_law getNow"
  "keeps seats_law newId" "keeps seats_law (add_invite v)" "keeps seats_law (recordAudit inp)" "keeps seats_law (upsert_invitee e n)"
  "keeps seats_law (set_invitee_password hp u pw)" "keeps seats_law (create_grant i b g)" "keeps seats_law (create_assignment ctx m p)"
  "keeps seats_law (assertDelegateMembership ctx m)" "keeps seats_law (assertPropertyInWorkspace ctx p)"
  by (rule seats_law_idle; intro frames log_keeps; simp)+

lemma seats_office:
  "keeps seats_law (inviteMember h base tk ctx args)" "keeps seats_law (revokeInvite ctx i)" "keeps seats_law (acceptInvite h hp tk opts)"
  "keeps seats_law (grantBundle ctx m b)" "keeps seats_law (revokeBundle ctx m b)" "keeps seats_law (removeMember ctx m)"
  "keeps seats_law (assignProperty ctx m p)" "keeps seats_law (revokeProperty ctx m p)" "keeps seats_law (claimCreatedProperty ctx p)"
  unfolding inviteMember_def revokeInvite_def acceptInvite_def grantBundle_def revokeBundle_def removeMember_def
    assignProperty_def revokeProperty_def claimCreatedProperty_def Let_def
  by (intro seats.keeps_intros seats_idle_parts seats_seat_invitee seats_removal seats_quiet; simp)+

lemma overlays_quiet: "(\<And>s. w_grants (f s) = w_grants s) \<Longrightarrow> keeps (preserves overlays_wf) (writeE f)"
  by (rule overlays_idle, rule keeps_same_write)

lemma overlays_revoke:
  "keeps (preserves overlays_wf) (writeE (\<lambda>s. s\<lparr>w_grants := upd_where p (\<lambda>x. x\<lparr>gr_revokedAt := Some now, gr_revokedById := by'\<rparr>) (w_grants s)\<rparr>))"
proof (rule keeps_writeE, unfold preserves_def overlays_wf_def, intro impI conjI allI)
  let ?f = "\<lambda>x. x\<lparr>gr_revokedAt := Some now, gr_revokedById := by'\<rparr>"
  fix s i b assume wf: "(\<forall>g\<in>set (w_grants s). gr_bundle g = B_ORG_ADMIN) \<and> (\<forall>i b. count_where (is_live_grant i b) (w_grants s) \<le> 1)"
  have "count_where (is_live_grant i b) (upd_where p ?f (w_grants s)) \<le> count_where (is_live_grant i b) (w_grants s)"
    by (rule count_where_upd_le) (simp add: is_live_grant_def)
  then show "count_where (is_live_grant i b) (w_grants (s\<lparr>w_grants := upd_where p ?f (w_grants s)\<rparr>)) \<le> 1"
    using wf by (auto intro: order_trans)
qed (auto simp: set_upd_where)

lemma overlays_idle_parts:
  "keeps (preserves overlays_wf) (requireCap ctx c)" "keeps (preserves overlays_wf) (workspace_type i)" "keeps (preserves overlays_wf) (owner_invite_checks ctx args)"
  "keeps (preserves overlays_wf) getNow" "keeps (preserves overlays_wf) newId" "keeps (preserves overlays_wf) (add_invite v)"
  "keeps (preserves overlays_wf) (recordAudit inp)" "keeps (preserves overlays_wf) (upsert_invitee e n)" "keeps (preserves overlays_wf) (set_invitee_password hp u pw)"
  "keeps (preserves overlays_wf) (seatOrReactivate w j r sc)" "keeps (preserves overlays_wf) (create_assignment ctx m p)"
  "keeps (preserves overlays_wf) (assertDelegateMembership ctx m)" "keeps (preserves overlays_wf) (assertPropertyInWorkspace ctx p)"
  "keeps (preserves overlays_wf) (assertOwnerInviteContact w' k)"
  by (rule overlays_idle; intro frames; simp)+

lemma overlays_seat_invitee: "keeps (preserves overlays_wf) (seat_invitee v u)"
  unfolding seat_invitee_def seat_org_admin_def
  by (intro inv.keeps_intros overlays_idle_parts keeps_overlays_grant; simp)

lemma overlays_office:
  "keeps (preserves overlays_wf) (inviteMember h base tk ctx args)" "keeps (preserves overlays_wf) (revokeInvite ctx i)"
  "keeps (preserves overlays_wf) (acceptInvite h hp tk opts)"
  "keeps (preserves overlays_wf) (revokeBundle ctx m b)" "keeps (preserves overlays_wf) (removeMember ctx m)"
  "keeps (preserves overlays_wf) (assignProperty ctx m p)" "keeps (preserves overlays_wf) (revokeProperty ctx m p)"
  "keeps (preserves overlays_wf) (claimCreatedProperty ctx p)"
  unfolding inviteMember_def revokeInvite_def acceptInvite_def revokeBundle_def removeMember_def
    assignProperty_def revokeProperty_def claimCreatedProperty_def Let_def
  by (intro inv.keeps_intros overlays_idle_parts overlays_seat_invitee overlays_revoke overlays_quiet; simp)+

lemma overlays_grantBundle: "keeps (preserves overlays_wf) (grantBundle ctx m b)"
proof (cases "b \<in> set GRANTABLE_BUNDLES")
  case True
  then have "b = B_ORG_ADMIN" by (simp add: GRANTABLE_BUNDLES_def GRANT_HONORED_BUNDLES_def)
  then show ?thesis unfolding grantBundle_def
    by (intro inv.keeps_intros overlays_idle_parts keeps_overlays_grant)
next
  case False
  then show ?thesis
    by (simp add: grantBundle_def keeps_def preserves_def bindE_apply requireCap_def assertE_eval split: sum.splits prod.splits)
qed

lemma books_quiet: "(\<And>s. w_assignments (f s) = w_assignments s) \<Longrightarrow> keeps (preserves books_wf) (writeE f)"
  by (rule books_idle, rule keeps_same_write)

lemma books_revoke:
  "keeps (preserves books_wf) (writeE (\<lambda>s. s\<lparr>w_assignments := upd_where p (\<lambda>x. x\<lparr>as_revokedAt := Some now, as_revokedById := by'\<rparr>) (w_assignments s)\<rparr>))"
proof (rule keeps_writeE, unfold preserves_def books_wf_def, intro impI allI)
  let ?f = "\<lambda>x. x\<lparr>as_revokedAt := Some now, as_revokedById := by'\<rparr>"
  fix s q assume wf: "\<forall>q. count_where (is_live_assignment q) (w_assignments s) \<le> 1"
  have "count_where (is_live_assignment q) (upd_where p ?f (w_assignments s)) \<le> count_where (is_live_assignment q) (w_assignments s)"
    by (rule count_where_upd_le) (simp add: is_live_assignment_def)
  then show "count_where (is_live_assignment q) (w_assignments (s\<lparr>w_assignments := upd_where p ?f (w_assignments s)\<rparr>)) \<le> 1"
    using wf by (auto intro: order_trans)
qed

lemma books_idle_parts:
  "keeps (preserves books_wf) (requireCap ctx c)" "keeps (preserves books_wf) (workspace_type i)" "keeps (preserves books_wf) (owner_invite_checks ctx args)"
  "keeps (preserves books_wf) getNow" "keeps (preserves books_wf) newId" "keeps (preserves books_wf) (add_invite v)"
  "keeps (preserves books_wf) (recordAudit inp)" "keeps (preserves books_wf) (upsert_invitee e n)" "keeps (preserves books_wf) (set_invitee_password hp u pw)"
  "keeps (preserves books_wf) (seatOrReactivate w j r sc)" "keeps (preserves books_wf) (create_grant i b g)"
  "keeps (preserves books_wf) (assertDelegateMembership ctx m)" "keeps (preserves books_wf) (assertPropertyInWorkspace ctx p)"
  "keeps (preserves books_wf) (assertOwnerInviteContact w' k)"
  by (rule books_idle; intro frames; simp)+

lemma books_seat_invitee: "keeps (preserves books_wf) (seat_invitee v u)"
  unfolding seat_invitee_def seat_org_admin_def
  by (intro inv.keeps_intros books_idle_parts; simp)

lemma books_office:
  "keeps (preserves books_wf) (inviteMember h base tk ctx args)" "keeps (preserves books_wf) (revokeInvite ctx i)"
  "keeps (preserves books_wf) (acceptInvite h hp tk opts)" "keeps (preserves books_wf) (grantBundle ctx m b)"
  "keeps (preserves books_wf) (revokeBundle ctx m b)" "keeps (preserves books_wf) (removeMember ctx m)"
  "keeps (preserves books_wf) (assignProperty ctx m p)" "keeps (preserves books_wf) (revokeProperty ctx m p)"
  "keeps (preserves books_wf) (claimCreatedProperty ctx p)"
  unfolding inviteMember_def revokeInvite_def acceptInvite_def revokeBundle_def removeMember_def grantBundle_def
    assignProperty_def revokeProperty_def claimCreatedProperty_def Let_def
  by (intro inv.keeps_intros books_idle_parts books_seat_invitee keeps_books_assignment books_revoke books_quiet; simp)+

lemma seats_wf_create_membership: "keeps (preserves seats_wf) (create_membership w u r cp sc)"
  by (rule keepsI) (metis create_membership_seats preserves_def prod.collapse)

lemma seats_wf_idle: "keeps (same w_memberships) m \<Longrightarrow> keeps extends m \<Longrightarrow> keeps (preserves seats_wf) m"
  using seats_law_idle [of m] by (auto simp: keeps_def preserves_def seats_law_def)

lemma seats_wf_parts:
  "keeps (preserves seats_wf) getNow" "keeps (preserves seats_wf) newId" "keeps (preserves seats_wf) (add_invite v)"
  "keeps (preserves seats_wf) (recordAudit inp)" "keeps (preserves seats_wf) (create_workspace nm ty)"
  "keeps (preserves seats_wf) (upsert_customer e nm)" "keeps (preserves seats_wf) (create_subscription w pl)"
  "keeps (preserves seats_wf) (loadWorkspace i)"
  by (rule seats_wf_idle; intro frames log_keeps; simp)+

lemma seats_wf_quiet:
  "(\<And>s. w_memberships (f s) = w_memberships s) \<Longrightarrow> (\<And>s. w_next (f s) = w_next s) \<Longrightarrow> keeps (preserves seats_wf) (writeE f)"
  by (rule keeps_writeE) (simp add: preserves_def seats_wf_def)

lemma seats_wf_platform:
  "keeps (preserves seats_wf) (provisionWorkspace h base tk opr inp)" "keeps (preserves seats_wf) (set_workspace opr i f vb)"
  "keeps (preserves seats_wf) (attachPlan opr w c)" "keeps (preserves seats_wf) (staffCreateMembership adm si)"
  unfolding provisionWorkspace_def provision_transaction_def split_beta set_workspace_def attachPlan_def staffCreateMembership_def
  by (intro inv.keeps_intros seats_wf_parts seats_wf_create_membership seats_wf_quiet; simp)+

lemma idle_platform:
  assumes "\<And>s n. f (s\<lparr>w_next := n\<rparr>) = f s" "\<And>s n. f (s\<lparr>w_users := n\<rparr>) = f s" "\<And>s n. f (s\<lparr>w_memberships := n\<rparr>) = f s"
    "\<And>s n. f (s\<lparr>w_invites := n\<rparr>) = f s" "\<And>s n. f (s\<lparr>w_audit := n\<rparr>) = f s" "\<And>s n. f (s\<lparr>w_workspaces := n\<rparr>) = f s"
    "\<And>s n. f (s\<lparr>w_subscriptions := n\<rparr>) = f s"
  shows "keeps (same f) (provisionWorkspace h base tk opr inp)" "keeps (same f) (set_workspace opr i g vb)"
    "keeps (same f) (attachPlan opr w c)" "keeps (same f) (staffCreateMembership adm si)"
  unfolding provisionWorkspace_def provision_transaction_def split_beta set_workspace_def attachPlan_def staffCreateMembership_def
  by (intro frame.keeps_intros frames keeps_same_write assms)+

subsection \<open>Any sequence of events\<close>

datatype office_event =
    InviteMember string authz_ctx invite_args | WithdrawInvite authz_ctx uid | AcceptInvite string accept_opts
  | GrantOverlay authz_ctx uid capBundle | DropOverlay authz_ctx uid capBundle | RemoveMember authz_ctx uid
  | AssignAgent authz_ctx uid uid | ReleaseAgent authz_ctx uid uid | ClaimUnit authz_ctx uid

datatype platform_event =
    Provision string uid provision_input | SeatScoped user seat_input | Suspend uid uid | Unsuspend uid uid
  | ArchiveOrg uid uid | UnarchiveOrg uid uid | AttachPlan uid uid string

definition done_with :: "'a svc \<Rightarrow> unit svc" where "done_with m = thenE m (ret ())"

fun office_step :: "(string \<Rightarrow> string) \<Rightarrow> (string \<Rightarrow> string) \<Rightarrow> string \<Rightarrow> office_event \<Rightarrow> unit svc" where
  "office_step h hp base (InviteMember token ctx args) = done_with (inviteMember h base token ctx args)"
| "office_step h hp base (WithdrawInvite ctx i) = revokeInvite ctx i"
| "office_step h hp base (AcceptInvite token opts) = done_with (acceptInvite h hp token opts)"
| "office_step h hp base (GrantOverlay ctx m b) = done_with (grantBundle ctx m b)"
| "office_step h hp base (DropOverlay ctx m b) = done_with (revokeBundle ctx m b)"
| "office_step h hp base (RemoveMember ctx m) = removeMember ctx m"
| "office_step h hp base (AssignAgent ctx m p) = done_with (assignProperty ctx m p)"
| "office_step h hp base (ReleaseAgent ctx m p) = done_with (revokeProperty ctx m p)"
| "office_step h hp base (ClaimUnit ctx p) = done_with (claimCreatedProperty ctx p)"

fun platform_step :: "(string \<Rightarrow> string) \<Rightarrow> string \<Rightarrow> platform_event \<Rightarrow> unit svc" where
  "platform_step h base (Provision token operator inp) = done_with (provisionWorkspace h base token operator inp)"
| "platform_step h base (SeatScoped operator args) = done_with (staffCreateMembership operator args)"
| "platform_step h base (Suspend operator w) = suspendWorkspace operator w"
| "platform_step h base (Unsuspend operator w) = unsuspendWorkspace operator w"
| "platform_step h base (ArchiveOrg operator w) = archiveWorkspace operator w"
| "platform_step h base (UnarchiveOrg operator w) = unarchiveWorkspace operator w"
| "platform_step h base (AttachPlan operator w c) = done_with (attachPlan operator w c)"

text \<open>Each event runs at its own time; a refused one leaves what it wrote before the refusal.\<close>

fun people_run ::
    "(string \<Rightarrow> string) \<Rightarrow> (string \<Rightarrow> string) \<Rightarrow> string \<Rightarrow> (time \<times> (office_event + platform_event)) list \<Rightarrow> world \<Rightarrow> world" where
  "people_run h hp base [] s = s"
| "people_run h hp base ((now, e) # es) s =
     people_run h hp base es (snd ((case e of Inl x \<Rightarrow> office_step h hp base x | Inr y \<Rightarrow> platform_step h base y) (s\<lparr>w_now := now\<rparr>)))"

lemma seats_office_step: "keeps seats_law (office_step h hp base e)"
  by (cases e; simp add: done_with_def; intro seats.keeps_bindE seats.keeps_ret seats_office)

lemma wf_office_step:
  "keeps (preserves overlays_wf) (office_step h hp base e)" "keeps (preserves books_wf) (office_step h hp base e)"
  by (cases e; simp add: done_with_def; intro inv.keeps_bindE inv.keeps_ret overlays_office overlays_grantBundle books_office)+

lemma seats_wf_platform_step: "keeps (preserves seats_wf) (platform_step h base e)"
  by (cases e; simp add: done_with_def suspendWorkspace_def unsuspendWorkspace_def archiveWorkspace_def unarchiveWorkspace_def;
      intro inv.keeps_bindE inv.keeps_ret seats_wf_platform)

lemma idle_platform_step:
  "keeps (same w_grants) (platform_step h base e)" "keeps (same w_assignments) (platform_step h base e)"
  by (cases e; simp add: done_with_def suspendWorkspace_def unsuspendWorkspace_def archiveWorkspace_def unarchiveWorkspace_def;
      intro frame.keeps_bindE frame.keeps_ret idle_platform; simp)+

definition people_wf :: "world \<Rightarrow> bool" where
  "people_wf s \<longleftrightarrow> seats_wf s \<and> overlays_wf s \<and> books_wf s"

lemma people_wf_step:
  assumes "people_wf s"
  shows "people_wf (snd ((case e of Inl x \<Rightarrow> office_step h hp base x | Inr y \<Rightarrow> platform_step h base y) s))"
proof (cases e)
  case (Inl x)
  then show ?thesis
    using assms seats_office_step [of h hp base x] wf_office_step [of h hp base x]
    by (simp add: people_wf_def keeps_def preserves_def seats_law_def)
next
  case (Inr y)
  then show ?thesis
    using assms seats_wf_platform_step [of h base y] overlays_idle [OF idle_platform_step(1), of h base y]
      books_idle [OF idle_platform_step(2), of h base y]
    by (simp add: people_wf_def keeps_def preserves_def)
qed

text \<open>
  C26: whatever the members, the invited and the operator do, in any order and at any times, there
  is at most one membership per person and seat of a workspace, every overlay is the office
  administrator's, a membership carries it at most once, and a property has at most one
  responsible agent.
\<close>

theorem people_stay_unique:
  assumes "people_wf s"
  shows "people_wf (people_run h hp base es s)"
  using assms
proof (induction es arbitrary: s)
  case (Cons e es)
  obtain now x where e: "e = (now, x)" by (cases e)
  have "people_wf (s\<lparr>w_now := now\<rparr>)"
    using Cons.prems by (simp add: people_wf_def seats_wf_def overlays_wf_def books_wf_def)
  then show ?case unfolding e people_run.simps by (intro Cons.IH people_wf_step)
qed simp

theorem people_stay_unique_witness:
  "people_wf (people_run id id ''u'' [(1, Inr (Provision ''t'' 9 \<lparr> vi_name = ''A'', vi_type = WT_OWNER, vi_customerEmail = ''a@b'',
     vi_customerName = ''A'', vi_planCode = None \<rparr>)), (2, Inl (AcceptInvite ''t'' \<lparr> xo_name = None, xo_confirmEmail = None, xo_password = None \<rparr>))] empty_world)"
  by (rule people_stay_unique) (simp add: people_wf_def seats_wf_def overlays_wf_def books_wf_def empty_world_def)

text \<open>
  C27: an office cannot make principals: no sequence of its own events, invitations accepted by
  anybody included, gives anybody a live seat as workspace administrator, fiduciary, client
  viewer, tenant or any other seat that is not invited, beyond the live seats there were.
\<close>

theorem office_makes_no_principals:
  assumes "seats_wf s"
  shows "{m \<in> set (w_memberships (people_run h hp base (map (\<lambda>(now, x). (now, Inl x)) es) s)).
       mb_revokedAt m = None \<and> mb_role m \<notin> {ORG_ADMIN, MANAGER, MANAGING_AGENT, LANDLORD}}
    \<subseteq> {m \<in> set (w_memberships s). mb_revokedAt m = None \<and> mb_role m \<notin> {ORG_ADMIN, MANAGER, MANAGING_AGENT, LANDLORD}}"
proof -
  have "closed_seats (people_run h hp base (map (\<lambda>(now, x). (now, Inl x)) es) s) \<subseteq> closed_seats s"
    using assms
  proof (induction es arbitrary: s)
    case (Cons e es)
    obtain now x where e: "e = (now, x)" by (cases e)
    let ?s = "s\<lparr>w_now := now\<rparr>"
    have "seats_wf ?s" "closed_seats ?s = closed_seats s" using Cons.prems by (simp_all add: seats_wf_def closed_seats_def)
    moreover have "seats_law ?s (snd (office_step h hp base x ?s))"
      using seats_office_step [of h hp base x] by (simp add: keeps_def)
    ultimately have t: "seats_wf (snd (office_step h hp base x ?s))" "closed_seats (snd (office_step h hp base x ?s)) \<subseteq> closed_seats s"
      by (simp_all add: seats_law_def)
    then show ?case using Cons.IH [OF t(1)] unfolding e by (auto dest: subsetD)
  qed simp
  then show ?thesis by (simp add: closed_seats_def isInviteableSeat_def INVITEABLE_SEATS_def)
qed

theorem office_makes_no_principals_witness:
  "\<exists>t. t = people_run id id ''u'' (map (\<lambda>(now, x). (now, Inl x))
      [(1, InviteMember ''t'' (sample_ctx ORG_ADMIN) \<lparr> va_email = ''a@b'', va_role = WORKSPACE_ADMIN, va_subjectContactId = None \<rparr>)]) empty_world \<and>
     {m \<in> set (w_memberships t). mb_revokedAt m = None \<and> mb_role m \<notin> {ORG_ADMIN, MANAGER, MANAGING_AGENT, LANDLORD}} = {}"
proof -
  have wf: "seats_wf empty_world" by (simp add: seats_wf_def empty_world_def)
  have "{m \<in> set (w_memberships empty_world). mb_revokedAt m = None \<and> mb_role m \<notin> {ORG_ADMIN, MANAGER, MANAGING_AGENT, LANDLORD}} = {}"
    by (simp add: empty_world_def)
  with office_makes_no_principals [OF wf, of id id "''u''"
      "[(1, InviteMember ''t'' (sample_ctx ORG_ADMIN) \<lparr> va_email = ''a@b'', va_role = WORKSPACE_ADMIN, va_subjectContactId = None \<rparr>)]"]
  show ?thesis by blast
qed

subsection \<open>Accepting an invitation\<close>

lemma upsert_invitee_ok:
  assumes "upsert_invitee e n s = (r, t)"
  obtains u where "r = Inr u" "us_email u = e" "u \<in> set (w_users t)"
    "\<And>u0. find_user e s = Some u0 \<Longrightarrow> us_id u = us_id u0"
proof (cases "find_user e s")
  case None
  let ?u = "\<lparr> us_id = w_next s, us_email = e, us_name = (case n of None \<Rightarrow> e | Some n \<Rightarrow> n), us_phone = None,
    us_locale = ''en'', us_isPlatformAdmin = False, us_passwordHash = None, us_passwordSetAt = None,
    us_failedLoginCount = 0, us_loginLockedUntil = None \<rparr>"
  show thesis
    by (rule that [of ?u]) (use None assms in \<open>simp_all add: upsert_invitee_def bindE_apply op_eval newId_def Let_def, auto\<close>)
next
  case (Some u0')
  have u0: "u0' \<in> set (w_users s)" "us_email u0' = e" using find_Some_in [of _ "w_users s" u0'] Some by (auto simp: find_user_def)
  show thesis
  proof (cases "given n")
    case True
    then show thesis
      using assms Some u0 that [of "u0'\<lparr>us_name := the n\<rparr>"]
      by (auto simp: upsert_invitee_def bindE_apply op_eval Let_def set_upd_where)
  next
    case False
    then show thesis
      using assms Some u0 that [of u0']
      by (auto simp: upsert_invitee_def bindE_apply op_eval Let_def set_upd_where)
  qed
qed

lemma set_user_same_person:
  assumes "set_user i f s = (r, t)" "u \<in> set (w_users s)" "\<And>x. us_id (f x) = us_id x" "\<And>x. us_email (f x) = us_email x"
  shows "\<exists>u' \<in> set (w_users t). us_id u' = us_id u \<and> us_email u' = us_email u"
proof -
  have "w_users t = w_users s \<or> w_users t = upd_where (\<lambda>x. us_id x = i) f (w_users s)"
    using assms(1) by (auto simp: set_user_def bindE_apply op_eval assertE_eval split: if_splits)
  moreover have "(if us_id u = i then f u else u) \<in> set (upd_where (\<lambda>x. us_id x = i) f (w_users s))"
    using assms(2) by (simp add: set_upd_where)
  then have "\<exists>u' \<in> set (upd_where (\<lambda>x. us_id x = i) f (w_users s)). us_id u' = us_id u \<and> us_email u' = us_email u"
    by (rule bexI [rotated]) (simp add: assms(3,4))
  ultimately show ?thesis using assms(2) by auto
qed

lemma set_invitee_password_person:
  assumes "set_invitee_password hp u pw s = (r, t)" "u \<in> set (w_users s)"
  shows "\<exists>u' \<in> set (w_users t). us_id u' = us_id u \<and> us_email u' = us_email u"
proof -
  have "w_users t = w_users s \<or> (\<exists>now r'. set_user (us_id u) (with_password (hp (the pw)) now) s = (r', t))"
    using assms(1) by (auto simp: set_invitee_password_def bindE_apply op_eval assertE_eval getNow_eval
        split: if_splits prod.splits sum.splits)
  then show ?thesis
    using assms(2) set_user_same_person [of "us_id u" "with_password (hp (the pw)) _" s _ t u] by (auto simp: with_password_def)
qed

text \<open>The seat an accepted invitation leaves: a live membership of the invited kind.\<close>

definition seated :: "workspace_invite \<Rightarrow> uid \<Rightarrow> world \<Rightarrow> bool" where
  "seated v i s \<longleftrightarrow> (\<exists>m \<in> set (w_memberships s). mb_workspaceId m = iv_workspaceId v \<and> mb_userId m = i \<and> mb_revokedAt m = None \<and>
     (if seat_of v = Some ORG_ADMIN
      then mb_role m = ORG_ADMIN \<or> (\<exists>g \<in> set (w_grants s). is_live_grant (mb_id m) B_ORG_ADMIN g)
      else seat_of v = Some (mb_role m) \<and> isInviteableSeat (mb_role m) \<and>
           (mb_role m = LANDLORD \<longrightarrow> iv_subjectContactId v \<noteq> None \<and> mb_subjectContactId m = iv_subjectContactId v)))"

lemma seatOrReactivate_ok:
  assumes "seatOrReactivate w i r sc s = (Inr x, t)"
  shows "\<exists>m \<in> set (w_memberships t). mb_workspaceId m = w \<and> mb_userId m = i \<and> mb_role m = r \<and> mb_revokedAt m = None \<and>
    (r = LANDLORD \<longrightarrow> mb_subjectContactId m = sc)"
proof (cases "List.find (\<lambda>m. mb_workspaceId m = w \<and> mb_userId m = i \<and> mb_role m = r) (w_memberships s)")
  case None
  then show ?thesis
    using assms by (auto simp: seatOrReactivate_def create_membership_def bindE_apply op_eval assertE_eval newId_def getNow_eval split: if_splits)
next
  case (Some m)
  then have "m \<in> set (w_memberships s)" "mb_workspaceId m = w" "mb_userId m = i" "mb_role m = r" using find_Some_in [OF Some] by auto
  with Some show ?thesis
    using assms
    by (auto simp: seatOrReactivate_def bindE_apply op_eval assertE_eval set_upd_where split: if_splits
        intro!: bexI [of _ "m\<lparr>mb_revokedAt := None, mb_subjectContactId := (if r = LANDLORD then sc else mb_subjectContactId m)\<rparr>"])
qed

lemma seat_org_admin_ok:
  assumes run: "seat_org_admin v u (filter (\<lambda>m. mb_workspaceId m = iv_workspaceId v \<and> mb_userId m = us_id u \<and> mb_revokedAt m = None) (w_memberships s)) s
      = (Inr x, t)" and seat: "seat_of v = Some ORG_ADMIN"
  shows "seated v (us_id u) t"
proof (cases "pickMembership (filter (\<lambda>m. mb_workspaceId m = iv_workspaceId v \<and> mb_userId m = us_id u \<and> mb_revokedAt m = None) (w_memberships s))")
  case None
  then have "seatOrReactivate (iv_workspaceId v) (us_id u) ORG_ADMIN None s = (Inr x, t)"
    using run unfolding seat_org_admin_def by (simp only: option.case)
  from seatOrReactivate_ok [OF this] show ?thesis using seat by (auto simp: seated_def)
next
  case (Some m)
  have m: "m \<in> set (w_memberships s)" "mb_workspaceId m = iv_workspaceId v" "mb_userId m = us_id u" "mb_revokedAt m = None"
    using pickMembership_SomeD(1) [OF Some] by auto
  have "w_memberships t = w_memberships s \<and> (mb_role m = ORG_ADMIN \<or> (\<exists>g \<in> set (w_grants t). is_live_grant (mb_id m) B_ORG_ADMIN g))"
  proof (cases "live_grant (mb_id m) B_ORG_ADMIN s")
    case None
    then show ?thesis
      using run Some by (auto simp: seat_org_admin_def bindE_apply op_eval create_grant_def assertE_eval newId_def getNow_eval Let_def
          is_live_grant_def split: if_splits)
  next
    case g: (Some g)
    then have "g \<in> set (w_grants s)" "is_live_grant (mb_id m) B_ORG_ADMIN g"
      using find_Some_in [of _ "w_grants s" g] by (auto simp: live_grant_def is_live_grant_def)
    then show ?thesis using run Some g by (auto simp: seat_org_admin_def bindE_apply op_eval)
  qed
  then show ?thesis using m seat by (auto simp: seated_def)
qed

lemma seat_invitee_ok:
  assumes "seat_invitee v u s = (Inr x, t)"
  shows "seated v (us_id u) t"
proof -
  obtain seat where seat: "seat_of v = Some seat" "isInviteableSeat seat"
    using assms by (cases "seat_of v") (auto simp: seat_invitee_def bindE_apply someE_def throw_def split: if_splits)
  show ?thesis
  proof (cases "seat = ORG_ADMIN")
    case True
    have "seat_org_admin v u (filter (\<lambda>m. mb_workspaceId m = iv_workspaceId v \<and> mb_userId m = us_id u \<and> mb_revokedAt m = None) (w_memberships s)) s = (Inr x, t)"
      using assms seat True by (simp add: seat_invitee_def bindE_apply op_eval)
    then show ?thesis using seat_org_admin_ok seat True by blast
  next
    case False
    have bound: "seat = LANDLORD \<Longrightarrow> iv_subjectContactId v \<noteq> None"
      using assms seat by (cases "iv_subjectContactId v") (auto simp: seat_invitee_def bindE_apply op_eval assertE_eval split: if_splits)
    have "\<exists>s1. seatOrReactivate (iv_workspaceId v) (us_id u) seat (if seat = LANDLORD then iv_subjectContactId v else None) s1 = (Inr x, t)"
      using assms seat False
      by (auto simp: seat_invitee_def bindE_apply op_eval assertE_eval split: prod.splits sum.splits if_splits)
    then obtain s1 where "seatOrReactivate (iv_workspaceId v) (us_id u) seat (if seat = LANDLORD then iv_subjectContactId v else None) s1 = (Inr x, t)"
      by blast
    from seatOrReactivate_ok [OF this] show ?thesis using seat False bound by (auto simp: seated_def)
  qed
qed


lemma accept_frames:
  "upsert_invitee e n s = (r, t) \<Longrightarrow> w_invites t = w_invites s \<and> w_now t = w_now s"
  "set_invitee_password hp u pw s = (r', t) \<Longrightarrow> w_invites t = w_invites s \<and> w_now t = w_now s"
  "seat_invitee v u s = (r'', t) \<Longrightarrow> w_invites t = w_invites s \<and> w_now t = w_now s \<and> w_users t = w_users s"
proof -
  have "keeps (same w_invites) (upsert_invitee e n)" "keeps (same w_now) (upsert_invitee e n)"
    "keeps (same w_invites) (set_invitee_password hp u pw)" "keeps (same w_now) (set_invitee_password hp u pw)"
    by (intro frames; simp)+
  note k = this [THEN sameD]
  show "upsert_invitee e n s = (r, t) \<Longrightarrow> w_invites t = w_invites s \<and> w_now t = w_now s"
    using k(1,2) by blast
  show "set_invitee_password hp u pw s = (r', t) \<Longrightarrow> w_invites t = w_invites s \<and> w_now t = w_now s"
    using k(3,4) by blast
  have "keeps (same w_invites) (seat_invitee v u)" "keeps (same w_now) (seat_invitee v u)" "keeps (same w_users) (seat_invitee v u)"
    unfolding seat_invitee_def seat_org_admin_def by (intro frame.keeps_intros frames; simp)+
  from this [THEN sameD] show "seat_invitee v u s = (r'', t) \<Longrightarrow> w_invites t = w_invites s \<and> w_now t = w_now s \<and> w_users t = w_users s"
    by blast
qed

lemma acceptInvite_ok:
  assumes "acceptInvite h hp token opts s = (Inr r, t)"
  obtains v u s1 s2 s3 where "findInvite h token s = Some v" "iv_revokedAt v = None" "iv_acceptedAt v = None" "w_now s \<le> iv_expiresAt v"
    "upsert_invitee (iv_email v) (xo_name opts) s = (Inr u, s1)" "set_invitee_password hp u (xo_password opts) s1 = (Inr (), s2)"
    "(if iv_platformIssued v then ret () else seat_invitee v u) s2 = (Inr (), s3)"
    "w_invites t = upd_where (\<lambda>x. iv_id x = iv_id v) (\<lambda>x. x\<lparr>iv_acceptedAt := Some (w_now s), iv_acceptedUserId := Some (us_id u)\<rparr>) (w_invites s3)"
    "w_memberships t = w_memberships s3" "w_grants t = w_grants s3" "w_users t = w_users s3"
    "r = \<lparr> xr_workspaceId = iv_workspaceId v, xr_userId = us_id u, xr_isPlatformAdmin = us_isPlatformAdmin u, xr_intendedRole = seat_of v \<rparr>"
proof -
  have verb: "audit_verb_ok ''invite.accept''" by (simp add: audit_verb_ok_def verb_char_def)
  show thesis
    using assms unfolding acceptInvite_def
    apply (clarsimp simp only: bindE_ok readE_ok writeE_ok assertE_ok someE_ok ret_ok getNow_def recordAudit_ok)
    apply (rule that; (assumption | simp add: not_less)?)
    done
qed

text \<open>
  C28: an invitation admits its addressee once: when an acceptance returns, the invitation was
  open, the account it names is the one of the invited address and, for an invitation of the
  office, holds the invited seat (an owner's seat bound to the invited contact); every later
  acceptance with the same link is refused as already used and changes nothing.
\<close>

theorem invite_admits_once:
  assumes "acceptInvite h hp token opts s = (Inr r, t)" and "findInvite h token s = Some v"
  shows "iv_revokedAt v = None \<and> iv_acceptedAt v = None \<and> w_now s \<le> iv_expiresAt v \<and>
    (\<exists>u \<in> set (w_users t). us_email u = iv_email v \<and> us_id u = xr_userId r) \<and>
    (iv_platformIssued v \<or> seated v (xr_userId r) t) \<and>
    acceptInvite h hp token opts2 (t\<lparr>w_now := now\<rparr>) = (Inl (AuthzError ''This invite was already used'' 410), t\<lparr>w_now := now\<rparr>)"
proof -
  obtain v' u s1 s2 s3 where a: "findInvite h token s = Some v'" "iv_revokedAt v' = None" "iv_acceptedAt v' = None" "w_now s \<le> iv_expiresAt v'"
    "upsert_invitee (iv_email v') (xo_name opts) s = (Inr u, s1)" "set_invitee_password hp u (xo_password opts) s1 = (Inr (), s2)"
    "(if iv_platformIssued v' then ret () else seat_invitee v' u) s2 = (Inr (), s3)"
    "w_invites t = upd_where (\<lambda>x. iv_id x = iv_id v') (\<lambda>x. x\<lparr>iv_acceptedAt := Some (w_now s), iv_acceptedUserId := Some (us_id u)\<rparr>) (w_invites s3)"
    "w_memberships t = w_memberships s3" "w_grants t = w_grants s3" "w_users t = w_users s3"
    "r = \<lparr> xr_workspaceId = iv_workspaceId v', xr_userId = us_id u, xr_isPlatformAdmin = us_isPlatformAdmin u, xr_intendedRole = seat_of v' \<rparr>"
    by (rule acceptInvite_ok [OF assms(1)])
  have v: "v' = v" using a(1) assms(2) by simp
  note a = a [unfolded v]
  have inv3: "w_invites s3 = w_invites s" "w_users s3 = w_users s2"
    using accept_frames(1) [OF a(5)] accept_frames(2) [OF a(6)] a(7) accept_frames(3) [of v u s2 "Inr ()" s3]
    by (auto simp: ret_def split: if_splits)
  have "us_email u = iv_email v" "u \<in> set (w_users s1)"
    using upsert_invitee_ok [OF a(5)] by (metis sum.inject(2))+
  then have person: "\<exists>u' \<in> set (w_users t). us_email u' = iv_email v \<and> us_id u' = xr_userId r"
    using set_invitee_password_person [OF a(6)] a(11,12) inv3(2) by auto
  have seat: "iv_platformIssued v \<or> seated v (xr_userId r) t"
    using a(7,9,10,12) seat_invitee_ok [of v u s2 "()" s3] by (auto simp: seated_def split: if_splits)
  have "findInvite h token (t\<lparr>w_now := now\<rparr>) = Some (v\<lparr>iv_acceptedAt := Some (w_now s), iv_acceptedUserId := Some (us_id u)\<rparr>)"
    using a(1) unfolding findInvite_def by (simp add: a(8) inv3 find_upd_where_same)
  then have "acceptInvite h hp token opts2 (t\<lparr>w_now := now\<rparr>) = (Inl (AuthzError ''This invite was already used'' 410), t\<lparr>w_now := now\<rparr>)"
    using a(2) by (simp add: acceptInvite_def bindE_apply op_eval assertE_eval getNow_eval)
  then show ?thesis using a(2-4) person seat by blast
qed

definition sample_invite :: workspace_invite where
  "sample_invite = \<lparr> iv_id = 3, iv_workspaceId = 5, iv_email = ''a@b'', iv_intendedBundles = [], iv_intendedRole = Some MANAGER,
     iv_subjectContactId = None, iv_tokenHash = ''t'', iv_invitedById = Some 1, iv_platformIssued = False,
     iv_expiresAt = 10, iv_acceptedAt = None, iv_acceptedUserId = None, iv_revokedAt = None, iv_createdAt = 0 \<rparr>"

definition invite_world :: world where
  "invite_world = empty_world\<lparr>w_users := [sample_user], w_invites := [sample_invite]\<rparr>"

lemma invite_world_tables:
  "w_users invite_world = [sample_user]" "w_invites invite_world = [sample_invite]" "w_memberships invite_world = []"
  "w_now invite_world = 0" "us_email sample_user = ''a@b''" "us_id sample_user = 1" "us_passwordHash sample_user = Some ''longpassword''"
  by (simp_all add: invite_world_def empty_world_def sample_user_def)

theorem invite_admits_once_witness:
  "\<exists>r t. acceptInvite id id ''t'' \<lparr> xo_name = None, xo_confirmEmail = None, xo_password = None \<rparr> invite_world = (Inr r, t) \<and>
     seated sample_invite (xr_userId r) t \<and>
     fst (acceptInvite id id ''t'' \<lparr> xo_name = None, xo_confirmEmail = None, xo_password = None \<rparr> (t\<lparr>w_now := 1\<rparr>)) =
       Inl (AuthzError ''This invite was already used'' 410)"
proof -
  let ?o = "\<lparr> xo_name = None, xo_confirmEmail = None, xo_password = None \<rparr>"
  define t where "t = snd (acceptInvite id id ''t'' ?o invite_world)"
  define r where "r = \<lparr> xr_workspaceId = 5, xr_userId = 1, xr_isPlatformAdmin = us_isPlatformAdmin sample_user, xr_intendedRole = Some MANAGER \<rparr>"
  have v: "findInvite id ''t'' invite_world = Some sample_invite" by (simp add: findInvite_def invite_world_tables sample_invite_def)
  have i: "iv_revokedAt sample_invite = None" "iv_acceptedAt sample_invite = None" "iv_expiresAt sample_invite = 10" "iv_email sample_invite = ''a@b''"
    "\<not> iv_platformIssued sample_invite" "seat_of sample_invite = Some MANAGER" "iv_workspaceId sample_invite = 5" "iv_id sample_invite = 3"
    by (simp_all add: sample_invite_def seat_of_def)
  have verb: "audit_verb_ok ''invite.accept''" by (simp add: audit_verb_ok_def verb_char_def)
  have "fst (acceptInvite id id ''t'' ?o invite_world) = Inr r"
    by (simp add: acceptInvite_def bindE_apply op_eval assertE_eval getNow_eval v i invite_world_tables upsert_invitee_def find_user_def
        given_def Let_def set_invitee_password_def seat_invitee_def isInviteableSeat_def INVITEABLE_SEATS_def seatOrReactivate_def
        create_membership_def newId_def recordAudit_def auditOf_def verb r_def)
  then have run: "acceptInvite id id ''t'' ?o invite_world = (Inr r, t)" by (simp add: t_def prod_eq_iff)
  from invite_admits_once [OF run v, of ?o 1] i(5) run show ?thesis by auto
qed

text \<open>
  A link to an account that exists already sets that account's password, whatever becomes of the
  invitation itself: also when the seat is then refused.
\<close>

theorem accept_overwrites_password:
  assumes "findInvite h token s = Some v" and "iv_revokedAt v = None" and "iv_acceptedAt v = None" and "w_now s \<le> iv_expiresAt v"
    and "find_user (iv_email v) s = Some u" and "password_ok plain" and "plain \<noteq> []"
    and "acceptInvite h hp token \<lparr> xo_name = None, xo_confirmEmail = None, xo_password = Some plain \<rparr> s = (r, t)"
  shows "\<exists>u' \<in> set (w_users t). us_id u' = us_id u \<and> us_passwordHash u' = Some (hp plain)"
proof -
  have u: "u \<in> set (w_users s)" "us_email u = iv_email v" using find_Some_in [of _ "w_users s" u] assms(5) by (auto simp: find_user_def)
  obtain x where x: "List.find (\<lambda>y. us_id y = us_id u) (w_users s) = Some x"
    using u find_None_all [of "\<lambda>y. us_id y = us_id u" "w_users s"] by (cases "List.find (\<lambda>y. us_id y = us_id u) (w_users s)") auto
  let ?s = "s\<lparr>w_users := upd_where (\<lambda>y. us_id y = us_id u) (with_password (hp plain) (w_now s)) (w_users s)\<rparr>"
  have ups: "upsert_invitee (iv_email v) None s = (Inr u, s)"
    using assms(5) by (simp add: upsert_invitee_def bindE_apply op_eval Let_def given_def upd_where_def)
  have pw: "set_invitee_password hp u (Some plain) s = (Inr (), ?s)"
    using x assms(6,7) by (simp add: set_invitee_password_def bindE_apply op_eval assertE_eval given_def getNow_eval set_user_eval)
  have here: "\<exists>u' \<in> set (w_users ?s). us_id u' = us_id u \<and> us_passwordHash u' = Some (hp plain)"
    using u by (auto simp: set_upd_where with_password_def intro!: bexI [of _ "with_password (hp plain) (w_now s) u"])
  obtain x2 s3 where seat: "(if iv_platformIssued v then ret () else seat_invitee v u) ?s = (x2, s3)" by fastforce
  then have "w_users s3 = w_users ?s" using accept_frames(3) [of v u ?s x2 s3] by (auto simp: ret_def split: if_splits)
  moreover have "w_users t = w_users s3"
    using assms(1-4,8) ups pw seat
    by (auto simp: acceptInvite_def bindE_apply op_eval assertE_eval getNow_eval given_def recordAudit_def newId_def
        split: sum.splits prod.splits if_splits)
  ultimately show ?thesis using here by simp
qed

subsection \<open>Removal\<close>

text \<open>
  C29: a removal closes the door: it is made by a holder of the members capability of the same
  workspace and never on one's own membership; from then on the workspace refuses the removed
  person unless another live membership of theirs lets them in, and no request of theirs runs
  under the removed one.
\<close>

theorem removal_closes_the_door:
  assumes "removeMember ctx i s = (Inr (), t)" and "distinct (map mb_id (w_memberships s))"
  shows "hasCapability ctx ''members.manage'' \<and>
    (\<exists>m \<in> set (w_memberships s). mb_id m = i \<and> mb_workspaceId m = cx_workspaceId ctx \<and> mb_userId m \<noteq> cx_userId ctx \<and>
      (filter (\<lambda>x. mb_id x \<noteq> i) (live_memberships (mb_userId m) (cx_workspaceId ctx) s) = [] \<longrightarrow>
         (\<exists>e. authz (mb_userId m) (cx_workspaceId ctx) (t\<lparr>w_now := now\<rparr>) = (Inl e, t\<lparr>w_now := now\<rparr>))) \<and>
      pickMembership (live_memberships (mb_userId m) (cx_workspaceId ctx) (t\<lparr>w_now := now\<rparr>)) =
        pickMembership (filter (\<lambda>x. mb_id x \<noteq> i) (live_memberships (mb_userId m) (cx_workspaceId ctx) s)))"
proof -
  have verb: "audit_verb_ok ''membership.revoke''" by (simp add: audit_verb_ok_def verb_char_def)
  obtain m where m: "find_membership i s = Some m" "mb_workspaceId m = cx_workspaceId ctx" "mb_userId m \<noteq> cx_userId ctx"
      "hasCapability ctx ''members.manage''"
    and t: "w_memberships t = upd_where (\<lambda>m. mb_id m = i) (\<lambda>m. m\<lparr>mb_revokedAt := Some (w_now s)\<rparr>) (w_memberships s)"
    using assms(1) unfolding removeMember_def
    by (clarsimp simp only: bindE_ok readE_ok writeE_ok assertE_ok someE_ok ret_ok getNow_def recordAudit_ok requireCap_def)
      (auto split: option.splits if_splits)
  have mem: "m \<in> set (w_memberships s)" "mb_id m = i" using find_Some_in [of _ "w_memberships s" m] m(1) by (auto simp: find_membership_def)
  have live: "live_memberships (mb_userId m) (cx_workspaceId ctx) (t\<lparr>w_now := now\<rparr>) =
      filter (\<lambda>x. mb_id x \<noteq> i) (live_memberships (mb_userId m) (cx_workspaceId ctx) s)"
  proof -
    have "filter (\<lambda>x. mb_userId x = u \<and> mb_workspaceId x = w \<and> mb_revokedAt x = None)
        (upd_where (\<lambda>m. mb_id m = i) (\<lambda>m. m\<lparr>mb_revokedAt := Some (w_now s)\<rparr>) rows) =
      filter (\<lambda>x. mb_userId x = u \<and> mb_workspaceId x = w \<and> mb_revokedAt x = None \<and> mb_id x \<noteq> i) rows" for u w rows
      by (induction rows) auto
    then show ?thesis by (simp add: live_memberships_def t)
  qed
  have "\<exists>e. authz (mb_userId m) (cx_workspaceId ctx) (t\<lparr>w_now := now\<rparr>) = (Inl e, t\<lparr>w_now := now\<rparr>)"
    if "filter (\<lambda>x. mb_id x \<noteq> i) (live_memberships (mb_userId m) (cx_workspaceId ctx) s) = []"
    using that live
    by (cases "List.find (\<lambda>u. us_id u = mb_userId m) (w_users t)") (simp_all add: authz_def bindE_apply op_eval pickMembership_def)
  then show ?thesis using m mem live by auto
qed

text \<open>
  Removing an agent leaves the agent's live assignments: the unit stays taken for everybody else,
  while the grid no longer lists the removed agent to release it from.
\<close>

theorem removed_agent_blocks_property:
  assumes "removeMember ctx i s = (Inr (), t)" and "List.find (\<lambda>a. as_propertyId a = p \<and> as_revokedAt a = None) (w_assignments s) = Some a"
    and "as_membershipId a = i" and "j \<noteq> i" and "hasCapability ctx2 ''clients.assign''"
    and "find_membership j t = Some m" "mb_workspaceId m = cx_workspaceId ctx2" "mb_revokedAt m = None" "mb_role m = MANAGING_AGENT"
    and "List.find (\<lambda>x. pr_id x = p) (w_properties t) = Some pr" "pr_workspaceId pr = cx_workspaceId ctx2"
  shows "assignProperty ctx2 j p t = (Inl (AuthzError ''That property already has a responsible agent.'' 409), t)"
proof -
  have "keeps (same w_assignments) (removeMember ctx i)"
    unfolding removeMember_def by (intro frame.keeps_intros frames keeps_same_write; simp)
  from sameD [OF this assms(1)] have "w_assignments t = w_assignments s" .
  then show ?thesis using assms
    by (simp add: assignProperty_def bindE_apply op_eval requireCap_def assertE_eval assertDelegateMembership_def assertPropertyInWorkspace_def)
qed

theorem removal_closes_the_door_witness:
  "\<exists>t. removeMember (sample_ctx ORG_ADMIN) 7 (empty_world\<lparr>w_memberships :=
       [\<lparr> mb_id = 7, mb_workspaceId = 5, mb_userId = 2, mb_role = MANAGER, mb_clientPrincipalId = None, mb_subjectContactId = None,
          mb_createdAt = 0, mb_revokedAt = None \<rparr>]\<rparr>) = (Inr (), t) \<and>
     (\<exists>e. authz 2 5 (t\<lparr>w_now := 9\<rparr>) = (Inl e, t\<lparr>w_now := 9\<rparr>))"
proof -
  define m where "m = \<lparr> mb_id = 7, mb_workspaceId = 5, mb_userId = 2, mb_role = MANAGER, mb_clientPrincipalId = None, mb_subjectContactId = None,
          mb_createdAt = 0, mb_revokedAt = None \<rparr>"
  define s where "s = empty_world\<lparr>w_memberships := [m]\<rparr>"
  define t where "t = snd (removeMember (sample_ctx ORG_ADMIN) 7 s)"
  have cap: "hasCapability (sample_ctx ORG_ADMIN) ''members.manage''"
    by (simp add: hasCapability_def sample_ctx_def roleHas_def ORG_ADMIN_CAPS_def isPersonaRole_def isDelegateRole_def)
  have cx: "cx_workspaceId (sample_ctx ORG_ADMIN) = 5" "cx_userId (sample_ctx ORG_ADMIN) = 1" by (simp_all add: sample_ctx_def)
  have verb: "audit_verb_ok ''membership.revoke''" by (simp add: audit_verb_ok_def verb_char_def)
  have "fst (removeMember (sample_ctx ORG_ADMIN) 7 s) = Inr ()"
    by (simp add: removeMember_def bindE_apply op_eval requireCap_def assertE_eval cap find_membership_def s_def m_def empty_world_def
        getNow_eval recordAudit_def audit_for_def auditOf_def verb newId_def cx)
  then have run: "removeMember (sample_ctx ORG_ADMIN) 7 s = (Inr (), t)" by (simp add: t_def prod_eq_iff)
  have "distinct (map mb_id (w_memberships s))" by (simp add: s_def)
  from removal_closes_the_door [OF run this, of 9]
  have "\<exists>e. authz 2 5 (t\<lparr>w_now := 9\<rparr>) = (Inl e, t\<lparr>w_now := 9\<rparr>)"
    by (auto simp: s_def m_def sample_ctx_def live_memberships_def)
  with run show ?thesis unfolding s_def m_def by blast
qed

end
