(* ===== verification/Approvals.thy ===== *)
theory Approvals
  imports Negotiation
begin

text \<open>
  \<open>services/approvals.ts\<close>: the recorded sign-off of an absentee owner on the exact terms of an
  offer, asked for over a one-use link and given without an account. \<open>hash\<close> is the token hash,
  \<open>base\<close> the environment's \<open>APP_BASE_URL\<close> and \<open>token\<close> what the random source returned; the hash of
  the snapshot is the opaque digest of its JSON.
\<close>

definition APPROVAL_COMMENT_MAX :: nat where "APPROVAL_COMMENT_MAX = 2000"

definition offerApprovalSnapshot :: "offer \<Rightarrow> property option \<Rightarrow> json" where
  "offerApprovalSnapshot f p = JObj
     [(''offerId'', JId (of_id f)), (''version'', JNum (of_int (of_version f))), (''party'', JStr (party_name (of_party f))),
      (''annualRent'', JNum (of_annualRent f)), (''paymentSchedule'', JStr (of_paymentSchedule f)),
      (''paymentMethod'', jopt JStr (of_paymentMethod f)), (''termMonths'', jopt (JNum \<circ> of_int) (of_termMonths f)),
      (''tenancyId'', jopt JId (of_tenancyId f)), (''propertyId'', jopt (JId \<circ> pr_id) p),
      (''community'', jopt (JStr \<circ> pr_community) p), (''building'', jopt JStr (Option.bind p pr_building)),
      (''unitNo'', jopt JStr (Option.bind p pr_unitNo))]"

definition SIGNABLE :: "offerStatus list" where
  "SIGNABLE = [O_SENT, O_COUNTERED, O_ACCEPTED]"

text \<open>\<open>OPEN_PENDING\<close>, on the rows of an offer in a workspace.\<close>

definition open_pending :: "uid \<Rightarrow> uid \<Rightarrow> approval \<Rightarrow> bool" where
  "open_pending ws offerId a \<longleftrightarrow> ap_workspaceId a = ws \<and> ap_subjectType a = ''offer'' \<and> ap_subjectId a = offerId \<and>
     ap_decision a = None \<and> ap_decidedAt a = None"

definition clampApprovalComment :: "string option \<Rightarrow> string option" where
  "clampApprovalComment comment =
     (case comment of None \<Rightarrow> None
      | Some c \<Rightarrow> if js_trim c = [] then None else Some (take APPROVAL_COMMENT_MAX (js_trim c)))"

fun offerStatus_name :: "offerStatus \<Rightarrow> string" where
  "offerStatus_name O_SENT = ''SENT''"
| "offerStatus_name O_COUNTERED = ''COUNTERED''"
| "offerStatus_name O_ACCEPTED = ''ACCEPTED''"
| "offerStatus_name O_SUPERSEDED = ''SUPERSEDED''"
| "offerStatus_name O_WITHDRAWN = ''WITHDRAWN''"

subsection \<open>Asking\<close>

definition prior_request :: "uid \<Rightarrow> uid \<Rightarrow> world \<Rightarrow> uid option" where
  "prior_request ws offerId s = map_option ev_id (pick_max ev_createdAt (filter (\<lambda>e. ev_workspaceId e = ws \<and>
     ev_type e = EV_APPROVAL_REQUESTED \<and> ev_scopeType e = S_OFFER \<and> ev_scopeId e = Some offerId) (w_evidence s)))"

definition approval_link :: "uid \<Rightarrow> uid \<Rightarrow> secure_link \<Rightarrow> bool" where
  "approval_link ws offerId l \<longleftrightarrow> sl_workspaceId l = ws \<and> sl_purpose l = LP_APPROVAL \<and> sl_scopeType l = S_OFFER \<and>
     sl_scopeId l = offerId \<and> sl_revokedAt l = None"

definition close_prior :: "uid \<Rightarrow> uid \<Rightarrow> unit svc" where
  "close_prior ws offerId =
     bindE getNow (\<lambda>now.
     thenE (writeE (\<lambda>s. s\<lparr>w_approvals := upd_where (open_pending ws offerId) (\<lambda>a. a\<lparr>ap_decidedAt := Some now\<rparr>) (w_approvals s)\<rparr>))
       (writeE (\<lambda>s. s\<lparr>w_links := upd_where (approval_link ws offerId) (\<lambda>l. l\<lparr>sl_revokedAt := Some now\<rparr>) (w_links s)\<rparr>)))"

definition approval_row :: "uid \<Rightarrow> uid \<Rightarrow> uid \<Rightarrow> digest \<Rightarrow> uid \<Rightarrow> time \<Rightarrow> approval" where
  "approval_row ws offerId contactId payloadHash i now =
     \<lparr> ap_id = i, ap_workspaceId = ws, ap_subjectType = ''offer'', ap_subjectId = offerId,
       ap_requestedOfContactId = Some contactId, ap_payloadHash = payloadHash, ap_decision = None,
       ap_decidedAt = None, ap_createdAt = now \<rparr>"

definition approval_link_args :: "uid \<Rightarrow> uid \<Rightarrow> link_args" where
  "approval_link_args offerId contactId =
     \<lparr> la_purpose = LP_APPROVAL, la_scopeType = S_OFFER, la_scopeId = offerId, la_contactId = Some contactId,
       la_expiresInDays = None, la_maxUses = Some 1, la_requiredCapability = Some ''renewals.decide'' \<rparr>"

definition record_request ::
    "(string \<Rightarrow> string) \<Rightarrow> string \<Rightarrow> string \<Rightarrow> authz_ctx \<Rightarrow> offer \<Rightarrow> tenancy \<Rightarrow> uid \<Rightarrow> (uid \<times> string) svc" where
  "record_request hash base token ctx f t contactId =
     bindE (readE (property_of (tn_propertyId t))) (\<lambda>p.
     bindE (readE (prior_request (cx_workspaceId ctx) (of_id f))) (\<lambda>prior.
     thenE (close_prior (cx_workspaceId ctx) (of_id f))
     (bindE getNow (\<lambda>now. bindE newId (\<lambda>i.
      thenE (writeE (\<lambda>s. s\<lparr>w_approvals := w_approvals s @
         [approval_row (cx_workspaceId ctx) (of_id f) contactId (Sha256 (offerApprovalSnapshot f p)) i now]\<rparr>))
      (bindE (createSecureLink hash base token ctx (approval_link_args (of_id f) contactId)) (\<lambda>link.
       thenE (recordEvidence ((evidence_by ctx EV_APPROVAL_REQUESTED S_OFFER (Some (of_id f))
           (JObj [(''approvalId'', JId i), (''version'', JNum (of_int (of_version f)))]))
           \<lparr>ei_tenancyId := of_tenancyId f, ei_propertyId := Some (tn_propertyId t), ei_supersedesId := prior\<rparr>))
       (thenE (recordAudit (audit_by ctx ''approval.request'' ''Approval'' (Some i)))
         (ret (i, snd link))))))))))"

definition requestOwnerApproval ::
    "(string \<Rightarrow> string) \<Rightarrow> string \<Rightarrow> string \<Rightarrow> authz_ctx \<Rightarrow> uid \<Rightarrow> uid \<Rightarrow> (uid \<times> string) svc" where
  "requestOwnerApproval hash base token ctx offerId contactId =
     thenE (requireCap ctx ''renewals.decide'')
     (bindE (readE (find_offer offerId)) (\<lambda>found.
      thenE (liftE (assertSameWorkspace ctx (map_option of_workspaceId found)))
      (bindE (someE notFound found) (\<lambda>f.
      bindE (someE (AuthzError ''Not a renewal offer'' 422) (of_tenancyId f)) (\<lambda>tenancyId.
      thenE (assertE (of_status f \<in> set SIGNABLE)
        (AuthzError (''Offer is not open for sign-off (current: '' @ offerStatus_name (of_status f) @ '')'') 422))
      (bindE (getTenancy ctx tenancyId) (\<lambda>t.
       bindE (readE (\<lambda>s. List.find (\<lambda>c. ct_id c = contactId) (w_contacts s))) (\<lambda>contact.
       thenE (liftE (assertSameWorkspace ctx (map_option ct_workspaceId contact)))
         (record_request hash base token ctx f t contactId)))))))))"

subsection \<open>The link\<close>

definition pending_approval :: "uid \<Rightarrow> uid \<Rightarrow> world \<Rightarrow> approval option" where
  "pending_approval ws offerId s = pick_max ap_createdAt (filter (open_pending ws offerId) (w_approvals s))"

record approval_link_view =
  al_approvalId :: uid
  al_offerId :: uid
  al_version :: int
  al_party :: offerParty
  al_annualRent :: rat
  al_paymentSchedule :: string
  al_paymentMethod :: "string option"
  al_termMonths :: "int option"
  al_unit :: string

definition getApprovalForLink :: "secure_link \<Rightarrow> world \<Rightarrow> approval_link_view option" where
  "getApprovalForLink link s =
     (if sl_purpose link \<noteq> LP_APPROVAL \<or> sl_scopeType link \<noteq> S_OFFER \<or> sl_revokedAt link \<noteq> None then None
      else case find_offer (sl_scopeId link) s of
        None \<Rightarrow> None
      | Some f \<Rightarrow>
          if of_workspaceId f \<noteq> sl_workspaceId link then None
          else case pending_approval (sl_workspaceId link) (of_id f) s of
            None \<Rightarrow> None
          | Some a \<Rightarrow>
              let p = (case of_tenancyId f of None \<Rightarrow> None
                       | Some ti \<Rightarrow> Option.bind (List.find (\<lambda>t. tn_id t = ti) (w_tenancies s)) (\<lambda>t. property_of (tn_propertyId t) s))
              in Some \<lparr> al_approvalId = ap_id a, al_offerId = of_id f, al_version = of_version f, al_party = of_party f,
                   al_annualRent = of_annualRent f, al_paymentSchedule = of_paymentSchedule f,
                   al_paymentMethod = of_paymentMethod f, al_termMonths = of_termMonths f,
                   al_unit = (case p of None \<Rightarrow> ''Unit'' | Some x \<Rightarrow> join_dot [Some (pr_community x), pr_building x, pr_unitNo x]) \<rparr>)"

definition link_gone :: error where
  "link_gone = AuthzError ''This link is no longer available.'' 400"

definition already_decided :: error where
  "already_decided = AuthzError ''Already decided'' 409"

definition decision_name :: "approvalDecision \<Rightarrow> string" where
  "decision_name d = (if d = AD_APPROVED then ''APPROVED'' else ''REJECTED'')"

definition decision_evidence ::
    "secure_link \<Rightarrow> approvalDecision \<Rightarrow> string option \<Rightarrow> offer \<Rightarrow> uid option \<Rightarrow> approval \<Rightarrow> evidence_input" where
  "decision_evidence link decision comment f propertyId a =
     (evidenceOf (sl_workspaceId link) (if decision = AD_APPROVED then EV_APPROVAL_GRANTED else EV_APPROVAL_REJECTED)
        A_TENANT_LINK None S_OFFER (Some (of_id f)))
       \<lparr>ei_tenancyId := of_tenancyId f, ei_propertyId := propertyId,
        ei_payload := Some (JObj ([(''viaLink'', JBool True), (''decision'', JStr (decision_name decision)),
          (''approvalId'', JId (ap_id a)), (''offerVersion'', JNum (of_int (of_version f))),
          (''offerStatus'', JStr (offerStatus_name (of_status f)))] @
          (case clampApprovalComment comment of None \<Rightarrow> [] | Some c \<Rightarrow> [(''comment'', JStr c)])))\<rparr>"

text \<open>The write guarded by the row: the number of rows it changed is checked.\<close>

definition claim_pending :: "uid \<Rightarrow> approvalDecision \<Rightarrow> unit svc" where
  "claim_pending i decision =
     bindE getNow (\<lambda>now.
     bindE (readE (\<lambda>s. count_where (\<lambda>a. ap_id a = i \<and> ap_decision a = None \<and> ap_decidedAt a = None) (w_approvals s))) (\<lambda>n.
     thenE (writeE (\<lambda>s. s\<lparr>w_approvals := upd_where (\<lambda>a. ap_id a = i \<and> ap_decision a = None \<and> ap_decidedAt a = None)
        (\<lambda>a. a\<lparr>ap_decision := Some decision, ap_decidedAt := Some now\<rparr>) (w_approvals s)\<rparr>))
       (assertE (n = 1) already_decided)))"

definition decided_property :: "secure_link \<Rightarrow> offer \<Rightarrow> uid option svc" where
  "decided_property link f =
     (case of_tenancyId f of
        None \<Rightarrow> ret None
      | Some ti \<Rightarrow>
          bindE (readE (\<lambda>s. List.find (\<lambda>t. tn_id t = ti) (w_tenancies s))) (\<lambda>found.
          bindE (someE link_gone (case found of None \<Rightarrow> None | Some t \<Rightarrow>
            if tn_workspaceId t = sl_workspaceId link then Some t else None)) (\<lambda>t.
          ret (Some (tn_propertyId t)))))"

definition decideApprovalViaLink ::
    "(string \<Rightarrow> string) \<Rightarrow> string \<Rightarrow> approvalDecision \<Rightarrow> string option \<Rightarrow> (uid \<times> approvalDecision) svc" where
  "decideApprovalViaLink hash token decision comment =
     bindE (readE (validateLinkToken hash token)) (\<lambda>validation.
     bindE (someE link_gone (case validation of Inl _ \<Rightarrow> None | Inr l \<Rightarrow> if sl_purpose l = LP_APPROVAL then Some l else None)) (\<lambda>link.
     bindE (consumeLinkUse (sl_id link)) (\<lambda>consumed.
     thenE (assertE consumed link_gone)
     (bindE (readE (find_offer (sl_scopeId link))) (\<lambda>found.
      bindE (someE link_gone (case found of None \<Rightarrow> None | Some f \<Rightarrow>
        if of_workspaceId f = sl_workspaceId link then Some f else None)) (\<lambda>f.
      bindE (decided_property link f) (\<lambda>propertyId.
      bindE (readE (pending_approval (sl_workspaceId link) (of_id f))) (\<lambda>pending.
      bindE (someE already_decided pending) (\<lambda>a.
      thenE (claim_pending (ap_id a) decision)
      (thenE (recordEvidence (decision_evidence link decision comment f propertyId a))
      (thenE (case of_renewalCaseId f of None \<Rightarrow> ret () | Some c \<Rightarrow> evaluateRenewalRisk c)
        (ret (ap_id a, decision)))))))))))))"


subsection \<open>What a request and a decision do\<close>

text \<open>The state after the prior requests were closed.\<close>

definition closed_prior :: "uid \<Rightarrow> uid \<Rightarrow> world \<Rightarrow> world" where
  "closed_prior ws o' s = s\<lparr>w_approvals := upd_where (open_pending ws o') (\<lambda>a. a\<lparr>ap_decidedAt := Some (w_now s)\<rparr>) (w_approvals s),
     w_links := upd_where (approval_link ws o') (\<lambda>l. l\<lparr>sl_revokedAt := Some (w_now s)\<rparr>) (w_links s)\<rparr>"

lemma close_prior_eq: "close_prior ws o' s = (Inr (), closed_prior ws o' s)"
  by (simp add: close_prior_def bindE_apply op_eval getNow_eval closed_prior_def)

lemma hashes_upd:
  "(\<forall>x \<in> set (upd_where p (\<lambda>l. l\<lparr>sl_revokedAt := v\<rparr>) ls). sl_tokenHash x \<noteq> h) \<longleftrightarrow> (\<forall>x \<in> set ls. sl_tokenHash x \<noteq> h)"
  by (induction ls) auto

lemma requestOwnerApproval_ok:
  assumes "requestOwnerApproval hash base token ctx o' c s = (Inr (i, url), t)"
  obtains f ti tn where "hasCapability ctx ''renewals.decide''" "cx_subjectContactId ctx = None" "\<not> isDelegateRole (cx_role ctx)"
    "find_offer o' s = Some f" "of_workspaceId f = cx_workspaceId ctx" "of_tenancyId f = Some ti" "of_status f \<in> set SIGNABLE"
    "List.find (\<lambda>t. tn_id t = ti) (w_tenancies s) = Some tn" "assertReadable ctx (tenancy_target ti s) s = Inr ()"
    "i = w_next s" "url = base @ ''/link/'' @ token"
    "\<forall>x \<in> set (w_links s). sl_tokenHash x \<noteq> hash token"
    "w_approvals t = w_approvals (closed_prior (cx_workspaceId ctx) o' s) @
       [approval_row (cx_workspaceId ctx) o' c (Sha256 (offerApprovalSnapshot f (property_of (tn_propertyId tn) s))) i (w_now s)]"
    "w_links t = w_links (closed_prior (cx_workspaceId ctx) o' s) @ [(minted_link hash token ctx (approval_link_args o' c) s)\<lparr>sl_id := Suc i\<rparr>]"
    "w_offers t = w_offers s" "w_tenancies t = w_tenancies s" "w_now t = w_now s" "w_next s < w_next t"
    "\<exists>es. w_evidence t = w_evidence s @ es"
proof -
  obtain f where f: "find_offer o' s = Some f" "of_id f = o'"
    using assms by (cases "find_offer o' s")
      (auto simp: requestOwnerApproval_def bindE_apply op_eval requireCap_def assertE_eval assertSameWorkspace_def find_offer_def
        dest: find_Some_in split: if_splits)
  have "\<exists>ti tn. of_tenancyId f = Some ti \<and> of_status f \<in> set SIGNABLE \<and> getTenancy ctx ti s = (Inr tn, s) \<and>
      hasCapability ctx ''renewals.decide'' \<and> assertSameWorkspace ctx (Some (of_workspaceId f)) = Inr () \<and>
      record_request hash base token ctx f tn c s = (Inr (i, url), t)"
    using assms f unfolding requestOwnerApproval_def
    by (clarsimp simp only: bindE_ok readE_ok liftE_ok assertE_ok someE_ok ret_ok requireCap_def option.map option.inject getTenancy_ok)
      auto
  then obtain ti tn where g: "of_tenancyId f = Some ti" "of_status f \<in> set SIGNABLE" "getTenancy ctx ti s = (Inr tn, s)"
    "hasCapability ctx ''renewals.decide''" "assertSameWorkspace ctx (Some (of_workspaceId f)) = Inr ()"
    "record_request hash base token ctx f tn c s = (Inr (i, url), t)"
    by blast
  let ?s = "closed_prior (cx_workspaceId ctx) o' s"
  show thesis
    by (rule that [of f ti tn])
      (use f g in \<open>auto simp: assertSameWorkspace_ok getTenancy_ok record_request_def bindE_ok op_ok close_prior_eq
        createSecureLink_ok newId_ok getNow_ok closed_prior_def minted_link_def approval_link_args_def hashes_upd\<close>)
qed


lemma quiet_risk:
  obtains v where "(case x of None \<Rightarrow> ret () | Some c \<Rightarrow> evaluateRenewalRisk c) s = (Inr (), v)"
    "w_approvals v = w_approvals s" "w_links v = w_links s" "prefix (w_evidence s) (w_evidence v)" "w_next s \<le> w_next v" "w_now v = w_now s"
proof -
  have n: "never_fails (case x of None \<Rightarrow> ret () | Some c \<Rightarrow> evaluateRenewalRisk c)" by (intro outcome)
  then obtain v where v: "(case x of None \<Rightarrow> ret () | Some c \<Rightarrow> evaluateRenewalRisk c) s = (Inr (), v)"
    unfolding never_fails_def by (metis (full_types) old.unit.exhaust)
  have "w_approvals v = w_approvals s" "w_links v = w_links s"
    using v by (rule sameD [rotated], intro frame.keeps_intros frames; simp)+
  moreover have "keeps extends (case x of None \<Rightarrow> ret () | Some c \<Rightarrow> evaluateRenewalRisk c)"
    by (intro logs.keeps_intros log_keeps)
  then have "extends s v" using v by (rule keepsD)
  ultimately show thesis using that [OF v] by (simp add: extends_def)
qed

lemma pending_approval_SomeD:
  "pending_approval ws o' s = Some a \<Longrightarrow> a \<in> set (w_approvals s) \<and> open_pending ws o' a"
  unfolding pending_approval_def by (auto dest!: pick_max_Some)

definition decided :: "approvalDecision \<Rightarrow> time \<Rightarrow> approval \<Rightarrow> approval" where
  "decided d now a = a\<lparr>ap_decision := Some d, ap_decidedAt := Some now\<rparr>"

definition consumed_links :: "uid \<Rightarrow> world \<Rightarrow> world" where
  "consumed_links i s = s\<lparr>w_links := upd_where (consumable i (w_now s)) (\<lambda>l. l\<lparr>sl_useCount := sl_useCount l + 1\<rparr>) (w_links s)\<rparr>"

lemma claim_pending_eq:
  assumes "distinct (map ap_id (w_approvals s))" and "a \<in> set (w_approvals s)" and "open_pending ws o' a"
  shows "claim_pending (ap_id a) d s =
    (Inr (), s\<lparr>w_approvals := upd_where (\<lambda>x. ap_id x = ap_id a) (decided d (w_now s)) (w_approvals s)\<rparr>)"
proof -
  let ?P = "\<lambda>x. ap_id x = ap_id a \<and> ap_decision x = None \<and> ap_decidedAt x = None"
  have one: "x \<in> set (w_approvals s) \<Longrightarrow> ?P x \<longleftrightarrow> ap_id x = ap_id a" for x
    using assms by (auto simp: open_pending_def distinct_map inj_on_def)
  have "count_where ?P (w_approvals s) = count_where (\<lambda>x. ap_id x = ap_id a) (w_approvals s)"
    by (rule count_where_cong) (rule one)
  also have "\<dots> = 1"
    using count_where_distinct_key [of ap_id "w_approvals s" "\<lambda>x. ap_id x = ap_id a" "ap_id a"] assms(1,2)
      count_where_pos_iff [of "\<lambda>x. ap_id x = ap_id a" "w_approvals s"] by auto
  finally have n: "count_where ?P (w_approvals s) = 1" .
  have "upd_where ?P (\<lambda>x. x\<lparr>ap_decision := Some d, ap_decidedAt := Some (w_now s)\<rparr>) (w_approvals s) =
      upd_where (\<lambda>x. ap_id x = ap_id a) (decided d (w_now s)) (w_approvals s)"
    unfolding upd_where_def by (rule map_cong [OF refl]) (use one in \<open>auto simp: decided_def\<close>)
  then show ?thesis using n by (simp add: claim_pending_def bindE_apply op_eval getNow_eval assertE_eval)
qed

lemma decided_property_reads: "reads_only (decided_property l f)"
  unfolding decided_property_def by (cases "of_tenancyId f") (auto intro!: outcome)

lemma consumed_links_keeps:
  "w_approvals (consumed_links i s) = w_approvals s" "w_evidence (consumed_links i s) = w_evidence s" "w_offers (consumed_links i s) = w_offers s"
  "w_now (consumed_links i s) = w_now s" "w_tenancies (consumed_links i s) = w_tenancies s" "w_next (consumed_links i s) = w_next s"
  by (simp_all add: consumed_links_def)

lemma consumeLinkUse_consumed:
  "consumeLinkUse i s = (Inr (count_where (consumable i (w_now s)) (w_links s) = 1), consumed_links i s)"
  by (simp add: consumeLinkUse_eq consumed_links_def)

text \<open>The run that decides.\<close>

lemma decideApprovalViaLink_eval:
  assumes "validateLinkToken hash token s = Inr l" "sl_purpose l = LP_APPROVAL" "count_where (consumable (sl_id l) (w_now s)) (w_links s) = 1"
    and "find_offer (sl_scopeId l) s = Some f" "of_workspaceId f = sl_workspaceId l"
    and "decided_property l f (consumed_links (sl_id l) s) = (Inr p, consumed_links (sl_id l) s)"
    and "pending_approval (sl_workspaceId l) (of_id f) s = Some a" "distinct (map ap_id (w_approvals s))"
  obtains t where "decideApprovalViaLink hash token d c s = (Inr (ap_id a, d), t)"
    "w_approvals t = upd_where (\<lambda>x. ap_id x = ap_id a) (decided d (w_now s)) (w_approvals s)"
    "w_links t = w_links (consumed_links (sl_id l) s)" "w_next s \<le> w_next t"
    "prefix (w_evidence s @ [evidence_row (w_next s) (w_now s) (decision_evidence l d c f p a)]) (w_evidence t)"
proof -
  let ?u = "consumed_links (sl_id l) s"
  have f: "find_offer (sl_scopeId l) ?u = Some f" using assms(4) by (simp add: find_offer_def consumed_links_keeps)
  have pend: "pending_approval (sl_workspaceId l) (of_id f) ?u = Some a"
    using assms(7) by (simp add: pending_approval_def consumed_links_keeps)
  have a: "a \<in> set (w_approvals ?u)" "open_pending (sl_workspaceId l) (of_id f) a" using pending_approval_SomeD [OF pend] by auto
  let ?v = "?u\<lparr>w_approvals := upd_where (\<lambda>x. ap_id x = ap_id a) (decided d (w_now s)) (w_approvals s)\<rparr>"
  let ?w = "?v\<lparr>w_next := Suc (w_next s), w_evidence := w_evidence s @ [evidence_row (w_next s) (w_now s) (decision_evidence l d c f p a)]\<rparr>"
  have claim: "claim_pending (ap_id a) d ?u = (Inr (), ?v)"
    using claim_pending_eq [OF _ a] assms(8) by (simp add: consumed_links_keeps)
  have log: "recordEvidence (decision_evidence l d c f p a) ?v = (Inr (w_next s), ?w)"
    by (subst recordEvidence_eval) (simp_all add: decision_evidence_def evidenceOf_def consumed_links_keeps)
  obtain x where x: "(case of_renewalCaseId f of None \<Rightarrow> ret () | Some c \<Rightarrow> evaluateRenewalRisk c) ?w = (Inr (), x)"
    "w_approvals x = w_approvals ?w" "w_links x = w_links ?w" "prefix (w_evidence ?w) (w_evidence x)" "w_next ?w \<le> w_next x"
    by (rule quiet_risk [of "of_renewalCaseId f" ?w])
  have "decideApprovalViaLink hash token d c s = (Inr (ap_id a, d), x)"
    using assms(1-3,5,6) f pend claim log x(1)
    by (simp add: decideApprovalViaLink_def bindE_apply op_eval assertE_eval consumeLinkUse_consumed)
  then show thesis using x by (intro that [of x]) simp_all
qed

text \<open>A decision changes nothing of the approvals, or exactly the pending row, which it logs.\<close>

lemma decideApprovalViaLink_cases:
  assumes "decideApprovalViaLink hash token d c s = (r, t)" and "distinct (map ap_id (w_approvals s))"
  obtains (none) e where "r = Inl e" "w_approvals t = w_approvals s" "prefix (w_evidence s) (w_evidence t)" "w_next t = w_next s"
  | (one) l f a p where "validateLinkToken hash token s = Inr l" "sl_purpose l = LP_APPROVAL" "find_offer (sl_scopeId l) s = Some f"
      "of_workspaceId f = sl_workspaceId l" "pending_approval (sl_workspaceId l) (of_id f) s = Some a" "r = Inr (ap_id a, d)"
      "w_approvals t = upd_where (\<lambda>x. ap_id x = ap_id a) (decided d (w_now s)) (w_approvals s)"
      "w_links t = w_links (consumed_links (sl_id l) s)" "w_next s \<le> w_next t"
      "prefix (w_evidence s @ [evidence_row (w_next s) (w_now s) (decision_evidence l d c f p a)]) (w_evidence t)"
proof -
  have refuse: thesis if "r = Inl e" "t = s \<or> (\<exists>l. t = consumed_links (sl_id l) s)" for e
    using that by (intro none [of e]) (auto simp: consumed_links_keeps)
  note run = assms(1) [unfolded decideApprovalViaLink_def]
  show thesis
  proof (cases "validateLinkToken hash token s")
    case (Inl e)
    then show thesis using run refuse by (auto simp: bindE_apply op_eval)
  next
    case v: (Inr l)
    let ?u = "consumed_links (sl_id l) s"
    show thesis
    proof (cases "sl_purpose l = LP_APPROVAL \<and> count_where (consumable (sl_id l) (w_now s)) (w_links s) = 1")
      case False
      then show thesis
        using run v refuse by (auto simp: bindE_apply op_eval consumeLinkUse_consumed assertE_eval split: if_splits)
    next
      case used: True
      show thesis
      proof (cases "case find_offer (sl_scopeId l) s of None \<Rightarrow> None | Some f \<Rightarrow> if of_workspaceId f = sl_workspaceId l then Some f else None")
        case None
        moreover have "find_offer (sl_scopeId l) ?u = find_offer (sl_scopeId l) s" by (simp add: find_offer_def consumed_links_keeps)
        ultimately show thesis
          using run v used refuse by (auto simp: bindE_apply op_eval assertE_eval consumeLinkUse_consumed)
      next
        case (Some f)
        then have f: "find_offer (sl_scopeId l) s = Some f" "of_workspaceId f = sl_workspaceId l" by (auto split: option.splits if_splits)
        have f': "find_offer (sl_scopeId l) ?u = Some f" using f(1) by (simp add: find_offer_def consumed_links_keeps)
        obtain q where q: "decided_property l f ?u = (q, ?u)"
          using reads_onlyD [OF decided_property_reads] by (metis prod.collapse)
        have pend: "pending_approval (sl_workspaceId l) (of_id f) ?u = pending_approval (sl_workspaceId l) (of_id f) s"
          by (simp add: pending_approval_def consumed_links_keeps)
        show thesis
        proof (cases "\<exists>p a. q = Inr p \<and> pending_approval (sl_workspaceId l) (of_id f) s = Some a")
          case False
          then show thesis
            using run v used refuse f' f(2) q pend
            by (cases q; cases "pending_approval (sl_workspaceId l) (of_id f) s")
              (auto simp: bindE_apply op_eval assertE_eval consumeLinkUse_consumed)
        next
          case True
          then obtain p a where pa: "q = Inr p" "pending_approval (sl_workspaceId l) (of_id f) s = Some a" by blast
          have q': "decided_property l f ?u = (Inr p, ?u)" using q pa(1) by simp
          show thesis
            by (rule decideApprovalViaLink_eval [OF v _ _ f q' pa(2) assms(2), of d c])
              (use used assms(1) v f pa one [of l f a p] in auto)
        qed
      qed
    qed
  qed
qed

subsection \<open>Any interleaving\<close>

definition sign_off_logged :: "world \<Rightarrow> approval \<Rightarrow> bool" where
  "sign_off_logged s a \<longleftrightarrow> (\<exists>e \<in> set (w_evidence s). ev_actorType e = A_TENANT_LINK \<and> ev_scopeType e = S_OFFER \<and>
     ev_type e = (if ap_decision a = Some AD_APPROVED then EV_APPROVAL_GRANTED else EV_APPROVAL_REJECTED) \<and>
     ev_scopeId e = Some (ap_subjectId a) \<and>
     (\<exists>fields. ev_payload e = Some (JObj fields) \<and> (''approvalId'', JId (ap_id a)) \<in> set fields))"

definition approvals_wf :: "world \<Rightarrow> bool" where
  "approvals_wf s \<longleftrightarrow> distinct (map ap_id (w_approvals s)) \<and> (\<forall>a \<in> set (w_approvals s). ap_id a < w_next s) \<and>
     (\<forall>ws i. count_where (open_pending ws i) (w_approvals s) \<le> 1) \<and>
     (\<forall>a \<in> set (w_approvals s). ap_decision a \<noteq> None \<longrightarrow> ap_decidedAt a \<noteq> None \<and> sign_off_logged s a)"

definition approvals_law :: "world \<Rightarrow> world \<Rightarrow> bool" where
  "approvals_law s t \<longleftrightarrow> (approvals_wf s \<longrightarrow> approvals_wf t \<and>
     (\<forall>a \<in> set (w_approvals s). ap_decidedAt a \<noteq> None \<longrightarrow> a \<in> set (w_approvals t)))"

interpretation approval_law: step_law approvals_law
  by unfold_locales (auto simp: approvals_law_def)

lemma logged_mono: "prefix (w_evidence s) (w_evidence t) \<Longrightarrow> sign_off_logged s a \<Longrightarrow> sign_off_logged t a"
  unfolding sign_off_logged_def by (meson set_mono_prefix subsetD)

lemma approvals_idle:
  "w_approvals t = w_approvals s \<Longrightarrow> prefix (w_evidence s) (w_evidence t) \<Longrightarrow> w_next s \<le> w_next t \<Longrightarrow> approvals_law s t"
  unfolding approvals_law_def approvals_wf_def using logged_mono by (auto intro: less_le_trans)

lemma closed_prior_keeps: "w_next (closed_prior ws i s) = w_next s" "w_now (closed_prior ws i s) = w_now s"
  by (simp_all add: closed_prior_def)

lemma requestOwnerApproval_approvals:
  assumes "requestOwnerApproval hash base token ctx o' c s = (r, t)"
  shows "(w_approvals t = w_approvals s \<or> (\<exists>d. w_approvals t = w_approvals (closed_prior (cx_workspaceId ctx) o' s) @
      [approval_row (cx_workspaceId ctx) o' c d (w_next s) (w_now s)] \<and> w_next s < w_next t)) \<and>
    prefix (w_evidence s) (w_evidence t) \<and> w_next s \<le> w_next t"
proof -
  define front where "front = thenE (requireCap ctx ''renewals.decide'')
     (bindE (readE (find_offer o')) (\<lambda>found.
      thenE (liftE (assertSameWorkspace ctx (map_option of_workspaceId found)))
      (bindE (someE notFound found) (\<lambda>f.
      bindE (someE (AuthzError ''Not a renewal offer'' 422) (of_tenancyId f)) (\<lambda>tenancyId.
      thenE (assertE (of_status f \<in> set SIGNABLE)
        (AuthzError (''Offer is not open for sign-off (current: '' @ offerStatus_name (of_status f) @ '')'') 422))
      (bindE (getTenancy ctx tenancyId) (\<lambda>t.
       bindE (readE (\<lambda>s. List.find (\<lambda>c'. ct_id c' = c) (w_contacts s))) (\<lambda>contact.
       thenE (liftE (assertSameWorkspace ctx (map_option ct_workspaceId contact))) (ret (f, t))))))))))"
  have reads: "reads_only front" unfolding front_def requireCap_def getTenancy_def by (intro outcome)
  have whole: "requestOwnerApproval hash base token ctx o' c = bindE front (\<lambda>(f, t). record_request hash base token ctx f t c)"
    unfolding requestOwnerApproval_def front_def by (simp add: bindE_assoc) (simp add: bindE_def ret_def split_beta cong: if_cong)
  have offer: "of_id f = o'" if "front s = (Inr (f, tn), s)" for f tn
    using that unfolding front_def find_offer_def
    by (clarsimp simp only: bindE_ok readE_ok liftE_ok assertE_ok someE_ok ret_ok) (auto dest: find_Some_in)
  show ?thesis
  proof (cases "front s")
    case (Pair x u)
    have u: "u = s" using reads Pair by (rule reads_onlyD)
    show ?thesis
    proof (cases x)
      case (Inl e)
      then show ?thesis using assms Pair u by (simp add: whole bindE_apply)
    next
      case (Inr ft)
      obtain f tn where ft: "ft = (f, tn)" by (cases ft)
      have o': "of_id f = o'" using offer Pair Inr ft u by blast
      let ?row = "approval_row (cx_workspaceId ctx) o' c (Sha256 (offerApprovalSnapshot f (property_of (tn_propertyId tn) s))) (w_next s) (w_now s)"
      let ?v = "(closed_prior (cx_workspaceId ctx) o' s)\<lparr>w_next := Suc (w_next s), w_approvals := w_approvals (closed_prior (cx_workspaceId ctx) o' s) @ [?row]\<rparr>"
      define rest where "rest = bindE (createSecureLink hash base token ctx (approval_link_args o' c)) (\<lambda>link.
       thenE (recordEvidence ((evidence_by ctx EV_APPROVAL_REQUESTED S_OFFER (Some o')
           (JObj [(''approvalId'', JId (w_next s)), (''version'', JNum (of_int (of_version f)))]))
           \<lparr>ei_tenancyId := of_tenancyId f, ei_propertyId := Some (tn_propertyId tn),
            ei_supersedesId := prior_request (cx_workspaceId ctx) o' s\<rparr>))
       (thenE (recordAudit (audit_by ctx ''approval.request'' ''Approval'' (Some (w_next s)))) (ret (w_next s, snd link))))"
      have nid: "newId (closed_prior (cx_workspaceId ctx) o' s) =
          (Inr (w_next s), (closed_prior (cx_workspaceId ctx) o' s)\<lparr>w_next := Suc (w_next s)\<rparr>)"
        by (simp add: newId_def closed_prior_keeps)
      have run: "rest ?v = (r, t)"
        using assms Pair Inr ft u o'
        by (simp add: whole bindE_apply record_request_def op_eval close_prior_eq getNow_eval nid rest_def closed_prior_keeps cong: sum.case_cong prod.case_cong)
      have "keeps (same w_approvals) rest" unfolding rest_def by (intro frame.keeps_intros frames; simp)
      from sameD [OF this run] have rows: "w_approvals t = w_approvals ?v" .
      have "keeps extends rest" unfolding rest_def by (intro logs.keeps_intros log_keeps)
      from keepsD [OF this run] have "extends ?v t" .
      then show ?thesis using rows by (auto simp: extends_def closed_prior_def)
    qed
  qed
qed


lemma decision_logged:
  assumes "prefix (w_evidence s @ [evidence_row i now (decision_evidence l d c f p a)]) (w_evidence t)" and "ap_subjectId a = of_id f"
  shows "sign_off_logged t (decided d now' a)"
proof -
  let ?e = "evidence_row i now (decision_evidence l d c f p a)"
  have "?e \<in> set (w_evidence t)" using set_mono_prefix [OF assms(1)] by auto
  then show ?thesis
    unfolding sign_off_logged_def using assms(2)
    by (rule_tac bexI [of _ ?e]; cases d; simp add: evidence_row_def decision_evidence_def evidenceOf_def decided_def decision_name_def)
qed

lemma law_request: "keeps approvals_law (requestOwnerApproval hash base token ctx o' c)"
proof (rule keepsI)
  fix s
  obtain r t where run: "requestOwnerApproval hash base token ctx o' c s = (r, t)" by fastforce
  let ?ws = "cx_workspaceId ctx"
  let ?close = "\<lambda>a. a\<lparr>ap_decidedAt := Some (w_now s)\<rparr>"
  note part = requestOwnerApproval_approvals [OF run]
  show "approvals_law s (snd (requestOwnerApproval hash base token ctx o' c s))"
  proof (cases "w_approvals t = w_approvals s")
    case True
    then show ?thesis using part by (simp add: run approvals_idle)
  next
    case False
    then obtain d where rows: "w_approvals t = upd_where (open_pending ?ws o') ?close (w_approvals s) @
        [approval_row ?ws o' c d (w_next s) (w_now s)]" and nx: "w_next s < w_next t"
      using part by (auto simp: closed_prior_def)
    have "approvals_wf t \<and> (\<forall>a \<in> set (w_approvals s). ap_decidedAt a \<noteq> None \<longrightarrow> a \<in> set (w_approvals t))" if wf: "approvals_wf s"
    proof (intro conjI)
      have counts: "count_where (open_pending w i) (w_approvals t) \<le> 1" for w i
      proof (cases "w = ?ws \<and> i = o'")
        case True
        then have "count_where (open_pending w i) (upd_where (open_pending ?ws o') ?close (w_approvals s)) = 0"
          by (auto simp: count_where_0_iff set_upd_where) (simp add: open_pending_def)
        then show ?thesis by (simp add: rows)
      next
        case False
        have "count_where (open_pending w i) (upd_where (open_pending ?ws o') ?close (w_approvals s)) \<le> count_where (open_pending w i) (w_approvals s)"
          unfolding count_where_upd_where by (rule count_where_mono) (auto simp: open_pending_def split: if_splits)
        moreover have "\<not> open_pending w i (approval_row ?ws o' c d (w_next s) (w_now s))"
          using False by (auto simp: open_pending_def approval_row_def)
        moreover have "count_where (open_pending w i) (w_approvals s) \<le> 1" using wf by (simp add: approvals_wf_def)
        ultimately show ?thesis by (simp add: rows)
      qed
      have mono: "sign_off_logged s a \<Longrightarrow> sign_off_logged t a" for a using logged_mono part by blast
      have close: "sign_off_logged t (?close a) \<longleftrightarrow> sign_off_logged t a" for a by (simp add: sign_off_logged_def)
      show "approvals_wf t"
        unfolding approvals_wf_def
      proof (intro conjI allI ballI impI)
        show "distinct (map ap_id (w_approvals t))"
          using wf by (auto simp: rows approvals_wf_def map_upd_where approval_row_def)
      qed (use wf nx counts mono close in \<open>auto simp: rows approvals_wf_def set_upd_where approval_row_def\<close>)
      show "\<forall>a \<in> set (w_approvals s). ap_decidedAt a \<noteq> None \<longrightarrow> a \<in> set (w_approvals t)"
        by (auto simp: rows set_upd_where open_pending_def)
    qed
    then show ?thesis by (simp add: approvals_law_def run)
  qed
qed

lemma law_decide: "keeps approvals_law (decideApprovalViaLink hash token d c)"
proof (rule keepsI)
  fix s
  obtain r t where run: "decideApprovalViaLink hash token d c s = (r, t)" by fastforce
  have "approvals_wf t \<and> (\<forall>a \<in> set (w_approvals s). ap_decidedAt a \<noteq> None \<longrightarrow> a \<in> set (w_approvals t))" if wf: "approvals_wf s"
  proof -
    have "distinct (map ap_id (w_approvals s))" using wf by (simp add: approvals_wf_def)
    with run show ?thesis
    proof (cases rule: decideApprovalViaLink_cases)
      case (none e)
      then show ?thesis using wf approvals_idle [of t s] by (auto simp: approvals_law_def)
    next
      case (one l f a p)
      have a: "a \<in> set (w_approvals s)" "open_pending (sl_workspaceId l) (of_id f) a" using pending_approval_SomeD [OF one(5)] by auto
      have uniq: "x = a" if "x \<in> set (w_approvals s)" "ap_id x = ap_id a" for x
        using that wf a(1) by (auto simp: approvals_wf_def distinct_map inj_on_def)
      have ev: "prefix (w_evidence s) (w_evidence t)" using one(10) by (metis append_prefixD)
      have rows: "set (w_approvals t) = insert (decided d (w_now s) a) (set (w_approvals s) - {a})"
      proof -
        have id: "ap_id (decided d (w_now s) x) = ap_id x" for x by (simp add: decided_def)
        have "x \<in> set (w_approvals s) \<Longrightarrow> ap_id x = ap_id a \<longleftrightarrow> x = a" for x using uniq by blast
        then have "w_approvals t = map (\<lambda>x. if x = a then decided d (w_now s) a else x) (w_approvals s)"
          unfolding one(7) upd_where_def by (intro map_cong) auto
        then show ?thesis using a(1) by auto
      qed
      have log: "sign_off_logged t (decided d (w_now s) a)"
        using decision_logged [OF one(10)] a(2) by (simp add: open_pending_def)
      have counts: "count_where (open_pending w i) (w_approvals t) \<le> 1" for w i
      proof -
        have "count_where (open_pending w i) (w_approvals t) \<le> count_where (open_pending w i) (w_approvals s)"
          unfolding one(7) by (rule count_where_upd_le) (simp add: open_pending_def decided_def)
        then show ?thesis using wf by (auto simp: approvals_wf_def intro: order_trans)
      qed
      have ids: "map ap_id (w_approvals t) = map ap_id (w_approvals s)" unfolding one(7) by (rule map_upd_where) (simp add: decided_def)
      have "approvals_wf t"
        unfolding approvals_wf_def ids rows
        using wf counts one(9) log logged_mono [OF ev] a(1)
        by (auto simp: approvals_wf_def decided_def intro: less_le_trans)
      moreover have "\<forall>x \<in> set (w_approvals s). ap_decidedAt x \<noteq> None \<longrightarrow> x \<in> set (w_approvals t)"
        using a(2) by (auto simp: rows open_pending_def)
      ultimately show ?thesis by blast
    qed
  qed
  then show "approvals_law s (snd (decideApprovalViaLink hash token d c s))" by (simp add: approvals_law_def run)
qed

datatype approval_event =
    AskOwner string authz_ctx uid uid
  | OwnerDecides string approvalDecision "string option"

fun approval_run :: "(string \<Rightarrow> string) \<Rightarrow> string \<Rightarrow> (time \<times> approval_event) list \<Rightarrow> world \<Rightarrow> world" where
  "approval_run hash base [] s = s"
| "approval_run hash base ((now, AskOwner token ctx i c) # es) s =
     approval_run hash base es (snd (requestOwnerApproval hash base token ctx i c (s\<lparr>w_now := now\<rparr>)))"
| "approval_run hash base ((now, OwnerDecides token d c) # es) s =
     approval_run hash base es (snd (decideApprovalViaLink hash token d c (s\<lparr>w_now := now\<rparr>)))"

text \<open>
  C33: a sign-off is final and evidenced: whatever is asked and decided, in any order and at any
  times, an offer has at most one open request; every decision given has its time and the
  evidence of the link party naming it; and a row that was decided or superseded never changes. Each
  request and each decision runs to its end before the next begins: the source closes the open
  request and writes the new one outside a transaction, so two requests for one offer that overlap
  could both stay open.
\<close>

theorem sign_off_is_final:
  assumes "approvals_wf s"
  shows "approvals_wf (approval_run hash base es s) \<and>
    (\<forall>a \<in> set (w_approvals s). ap_decidedAt a \<noteq> None \<longrightarrow> a \<in> set (w_approvals (approval_run hash base es s)))"
proof -
  have clock: "approvals_wf (u\<lparr>w_now := now\<rparr>) = approvals_wf u" for u now by (simp add: approvals_wf_def sign_off_logged_def)
  have "approvals_law s (approval_run hash base es s)" for s
  proof (induction es arbitrary: s)
    case Nil
    show ?case by (simp add: approval_law.refl)
  next
    case (Cons e es)
    obtain now ev where e: "e = (now, ev)" by (cases e)
    have tick: "approvals_law s (s\<lparr>w_now := now\<rparr>)" by (simp add: approvals_law_def clock)
    define u where "u = (case ev of AskOwner token ctx i c \<Rightarrow> snd (requestOwnerApproval hash base token ctx i c (s\<lparr>w_now := now\<rparr>))
      | OwnerDecides token d c \<Rightarrow> snd (decideApprovalViaLink hash token d c (s\<lparr>w_now := now\<rparr>)))"
    have "approvals_law (s\<lparr>w_now := now\<rparr>) u"
      using law_request law_decide by (cases ev) (simp_all add: u_def keeps_def)
    moreover have "approval_run hash base (e # es) s = approval_run hash base es u" by (cases ev) (simp_all add: e u_def)
    ultimately show ?case using approval_law.trans [OF tick] approval_law.trans Cons.IH by metis
  qed
  then show ?thesis using assms by (auto simp: approvals_law_def)
qed


subsection \<open>The owner can sign off\<close>

lemma refused_token:
  "validateLinkToken hash token s = Inl e \<Longrightarrow> decideApprovalViaLink hash token d c s = (Inl link_gone, s)"
  by (simp add: decideApprovalViaLink_def bindE_apply op_eval)

lemma readable_tenancy_here:
  "List.find (\<lambda>t. tn_id t = i) (w_tenancies s) = Some t \<Longrightarrow> assertReadable ctx (tenancy_target i s) s = Inr () \<Longrightarrow>
   tn_workspaceId t = cx_workspaceId ctx"
  by (simp add: assertReadable_def tenancy_target_def split: if_splits)

lemma owner_signs_off:
  assumes "requestOwnerApproval hash base token ctx o' c s = (Inr (i, url), t)"
    and "link_ids_ok s" and "approvals_wf s" and "now < w_now s + 14 * 86400000"
  shows "\<exists>u f tn a. decideApprovalViaLink hash token d n (t\<lparr>w_now := now\<rparr>) = (Inr (i, d), u) \<and>
    find_offer o' s = Some f \<and> tn \<in> set (w_tenancies s) \<and> of_tenancyId f = Some (tn_id tn) \<and>
    a \<in> set (w_approvals u) \<and> ap_id a = i \<and> ap_decision a = Some d \<and>
    ap_payloadHash a = Sha256 (offerApprovalSnapshot f (property_of (tn_propertyId tn) s)) \<and>
    decideApprovalViaLink hash token d2 n2 (u\<lparr>w_now := now2\<rparr>) = (Inl link_gone, u\<lparr>w_now := now2\<rparr>) \<and>
    (findByToken hash old s = Some l0 \<and> approval_link (cx_workspaceId ctx) o' l0 \<longrightarrow>
      decideApprovalViaLink hash old d2 n2 (t\<lparr>w_now := now2\<rparr>) = (Inl link_gone, t\<lparr>w_now := now2\<rparr>))"
proof -
  obtain f ti tn where g: "find_offer o' s = Some f" "of_workspaceId f = cx_workspaceId ctx" "of_tenancyId f = Some ti"
    "List.find (\<lambda>t. tn_id t = ti) (w_tenancies s) = Some tn" "assertReadable ctx (tenancy_target ti s) s = Inr ()"
    "i = w_next s" "\<forall>x \<in> set (w_links s). sl_tokenHash x \<noteq> hash token"
    and rows: "w_approvals t = w_approvals (closed_prior (cx_workspaceId ctx) o' s) @
       [approval_row (cx_workspaceId ctx) o' c (Sha256 (offerApprovalSnapshot f (property_of (tn_propertyId tn) s))) i (w_now s)]"
    and links: "w_links t = w_links (closed_prior (cx_workspaceId ctx) o' s) @ [(minted_link hash token ctx (approval_link_args o' c) s)\<lparr>sl_id := Suc i\<rparr>]"
    and same: "w_offers t = w_offers s" "w_tenancies t = w_tenancies s" "w_now t = w_now s" "w_next s < w_next t"
    by (rule requestOwnerApproval_ok [OF assms(1)])
  let ?ws = "cx_workspaceId ctx" and ?t = "t\<lparr>w_now := now\<rparr>"
  let ?row = "approval_row ?ws o' c (Sha256 (offerApprovalSnapshot f (property_of (tn_propertyId tn) s))) i (w_now s)"
  let ?revoke = "\<lambda>l. l\<lparr>sl_revokedAt := Some (w_now s)\<rparr>"
  let ?xs = "upd_where (approval_link ?ws o') ?revoke (w_links s)"
  define l where "l = (minted_link hash token ctx (approval_link_args o' c) s)\<lparr>sl_id := Suc i\<rparr>"
  have l: "sl_id l = Suc i" "sl_tokenHash l = hash token" "sl_revokedAt l = None" "sl_useCount l = 0" "sl_maxUses l = Some 1"
    "sl_purpose l = LP_APPROVAL" "sl_scopeId l = o'" "sl_workspaceId l = ?ws" "sl_expiresAt l = w_now s + DEFAULT_TTL_DAYS * 86400000"
    by (simp_all add: l_def minted_link_def approval_link_args_def)
  have links': "w_links ?t = ?xs @ [l]" using links by (simp add: l_def closed_prior_def)
  have ids: "\<forall>x \<in> set (w_links s). sl_id x < i" using assms(2) g(6) by (simp add: link_ids_ok_def)
  have fresh: "x \<in> set ?xs \<Longrightarrow> sl_id x \<noteq> sl_id l \<and> sl_tokenHash x \<noteq> hash token" for x
    using ids g(7) l(1) by (fastforce simp: set_upd_where)
  have time: "w_now ?t < sl_expiresAt l" using assms(4) by (simp add: l(9) DEFAULT_TTL_DAYS_def)
  note opens = fresh_link_opens [where t = ?t and xs = ?xs and l = l and hash = hash and token = token and m = 1,
      OF links' fresh l(2-5) _ time, simplified]
  let ?u = "consumed_links (sl_id l) ?t"
  have used: "consumeLinkUse (sl_id l) ?t = (Inr True, ?t\<lparr>w_links := ?xs @ [l\<lparr>sl_useCount := 1\<rparr>]\<rparr>)" using opens(2) by simp
  then have count: "count_where (consumable (sl_id l) (w_now ?t)) (w_links ?t) = 1"
    and spent: "w_links ?u = ?xs @ [l\<lparr>sl_useCount := 1\<rparr>]"
    using consumeLinkUse_consumed [of "sl_id l" ?t] by (auto dest: arg_cong [where f = w_links])
  have offer: "find_offer (sl_scopeId l) ?t = Some f" "of_id f = o'"
    using g(1) by (auto simp: find_offer_def same l(7) dest: find_Some_in)
  have here: "tn_workspaceId tn = ?ws" by (rule readable_tenancy_here [OF g(4,5)])
  have unit: "decided_property l f ?u = (Inr (Some (tn_propertyId tn)), ?u)"
    using g(3,4) here by (simp add: decided_property_def bindE_apply op_eval consumed_links_keeps same l(8))
  have "filter (open_pending ?ws o') (upd_where (open_pending ?ws o') (\<lambda>a. a\<lparr>ap_decidedAt := Some (w_now s)\<rparr>) (w_approvals s)) = []"
    by (auto simp: filter_empty_conv set_upd_where) (simp add: open_pending_def)
  then have pend: "pending_approval (sl_workspaceId l) (of_id f) ?t = Some ?row"
    by (simp add: pending_approval_def rows closed_prior_def l(8) offer(2) pick_max_def open_pending_def approval_row_def)
  have dist: "distinct (map ap_id (w_approvals ?t))"
    using assms(3) g(6) by (auto simp: rows closed_prior_def approvals_wf_def map_upd_where approval_row_def)
  obtain u where u: "decideApprovalViaLink hash token d n ?t = (Inr (ap_id ?row, d), u)"
    "w_approvals u = upd_where (\<lambda>x. ap_id x = ap_id ?row) (decided d (w_now ?t)) (w_approvals ?t)" "w_links u = w_links ?u"
    by (rule decideApprovalViaLink_eval [OF opens(1) l(6) count offer(1) _ unit pend dist]) (simp_all add: g(2) l(8))
  have row: "ap_id ?row = i" by (simp add: approval_row_def)
  have "decided d now ?row \<in> set (w_approvals u)" by (simp add: u(2) row rows)
  moreover have "ap_id (decided d now ?row) = i" "ap_decision (decided d now ?row) = Some d"
    "ap_payloadHash (decided d now ?row) = Sha256 (offerApprovalSnapshot f (property_of (tn_propertyId tn) s))"
    by (simp_all add: decided_def approval_row_def)
  moreover have "findByToken hash token (u\<lparr>w_now := now2\<rparr>) = Some (l\<lparr>sl_useCount := 1\<rparr>)"
    unfolding findByToken_def using fresh l(2) by (simp add: u(3) spent) (intro find_append_new; simp)
  then have "\<exists>e. validateLinkToken hash token (u\<lparr>w_now := now2\<rparr>) = Inl e"
    by (simp add: validateLinkToken_def l(3,5))
  then have "decideApprovalViaLink hash token d2 n2 (u\<lparr>w_now := now2\<rparr>) = (Inl link_gone, u\<lparr>w_now := now2\<rparr>)"
    using refused_token by blast
  moreover have "decideApprovalViaLink hash old d2 n2 (t\<lparr>w_now := now2\<rparr>) = (Inl link_gone, t\<lparr>w_now := now2\<rparr>)"
    if "findByToken hash old s = Some l0" "approval_link ?ws o' l0"
  proof (rule refused_token)
    have "findByToken hash old (t\<lparr>w_now := now2\<rparr>) = Some (?revoke l0)"
      using that links' by (simp add: findByToken_def find_append find_upd_where_same)
    then show "validateLinkToken hash old (t\<lparr>w_now := now2\<rparr>) = Inl revoked" by (simp add: validateLinkToken_def)
  qed
  moreover have "tn \<in> set (w_tenancies s)" "tn_id tn = ti" using find_Some_in [OF g(4)] by auto
  ultimately show ?thesis using u(1) row g(1,3) by (intro exI [of _ u] exI [of _ f] exI [of _ tn] exI [of _ "decided d now ?row"]) simp
qed

text \<open>
  C34: the owner who is asked can answer, once and on exactly what was asked: the link of a request
  decides it at any time before the link expires, with the digest of the terms as they were when
  it was asked; afterwards that link is spent, and every earlier link for the same offer is
  refused from the moment of the request.
\<close>

theorem owner_can_sign_off:
  assumes "requestOwnerApproval hash base token ctx o' c s = (Inr (i, url), t)"
    and "link_ids_ok s" and "approvals_wf s" and "now < w_now s + 14 * 86400000"
  shows "\<exists>u f tn a. decideApprovalViaLink hash token d n (t\<lparr>w_now := now\<rparr>) = (Inr (i, d), u) \<and>
    find_offer o' s = Some f \<and> tn \<in> set (w_tenancies s) \<and> of_tenancyId f = Some (tn_id tn) \<and>
    a \<in> set (w_approvals u) \<and> ap_id a = i \<and> ap_decision a = Some d \<and>
    ap_payloadHash a = Sha256 (offerApprovalSnapshot f (property_of (tn_propertyId tn) s)) \<and>
    decideApprovalViaLink hash token d2 n2 (u\<lparr>w_now := now2\<rparr>) = (Inl link_gone, u\<lparr>w_now := now2\<rparr>) \<and>
    (findByToken hash old s = Some l0 \<and> approval_link (cx_workspaceId ctx) o' l0 \<longrightarrow>
      decideApprovalViaLink hash old d2 n2 (t\<lparr>w_now := now2\<rparr>) = (Inl link_gone, t\<lparr>w_now := now2\<rparr>))"
  using assms by (rule owner_signs_off)

text \<open>A request on the sample offer, answered in time.\<close>

definition approval_world :: world where
  "approval_world = sample_world\<lparr>w_offers := [sample_offer], w_contacts := [\<lparr> ct_id = 31, ct_workspaceId = 5, ct_kind = CK_OWNER,
     ct_name = ''O'', ct_phone = None, ct_email = None, ct_company = None, ct_emiratesId = None, ct_nationality = None,
     ct_licenseNo = None, ct_licensingAuthority = None, ct_notes = None, ct_verifiedAt = None, ct_verifiedById = None,
     ct_archivedAt = None \<rparr>], w_links := [], w_approvals := [], w_evidence := []\<rparr>"

lemma sample_request:
  "fst (requestOwnerApproval id [] token (sample_ctx MANAGER) 91 31 (approval_world\<lparr>w_now := n\<rparr>)) =
     Inr (w_next approval_world, ''/link/'' @ token)"
proof -
  let ?s = "approval_world\<lparr>w_now := n\<rparr>"
  have verb: "audit_verb_ok ''approval.request''" "audit_verb_ok ''securelink.create''" by (simp_all add: audit_verb_ok_def verb_char_def)
  have rows: "find_offer 91 ?s = Some sample_offer" "w_contacts ?s = [\<lparr> ct_id = 31, ct_workspaceId = 5, ct_kind = CK_OWNER,
     ct_name = ''O'', ct_phone = None, ct_email = None, ct_company = None, ct_emiratesId = None, ct_nationality = None,
     ct_licenseNo = None, ct_licensingAuthority = None, ct_notes = None, ct_verifiedAt = None, ct_verifiedById = None,
     ct_archivedAt = None \<rparr>]" "w_links ?s = []" "w_tenancies ?s = [sample_tenancy]"
    by (simp_all add: find_offer_def approval_world_def sample_offer_def) (simp add: sample_world_def)
  have offer: "of_id sample_offer = 91" "of_workspaceId sample_offer = 5" "of_tenancyId sample_offer = Some 51" "of_status sample_offer = O_SENT"
    by (simp_all add: sample_offer_def)
  have get: "getTenancy (sample_ctx MANAGER) 51 ?s = (Inr sample_tenancy, ?s)"
  proof -
    have "tn_id sample_tenancy = 51" "tn_workspaceId sample_tenancy = 5" by (simp_all add: sample_tenancy_def)
    then show ?thesis by (subst getTenancy_ok) (simp add: manager_can manager_reads tenancy_target_def rows)
  qed
  have nextId: "w_next ?s = w_next approval_world" by simp
  define s where "s = ?s"
  show ?thesis
    unfolding nextId [symmetric] s_def [symmetric]
    by (simp add: requestOwnerApproval_def record_request_def bindE_apply op_eval requireCap_def assertE_eval manager_can manager_ctx
        rows [folded s_def] offer get [folded s_def]
        assertSameWorkspace_def SIGNABLE_def close_prior_eq closed_prior_def createSecureLink_def approval_link_args_def audit_by_def auditOf_def
        verb recordAudit_def recordEvidence_def evidence_by_def evidenceOf_def actor_of_def newId_def getNow_eval)
qed

lemma approval_world_ok:
  "approvals_wf (approval_world\<lparr>w_now := n\<rparr>)" "link_ids_ok (approval_world\<lparr>w_now := n\<rparr>)" "w_now approval_world = 0"
  by (simp_all add: approvals_wf_def approval_world_def link_ids_ok_def sample_world_def sample_users_def empty_world_def)

text \<open>
  The owner is asked and approves; then the owner is asked again and turns the offer down. The
  first answer stands as it was given.
\<close>

theorem sign_off_is_final_witness:
  "\<exists>a u. u = approval_run id [] [(1, AskOwner ''tok'' (sample_ctx MANAGER) 91 31), (2, OwnerDecides ''tok'' AD_APPROVED None)] approval_world \<and>
     a \<in> set (w_approvals u) \<and> ap_decision a = Some AD_APPROVED \<and> ap_decidedAt a \<noteq> None \<and>
     a \<in> set (w_approvals (approval_run id [] [(3, AskOwner ''new'' (sample_ctx MANAGER) 91 31), (4, OwnerDecides ''new'' AD_REJECTED None)] u))"
proof -
  let ?s = "approval_world\<lparr>w_now := 1\<rparr>"
  let ?run = "requestOwnerApproval id [] ''tok'' (sample_ctx MANAGER) 91 31 ?s"
  define t where "t = snd ?run"
  have run: "?run = (Inr (w_next approval_world, ''/link/'' @ ''tok''), t)"
    unfolding t_def by (rule prod_eqI) (simp_all only: sample_request fst_conv snd_conv)
  have soon: "(2 :: int) < w_now ?s + 14 * 86400000" by simp
  obtain u a where u: "decideApprovalViaLink id ''tok'' AD_APPROVED None (t\<lparr>w_now := 2\<rparr>) = (Inr (w_next approval_world, AD_APPROVED), u)"
    and a: "a \<in> set (w_approvals u)" "ap_decision a = Some AD_APPROVED"
    using owner_signs_off [OF run approval_world_ok(2,1) soon, of AD_APPROVED None] by blast
  have here: "u = approval_run id [] [(1, AskOwner ''tok'' (sample_ctx MANAGER) 91 31), (2, OwnerDecides ''tok'' AD_APPROVED None)] approval_world"
    using run u by simp
  have "approvals_wf approval_world" using approval_world_ok(1) [of "w_now approval_world"] by simp
  then have wf: "approvals_wf u" unfolding here by (rule conjunct1 [OF sign_off_is_final])
  then have d: "ap_decidedAt a \<noteq> None" using a by (auto simp: approvals_wf_def)
  have "a \<in> set (w_approvals (approval_run id [] es u))" for es
    using conjunct2 [OF sign_off_is_final [OF wf]] a(1) d by blast
  then show ?thesis using here a d by blast
qed

theorem owner_can_sign_off_witness:
  "\<exists>t u. fst (requestOwnerApproval id [] ''tok'' (sample_ctx MANAGER) 91 31 approval_world) = Inr (w_next approval_world, ''/link/tok'') \<and>
     decideApprovalViaLink id ''tok'' AD_REJECTED None (t\<lparr>w_now := 5\<rparr>) = (Inr (w_next approval_world, AD_REJECTED), u)"
proof -
  let ?run = "requestOwnerApproval id [] ''tok'' (sample_ctx MANAGER) 91 31 approval_world"
  have here: "approval_world\<lparr>w_now := w_now approval_world\<rparr> = approval_world" by simp
  have ran: "fst ?run = Inr (w_next approval_world, ''/link/tok'')"
    using sample_request [of "''tok''" "w_now approval_world"] unfolding here by simp
  then have run: "?run = (Inr (w_next approval_world, ''/link/tok''), snd ?run)" by (simp add: prod_eq_iff)
  have wf: "link_ids_ok approval_world" "approvals_wf approval_world"
    using approval_world_ok(1,2) [of "w_now approval_world"] unfolding here by simp_all
  have now: "(5 :: int) < w_now approval_world + 14 * 86400000" by (simp add: approval_world_ok)
  from owner_can_sign_off [OF run wf now, of AD_REJECTED None] ran show ?thesis by blast
qed

end
