(* ===== verification/Move_In.thy ===== *)
theory Move_In
  imports Frames
begin

text \<open>
  \<open>services/moveIn.ts\<close>: the condition record of a handover, its photo vault and its double
  acknowledgement. Access is the access to the tenancy. \<open>hash\<close> is the hash of a file's bytes.
\<close>

datatype ack_party = ACK_LANDLORD | ACK_TENANT

fun ack_party_name :: "ack_party \<Rightarrow> string" where
  "ack_party_name ACK_LANDLORD = ''LANDLORD''"
| "ack_party_name ACK_TENANT = ''TENANT''"

definition find_movein :: "uid \<Rightarrow> world \<Rightarrow> move_in option" where
  "find_movein i s = List.find (\<lambda>m. mi_id m = i) (w_moveins s)"

definition movein_row :: "authz_ctx \<Rightarrow> uid \<Rightarrow> time \<Rightarrow> tenancy \<Rightarrow> string option \<Rightarrow> move_in" where
  "movein_row ctx i now t notes =
     \<lparr> mi_id = i, mi_workspaceId = cx_workspaceId ctx, mi_tenancyId = tn_id t, mi_propertyId = tn_propertyId t,
       mi_status = MI_PENDING, mi_landlordAckAt = None, mi_tenantAckAt = None, mi_notes = trimmed notes,
       mi_createdById = Some (cx_userId ctx), mi_createdAt = now \<rparr>"

definition createMoveIn :: "authz_ctx \<Rightarrow> uid \<Rightarrow> string option \<Rightarrow> move_in svc" where
  "createMoveIn ctx tenancyId notes =
     thenE (requireCap ctx ''movein.write'')
     (bindE (getTenancy ctx tenancyId) (\<lambda>t.
      bindE getNow (\<lambda>now. bindE newId (\<lambda>i.
      thenE (writeE (\<lambda>s. s\<lparr>w_moveins := w_moveins s @ [movein_row ctx i now t notes]\<rparr>))
        (ret (movein_row ctx i now t notes))))))"

definition loadMoveIn :: "authz_ctx \<Rightarrow> uid \<Rightarrow> move_in svc" where
  "loadMoveIn ctx i =
     bindE (readE (find_movein i)) (\<lambda>found.
     bindE (someE notFound (case found of None \<Rightarrow> None | Some m \<Rightarrow>
       if mi_workspaceId m = cx_workspaceId ctx then Some m else None)) (\<lambda>m.
     thenE (getTenancy ctx (mi_tenancyId m)) (ret m)))"

definition getMoveIn :: "authz_ctx \<Rightarrow> uid \<Rightarrow> move_in svc" where
  "getMoveIn ctx i = thenE (requireCap ctx ''movein.read'') (loadMoveIn ctx i)"

definition movein_where :: "authz_ctx \<Rightarrow> world \<Rightarrow> error + (move_in \<Rightarrow> bool)" where
  "movein_where ctx s =
     (case cx_subjectContactId ctx of
        Some k \<Rightarrow>
          if cx_role ctx \<in> {TENANT, LANDLORD} then
            Inr (\<lambda>m. mi_workspaceId m = cx_workspaceId ctx \<and>
              mi_tenancyId m \<in> set (ks_tenancyIds (resolveContactScopeIds (cx_workspaceId ctx) k (cx_role ctx) s)))
          else map_sum id (\<lambda>ws m. mi_workspaceId m = ws) (scope ctx)
      | None \<Rightarrow> map_sum id (\<lambda>ws m. mi_workspaceId m = ws) (scope ctx))"

definition listMyMoveIns :: "authz_ctx \<Rightarrow> (move_in \<times> property option) list svc" where
  "listMyMoveIns ctx =
     thenE (requireCap ctx ''movein.read'')
     (bindE (readE (movein_where ctx)) (\<lambda>r.
      bindE (liftE r) (\<lambda>w.
      readE (\<lambda>s. map (\<lambda>m. (m, List.find (\<lambda>p. pr_id p = mi_propertyId m) (w_properties s)))
        (sort_key (\<lambda>m. - mi_createdAt m) (filter w (w_moveins s)))))))"

definition movein_evidence :: "authz_ctx \<Rightarrow> move_in \<Rightarrow> evidenceType \<Rightarrow> json \<Rightarrow> evidence_input" where
  "movein_evidence ctx m ty payload =
     (evidence_by ctx ty S_TENANCY (Some (mi_tenancyId m)) payload)
       \<lparr>ei_tenancyId := Some (mi_tenancyId m), ei_propertyId := Some (mi_propertyId m)\<rparr>"

definition addMoveInPhoto :: "(string \<Rightarrow> string) \<Rightarrow> authz_ctx \<Rightarrow> uid \<Rightarrow> tenancy_file \<Rightarrow> document svc" where
  "addMoveInPhoto hash ctx i file =
     thenE (requireCap ctx ''movein.write'')
     (bindE (loadMoveIn ctx i) (\<lambda>m.
      bindE (ingestDocument hash
        \<lparr> ig_workspaceId = cx_workspaceId ctx, ig_scopeType = S_TENANCY, ig_scopeId = Some (mi_tenancyId m),
          ig_kind = (case tf_kind file of None \<Rightarrow> DOC_MAINTENANCE_PHOTO | Some k \<Rightarrow> k), ig_fileName = tf_fileName file,
          ig_mime = tf_mime file, ig_data = tf_data file, ig_uploadedById = Some (cx_userId ctx),
          ig_secureLinkId = None \<rparr>) (\<lambda>doc.
      thenE (logDocumentAccess (cx_workspaceId ctx) (dc_id doc) DA_UPLOADED (Some (cx_userId ctx)) None None None)
      (thenE (recordEvidence (movein_evidence ctx m EV_DOCUMENT_UPLOADED
          (JObj [(''documentId'', JId (dc_id doc)), (''moveInId'', JId i), (''fileName'', JStr (tf_fileName file))])))
        (ret doc)))))"

definition listMoveInPhotos :: "authz_ctx \<Rightarrow> uid \<Rightarrow> document list svc" where
  "listMoveInPhotos ctx i =
     thenE (requireCap ctx ''movein.read'')
     (bindE (loadMoveIn ctx i) (\<lambda>m.
      readE (\<lambda>s. sort_key (\<lambda>d. - dc_createdAt d) (filter (\<lambda>d. dc_workspaceId d = cx_workspaceId ctx \<and> dc_scopeType d = S_TENANCY \<and>
        dc_scopeId d = Some (mi_tenancyId m) \<and> dc_kind d = DOC_MAINTENANCE_PHOTO \<and> dc_archivedAt d = None) (w_documents s)))))"

subsection \<open>Acknowledging\<close>

text \<open>The side a context acknowledges: a persona's own, an operator's the one it names.\<close>

definition own_party :: "authz_ctx \<Rightarrow> ack_party option \<Rightarrow> ack_party option" where
  "own_party ctx party = (if cx_role ctx = TENANT then Some ACK_TENANT
     else if cx_role ctx = LANDLORD then Some ACK_LANDLORD else party)"

text \<open>The columns the update writes: all three, computed from the row as it was loaded.\<close>

definition ack_columns :: "ack_party \<Rightarrow> time \<Rightarrow> move_in \<Rightarrow> time option \<times> time option \<times> moveInStatus" where
  "ack_columns p now m =
     (let landlordAckAt = (if p = ACK_LANDLORD then Some now else mi_landlordAckAt m);
          tenantAckAt = (if p = ACK_TENANT then Some now else mi_tenantAckAt m)
      in (landlordAckAt, tenantAckAt,
          if landlordAckAt \<noteq> None \<and> tenantAckAt \<noteq> None then MI_COMPLETED else MI_PARTIALLY_ACKNOWLEDGED))"

definition put_ack :: "time option \<times> time option \<times> moveInStatus \<Rightarrow> move_in \<Rightarrow> move_in" where
  "put_ack c x = x\<lparr>mi_landlordAckAt := fst c, mi_tenantAckAt := fst (snd c), mi_status := snd (snd c)\<rparr>"

definition write_ack :: "uid \<Rightarrow> time option \<times> time option \<times> moveInStatus \<Rightarrow> unit svc" where
  "write_ack i c = writeE (\<lambda>s. s\<lparr>w_moveins := upd_where (\<lambda>m. mi_id m = i) (put_ack c) (w_moveins s)\<rparr>)"

definition ack_payload :: "authz_ctx \<Rightarrow> uid \<Rightarrow> ack_party \<Rightarrow> json" where
  "ack_payload ctx i p = JObj [(''moveInId'', JId i), (''party'', JStr (ack_party_name p)), (''byRole'', JStr (role_name (cx_role ctx)))]"

definition acknowledgeMoveIn :: "authz_ctx \<Rightarrow> uid \<Rightarrow> ack_party option \<Rightarrow> move_in svc" where
  "acknowledgeMoveIn ctx i party =
     thenE (requireCap ctx ''movein.acknowledge'')
     (bindE (loadMoveIn ctx i) (\<lambda>m.
      bindE (someE (AuthzError ''Specify the acknowledging party'' 422) (own_party ctx party)) (\<lambda>p.
      thenE (assertE (\<not> (p = ACK_LANDLORD \<and> mi_landlordAckAt m \<noteq> None)) (AuthzError ''Landlord has already acknowledged'' 422))
      (thenE (assertE (\<not> (p = ACK_TENANT \<and> mi_tenantAckAt m \<noteq> None)) (AuthzError ''Tenant has already acknowledged'' 422))
      (bindE getNow (\<lambda>now.
       thenE (write_ack i (ack_columns p now m))
       (thenE (recordEvidence (movein_evidence ctx m EV_MOVEIN_ACKNOWLEDGED (ack_payload ctx i p)))
       (thenE (if snd (snd (ack_columns p now m)) = MI_COMPLETED
               then thenE (recordEvidence (movein_evidence ctx m EV_MOVEIN_COMPLETED (JObj [(''moveInId'', JId i)]))) (ret ())
               else ret ())
         (ret (put_ack (ack_columns p now m) m))))))))))"

subsection \<open>Both sides\<close>

definition ack_logged :: "world \<Rightarrow> uid \<Rightarrow> ack_party \<Rightarrow> bool" where
  "ack_logged s i p \<longleftrightarrow> (\<exists>e \<in> set (w_evidence s). \<exists>ctx. ev_type e = EV_MOVEIN_ACKNOWLEDGED \<and> ev_actorId e = Some (cx_userId ctx) \<and>
     ev_payload e = Some (ack_payload ctx i p) \<and>
     cx_role ctx \<noteq> (case p of ACK_LANDLORD \<Rightarrow> TENANT | ACK_TENANT \<Rightarrow> LANDLORD))"

definition completion_logged :: "world \<Rightarrow> uid \<Rightarrow> bool" where
  "completion_logged s i \<longleftrightarrow> (\<exists>e \<in> set (w_evidence s). ev_type e = EV_MOVEIN_COMPLETED \<and> ev_payload e = Some (JObj [(''moveInId'', JId i)]))"

definition handover_ok :: "world \<Rightarrow> move_in \<Rightarrow> bool" where
  "handover_ok s m \<longleftrightarrow>
     (mi_status m = MI_COMPLETED \<longleftrightarrow> mi_landlordAckAt m \<noteq> None \<and> mi_tenantAckAt m \<noteq> None) \<and>
     (mi_status m = MI_PENDING \<longleftrightarrow> mi_landlordAckAt m = None \<and> mi_tenantAckAt m = None) \<and>
     (mi_landlordAckAt m \<noteq> None \<longrightarrow> ack_logged s (mi_id m) ACK_LANDLORD) \<and>
     (mi_tenantAckAt m \<noteq> None \<longrightarrow> ack_logged s (mi_id m) ACK_TENANT) \<and>
     (mi_status m = MI_COMPLETED \<longrightarrow> completion_logged s (mi_id m))"

definition handovers_wf :: "world \<Rightarrow> bool" where
  "handovers_wf s \<longleftrightarrow> distinct (map mi_id (w_moveins s)) \<and> (\<forall>m \<in> set (w_moveins s). mi_id m < w_next s \<and> handover_ok s m)"

text \<open>An acknowledgement once given stays as it was given.\<close>

definition acks_kept :: "world \<Rightarrow> world \<Rightarrow> bool" where
  "acks_kept s t \<longleftrightarrow> (\<forall>m \<in> set (w_moveins s). \<exists>n \<in> set (w_moveins t). mi_id n = mi_id m \<and>
     (mi_landlordAckAt m \<noteq> None \<longrightarrow> mi_landlordAckAt n = mi_landlordAckAt m) \<and>
     (mi_tenantAckAt m \<noteq> None \<longrightarrow> mi_tenantAckAt n = mi_tenantAckAt m))"

definition handover_law :: "world \<Rightarrow> world \<Rightarrow> bool" where
  "handover_law s t \<longleftrightarrow> (handovers_wf s \<longrightarrow> handovers_wf t \<and> acks_kept s t)"

interpretation handover: step_law handover_law
proof
  show "handover_law s s" for s by (auto simp: handover_law_def acks_kept_def)
  show "handover_law s u" if "handover_law s t" "handover_law t u" for s t u
    using that unfolding handover_law_def acks_kept_def by metis
qed

lemma handover_ok_mono: "prefix (w_evidence s) (w_evidence t) \<Longrightarrow> handover_ok s m \<Longrightarrow> handover_ok t m"
proof -
  assume "prefix (w_evidence s) (w_evidence t)"
  then have "set (w_evidence s) \<subseteq> set (w_evidence t)" by (rule set_mono_prefix)
  then have "ack_logged s i p \<Longrightarrow> ack_logged t i p" "completion_logged s i \<Longrightarrow> completion_logged t i" for i p
    unfolding ack_logged_def completion_logged_def by blast+
  then show "handover_ok s m \<Longrightarrow> handover_ok t m" by (auto simp: handover_ok_def)
qed

lemma handover_idle:
  assumes "keeps (same w_moveins) m" "keeps extends m" shows "keeps handover_law m"
proof (rule keepsI)
  fix s
  have "w_moveins (snd (m s)) = w_moveins s" "prefix (w_evidence s) (w_evidence (snd (m s)))" "w_next s \<le> w_next (snd (m s))"
    using assms by (auto simp: keeps_def same_def extends_def)
  then show "handover_law s (snd (m s))"
    by (auto simp: handover_law_def handovers_wf_def acks_kept_def intro: handover_ok_mono less_le_trans)
qed

lemma loadMoveIn_reads: "reads_only (loadMoveIn ctx i)"
  unfolding loadMoveIn_def getTenancy_def requireCap_def by (intro outcome)

lemma loadMoveIn_ok:
  "loadMoveIn ctx i s = (Inr m, t) \<Longrightarrow> t = s \<and> find_movein i s = Some m \<and> mi_workspaceId m = cx_workspaceId ctx"
  unfolding loadMoveIn_def by (auto simp: bindE_ok op_ok getTenancy_ok split: option.splits if_splits)

lemma movein_evidence_ok [simp]:
  "\<not> (ei_actorType (movein_evidence ctx m ty p) \<in> {A_USER, A_STAFF} \<and> ei_actorId (movein_evidence ctx m ty p) = None)"
  by (simp add: movein_evidence_def evidence_by_def evidenceOf_def)

text \<open>
  an acknowledgement is all or nothing: it is refused and nothing changes, or it stamps exactly one
  side of exactly this record, the persona's own side, which was not stamped before, and writes
  its evidence, and that of the completion when it is the second.
\<close>

lemma acknowledgeMoveIn_cases:
  assumes "acknowledgeMoveIn ctx i party s = (r, t)"
  obtains (refused) e where "r = Inl e" "t = s"
  | (stamped) m p es where "find_movein i s = Some m" "own_party ctx party = Some p" "hasCapability ctx ''movein.acknowledge''"
      "p = ACK_LANDLORD \<longrightarrow> mi_landlordAckAt m = None" "p = ACK_TENANT \<longrightarrow> mi_tenantAckAt m = None"
      "r = Inr (put_ack (ack_columns p (w_now s) m) m)"
      "w_moveins t = upd_where (\<lambda>x. mi_id x = i) (put_ack (ack_columns p (w_now s) m)) (w_moveins s)"
      "w_evidence t = w_evidence s @ evidence_row (w_next s) (w_now s) (movein_evidence ctx m EV_MOVEIN_ACKNOWLEDGED (ack_payload ctx i p)) # es"
      "if snd (snd (ack_columns p (w_now s) m)) = MI_COMPLETED
       then es = [evidence_row (Suc (w_next s)) (w_now s) (movein_evidence ctx m EV_MOVEIN_COMPLETED (JObj [(''moveInId'', JId i)]))]
       else es = []"
      "w_next s < w_next t"
proof -
  obtain g where g: "loadMoveIn ctx i s = (g, s)"
    using reads_onlyD [OF loadMoveIn_reads] by (metis prod.collapse)
  note run = assms [unfolded acknowledgeMoveIn_def]
  show thesis
  proof (cases "hasCapability ctx ''movein.acknowledge'' \<and> (\<exists>m p. g = Inr m \<and> own_party ctx party = Some p \<and>
      \<not> (p = ACK_LANDLORD \<and> mi_landlordAckAt m \<noteq> None) \<and> \<not> (p = ACK_TENANT \<and> mi_tenantAckAt m \<noteq> None))")
    case False
    have "\<exists>e. r = Inl e \<and> t = s"
    proof (cases g)
      case (Inl e)
      then show ?thesis using run g by (auto simp: bindE_apply requireCap_def assertE_eval split: if_splits)
    next
      case (Inr m)
      then show ?thesis
        using run g False by (cases "own_party ctx party") (auto simp: bindE_apply requireCap_def assertE_eval op_eval split: if_splits)
    qed
    then show thesis using refused by blast
  next
    case True
    then obtain m p where mp: "g = Inr m" "own_party ctx party = Some p" and free: "\<not> (p = ACK_LANDLORD \<and> mi_landlordAckAt m \<noteq> None)"
      "\<not> (p = ACK_TENANT \<and> mi_tenantAckAt m \<noteq> None)" and cap: "hasCapability ctx ''movein.acknowledge''"
      by (elim conjE exE) (rule that; assumption)
    have nones: "p = ACK_LANDLORD \<longrightarrow> mi_landlordAckAt m = None" "p = ACK_TENANT \<longrightarrow> mi_tenantAckAt m = None"
      using free by simp_all
    have m: "find_movein i s = Some m" using loadMoveIn_ok g mp(1) by blast
    let ?c = "ack_columns p (w_now s) m"
    let ?a = "movein_evidence ctx m EV_MOVEIN_ACKNOWLEDGED (ack_payload ctx i p)"
    let ?d = "movein_evidence ctx m EV_MOVEIN_COMPLETED (JObj [(''moveInId'', JId i)])"
    define S where "S = s\<lparr>w_moveins := upd_where (\<lambda>x. mi_id x = i) (put_ack ?c) (w_moveins s)\<rparr>"
    have S: "w_now S = w_now s" "w_next S = w_next s" "w_evidence S = w_evidence s"
      "w_moveins S = upd_where (\<lambda>x. mi_id x = i) (put_ack ?c) (w_moveins s)"
      by (simp_all add: S_def)
    have wr: "write_ack i ?c s = (Inr (), S)" by (simp add: write_ack_def writeE_def S_def)
    have head: "acknowledgeMoveIn ctx i party s =
       thenE (recordEvidence ?a) (thenE (if snd (snd ?c) = MI_COMPLETED then thenE (recordEvidence ?d) (ret ()) else ret ())
         (ret (put_ack ?c m))) S"
      unfolding acknowledgeMoveIn_def
      by (simp only: bindE_apply requireCap_def assertE_eval g mp cap free op_eval wr if_True sum.case prod.case not_False_eq_True)
    show thesis
    proof (cases "snd (snd ?c) = MI_COMPLETED")
      case True
      show thesis
        by (rule stamped [OF m mp(2) cap nones])
          (use assms head True S in \<open>auto simp: bindE_apply op_eval recordEvidence_eval [OF movein_evidence_ok]\<close>)
    next
      case False
      show thesis
        by (rule stamped [OF m mp(2) cap nones])
          (use assms head False S in \<open>auto simp: bindE_apply op_eval recordEvidence_eval [OF movein_evidence_ok]\<close>)
    qed
  qed
qed

lemma find_movein_in: "find_movein i s = Some m \<Longrightarrow> m \<in> set (w_moveins s) \<and> mi_id m = i"
  by (auto simp: find_movein_def dest: find_Some_in)

lemma ack_stamps_own_side:
  assumes "own_party ctx party = Some p" "e = evidence_row j now (movein_evidence ctx m EV_MOVEIN_ACKNOWLEDGED (ack_payload ctx i p))"
    "e \<in> set (w_evidence t)"
  shows "ack_logged t i p"
  unfolding ack_logged_def
  by (intro bexI [OF _ assms(3)] exI [of _ ctx])
    (use assms(1) in \<open>auto simp: assms(2) evidence_row_def movein_evidence_def evidence_by_def evidenceOf_def own_party_def
      split: ack_party.splits if_splits\<close>)

lemma put_ack_ok:
  assumes "handover_ok s m" "prefix (w_evidence s) (w_evidence t)" "ack_logged t (mi_id m) p"
    and "snd (snd (ack_columns p now m)) = MI_COMPLETED \<Longrightarrow> completion_logged t (mi_id m)"
  shows "handover_ok t (put_ack (ack_columns p now m) m)"
  using handover_ok_mono [OF assms(2,1)] assms(3,4)
  by (cases p) (auto simp: handover_ok_def put_ack_def ack_columns_def Let_def split: if_splits)

lemma acks_of_put:
  assumes "p = ACK_LANDLORD \<longrightarrow> mi_landlordAckAt m = None" "p = ACK_TENANT \<longrightarrow> mi_tenantAckAt m = None"
  shows "mi_landlordAckAt m \<noteq> None \<Longrightarrow> mi_landlordAckAt (put_ack (ack_columns p now m) m) = mi_landlordAckAt m"
    and "mi_tenantAckAt m \<noteq> None \<Longrightarrow> mi_tenantAckAt (put_ack (ack_columns p now m) m) = mi_tenantAckAt m"
  using assms by (auto simp: put_ack_def ack_columns_def Let_def)

lemma law_acknowledge: "keeps handover_law (acknowledgeMoveIn ctx i party)"
proof (rule keepsI)
  fix s
  obtain r t where run: "acknowledgeMoveIn ctx i party s = (r, t)" by fastforce
  from run have "handover_law s t"
  proof (cases rule: acknowledgeMoveIn_cases)
    case refused
    then show ?thesis by (simp add: handover.refl)
  next
    case (stamped m p es)
    let ?c = "ack_columns p (w_now s) m" and ?new = "put_ack (ack_columns p (w_now s) m) m"
    have m: "m \<in> set (w_moveins s)" "mi_id m = i" using find_movein_in [OF stamped(1)] by blast+
    have ev: "prefix (w_evidence s) (w_evidence t)" using stamped(8) by simp
    have ack: "ack_logged t i p" by (rule ack_stamps_own_side [OF stamped(2) refl, of "w_next s" "w_now s" m]) (simp add: stamped(8))
    have fin: "completion_logged t i" if "snd (snd ?c) = MI_COMPLETED"
      using that stamped(8,9)
      by (auto simp: completion_logged_def movein_evidence_def evidence_by_def evidenceOf_def evidence_row_def)
    show ?thesis unfolding handover_law_def
    proof
      assume wf: "handovers_wf s"
      then have "inj_on mi_id (set (w_moveins s))" by (simp add: handovers_wf_def distinct_map)
      then have uniq: "x \<in> set (w_moveins s) \<Longrightarrow> mi_id x = i \<longleftrightarrow> x = m" for x
        using m by (auto simp: inj_on_def)
      have rows: "w_moveins t = map (\<lambda>x. if x = m then ?new else x) (w_moveins s)"
        unfolding stamped(7) upd_where_def by (intro map_cong) (auto simp: uniq)
      have id: "mi_id (put_ack c x) = mi_id x" for c x by (simp add: put_ack_def)
      have ids: "map mi_id (w_moveins t) = map mi_id (w_moveins s)" unfolding stamped(7) by (rule map_upd_where) (rule id)
      have "handover_ok t ?new"
        by (rule put_ack_ok [OF _ ev]) (use wf m ack fin in \<open>auto simp: handovers_wf_def\<close>)
      moreover have "x \<in> set (w_moveins s) \<Longrightarrow> handover_ok t x \<and> mi_id x < w_next t" for x
        using wf handover_ok_mono [OF ev] stamped(10) by (fastforce simp: handovers_wf_def)
      ultimately have "handovers_wf t"
        using wf m(1) unfolding handovers_wf_def ids by (auto simp: rows id)
      moreover have "acks_kept s t"
        unfolding acks_kept_def
      proof
        fix x assume x: "x \<in> set (w_moveins s)"
        show "\<exists>n \<in> set (w_moveins t). mi_id n = mi_id x \<and>
           (mi_landlordAckAt x \<noteq> None \<longrightarrow> mi_landlordAckAt n = mi_landlordAckAt x) \<and>
           (mi_tenantAckAt x \<noteq> None \<longrightarrow> mi_tenantAckAt n = mi_tenantAckAt x)"
          by (rule bexI [of _ "if x = m then ?new else x"])
            (use x acks_of_put [OF stamped(4,5)] in \<open>auto simp: rows id\<close>)
      qed
      ultimately show "handovers_wf t \<and> acks_kept s t" ..
    qed
  qed
  then show "handover_law s (snd (acknowledgeMoveIn ctx i party s))" by (simp add: run)
qed

lemma law_create: "keeps handover_law (createMoveIn ctx tid notes)"
proof -
  have new: "handover_ok u (movein_row ctx i now t notes)" "mi_id (movein_row ctx i now t notes) = i" for u i now t
    by (simp_all add: handover_ok_def movein_row_def)
  have put: "keeps handover_law (bindE newId (\<lambda>i. thenE (writeE (\<lambda>s. s\<lparr>w_moveins := w_moveins s @ [movein_row ctx i now t notes]\<rparr>))
        (ret (movein_row ctx i now t notes))))" for now t
    by (rule keepsI) (auto simp: bindE_apply op_eval newId_eval handover_law_def handovers_wf_def acks_kept_def new
      intro: handover_ok_mono [rotated])
  have "keeps handover_law (requireCap ctx c)" "keeps handover_law (getTenancy ctx tid)" "keeps handover_law getNow" for c
    by (rule handover_idle; intro log_keeps frames; simp)+
  then show ?thesis
    unfolding createMoveIn_def by (intro handover.keeps_intros put)
qed

lemma law_photo: "keeps handover_law (addMoveInPhoto hash ctx i file)"
proof (rule handover_idle)
  have parts: "keeps (same w_moveins) (loadMoveIn ctx i)" "keeps extends (loadMoveIn ctx i)"
    using loadMoveIn_reads [of ctx i] by (auto simp: keeps_def same_def extends_def reads_only_def)
  show "keeps (same w_moveins) (addMoveInPhoto hash ctx i file)"
    unfolding addMoveInPhoto_def by (intro frame.keeps_intros frames parts; simp)
  show "keeps extends (addMoveInPhoto hash ctx i file)"
    unfolding addMoveInPhoto_def by (intro logs.keeps_intros log_keeps parts)
qed


subsection \<open>What a handover promises\<close>

datatype handover_event =
    OpenHandover authz_ctx uid "string option"
  | AddPhoto authz_ctx uid tenancy_file
  | Acknowledge authz_ctx uid "ack_party option"

fun handover_step :: "(string \<Rightarrow> string) \<Rightarrow> handover_event \<Rightarrow> world \<Rightarrow> world" where
  "handover_step hash (OpenHandover ctx i notes) s = snd (createMoveIn ctx i notes s)"
| "handover_step hash (AddPhoto ctx i f) s = snd (addMoveInPhoto hash ctx i f s)"
| "handover_step hash (Acknowledge ctx i p) s = snd (acknowledgeMoveIn ctx i p s)"

text \<open>
  C35: a handover takes both sides, each for itself and once. Whatever is opened, photographed and
  acknowledged, in any order and at any times: a record is complete exactly when both sides have
  acknowledged it and pending exactly when neither has; a completed one has the evidence of its
  completion; the landlord's acknowledgement has the evidence of someone who is not the tenant, and
  the tenant's of someone who is not the landlord; and no later event changes the time of an
  acknowledgement given.
\<close>

theorem handover_needs_both:
  assumes "handovers_wf s"
  shows "handovers_wf (fold (\<lambda>(now, e) s. handover_step hash e (s\<lparr>w_now := now\<rparr>)) es s) \<and>
    acks_kept s (fold (\<lambda>(now, e) s. handover_step hash e (s\<lparr>w_now := now\<rparr>)) es s)"
proof -
  have tick: "handover_law u (u\<lparr>w_now := now\<rparr>)" for u now
    by (auto simp: handover_law_def handovers_wf_def acks_kept_def intro: handover_ok_mono [rotated])
  have one: "handover_law u (handover_step hash e u)" for u e
    using law_create law_photo law_acknowledge by (cases e) (simp_all add: keeps_def)
  have "handover_law s (fold (\<lambda>(now, e) s. handover_step hash e (s\<lparr>w_now := now\<rparr>)) es s)" for s
  proof (induction es arbitrary: s)
    case Nil
    show ?case by (simp add: handover.refl)
  next
    case (Cons e es)
    obtain now ev where e: "e = (now, ev)" by fastforce
    show ?case using handover.trans [OF handover.trans [OF tick one] Cons.IH] by (simp add: e)
  qed
  then show ?thesis using assms by (auto simp: handover_law_def)
qed

text \<open>
  an acknowledgement reads the row, computes the three columns from what it read, and writes them
  all. Two that overlap, the landlord's and the tenant's, both read the pending row: the second to
  write clears what the first had stamped, and the record stays incomplete although both sides were
  told they had acknowledged it.
\<close>

theorem lost_acknowledgement:
  assumes "find_movein i s = Some m" "mi_landlordAckAt m = None" "mi_tenantAckAt m = None"
  shows "\<exists>n. find_movein i (snd (thenE (write_ack i (ack_columns ACK_LANDLORD t1 m)) (write_ack i (ack_columns ACK_TENANT t2 m)) s)) = Some n \<and>
    mi_landlordAckAt n = None \<and> mi_tenantAckAt n = Some t2 \<and> mi_status n = MI_PARTIALLY_ACKNOWLEDGED"
proof -
  have "mi_id (put_ack c x) = mi_id x" for c x by (simp add: put_ack_def)
  then show ?thesis
    using assms find_movein_in [OF assms(1)]
    by (simp add: write_ack_def bindE_apply op_eval find_movein_def find_upd_where_same)
      (simp add: put_ack_def ack_columns_def)
qed

text \<open>A handover of the sample tenancy, photographed by nobody and acknowledged by both.\<close>

theorem handover_needs_both_witness:
  "handovers_wf (fold (\<lambda>(now, e) s. handover_step id e (s\<lparr>w_now := now\<rparr>))
     [(1, OpenHandover (sample_ctx MANAGER) 51 None), (2, Acknowledge (sample_ctx MANAGER) 1000 (Some ACK_TENANT)),
      (3, Acknowledge (sample_ctx MANAGER) 1000 (Some ACK_LANDLORD))] sample_world)"
proof -
  have "w_moveins sample_world = []" by (simp add: sample_world_def sample_users_def empty_world_def)
  then have "handovers_wf sample_world" by (simp add: handovers_wf_def)
  from handover_needs_both [OF this] show ?thesis by blast
qed

end
