(* ===== verification/Listings.thy ===== *)
theory Listings
  imports Frames
begin

text \<open>
  \<open>services/listings.ts\<close> and \<open>services/landlords.ts\<close>: the listing of an owned unit, from draft to
  archive, its readiness gate and its public share link, and the verification of a landlord.
\<close>

subsection \<open>The input\<close>

text \<open>A field left out of the input is \<open>None\<close> and leaves its column alone; \<open>Some None\<close> clears it.\<close>

record listing_patch =
  lp_headline :: "string option option"
  lp_askingRent :: "rat option option"
  lp_availableFrom :: "time option option"
  lp_furnished :: "bool option option"
  lp_description :: "string option option"
  lp_permitRef :: "string option option"
  lp_permitExpiry :: "time option option"

definition toData :: "listing_patch \<Rightarrow> listing \<Rightarrow> listing" where
  "toData p l = l\<lparr>ls_headline := or_else (lp_headline p) (ls_headline l),
     ls_askingRent := or_else (map_option (map_option money) (lp_askingRent p)) (ls_askingRent l),
     ls_availableFrom := or_else (map_option (map_option toUtcDateOnly) (lp_availableFrom p)) (ls_availableFrom l),
     ls_furnished := or_else (lp_furnished p) (ls_furnished l),
     ls_description := or_else (lp_description p) (ls_description l),
     ls_permitRef := or_else (lp_permitRef p) (ls_permitRef l),
     ls_permitExpiry := or_else (map_option (map_option toUtcDateOnly) (lp_permitExpiry p)) (ls_permitExpiry l)\<rparr>"

subsection \<open>Readiness\<close>

definition readinessFor :: "listing \<Rightarrow> property \<Rightarrow> readiness_result" where
  "readinessFor l p = listingReadiness \<lparr> li_askingRent = ls_askingRent l, li_availableFrom = ls_availableFrom l,
     li_furnished = ls_furnished l, li_description = ls_description l, li_permitRef = ls_permitRef l,
     li_bedrooms = pr_bedrooms p, li_sizeSqft = pr_sizeSqft p \<rparr>"

definition check_json :: "readiness_check \<Rightarrow> json" where
  "check_json c = JObj ([(''key'', JStr (ck_key c)), (''label'', JStr (ck_label c)), (''ok'', JBool (ck_ok c)),
     (''weight'', JNum (of_int (ck_weight c)))] @ (if ck_required c then [(''required'', JBool True)] else []))"

definition readiness_json :: "readiness_result \<Rightarrow> json" where
  "readiness_json r = JObj [(''score'', JNum (of_int (rr_score r))), (''checks'', JArr (map check_json (rr_checks r))),
     (''canPublish'', JBool (rr_canPublish r)), (''rule'', JStr (rr_rule r)), (''version'', JStr (rr_version r)),
     (''inputs'', rr_inputs r)]"

definition update_listing :: "uid \<Rightarrow> (listing \<Rightarrow> listing) \<Rightarrow> unit svc" where
  "update_listing i f = writeE (\<lambda>s. s\<lparr>w_listings := upd_where (\<lambda>l. ls_id l = i) f (w_listings s)\<rparr>)"

definition scored :: "property \<Rightarrow> listing \<Rightarrow> listing" where
  "scored p l = l\<lparr>ls_readinessScore := Some (rr_score (readinessFor l p)), ls_readiness := Some (readiness_json (readinessFor l p))\<rparr>"

definition storeReadiness :: "listing \<Rightarrow> property \<Rightarrow> listing svc" where
  "storeReadiness l p =
     thenE (update_listing (ls_id l) (\<lambda>x. x\<lparr>ls_readinessScore := Some (rr_score (readinessFor l p)),
         ls_readiness := Some (readiness_json (readinessFor l p))\<rparr>))
       (ret (scored p l))"

definition listing_evidence :: "authz_ctx \<Rightarrow> evidenceType \<Rightarrow> uid \<Rightarrow> uid \<Rightarrow> json option \<Rightarrow> evidence_input" where
  "listing_evidence ctx ty i propertyId payload =
     (evidence_by ctx ty S_LISTING (Some i) JNull)\<lparr>ei_propertyId := Some propertyId, ei_payload := payload\<rparr>"

subsection \<open>Reading\<close>

definition find_listing :: "uid \<Rightarrow> world \<Rightarrow> listing option" where
  "find_listing i s = List.find (\<lambda>l. ls_id l = i) (w_listings s)"

text \<open>A listing comes with its property, which the foreign key keeps.\<close>

definition getListing :: "authz_ctx \<Rightarrow> uid \<Rightarrow> (listing \<times> property) svc" where
  "getListing ctx i =
     thenE (requireCap ctx ''listings.read'')
     (bindE (readE (find_listing i)) (\<lambda>found.
      bindE (readE (assertReadable ctx (RT_listing found))) (\<lambda>r.
      thenE (liftE r)
      (bindE (someE notFound found) (\<lambda>l.
       bindE (readE (property_of (ls_propertyId l))) (\<lambda>p.
       bindE (someE (ThrownError ''Inconsistent query result'') p) (\<lambda>p. ret (l, p))))))))"

definition listing_where :: "authz_ctx \<Rightarrow> world \<Rightarrow> error + (listing \<Rightarrow> bool)" where
  "listing_where ctx s =
     (if cx_subjectContactId ctx \<noteq> None then map_sum id (\<lambda>w l. matches w (view_listing l)) (persona_listing_where ctx s)
      else map_sum id (\<lambda>ws l. ls_workspaceId l = ws) (scope ctx))"

definition listListings :: "authz_ctx \<Rightarrow> listing list svc" where
  "listListings ctx =
     thenE (requireCap ctx ''listings.read'')
     (bindE (readE (listing_where ctx)) (\<lambda>r.
      bindE (liftE r) (\<lambda>w. readE (\<lambda>s. sort_key (\<lambda>l. - ls_createdAt l) (filter w (w_listings s))))))"

subsection \<open>Writing\<close>

definition draft_row :: "authz_ctx \<Rightarrow> uid \<Rightarrow> time \<Rightarrow> uid \<Rightarrow> listing_patch \<Rightarrow> listing" where
  "draft_row ctx i now propertyId input = toData input
     \<lparr> ls_id = i, ls_workspaceId = cx_workspaceId ctx, ls_propertyId = propertyId, ls_status = L_DRAFT, ls_headline = None,
       ls_askingRent = None, ls_availableFrom = None, ls_furnished = None, ls_description = None, ls_permitRef = None,
       ls_permitExpiry = None, ls_readinessScore = None, ls_readiness = None, ls_publishedAt = None,
       ls_createdById = cx_userId ctx, ls_createdAt = now, ls_archivedAt = None \<rparr>"

definition createListing :: "authz_ctx \<Rightarrow> uid \<Rightarrow> listing_patch \<Rightarrow> listing svc" where
  "createListing ctx propertyId input =
     thenE (requireCap ctx ''listings.write'')
     (bindE (readE (property_of propertyId)) (\<lambda>found.
      bindE (readE (assertReadable ctx (RT_property found))) (\<lambda>r.
      thenE (liftE r)
      (bindE (someE notFound found) (\<lambda>property.
       bindE getNow (\<lambda>now. bindE newId (\<lambda>i.
       thenE (writeE (\<lambda>s. s\<lparr>w_listings := w_listings s @ [draft_row ctx i now propertyId input]\<rparr>))
       (bindE (storeReadiness (draft_row ctx i now propertyId input) property) (\<lambda>stored.
        thenE (syncListingPermitDeadline stored)
        (thenE (recordEvidence (listing_evidence ctx EV_LISTING_CREATED i propertyId
            (Some (JObj [(''headline'', jopt JStr (ls_headline stored)),
              (''readinessScore'', jopt (JNum \<circ> of_int) (ls_readinessScore stored))]))))
          (ret stored)))))))))))"

definition updateListing :: "authz_ctx \<Rightarrow> uid \<Rightarrow> listing_patch \<Rightarrow> listing svc" where
  "updateListing ctx i input =
     thenE (requireCap ctx ''listings.write'')
     (bindE (getListing ctx i) (\<lambda>(existing, property).
      thenE (update_listing i (toData input))
      (bindE (readE (find_listing i)) (\<lambda>refreshed.
       bindE (someE notFound refreshed) (\<lambda>l.
       bindE (storeReadiness l property) (\<lambda>stored.
        thenE (syncListingPermitDeadline stored)
        (thenE (recordEvidence (listing_evidence ctx EV_LISTING_UPDATED i (ls_propertyId stored)
            (Some (JObj [(''readinessScore'', jopt (JNum \<circ> of_int) (ls_readinessScore stored))]))))
          (ret stored))))))))"

definition not_ready :: "readiness_result \<Rightarrow> string" where
  "not_ready r =
     (let missing = map ck_label (filter (\<lambda>c. ck_required c \<and> \<not> ck_ok c) (rr_checks r))
      in ''Listing is not ready to publish (score '' @ show_int (rr_score r) @ ''/100)'' @
         (if missing \<noteq> [] then em_dash @ ''missing: '' @ join_with '', '' missing else []))"

definition published :: "readiness_result \<Rightarrow> time \<Rightarrow> listing \<Rightarrow> listing" where
  "published r now l = l\<lparr>ls_status := L_PUBLISHED, ls_publishedAt := Some now,
     ls_readinessScore := Some (rr_score r), ls_readiness := Some (readiness_json r)\<rparr>"

definition publishListing :: "authz_ctx \<Rightarrow> uid \<Rightarrow> listing svc" where
  "publishListing ctx i =
     thenE (requireCap ctx ''listings.publish'')
     (bindE (getListing ctx i) (\<lambda>(listing, property).
      thenE (assertE (ls_status listing \<noteq> L_ARCHIVED) (AuthzError ''Cannot publish an archived listing'' 422))
      (thenE (assertE (rr_canPublish (readinessFor listing property))
          (AuthzError (not_ready (readinessFor listing property)) 422))
      (bindE getNow (\<lambda>now.
       thenE (update_listing i (published (readinessFor listing property) now))
       (thenE (syncListingPermitDeadline (published (readinessFor listing property) now listing))
       (thenE (recordEvidence (listing_evidence ctx EV_LISTING_PUBLISHED i (ls_propertyId listing)
           (Some (JObj [(''readinessScore'', JNum (of_int (rr_score (readinessFor listing property))))]))))
         (ret (published (readinessFor listing property) now listing)))))))))"

definition shelved :: "time \<Rightarrow> listing \<Rightarrow> listing" where
  "shelved now l = l\<lparr>ls_status := L_ARCHIVED, ls_archivedAt := Some now\<rparr>"

definition archiveListing :: "authz_ctx \<Rightarrow> uid \<Rightarrow> listing svc" where
  "archiveListing ctx i =
     thenE (requireCap ctx ''listings.write'')
     (bindE (getListing ctx i) (\<lambda>(listing, _).
      bindE getNow (\<lambda>now.
      thenE (update_listing i (shelved now))
      (thenE (syncListingPermitDeadline (shelved now listing))
      (thenE (recordEvidence (listing_evidence ctx EV_LISTING_ARCHIVED i (ls_propertyId listing) None))
        (ret (shelved now listing)))))))"

subsection \<open>The public view\<close>

definition share_link_args :: "uid \<Rightarrow> link_args" where
  "share_link_args i = \<lparr> la_purpose = LP_LISTING_VIEW, la_scopeType = S_LISTING, la_scopeId = i, la_contactId = None,
     la_expiresInDays = Some 90, la_maxUses = None, la_requiredCapability = Some ''listings.publish'' \<rparr>"

definition createListingShareLink ::
    "(string \<Rightarrow> string) \<Rightarrow> string \<Rightarrow> string \<Rightarrow> authz_ctx \<Rightarrow> uid \<Rightarrow> (uid \<times> string) svc" where
  "createListingShareLink hash base token ctx i =
     thenE (requireCap ctx ''listings.publish'')
     (bindE (getListing ctx i) (\<lambda>(listing, _).
      thenE (assertE (ls_status listing = L_PUBLISHED) (AuthzError ''Only a published listing can be shared'' 422))
        (createSecureLink hash base token ctx (share_link_args i))))"

record public_listing_view =
  pv_headline :: "string option"
  pv_community :: string
  pv_building :: "string option"
  pv_unitNo :: "string option"
  pv_propertyType :: "string option"
  pv_bedrooms :: "int option"
  pv_sizeSqft :: "int option"
  pv_askingRent :: "rat option"
  pv_availableFrom :: "time option"
  pv_furnished :: "bool option"
  pv_description :: "string option"
  pv_ownerVerified :: bool

definition isLandlordVerified :: "uid \<Rightarrow> uid option \<Rightarrow> world \<Rightarrow> bool" where
  "isLandlordVerified workspaceId contactId s =
     (case contactId of None \<Rightarrow> False
      | Some k \<Rightarrow> (case List.find (\<lambda>c. ct_id c = k \<and> ct_workspaceId c = workspaceId) (w_contacts s) of
          None \<Rightarrow> False | Some c \<Rightarrow> ct_verifiedAt c \<noteq> None))"

definition public_view :: "listing \<Rightarrow> property \<Rightarrow> bool \<Rightarrow> public_listing_view" where
  "public_view l p v = \<lparr> pv_headline = ls_headline l, pv_community = pr_community p, pv_building = pr_building p,
     pv_unitNo = pr_unitNo p, pv_propertyType = pr_propertyType p, pv_bedrooms = pr_bedrooms p, pv_sizeSqft = pr_sizeSqft p,
     pv_askingRent = ls_askingRent l, pv_availableFrom = ls_availableFrom l, pv_furnished = ls_furnished l,
     pv_description = ls_description l, pv_ownerVerified = v \<rparr>"

definition viewed_evidence :: "secure_link \<Rightarrow> listing \<Rightarrow> evidence_input" where
  "viewed_evidence link l =
     (evidenceOf (ls_workspaceId l) EV_LISTING_VIEWED A_TENANT_LINK None S_LISTING (Some (ls_id l)))
       \<lparr>ei_propertyId := Some (ls_propertyId l), ei_payload := Some (JObj [(''secureLinkId'', JId (sl_id link))])\<rparr>"

definition getListingForLink :: "secure_link \<Rightarrow> public_listing_view option svc" where
  "getListingForLink link =
     (if sl_purpose link \<noteq> LP_LISTING_VIEW \<or> sl_scopeType link \<noteq> S_LISTING then ret None
      else bindE (readE (find_listing (sl_scopeId link))) (\<lambda>found.
        case found of None \<Rightarrow> ret None
        | Some l \<Rightarrow> bindE (readE (property_of (ls_propertyId l))) (\<lambda>p.
            bindE (someE (ThrownError ''Inconsistent query result'') p) (\<lambda>p.
            if ls_status l \<noteq> L_PUBLISHED then ret None
            else bindE (readE (isLandlordVerified (ls_workspaceId l) (pr_ownerContactId p))) (\<lambda>v.
              thenE (recordEvidence (viewed_evidence link l))
              (thenE (consumeLinkUse (sl_id link)) (ret (Some (public_view l p v)))))))))"

subsection \<open>Verifying a landlord\<close>

definition loadOwner :: "authz_ctx \<Rightarrow> uid \<Rightarrow> contact svc" where
  "loadOwner ctx i =
     bindE (readE (\<lambda>s. List.find (\<lambda>c. ct_id c = i) (w_contacts s))) (\<lambda>found.
     thenE (liftE (assertSameWorkspace ctx (map_option ct_workspaceId found)))
     (bindE (someE notFound found) (\<lambda>c.
      thenE (assertE (ct_kind c = CK_OWNER) (AuthzError ''Only OWNER contacts can be verified as landlords'' 422))
        (ret c))))"

definition verification_evidence :: "authz_ctx \<Rightarrow> contact \<Rightarrow> bool \<Rightarrow> string option \<Rightarrow> evidence_input" where
  "verification_evidence ctx c verified remark =
     evidence_by ctx EV_LANDLORD_VERIFIED S_WORKSPACE (Some (cx_workspaceId ctx))
       (JObj [(''contactId'', JId (ct_id c)), (''name'', JStr (ct_name c)), (''verified'', JBool verified),
         (''note'', jopt JStr remark)])"

definition set_verified :: "(time \<times> uid) option \<Rightarrow> contact \<Rightarrow> contact" where
  "set_verified v c = c\<lparr>ct_verifiedAt := map_option fst v, ct_verifiedById := map_option snd v\<rparr>"

definition update_contact :: "uid \<Rightarrow> (contact \<Rightarrow> contact) \<Rightarrow> unit svc" where
  "update_contact i f = writeE (\<lambda>s. s\<lparr>w_contacts := upd_where (\<lambda>c. ct_id c = i) f (w_contacts s)\<rparr>)"

definition verifyLandlord :: "authz_ctx \<Rightarrow> uid \<Rightarrow> string option \<Rightarrow> contact svc" where
  "verifyLandlord ctx i remark =
     thenE (requireCap ctx ''landlords.verify'')
     (bindE (loadOwner ctx i) (\<lambda>c.
      bindE getNow (\<lambda>now.
      thenE (update_contact (ct_id c) (set_verified (Some (now, cx_userId ctx))))
      (thenE (recordEvidence (verification_evidence ctx c True remark))
        (ret (set_verified (Some (now, cx_userId ctx)) c))))))"

definition revokeLandlordVerification :: "authz_ctx \<Rightarrow> uid \<Rightarrow> string option \<Rightarrow> contact svc" where
  "revokeLandlordVerification ctx i remark =
     thenE (requireCap ctx ''landlords.verify'')
     (bindE (loadOwner ctx i) (\<lambda>c.
      thenE (update_contact (ct_id c) (set_verified None))
      (thenE (recordEvidence (verification_evidence ctx c False remark))
        (ret (set_verified None c)))))"

subsection \<open>Reading back\<close>

lemma find_listing_in: "find_listing i s = Some l \<Longrightarrow> l \<in> set (w_listings s) \<and> ls_id l = i"
  by (auto simp: find_listing_def dest: find_Some_in)

lemma getListing_ok [op_ok]:
  "getListing ctx i s = (Inr (l, p), t) \<longleftrightarrow> t = s \<and> hasCapability ctx ''listings.read'' \<and> find_listing i s = Some l \<and>
     assertReadable ctx (RT_listing (Some l)) s = Inr () \<and> property_of (ls_propertyId l) s = Some p"
  by (auto simp: getListing_def op_ok requireCap_def)

lemma getListing_reads [outcome]: "reads_only (getListing ctx i)"
  unfolding getListing_def requireCap_def by (intro outcome)

lemma frames_getListing [frames]: "keeps (same f) (getListing ctx i)"
  using getListing_reads [of ctx i] by (simp add: keeps_def same_def reads_only_def)

lemma keeps_getListing [log_keeps]: "keeps extends (getListing ctx i)"
  unfolding getListing_def by (intro logs.keeps_intros log_keeps)

lemma frames_update_listing [frames]: "(\<And>s n. f (s\<lparr>w_listings := n\<rparr>) = f s) \<Longrightarrow> keeps (same f) (update_listing i g)"
  unfolding update_listing_def by (rule keeps_same_write)

lemma listing_evidence_ok [simp]:
  "\<not> (ei_actorType (listing_evidence ctx ty i p j) \<in> {A_USER, A_STAFF} \<and> ei_actorId (listing_evidence ctx ty i p j) = None)"
  by (simp add: listing_evidence_def evidence_by_def evidenceOf_def)

lemma toData_keeps [simp]: "ls_id (toData p l) = ls_id l" "ls_status (toData p l) = ls_status l"
  "ls_propertyId (toData p l) = ls_propertyId l" "ls_workspaceId (toData p l) = ls_workspaceId l"
  by (simp_all add: toData_def)

lemma row_keeps [simp]:
  "ls_id (scored p l) = ls_id l" "ls_status (scored p l) = ls_status l" "ls_id (published r now l) = ls_id l"
  "ls_id (shelved now l) = ls_id l" "ls_status (shelved now l) = L_ARCHIVED" "ls_status (published r now l) = L_PUBLISHED"
  by (simp_all add: scored_def published_def shelved_def)

subsection \<open>The gate\<close>

text \<open>The listing and unit a context may publish: it holds the capability, the door opens, and the gate does.\<close>

definition publishable :: "authz_ctx \<Rightarrow> uid \<Rightarrow> world \<Rightarrow> (listing \<times> property) option" where
  "publishable ctx i s =
     (if \<not> hasCapability ctx ''listings.publish'' then None
      else case fst (getListing ctx i s) of Inl _ \<Rightarrow> None
        | Inr (l, p) \<Rightarrow> if ls_status l \<noteq> L_ARCHIVED \<and> rr_canPublish (readinessFor l p) then Some (l, p) else None)"

lemma publishListing_refused: "publishable ctx i s = None \<Longrightarrow> \<exists>e. publishListing ctx i s = (Inl e, s)"
proof -
  assume none: "publishable ctx i s = None"
  obtain g where g: "getListing ctx i s = (g, s)" using reads_onlyD [OF getListing_reads] by (metis prod.collapse)
  show ?thesis
    using none g by (cases g) (auto simp: publishable_def publishListing_def bindE_apply requireCap_def assertE_eval split: if_splits)
qed

lemma publishListing_done:
  assumes "publishable ctx i s = Some (l, p)"
  obtains t where "publishListing ctx i s = (Inr (published (readinessFor l p) (w_now s) l), t)"
    "find_listing i s = Some l" "ls_status l \<noteq> L_ARCHIVED" "rr_canPublish (readinessFor l p)"
    "w_listings t = upd_where (\<lambda>x. ls_id x = i) (published (readinessFor l p) (w_now s)) (w_listings s)"
    "w_deadlines t = w_deadlines (snd (syncListingPermitDeadline (published (readinessFor l p) (w_now s) l) s))"
    "\<exists>j. w_evidence t = w_evidence s @ [evidence_row j (w_now s) (listing_evidence ctx EV_LISTING_PUBLISHED i (ls_propertyId l)
       (Some (JObj [(''readinessScore'', JNum (of_int (rr_score (readinessFor l p))))])))]"
proof -
  let ?new = "published (readinessFor l p) (w_now s)"
  let ?S = "s\<lparr>w_listings := upd_where (\<lambda>x. ls_id x = i) ?new (w_listings s)\<rparr>"
  have g: "getListing ctx i s = (Inr (l, p), s)" "hasCapability ctx ''listings.publish''"
    "ls_status l \<noteq> L_ARCHIVED" "rr_canPublish (readinessFor l p)"
  proof -
    obtain r where r: "getListing ctx i s = (r, s)" using reads_onlyD [OF getListing_reads] by (metis prod.collapse)
    show "getListing ctx i s = (Inr (l, p), s)" "hasCapability ctx ''listings.publish''"
      "ls_status l \<noteq> L_ARCHIVED" "rr_canPublish (readinessFor l p)"
      using assms r by (auto simp: publishable_def split: if_splits sum.splits prod.splits)
  qed
  obtain d v where sync: "syncListingPermitDeadline (?new l) ?S = (Inr d, v)"
  proof -
    have "never_fails (syncListingPermitDeadline (?new l))"
      unfolding syncListingPermitDeadline_def cancelDeadline_def Let_def by (intro outcome)
    then show thesis using that by (auto simp: never_fails_def)
  qed
  have dead: "w_deadlines v = w_deadlines (snd (syncListingPermitDeadline (?new l) s))"
    using arg_cong [OF sync, of snd] by (auto simp: syncListingPermitDeadline_def bindE_apply op_eval cancelDeadline_def Let_def split: option.splits)
  have keep: "w_listings v = w_listings ?S" "w_evidence v = w_evidence ?S" "w_now v = w_now ?S"
    using sync by (rule sameD [rotated], intro frames; simp)+
  have run: "publishListing ctx i s = (Inr (?new l), v\<lparr>w_next := Suc (w_next v), w_evidence := w_evidence v @
     [evidence_row (w_next v) (w_now v) (listing_evidence ctx EV_LISTING_PUBLISHED i (ls_propertyId l)
       (Some (JObj [(''readinessScore'', JNum (of_int (rr_score (readinessFor l p))))])))]\<rparr>)"
    using g sync unfolding publishListing_def
    by (simp add: bindE_apply requireCap_def assertE_eval op_eval update_listing_def recordEvidence_eval [OF listing_evidence_ok])
  show thesis
    by (rule that [OF run]) (use g keep dead in \<open>auto simp: getListing_ok\<close>)
qed

subsection \<open>Archived is final\<close>

definition archived_in :: "uid \<Rightarrow> world \<Rightarrow> bool" where
  "archived_in i s \<longleftrightarrow> (\<exists>l. find_listing i s = Some l \<and> ls_status l = L_ARCHIVED)"

definition stays_dark :: "world \<Rightarrow> world \<Rightarrow> bool" where
  "stays_dark s t \<longleftrightarrow> (\<forall>i. archived_in i s \<longrightarrow> archived_in i t)"

interpretation dark: step_law stays_dark
  by unfold_locales (auto simp: stays_dark_def)

lemma dark_quiet: "keeps (same w_listings) m \<Longrightarrow> keeps stays_dark m"
  by (auto simp: keeps_def same_def stays_dark_def archived_in_def find_listing_def)

lemma find_listing_upd:
  "(\<And>x. ls_id (f x) = ls_id x) \<Longrightarrow> w_listings t = upd_where (\<lambda>l. ls_id l = i) f (w_listings s) \<Longrightarrow>
   find_listing j t = map_option (\<lambda>l. if j = i then f l else l) (find_listing j s)"
  by (cases "find_listing j s") (auto simp: find_listing_def find_upd_where_same dest: find_Some_in)

lemma archived_in_upd:
  assumes "\<And>x. ls_id (f x) = ls_id x" and "w_listings t = upd_where (\<lambda>l. ls_id l = i) f (w_listings s)"
    and "\<And>x. find_listing i s = Some x \<Longrightarrow> ls_status x = L_ARCHIVED \<Longrightarrow> ls_status (f x) = L_ARCHIVED"
  shows "archived_in j s \<longrightarrow> archived_in j t"
  by (cases "find_listing j s") (use assms(3) in \<open>auto simp: archived_in_def find_listing_upd [OF assms(1,2)]\<close>)

lemma dark_update:
  assumes "\<And>x. ls_id (f x) = ls_id x" and "\<And>x. ls_status x = L_ARCHIVED \<Longrightarrow> ls_status (f x) = L_ARCHIVED"
  shows "keeps stays_dark (update_listing i f)"
  unfolding update_listing_def stays_dark_def
  by (intro keeps_writeE allI, rule archived_in_upd [OF assms(1)]) (simp_all add: assms(2))

lemma dark_append: "keeps stays_dark (writeE (\<lambda>s. s\<lparr>w_listings := w_listings s @ xs\<rparr>))"
  by (intro keeps_writeE) (auto simp: stays_dark_def archived_in_def find_listing_def find_append)

lemma dark_storeReadiness: "keeps stays_dark (storeReadiness l p)"
  unfolding storeReadiness_def by (intro dark.keeps_intros dark_update) simp_all

lemma dark_parts:
  "keeps stays_dark (requireCap ctx c)" "keeps stays_dark (getListing ctx i)" "keeps stays_dark getNow" "keeps stays_dark newId"
  "keeps stays_dark (syncListingPermitDeadline l)" "keeps stays_dark (recordEvidence e)"
  by (rule dark_quiet; intro frames; simp)+

lemma dark_createListing: "keeps stays_dark (createListing ctx p inp)"
  unfolding createListing_def by (intro dark.keeps_intros dark_parts dark_append dark_storeReadiness)

lemma dark_updateListing: "keeps stays_dark (updateListing ctx i inp)"
  unfolding updateListing_def split_beta by (intro dark.keeps_intros dark_parts dark_update dark_storeReadiness) simp_all

lemma dark_archiveListing: "keeps stays_dark (archiveListing ctx i)"
  unfolding archiveListing_def split_beta by (intro dark.keeps_intros dark_parts dark_update) simp_all

lemma dark_publishListing: "keeps stays_dark (publishListing ctx i)"
proof (rule keepsI)
  fix s
  show "stays_dark s (snd (publishListing ctx i s))"
  proof (cases "publishable ctx i s")
    case None
    then show ?thesis using publishListing_refused [of ctx i s] dark.refl by auto
  next
    case (Some lp)
    then obtain l p where lp: "publishable ctx i s = Some (l, p)" by (cases lp) auto
    obtain t where t: "publishListing ctx i s = (Inr (published (readinessFor l p) (w_now s) l), t)"
      "find_listing i s = Some l" "ls_status l \<noteq> L_ARCHIVED"
      "w_listings t = upd_where (\<lambda>x. ls_id x = i) (published (readinessFor l p) (w_now s)) (w_listings s)"
      by (rule publishListing_done [OF lp])
    have "archived_in j s \<Longrightarrow> archived_in j t" for j
      using archived_in_upd [OF _ t(4)] t(2,3) by simp
    then show ?thesis by (simp add: t(1) stays_dark_def)
  qed
qed

lemma dark_share: "keeps stays_dark (createListingShareLink hash base token ctx i)"
  unfolding createListingShareLink_def split_beta
  by (rule dark_quiet, intro frame.keeps_intros frames; simp)

lemma dark_view: "keeps stays_dark (getListingForLink link)"
  unfolding getListingForLink_def
  by (rule dark_quiet) (intro frame.keeps_intros frames; simp)

lemma archived_refused:
  assumes "archived_in i s"
  shows "\<exists>e. publishListing ctx i s = (Inl e, s)" "\<exists>e. createListingShareLink hash base token ctx i s = (Inl e, s)"
    and "sl_scopeId link = i \<Longrightarrow> \<exists>r. getListingForLink link s = (r, s) \<and> (\<forall>v. r \<noteq> Inr (Some v))"
proof -
  obtain l where l: "find_listing i s = Some l" "ls_status l = L_ARCHIVED" using assms by (auto simp: archived_in_def)
  obtain g where g: "getListing ctx i s = (g, s)" using reads_onlyD [OF getListing_reads] by (metis prod.collapse)
  have row: "g = Inr (a, p) \<Longrightarrow> a = l" for a p using g l(1) by (auto simp: getListing_ok)
  show "\<exists>e. publishListing ctx i s = (Inl e, s)"
    by (rule publishListing_refused) (use g row l(2) in \<open>auto simp: publishable_def split: sum.splits\<close>)
  show "\<exists>e. createListingShareLink hash base token ctx i s = (Inl e, s)"
    using g row l(2) by (cases g) (auto simp: createListingShareLink_def bindE_apply requireCap_def assertE_eval split: if_splits)
  show "\<exists>r. getListingForLink link s = (r, s) \<and> (\<forall>v. r \<noteq> Inr (Some v))" if "sl_scopeId link = i"
    using that l by (cases "property_of (ls_propertyId l) s") (auto simp: getListingForLink_def bindE_apply op_eval)
qed

end
