(* ===== verification/Market.thy ===== *)
theory Market
  imports Listings Negotiation
begin

text \<open>
  What comes in on a published listing: offers for a new tenancy (\<open>services/offers.ts\<close>), enquiries
  (\<open>services/enquiries.ts\<close>) and viewings (\<open>services/viewings.ts\<close>).
\<close>

subsection \<open>Offers\<close>

record new_offer_input =
  no_party :: offerParty
  no_annualRent :: rat
  no_paymentSchedule :: string
  no_paymentMethod :: "string option"
  no_termMonths :: "int option"
  no_startDate :: "time option"
  no_note :: "string option"
  no_prospectContactId :: "uid option"

definition on_listing :: "uid \<Rightarrow> offer \<Rightarrow> bool" where
  "on_listing i f \<longleftrightarrow> of_listingId f = Some i"

definition listListingOffers :: "authz_ctx \<Rightarrow> uid \<Rightarrow> offer list svc" where
  "listListingOffers ctx i =
     thenE (requireCap ctx ''offers.read'')
     (thenE (getListing ctx i)
       (readE (\<lambda>s. sort_key (\<lambda>f. - of_version f) (filter (\<lambda>f. of_workspaceId f = cx_workspaceId ctx \<and> on_listing i f) (w_offers s)))))"

definition new_offer_row :: "authz_ctx \<Rightarrow> uid \<Rightarrow> uid \<Rightarrow> time \<Rightarrow> int \<Rightarrow> new_offer_input \<Rightarrow> offer" where
  "new_offer_row ctx j listingId now version inp =
     \<lparr> of_id = j, of_workspaceId = cx_workspaceId ctx, of_renewalCaseId = None, of_tenancyId = None,
       of_listingId = Some listingId, of_prospectContactId = no_prospectContactId inp, of_version = version,
       of_party = no_party inp, of_annualRent = money (no_annualRent inp), of_paymentSchedule = no_paymentSchedule inp,
       of_paymentMethod = no_paymentMethod inp, of_termMonths = no_termMonths inp,
       of_startDate = map_option toUtcDateOnly (no_startDate inp), of_note = no_note inp,
       of_status = (if no_party inp = OP_TENANT then O_COUNTERED else O_SENT), of_createdById = Some (cx_userId ctx),
       of_viaSecureLinkId = None, of_permittedMaxSnapshot = None, of_indexCaptureId = None, of_indexCitation = None,
       of_responseDueDeadlineId = None, of_proposedStartDate = None, of_proposedEndDate = None, of_createdAt = now \<rparr>"

definition offer_evidence :: "authz_ctx \<Rightarrow> evidenceType \<Rightarrow> uid \<Rightarrow> uid \<Rightarrow> json \<Rightarrow> evidence_input" where
  "offer_evidence ctx ty j propertyId payload = (evidence_by ctx ty S_OFFER (Some j) payload)\<lparr>ei_propertyId := Some propertyId\<rparr>"

definition proposeNewTenancyOffer :: "authz_ctx \<Rightarrow> uid \<Rightarrow> new_offer_input \<Rightarrow> offer svc" where
  "proposeNewTenancyOffer ctx i inp =
     thenE (requireCap ctx ''offers.write'')
     (thenE (assertE (0 < no_annualRent inp) (AuthzError ''Offer rent must be a positive amount'' 422))
     (bindE (getListing ctx i) (\<lambda>(listing, _).
      thenE (assertE (ls_status listing \<noteq> L_ARCHIVED) (AuthzError ''Cannot make an offer on an archived listing'' 422))
      (thenE (supersede (on_listing i))
      (bindE (readE (next_version (on_listing i))) (\<lambda>version.
       bindE getNow (\<lambda>now. bindE newId (\<lambda>j.
       thenE (writeE (\<lambda>s. s\<lparr>w_offers := w_offers s @ [new_offer_row ctx j i now version inp]\<rparr>))
       (thenE (recordEvidence (offer_evidence ctx (if no_party inp = OP_TENANT then EV_OFFER_COUNTERED else EV_OFFER_PROPOSED) j
           (ls_propertyId listing)
           (JObj [(''version'', JNum (of_int version)), (''party'', JStr (party_name (no_party inp))),
             (''annualRent'', JNum (no_annualRent inp)), (''listingId'', JId i)])))
       (thenE (recordAudit (audit_by ctx ''offer.propose'' ''Offer'' (Some j)))
         (ret (new_offer_row ctx j i now version inp))))))))))))"

definition accepted_row :: "offer \<Rightarrow> offer" where
  "accepted_row f = f\<lparr>of_status := O_ACCEPTED\<rparr>"

definition acceptNewTenancyOffer :: "authz_ctx \<Rightarrow> uid \<Rightarrow> offer svc" where
  "acceptNewTenancyOffer ctx j =
     thenE (requireCap ctx ''offers.decide'')
     (bindE (readE (find_offer j)) (\<lambda>found.
      bindE (someE notFound (case found of None \<Rightarrow> None | Some f \<Rightarrow>
        if of_workspaceId f = cx_workspaceId ctx then Some f else None)) (\<lambda>f.
      bindE (someE (AuthzError ''Not a new-tenancy offer'' 422) (of_listingId f)) (\<lambda>i.
      bindE (getListing ctx i) (\<lambda>(listing, _).
      thenE (supersede (\<lambda>g. on_listing i g \<and> of_id g \<noteq> j))
      (thenE (writeE (\<lambda>s. s\<lparr>w_offers := upd_where (\<lambda>g. of_id g = j) accepted_row (w_offers s)\<rparr>))
      (thenE (recordEvidence (offer_evidence ctx EV_OFFER_ACCEPTED j (ls_propertyId listing)
          (JObj [(''version'', JNum (of_int (of_version f))), (''annualRent'', JNum (of_annualRent f)), (''listingId'', JId i)])))
      (thenE (recordAudit (audit_by ctx ''offer.accept'' ''Offer'' (Some j)))
        (ret (accepted_row f))))))))))"

subsection \<open>Enquiries\<close>

record enquiry_input =
  eq_name :: string
  eq_email :: "string option"
  eq_phone :: "string option"
  eq_message :: "string option"

definition enquiry_row :: "secure_link \<Rightarrow> listing \<Rightarrow> uid \<Rightarrow> time \<Rightarrow> enquiry_input \<Rightarrow> enquiry" where
  "enquiry_row link l i now inp =
     \<lparr> en_id = i, en_workspaceId = ls_workspaceId l, en_listingId = Some (ls_id l), en_propertyId = Some (ls_propertyId l),
       en_name = js_trim (eq_name inp), en_email = trimmed (eq_email inp), en_phone = trimmed (eq_phone inp),
       en_message = trimmed (eq_message inp), en_status = EN_NEW, en_source = Some ''LISTING_LINK'',
       en_secureLinkId = Some (sl_id link), en_createdAt = now \<rparr>"

definition line_if :: "string \<Rightarrow> string option \<Rightarrow> string" where
  "line_if label x = (if given x then label @ the x @ nl else [])"

definition enquiry_body :: "enquiry_input \<Rightarrow> string" where
  "enquiry_body inp = js_trim (eq_name inp) @ '' enquired about a listing.'' @ nl @ nl @
     line_if ''Email: '' (eq_email inp) @ line_if ''Phone: '' (eq_phone inp) @
     (if given (eq_message inp) then nl @ js_trim (the (eq_message inp)) @ nl else [])"

definition enquiry_evidence :: "listing \<Rightarrow> uid \<Rightarrow> enquiry_input \<Rightarrow> evidence_input" where
  "enquiry_evidence l i inp =
     (evidenceOf (ls_workspaceId l) EV_ENQUIRY_RECEIVED A_TENANT_LINK None S_LISTING (Some (ls_id l)))
       \<lparr>ei_propertyId := Some (ls_propertyId l), ei_payload := Some (JObj [(''enquiryId'', JId i),
          (''name'', JStr (js_trim (eq_name inp))), (''hasContact'', JBool (given (eq_email inp) \<or> given (eq_phone inp)))])\<rparr>"

definition createEnquiryFromLink :: "secure_link \<Rightarrow> enquiry_input \<Rightarrow> enquiry svc" where
  "createEnquiryFromLink link inp =
     thenE (assertE (sl_purpose link = LP_LISTING_VIEW \<and> sl_scopeType link = S_LISTING) (ThrownError ''Link is not a listing link''))
     (thenE (assertE (js_trim (eq_name inp) \<noteq> []) (ThrownError ''A name is required''))
     (bindE (readE (find_listing (sl_scopeId link))) (\<lambda>found.
      bindE (someE (ThrownError ''This listing is no longer available'')
        (case found of None \<Rightarrow> None | Some l \<Rightarrow> if ls_status l = L_PUBLISHED then Some l else None)) (\<lambda>l.
      bindE getNow (\<lambda>now. bindE newId (\<lambda>i.
      thenE (writeE (\<lambda>s. s\<lparr>w_enquiries := w_enquiries s @ [enquiry_row link l i now inp]\<rparr>))
      (thenE (recordEvidence (enquiry_evidence l i inp))
      (bindE (readE (workspaceOverseers (ls_workspaceId l))) (\<lambda>overseers.
       thenE (recordNotification \<lparr> ri_ws = ls_workspaceId l, ri_template = ''enquiry_v1'',
          ri_subj = ''New listing enquiry from '' @ js_trim (eq_name inp), ri_body = enquiry_body inp,
          ri_recipients = overseers, ri_urgent = False, ri_relType = Some S_LISTING, ri_relId = Some (ls_id l) \<rparr>)
         (ret (enquiry_row link l i now inp)))))))))))"

definition listEnquiries :: "authz_ctx \<Rightarrow> enquiryStatus option \<Rightarrow> enquiry list svc" where
  "listEnquiries ctx status =
     thenE (requireCap ctx ''enquiries.read'')
     (bindE (liftE (scope ctx)) (\<lambda>ws.
      readE (\<lambda>s. sort_key (\<lambda>e. - en_createdAt e) (filter (\<lambda>e. en_workspaceId e = ws \<and>
        (case status of None \<Rightarrow> True | Some x \<Rightarrow> en_status e = x)) (w_enquiries s)))))"

definition setEnquiryStatus :: "authz_ctx \<Rightarrow> uid \<Rightarrow> enquiryStatus \<Rightarrow> enquiry svc" where
  "setEnquiryStatus ctx i status =
     thenE (requireCap ctx ''enquiries.write'')
     (bindE (readE (\<lambda>s. List.find (\<lambda>e. en_id e = i) (w_enquiries s))) (\<lambda>found.
      thenE (liftE (assertSameWorkspace ctx (map_option en_workspaceId found)))
      (bindE (someE notFound found) (\<lambda>e.
       thenE (writeE (\<lambda>s. s\<lparr>w_enquiries := upd_where (\<lambda>x. en_id x = i) (\<lambda>x. x\<lparr>en_status := status\<rparr>) (w_enquiries s)\<rparr>))
         (ret (e\<lparr>en_status := status\<rparr>))))))"

subsection \<open>Viewings\<close>

text \<open>\<open>vi_scheduledAt\<close> is \<open>None\<close> for an invalid \<open>Date\<close>.\<close>

record viewing_input =
  vi_propertyId :: uid
  vi_listingId :: "uid option"
  vi_enquiryId :: "uid option"
  vi_contactId :: "uid option"
  vi_prospectName :: "string option"
  vi_scheduledAt :: "time option"
  vi_notes :: "string option"

definition viewing_row :: "authz_ctx \<Rightarrow> uid \<Rightarrow> time \<Rightarrow> time \<Rightarrow> viewing_input \<Rightarrow> viewing" where
  "viewing_row ctx i now slot inp =
     \<lparr> vw_id = i, vw_workspaceId = cx_workspaceId ctx, vw_propertyId = vi_propertyId inp, vw_listingId = vi_listingId inp,
       vw_enquiryId = vi_enquiryId inp, vw_contactId = vi_contactId inp, vw_prospectName = trimmed (vi_prospectName inp),
       vw_scheduledAt = slot, vw_status = VW_REQUESTED, vw_notes = trimmed (vi_notes inp),
       vw_createdById = Some (cx_userId ctx), vw_createdAt = now \<rparr>"

definition viewing_evidence :: "authz_ctx \<Rightarrow> evidenceType \<Rightarrow> uid \<Rightarrow> json \<Rightarrow> evidence_input" where
  "viewing_evidence ctx ty propertyId payload =
     (evidence_by ctx ty S_PROPERTY (Some propertyId) payload)\<lparr>ei_propertyId := Some propertyId\<rparr>"

definition createViewing :: "authz_ctx \<Rightarrow> viewing_input \<Rightarrow> viewing svc" where
  "createViewing ctx inp =
     thenE (requireCap ctx ''viewings.write'')
     (bindE (readE (property_of (vi_propertyId inp))) (\<lambda>property.
      thenE (liftE (assertSameWorkspace ctx (map_option pr_workspaceId property)))
      (bindE (someE (AuthzError ''A valid viewing date/time is required'' 422) (vi_scheduledAt inp)) (\<lambda>slot.
       bindE getNow (\<lambda>now. bindE newId (\<lambda>i.
       thenE (writeE (\<lambda>s. s\<lparr>w_viewings := w_viewings s @ [viewing_row ctx i now slot inp]\<rparr>))
       (thenE (recordEvidence (viewing_evidence ctx EV_VIEWING_SCHEDULED (vi_propertyId inp)
           (JObj [(''viewingId'', JId i), (''scheduledAt'', JDate slot), (''listingId'', jopt JId (vi_listingId inp))])))
         (ret (viewing_row ctx i now slot inp)))))))))"

definition listViewings :: "authz_ctx \<Rightarrow> viewingStatus option \<Rightarrow> uid option \<Rightarrow> viewing list svc" where
  "listViewings ctx status propertyId =
     thenE (requireCap ctx ''viewings.read'')
     (bindE (liftE (scope ctx)) (\<lambda>ws.
      readE (\<lambda>s. sort_key vw_scheduledAt (filter (\<lambda>v. vw_workspaceId v = ws \<and>
        (case status of None \<Rightarrow> True | Some x \<Rightarrow> vw_status v = x) \<and>
        (case propertyId of None \<Rightarrow> True | Some p \<Rightarrow> vw_propertyId v = p)) (w_viewings s)))))"

definition setViewingStatus :: "authz_ctx \<Rightarrow> uid \<Rightarrow> viewingStatus \<Rightarrow> viewing svc" where
  "setViewingStatus ctx i status =
     thenE (requireCap ctx ''viewings.write'')
     (bindE (readE (\<lambda>s. List.find (\<lambda>v. vw_id v = i) (w_viewings s))) (\<lambda>found.
      thenE (liftE (assertSameWorkspace ctx (map_option vw_workspaceId found)))
      (bindE (someE notFound found) (\<lambda>v.
       thenE (writeE (\<lambda>s. s\<lparr>w_viewings := upd_where (\<lambda>x. vw_id x = i) (\<lambda>x. x\<lparr>vw_status := status\<rparr>) (w_viewings s)\<rparr>))
       (thenE (if status = VW_COMPLETED
               then thenE (recordEvidence (viewing_evidence ctx EV_VIEWING_COMPLETED (vw_propertyId v) (JObj [(''viewingId'', JId i)]))) (ret ())
               else ret ())
         (ret (v\<lparr>vw_status := status\<rparr>)))))))"

subsection \<open>Nothing comes in on an archived listing\<close>

lemma dark_offer_parts: "keeps stays_dark (supersede p)" "keeps stays_dark (recordAudit a)"
    "keeps stays_dark (writeE (\<lambda>s. s\<lparr>w_offers := g s\<rparr>))"
  unfolding supersede_def by (rule dark_quiet; intro frames keeps_same_write; simp)+

lemma dark_propose: "keeps stays_dark (proposeNewTenancyOffer ctx i inp)"
  unfolding proposeNewTenancyOffer_def split_beta by (intro dark.keeps_intros dark_parts dark_offer_parts)

lemma dark_accept: "keeps stays_dark (acceptNewTenancyOffer ctx j)"
  unfolding acceptNewTenancyOffer_def split_beta by (intro dark.keeps_intros dark_parts dark_offer_parts)

lemma dark_enquiry: "keeps stays_dark (createEnquiryFromLink link inp)"
  unfolding createEnquiryFromLink_def
  by (rule dark_quiet) (intro frame.keeps_intros frames keeps_same_write; simp)

lemma archived_takes_nothing:
  assumes "archived_in i s"
  shows "\<exists>e. proposeNewTenancyOffer ctx i inp s = (Inl e, s)"
    and "sl_scopeId link = i \<Longrightarrow> \<exists>e. createEnquiryFromLink link q s = (Inl e, s)"
proof -
  obtain l where l: "find_listing i s = Some l" "ls_status l = L_ARCHIVED" using assms by (auto simp: archived_in_def)
  obtain g where g: "getListing ctx i s = (g, s)" using reads_onlyD [OF getListing_reads] by (metis prod.collapse)
  have row: "g = Inr (a, p) \<Longrightarrow> a = l" for a p using g l(1) by (auto simp: getListing_ok)
  show "\<exists>e. proposeNewTenancyOffer ctx i inp s = (Inl e, s)"
    using g row l(2) by (cases g) (auto simp: proposeNewTenancyOffer_def bindE_apply requireCap_def assertE_eval split: if_splits)
  show "\<exists>e. createEnquiryFromLink link q s = (Inl e, s)" if "sl_scopeId link = i"
    using that l by (auto simp: createEnquiryFromLink_def bindE_apply op_eval assertE_eval split: if_splits)
qed

datatype market_event =
    Draft authz_ctx uid listing_patch
  | Edit authz_ctx uid listing_patch
  | Publish authz_ctx uid
  | Shelve authz_ctx uid
  | Share string authz_ctx uid
  | View secure_link
  | Enquire secure_link enquiry_input
  | Propose authz_ctx uid new_offer_input
  | Accept authz_ctx uid

fun market_step :: "(string \<Rightarrow> string) \<Rightarrow> string \<Rightarrow> market_event \<Rightarrow> world \<Rightarrow> world" where
  "market_step hash base (Draft ctx p inp) s = snd (createListing ctx p inp s)"
| "market_step hash base (Edit ctx i inp) s = snd (updateListing ctx i inp s)"
| "market_step hash base (Publish ctx i) s = snd (publishListing ctx i s)"
| "market_step hash base (Shelve ctx i) s = snd (archiveListing ctx i s)"
| "market_step hash base (Share token ctx i) s = snd (createListingShareLink hash base token ctx i s)"
| "market_step hash base (View link) s = snd (getListingForLink link s)"
| "market_step hash base (Enquire link q) s = snd (createEnquiryFromLink link q s)"
| "market_step hash base (Propose ctx i inp) s = snd (proposeNewTenancyOffer ctx i inp s)"
| "market_step hash base (Accept ctx j) s = snd (acceptNewTenancyOffer ctx j s)"

definition market_run :: "(string \<Rightarrow> string) \<Rightarrow> string \<Rightarrow> (time \<times> market_event) list \<Rightarrow> world \<Rightarrow> world" where
  "market_run hash base es s = fold (\<lambda>(now, e) s. market_step hash base e (s\<lparr>w_now := now\<rparr>)) es s"

lemma dark_step: "stays_dark s (market_step hash base e s)"
  using dark_createListing dark_updateListing dark_publishListing dark_archiveListing dark_share dark_view dark_enquiry
    dark_propose dark_accept
  by (cases e) (simp_all add: keeps_def)

lemma dark_run: "stays_dark s (market_run hash base es s)"
  unfolding market_run_def
proof (induction es arbitrary: s)
  case Nil
  show ?case by (simp add: dark.refl)
next
  case (Cons e es)
  obtain now ev where e: "e = (now, ev)" by fastforce
  have "stays_dark s (s\<lparr>w_now := now\<rparr>)" by (simp add: stays_dark_def archived_in_def find_listing_def)
  from dark.trans [OF dark.trans [OF this dark_step] Cons.IH] show ?case by (simp add: e)
qed

lemma archiveListing_archives: "archiveListing ctx i s = (Inr l, t) \<Longrightarrow> archived_in i t"
proof -
  assume run: "archiveListing ctx i s = (Inr l, t)"
  then obtain l0 p where g: "find_listing i s = Some l0" "getListing ctx i s = (Inr (l0, p), s)"
    unfolding archiveListing_def by (auto simp: bindE_ok op_ok requireCap_def)
  define rest where "rest = thenE (syncListingPermitDeadline (shelved (w_now s) l0))
     (thenE (recordEvidence (listing_evidence ctx EV_LISTING_ARCHIVED i (ls_propertyId l0) None)) (ret (shelved (w_now s) l0)))"
  have "keeps stays_dark rest" unfolding rest_def by (intro dark.keeps_intros dark_parts)
  moreover have "rest (s\<lparr>w_listings := upd_where (\<lambda>l. ls_id l = i) (shelved (w_now s)) (w_listings s)\<rparr>) = (Inr l, t)"
    using run g by (auto simp: archiveListing_def rest_def bindE_apply op_eval requireCap_def assertE_eval update_listing_def split: if_splits)
  ultimately have "stays_dark (s\<lparr>w_listings := upd_where (\<lambda>l. ls_id l = i) (shelved (w_now s)) (w_listings s)\<rparr>) t"
    by (rule keepsD)
  moreover have "archived_in i (s\<lparr>w_listings := upd_where (\<lambda>l. ls_id l = i) (shelved (w_now s)) (w_listings s)\<rparr>)"
    using g(1) by (auto simp: archived_in_def find_listing_def find_upd_where_same dest: find_Some_in)
  ultimately show ?thesis by (simp add: stays_dark_def)
qed

text \<open>
  C37: taking a listing down is final. Whatever is drafted, edited, published, shared, viewed, asked
  or offered afterwards, by anyone and in any order, it stays archived: it cannot be published
  again or shared, a share link minted before shows nothing and counts no view, and no enquiry and
  no offer comes in on it; each of these is refused without a trace.
\<close>

theorem archived_listing_stays_dark:
  assumes "archiveListing ctx i s = (Inr l, t)"
  shows "let u = market_run hash base es t in archived_in i u \<and>
    (\<exists>e. publishListing ctx' i u = (Inl e, u)) \<and>
    (\<exists>e. createListingShareLink hash' base' token ctx' i u = (Inl e, u)) \<and>
    (\<exists>e. proposeNewTenancyOffer ctx' i inp u = (Inl e, u)) \<and>
    (sl_scopeId link = i \<longrightarrow> (\<exists>e. createEnquiryFromLink link q u = (Inl e, u)) \<and>
       (\<exists>r. getListingForLink link u = (r, u) \<and> (\<forall>v. r \<noteq> Inr (Some v))))"
proof -
  define u where "u = market_run hash base es t"
  have "archived_in i u"
    using dark_run archiveListing_archives [OF assms(1)] by (simp add: u_def stays_dark_def)
  note dark = archived_refused [OF this] archived_takes_nothing [OF this]
  show ?thesis unfolding u_def [symmetric] Let_def
    by (intro conjI impI dark \<open>archived_in i u\<close>; assumption)
qed

subsection \<open>One figure on the table\<close>

definition offers_sound :: "world \<Rightarrow> bool" where
  "offers_sound s \<longleftrightarrow> distinct (map of_id (w_offers s)) \<and> (\<forall>f \<in> set (w_offers s). of_id f < w_next s) \<and>
     (\<forall>i. count_where (\<lambda>f. on_listing i f \<and> open_offer f) (w_offers s) \<le> 1) \<and>
     (\<forall>i. distinct (map of_version (filter (on_listing i) (w_offers s))))"

definition offers_law :: "world \<Rightarrow> world \<Rightarrow> bool" where
  "offers_law s t \<longleftrightarrow> (offers_sound s \<longrightarrow> offers_sound t)"

interpretation offers: step_law offers_law
  by unfold_locales (simp_all add: offers_law_def)

lemma offers_quiet: "keeps (same w_offers) m \<Longrightarrow> keeps extends m \<Longrightarrow> keeps offers_law m"
  unfolding keeps_def same_def extends_def offers_law_def offers_sound_def by (metis less_le_trans)

lemma market_logs:
  "keeps extends (storeReadiness l p)" "keeps extends (update_listing i f)"
  unfolding storeReadiness_def update_listing_def by (intro logs.keeps_intros log_keeps keeps_quiet_write; simp)+

lemma offers_frames:
  "keeps (same w_offers) (createListing ctx p inp)" "keeps (same w_offers) (updateListing ctx i inp2)" "keeps (same w_offers) (publishListing ctx i)"
  "keeps (same w_offers) (archiveListing ctx i)" "keeps (same w_offers) (createListingShareLink hash base token ctx i)"
  "keeps (same w_offers) (getListingForLink link)" "keeps (same w_offers) (createEnquiryFromLink link q)"
  unfolding createListing_def updateListing_def publishListing_def archiveListing_def createListingShareLink_def
    getListingForLink_def createEnquiryFromLink_def storeReadiness_def split_beta
  by (intro frame.keeps_intros frames keeps_same_write; simp)+

lemma market_log_keeps:
  "keeps extends (createListing ctx p inp)" "keeps extends (updateListing ctx i inp2)" "keeps extends (publishListing ctx i)"
  "keeps extends (archiveListing ctx i)" "keeps extends (createListingShareLink hash base token ctx i)"
  "keeps extends (getListingForLink link)" "keeps extends (createEnquiryFromLink link q)"
  unfolding createListing_def updateListing_def publishListing_def archiveListing_def createListingShareLink_def
    getListingForLink_def createEnquiryFromLink_def storeReadiness_def split_beta
  by (intro logs.keeps_intros log_keeps market_logs keeps_quiet_write; simp)+

lemma next_version_fresh:
  assumes "f \<in> set (w_offers s)" "p f"
  shows "of_version f < next_version p s"
proof (cases "pick_max of_version (filter p (w_offers s))")
  case None
  with assms show ?thesis by (auto simp: filter_empty_conv)
next
  case (Some g)
  then show ?thesis using pick_max_Some [OF Some] assms by (auto simp: next_version_def)
qed

definition superseded :: "(offer \<Rightarrow> bool) \<Rightarrow> world \<Rightarrow> world" where
  "superseded p s = s\<lparr>w_offers := upd_where (\<lambda>f. p f \<and> open_offer f) (\<lambda>f. f\<lparr>of_status := O_SUPERSEDED\<rparr>) (w_offers s)\<rparr>"

lemma supersede_eval [op_eval]: "supersede p s = (Inr (), superseded p s)"
  by (simp add: supersede_def superseded_def op_eval)

lemma filter_upd_where: "(\<And>r. q (f r) = q r) \<Longrightarrow> filter q (upd_where p f rows) = upd_where p f (filter q rows)"
  by (induction rows) auto

lemma superseded_sound:
  assumes "offers_sound s"
  shows "offers_sound (superseded p s)"
  using assms
  by (auto simp: offers_sound_def superseded_def map_upd_where set_upd_where filter_upd_where on_listing_def
      intro: order_trans [OF count_where_upd_le] simp: open_offer_def)

lemma none_open: "count_where (\<lambda>f. on_listing i f \<and> open_offer f) (w_offers (superseded (on_listing i) s)) = 0"
  by (auto simp: count_where_0_iff superseded_def set_upd_where open_offer_def)

lemma new_offer_row_keeps [simp]: "of_id (new_offer_row ctx j i now v inp) = j" "of_version (new_offer_row ctx j i now v inp) = v"
  "open_offer (new_offer_row ctx j i now v inp)" "on_listing k (new_offer_row ctx j i now v inp) \<longleftrightarrow> k = i"
  by (auto simp: new_offer_row_def on_listing_def open_offer_def)

lemma proposed_sound:
  assumes "offers_sound s" and s1_def: "s1 = superseded (on_listing i) s"
  shows "offers_sound (s1\<lparr>w_next := Suc (w_next s), w_offers := w_offers s1 @
    [new_offer_row ctx (w_next s) i now (next_version (on_listing i) s1) inp]\<rparr>)"
proof -
  have s1: "offers_sound s1" "w_next s1 = w_next s"
    using superseded_sound assms by (simp_all add: s1_def superseded_def)
  have "count_where (\<lambda>f. on_listing k f \<and> open_offer f)
      (w_offers s1 @ [new_offer_row ctx (w_next s) i now (next_version (on_listing i) s1) inp]) \<le> 1" for k
    using s1(1) none_open [of i s] by (cases "k = i") (simp_all add: offers_sound_def s1_def)
  moreover have "distinct (map of_version (filter (on_listing k)
      (w_offers s1 @ [new_offer_row ctx (w_next s) i now (next_version (on_listing i) s1) inp])))" for k
    using s1(1) next_version_fresh [of _ s1 "on_listing i"] by (fastforce simp: offers_sound_def)
  ultimately show ?thesis
    using s1 by (auto simp: offers_sound_def less_Suc_eq)
qed

lemma offers_parts:
  "keeps offers_law (requireCap ctx c)" "keeps offers_law (getListing ctx i)" "keeps offers_law (recordEvidence e)"
  "keeps offers_law (recordAudit a)"
  by (rule offers_quiet; intro log_keeps frames; simp)+

lemma law_propose: "keeps offers_law (proposeNewTenancyOffer ctx i inp)"
proof -
  have core: "keeps offers_law (thenE (supersede (on_listing i)) (bindE (readE (next_version (on_listing i))) (\<lambda>version.
       bindE getNow (\<lambda>now. bindE newId (\<lambda>j.
       thenE (writeE (\<lambda>s. s\<lparr>w_offers := w_offers s @ [new_offer_row ctx j i now version inp]\<rparr>))
         (rest version j now))))))" (is "keeps _ ?core")
    if rest: "\<And>v j now. keeps offers_law (rest v j now)" for rest :: "int \<Rightarrow> uid \<Rightarrow> time \<Rightarrow> offer svc"
  proof (rule keepsI)
    fix s
    let ?s1 = "superseded (on_listing i) s"
    let ?S = "?s1\<lparr>w_next := Suc (w_next s), w_offers := w_offers ?s1 @
      [new_offer_row ctx (w_next s) i (w_now s) (next_version (on_listing i) ?s1) inp]\<rparr>"
    have same: "w_now ?s1 = w_now s" "w_next ?s1 = w_next s" by (simp_all add: superseded_def)
    have "?core s = rest (next_version (on_listing i) ?s1) (w_next s) (w_now s) ?S"
      by (simp add: bindE_apply op_eval same)
    moreover have "offers_law s ?S" using proposed_sound [OF _ refl] by (simp add: offers_law_def)
    ultimately show "offers_law s (snd (?core s))"
      using rest offers.trans by (simp add: keeps_def)
  qed
  show ?thesis
    unfolding proposeNewTenancyOffer_def split_beta by (intro offers.keeps_intros offers_parts core)
qed

lemma law_accept: "keeps offers_law (acceptNewTenancyOffer ctx j)"
proof -
  have sup: "keeps offers_law (supersede p)" for p
    by (rule keepsI) (simp add: supersede_eval offers_law_def superseded_sound)
  have "keeps offers_law (writeE (\<lambda>s. s\<lparr>w_offers := upd_where (\<lambda>g. of_id g = j) accepted_row (w_offers s)\<rparr>))"
    by (rule keeps_writeE) (auto simp: offers_law_def offers_sound_def map_upd_where set_upd_where filter_upd_where accepted_row_def
      on_listing_def open_offer_def intro: order_trans [OF count_where_upd_le])
  then show ?thesis
    unfolding acceptNewTenancyOffer_def split_beta by (intro offers.keeps_intros offers_parts sup)
qed

lemma offers_step: "offers_law s (market_step hash base e s)"
  using law_propose law_accept offers_quiet [OF offers_frames(1) market_log_keeps(1)] offers_quiet [OF offers_frames(2) market_log_keeps(2)]
    offers_quiet [OF offers_frames(3) market_log_keeps(3)] offers_quiet [OF offers_frames(4) market_log_keeps(4)]
    offers_quiet [OF offers_frames(5) market_log_keeps(5)] offers_quiet [OF offers_frames(6) market_log_keeps(6)]
    offers_quiet [OF offers_frames(7) market_log_keeps(7)]
  by (cases e) (simp_all add: keeps_def)

text \<open>
  C38: one figure is on the table. Whatever is drafted, published, archived, offered and accepted, in
  any order and at any times: a listing has at most one open offer, and no two of its offers carry
  the same version, so that the newest version is the figure both sides see.
\<close>

theorem one_offer_on_the_table:
  assumes "offers_sound s"
  shows "offers_sound (market_run hash base es s)"
  unfolding market_run_def using assms
proof (induction es arbitrary: s)
  case Nil
  then show ?case by simp
next
  case (Cons e es)
  obtain now ev where e: "e = (now, ev)" by fastforce
  have "offers_sound (s\<lparr>w_now := now\<rparr>)" using Cons.prems by (simp add: offers_sound_def)
  then have "offers_sound (market_step hash base ev (s\<lparr>w_now := now\<rparr>))" using offers_step by (simp add: offers_law_def)
  from Cons.IH [OF this] show ?case by (simp add: e)
qed

text \<open>
  accepting looks at neither the status of the offer nor that of the listing. An offer that was
  superseded or withdrawn can be accepted, and one that was accepted before it stays accepted: two
  prospects hold an accepted offer for the same unit.
\<close>

theorem two_accepted_offers:
  assumes "find_offer j s = Some f" "of_listingId f = Some i" "of_workspaceId f = cx_workspaceId ctx"
    and "of_status f = O_SUPERSEDED \<or> of_status f = O_WITHDRAWN"
    and "g \<in> set (w_offers s)" "of_id g \<noteq> j" "on_listing i g" "of_status g = O_ACCEPTED"
    and "hasCapability ctx ''offers.decide''" "getListing ctx i s = (Inr lp, s)"
  shows "\<exists>t. acceptNewTenancyOffer ctx j s = (Inr (accepted_row f), t) \<and> accepted_row f \<in> set (w_offers t) \<and> g \<in> set (w_offers t)"
proof -
  let ?u = "superseded (\<lambda>g. on_listing i g \<and> of_id g \<noteq> j) s"
  let ?v = "?u\<lparr>w_offers := upd_where (\<lambda>g. of_id g = j) accepted_row (w_offers ?u)\<rparr>"
  obtain e x where rest: "recordEvidence (offer_evidence ctx EV_OFFER_ACCEPTED j (ls_propertyId (fst lp))
      (JObj [(''version'', JNum (of_int (of_version f))), (''annualRent'', JNum (of_annualRent f)), (''listingId'', JId i)])) ?v = (Inr e, x)"
    "w_offers x = w_offers ?v"
    by (subst (asm) recordEvidence_eval) (simp_all add: offer_evidence_def evidence_by_def evidenceOf_def)
  obtain y z where audit: "recordAudit (audit_by ctx ''offer.accept'' ''Offer'' (Some j)) x = (Inr y, z)" "w_offers z = w_offers x"
    by (auto simp: recordAudit_def bindE_apply op_eval audit_by_def auditOf_def audit_verb_ok_def verb_char_def)
  have "acceptNewTenancyOffer ctx j s = (Inr (accepted_row f), z)"
    using assms(1-3,9,10) rest(1) audit(1)
    by (simp add: acceptNewTenancyOffer_def bindE_apply op_eval requireCap_def assertE_eval split_beta)
  moreover have "f \<in> set (w_offers s)" "of_id f = j" using assms(1) by (auto simp: find_offer_def dest: find_Some_in)
  then have "f \<in> set (w_offers ?u)" using assms(4) by (auto simp: superseded_def set_upd_where image_iff intro: bexI [of _ f])
  then have "accepted_row f \<in> set (w_offers z)" using \<open>of_id f = j\<close> by (auto simp: audit(2) rest(2) set_upd_where image_iff intro: bexI [of _ f])
  moreover have "g \<in> set (w_offers ?u)" using assms(5,8) by (auto simp: superseded_def set_upd_where image_iff open_offer_def intro: bexI [of _ g])
  then have "g \<in> set (w_offers z)" using assms(6) by (auto simp: audit(2) rest(2) set_upd_where image_iff intro: bexI [of _ g])
  ultimately show ?thesis by blast
qed


subsection \<open>What the gate does not watch\<close>

definition no_permit :: listing_patch where
  "no_permit = \<lparr> lp_headline = None, lp_askingRent = None, lp_availableFrom = None, lp_furnished = None, lp_description = None,
     lp_permitRef = Some None, lp_permitExpiry = None \<rparr>"

lemma unready_without_permit: "ls_permitRef l = None \<Longrightarrow> \<not> rr_canPublish (readinessFor l p)"
  by (simp add: readinessFor_def listingReadiness_def readiness_checks_def has_text_def Let_def)

lemma updateListing_ok:
  assumes "updateListing ctx i inp s = (Inr l, t)"
  obtains l0 p where "find_listing i s = Some l0" "property_of (ls_propertyId l0) s = Some p" "l = scored p (toData inp l0)"
    "find_listing i t = Some l" "w_properties t = w_properties s"
proof -
  obtain l0 p where g: "find_listing i s = Some l0" "property_of (ls_propertyId l0) s = Some p" "getListing ctx i s = (Inr (l0, p), s)"
    using assms unfolding updateListing_def by (auto simp: bindE_ok op_ok requireCap_def)
  let ?s1 = "s\<lparr>w_listings := upd_where (\<lambda>l. ls_id l = i) (toData inp) (w_listings s)\<rparr>"
  have one: "find_listing i ?s1 = Some (toData inp l0)" "ls_id l0 = i"
    using g(1) find_listing_upd [where f = "toData inp" and t = ?s1 and s = s and i = i and j = i] find_listing_in by auto
  let ?mark = "\<lambda>x. x\<lparr>ls_readinessScore := Some (rr_score (readinessFor (toData inp l0) p)),
    ls_readiness := Some (readiness_json (readinessFor (toData inp l0) p))\<rparr>"
  let ?s2 = "?s1\<lparr>w_listings := upd_where (\<lambda>l. ls_id l = i) ?mark (w_listings ?s1)\<rparr>"
  have two: "find_listing i ?s2 = Some (scored p (toData inp l0))"
    using one(1) find_listing_upd [where f = ?mark and t = ?s2 and s = ?s1 and i = i and j = i] by (simp add: scored_def)
  define rest where "rest = thenE (syncListingPermitDeadline (scored p (toData inp l0)))
    (thenE (recordEvidence (listing_evidence ctx EV_LISTING_UPDATED i (ls_propertyId (scored p (toData inp l0)))
            (Some (JObj [(''readinessScore'', jopt (JNum \<circ> of_int) (ls_readinessScore (scored p (toData inp l0))))]))))
          (ret (scored p (toData inp l0))))"
  have run: "rest ?s2 = (Inr l, t)"
    using assms g(3) one unfolding updateListing_def rest_def
    by (simp add: bindE_apply op_eval requireCap_def assertE_eval update_listing_def storeReadiness_def split: if_splits)
  have "keeps (same w_listings) rest" "keeps (same w_properties) rest"
    unfolding rest_def by (intro frame.keeps_intros frames; simp)+
  from this [THEN sameD, OF run] have "w_listings t = w_listings ?s2" "w_properties t = w_properties s" by simp_all
  moreover have "l = scored p (toData inp l0)" using run unfolding rest_def by (auto simp: bindE_ok op_ok)
  ultimately show thesis using that [OF g(1,2)] two by (simp add: find_listing_def)
qed

text \<open>
  the gate is checked when a listing is published and never again. Clearing the permit of a
  published listing leaves it published and visible behind its share links, with a readiness that
  would refuse it: an advertisement without the permit it was let through for.
\<close>

theorem published_listing_unready:
  assumes "updateListing ctx i no_permit s = (Inr l, t)" "find_listing i s = Some l0" "ls_status l0 = L_PUBLISHED"
    and "sl_purpose link = LP_LISTING_VIEW" "sl_scopeType link = S_LISTING" "sl_scopeId link = i"
  shows "ls_status l = L_PUBLISHED \<and> (\<exists>p. property_of (ls_propertyId l) t = Some p \<and> \<not> rr_canPublish (readinessFor l p)) \<and>
    (\<exists>v. fst (getListingForLink link t) = Inr (Some v))"
proof -
  obtain p where l: "property_of (ls_propertyId l0) s = Some p" "l = scored p (toData no_permit l0)"
    "find_listing i t = Some l" "w_properties t = w_properties s"
    by (rule updateListing_ok [OF assms(1)]) (use assms(2) in auto)
  have home: "ls_propertyId l = ls_propertyId l0" "property_of (ls_propertyId l0) t = Some p"
    using l by (simp_all add: scored_def property_of_def)
  have "\<not> (ei_actorType (viewed_evidence link l) \<in> {A_USER, A_STAFF} \<and> ei_actorId (viewed_evidence link l) = None)"
    by (simp add: viewed_evidence_def evidenceOf_def)
  then have "\<exists>v. fst (getListingForLink link t) = Inr (Some v)"
    using assms(4-6) l(3) home assms(3)
    by (simp add: getListingForLink_def bindE_apply op_eval recordEvidence_eval consumeLinkUse_eq l(2))
  moreover have "ls_permitRef l = None" by (simp add: l(2) scored_def toData_def no_permit_def or_else_def)
  ultimately show ?thesis using assms(3) home unready_without_permit by (simp add: l(2))
qed

subsection \<open>A sample market\<close>

definition sample_listing :: listing where
  "sample_listing = \<lparr> ls_id = 71, ls_workspaceId = 5, ls_propertyId = 41, ls_status = L_PUBLISHED, ls_headline = None,
     ls_askingRent = Some 90000, ls_availableFrom = None, ls_furnished = None, ls_description = None, ls_permitRef = Some ''P'',
     ls_permitExpiry = None, ls_readinessScore = None, ls_readiness = None, ls_publishedAt = Some 0, ls_createdById = 1,
     ls_createdAt = 0, ls_archivedAt = None \<rparr>"

definition market_world :: world where
  "market_world = sample_world\<lparr>w_listings := [sample_listing], w_offers := [], w_deadlines := []\<rparr>"

theorem archived_listing_stays_dark_witness:
  "\<exists>t. archiveListing (sample_ctx FIDUCIARY) 71 market_world = (Inr (shelved 0 sample_listing), t) \<and>
     archived_in 71 (market_run id [] [(1, Publish (sample_ctx FIDUCIARY) 71)] t)"
proof -
  let ?ctx = "sample_ctx FIDUCIARY"
  have rows: "find_listing 71 market_world = Some sample_listing" "property_of 41 market_world = Some sample_property"
    "w_deadlines market_world = []" "w_now market_world = 0"
    by (simp_all add: find_listing_def property_of_def market_world_def sample_listing_def)
      (simp_all add: sample_world_def sample_users_def empty_world_def sample_property_def)
  have caps: "hasCapability ?ctx ''listings.read''" "hasCapability ?ctx ''listings.write''" by (simp_all add: hasCapability_def sample_ctx_def roleHas_def CAPABILITIES_def PEOPLE_ADMIN_def)
  have get: "getListing ?ctx 71 market_world = (Inr (sample_listing, sample_property), market_world)"
    using rows caps by (simp add: getListing_ok) (simp add: sample_listing_def rows assertReadable_def sample_ctx_def persona_contact_def isPersonaRole_def isDelegateRole_def)
  have dead: "\<not> permit_live (shelved now l)" for now l by (simp add: permit_live_def)
  obtain t where t: "archiveListing ?ctx 71 market_world = (Inr (shelved 0 sample_listing), t)"
    by (simp add: archiveListing_def bindE_apply op_eval requireCap_def assertE_eval caps get rows update_listing_def
      recordEvidence_eval [OF listing_evidence_ok] syncListingPermitDeadline_def dead)
  from archived_listing_stays_dark [OF t, of id "[]" "[(1, Publish (sample_ctx FIDUCIARY) 71)]"] t show ?thesis
    unfolding Let_def by blast
qed

theorem one_offer_on_the_table_witness:
  "offers_sound (market_run id [] [(1, Propose (sample_ctx FIDUCIARY) 71 \<lparr> no_party = OP_LANDLORD, no_annualRent = 90000,
     no_paymentSchedule = ''4'', no_paymentMethod = None, no_termMonths = None, no_startDate = None, no_note = None,
     no_prospectContactId = None \<rparr>)] market_world)"
proof -
  have "offers_sound market_world" by (simp add: offers_sound_def market_world_def)
  from one_offer_on_the_table [OF this] show ?thesis .
qed

end
