(* ===== verification/Alerts.thy ===== *)
theory Alerts
  imports Renewals
begin

text \<open>
  \<open>services/alerts.ts\<close>: the reminder ladders. A daily run walks the open deadlines of a workspace
  and sends the rungs that fall on today. \<open>num\<close> and \<open>fdate\<close> stand for the runtime's ICU formatting.
\<close>

subsection \<open>The ladders\<close>

type_synonym rung = "int \<times> string"

definition LADDERS :: "(string \<times> deadlineKind list \<times> rung list) list" where
  "LADDERS =
     [(''notice_gate_v1'', [DK_NOTICE_GATE], [(120, ''T-120''), (100, ''T-100''), (95, ''T-95''), (3, ''72h-in-window'')]),
      (''cheque_v1'', [DK_CHEQUE_DUE], [(7, ''T-7''), (0, ''due''), (-3, ''T+3'')]),
      (''listing_permit_v1'', [DK_PERMIT_EXPIRY], [(60, ''T-60''), (30, ''T-30''), (7, ''T-7'')])]"

subsection \<open>One reminder\<close>

definition deadline_tenancy :: "deadline \<Rightarrow> world \<Rightarrow> tenancy option" where
  "deadline_tenancy d s = Option.bind (dl_tenancyId d) (\<lambda>i. List.find (\<lambda>t. tn_id t = i) (w_tenancies s))"

definition deadline_unit :: "deadline \<Rightarrow> world \<Rightarrow> property option" where
  "deadline_unit d s = (case Option.bind (deadline_tenancy d s) (\<lambda>t. property_of (tn_propertyId t) s) of
     Some p \<Rightarrow> Some p
   | None \<Rightarrow> Option.bind (dl_propertyId d) (\<lambda>i. property_of i s))"

definition unit_text :: "property option \<Rightarrow> string" where
  "unit_text p = (case p of None \<Rightarrow> ''your portfolio''
     | Some x \<Rightarrow> js_trim (pr_community x @ '' '' @ (case pr_unitNo x of None \<Rightarrow> [] | Some u \<Rightarrow> u)))"

definition ev_scope :: "deadline \<Rightarrow> scopeType \<times> uid" where
  "ev_scope d = (case dl_tenancyId d of Some t \<Rightarrow> (S_TENANCY, t)
     | None \<Rightarrow> (S_PROPERTY, case dl_propertyId d of Some p \<Rightarrow> p | None \<Rightarrow> dl_id d))"

text \<open>The search for a reminder already sent.\<close>

definition reminded :: "uid \<Rightarrow> deadline \<Rightarrow> string \<Rightarrow> evidence_event \<Rightarrow> bool" where
  "reminded ws d code e \<longleftrightarrow> ev_workspaceId e = ws \<and> ev_type e = EV_REMINDER_SENT \<and> ev_scopeType e = fst (ev_scope d) \<and>
     ev_scopeId e = Some (snd (ev_scope d)) \<and>
     (case ev_payload e of None \<Rightarrow> False
      | Some p \<Rightarrow> jget p ''deadlineId'' = Some (JId (dl_id d)) \<and> jget p ''rung'' = Some (JStr code))"

definition aed :: "(int \<Rightarrow> string) \<Rightarrow> rat \<Rightarrow> string" where
  "aed num n = ''AED '' @ num (js_round n)"

text \<open>What the notice gate ladder adds when an index resolves: the suffixes of the subject and the body.\<close>

definition at_stake :: "(int \<Rightarrow> string) \<Rightarrow> (time \<Rightarrow> string) \<Rightarrow> uid \<Rightarrow> string \<Rightarrow> deadline \<Rightarrow> world \<Rightarrow> error + (string \<times> string)" where
  "at_stake num fdate ws template d s =
     (case (if template = ''notice_gate_v1'' then deadline_tenancy d s else None) of
        None \<Rightarrow> Inr ([], [])
      | Some t \<Rightarrow>
          (case resolveEffectiveIndex ws (tn_id t) (property_of (tn_propertyId t) s) s of
             None \<Rightarrow> Inr ([], [])
           | Some eff \<Rightarrow>
               map_sum id (\<lambda>pos.
                 (em_dash @ ''est. '' @ aed num (rp_valueAtRisk pos) @ ''/yr at stake'',
                  nl @ nl @ ''Index-based ceiling estimate: '' @ aed num (rp_ceiling pos) @ ''.'' @ nl @
                  ''Estimated '' @ aed num (rp_valueAtRisk pos) @ ''/yr at risk if a valid renewal notice is not served by '' @
                  formatDubaiDate fdate (dl_dueAt d) @ ''. Based on supplied data and the captured index (source captured '' @
                  formatDubaiDate fdate (ef_capturedAt eff) @ ''). Review before action'' @ em_dash @
                  ''record-keeping assistance, not legal advice.''))
                 (decree43 (tn_annualRent t) (ef_marketRentAvg eff))))"

definition kind_code :: "deadlineKind \<Rightarrow> string" where
  "kind_code k = map (\<lambda>c. if c = CHR '' '' then CHR ''_'' else c) (kind_words k)"

definition reminder ::
    "(time \<Rightarrow> string) \<Rightarrow> uid \<Rightarrow> uid list \<Rightarrow> string \<Rightarrow> string \<Rightarrow> deadline \<Rightarrow> property option \<Rightarrow> string \<times> string \<Rightarrow> record_input" where
  "reminder fdate ws overseers template code d p sfx =
     \<lparr> ri_ws = ws, ri_template = template,
       ri_subj = kind_words (dl_kind d) @ em_dash @ unit_text p @ em_dash @ formatDubaiDate fdate (dl_dueAt d) @ fst sfx,
       ri_body = ''Deadline reminder ('' @ code @ '').'' @ nl @ nl @ ''Kind: '' @ kind_code (dl_kind d) @ nl @
         ''Property: '' @ unit_text p @ nl @ ''Due: '' @ formatDubaiDate fdate (dl_dueAt d) @ nl @ nl @
         ''Review before action. This is record-keeping assistance, not legal advice.'' @ snd sfx,
       ri_recipients = overseers, ri_urgent = (code = ''72h-in-window''),
       ri_relType = Some (fst (ev_scope d)), ri_relId = Some (snd (ev_scope d)) \<rparr>"

definition reminder_evidence :: "uid \<Rightarrow> string \<Rightarrow> string \<Rightarrow> deadline \<Rightarrow> evidence_input" where
  "reminder_evidence ws template code d =
     (evidenceOf ws EV_REMINDER_SENT A_SYSTEM None (fst (ev_scope d)) (Some (snd (ev_scope d))))
       \<lparr>ei_tenancyId := dl_tenancyId d, ei_propertyId := dl_propertyId d,
        ei_payload := Some (JObj [(''deadlineId'', JId (dl_id d)), (''rung'', JStr code), (''template'', JStr template)])\<rparr>"

subsection \<open>A run\<close>

text \<open>The number a loop has sent.\<close>

primrec sumE :: "'x list \<Rightarrow> ('x \<Rightarrow> ('s, nat) op) \<Rightarrow> ('s, nat) op" where
  "sumE [] f = ret 0"
| "sumE (x # xs) f = bindE (f x) (\<lambda>a. bindE (sumE xs f) (\<lambda>b. ret (a + b)))"

definition send_rung ::
    "(int \<Rightarrow> string) \<Rightarrow> (time \<Rightarrow> string) \<Rightarrow> uid \<Rightarrow> uid list \<Rightarrow> time \<Rightarrow> string \<Rightarrow> deadline \<Rightarrow> rung \<Rightarrow> nat svc" where
  "send_rung num fdate ws overseers today template d r =
     (if daysBetween today (dl_dueAt d) \<noteq> fst r then ret 0
      else bindE (readE (\<lambda>s. \<exists>e \<in> set (w_evidence s). reminded ws d (snd r) e)) (\<lambda>already.
        if already then ret 0
        else bindE (readE (at_stake num fdate ws template d)) (\<lambda>x.
          bindE (liftE x) (\<lambda>sfx.
          bindE (readE (deadline_unit d)) (\<lambda>p.
          thenE (recordNotification (reminder fdate ws overseers template (snd r) d p sfx))
          (thenE (recordEvidence (reminder_evidence ws template (snd r) d)) (ret 1)))))))"

definition laddered :: "uid \<Rightarrow> deadlineKind list \<Rightarrow> deadline \<Rightarrow> bool" where
  "laddered ws kinds d \<longleftrightarrow> dl_workspaceId d = ws \<and> dl_status d = DL_OPEN \<and> dl_kind d \<in> set kinds"

definition runAlertLadders :: "(int \<Rightarrow> string) \<Rightarrow> (time \<Rightarrow> string) \<Rightarrow> uid \<Rightarrow> nat svc" where
  "runAlertLadders num fdate ws =
     bindE getNow (\<lambda>now.
     bindE (readE (workspaceOverseers ws)) (\<lambda>overseers.
     if overseers = [] then ret 0
     else sumE LADDERS (\<lambda>(template, kinds, rungs).
       bindE (readE (\<lambda>s. filter (laddered ws kinds) (w_deadlines s))) (\<lambda>deadlines.
       sumE deadlines (\<lambda>d. sumE rungs (send_rung num fdate ws overseers (todayInDubai now) template d))))))"

subsection \<open>What a run sends\<close>

type_synonym reminder_key = "string \<times> deadline \<times> string"

text \<open>The reference: the rungs of the open deadlines that fall on the day, in the order of the ladders.\<close>

definition rungs_today :: "time \<Rightarrow> string \<Rightarrow> rung list \<Rightarrow> deadline \<Rightarrow> reminder_key list" where
  "rungs_today today template rungs d =
     map (\<lambda>r. (template, d, snd r)) (filter (\<lambda>r. daysBetween today (dl_dueAt d) = fst r) rungs)"

definition schedule :: "uid \<Rightarrow> time \<Rightarrow> deadline list \<Rightarrow> reminder_key list" where
  "schedule ws today ds = concat (map (\<lambda>(template, kinds, rungs).
     concat (map (rungs_today today template rungs) (filter (laddered ws kinds) ds))) LADDERS)"

definition key_of :: "reminder_key \<Rightarrow> uid \<times> string" where
  "key_of k = (case k of (template, d, code) \<Rightarrow> (dl_id d, code))"

definition unsent :: "uid \<Rightarrow> world \<Rightarrow> reminder_key \<Rightarrow> bool" where
  "unsent ws s k = (case k of (template, d, code) \<Rightarrow> \<not> (\<exists>e \<in> set (w_evidence s). reminded ws d code e))"

definition reminder_for :: "uid \<Rightarrow> time \<Rightarrow> evidence_event \<Rightarrow> reminder_key \<Rightarrow> bool" where
  "reminder_for ws now e k = (case k of (template, d, code) \<Rightarrow> \<exists>j. e = evidence_row j now (reminder_evidence ws template code d))"

text \<open>
  The feed: the in-app messages, the link to an e-mail copy left out. One reminder puts one item
  with its subject and text in the feed of each overseer of the workspace.
\<close>

definition bare :: "notification_message \<Rightarrow> notification_message" where
  "bare m = m\<lparr>nm_emailMessageId := None\<rparr>"

definition inapp_feed :: "world \<Rightarrow> notification_message list" where
  "inapp_feed s = map bare (filter (\<lambda>m. nm_channel m = CH_INAPP) (w_messages s))"

definition feed_item :: "record_input \<Rightarrow> time \<Rightarrow> notification_message \<Rightarrow> uid \<Rightarrow> bool" where
  "feed_item inp now m u \<longleftrightarrow> (\<exists>i category. categoryForTemplate (ri_template inp) = Some category \<and>
     m = message_row i now (recipient_message inp category CH_INAPP u))"

definition announces ::
    "(int \<Rightarrow> string) \<Rightarrow> (time \<Rightarrow> string) \<Rightarrow> uid \<Rightarrow> world \<Rightarrow> notification_message list \<Rightarrow> reminder_key \<Rightarrow> bool" where
  "announces num fdate ws s items k = (case k of (template, d, code) \<Rightarrow>
     \<exists>sfx. at_stake num fdate ws template d s = Inr sfx \<and>
       list_all2 (feed_item (reminder fdate ws (workspaceOverseers ws s) template code d (deadline_unit d s) sfx) (w_now s))
         items (workspaceOverseers ws s))"

text \<open>What the reminders are made from.\<close>

definition material :: "(int \<Rightarrow> string) \<Rightarrow> (time \<Rightarrow> string) \<Rightarrow> uid \<Rightarrow> world \<Rightarrow>
    deadline list \<times> time \<times> uid list \<times> (string \<Rightarrow> deadline \<Rightarrow> error + (string \<times> string)) \<times> (deadline \<Rightarrow> property option)" where
  "material num fdate ws s = (w_deadlines s, w_now s, workspaceOverseers ws s,
     (\<lambda>template d. at_stake num fdate ws template d s), (\<lambda>d. deadline_unit d s))"

lemma material_frame [simp]:
  "material num fdate ws (s\<lparr>w_next := n\<rparr>) = material num fdate ws s"
  "material num fdate ws (s\<lparr>w_messages := ms\<rparr>) = material num fdate ws s"
  "material num fdate ws (s\<lparr>w_outbox := ob\<rparr>) = material num fdate ws s"
  "material num fdate ws (s\<lparr>w_evidence := ev\<rparr>) = material num fdate ws s"
proof -
  have rows: "deadline_tenancy d (s\<lparr>w_next := n\<rparr>) = deadline_tenancy d s"
    "property_of i (s\<lparr>w_next := n\<rparr>) = property_of i s"
    "resolveBenchmark w c b (s\<lparr>w_next := n\<rparr>) = resolveBenchmark w c b s"
    "workspaceOverseers w (s\<lparr>w_next := n\<rparr>) = workspaceOverseers w s"
    "deadline_tenancy d (s\<lparr>w_messages := ms\<rparr>) = deadline_tenancy d s"
    "property_of i (s\<lparr>w_messages := ms\<rparr>) = property_of i s"
    "resolveBenchmark w c b (s\<lparr>w_messages := ms\<rparr>) = resolveBenchmark w c b s"
    "workspaceOverseers w (s\<lparr>w_messages := ms\<rparr>) = workspaceOverseers w s"
    "deadline_tenancy d (s\<lparr>w_outbox := ob\<rparr>) = deadline_tenancy d s"
    "property_of i (s\<lparr>w_outbox := ob\<rparr>) = property_of i s"
    "resolveBenchmark w c b (s\<lparr>w_outbox := ob\<rparr>) = resolveBenchmark w c b s"
    "workspaceOverseers w (s\<lparr>w_outbox := ob\<rparr>) = workspaceOverseers w s"
    "deadline_tenancy d (s\<lparr>w_evidence := ev\<rparr>) = deadline_tenancy d s"
    "property_of i (s\<lparr>w_evidence := ev\<rparr>) = property_of i s"
    "resolveBenchmark w c b (s\<lparr>w_evidence := ev\<rparr>) = resolveBenchmark w c b s"
    "workspaceOverseers w (s\<lparr>w_evidence := ev\<rparr>) = workspaceOverseers w s" for d i w c b s n ms ob ev
    by (simp_all add: deadline_tenancy_def property_of_def resolveBenchmark_def workspaceOverseers_def)
  have index: "resolveEffectiveIndex w i p (s\<lparr>w_next := n\<rparr>) = resolveEffectiveIndex w i p s"
    "deadline_unit d (s\<lparr>w_next := n\<rparr>) = deadline_unit d s"
    "resolveEffectiveIndex w i p (s\<lparr>w_messages := ms\<rparr>) = resolveEffectiveIndex w i p s"
    "deadline_unit d (s\<lparr>w_messages := ms\<rparr>) = deadline_unit d s"
    "resolveEffectiveIndex w i p (s\<lparr>w_outbox := ob\<rparr>) = resolveEffectiveIndex w i p s"
    "deadline_unit d (s\<lparr>w_outbox := ob\<rparr>) = deadline_unit d s"
    "resolveEffectiveIndex w i p (s\<lparr>w_evidence := ev\<rparr>) = resolveEffectiveIndex w i p s"
    "deadline_unit d (s\<lparr>w_evidence := ev\<rparr>) = deadline_unit d s" for w i p d s n ms ob ev
    by (simp_all add: resolveEffectiveIndex_def deadline_unit_def rows split: option.split)
  have stake: "at_stake num fdate w template d (s\<lparr>w_next := n\<rparr>) = at_stake num fdate w template d s"
    "at_stake num fdate w template d (s\<lparr>w_messages := ms\<rparr>) = at_stake num fdate w template d s"
    "at_stake num fdate w template d (s\<lparr>w_outbox := ob\<rparr>) = at_stake num fdate w template d s"
    "at_stake num fdate w template d (s\<lparr>w_evidence := ev\<rparr>) = at_stake num fdate w template d s" for w template d s n ms ob ev
    by (simp_all add: at_stake_def rows index cong: option.case_cong)
  show "material num fdate ws (s\<lparr>w_next := n\<rparr>) = material num fdate ws s"
    "material num fdate ws (s\<lparr>w_messages := ms\<rparr>) = material num fdate ws s"
    "material num fdate ws (s\<lparr>w_outbox := ob\<rparr>) = material num fdate ws s"
    "material num fdate ws (s\<lparr>w_evidence := ev\<rparr>) = material num fdate ws s"
    by (simp_all add: material_def rows index stake)
qed

lemma material_announces:
  "material num fdate ws t = material num fdate ws s \<Longrightarrow> announces num fdate ws t = announces num fdate ws s"
  by (simp add: material_def fun_eq_iff announces_def split: prod.split)

definition sends ::
    "(int \<Rightarrow> string) \<Rightarrow> (time \<Rightarrow> string) \<Rightarrow> uid \<Rightarrow> reminder_key list \<Rightarrow> world \<Rightarrow> nat \<Rightarrow> world \<Rightarrow> bool" where
  "sends num fdate ws ks s n t \<longleftrightarrow> material num fdate ws t = material num fdate ws s \<and>
     (\<exists>rows items. w_evidence t = w_evidence s @ rows \<and> n = length rows \<and>
        list_all2 (reminder_for ws (w_now s)) rows (filter (unsent ws s) ks) \<and>
        inapp_feed t = inapp_feed s @ concat items \<and>
        list_all2 (announces num fdate ws s) items (filter (unsent ws s) ks))"

subsection \<open>The feed items of a notification\<close>

lemma bare_upd: "map bare (filter (\<lambda>m. nm_channel m = CH_INAPP) (upd_where p (\<lambda>m. m\<lparr>nm_emailMessageId := e\<rparr>) rows)) =
    map bare (filter (\<lambda>m. nm_channel m = CH_INAPP) rows)"
  by (induction rows) (auto simp: bare_def)

lemma notify_feed:
  assumes "notify inp s = (Inr i, t)"
  shows "inapp_feed t = inapp_feed s @ (if ni_channel inp = CH_INAPP then [message_row i (w_now s) inp] else [])" and "w_now t = w_now s"
proof -
  show "inapp_feed t = inapp_feed s @ (if ni_channel inp = CH_INAPP then [message_row i (w_now s) inp] else [])"
    using notify_ok(2) [OF assms] by (simp add: inapp_feed_def message_row_def bare_def)
  have "keeps (same w_now) (notify inp)" by (intro frames; simp)
  from sameD [OF this assms] show "w_now t = w_now s" .
qed

lemma notify_one_feed:
  assumes "notify_one inp category prefs u s = (Inr (), t)" and c: "categoryForTemplate (ri_template inp) = Some category"
  shows "w_now t = w_now s \<and> (\<exists>m. inapp_feed t = inapp_feed s @ [m] \<and> feed_item inp (w_now s) m u)"
proof -
  obtain i s1 where f: "notify (recipient_message inp category CH_INAPP u) s = (Inr i, s1)"
    and rest: "whenE (send_now inp (prefs u category))
       (bindE (notify (recipient_message inp category CH_EMAIL u)) (\<lambda>email.
          writeE (\<lambda>s. s\<lparr>w_messages := upd_where (\<lambda>m. nm_id m = i)
            (\<lambda>m. m\<lparr>nm_emailMessageId := Some email\<rparr>) (w_messages s)\<rparr>))) s1 = (Inr (), t)"
    using assms(1) by (auto simp: notify_one_def bindE_ok)
  have s1: "w_now s1 = w_now s \<and> (\<exists>m. inapp_feed s1 = inapp_feed s @ [m] \<and> feed_item inp (w_now s) m u)"
    using notify_feed [OF f] c by (auto simp: feed_item_def recipient_message_def)
  show ?thesis
  proof (cases "send_now inp (prefs u category)")
    case True
    then obtain e s2 where e: "notify (recipient_message inp category CH_EMAIL u) s1 = (Inr e, s2)"
      and t: "t = s2\<lparr>w_messages := upd_where (\<lambda>m. nm_id m = i) (\<lambda>m. m\<lparr>nm_emailMessageId := Some e\<rparr>) (w_messages s2)\<rparr>"
      using rest by (auto simp: op_ok)
    have "inapp_feed t = inapp_feed s2" by (simp add: t inapp_feed_def bare_upd)
    then show ?thesis using notify_feed [OF e] s1 by (simp add: t recipient_message_def)
  next
    case False
    then show ?thesis using rest s1 by (simp add: op_ok)
  qed
qed

lemma notify_loop_feed:
  assumes "forE us (notify_one inp category prefs) s = (Inr (), t)" and "categoryForTemplate (ri_template inp) = Some category"
  shows "\<exists>items. inapp_feed t = inapp_feed s @ items \<and> list_all2 (feed_item inp (w_now s)) items us"
  using assms(1)
proof (induction us arbitrary: s)
  case Nil
  then show ?case by (simp add: op_ok)
next
  case (Cons u us)
  then obtain s1 where h: "notify_one inp category prefs u s = (Inr (), s1)"
    and r: "forE us (notify_one inp category prefs) s1 = (Inr (), t)" by (auto simp: bindE_ok)
  obtain m where m: "inapp_feed s1 = inapp_feed s @ [m]" "feed_item inp (w_now s) m u" "w_now s1 = w_now s"
    using notify_one_feed [OF h assms(2)] by blast
  from Cons.IH [OF r] obtain items where "inapp_feed t = inapp_feed s1 @ items" "list_all2 (feed_item inp (w_now s1)) items us" by blast
  with m show ?case by (intro exI [of _ "m # items"]) simp
qed

lemma unique_distinct: "distinct xs \<Longrightarrow> unique xs = xs"
  by (simp add: unique_def distinct_remdups_id)

lemma record_feed:
  assumes run: "recordNotification inp s = (Inr (), t)" and "distinct (ri_recipients inp)"
  shows "\<exists>items. inapp_feed t = inapp_feed s @ items \<and> list_all2 (feed_item inp (w_now s)) items (ri_recipients inp)"
proof (cases "ri_recipients inp = []")
  case True
  then show ?thesis using run by (simp add: recordNotification_def unique_def op_ok)
next
  case False
  have u: "unique (ri_recipients inp) = ri_recipients inp" using assms(2) by (rule unique_distinct)
  obtain c where c: "categoryForTemplate (ri_template inp) = Some c"
    and loop: "forE (ri_recipients inp) (notify_one inp c (loadPreferenceMap (ri_ws inp) (ri_recipients inp) s)) s = (Inr (), t)"
    using run False unfolding recordNotification_def Let_def notify_one_def [abs_def] u by (auto simp: op_ok)
  from notify_loop_feed [OF loop c] show ?thesis .
qed

lemma overseers_distinct: "distinct (workspaceOverseers ws s)"
  by (simp add: workspaceOverseers_def)

subsection \<open>A run against the schedule\<close>

lemma reminded_row: "reminder_for ws now e (template, d, code) \<Longrightarrow> reminded ws d code e"
  by (auto simp: reminder_for_def reminded_def evidence_row_def reminder_evidence_def evidenceOf_def)

lemma reminded_key: "reminder_for ws now e k \<Longrightarrow> reminded ws d code e \<Longrightarrow> key_of k = (dl_id d, code)"
  by (cases k) (auto simp: reminder_for_def reminded_def evidence_row_def reminder_evidence_def evidenceOf_def key_of_def)

lemma list_all2_in: "list_all2 P xs ys \<Longrightarrow> x \<in> set xs \<Longrightarrow> \<exists>y \<in> set ys. P x y"
  by (induction rule: list_all2_induct) auto

lemma sends_append:
  assumes "sends num fdate ws ks s n t" "sends num fdate ws ls t m u" "set (map key_of ks) \<inter> set (map key_of ls) = {}"
  shows "sends num fdate ws (ks @ ls) s (n + m) u"
proof -
  obtain rows items where r: "w_evidence t = w_evidence s @ rows" "n = length rows"
    "list_all2 (reminder_for ws (w_now s)) rows (filter (unsent ws s) ks)"
    "inapp_feed t = inapp_feed s @ concat items" "list_all2 (announces num fdate ws s) items (filter (unsent ws s) ks)"
    using assms(1) unfolding sends_def by blast
  have view: "material num fdate ws t = material num fdate ws s" "material num fdate ws u = material num fdate ws t"
    using assms(1,2) by (simp_all add: sends_def)
  have now: "w_now t = w_now s" using view(1) by (simp add: material_def)
  obtain rows2 items2 where r2: "w_evidence u = w_evidence t @ rows2" "m = length rows2"
    "list_all2 (reminder_for ws (w_now s)) rows2 (filter (unsent ws t) ls)"
    "inapp_feed u = inapp_feed t @ concat items2" "list_all2 (announces num fdate ws s) items2 (filter (unsent ws t) ls)"
    using assms(2) unfolding sends_def now material_announces [OF view(1)] by blast
  have "unsent ws t k \<longleftrightarrow> unsent ws s k" if k: "k \<in> set ls" for k
  proof -
    obtain template d code where e: "k = (template, d, code)" by (cases k)
    have "\<not> reminded ws d code e" if row: "e \<in> set rows" for e
    proof
      assume "reminded ws d code e"
      moreover obtain k' where "k' \<in> set ks" "reminder_for ws (w_now s) e k'"
        using list_all2_in [OF r(3) row] by auto
      ultimately have "key_of k' = key_of k" using reminded_key e by (simp add: key_of_def)
      then show False using assms(3) k \<open>k' \<in> set ks\<close> by (metis disjoint_iff image_eqI list.set_map)
    qed
    then show ?thesis by (auto simp: e unsent_def r(1))
  qed
  then have same: "filter (unsent ws t) ls = filter (unsent ws s) ls" by (rule filter_cong [OF refl])
  have "list_all2 (reminder_for ws (w_now s)) (rows @ rows2) (filter (unsent ws s) (ks @ ls))"
    using r(3) r2(3) same by (simp add: list_all2_appendI)
  moreover have "list_all2 (announces num fdate ws s) (items @ items2) (filter (unsent ws s) (ks @ ls))"
    using r(5) r2(5) same by (simp add: list_all2_appendI)
  moreover have "inapp_feed u = inapp_feed s @ concat (items @ items2)" using r(4) r2(4) by simp
  ultimately show ?thesis using view r(1,2) r2(1,2) unfolding sends_def
    by (intro conjI exI [of _ "rows @ rows2"] exI [of _ "items @ items2"]) simp_all
qed

lemma sends_nothing: "sends num fdate ws [] s 0 s"
  by (simp add: sends_def)

lemma sumE_sends:
  assumes "sumE xs f s = (Inr n, t)" and "distinct (map key_of (concat (map g xs)))"
    and "\<And>x s n t. x \<in> set xs \<Longrightarrow> material num fdate ws s = v \<Longrightarrow> f x s = (Inr n, t) \<Longrightarrow> sends num fdate ws (g x) s n t"
    and "material num fdate ws s = v"
  shows "sends num fdate ws (concat (map g xs)) s n t"
  using assms
proof (induction xs arbitrary: s n)
  case Nil
  then show ?case using sends_nothing by (simp add: ret_def)
next
  case (Cons x xs)
  obtain a b u where step: "f x s = (Inr a, u)" "sumE xs f u = (Inr b, t)" "n = a + b"
    using Cons.prems(1) by (auto simp: bindE_ok op_ok)
  have one: "sends num fdate ws (g x) s a u" using Cons.prems(3,4) step(1) by simp
  moreover have "material num fdate ws u = v" using one Cons.prems(4) by (simp add: sends_def)
  then have "sends num fdate ws (concat (map g xs)) u b t"
    using Cons.IH [OF step(2)] Cons.prems(2,3) by simp
  ultimately show ?case using sends_append Cons.prems(2) step(3) by simp
qed

lemma send_rung_sends:
  assumes run: "send_rung num fdate ws overseers today template d r s = (Inr n, t)" and o: "overseers = workspaceOverseers ws s"
  shows "sends num fdate ws (rungs_today today template [r] d) s n t"
proof (cases "daysBetween today (dl_dueAt d) = fst r \<and> unsent ws s (template, d, snd r)")
  case False
  then have "t = s \<and> n = 0" using run by (auto simp: send_rung_def unsent_def bindE_apply op_eval split: if_splits)
  then show ?thesis using False by (auto simp: sends_def rungs_today_def)
next
  case True
  obtain sfx u where sfx: "at_stake num fdate ws template d s = Inr sfx"
    and msg: "recordNotification (reminder fdate ws overseers template (snd r) d (deadline_unit d s) sfx) s = (Inr (), u)"
    and rest: "thenE (recordEvidence (reminder_evidence ws template (snd r) d)) (ret 1) u = (Inr n, t)"
    using run True by (auto simp: send_rung_def unsent_def bindE_ok op_ok split: if_splits)
  have same: "w_evidence u = w_evidence s" "material num fdate ws u = material num fdate ws s" "w_now u = w_now s"
    using msg by (rule sameD [rotated], intro frames; simp)+
  let ?inp = "reminder fdate ws overseers template (snd r) d (deadline_unit d s) sfx"
  obtain items where items: "inapp_feed u = inapp_feed s @ items" "list_all2 (feed_item ?inp (w_now s)) items overseers"
    using record_feed [OF msg] o overseers_distinct by (auto simp: reminder_def)
  have t: "w_evidence t = w_evidence s @ [evidence_row (w_next u) (w_now s) (reminder_evidence ws template (snd r) d)] \<and>
      inapp_feed t = inapp_feed u \<and> material num fdate ws t = material num fdate ws u \<and> n = 1"
    using rest same by (auto simp: bindE_ok op_ok inapp_feed_def)
  have "announces num fdate ws s items (template, d, snd r)"
    unfolding announces_def prod.case o [symmetric] using sfx items(2) by blast
  then show ?thesis unfolding sends_def using True t same items(1)
    by (intro conjI exI [of _ "[evidence_row (w_next u) (w_now s) (reminder_evidence ws template (snd r) d)]"] exI [of _ "[items]"])
      (auto simp: rungs_today_def reminder_for_def)
qed

lemma key_of_rungs: "map key_of (rungs_today today template rungs d) = map (\<lambda>r. (dl_id d, snd r)) (filter (\<lambda>r. daysBetween today (dl_dueAt d) = fst r) rungs)"
  by (simp add: rungs_today_def key_of_def)

lemma concat_rungs: "concat (map (\<lambda>r. rungs_today today template [r] d) rungs) = rungs_today today template rungs d"
  by (induction rungs) (simp_all add: rungs_today_def)

lemma distinct_rungs: "distinct (map snd rungs) \<Longrightarrow> distinct (map key_of (rungs_today today template rungs d))"
proof -
  assume "distinct (map snd rungs)"
  then have "distinct (map snd (filter (\<lambda>r. daysBetween today (dl_dueAt d) = fst r) rungs))" by (rule distinct_map_filter)
  then show ?thesis by (simp add: key_of_rungs distinct_map inj_on_def)
qed

lemma fst_apart: "fst ` A \<inter> fst ` B = {} \<Longrightarrow> A \<inter> B = {}"
  by blast

lemma distinct_ladder:
  assumes "distinct (map dl_id ds)" "distinct (map snd rungs)"
  shows "distinct (map key_of (concat (map (rungs_today today template rungs) ds)))"
  using assms(1)
proof (induction ds)
  case (Cons d ds)
  have "fst ` set (map key_of (concat (map (rungs_today today template rungs) ds))) \<subseteq> dl_id ` set ds"
    "fst ` set (map key_of (rungs_today today template rungs d)) \<subseteq> {dl_id d}"
    by (auto simp: rungs_today_def key_of_def)
  moreover have "{dl_id d} \<inter> dl_id ` set ds = {}" using Cons.prems by auto
  ultimately have "set (map key_of (rungs_today today template rungs d)) \<inter> set (map key_of (concat (map (rungs_today today template rungs) ds))) = {}"
    by (intro fst_apart) blast
  then show ?case using Cons distinct_rungs [OF assms(2)] by simp
qed simp

lemma ladder_rungs: "l \<in> set LADDERS \<Longrightarrow> distinct (map snd (snd (snd l)))"
proof -
  have "\<forall>l \<in> set LADDERS. distinct (map snd (snd (snd l)))" by code_simp
  then show "l \<in> set LADDERS \<Longrightarrow> distinct (map snd (snd (snd l)))" ..
qed

lemma ladder_keys:
  "fst ` set (map key_of (concat (map (rungs_today today template rungs) (filter (laddered ws kinds) ds)))) \<subseteq>
   dl_id ` {d \<in> set ds. dl_kind d \<in> set kinds}"
  by (auto simp: rungs_today_def key_of_def laddered_def)

lemma distinct_schedule:
  assumes "distinct (map dl_id ds)"
  shows "distinct (map key_of (schedule ws today ds))"
proof -
  define part where "part = (\<lambda>(template, kinds, rungs). concat (map (rungs_today today template rungs) (filter (laddered ws kinds) ds)))"
  have one: "distinct (map key_of (part l))" if "l \<in> set LADDERS" for l
    using distinct_ladder [OF distinct_map_filter [OF assms] ladder_rungs [OF that]] by (simp add: part_def split_beta)
  have apart: "set (map key_of (part (a, ks, r))) \<inter> set (map key_of (part (b, ls, q))) = {}" if "set ks \<inter> set ls = {}" for a ks r b ls q
  proof -
    have inj: "inj_on dl_id (set ds)" using assms by (simp add: distinct_map)
    have "{d \<in> set ds. dl_kind d \<in> set ks} \<inter> {d \<in> set ds. dl_kind d \<in> set ls} = {}" using that by blast
    then have "dl_id ` {d \<in> set ds. dl_kind d \<in> set ks} \<inter> dl_id ` {d \<in> set ds. dl_kind d \<in> set ls} = {}"
      using inj_on_image_Int [OF inj, of "{d \<in> set ds. dl_kind d \<in> set ks}" "{d \<in> set ds. dl_kind d \<in> set ls}"] by auto
    then show ?thesis
      unfolding part_def prod.case
      using ladder_keys [of today a r ws ks ds] ladder_keys [of today b q ws ls ds] by (intro fst_apart) blast
  qed
  show ?thesis
    using one apart unfolding schedule_def part_def [symmetric] by (simp add: LADDERS_def Int_Un_distrib)
qed

text \<open>
  C32: a run sends what the ladders say, once, and counts it. When a daily run returns, the rungs it
  dealt with are exactly the ones of the workspace's open deadlines that fall on today in Dubai and
  had not been sent before. For each of them, in order, it logged one reminder and put one item, with
  the subject and the text of that rung, in the feed of every overseer; nothing else was added to
  the log or to anybody's feed, and the number it returns is the number of these rungs.
\<close>

theorem run_matches_schedule:
  assumes "runAlertLadders num fdate ws s = (Inr n, t)" and "workspaceOverseers ws s \<noteq> []"
    and "distinct (map dl_id (w_deadlines s))"
  shows "sends num fdate ws (schedule ws (todayInDubai (w_now s)) (w_deadlines s)) s n t"
proof -
  let ?today = "todayInDubai (w_now s)" and ?ds = "w_deadlines s"
  let ?part = "\<lambda>(template, kinds, rungs). concat (map (rungs_today ?today template rungs) (filter (laddered ws kinds) ?ds))"
  have dist: "distinct (map key_of (concat (map ?part LADDERS)))"
    using distinct_schedule [OF assms(3)] by (simp add: schedule_def)
  have run: "sumE LADDERS (\<lambda>(template, kinds, rungs).
       bindE (readE (\<lambda>s. filter (laddered ws kinds) (w_deadlines s))) (\<lambda>deadlines.
       sumE deadlines (\<lambda>d. sumE rungs (send_rung num fdate ws (workspaceOverseers ws s) ?today template d)))) s = (Inr n, t)"
    using assms(1,2) by (simp add: runAlertLadders_def bindE_apply op_eval)
  let ?view = "material num fdate ws s"
  have view: "w_deadlines u = ?ds \<and> workspaceOverseers ws u = workspaceOverseers ws s" if "material num fdate ws u = ?view" for u
    using that by (simp add: material_def)
  have ladder: "sends num fdate ws (?part l) u m v"
    if l: "l \<in> set LADDERS" and u: "material num fdate ws u = ?view"
      and run: "(\<lambda>(template, kinds, rungs).
       bindE (readE (\<lambda>s. filter (laddered ws kinds) (w_deadlines s))) (\<lambda>deadlines.
       sumE deadlines (\<lambda>d. sumE rungs (send_rung num fdate ws (workspaceOverseers ws s) ?today template d)))) l u = (Inr m, v)" for l u m v
  proof -
    obtain template kinds rungs where e: "l = (template, kinds, rungs)" by (cases l)
    have codes: "distinct (map snd rungs)" using ladder_rungs [OF l] by (simp add: e)
    have loop: "sumE (filter (laddered ws kinds) ?ds) (\<lambda>d. sumE rungs (send_rung num fdate ws (workspaceOverseers ws s) ?today template d)) u = (Inr m, v)"
      using run view [OF u] by (simp add: e bindE_apply op_eval)
    have one: "sends num fdate ws (rungs_today ?today template rungs d) w k x"
      if r: "sumE rungs (send_rung num fdate ws (workspaceOverseers ws s) ?today template d) w = (Inr k, x)"
        and w: "material num fdate ws w = ?view" for d w k x
    proof -
      have keys: "distinct (map key_of (concat (map (\<lambda>r. rungs_today ?today template [r] d) rungs)))"
        unfolding concat_rungs by (rule distinct_rungs [OF codes])
      have each: "sends num fdate ws (rungs_today ?today template [x] d) a j b"
        if "x \<in> set rungs" "material num fdate ws a = ?view"
          "send_rung num fdate ws (workspaceOverseers ws s) ?today template d x a = (Inr j, b)" for x a j b
        using send_rung_sends [OF that(3)] view [OF that(2)] by simp
      have "sends num fdate ws (concat (map (\<lambda>x. rungs_today ?today template [x] d) rungs)) w k x"
        by (rule sumE_sends [OF r keys each w])
      then show ?thesis unfolding concat_rungs .
    qed
    have "sends num fdate ws (concat (map (rungs_today ?today template rungs) (filter (laddered ws kinds) ?ds))) u m v"
      by (rule sumE_sends [OF loop distinct_ladder [OF distinct_map_filter [OF assms(3)] codes] one u])
    then show ?thesis by (simp add: e)
  qed
  show ?thesis unfolding schedule_def by (rule sumE_sends [OF run dist ladder refl])
qed

definition alerts_once :: "world \<Rightarrow> bool" where
  "alerts_once s \<longleftrightarrow> (\<forall>ws d code. count_where (reminded ws d code) (w_evidence s) \<le> 1)"

lemma alerts_once_same: "w_evidence s = w_evidence t \<Longrightarrow> alerts_once s \<Longrightarrow> alerts_once t"
  by (simp add: alerts_once_def)

lemma once_send_rung: "keeps (preserves alerts_once) (send_rung num fdate ws overseers today template d r)"
proof -
  have quiet: "keeps (preserves alerts_once) (recordNotification inp)" for inp
    by (rule keeps_preserves_same [OF _ alerts_once_same], intro frames; simp)
  have log: "alerts_once (snd (recordEvidence (reminder_evidence ws template (snd r) d) u))"
    if once: "alerts_once u" and new: "\<not> (\<exists>e \<in> set (w_evidence u). reminded ws d (snd r) e)" for u
  proof -
    let ?e = "evidence_row (w_next u) (w_now u) (reminder_evidence ws template (snd r) d)"
    have "count_where (reminded ws' d' code') (w_evidence u @ [?e]) \<le> 1" for ws' d' code'
    proof (cases "reminded ws' d' code' ?e")
      case True
      then have "reminded ws' d' code' = reminded ws d (snd r)"
        by (auto simp: fun_eq_iff reminded_def evidence_row_def reminder_evidence_def evidenceOf_def split: option.splits)
      then have "count_where (reminded ws' d' code') (w_evidence u) = 0" using new by (simp add: count_where_0_iff)
      then show ?thesis by simp
    next
      case False
      then show ?thesis using once by (simp add: alerts_once_def)
    qed
    then have "alerts_once (u\<lparr>w_next := Suc (w_next u), w_evidence := w_evidence u @ [?e]\<rparr>)" by (simp add: alerts_once_def)
    then show ?thesis by (subst recordEvidence_eval) (simp_all add: reminder_evidence_def evidenceOf_def)
  qed
  show ?thesis
  proof (rule keepsI)
    fix s
    define m where "m = recordNotification (reminder fdate ws overseers template (snd r) d (deadline_unit d s) (case at_stake num fdate ws template d s of Inr x \<Rightarrow> x))"
    show "preserves alerts_once s (snd (send_rung num fdate ws overseers today template d r s))"
    proof (cases "daysBetween today (dl_dueAt d) = fst r \<and> unsent ws s (template, d, snd r) \<and> (\<exists>x. at_stake num fdate ws template d s = Inr x)")
      case False
      then have "snd (send_rung num fdate ws overseers today template d r s) = s"
        by (cases "at_stake num fdate ws template d s") (auto simp: send_rung_def unsent_def bindE_apply op_eval split: if_splits)
      then show ?thesis by (simp add: preserves_def)
    next
      case True
      obtain y u where m: "m s = (y, u)" by fastforce
      have "keeps (same w_evidence) m" unfolding m_def by (intro frames; simp)
      from sameD [OF this m] have ev: "w_evidence u = w_evidence s" .
      have run: "snd (send_rung num fdate ws overseers today template d r s) =
          (case y of Inl _ \<Rightarrow> u | Inr _ \<Rightarrow> snd (recordEvidence (reminder_evidence ws template (snd r) d) u))"
        using True m by (auto simp: send_rung_def m_def unsent_def bindE_apply op_eval split: sum.splits prod.splits)
      show ?thesis
        using log [of u] True ev alerts_once_same [of s u]
        by (auto simp: run preserves_def unsent_def split: sum.splits)
    qed
  qed
qed

lemma keeps_sumE: "(\<And>x. keeps (preserves I) (f x)) \<Longrightarrow> keeps (preserves I) (sumE xs f)"
  by (induction xs) (auto intro!: inv.keeps_intros)

lemma once_run: "keeps (preserves alerts_once) (runAlertLadders num fdate ws)"
proof -
  have now: "keeps (preserves alerts_once) getNow"
    by (rule keeps_preserves_same [OF _ alerts_once_same], intro frames; simp)
  show ?thesis
    unfolding runAlertLadders_def split_beta by (intro inv.keeps_intros keeps_sumE once_send_rung now)
qed

text \<open>
  a rung fires once per deadline. Whatever runs are made, of whichever workspaces, at whatever
  times and however often on a day, and even when one of them fails halfway, there is at most one
  reminder of each rung for each deadline.
\<close>

theorem each_rung_once:
  assumes "alerts_once s"
  shows "alerts_once (fold (\<lambda>(now, ws) s. snd (runAlertLadders num fdate ws (s\<lparr>w_now := now\<rparr>))) runs s)"
  using assms
proof (induction runs arbitrary: s)
  case Nil
  then show ?case by simp
next
  case (Cons r runs)
  obtain now ws where r: "r = (now, ws)" by fastforce
  have "alerts_once (s\<lparr>w_now := now\<rparr>)" using Cons.prems by (simp add: alerts_once_def)
  then have "alerts_once (snd (runAlertLadders num fdate ws (s\<lparr>w_now := now\<rparr>)))"
    using once_run by (simp add: keeps_def preserves_def)
  from Cons.IH [OF this] show ?case by (simp add: r)
qed

text \<open>
  one lease without a rent stops the reminders of its workspace. The ceiling in the notice gate
  reminder comes from \<open>decree43\<close>, which throws on a rent of zero, and nothing catches it: the
  reminders of all later deadlines are not sent that day, and since a rung is matched by the exact
  day, never.
\<close>

theorem zero_rent_stops_reminders:
  assumes "w_deadlines s = d # ds" "laddered ws [DK_NOTICE_GATE] d" "daysBetween (todayInDubai (w_now s)) (dl_dueAt d) = 120"
    and "unsent ws s (''notice_gate_v1'', d, ''T-120'')" "workspaceOverseers ws s \<noteq> []"
    and "deadline_tenancy d s = Some t" "tn_annualRent t = 0"
    and "resolveEffectiveIndex ws (tn_id t) (property_of (tn_propertyId t) s) s = Some eff"
  shows "\<exists>e. runAlertLadders num fdate ws s = (Inl e, s)"
proof -
  have bad: "at_stake num fdate ws ''notice_gate_v1'' d s = Inl (ThrownError ''decree43 requires positive currentRent and marketRentAvg'')"
    using assms(6-8) by (simp add: at_stake_def decree43_def)
  then have "send_rung num fdate ws (workspaceOverseers ws s) (todayInDubai (w_now s)) ''notice_gate_v1'' d (120, ''T-120'') s =
      (Inl (ThrownError ''decree43 requires positive currentRent and marketRentAvg''), s)"
    using assms(3,4) by (simp add: send_rung_def unsent_def bindE_apply op_eval)
  then show ?thesis
    using assms(1,2,5) by (simp add: runAlertLadders_def LADDERS_def bindE_apply op_eval)
qed

subsection \<open>A sample run\<close>

definition sample_deadline :: deadline where
  "sample_deadline = \<lparr> dl_id = 101, dl_workspaceId = 5, dl_tenancyId = Some 51, dl_propertyId = Some 41, dl_kind = DK_CHEQUE_DUE,
     dl_dueAt = 604800000, dl_status = DL_OPEN, dl_computedFrom = JNull, dl_createdAt = 0 \<rparr>"

definition alert_world :: world where
  "alert_world = sample_world\<lparr>w_deadlines := [sample_deadline], w_evidence := []\<rparr>"

theorem each_rung_once_witness:
  "alerts_once (fold (\<lambda>(now, ws) s. snd (runAlertLadders show_int (\<lambda>_. []) ws (s\<lparr>w_now := now\<rparr>))) [(0, 5), (3600000, 5)] alert_world)"
proof -
  have "alerts_once alert_world" by (simp add: alerts_once_def alert_world_def)
  from each_rung_once [OF this] show ?thesis .
qed

theorem run_matches_schedule_witness:
  "\<exists>t. runAlertLadders show_int (\<lambda>_. []) 5 alert_world = (Inr 1, t) \<and>
     sends show_int (\<lambda>_. []) 5 (schedule 5 (todayInDubai 0) [sample_deadline]) alert_world 1 t \<and>
     map nm_toUserId (inapp_feed t) = [Some 1]"
proof -
  let ?inp = "reminder (\<lambda>_. []) 5 [1] ''cheque_v1'' ''T-7'' sample_deadline (deadline_unit sample_deadline alert_world) ([], [])"
  have rows: "workspaceOverseers 5 alert_world = [1]" "w_deadlines alert_world = [sample_deadline]" "w_evidence alert_world = []"
    "w_now alert_world = 0" "w_preferences alert_world = []" "w_outbox alert_world = []" "w_messages alert_world = []"
    by (simp_all add: alert_world_def sample_defs workspaceOverseers_def unique_def OVERSEER_ROLES_def)
  have day: "daysBetween (todayInDubai 0) (dl_dueAt sample_deadline) = 7" "laddered 5 [DK_CHEQUE_DUE] sample_deadline"
      "\<not> laddered 5 [DK_NOTICE_GATE] sample_deadline" "\<not> laddered 5 [DK_PERMIT_EXPIRY] sample_deadline"
    by code_simp+
  have "fst (recordNotification ?inp alert_world) = Inr ()"
    by (simp add: recordNotification_def reminder_def unique_def categoryForTemplate_def
      TEMPLATE_CATEGORY_def op_defs notify_def newId_def getNow_def recipient_message_def enqueue_def rows
      isSensitiveTemplate_def SENSITIVE_TEMPLATE_PLACEHOLDER_def send_now_def loadPreferenceMap_def defaultCadence_def)
  then obtain u where u: "recordNotification ?inp alert_world = (Inr (), u)" by (metis prod.collapse)
  have same: "w_deadlines u = [sample_deadline]" "w_evidence u = []"
    unfolding rows(2,3) [symmetric] using u by (rule sameD [rotated], intro frames; simp)+
  obtain t where run: "runAlertLadders show_int (\<lambda>_. []) 5 alert_world = (Inr 1, t)"
    using u by (simp add: runAlertLadders_def LADDERS_def bindE_apply op_eval rows day send_rung_def at_stake_def same
      recordEvidence_eval reminder_evidence_def evidenceOf_def)
  from run_matches_schedule [OF this] have sent: "sends show_int (\<lambda>_. []) 5 (schedule 5 (todayInDubai 0) [sample_deadline]) alert_world 1 t"
    by (simp add: rows)
  have "map nm_toUserId (inapp_feed t) = [Some 1]"
  proof -
    obtain rows' items where i: "1 = length rows'" "list_all2 (reminder_for 5 0) rows' (filter (unsent 5 alert_world) (schedule 5 (todayInDubai 0) [sample_deadline]))"
        "inapp_feed t = concat items" "list_all2 (announces show_int (\<lambda>_. []) 5 alert_world) items
          (filter (unsent 5 alert_world) (schedule 5 (todayInDubai 0) [sample_deadline]))"
      using sent unfolding sends_def by (auto simp: rows inapp_feed_def)
    then have "length items = 1" using list_all2_lengthD by metis
    then obtain x where x: "items = [x]" by (auto simp: length_Suc_conv)
    then obtain k where "announces show_int (\<lambda>_. []) 5 alert_world x k" using i(4) by (auto simp: list_all2_Cons1)
    then have "map nm_toUserId x = [Some 1]"
      by (auto simp: announces_def rows list_all2_Cons2 feed_item_def message_row_def recipient_message_def split: prod.splits)
    then show ?thesis using i(3) x by simp
  qed
  with run sent show ?thesis by (intro exI [of _ t] conjI)
qed

end
