(* ===== verification/Proofs.thy ===== *)
theory Proofs
  imports Payments Consent
begin

text \<open>
  \<open>services/proofs.ts\<close>, \<open>services/emailIntake.ts\<close> and \<open>services/externalProof.ts\<close>: evidence asked
  of a party, sent as a link, submitted without an account over the link or by mail, decided, and
  swept when overdue. \<open>collate\<close> is the key of a string in the database's collation; \<open>hash\<close> is
  the hash of \<open>crypto.ts\<close>, \<open>base\<close> and \<open>domain\<close> the environment's \<open>APP_BASE_URL\<close> and
  \<open>EMAIL_INTAKE_DOMAIN\<close>, and \<open>token\<close> what the random source returned.
\<close>

definition PRIVACY_NOTICE_VERSION :: string where "PRIVACY_NOTICE_VERSION = ''privacy_notice_v1''"

definition find_proof :: "uid \<Rightarrow> world \<Rightarrow> proof_request option" where
  "find_proof i s = List.find (\<lambda>p. pf_id p = i) (w_proofs s)"

definition find_contact :: "uid \<Rightarrow> world \<Rightarrow> contact option" where
  "find_contact i s = List.find (\<lambda>c. ct_id c = i) (w_contacts s)"

subsection \<open>Who may be asked\<close>

definition propertyProofContactIds :: "uid \<Rightarrow> uid \<Rightarrow> world \<Rightarrow> uid list" where
  "propertyProofContactIds ws propertyId s =
     (case List.find (\<lambda>p. pr_id p = propertyId \<and> pr_workspaceId p = ws \<and> pr_archivedAt p = None) (w_properties s) of
        None \<Rightarrow> []
      | Some p \<Rightarrow>
          let tenancies = filter (\<lambda>t. tn_propertyId t = pr_id p \<and> tn_archivedAt t = None) (w_tenancies s)
          in unique (somes ([pr_ownerContactId p, pr_assignedAgentId p] @
               concat (map (\<lambda>t. [tn_landlordContactId t, tn_tenantContactId t]) tenancies))))"

text \<open>The unit a scope hangs off, for the scopes that hang off one unit.\<close>

definition proofScopeProperty :: "uid \<Rightarrow> scopeType \<Rightarrow> uid \<Rightarrow> world \<Rightarrow> uid option" where
  "proofScopeProperty ws ty i s =
     (case ty of
        S_PROPERTY \<Rightarrow> Some i
      | S_TENANCY \<Rightarrow> map_option tn_propertyId
          (List.find (\<lambda>t. tn_id t = i \<and> tn_workspaceId t = ws \<and> tn_archivedAt t = None) (w_tenancies s))
      | S_PAYMENT_ITEM \<Rightarrow>
          (case List.find (\<lambda>x. pi_id x = i \<and> pi_workspaceId x = ws) (w_payments s) of
             None \<Rightarrow> None
           | Some x \<Rightarrow> map_option tn_propertyId (List.find (\<lambda>t. tn_id t = pi_tenancyId x) (w_tenancies s)))
      | S_RENEWAL_CASE \<Rightarrow> map_option rc_propertyId
          (List.find (\<lambda>c. rc_id c = i \<and> rc_workspaceId c = ws) (w_cases s))
      | S_OFFER \<Rightarrow>
          (case List.find (\<lambda>x. of_id x = i \<and> of_workspaceId x = ws) (w_offers s) of
             None \<Rightarrow> None
           | Some x \<Rightarrow>
               (case of_tenancyId x of
                  None \<Rightarrow> None
                | Some ti \<Rightarrow> map_option tn_propertyId
                    (List.find (\<lambda>t. tn_id t = ti \<and> tn_workspaceId t = ws) (w_tenancies s))))
      | _ \<Rightarrow> None)"

definition proofScopeContactIds :: "uid \<Rightarrow> scopeType \<Rightarrow> uid option \<Rightarrow> world \<Rightarrow> uid list" where
  "proofScopeContactIds ws ty scopeId s =
     (if ty = S_WORKSPACE then
        map ct_id (filter (\<lambda>c. ct_workspaceId c = ws \<and> ct_archivedAt c = None) (w_contacts s))
      else
        case scopeId of
          None \<Rightarrow> []
        | Some i \<Rightarrow>
            if ty = S_CLIENT then
              unique (concat (map (\<lambda>p. propertyProofContactIds ws (pr_id p) s)
                (filter (\<lambda>p. pr_workspaceId p = ws \<and> pr_clientPrincipalId p = Some i \<and> pr_archivedAt p = None)
                  (w_properties s))))
            else
              case proofScopeProperty ws ty i s of
                None \<Rightarrow> [] | Some propertyId \<Rightarrow> propertyProofContactIds ws propertyId s)"

definition assertProofRequestSelection :: "authz_ctx \<Rightarrow> scopeType \<Rightarrow> uid option \<Rightarrow> uid \<Rightarrow> unit svc" where
  "assertProofRequestSelection ctx ty scopeId assignedContactId =
     bindE (readE (\<lambda>s. List.find (\<lambda>c. ct_id c = assignedContactId \<and> ct_workspaceId c = cx_workspaceId ctx \<and>
       ct_archivedAt c = None) (w_contacts s))) (\<lambda>contact.
     bindE (someE notFound contact) (\<lambda>c.
     bindE (readE (proofScopeContactIds (cx_workspaceId ctx) ty scopeId)) (\<lambda>allowed.
     assertE (ct_id c \<in> set allowed) notFound)))"

subsection \<open>The options of the form\<close>

record assignee_option =
  ao_id :: uid
  ao_label :: string
  ao_kind :: contactKind

record proof_scope_option =
  so_value :: string
  so_scopeType :: scopeType
  so_scopeId :: uid
  so_label :: string
  so_assignees :: "assignee_option list"

definition assignees_of :: "uid \<Rightarrow> uid list \<Rightarrow> uid list \<Rightarrow> world \<Rightarrow> assignee_option list" where
  "assignees_of ws allContactIds ids s =
     map (\<lambda>c. \<lparr> ao_id = ct_id c, ao_label = ct_name c, ao_kind = ct_kind c \<rparr>)
       (somes (map (\<lambda>i. List.find (\<lambda>c. ct_id c = i)
         (filter (\<lambda>c. ct_workspaceId c = ws \<and> ct_archivedAt c = None \<and> ct_id c \<in> set (inIds allContactIds))
           (w_contacts s))) ids))"

definition proofRequestOptions :: "(string \<Rightarrow> rat) \<Rightarrow> authz_ctx \<Rightarrow> proof_scope_option list svc" where
  "proofRequestOptions collate ctx =
     thenE (requireCap ctx ''proofs.write'')
     (readE (\<lambda>s.
        let ws = cx_workspaceId ctx;
            delegate = isDelegateRole (cx_role ctx);
            clients = (if delegate then [] else
              sort_key (\<lambda>c. collate (cp_displayName c))
                (filter (\<lambda>c. cp_workspaceId c = ws \<and> cp_archivedAt c = None) (w_clients s)));
            properties = sort_key (\<lambda>p. collate (pr_community p)) (by_text collate pr_building (by_text collate pr_unitNo
              (filter (\<lambda>p. pr_workspaceId p = ws \<and> pr_archivedAt p = None \<and>
                 (\<not> delegate \<or> pr_id p \<in> set (inIds (cx_delegatePropertyIds ctx)))) (w_properties s))));
            allIds = unique (concat (map (\<lambda>p. propertyProofContactIds ws (pr_id p) s) properties));
            assignees = (\<lambda>ids. assignees_of ws allIds ids s);
            clientOptions = map (\<lambda>c. \<lparr> so_value = ''CLIENT:'' @ show_nat (cp_id c), so_scopeType = S_CLIENT,
                so_scopeId = cp_id c, so_label = ''Client'' @ em_dash @ cp_displayName c,
                so_assignees = assignees (unique (concat (map (\<lambda>p. propertyProofContactIds ws (pr_id p) s)
                  (filter (\<lambda>p. pr_clientPrincipalId p = Some (cp_id c)) properties)))) \<rparr>) clients;
            propertyOptions = map (\<lambda>p. \<lparr> so_value = ''PROPERTY:'' @ show_nat (pr_id p), so_scopeType = S_PROPERTY,
                so_scopeId = pr_id p,
                so_label = ''Property'' @ em_dash @ join_dot [Some (pr_community p), pr_building p, pr_unitNo p],
                so_assignees = assignees (propertyProofContactIds ws (pr_id p) s) \<rparr>) properties
        in filter (\<lambda>opt. so_assignees opt \<noteq> []) (clientOptions @ propertyOptions)))"

subsection \<open>Asking\<close>

record proof_input =
  px_scopeType :: scopeType
  px_scopeId :: "uid option"
  px_title :: string
  px_requiredEvidence :: string
  px_assignedContactId :: uid
  px_dueAt :: "time option"

fun scopeType_name :: "scopeType \<Rightarrow> string" where
  "scopeType_name S_WORKSPACE = ''WORKSPACE''"
| "scopeType_name S_CLIENT = ''CLIENT''"
| "scopeType_name S_PROPERTY = ''PROPERTY''"
| "scopeType_name S_TENANCY = ''TENANCY''"
| "scopeType_name S_PAYMENT_ITEM = ''PAYMENT_ITEM''"
| "scopeType_name S_PROOF_REQUEST = ''PROOF_REQUEST''"
| "scopeType_name S_MAINTENANCE_CASE = ''MAINTENANCE_CASE''"
| "scopeType_name S_IMPORT_BATCH = ''IMPORT_BATCH''"
| "scopeType_name S_REPORT = ''REPORT''"
| "scopeType_name S_TASK = ''TASK''"
| "scopeType_name S_RENEWAL_CASE = ''RENEWAL_CASE''"
| "scopeType_name S_OFFER = ''OFFER''"
| "scopeType_name S_LISTING = ''LISTING''"
| "scopeType_name S_TENANT_PASSPORT = ''TENANT_PASSPORT''"

definition proof_row :: "authz_ctx \<Rightarrow> uid \<Rightarrow> time \<Rightarrow> proof_input \<Rightarrow> proof_request" where
  "proof_row ctx i now args =
     \<lparr> pf_id = i, pf_workspaceId = cx_workspaceId ctx, pf_scopeType = px_scopeType args,
       pf_scopeId = px_scopeId args, pf_title = px_title args,
       pf_requiredEvidence = px_requiredEvidence args, pf_assignedContactId = px_assignedContactId args,
       pf_dueAt = px_dueAt args, pf_status = PF_OPEN, pf_decisionById = None, pf_decisionAt = None,
       pf_decisionNote = None, pf_createdById = cx_userId ctx, pf_createdAt = now \<rparr>"

definition createProofRequest :: "authz_ctx \<Rightarrow> proof_input \<Rightarrow> proof_request svc" where
  "createProofRequest ctx args =
     thenE (requireCap ctx ''proofs.write'')
     (thenE (assertE (px_scopeType args = S_WORKSPACE \<or> px_scopeId args \<noteq> None)
        (AuthzError (''scopeId required for '' @ scopeType_name (px_scopeType args) @ ''-scoped proof requests'') 422))
     (thenE (whenE (isDelegateRole (cx_role ctx))
        (bindE (readE (propertyIdOfScope (cx_workspaceId ctx) (px_scopeType args) (px_scopeId args)))
          (\<lambda>propertyId. liftE (assertDelegatePropertyId ctx propertyId))))
     (thenE (assertProofRequestSelection ctx (px_scopeType args) (px_scopeId args) (px_assignedContactId args))
     (bindE getNow (\<lambda>now. bindE newId (\<lambda>i.
      thenE (writeE (\<lambda>s. s\<lparr>w_proofs := w_proofs s @ [proof_row ctx i now args]\<rparr>))
      (thenE (recordEvidence (evidence_by ctx EV_PROOF_REQUESTED S_PROOF_REQUEST (Some i)
         (JObj [(''title'', JStr (px_title args)), (''assignedContactId'', JId (px_assignedContactId args))])))
       (ret (proof_row ctx i now args)))))))))"

subsection \<open>Reading\<close>

definition getProofRequest :: "authz_ctx \<Rightarrow> uid \<Rightarrow> proof_request svc" where
  "getProofRequest ctx i =
     thenE (requireCap ctx ''proofs.read'')
     (bindE (readE (find_proof i)) (\<lambda>found.
      bindE (readE (assertReadable ctx (RT_proofRequest found))) (\<lambda>r.
      thenE (liftE r) (someE notFound found))))"

definition proof_where :: "authz_ctx \<Rightarrow> world \<Rightarrow> error + (proof_request \<Rightarrow> bool)" where
  "proof_where ctx s =
     (if cx_subjectContactId ctx \<noteq> None then
        map_sum id (\<lambda>w p. matches w (view_proof p)) (contactScopedWhere ctx TB_PROOF_REQUEST s)
      else if isDelegateRole (cx_role ctx) then
        map_sum id (\<lambda>w p. matches w (view_proof p)) (clientSetScopedWhere ctx TB_PROOF_REQUEST s)
      else case scope ctx of Inl e \<Rightarrow> Inl e
        | Inr ws \<Rightarrow> Inr (\<lambda>p. pf_workspaceId p = ws \<and>
            holds_for (cx_clientPrincipalId ctx) (\<lambda>c.
              pf_id p \<in> set (cs_proofRequestIds (resolveClientScopeIds (cx_workspaceId ctx) [c] s)))))"

definition listProofRequests :: "authz_ctx \<Rightarrow> (proof_request \<times> string) list svc" where
  "listProofRequests ctx =
     thenE (requireCap ctx ''proofs.read'')
     (bindE (readE (proof_where ctx)) (\<lambda>r.
      bindE (liftE r) (\<lambda>base.
      readE (\<lambda>s.
        map (\<lambda>p. (p, case List.find (\<lambda>c. ct_workspaceId c = cx_workspaceId ctx \<and> ct_id c = pf_assignedContactId p)
                           (w_contacts s) of
                       None \<Rightarrow> ''Related contact unavailable'' | Some c \<Rightarrow> ct_name c))
          (sort_key (\<lambda>p. - pf_createdAt p) (filter base (w_proofs s)))))))"

record public_proof =
  pu_title :: string
  pu_requiredEvidence :: string
  pu_dueAt :: "time option"

definition getProofRequestForLink :: "secure_link \<Rightarrow> world \<Rightarrow> public_proof option" where
  "getProofRequestForLink link s =
     (if sl_purpose link \<noteq> LP_PROOF_UPLOAD \<or> sl_scopeType link \<noteq> S_PROOF_REQUEST then None
      else case find_proof (sl_scopeId link) s of
        None \<Rightarrow> None
      | Some p \<Rightarrow>
          if pf_workspaceId p \<noteq> sl_workspaceId link then None
          else Some \<lparr> pu_title = pf_title p, pu_requiredEvidence = pf_requiredEvidence p, pu_dueAt = pf_dueAt p \<rparr>)"

subsection \<open>Sending\<close>

definition intakeAddress :: "string option \<Rightarrow> string \<Rightarrow> string" where
  "intakeAddress domain token =
     ''proof+'' @ token @ ''@'' @ (case domain of None \<Rightarrow> ''intake.seneschal.example'' | Some d \<Rightarrow> d)"

text \<open>\<open>url.slice(url.lastIndexOf("/") + 1)\<close>.\<close>

definition last_segment :: "string \<Rightarrow> string" where
  "last_segment url = rev (takeWhile (\<lambda>c. c \<noteq> CHR ''/'') (rev url))"

definition set_proof :: "uid \<Rightarrow> (proof_request \<Rightarrow> proof_request) \<Rightarrow> unit svc" where
  "set_proof i f = writeE (\<lambda>s. s\<lparr>w_proofs := upd_where (\<lambda>p. pf_id p = i) f (w_proofs s)\<rparr>)"

definition proof_mail :: "string option \<Rightarrow> authz_ctx \<Rightarrow> proof_request \<Rightarrow> contact \<Rightarrow> string \<Rightarrow> notify_input" where
  "proof_mail domain ctx p c url =
     \<lparr> ni_workspaceId = cx_workspaceId ctx, ni_channel = CH_EMAIL, ni_templateCode = ''proof_request_v1'',
       ni_subject = Some (''Evidence requested: '' @ pf_title p),
       ni_body = ''You have been asked to provide evidence.'' @ nl @ nl @ ''Request: '' @ pf_title p @ nl @
         ''Required: '' @ pf_requiredEvidence p @ nl @
         (case pf_dueAt p of None \<Rightarrow> [] | Some d \<Rightarrow> ''Due: '' @ toISODate d @ nl) @ nl @
         ''Upload here (no account needed): '' @ url @ nl @
         ''Or reply with the file attached to: '' @ intakeAddress domain (last_segment url) @ nl,
       ni_toUserId = None, ni_toContactId = Some (ct_id c), ni_toAddress = None, ni_preferChannel = None,
       ni_relatedType = Some S_PROOF_REQUEST, ni_relatedId = Some (pf_id p), ni_category = None,
       ni_urgent = False \<rparr>"

definition sendProofRequest ::
    "(string \<Rightarrow> string) \<Rightarrow> string \<Rightarrow> string option \<Rightarrow> string \<Rightarrow> authz_ctx \<Rightarrow> uid \<Rightarrow> string svc" where
  "sendProofRequest hash base domain token ctx i =
     thenE (requireCap ctx ''proofs.write'')
     (bindE (getProofRequest ctx i) (\<lambda>p.
      bindE (readE (find_contact (pf_assignedContactId p))) (\<lambda>contact.
      bindE (someE (AuthzError ''Assigned contact has no email'' 422)
        (case contact of None \<Rightarrow> None
         | Some c \<Rightarrow> (if ct_email c \<in> {None, Some []} then None else Some c))) (\<lambda>c.
      bindE (createSecureLink hash base token ctx
        \<lparr> la_purpose = LP_PROOF_UPLOAD, la_scopeType = S_PROOF_REQUEST, la_scopeId = i,
          la_contactId = Some (ct_id c), la_expiresInDays = None,
          la_maxUses = Some PROOF_LINK_DEFAULT_MAX_USES, la_requiredCapability = None \<rparr>) (\<lambda>link.
      thenE (notify (proof_mail domain ctx p c (snd link)))
      (thenE (set_proof i (\<lambda>p. p\<lparr>pf_status := PF_SENT\<rparr>))
        (ret (snd link))))))))"

subsection \<open>Submitting\<close>

record upload_file =
  uf_fileName :: string
  uf_mime :: string
  uf_data :: string
  uf_kind :: "documentKind option"

record link_meta =
  lm_ip :: "string option"
  lm_device :: "string option"
  lm_noticeLang :: "linkLang option"

text \<open>The ids of the documents, in the order of the files.\<close>

primrec ingest_files ::
    "(string \<Rightarrow> string) \<Rightarrow> secure_link \<Rightarrow> link_meta \<Rightarrow> uid \<Rightarrow> upload_file list \<Rightarrow> document list svc" where
  "ingest_files hash link meta requestId [] = ret []"
| "ingest_files hash link meta requestId (f # fs) =
     bindE (ingestDocument hash
        \<lparr> ig_workspaceId = sl_workspaceId link, ig_scopeType = S_PROOF_REQUEST, ig_scopeId = Some requestId,
          ig_kind = (case uf_kind f of None \<Rightarrow> DOC_OTHER | Some k \<Rightarrow> k), ig_fileName = uf_fileName f,
          ig_mime = uf_mime f, ig_data = uf_data f, ig_uploadedById = None,
          ig_secureLinkId = Some (sl_id link) \<rparr>) (\<lambda>doc.
     thenE (logDocumentAccess (sl_workspaceId link) (dc_id doc) DA_UPLOADED None (Some (sl_id link))
        (lm_ip meta) (lm_device meta))
     (bindE (ingest_files hash link meta requestId fs) (\<lambda>docs. ret (doc # docs))))"

definition link_evidence :: "secure_link \<Rightarrow> evidenceType \<Rightarrow> scopeType \<Rightarrow> uid \<Rightarrow> json \<Rightarrow> evidence_input" where
  "link_evidence link ty sty i payload =
     (evidenceOf (sl_workspaceId link) ty A_TENANT_LINK None sty (Some i))\<lparr>ei_payload := Some payload\<rparr>"

definition link_interaction_consent :: "secure_link \<Rightarrow> uid \<Rightarrow> string \<Rightarrow> unit svc" where
  "link_interaction_consent link c noticeVersion =
     bindE getNow (\<lambda>now. bindE newId (\<lambda>i.
     writeE (\<lambda>s. s\<lparr>w_consents := w_consents s @
       [\<lparr> cn_id = i, cn_workspaceId = sl_workspaceId link, cn_contactId = Some c, cn_userId = None,
          cn_purpose = CP_LINK_INTERACTION, cn_source = CS_SECURE_LINK, cn_noticeVersion = noticeVersion,
          cn_secureLinkId = Some (sl_id link), cn_grantedAt = now, cn_revokedAt = None \<rparr>]\<rparr>)))"

definition submission_consent :: "secure_link \<Rightarrow> link_meta \<Rightarrow> uid \<Rightarrow> unit svc" where
  "submission_consent link meta requestId =
     (case sl_contactId link of
        None \<Rightarrow> ret ()
      | Some c \<Rightarrow>
          let noticeVersion = localizedNoticeVersion PRIVACY_NOTICE_VERSION
                (case lm_noticeLang meta of None \<Rightarrow> LL_en | Some l \<Rightarrow> l) in
          thenE (link_interaction_consent link c noticeVersion)
          (thenE (recordEvidence (link_evidence link EV_CONSENT_GRANTED S_PROOF_REQUEST requestId
             (JObj [(''contactId'', JId c), (''noticeVersion'', JStr noticeVersion)])))
           (ret ())))"

definition submitProofViaLink ::
    "(string \<Rightarrow> string) \<Rightarrow> secure_link \<Rightarrow> upload_file list \<Rightarrow> string option \<Rightarrow> link_meta \<Rightarrow> document list svc" where
  "submitProofViaLink hash link files submissionNote meta =
     thenE (assertE (sl_purpose link = LP_PROOF_UPLOAD \<and> sl_scopeType link = S_PROOF_REQUEST)
        (ThrownError ''Link is not a proof-upload link''))
     (bindE (readE (find_proof (sl_scopeId link))) (\<lambda>found.
      bindE (someE (ThrownError ''Proof request not found'') found) (\<lambda>request.
      bindE (ingest_files hash link meta (pf_id request) files) (\<lambda>docs.
      thenE (recordEvidence (link_evidence link EV_PROOF_UPLOADED S_PROOF_REQUEST (pf_id request)
         (JObj [(''secureLinkId'', JId (sl_id link)), (''documentIds'', JArr (map (JId \<circ> dc_id) docs)),
                (''note'', jopt JStr submissionNote)])))
      (thenE (submission_consent link meta (pf_id request))
      (thenE (set_proof (pf_id request) (\<lambda>p. p\<lparr>pf_status := PF_SUBMITTED\<rparr>))
      (thenE (clearProofOverdue (pf_id request) (sl_workspaceId link))
        (ret docs))))))))"

subsection \<open>Deciding and sweeping\<close>

fun proofStatus_name :: "proofStatus \<Rightarrow> string" where
  "proofStatus_name PF_OPEN = ''OPEN''"
| "proofStatus_name PF_SENT = ''SENT''"
| "proofStatus_name PF_WAITING_PROOF = ''WAITING_PROOF''"
| "proofStatus_name PF_SUBMITTED = ''SUBMITTED''"
| "proofStatus_name PF_APPROVED = ''APPROVED''"
| "proofStatus_name PF_REJECTED = ''REJECTED''"
| "proofStatus_name PF_OVERDUE = ''OVERDUE''"
| "proofStatus_name PF_CLOSED = ''CLOSED''"

definition decided_proof :: "authz_ctx \<Rightarrow> approvalDecision \<Rightarrow> string option \<Rightarrow> time \<Rightarrow> proof_request \<Rightarrow> proof_request" where
  "decided_proof ctx decision decisionNote now p =
     p\<lparr> pf_status := (if decision = AD_APPROVED then PF_APPROVED else PF_OPEN),
        pf_decisionById := Some (cx_userId ctx), pf_decisionAt := Some now, pf_decisionNote := decisionNote \<rparr>"

definition decideProofRequest ::
    "authz_ctx \<Rightarrow> uid \<Rightarrow> approvalDecision \<Rightarrow> string option \<Rightarrow> proof_request svc" where
  "decideProofRequest ctx i decision decisionNote =
     thenE (requireCap ctx ''proofs.decide'')
     (bindE (getProofRequest ctx i) (\<lambda>request.
      thenE (assertE (pf_status request \<in> {PF_SUBMITTED, PF_OVERDUE})
        (AuthzError (''Cannot decide a request in status '' @ proofStatus_name (pf_status request)) 422))
      (bindE getNow (\<lambda>now.
       thenE (set_proof i (decided_proof ctx decision decisionNote now))
       (thenE (recordEvidence (evidence_by ctx
          (if decision = AD_APPROVED then EV_PROOF_APPROVED else EV_PROOF_REJECTED) S_PROOF_REQUEST (Some i)
          (JObj [(''note'', jopt JStr decisionNote)])))
        (ret (decided_proof ctx decision decisionNote now request)))))))"

definition proof_is_overdue :: "uid option \<Rightarrow> time \<Rightarrow> proof_request \<Rightarrow> bool" where
  "proof_is_overdue workspaceId today p \<longleftrightarrow> holds_for workspaceId (\<lambda>ws. pf_workspaceId p = ws) \<and>
     pf_status p \<in> {PF_OPEN, PF_SENT, PF_WAITING_PROOF} \<and>
     (case pf_dueAt p of None \<Rightarrow> False | Some d \<Rightarrow> d < today)"

definition sweepOverdueProofRequests :: "uid option \<Rightarrow> nat svc" where
  "sweepOverdueProofRequests workspaceId =
     bindE getNow (\<lambda>now.
     bindE (readE (\<lambda>s. filter (proof_is_overdue workspaceId (todayInDubai now)) (w_proofs s))) (\<lambda>overdue.
     thenE (forE overdue (\<lambda>request.
        thenE (set_proof (pf_id request) (\<lambda>p. p\<lparr>pf_status := PF_OVERDUE\<rparr>))
          (raiseProofOverdue (pf_id request) (pf_workspaceId request))))
       (ret (length overdue))))"

subsection \<open>Submission by mail\<close>

text \<open>\<open>/(?:^|<)proof\+([A-Za-z0-9_-]+)@/\<close>: the first match, and in it the longest token.\<close>

definition token_char :: "char \<Rightarrow> bool" where
  "token_char c \<longleftrightarrow> (let n = (of_char c :: nat) in
     (65 \<le> n \<and> n \<le> 90) \<or> (97 \<le> n \<and> n \<le> 122) \<or> (48 \<le> n \<and> n \<le> 57) \<or> c = CHR ''_'' \<or> c = CHR ''-'')"

definition token_here :: "string \<Rightarrow> string option" where
  "token_here s =
     (if take 6 s \<noteq> ''proof+'' then None
      else let tok = takeWhile token_char (drop 6 s); after = dropWhile token_char (drop 6 s)
           in if tok \<noteq> [] \<and> after \<noteq> [] \<and> hd after = CHR ''@'' then Some tok else None)"

fun token_after_bracket :: "string \<Rightarrow> string option" where
  "token_after_bracket [] = None"
| "token_after_bracket (c # cs) =
     (if c = CHR ''<'' \<and> token_here cs \<noteq> None then token_here cs else token_after_bracket cs)"

definition TOKEN_ADDRESS :: "string \<Rightarrow> string option" where
  "TOKEN_ADDRESS s = (if token_here s \<noteq> None then token_here s else token_after_bracket s)"

record inbound_mail =
  im_to :: string
  im_subject :: "string option"
  im_text :: "string option"
  im_attachments :: "upload_file list"

fun refusal_name :: "link_refusal \<Rightarrow> string" where
  "refusal_name not_found = ''not_found''"
| "refusal_name expired = ''expired''"
| "refusal_name revoked = ''revoked''"
| "refusal_name exhausted = ''exhausted''"

text \<open>\<open>message.text?.slice(0, 2000) || message.subject\<close>.\<close>

definition mail_note :: "inbound_mail \<Rightarrow> string option" where
  "mail_note m = (case im_text m of
      Some x \<Rightarrow> (if take 2000 x \<noteq> [] then Some (take 2000 x) else im_subject m)
    | None \<Rightarrow> im_subject m)"

definition inbound_row :: "uid \<Rightarrow> time \<Rightarrow> secure_link \<Rightarrow> inbound_mail \<Rightarrow> notification_message" where
  "inbound_row i now link m =
     \<lparr> nm_id = i, nm_workspaceId = sl_workspaceId link, nm_channel = CH_EMAIL, nm_direction = DIR_INBOUND,
       nm_toUserId = None, nm_toContactId = sl_contactId link, nm_templateCode = Some ''proof_email_intake_v1'',
       nm_subject = im_subject m, nm_bodyRef = None, nm_providerRef = None, nm_status = MS_RECEIVED,
       nm_relatedType = Some S_PROOF_REQUEST, nm_relatedId = Some (sl_scopeId link), nm_category = None,
       nm_urgent = False, nm_readAt = None, nm_digestedAt = None, nm_emailMessageId = None, nm_createdAt = now \<rparr>"

text \<open>\<open>Inl reason\<close> for \<open>{accepted: false, reason}\<close>.\<close>

definition processInboundProofEmail :: "(string \<Rightarrow> string) \<Rightarrow> inbound_mail \<Rightarrow> (string + unit) svc" where
  "processInboundProofEmail hash m =
     (case TOKEN_ADDRESS (im_to m) of
        None \<Rightarrow> ret (Inl ''no_token'')
      | Some token \<Rightarrow>
          bindE (readE (validateLinkToken hash token)) (\<lambda>validation.
          case validation of
            Inl reason \<Rightarrow> ret (Inl (refusal_name reason))
          | Inr link \<Rightarrow>
              if im_attachments m = [] then ret (Inl ''no_attachments'')
              else
                bindE (consumeLinkUse (sl_id link)) (\<lambda>consumed.
                if \<not> consumed then ret (Inl ''exhausted'')
                else
                  thenE (submitProofViaLink hash link
                    (map (\<lambda>f. f\<lparr>uf_kind := None\<rparr>) (im_attachments m)) (mail_note m)
                    \<lparr> lm_ip = None, lm_device = None, lm_noticeLang = None \<rparr>)
                  (bindE getNow (\<lambda>now. bindE newId (\<lambda>i.
                   thenE (writeE (\<lambda>s. s\<lparr>w_messages := w_messages s @ [inbound_row i now link m]\<rparr>))
                     (ret (Inr ()))))))))"

subsection \<open>The intake address\<close>

definition token_ok :: "string \<Rightarrow> bool" where
  "token_ok tok \<longleftrightarrow> tok \<noteq> [] \<and> list_all token_char tok"

lemma at_sign [simp]: "\<not> token_char CHR ''@''"
  by (simp add: token_char_def)

lemma split_token:
  assumes "list_all token_char tok"
  shows "takeWhile token_char (tok @ CHR ''@'' # rest) = tok"
    and "dropWhile token_char (tok @ CHR ''@'' # rest) = CHR ''@'' # rest"
  using assms by (simp_all add: list_all_iff)

lemma token_here_iff:
  "token_here s = Some tok \<longleftrightarrow> token_ok tok \<and> (\<exists>rest. s = ''proof+'' @ tok @ ''@'' @ rest)"
proof
  assume r: "token_here s = Some tok"
  let ?d = "drop 6 s"
  have p: "take 6 s = ''proof+''" and tok: "tok = takeWhile token_char ?d" "tok \<noteq> []"
    and after: "dropWhile token_char ?d \<noteq> []" "hd (dropWhile token_char ?d) = CHR ''@''"
    using r by (auto simp: token_here_def Let_def split: if_splits)
  have "s = ''proof+'' @ ?d" using append_take_drop_id [of 6 s] p by metis
  moreover have "?d = tok @ dropWhile token_char ?d" by (simp add: tok)
  moreover have "dropWhile token_char ?d = ''@'' @ tl (dropWhile token_char ?d)"
    using after by (metis append_Cons append_Nil list.collapse)
  ultimately have "s = ''proof+'' @ tok @ ''@'' @ tl (dropWhile token_char ?d)" by metis
  moreover have "list_all token_char tok" unfolding tok list_all_iff by (auto dest: set_takeWhileD)
  ultimately show "token_ok tok \<and> (\<exists>rest. s = ''proof+'' @ tok @ ''@'' @ rest)"
    using tok(2) by (auto simp: token_ok_def)
next
  assume "token_ok tok \<and> (\<exists>rest. s = ''proof+'' @ tok @ ''@'' @ rest)"
  then show "token_here s = Some tok"
    by (auto simp: token_here_def token_ok_def split_token)
qed

lemma token_after_bracket_sound:
  "token_after_bracket s = Some tok \<Longrightarrow> token_ok tok \<and> (\<exists>us rest. s = us @ ''<proof+'' @ tok @ ''@'' @ rest)"
proof (induction s rule: token_after_bracket.induct)
  case (2 c cs)
  show ?case
  proof (cases "c = CHR ''<'' \<and> token_here cs \<noteq> None")
    case True
    then have "token_here cs = Some tok" "c = CHR ''<''" using 2(2) by auto
    then show ?thesis unfolding token_here_iff by (metis append_Cons append_Nil)
  next
    case False
    then have "token_after_bracket cs = Some tok" using 2(2) by auto
    then show ?thesis using 2(1) [OF False] by (metis append_Cons)
  qed
qed simp

lemma token_after_bracket_skip:
  "CHR ''<'' \<notin> set name \<Longrightarrow> token_here addr \<noteq> None \<Longrightarrow>
   token_after_bracket (name @ CHR ''<'' # addr) = token_here addr"
  by (induction name) auto

text \<open>
  the intake address and its parser are inverse: the token of an address the program hands out
  is read back from the bare address and from the address behind a display name, and a token is
  only ever read from a text in which that very address, up to its domain, begins or follows a
  bracket.
\<close>

theorem intake_address_roundtrip:
  assumes "token_ok token" and "CHR ''<'' \<notin> set name" and "take 6 name \<noteq> ''proof+''"
  shows "TOKEN_ADDRESS (intakeAddress domain token) = Some token \<and>
    TOKEN_ADDRESS (name @ ''<'' @ intakeAddress domain token @ ''>'') = Some token \<and>
    (\<forall>s tok. TOKEN_ADDRESS s = Some tok \<longrightarrow> token_ok tok \<and>
      (\<exists>us rest. s = us @ ''proof+'' @ tok @ ''@'' @ rest \<and> (us = [] \<or> last us = CHR ''<'')))"
proof (intro conjI allI impI)
  have here: "token_here (intakeAddress domain token @ rest) = Some token" for rest
    unfolding token_here_iff intakeAddress_def using assms(1) by auto
  show "TOKEN_ADDRESS (intakeAddress domain token) = Some token"
    using here [of "[]"] by (simp add: TOKEN_ADDRESS_def)
  let ?s = "name @ CHR ''<'' # (intakeAddress domain token @ ''>'')"
  have "take 6 ?s \<noteq> ''proof+''"
  proof (cases "6 \<le> length name")
    case True
    then show ?thesis using assms(3) by simp
  next
    case False
    then obtain k where k: "6 - length name = Suc k" by (metis Suc_diff_Suc not_le)
    have "CHR ''<'' \<in> set (take 6 ?s)" by (simp add: k)
    moreover have "CHR ''<'' \<notin> set ''proof+''" by simp
    ultimately show ?thesis by metis
  qed
  then have "token_here ?s = None" by (simp add: token_here_def)
  then have "TOKEN_ADDRESS ?s = token_after_bracket ?s" by (simp add: TOKEN_ADDRESS_def)
  also have "\<dots> = Some token" using token_after_bracket_skip [OF assms(2)] here by simp
  finally show "TOKEN_ADDRESS (name @ ''<'' @ intakeAddress domain token @ ''>'') = Some token" by simp
next
  fix s tok
  assume "TOKEN_ADDRESS s = Some tok"
  then have r: "token_here s = Some tok \<or> token_after_bracket s = Some tok"
    by (auto simp: TOKEN_ADDRESS_def split: if_splits)
  then show "token_ok tok" using token_here_iff token_after_bracket_sound by blast
  from r show "\<exists>us rest. s = us @ ''proof+'' @ tok @ ''@'' @ rest \<and> (us = [] \<or> last us = CHR ''<'')"
  proof
    assume "token_here s = Some tok"
    then show ?thesis unfolding token_here_iff by (metis append_Nil)
  next
    assume "token_after_bracket s = Some tok"
    then obtain us rest where "s = us @ ''<proof+'' @ tok @ ''@'' @ rest"
      using token_after_bracket_sound by blast
    then have "s = (us @ ''<'') @ ''proof+'' @ tok @ ''@'' @ rest" by simp
    then show ?thesis by (metis last_snoc)
  qed
qed

theorem intake_address_roundtrip_witness:
  "TOKEN_ADDRESS (intakeAddress None ''aB3-_x'') = Some ''aB3-_x''"
proof -
  have "token_ok ''aB3-_x''" by (simp add: token_ok_def token_char_def)
  then show ?thesis using intake_address_roundtrip [of "''aB3-_x''" "''Proofs ''"] by simp
qed

subsection \<open>Who is asked\<close>

text \<open>
  Who has to do with a unit: its owner, its agent, and the two sides of its live leases; and
  the units a scope speaks of.
\<close>

inductive party_of :: "world \<Rightarrow> uid \<Rightarrow> uid \<Rightarrow> uid \<Rightarrow> bool" for s ws where
  owner: "p \<in> set (w_properties s) \<Longrightarrow> pr_workspaceId p = ws \<Longrightarrow> pr_archivedAt p = None \<Longrightarrow>
    pr_ownerContactId p = Some c \<Longrightarrow> party_of s ws (pr_id p) c"
| agent: "p \<in> set (w_properties s) \<Longrightarrow> pr_workspaceId p = ws \<Longrightarrow> pr_archivedAt p = None \<Longrightarrow>
    pr_assignedAgentId p = Some c \<Longrightarrow> party_of s ws (pr_id p) c"
| landlord: "p \<in> set (w_properties s) \<Longrightarrow> pr_workspaceId p = ws \<Longrightarrow> pr_archivedAt p = None \<Longrightarrow>
    l \<in> set (w_tenancies s) \<Longrightarrow> tn_propertyId l = pr_id p \<Longrightarrow> tn_archivedAt l = None \<Longrightarrow>
    tn_landlordContactId l = Some c \<Longrightarrow> party_of s ws (pr_id p) c"
| tenant: "p \<in> set (w_properties s) \<Longrightarrow> pr_workspaceId p = ws \<Longrightarrow> pr_archivedAt p = None \<Longrightarrow>
    l \<in> set (w_tenancies s) \<Longrightarrow> tn_propertyId l = pr_id p \<Longrightarrow> tn_archivedAt l = None \<Longrightarrow>
    tn_tenantContactId l = Some c \<Longrightarrow> party_of s ws (pr_id p) c"

inductive may_be_asked :: "world \<Rightarrow> uid \<Rightarrow> scopeType \<Rightarrow> uid option \<Rightarrow> uid \<Rightarrow> bool" for s ws where
  anyone: "may_be_asked s ws S_WORKSPACE x c"
| client: "p \<in> set (w_properties s) \<Longrightarrow> pr_clientPrincipalId p = Some i \<Longrightarrow> party_of s ws (pr_id p) c \<Longrightarrow>
    may_be_asked s ws S_CLIENT (Some i) c"
| unit: "proofScopeProperty ws ty i s = Some u \<Longrightarrow> party_of s ws u c \<Longrightarrow> may_be_asked s ws ty (Some i) c"

lemma set_somes [simp]: "set (somes xs) = {x. Some x \<in> set xs}"
  by (force simp: somes_def List.map_filter_def)

lemma propertyProofContactIds_party:
  "c \<in> set (propertyProofContactIds ws i s) \<Longrightarrow> party_of s ws i c"
proof -
  assume c: "c \<in> set (propertyProofContactIds ws i s)"
  then obtain p where f: "List.find (\<lambda>p. pr_id p = i \<and> pr_workspaceId p = ws \<and> pr_archivedAt p = None) (w_properties s) = Some p"
    unfolding propertyProofContactIds_def by (cases "List.find (\<lambda>p. pr_id p = i \<and> pr_workspaceId p = ws \<and> pr_archivedAt p = None) (w_properties s)") auto
  then have p: "p \<in> set (w_properties s)" "pr_workspaceId p = ws" "pr_archivedAt p = None" "pr_id p = i"
    by (auto dest: find_Some_in)
  from c f consider "pr_ownerContactId p = Some c" | "pr_assignedAgentId p = Some c"
    | l where "l \<in> set (w_tenancies s)" "tn_propertyId l = pr_id p" "tn_archivedAt l = None"
        "tn_landlordContactId l = Some c \<or> tn_tenantContactId l = Some c"
    unfolding propertyProofContactIds_def by (auto simp: eq_commute [of "Some c"])
  then show "party_of s ws i c"
    using p(4) by cases (metis party_of.intros [OF p(1-3)])+
qed

lemma proofScopeContactIds_sound:
  "c \<in> set (proofScopeContactIds ws ty x s) \<Longrightarrow> may_be_asked s ws ty x c"
proof -
  assume c: "c \<in> set (proofScopeContactIds ws ty x s)"
  show "may_be_asked s ws ty x c"
  proof (cases "ty = S_WORKSPACE")
    case False
    then obtain i where x: "x = Some i" using c by (auto simp: proofScopeContactIds_def split: option.splits)
    show ?thesis
    proof (cases "ty = S_CLIENT")
      case True
      then show ?thesis using c False
        by (auto simp: proofScopeContactIds_def x dest!: propertyProofContactIds_party intro: may_be_asked.client)
    next
      case no: False
      then obtain u where "proofScopeProperty ws ty i s = Some u" "c \<in> set (propertyProofContactIds ws u s)"
        using c False by (cases "proofScopeProperty ws ty i s") (auto simp: proofScopeContactIds_def x)
      then show ?thesis unfolding x by (intro may_be_asked.unit propertyProofContactIds_party)
    qed
  qed (simp add: may_be_asked.anyone)
qed

lemma createProofRequest_ok:
  assumes "createProofRequest ctx args s = (Inr p, t)"
  obtains c where "List.find (\<lambda>c. ct_id c = px_assignedContactId args \<and> ct_workspaceId c = cx_workspaceId ctx \<and>
        ct_archivedAt c = None) (w_contacts s) = Some c"
      "ct_id c \<in> set (proofScopeContactIds (cx_workspaceId ctx) (px_scopeType args) (px_scopeId args) s)"
    and "p = proof_row ctx (w_next s) (w_now s) args"
    and "t = s\<lparr>w_next := Suc (Suc (w_next s)), w_proofs := w_proofs s @ [p],
      w_evidence := w_evidence s @ [evidence_row (Suc (w_next s)) (w_now s)
        (evidence_by ctx EV_PROOF_REQUESTED S_PROOF_REQUEST (Some (w_next s))
         (JObj [(''title'', JStr (px_title args)), (''assignedContactId'', JId (px_assignedContactId args))]))]\<rparr>"
    and "isDelegateRole (cx_role ctx) \<Longrightarrow>
      assertDelegatePropertyId ctx (propertyIdOfScope (cx_workspaceId ctx) (px_scopeType args) (px_scopeId args) s) = Inr ()"
  using assms unfolding createProofRequest_def assertProofRequestSelection_def
  by (clarsimp simp only: bindE_ok readE_ok writeE_ok assertE_ok someE_ok liftE_ok whenE_ok ret_ok requireCap_def
      newId_ok getNow_ok recordEvidence_ok) (simp split: if_splits)

text \<open>
  evidence is only ever asked of a party: a request that is created adds one open request and
  one event that names it, its addressee is a live contact of the workspace and has to do with the
  scope it is about, and when a managing agent asks, that scope is one of the agent's units.
\<close>

theorem createProofRequest_asks_a_party:
  assumes "createProofRequest ctx args s = (Inr p, t)"
  shows "w_proofs t = w_proofs s @ [p] \<and> pf_status p = PF_OPEN \<and>
    length (w_evidence t) = Suc (length (w_evidence s)) \<and>
    ev_type (last (w_evidence t)) = EV_PROOF_REQUESTED \<and> ev_scopeId (last (w_evidence t)) = Some (pf_id p) \<and>
    may_be_asked s (cx_workspaceId ctx) (pf_scopeType p) (pf_scopeId p) (pf_assignedContactId p) \<and>
    (\<exists>c \<in> set (w_contacts s). ct_id c = pf_assignedContactId p \<and> ct_workspaceId c = cx_workspaceId ctx \<and>
       ct_archivedAt c = None) \<and>
    (isDelegateRole (cx_role ctx) \<longrightarrow>
      some_in (propertyIdOfScope (cx_workspaceId ctx) (pf_scopeType p) (pf_scopeId p) s) (cx_delegatePropertyIds ctx))"
proof -
  obtain c where c: "List.find (\<lambda>c. ct_id c = px_assignedContactId args \<and> ct_workspaceId c = cx_workspaceId ctx \<and>
        ct_archivedAt c = None) (w_contacts s) = Some c"
      "ct_id c \<in> set (proofScopeContactIds (cx_workspaceId ctx) (px_scopeType args) (px_scopeId args) s)"
    and p: "p = proof_row ctx (w_next s) (w_now s) args"
    and t: "t = s\<lparr>w_next := Suc (Suc (w_next s)), w_proofs := w_proofs s @ [p],
      w_evidence := w_evidence s @ [evidence_row (Suc (w_next s)) (w_now s)
        (evidence_by ctx EV_PROOF_REQUESTED S_PROOF_REQUEST (Some (w_next s))
         (JObj [(''title'', JStr (px_title args)), (''assignedContactId'', JId (px_assignedContactId args))]))]\<rparr>"
    and d: "isDelegateRole (cx_role ctx) \<Longrightarrow>
      assertDelegatePropertyId ctx (propertyIdOfScope (cx_workspaceId ctx) (px_scopeType args) (px_scopeId args) s) = Inr ()"
    using createProofRequest_ok [OF assms] by blast
  have "ct_id c = px_assignedContactId args" using find_Some_in [OF c(1)] by simp
  then show ?thesis
    using proofScopeContactIds_sound [OF c(2)] find_Some_in [OF c(1)] d
    by (auto simp: t p proof_row_def evidence_row_def evidence_by_def evidenceOf_def assertDelegatePropertyId_def
        split: if_splits)
qed

subsection \<open>What a submission leaves\<close>

lemma logDocumentAccess_eval [op_eval]:
  "logDocumentAccess ws d a u l ip dev s = (Inr (), s\<lparr>w_next := Suc (w_next s), w_access := w_access s @
     [\<lparr> da_id = w_next s, da_workspaceId = ws, da_documentId = d, da_actorUserId = u, da_secureLinkId = l,
        da_action = a, da_ip = ip, da_device = dev, da_createdAt = w_now s \<rparr>]\<rparr>)"
  by (simp add: logDocumentAccess_def bindE_apply op_eval)

text \<open>The part of the database an upload does not touch.\<close>

definition beside_uploads :: "world \<Rightarrow> _" where
  "beside_uploads s = (w_proofs s, w_flags s, w_consents s, w_evidence s, w_links s, w_messages s, w_now s)"

definition uploaded :: "(string \<Rightarrow> string) \<Rightarrow> secure_link \<Rightarrow> uid \<Rightarrow> upload_file list \<Rightarrow> world \<Rightarrow> document list \<Rightarrow> world \<Rightarrow> bool" where
  "uploaded hash link r files s docs t \<longleftrightarrow>
     w_documents t = w_documents s @ docs \<and> map dc_sha256 docs = map (hash \<circ> uf_data) files \<and>
     map dc_secureLinkId docs = map (\<lambda>_. Some (sl_id link)) files \<and> map dc_scopeId docs = map (\<lambda>_. Some r) files \<and>
     (\<exists>log. w_access t = w_access s @ log \<and> map da_documentId log = map dc_id docs \<and>
        map da_action log = map (\<lambda>_. DA_UPLOADED) files \<and> map da_secureLinkId log = map (\<lambda>_. Some (sl_id link)) files)"

lemma ingest_files_uploads:
  "\<exists>docs t. ingest_files hash link meta r files s = (Inr docs, t) \<and> uploaded hash link r files s docs t \<and>
     beside_uploads t = beside_uploads s \<and> w_next s \<le> w_next t"
proof (induction files arbitrary: s)
  case Nil
  then show ?case by (simp add: op_eval uploaded_def)
next
  case (Cons f fs)
  define a where "a = \<lparr> ig_workspaceId = sl_workspaceId link, ig_scopeType = S_PROOF_REQUEST, ig_scopeId = Some r,
          ig_kind = (case uf_kind f of None \<Rightarrow> DOC_OTHER | Some k \<Rightarrow> k), ig_fileName = uf_fileName f,
          ig_mime = uf_mime f, ig_data = uf_data f, ig_uploadedById = None,
          ig_secureLinkId = Some (sl_id link) \<rparr>"
  define doc where "doc = ingested hash a s"
  define s1 where "s1 = snd (ingestDocument hash a s)"
  define s2 where "s2 = snd (logDocumentAccess (sl_workspaceId link) (dc_id doc) DA_UPLOADED None (Some (sl_id link))
    (lm_ip meta) (lm_device meta) s1)"
  obtain docs t where rest: "ingest_files hash link meta r fs s2 = (Inr docs, t)" "uploaded hash link r fs s2 docs t"
    "beside_uploads t = beside_uploads s2" "w_next s2 \<le> w_next t"
    using Cons.IH by blast
  have run: "ingest_files hash link meta r (f # fs) s = (Inr (doc # docs), t)"
    using rest(1) by (simp add: bindE_apply a_def [symmetric] ingestDocument_eval logDocumentAccess_eval
        s2_def s1_def doc_def ret_eval)
  have "w_documents s2 = w_documents s @ [doc]" "beside_uploads s2 = beside_uploads s" "w_next s \<le> w_next s2"
    "dc_sha256 doc = hash (uf_data f)" "dc_secureLinkId doc = Some (sl_id link)" "dc_scopeId doc = Some r"
    "\<exists>e. w_access s2 = w_access s @ [e] \<and> da_documentId e = dc_id doc \<and> da_action e = DA_UPLOADED \<and>
       da_secureLinkId e = Some (sl_id link)"
    by (simp_all add: s2_def s1_def doc_def ingestDocument_eval logDocumentAccess_eval beside_uploads_def ingested_def a_def)
  then have "uploaded hash link r (f # fs) s (doc # docs) t" "beside_uploads t = beside_uploads s" "w_next s \<le> w_next t"
    using rest(2-4) by (auto simp: uploaded_def)
  then show ?case using run by blast
qed

lemma submission_consent_eval:
  "\<exists>t. submission_consent link meta r s = (Inr (), t) \<and>
     (\<exists>cs. w_consents t = w_consents s @ cs \<and>
        map (\<lambda>c. (cn_contactId c, cn_secureLinkId c, cn_purpose c)) cs =
          (case sl_contactId link of None \<Rightarrow> [] | Some c \<Rightarrow> [(Some c, Some (sl_id link), CP_LINK_INTERACTION)])) \<and>
     (\<exists>es. w_evidence t = w_evidence s @ es) \<and>
     w_documents t = w_documents s \<and> w_access t = w_access s \<and> w_proofs t = w_proofs s \<and> w_flags t = w_flags s \<and>
     w_links t = w_links s \<and> w_messages t = w_messages s \<and> w_now t = w_now s \<and> w_next s \<le> w_next t"
  by (cases "sl_contactId link")
    (simp_all add: submission_consent_def link_interaction_consent_def bindE_apply op_eval Let_def link_evidence_def
      evidenceOf_def)

lemma flags_ok_later:
  "flags_ok s \<Longrightarrow> w_flags t = w_flags s \<Longrightarrow> w_next s \<le> w_next t \<Longrightarrow> flags_ok t"
  by (auto simp: flags_ok_def)

definition submitted :: "proof_request \<Rightarrow> proof_request" where
  "submitted p = p\<lparr>pf_status := PF_SUBMITTED\<rparr>"

definition upload_event :: "secure_link \<Rightarrow> string option \<Rightarrow> document list \<Rightarrow> evidence_event \<Rightarrow> bool" where
  "upload_event link submissionNote docs e \<longleftrightarrow> ev_type e = EV_PROOF_UPLOADED \<and> ev_actorType e = A_TENANT_LINK \<and>
     ev_scopeType e = S_PROOF_REQUEST \<and> ev_scopeId e = Some (sl_scopeId link) \<and>
     ev_payload e = Some (JObj [(''secureLinkId'', JId (sl_id link)),
       (''documentIds'', JArr (map (JId \<circ> dc_id) docs)), (''note'', jopt JStr submissionNote)])"

lemma submitProofViaLink_cases:
  "case submitProofViaLink hash link files submissionNote meta s of
      (Inl e, t) \<Rightarrow> t = s \<and> (sl_purpose link \<noteq> LP_PROOF_UPLOAD \<or> sl_scopeType link \<noteq> S_PROOF_REQUEST \<or>
        find_proof (sl_scopeId link) s = None)
    | (Inr docs, t) \<Rightarrow>
        uploaded hash link (sl_scopeId link) files s docs t \<and>
        (\<exists>e es. w_evidence t = w_evidence s @ e # es \<and> upload_event link submissionNote docs e) \<and>
        (\<exists>cs. w_consents t = w_consents s @ cs \<and>
          map (\<lambda>c. (cn_contactId c, cn_secureLinkId c, cn_purpose c)) cs =
            (case sl_contactId link of None \<Rightarrow> [] | Some c \<Rightarrow> [(Some c, Some (sl_id link), CP_LINK_INTERACTION)])) \<and>
        w_proofs t = upd_where (\<lambda>p. pf_id p = sl_scopeId link) submitted (w_proofs s) \<and>
        (flags_ok s \<longrightarrow> \<not> active_in (proof_scope (sl_scopeId link) (sl_workspaceId link)) RK_PROOF_OVERDUE t)"
proof (cases "sl_purpose link = LP_PROOF_UPLOAD \<and> sl_scopeType link = S_PROOF_REQUEST \<and> find_proof (sl_scopeId link) s \<noteq> None")
  case False
  then show ?thesis
    by (auto simp: submitProofViaLink_def bindE_apply op_eval split: option.splits)
next
  case True
  then obtain p where p: "find_proof (sl_scopeId link) s = Some p" by blast
  then have id: "pf_id p = sl_scopeId link" by (auto simp: find_proof_def dest: find_Some_in)
  obtain docs s1 where s1: "ingest_files hash link meta (sl_scopeId link) files s = (Inr docs, s1)"
    "uploaded hash link (sl_scopeId link) files s docs s1" "beside_uploads s1 = beside_uploads s" "w_next s \<le> w_next s1"
    using ingest_files_uploads by blast
  define ev where "ev = link_evidence link EV_PROOF_UPLOADED S_PROOF_REQUEST (sl_scopeId link)
    (JObj [(''secureLinkId'', JId (sl_id link)), (''documentIds'', JArr (map (JId \<circ> dc_id) docs)),
           (''note'', jopt JStr submissionNote)])"
  define s2 where "s2 = s1\<lparr>w_next := Suc (w_next s1), w_evidence := w_evidence s1 @ [evidence_row (w_next s1) (w_now s1) ev]\<rparr>"
  have ev: "recordEvidence ev s1 = (Inr (w_next s1), s2)"
    unfolding s2_def by (rule recordEvidence_eval) (simp add: ev_def link_evidence_def evidenceOf_def)
  have "upload_event link submissionNote docs (evidence_row (w_next s1) (w_now s1) ev)"
    by (simp add: upload_event_def evidence_row_def ev_def link_evidence_def evidenceOf_def)
  obtain s3 where s3: "submission_consent link meta (sl_scopeId link) s2 = (Inr (), s3)"
    "\<exists>cs. w_consents s3 = w_consents s2 @ cs \<and> map (\<lambda>c. (cn_contactId c, cn_secureLinkId c, cn_purpose c)) cs =
        (case sl_contactId link of None \<Rightarrow> [] | Some c \<Rightarrow> [(Some c, Some (sl_id link), CP_LINK_INTERACTION)])"
    "\<exists>es. w_evidence s3 = w_evidence s2 @ es"
    "w_documents s3 = w_documents s2" "w_access s3 = w_access s2" "w_proofs s3 = w_proofs s2" "w_flags s3 = w_flags s2"
    "w_next s2 \<le> w_next s3"
    using submission_consent_eval [of link meta "sl_scopeId link" s2] by blast
  define s4 where "s4 = s3\<lparr>w_proofs := upd_where (\<lambda>p. pf_id p = sl_scopeId link) submitted (w_proofs s3)\<rparr>"
  define s5 where "s5 = snd (clearProofOverdue (sl_scopeId link) (sl_workspaceId link) s4)"
  have "submitProofViaLink hash link files submissionNote meta s = (Inr docs, s5)"
    using True p s1(1) ev s3(1)
    by (simp add: submitProofViaLink_def bindE_apply op_eval id ev_def set_proof_def submitted_def [abs_def] s4_def s5_def
        clearProofOverdue_def clearFlag_eq)
  moreover have "flags_ok s4" if "flags_ok s"
    using that s1(3,4) s3(7,8) by (auto simp: s4_def s2_def beside_uploads_def intro!: flags_ok_later [of s])
  then have "\<not> active_in (proof_scope (sl_scopeId link) (sl_workspaceId link)) RK_PROOF_OVERDUE s5" if "flags_ok s"
    using that unfolding s5_def clearProofOverdue_def by (simp add: active_clear)
  moreover have "\<exists>es. w_evidence s5 = w_evidence s4 @ es" "w_consents s5 = w_consents s4" "w_proofs s5 = w_proofs s4"
    "w_documents s5 = w_documents s4" "w_access s5 = w_access s4"
    by (simp_all add: s5_def clearProofOverdue_def clearFlag_eq split: option.splits)
  ultimately show ?thesis
    using s1(2,3) s3(2-7) \<open>upload_event link submissionNote docs (evidence_row (w_next s1) (w_now s1) ev)\<close>
    by (auto simp: uploaded_def s4_def s2_def beside_uploads_def)
qed

text \<open>
  a submission over a link is recorded in full or not at all: it is refused,
  with nothing written, only when the link is for something else or the request is gone; otherwise
  every file is a document of the request that carries its hash and the link it came over, each
  with its line in the access log, one event names exactly these documents, the addressee's
  consent is recorded when the link has one, the request is submitted, and no overdue flag of it
  is left standing.
\<close>

theorem submission_leaves_its_record:
  assumes "flags_ok s"
  shows "case submitProofViaLink hash link files submissionNote meta s of
      (Inl e, t) \<Rightarrow> t = s \<and> (sl_purpose link \<noteq> LP_PROOF_UPLOAD \<or> sl_scopeType link \<noteq> S_PROOF_REQUEST \<or>
        find_proof (sl_scopeId link) s = None)
    | (Inr docs, t) \<Rightarrow>
        uploaded hash link (sl_scopeId link) files s docs t \<and>
        (\<exists>e es. w_evidence t = w_evidence s @ e # es \<and> upload_event link submissionNote docs e) \<and>
        (\<exists>cs. w_consents t = w_consents s @ cs \<and>
          map (\<lambda>c. (cn_contactId c, cn_secureLinkId c, cn_purpose c)) cs =
            (case sl_contactId link of None \<Rightarrow> [] | Some c \<Rightarrow> [(Some c, Some (sl_id link), CP_LINK_INTERACTION)])) \<and>
        w_proofs t = upd_where (\<lambda>p. pf_id p = sl_scopeId link) submitted (w_proofs s) \<and>
        \<not> active_in (proof_scope (sl_scopeId link) (sl_workspaceId link)) RK_PROOF_OVERDUE t"
  using submitProofViaLink_cases [where s = s and hash = hash and link = link and files = files and submissionNote = submissionNote and meta = meta] assms
  by (simp split: prod.splits sum.splits)

definition sample_proof :: proof_request where
  "sample_proof = \<lparr> pf_id = 81, pf_workspaceId = 5, pf_scopeType = S_TENANCY, pf_scopeId = Some 51, pf_title = ''Receipt'',
     pf_requiredEvidence = ''A receipt'', pf_assignedContactId = 31, pf_dueAt = Some 0, pf_status = PF_SENT,
     pf_decisionById = None, pf_decisionAt = None, pf_decisionNote = None, pf_createdById = 1, pf_createdAt = 0 \<rparr>"

theorem submission_leaves_its_record_witness:
  "\<exists>docs t. submitProofViaLink id sample_link [] None \<lparr> lm_ip = None, lm_device = None, lm_noticeLang = None \<rparr>
     (empty_world\<lparr>w_proofs := [sample_proof]\<rparr>) = (Inr docs, t) \<and> w_proofs t = [submitted sample_proof]"
proof -
  let ?s = "empty_world\<lparr>w_proofs := [sample_proof]\<rparr>"
  have ok: "flags_ok ?s" by (simp add: flags_ok_def empty_world_def)
  have sl: "sl_purpose sample_link = LP_PROOF_UPLOAD" "sl_scopeType sample_link = S_PROOF_REQUEST"
    "sl_scopeId sample_link = 81" by (simp_all add: sample_link_def)
  have "pf_id sample_proof = 81" by (simp add: sample_proof_def)
  then have f: "find_proof 81 ?s = Some sample_proof" by (simp add: find_proof_def)
  show ?thesis
    using submission_leaves_its_record [OF ok, where hash = id and link = sample_link and files = "[]" and submissionNote = None
      and meta = "\<lparr> lm_ip = None, lm_device = None, lm_noticeLang = None \<rparr>"] \<open>pf_id sample_proof = 81\<close>
    by (auto simp: sl f split: prod.splits sum.splits)
qed

subsection \<open>Deciding\<close>

lemma getProofRequest_ok:
  "getProofRequest ctx i s = (Inr p, t) \<longleftrightarrow> t = s \<and> find_proof i s = Some p \<and>
     hasCapability ctx ''proofs.read'' \<and> assertReadable ctx (RT_proofRequest (Some p)) s = Inr ()"
  by (cases "find_proof i s"; cases "assertReadable ctx (RT_proofRequest (find_proof i s)) s")
    (auto simp: getProofRequest_def bindE_apply op_eval requireCap_def)

lemma getProofRequest_reads: "reads_only (getProofRequest ctx i)"
  unfolding getProofRequest_def requireCap_def by (intro outcome)

lemma decideProofRequest_cases:
  "decideProofRequest ctx i d n s = (r, t) \<Longrightarrow>
     (\<exists>e. r = Inl e \<and> t = s) \<or>
     (\<exists>p. r = Inr (decided_proof ctx d n (w_now s) p) \<and> find_proof i s = Some p \<and>
        hasCapability ctx ''proofs.decide'' \<and> hasCapability ctx ''proofs.read'' \<and> pf_status p \<in> {PF_SUBMITTED, PF_OVERDUE} \<and>
        t = s\<lparr>w_next := Suc (w_next s), w_proofs := upd_where (\<lambda>p. pf_id p = i) (decided_proof ctx d n (w_now s)) (w_proofs s),
          w_evidence := w_evidence s @ [evidence_row (w_next s) (w_now s) (evidence_by ctx
            (if d = AD_APPROVED then EV_PROOF_APPROVED else EV_PROOF_REJECTED) S_PROOF_REQUEST (Some i)
            (JObj [(''note'', jopt JStr n)]))]\<rparr>)"
proof (cases "getProofRequest ctx i s")
  case (Pair g u)
  assume run: "decideProofRequest ctx i d n s = (r, t)"
  have u: "u = s" using getProofRequest_reads Pair by (rule reads_onlyD)
  show ?thesis
  proof (cases g)
    case (Inl e)
    then show ?thesis using run Pair u
      by (auto simp: decideProofRequest_def bindE_apply requireCap_def assertE_eval split: if_splits)
  next
    case (Inr p)
    then show ?thesis using run Pair u getProofRequest_ok [of ctx i s p u]
      by (auto simp: decideProofRequest_def bindE_apply requireCap_def assertE_eval set_proof_def writeE_eval getNow_eval
          ret_eval recordEvidence_eval [OF evidence_by_ok] split: if_splits)
  qed
qed

text \<open>
  A request that is overdue can be approved although nothing was ever uploaded for it, and its
  overdue flag then stays active: the flag is only cleared by a submission.
\<close>

theorem overdue_approved_without_upload:
  assumes "find_proof i s = Some p" and "pf_status p = PF_OVERDUE" and "hasCapability ctx ''proofs.decide''"
    and "getProofRequest ctx i s = (Inr p, s)"
  shows "\<exists>q t. decideProofRequest ctx i AD_APPROVED n s = (Inr q, t) \<and> pf_status q = PF_APPROVED \<and>
    w_documents t = w_documents s \<and> w_flags t = w_flags s"
  using assms
  by (simp add: decideProofRequest_def bindE_apply requireCap_def assertE_eval set_proof_def writeE_eval getNow_eval
      ret_eval recordEvidence_eval [OF evidence_by_ok] decided_proof_def)

subsection \<open>The sweep\<close>

lemma sweep_loop:
  "\<exists>t. forE rows (\<lambda>q. thenE (set_proof (pf_id q) (\<lambda>p. p\<lparr>pf_status := PF_OVERDUE\<rparr>))
      (raiseProofOverdue (pf_id q) (pf_workspaceId q))) s = (Inr (), t) \<and>
    w_proofs t = upd_where (\<lambda>p. pf_id p \<in> pf_id ` set rows) (\<lambda>p. p\<lparr>pf_status := PF_OVERDUE\<rparr>) (w_proofs s) \<and>
    (\<forall>q \<in> set rows. active_in (proof_scope (pf_id q) (pf_workspaceId q)) RK_PROOF_OVERDUE t) \<and>
    (\<forall>sc c. active_in sc c s \<longrightarrow> active_in sc c t) \<and>
    (\<exists>es. w_evidence t = w_evidence s @ es) \<and> w_now t = w_now s \<and> w_next s \<le> w_next t"
proof (induction rows arbitrary: s)
  case Nil
  show ?case by (simp add: op_eval upd_where_def)
next
  case (Cons q qs)
  define s1 where "s1 = s\<lparr>w_proofs := upd_where (\<lambda>p. pf_id p = pf_id q) (\<lambda>p. p\<lparr>pf_status := PF_OVERDUE\<rparr>) (w_proofs s)\<rparr>"
  define s2 where "s2 = snd (raiseProofOverdue (pf_id q) (pf_workspaceId q) s1)"
  have raise: "raiseProofOverdue (pf_id q) (pf_workspaceId q) s1 = (Inr (), s2)"
    by (simp add: s2_def raiseProofOverdue_def raiseFlag_eq)
  have act: "active_in sc c s \<Longrightarrow> active_in sc c s2" for sc c
    by (auto simp: s2_def s1_def raiseProofOverdue_def raiseFlag_eq active_in_def)
  have here: "active_in (proof_scope (pf_id q) (pf_workspaceId q)) RK_PROOF_OVERDUE s2"
    by (simp add: s2_def raiseProofOverdue_def active_raise)
  have s2: "w_proofs s2 = w_proofs s1" "\<exists>es. w_evidence s2 = w_evidence s @ es" "w_now s2 = w_now s" "w_next s \<le> w_next s2"
    by (simp_all add: s2_def s1_def raiseProofOverdue_def raiseFlag_eq)
  obtain t where t: "forE qs (\<lambda>q. thenE (set_proof (pf_id q) (\<lambda>p. p\<lparr>pf_status := PF_OVERDUE\<rparr>))
      (raiseProofOverdue (pf_id q) (pf_workspaceId q))) s2 = (Inr (), t)"
    "w_proofs t = upd_where (\<lambda>p. pf_id p \<in> pf_id ` set qs) (\<lambda>p. p\<lparr>pf_status := PF_OVERDUE\<rparr>) (w_proofs s2)"
    "\<forall>q \<in> set qs. active_in (proof_scope (pf_id q) (pf_workspaceId q)) RK_PROOF_OVERDUE t"
    "\<forall>sc c. active_in sc c s2 \<longrightarrow> active_in sc c t" "\<exists>es. w_evidence t = w_evidence s2 @ es" "w_now t = w_now s2"
    "w_next s2 \<le> w_next t"
    using Cons.IH [of s2] by blast
  have "w_proofs t = upd_where (\<lambda>p. pf_id p \<in> pf_id ` set (q # qs)) (\<lambda>p. p\<lparr>pf_status := PF_OVERDUE\<rparr>) (w_proofs s)"
    unfolding t(2) s2(1) s1_def by (auto simp: upd_where_def)
  moreover have "set_proof (pf_id q) (\<lambda>p. p\<lparr>pf_status := PF_OVERDUE\<rparr>) s = (Inr (), s1)"
    by (simp add: set_proof_def writeE_eval s1_def)
  then have "forE (q # qs) (\<lambda>q. thenE (set_proof (pf_id q) (\<lambda>p. p\<lparr>pf_status := PF_OVERDUE\<rparr>))
      (raiseProofOverdue (pf_id q) (pf_workspaceId q))) s = (Inr (), t)"
    by (simp only: forE.simps bindE_eval(1) raise t(1))
  moreover have "\<exists>es. w_evidence t = w_evidence s @ es" using t(5) s2(2) by auto
  ultimately show ?case using t(3,4,6,7) act here s2(3,4) by (intro exI [of _ t]) auto
qed

text \<open>
  the overdue sweep settles: it marks exactly the requests that are open or sent and whose due
  date has passed, returns their number and leaves each with an active flag; run again at once it
  finds nothing and changes nothing.
\<close>

theorem sweep_settles:
  assumes "distinct (map pf_id (w_proofs s))" and "sweepOverdueProofRequests ws s = (r, t)"
  shows "r = Inr (count_where (proof_is_overdue ws (todayInDubai (w_now s))) (w_proofs s)) \<and>
    w_proofs t = upd_where (proof_is_overdue ws (todayInDubai (w_now s))) (\<lambda>p. p\<lparr>pf_status := PF_OVERDUE\<rparr>) (w_proofs s) \<and>
    {p \<in> set (w_proofs s). proof_is_overdue ws (todayInDubai (w_now s)) p \<and>
      \<not> active_in (proof_scope (pf_id p) (pf_workspaceId p)) RK_PROOF_OVERDUE t} = {} \<and>
    sweepOverdueProofRequests ws t = (Inr 0, t)"
proof -
  let ?due = "proof_is_overdue ws (todayInDubai (w_now s))"
  let ?os = "filter ?due (w_proofs s)"
  obtain u where u: "forE ?os (\<lambda>q. thenE (set_proof (pf_id q) (\<lambda>p. p\<lparr>pf_status := PF_OVERDUE\<rparr>))
      (raiseProofOverdue (pf_id q) (pf_workspaceId q))) s = (Inr (), u)"
    "w_proofs u = upd_where (\<lambda>p. pf_id p \<in> pf_id ` set ?os) (\<lambda>p. p\<lparr>pf_status := PF_OVERDUE\<rparr>) (w_proofs s)"
    "\<forall>q \<in> set ?os. active_in (proof_scope (pf_id q) (pf_workspaceId q)) RK_PROOF_OVERDUE u" "w_now u = w_now s"
    using sweep_loop [of ?os s] by blast
  have rt: "r = Inr (length ?os)" "t = u"
    using assms(2) u(1) by (simp_all add: sweepOverdueProofRequests_def bindE_apply op_eval)
  have "p \<in> set (w_proofs s) \<Longrightarrow> pf_id p \<in> pf_id ` set ?os \<longleftrightarrow> ?due p" for p
    using assms(1) by (auto simp: distinct_map inj_on_def)
  then have rows: "w_proofs t = upd_where ?due (\<lambda>p. p\<lparr>pf_status := PF_OVERDUE\<rparr>) (w_proofs s)"
    unfolding rt u(2) upd_where_def by (intro map_cong refl) simp
  have "filter ?due (w_proofs t) = []"
    by (auto simp: rows filter_empty_conv set_upd_where proof_is_overdue_def)
  then have again: "sweepOverdueProofRequests ws t = (Inr 0, t)"
    by (simp add: sweepOverdueProofRequests_def bindE_apply op_eval rt u(4))
  show ?thesis using rows again u(3) by (auto simp: rt count_where_def)
qed

theorem sweep_settles_witness:
  "sweepOverdueProofRequests None (snd (sweepOverdueProofRequests None (empty_world\<lparr>w_now := 86400000, w_proofs := [sample_proof]\<rparr>)))
     = (Inr 0, snd (sweepOverdueProofRequests None (empty_world\<lparr>w_now := 86400000, w_proofs := [sample_proof]\<rparr>)))"
proof -
  have "distinct (map pf_id (w_proofs (empty_world\<lparr>w_now := 86400000, w_proofs := [sample_proof]\<rparr>)))" by simp
  from sweep_settles [OF this, of None] show ?thesis by (metis prod.collapse)
qed

subsection \<open>A status is backed by its evidence\<close>

definition logged :: "evidenceType \<Rightarrow> uid \<Rightarrow> world \<Rightarrow> bool" where
  "logged ty i s \<longleftrightarrow> (\<exists>e \<in> set (w_evidence s). ev_type e = ty \<and> ev_scopeType e = S_PROOF_REQUEST \<and> ev_scopeId e = Some i)"

definition evidenced :: "world \<Rightarrow> proof_request \<Rightarrow> bool" where
  "evidenced s p \<longleftrightarrow> pf_status p \<in> {PF_OPEN, PF_SENT, PF_SUBMITTED, PF_APPROVED, PF_OVERDUE} \<and>
     (pf_status p = PF_SUBMITTED \<longrightarrow> logged EV_PROOF_UPLOADED (pf_id p) s) \<and>
     (pf_status p = PF_APPROVED \<longrightarrow> logged EV_PROOF_APPROVED (pf_id p) s \<and> pf_decisionById p \<noteq> None \<and> pf_decisionAt p \<noteq> None)"

definition proofs_ok :: "world \<Rightarrow> bool" where
  "proofs_ok s \<longleftrightarrow> distinct (map pf_id (w_proofs s)) \<and> (\<forall>p \<in> set (w_proofs s). pf_id p < w_next s \<and> evidenced s p)"

definition keeps_proofs :: "world \<Rightarrow> world \<Rightarrow> bool" where
  "keeps_proofs s t \<longleftrightarrow> (proofs_ok s \<longrightarrow> proofs_ok t)"

interpretation proof_law: step_law keeps_proofs
  by unfold_locales (auto simp: keeps_proofs_def)

lemma evidenced_mono: "prefix (w_evidence s) (w_evidence t) \<Longrightarrow> evidenced s p \<Longrightarrow> evidenced t p"
  by (auto simp: evidenced_def logged_def prefix_def)

lemma proofs_ok_quiet: "w_proofs t = w_proofs s \<Longrightarrow> extends s t \<Longrightarrow> proofs_ok s \<Longrightarrow> proofs_ok t"
  by (force simp: proofs_ok_def extends_def intro: evidenced_mono)

lemma proofs_ok_upd:
  assumes "proofs_ok s" and "w_proofs t = upd_where q f (w_proofs s)" and "extends s t"
    and "\<And>p. pf_id (f p) = pf_id p" and "\<And>p. q p \<Longrightarrow> evidenced t (f p)"
  shows "proofs_ok t"
  using assms by (force simp: proofs_ok_def map_upd_where set_upd_where extends_def intro: evidenced_mono)

lemma keeps_proofs_quiet: "keeps (same w_proofs) m \<Longrightarrow> keeps extends m \<Longrightarrow> keeps keeps_proofs m"
  by (auto simp: keeps_def keeps_proofs_def same_def intro: proofs_ok_quiet)

lemma frames_getProofRequest [frames]: "keeps (same f) (getProofRequest ctx i)"
  using getProofRequest_reads [of ctx i] by (simp add: keeps_def same_def reads_only_def)

lemma keeps_getProofRequest [log_keeps]: "keeps extends (getProofRequest ctx i)"
  unfolding getProofRequest_def by (intro logs.keeps_intros log_keeps)

lemma keeps_set_sent: "keeps keeps_proofs (set_proof i (\<lambda>p. p\<lparr>pf_status := PF_SENT\<rparr>))"
  unfolding set_proof_def
proof (rule keeps_writeE)
  fix s :: world
  let ?f = "\<lambda>p. p\<lparr>pf_status := PF_SENT\<rparr>"
  let ?t = "s\<lparr>w_proofs := upd_where (\<lambda>p. pf_id p = i) ?f (w_proofs s)\<rparr>"
  have "proofs_ok ?t" if "proofs_ok s"
    by (rule proofs_ok_upd [OF that, where f = ?f and q = "\<lambda>p. pf_id p = i"]) (simp_all add: extends_def evidenced_def)
  then show "keeps_proofs s ?t" by (simp add: keeps_proofs_def)
qed

lemma keeps_proofs_send: "keeps keeps_proofs (sendProofRequest h b dm tk ctx i)"
  unfolding sendProofRequest_def
  by (intro proof_law.keeps_intros keeps_set_sent keeps_proofs_quiet frames log_keeps; simp add: log_keeps)

lemma keeps_proofs_ask: "keeps keeps_proofs (createProofRequest ctx args)"
proof (rule keepsI)
  fix s :: world
  have "all_or_nothing (createProofRequest ctx args)"
    unfolding createProofRequest_def assertProofRequestSelection_def requireCap_def
    by (intro all_or_nothing_check all_or_nothing_never outcome evidence_by_ok)
  then have err: "createProofRequest ctx args s = (Inl e, t) \<Longrightarrow> t = s" for e t by (rule all_or_nothingD)
  have "proofs_ok t" if run: "createProofRequest ctx args s = (Inr p, t)" and ok: "proofs_ok s" for p t
    using run
  proof (rule createProofRequest_ok)
    fix c
    assume p: "p = proof_row ctx (w_next s) (w_now s) args"
      and t: "t = s\<lparr>w_next := Suc (Suc (w_next s)), w_proofs := w_proofs s @ [p],
        w_evidence := w_evidence s @ [evidence_row (Suc (w_next s)) (w_now s)
          (evidence_by ctx EV_PROOF_REQUESTED S_PROOF_REQUEST (Some (w_next s))
           (JObj [(''title'', JStr (px_title args)), (''assignedContactId'', JId (px_assignedContactId args))]))]\<rparr>"
    have "prefix (w_evidence s) (w_evidence t)" by (simp add: t)
    moreover have "w_proofs t = w_proofs s @ [p]" "w_next t = Suc (Suc (w_next s))" by (simp_all add: t)
    moreover have "evidenced t p" "pf_id p = w_next s" by (simp_all add: p evidenced_def proof_row_def)
    ultimately show "proofs_ok t" using ok by (force simp: proofs_ok_def intro: evidenced_mono)
  qed
  then show "keeps_proofs s (snd (createProofRequest ctx args s))"
    using err by (cases "createProofRequest ctx args s"; cases "fst (createProofRequest ctx args s)")
      (auto simp: keeps_proofs_def)
qed

lemma keeps_clearProofOverdue_proofs: "w_proofs (snd (clearProofOverdue i ws s)) = w_proofs s"
  by (simp add: clearProofOverdue_def clearFlag_eq split: option.splits)

lemma keeps_ingest_files [log_keeps]: "keeps extends (ingest_files h l m r fs)"
  by (induction fs) (simp_all only: ingest_files.simps, (intro logs.keeps_intros log_keeps | assumption)+)

lemma keeps_submission [log_keeps]: "keeps extends (submitProofViaLink h l fs n m)"
  unfolding submitProofViaLink_def submission_consent_def link_interaction_consent_def set_proof_def Let_def
  by (intro logs.keeps_intros log_keeps keeps_quiet_write) simp_all

lemma submission_rows:
  "case submitProofViaLink hash link files n meta s of
      (Inl e, t) \<Rightarrow> t = s
    | (Inr docs, t) \<Rightarrow> w_proofs t = upd_where (\<lambda>p. pf_id p = sl_scopeId link) submitted (w_proofs s) \<and>
        logged EV_PROOF_UPLOADED (sl_scopeId link) t"
  using submitProofViaLink_cases [where s = s and hash = hash and link = link and files = files
      and submissionNote = n and meta = meta]
  by (auto simp: logged_def upload_event_def split: prod.splits sum.splits)

lemma keeps_proofs_submit: "keeps keeps_proofs (submitProofViaLink h link files n meta)"
proof (rule keepsI)
  fix s :: world
  obtain r t where run: "submitProofViaLink h link files n meta s = (r, t)" by fastforce
  have ext: "extends s t" using keepsD [OF keeps_submission run] .
  show "keeps_proofs s (snd (submitProofViaLink h link files n meta s))"
  proof (cases r)
    case (Inl e)
    then show ?thesis using submission_rows [where hash = h and link = link and files = files and n = n and meta = meta and s = s] run by (simp add: keeps_proofs_def)
  next
    case (Inr docs)
    then have rows: "w_proofs t = upd_where (\<lambda>p. pf_id p = sl_scopeId link) submitted (w_proofs s)"
      and ev: "logged EV_PROOF_UPLOADED (sl_scopeId link) t"
      using submission_rows [where hash = h and link = link and files = files and n = n and meta = meta and s = s] run by simp_all
    have "proofs_ok t" if "proofs_ok s"
      by (rule proofs_ok_upd [OF that rows ext]) (use ev in \<open>simp_all add: submitted_def evidenced_def\<close>)
    then show ?thesis by (simp add: run keeps_proofs_def)
  qed
qed

lemma keeps_proofs_decide: "keeps keeps_proofs (decideProofRequest ctx i d n)"
proof (rule keepsI)
  fix s :: world
  obtain r t where run: "decideProofRequest ctx i d n s = (r, t)" by fastforce
  from decideProofRequest_cases [OF run] show "keeps_proofs s (snd (decideProofRequest ctx i d n s))"
  proof (elim disjE exE conjE)
    fix p
    let ?e = "evidence_row (w_next s) (w_now s) (evidence_by ctx
            (if d = AD_APPROVED then EV_PROOF_APPROVED else EV_PROOF_REJECTED) S_PROOF_REQUEST (Some i)
            (JObj [(''note'', jopt JStr n)]))"
    assume t: "t = s\<lparr>w_next := Suc (w_next s),
      w_proofs := upd_where (\<lambda>p. pf_id p = i) (decided_proof ctx d n (w_now s)) (w_proofs s),
      w_evidence := w_evidence s @ [?e]\<rparr>"
    have ev: "evidenced t (decided_proof ctx d n (w_now s) q)" if "pf_id q = i" for q
    proof (cases "d = AD_APPROVED")
      case True
      then have "logged EV_PROOF_APPROVED i t"
        by (auto simp: logged_def t evidence_row_def evidence_by_def evidenceOf_def)
      then show ?thesis using True that by (simp add: evidenced_def decided_proof_def)
    qed (simp add: evidenced_def decided_proof_def)
    have rows: "w_proofs t = upd_where (\<lambda>p. pf_id p = i) (decided_proof ctx d n (w_now s)) (w_proofs s)" "extends s t"
      by (simp_all add: t extends_def)
    have "proofs_ok t" if "proofs_ok s"
      by (rule proofs_ok_upd [OF that rows _ ev]) (simp_all add: decided_proof_def)
    then show ?thesis by (simp add: run keeps_proofs_def)
  qed (simp add: run keeps_proofs_def)
qed

lemma keeps_sweep [log_keeps]: "keeps extends (sweepOverdueProofRequests ws)"
  unfolding sweepOverdueProofRequests_def set_proof_def
  by (intro logs.keeps_intros log_keeps keeps_quiet_write) simp_all

lemma keeps_proofs_sweep: "keeps keeps_proofs (sweepOverdueProofRequests ws)"
proof (rule keepsI)
  fix s :: world
  let ?f = "\<lambda>p. p\<lparr>pf_status := PF_OVERDUE\<rparr>"
  let ?os = "filter (proof_is_overdue ws (todayInDubai (w_now s))) (w_proofs s)"
  obtain t where t: "forE ?os (\<lambda>q. thenE (set_proof (pf_id q) ?f) (raiseProofOverdue (pf_id q) (pf_workspaceId q))) s = (Inr (), t)"
    "w_proofs t = upd_where (\<lambda>p. pf_id p \<in> pf_id ` set ?os) ?f (w_proofs s)"
    "\<exists>es. w_evidence t = w_evidence s @ es" "w_now t = w_now s" "w_next s \<le> w_next t"
    using sweep_loop [of ?os s] by blast
  have run: "sweepOverdueProofRequests ws s = (Inr (length ?os), t)"
    using t(1) by (simp add: sweepOverdueProofRequests_def bindE_apply op_eval)
  have "proofs_ok t" if "proofs_ok s"
    by (rule proofs_ok_upd [OF that t(2) keepsD [OF keeps_sweep run]]) (simp_all add: evidenced_def)
  then show "keeps_proofs s (snd (sweepOverdueProofRequests ws s))" by (simp add: run keeps_proofs_def)
qed

lemma keeps_proofs_mail: "keeps keeps_proofs (processInboundProofEmail h m)"
proof -
  have row: "keeps keeps_proofs (writeE (\<lambda>s. s\<lparr>w_messages := w_messages s @ [inbound_row i now link m]\<rparr>))" for i now link
    by (rule keeps_proofs_quiet [OF keeps_same_write keeps_quiet_write]) simp_all
  have read: "keeps keeps_proofs newId" "keeps keeps_proofs getNow" "keeps keeps_proofs (consumeLinkUse l)" for l
    by (intro keeps_proofs_quiet frames log_keeps; simp)+
  have branch: "keeps keeps_proofs (case v of Inl x \<Rightarrow> f x | Inr y \<Rightarrow> g y)"
    if "\<And>x. keeps keeps_proofs (f x)" "\<And>y. keeps keeps_proofs (g y)" for v :: "link_refusal + secure_link"
      and f :: "link_refusal \<Rightarrow> (string + unit) svc" and g
    using that by (cases v) auto
  show ?thesis unfolding processInboundProofEmail_def
    by (intro proof_law.keeps_intros branch row read keeps_proofs_submit)
qed

text \<open>What may happen to the requests, at any times and in any order.\<close>

datatype proof_event =
    PE_ask authz_ctx proof_input
  | PE_send string authz_ctx uid
  | PE_submit secure_link "upload_file list" "string option" link_meta
  | PE_decide authz_ctx uid approvalDecision "string option"
  | PE_sweep "uid option"
  | PE_mail inbound_mail

fun proof_event_step :: "(string \<Rightarrow> string) \<Rightarrow> string \<Rightarrow> string option \<Rightarrow> proof_event \<Rightarrow> world \<Rightarrow> world" where
  "proof_event_step hash base domain (PE_ask ctx args) s = snd (createProofRequest ctx args s)"
| "proof_event_step hash base domain (PE_send token ctx i) s = snd (sendProofRequest hash base domain token ctx i s)"
| "proof_event_step hash base domain (PE_submit link files n meta) s = snd (submitProofViaLink hash link files n meta s)"
| "proof_event_step hash base domain (PE_decide ctx i d n) s = snd (decideProofRequest ctx i d n s)"
| "proof_event_step hash base domain (PE_sweep ws) s = snd (sweepOverdueProofRequests ws s)"
| "proof_event_step hash base domain (PE_mail m) s = snd (processInboundProofEmail hash m s)"

definition run_proof_events ::
    "(string \<Rightarrow> string) \<Rightarrow> string \<Rightarrow> string option \<Rightarrow> (time \<times> proof_event) list \<Rightarrow> world \<Rightarrow> world" where
  "run_proof_events hash base domain es s =
     fold (\<lambda>(now, e) s. proof_event_step hash base domain e (s\<lparr>w_now := now\<rparr>)) es s"

text \<open>
  C22: the status of a request is backed by the log, whatever happens in whatever order, refusals
  and failures included: a request that reads as submitted has an upload event, one that reads as
  approved has an approval event, a decider and a time, and no request ever carries one of the
  statuses waiting, rejected or closed.
\<close>

theorem proof_status_is_evidenced:
  assumes "proofs_ok s"
  shows "proofs_ok (run_proof_events hash base domain es s)"
  using assms
proof (induction es arbitrary: s)
  case (Cons e es)
  obtain now ev where e: "e = (now, ev)" by fastforce
  have now: "proofs_ok (s\<lparr>w_now := now\<rparr>)"
    using Cons.prems by (simp add: proofs_ok_def evidenced_def logged_def)
  have "proofs_ok (proof_event_step hash base domain ev u)" if "proofs_ok u" for u
    using that keeps_proofs_ask keeps_proofs_send keeps_proofs_submit keeps_proofs_decide keeps_proofs_sweep keeps_proofs_mail
    by (cases ev) (simp_all add: keeps_def keeps_proofs_def)
  then show ?case using Cons.IH now by (simp add: run_proof_events_def e)
qed (simp add: run_proof_events_def)

theorem proof_status_is_evidenced_witness:
  "proofs_ok (run_proof_events id [] None [(86400000, PE_sweep None),
     (86400001, PE_submit sample_link [] None \<lparr> lm_ip = None, lm_device = None, lm_noticeLang = None \<rparr>),
     (86400002, PE_decide (sample_ctx MANAGER) 81 AD_APPROVED None)] (empty_world\<lparr>w_proofs := [sample_proof]\<rparr>))"
proof -
  have "proofs_ok (empty_world\<lparr>w_proofs := [sample_proof]\<rparr>)"
    by (simp add: proofs_ok_def evidenced_def sample_proof_def empty_world_def)
  then show ?thesis by (rule proof_status_is_evidenced)
qed

subsection \<open>A request can be answered by mail\<close>

lemma last_segment_link: "token_ok token \<Longrightarrow> last_segment (base @ ''/link/'' @ token) = token"
proof -
  assume "token_ok token"
  then have "c \<in> set (rev token) \<Longrightarrow> c \<noteq> CHR ''/''" for c
    by (auto simp: token_ok_def list_all_iff token_char_def Let_def)
  then have "takeWhile (\<lambda>c. c \<noteq> CHR ''/'') (rev token @ CHR ''/'' # rev (base @ ''/link'')) = rev token"
    by (subst takeWhile_append2) auto
  then show ?thesis by (simp add: last_segment_def)
qed

text \<open>
  C21: a request that was sent can be answered by mail: a message with an attachment to the address
  of the mail, at any time before the link expires, is accepted, its attachments become
  documents, and the request reads as submitted.
\<close>

theorem proof_can_be_answered_by_mail:
  assumes "sendProofRequest hash base domain token ctx i s = (Inr url, t)"
    and "link_ids_ok s" and "token_ok token" and "now < w_now s + 14 * 86400000"
    and "im_to m = intakeAddress domain (last_segment url)" and "im_attachments m \<noteq> []"
  shows "\<exists>u q. processInboundProofEmail hash m (t\<lparr>w_now := now\<rparr>) = (Inr (Inr ()), u) \<and>
    find_proof i u = Some q \<and> pf_status q = PF_SUBMITTED \<and>
    length (w_documents u) = length (w_documents t) + length (im_attachments m)"
proof -
  obtain p c s1 link s2 x where p: "find_proof i s = Some p"
    and mint: "createSecureLink hash base token ctx
        \<lparr> la_purpose = LP_PROOF_UPLOAD, la_scopeType = S_PROOF_REQUEST, la_scopeId = i,
          la_contactId = Some (ct_id c), la_expiresInDays = None,
          la_maxUses = Some PROOF_LINK_DEFAULT_MAX_USES, la_requiredCapability = None \<rparr> s = (Inr link, s1)"
    and mail: "notify (proof_mail domain ctx p c (snd link)) s1 = (Inr x, s2)"
    and t: "t = s2\<lparr>w_proofs := upd_where (\<lambda>p. pf_id p = i) (\<lambda>p. p\<lparr>pf_status := PF_SENT\<rparr>) (w_proofs s2)\<rparr>"
    and url: "url = snd link"
    using assms(1) unfolding sendProofRequest_def set_proof_def
    by (clarsimp simp only: bindE_ok readE_ok writeE_ok assertE_ok someE_ok ret_ok requireCap_def getProofRequest_ok)
  define l where "l = minted_link hash token ctx \<lparr> la_purpose = LP_PROOF_UPLOAD, la_scopeType = S_PROOF_REQUEST, la_scopeId = i,
    la_contactId = Some (ct_id c), la_expiresInDays = None,
    la_maxUses = Some PROOF_LINK_DEFAULT_MAX_USES, la_requiredCapability = None \<rparr> s"
  have l: "w_links s1 = w_links s @ [l]" "\<forall>x \<in> set (w_links s). sl_tokenHash x \<noteq> hash token"
    "link = (sl_id l, base @ ''/link/'' @ token)" "sl_id l = w_next s" "sl_tokenHash l = hash token"
    "sl_purpose l = LP_PROOF_UPLOAD" "sl_scopeType l = S_PROOF_REQUEST" "sl_scopeId l = i"
    "sl_maxUses l = Some PROOF_LINK_DEFAULT_MAX_USES" "sl_useCount l = 0" "sl_revokedAt l = None"
    "sl_expiresAt l = w_now s + DEFAULT_TTL_DAYS * 86400000" "w_proofs s1 = w_proofs s"
    using mint unfolding createSecureLink_ok by (simp_all add: l_def minted_link_def)
  have same: "w_links s2 = w_links s1" "w_proofs s2 = w_proofs s1"
    using mail by (rule sameD [rotated], intro frames; simp)+
  let ?t = "t\<lparr>w_now := now\<rparr>"
  have links: "w_links ?t = w_links s @ [l]" by (simp add: t same l(1))
  have tok: "TOKEN_ADDRESS (im_to m) = Some token"
  proof -
    have "last_segment url = token" using last_segment_link [OF assms(3), of base] by (simp add: url l(3))
    moreover have "token_here (intakeAddress domain token) = Some token"
      unfolding token_here_iff intakeAddress_def using assms(3) by blast
    ultimately show ?thesis by (simp add: TOKEN_ADDRESS_def assms(5))
  qed
  have "findByToken hash token ?t = Some l"
    unfolding findByToken_def links using l(2,5) by (intro find_append_new) auto
  then have valid: "validateLinkToken hash token ?t = Inr l"
    using assms(4) by (simp add: validateLinkToken_def l PROOF_LINK_DEFAULT_MAX_USES_def DEFAULT_TTL_DAYS_def)
  have "consumable (w_next s) now l"
    using assms(4) by (simp add: consumable_def l PROOF_LINK_DEFAULT_MAX_USES_def DEFAULT_TTL_DAYS_def)
  moreover have "count_where (consumable (w_next s) now) (w_links s) = 0"
    using assms(2) by (auto simp: count_where_0_iff consumable_def link_ids_ok_def)
  ultimately have count: "count_where (consumable (sl_id l) now) (w_links ?t) = 1" by (simp add: links l(4))
  define t1 where "t1 = snd (consumeLinkUse (sl_id l) ?t)"
  have consume: "consumeLinkUse (sl_id l) ?t = (Inr True, t1)"
    using count by (simp add: consumeLinkUse_eq t1_def)
  have rows: "w_proofs t1 = upd_where (\<lambda>p. pf_id p = i) (\<lambda>p. p\<lparr>pf_status := PF_SENT\<rparr>) (w_proofs s)"
    "w_documents t1 = w_documents t"
    by (simp_all add: t1_def consumeLinkUse_eq t same l(13))
  have found: "find_proof i t1 = Some (p\<lparr>pf_status := PF_SENT\<rparr>)"
    using p by (auto simp: find_proof_def rows find_upd_where_same dest: find_Some_in)
  let ?fs = "map (\<lambda>f. f\<lparr>uf_kind := None\<rparr>) (im_attachments m)"
  let ?meta = "\<lparr> lm_ip = None, lm_device = None, lm_noticeLang = None \<rparr>"
  obtain r t2 where sub: "submitProofViaLink hash l ?fs (mail_note m) ?meta t1 = (r, t2)" by fastforce
  obtain docs where r: "r = Inr docs" and docs: "uploaded hash l i ?fs t1 docs t2"
    and sent: "w_proofs t2 = upd_where (\<lambda>p. pf_id p = i) submitted (w_proofs t1)"
    using submitProofViaLink_cases [where s = t1 and hash = hash and link = l and files = ?fs
        and submissionNote = "mail_note m" and meta = ?meta] sub found
    by (auto simp: l split: sum.splits)
  let ?u = "t2\<lparr>w_next := Suc (w_next t2), w_messages := w_messages t2 @ [inbound_row (w_next t2) (w_now t2) l m]\<rparr>"
  have "processInboundProofEmail hash m ?t = (Inr (Inr ()), ?u)"
    using tok valid consume sub r assms(6)
    by (simp add: processInboundProofEmail_def bindE_apply op_eval)
  moreover have "find_proof i ?u = Some (submitted (p\<lparr>pf_status := PF_SENT\<rparr>))"
    using found by (auto simp: find_proof_def sent find_upd_where_same submitted_def dest: find_Some_in)
  moreover have "length docs = length (im_attachments m)" using docs by (auto simp: uploaded_def dest: map_eq_imp_length_eq)
  then have "length (w_documents ?u) = length (w_documents t) + length (im_attachments m)"
    using docs by (simp add: uploaded_def rows)
  moreover have "pf_status (submitted (p\<lparr>pf_status := PF_SENT\<rparr>)) = PF_SUBMITTED" by (simp add: submitted_def)
  ultimately show ?thesis by blast
qed

definition proof_world :: world where
  "proof_world = empty_world\<lparr>w_proofs := [sample_proof],
     w_contacts := [\<lparr> ct_id = 31, ct_workspaceId = 5, ct_kind = CK_TENANT, ct_name = ''T'', ct_phone = None,
       ct_email = Some ''t@x'', ct_company = None, ct_emiratesId = None, ct_nationality = None,
       ct_licenseNo = None, ct_licensingAuthority = None, ct_notes = None, ct_verifiedAt = None, ct_verifiedById = None, ct_archivedAt = None \<rparr>]\<rparr>"

theorem proof_can_be_answered_by_mail_witness:
  "\<exists>t u q. fst (sendProofRequest id ''https://x'' None ''tok'' (sample_ctx MANAGER) 81 proof_world) = Inr ''https://x/link/tok'' \<and>
     processInboundProofEmail id \<lparr> im_to = ''proof+tok@intake.seneschal.example'', im_subject = None, im_text = None,
       im_attachments = [\<lparr> uf_fileName = ''r.pdf'', uf_mime = [], uf_data = [], uf_kind = None \<rparr>] \<rparr>
       (t\<lparr>w_now := 5\<rparr>) = (Inr (Inr ()), u) \<and> find_proof 81 u = Some q \<and> pf_status q = PF_SUBMITTED"
proof -
  let ?send = "sendProofRequest id ''https://x'' None ''tok'' (sample_ctx MANAGER) 81 proof_world"
  have caps: "hasCapability (sample_ctx MANAGER) ''proofs.write''" "hasCapability (sample_ctx MANAGER) ''proofs.read''"
    by (simp_all add: hasCapability_def sample_ctx_def roleHas_def READ_PORTFOLIO_def)
  have got: "getProofRequest (sample_ctx MANAGER) 81 proof_world = (Inr sample_proof, proof_world)"
    unfolding getProofRequest_ok using caps
    by (simp add: find_proof_def proof_world_def sample_proof_def assertReadable_def manager_ctx)
  have contact: "find_contact 31 proof_world = Some \<lparr> ct_id = 31, ct_workspaceId = 5, ct_kind = CK_TENANT, ct_name = ''T'', ct_phone = None,
       ct_email = Some ''t@x'', ct_company = None, ct_emiratesId = None, ct_nationality = None,
       ct_licenseNo = None, ct_licensingAuthority = None, ct_notes = None, ct_verifiedAt = None, ct_verifiedById = None, ct_archivedAt = None \<rparr>"
    by (simp add: find_contact_def proof_world_def)
  have tables: "w_links proof_world = []" "w_outbox proof_world = []" by (simp_all add: proof_world_def empty_world_def)
  have verb: "audit_verb_ok ''securelink.create''" by (simp add: audit_verb_ok_def verb_char_def)
  have assigned: "pf_assignedContactId sample_proof = 31" by (simp add: sample_proof_def)
  have tmpl: "isSensitiveTemplate (Some ''proof_request_v1'')" by code_simp
  have sent: "fst ?send = Inr ''https://x/link/tok''"
    by (simp add: sendProofRequest_def bindE_apply requireCap_def caps got contact assigned op_eval createSecureLink_def
        audit_by_def auditOf_def verb notify_def enqueue_def proof_mail_def recordAudit_def set_proof_def Let_def tmpl
        tables manager_ctx actor_of_def)
  have ok: "link_ids_ok proof_world" by (simp add: link_ids_ok_def proof_world_def empty_world_def)
  have tok: "token_ok ''tok''" by (simp add: token_ok_def token_char_def)
  have seg: "last_segment ''https://x/link/tok'' = ''tok''" by (simp add: last_segment_def)
  have run: "?send = (Inr ''https://x/link/tok'', snd ?send)" using sent by (simp add: prod_eq_iff)
  have time: "(5::int) < w_now proof_world + 14 * 86400000" by (simp add: proof_world_def empty_world_def)
  let ?m = "\<lparr> im_to = ''proof+tok@intake.seneschal.example'', im_subject = None, im_text = None,
       im_attachments = [\<lparr> uf_fileName = ''r.pdf'', uf_mime = [], uf_data = [], uf_kind = None \<rparr>] \<rparr>"
  have "im_to ?m = intakeAddress None (last_segment ''https://x/link/tok'')" "im_attachments ?m \<noteq> []"
    by (simp_all only: seg) (simp_all add: intakeAddress_def)
  from proof_can_be_answered_by_mail [OF run ok tok time this] sent show ?thesis by blast
qed

end
