(* ===== verification/Digests.thy ===== *)
theory Digests
  imports Alerts Proofs
begin

text \<open>
  \<open>services/digests.ts\<close>, the batched e-mail of a user's feed, and the daily pass of
  \<open>outbox/runner.ts\<close> that runs every nightly job of every workspace.
\<close>

definition DAILY_WINDOW_MS :: int where "DAILY_WINDOW_MS = 20 * 3600000"

definition WEEKLY_WINDOW_MS :: int where "WEEKLY_WINDOW_MS = 6 * 86400000"

datatype digest_run = Daily | Weekly

fun window_ms :: "digest_run \<Rightarrow> int" where
  "window_ms Daily = DAILY_WINDOW_MS"
| "window_ms Weekly = WEEKLY_WINDOW_MS"

fun digest_template :: "digest_run \<Rightarrow> string" where
  "digest_template Daily = ''daily_digest_v1''"
| "digest_template Weekly = ''weekly_digest_v1''"

fun digest_word :: "digest_run \<Rightarrow> string" where
  "digest_word Daily = ''daily''"
| "digest_word Weekly = ''weekly''"

fun target_cadence :: "digest_run \<Rightarrow> cadence" where
  "target_cadence Daily = CD_DAILY"
| "target_cadence Weekly = CD_WEEKLY"

subsection \<open>The body\<close>

fun CATEGORY_LABEL :: "notificationCategory \<Rightarrow> string" where
  "CATEGORY_LABEL NC_DEADLINES = ''Deadlines''"
| "CATEGORY_LABEL NC_PAYMENTS = ''Payments''"
| "CATEGORY_LABEL NC_RENEWALS = ''Renewals''"
| "CATEGORY_LABEL NC_PROOFS = ''Proof requests''"
| "CATEGORY_LABEL NC_RISK = ''Risk flags''"
| "CATEGORY_LABEL NC_ENQUIRIES = ''Enquiries''"
| "CATEGORY_LABEL NC_DIGEST = ''Summary''"

definition category_of :: "notification_message \<Rightarrow> notificationCategory" where
  "category_of m = (case nm_category m of None \<Rightarrow> NC_DEADLINES | Some c \<Rightarrow> c)"

definition bullet :: string where "bullet = ''  '' @ [CHR 0xE2, CHR 0x80, CHR 0xA2] @ '' ''"

definition digest_line :: "notification_message \<Rightarrow> string" where
  "digest_line m = bullet @ (case nm_subject m of Some x \<Rightarrow> x
     | None \<Rightarrow> (case nm_templateCode m of Some x \<Rightarrow> x | None \<Rightarrow> ''Notification''))"

text \<open>The sections come in the order their category is first seen.\<close>

definition composeBody :: "notification_message list \<Rightarrow> string \<Rightarrow> string" where
  "composeBody items summary = join_with (nl @ nl)
     ((if summary \<noteq> [] then [summary] else []) @
      map (\<lambda>c. CATEGORY_LABEL c @ nl @ join_with nl (map digest_line (filter (\<lambda>m. category_of m = c) items)))
        (unique (map category_of items)))"

definition portfolioSummary :: "uid \<Rightarrow> time \<Rightarrow> world \<Rightarrow> string" where
  "portfolioSummary ws now s =
     (let today = todayInDubai now;
          deadlines = count_where (\<lambda>d. dl_workspaceId d = ws \<and> dl_status d = DL_OPEN \<and> today \<le> dl_dueAt d \<and>
            dl_dueAt d \<le> today + 7 * 86400000) (w_deadlines s);
          flags = count_where (\<lambda>f. rf_workspaceId f = ws \<and> rf_status f \<in> {F_OPEN, F_ACKNOWLEDGED}) (w_flags s);
          proofs = count_where (\<lambda>p. pf_workspaceId p = ws \<and> pf_status p \<notin> {PF_APPROVED, PF_CLOSED}) (w_proofs s)
      in ''This week: '' @ show_nat deadlines @ '' deadlines due in 7 days'' @ mid_dot @ show_nat flags @ '' open risk flags'' @
         mid_dot @ show_nat proofs @ '' open proof requests.'')"

subsection \<open>One user's digest\<close>

definition digest_to :: "uid \<Rightarrow> uid \<Rightarrow> digest_run \<Rightarrow> notification_message \<Rightarrow> bool" where
  "digest_to ws u run m \<longleftrightarrow> nm_workspaceId m = ws \<and> nm_toUserId m = Some u \<and> nm_templateCode m = Some (digest_template run)"

definition pending_for :: "uid \<Rightarrow> uid \<Rightarrow> notification_message \<Rightarrow> bool" where
  "pending_for ws u m \<longleftrightarrow> nm_workspaceId m = ws \<and> nm_toUserId m = Some u \<and> nm_channel m = CH_INAPP \<and> nm_digestedAt m = None"

definition failed_email :: "world \<Rightarrow> notification_message \<Rightarrow> bool" where
  "failed_email s m \<longleftrightarrow> (\<exists>e \<in> set (w_messages s). nm_emailMessageId m = Some (nm_id e) \<and> nm_status e = MS_FAILED)"

definition selected_for :: "digest_run \<Rightarrow> (notificationCategory \<Rightarrow> cadence) \<Rightarrow> world \<Rightarrow> notification_message \<Rightarrow> bool" where
  "selected_for run cad s m \<longleftrightarrow> (\<not> nm_urgent m \<and> cad (category_of m) = target_cadence run) \<or> (run = Daily \<and> failed_email s m)"

definition digest_message :: "(time \<Rightarrow> string) \<Rightarrow> uid \<Rightarrow> uid \<Rightarrow> digest_run \<Rightarrow> time \<Rightarrow> string \<Rightarrow> notify_input" where
  "digest_message fdate ws u run now body =
     \<lparr> ni_workspaceId = ws, ni_channel = CH_EMAIL, ni_templateCode = digest_template run,
       ni_subject = Some (''Seneschal '' @ digest_word run @ '' digest'' @ em_dash @ formatDubaiDate fdate (todayInDubai now)),
       ni_body = body, ni_toUserId = Some u, ni_toContactId = None, ni_toAddress = None, ni_preferChannel = None,
       ni_relatedType = None, ni_relatedId = None, ni_category = None, ni_urgent = False \<rparr>"

definition flushDigest :: "(time \<Rightarrow> string) \<Rightarrow> uid \<Rightarrow> uid \<Rightarrow> digest_run \<Rightarrow> (uid \<Rightarrow> notificationCategory \<Rightarrow> cadence) \<Rightarrow> nat svc" where
  "flushDigest fdate ws u run prefs =
     bindE getNow (\<lambda>now.
     bindE (readE (\<lambda>s. \<exists>m \<in> set (w_messages s). digest_to ws u run m \<and> now - window_ms run \<le> nm_createdAt m)) (\<lambda>recent.
     if recent then ret 0
     else bindE (readE (\<lambda>s. filter (selected_for run (prefs u) s) (sort_key nm_createdAt (filter (pending_for ws u) (w_messages s))))) (\<lambda>selected.
       bindE (readE (\<lambda>s. if run = Weekly \<and> prefs u NC_DIGEST \<noteq> CD_OFF then portfolioSummary ws now s else [])) (\<lambda>summary.
       if selected = [] \<and> summary = [] then ret 0
       else thenE (notify (digest_message fdate ws u run now (composeBody selected summary)))
         (thenE (whenE (selected \<noteq> []) (bindE getNow (\<lambda>now.
             writeE (\<lambda>s. s\<lparr>w_messages := upd_where (\<lambda>m. nm_id m \<in> nm_id ` set selected)
               (\<lambda>m. m\<lparr>nm_digestedAt := Some now\<rparr>) (w_messages s)\<rparr>))))
           (ret 1))))))"

definition digest_recipients :: "uid \<Rightarrow> digest_run \<Rightarrow> world \<Rightarrow> uid list" where
  "digest_recipients ws run s =
     (let pending = somes (map nm_toUserId (filter (\<lambda>m. nm_workspaceId m = ws \<and> nm_channel m = CH_INAPP \<and> nm_digestedAt m = None)
        (w_messages s)))
      in case run of Daily \<Rightarrow> unique pending | Weekly \<Rightarrow> unique (pending @ workspaceOverseers ws s))"

definition runDigests :: "(time \<Rightarrow> string) \<Rightarrow> digest_run \<Rightarrow> uid \<Rightarrow> nat svc" where
  "runDigests fdate run ws =
     bindE (readE (digest_recipients ws run)) (\<lambda>recipients.
     bindE (readE (loadPreferenceMap ws recipients)) (\<lambda>prefs.
     sumE recipients (\<lambda>u. flushDigest fdate ws u run prefs)))"

definition sendUserDailyDigests :: "(time \<Rightarrow> string) \<Rightarrow> uid \<Rightarrow> nat svc" where
  "sendUserDailyDigests fdate ws = runDigests fdate Daily ws"

definition sendUserWeeklyDigests :: "(time \<Rightarrow> string) \<Rightarrow> uid \<Rightarrow> nat svc" where
  "sendUserWeeklyDigests fdate ws = runDigests fdate Weekly ws"


subsection \<open>The nightly pass\<close>

definition sweepableWorkspaces :: "world \<Rightarrow> uid list" where
  "sweepableWorkspaces s = map ws_id (filter (\<lambda>w. ws_archivedAt w = None) (w_workspaces s))"

text \<open>\<open>amt\<close>, \<open>num\<close> and \<open>fdate\<close> are the formatters of the texts.\<close>

definition workspace_jobs :: "(rat \<Rightarrow> string) \<Rightarrow> (int \<Rightarrow> string) \<Rightarrow> (time \<Rightarrow> string) \<Rightarrow> uid \<Rightarrow> unit svc" where
  "workspace_jobs amt num fdate ws =
     thenE (detectLatePayments amt fdate (Some ws))
     (thenE (sweepOverdueProofRequests (Some ws))
     (thenE (evaluateWorkspaceRisk ws)
     (thenE (runAlertLadders num fdate ws)
     (thenE (sendUserDailyDigests fdate ws)
     (thenE (sendUserWeeklyDigests fdate ws) (ret ()))))))"

definition runDailyJobs :: "(rat \<Rightarrow> string) \<Rightarrow> (int \<Rightarrow> string) \<Rightarrow> (time \<Rightarrow> string) \<Rightarrow> unit svc" where
  "runDailyJobs amt num fdate = bindE (readE sweepableWorkspaces) (\<lambda>wss. forE wss (workspace_jobs amt num fdate))"

subsection \<open>Nothing is sent twice\<close>

text \<open>Any two digests of one kind to one user are further spaced than the window of the kind.\<close>

definition spaced :: "notification_message \<Rightarrow> notification_message \<Rightarrow> bool" where
  "spaced a b \<longleftrightarrow> (\<forall>ws u run. digest_to ws u run a \<and> digest_to ws u run b \<longrightarrow> window_ms run < \<bar>nm_createdAt a - nm_createdAt b\<bar>)"

definition digests_spaced :: "world \<Rightarrow> bool" where
  "digests_spaced s \<longleftrightarrow> sorted_wrt spaced (w_messages s)"

lemma spaced_same: "w_messages s = w_messages t \<Longrightarrow> digests_spaced s \<Longrightarrow> digests_spaced t"
  by (simp add: digests_spaced_def)

lemma spaced_upd:
  assumes "\<And>x. nm_workspaceId (f x) = nm_workspaceId x" "\<And>x. nm_toUserId (f x) = nm_toUserId x"
    "\<And>x. nm_templateCode (f x) = nm_templateCode x" "\<And>x. nm_createdAt (f x) = nm_createdAt x"
  shows "keeps (preserves digests_spaced) (writeE (\<lambda>s. s\<lparr>w_messages := upd_where q f (w_messages s)\<rparr>))"
proof -
  have "spaced (if q a then f a else a) (if q b then f b else b) \<longleftrightarrow> spaced a b" for a b
    by (simp add: spaced_def digest_to_def assms)
  then show ?thesis
    by (intro keeps_writeE) (simp add: preserves_def digests_spaced_def upd_where_def sorted_wrt_map)
qed

lemma notify_appends:
  "w_messages (snd (notify inp s)) = w_messages s \<or>
   (\<exists>i. w_messages (snd (notify inp s)) = w_messages s @ [message_row i (w_now s) inp])"
  by (auto simp: notify_messages)

lemma digest_templates: "digest_template run \<in> {''daily_digest_v1'', ''weekly_digest_v1''}"
  by (cases run) simp_all

lemma spaced_notify:
  assumes "ni_templateCode inp \<notin> {''daily_digest_v1'', ''weekly_digest_v1''}"
  shows "keeps (preserves digests_spaced) (notify inp)"
proof (rule keepsI)
  fix s
  have "spaced a (message_row i now inp)" for a i now
    using assms digest_templates by (fastforce simp: spaced_def digest_to_def message_row_def)
  then show "preserves digests_spaced s (snd (notify inp s))"
    using notify_appends [of inp s] by (auto simp: preserves_def digests_spaced_def sorted_wrt_append)
qed

lemma spaced_record:
  assumes "ri_template inp \<notin> {''daily_digest_v1'', ''weekly_digest_v1''}"
  shows "keeps (preserves digests_spaced) (recordNotification inp)"
proof -
  have "ni_templateCode (recipient_message inp c ch u) \<notin> {''daily_digest_v1'', ''weekly_digest_v1''}" for c ch u
    using assms by (simp add: recipient_message_def)
  note send = spaced_notify [OF this]
  show ?thesis
    unfolding recordNotification_def Let_def by (intro inv.keeps_intros send spaced_upd) simp_all
qed

lemma spaced_flush: "keeps (preserves digests_spaced) (flushDigest fdate ws u run prefs)"
proof (rule keepsI)
  fix s :: world
  let ?recent = "\<exists>m \<in> set (w_messages s). digest_to ws u run m \<and> w_now s - window_ms run \<le> nm_createdAt m"
  let ?sel = "filter (selected_for run (prefs u) s) (sort_key nm_createdAt (filter (pending_for ws u) (w_messages s)))"
  let ?summary = "if run = Weekly \<and> prefs u NC_DIGEST \<noteq> CD_OFF then portfolioSummary ws (w_now s) s else []"
  let ?msg = "digest_message fdate ws u run (w_now s) (composeBody ?sel ?summary)"
  define rest where "rest = thenE (whenE (?sel \<noteq> []) (bindE getNow (\<lambda>now.
             writeE (\<lambda>s. s\<lparr>w_messages := upd_where (\<lambda>m. nm_id m \<in> nm_id ` set ?sel)
               (\<lambda>m. m\<lparr>nm_digestedAt := Some now\<rparr>) (w_messages s)\<rparr>)))) (ret (1 :: nat))"
  show "preserves digests_spaced s (snd (flushDigest fdate ws u run prefs s))"
  proof (cases "?recent \<or> (?sel = [] \<and> ?summary = [])")
    case True
    then have "snd (flushDigest fdate ws u run prefs s) = s" by (auto simp: flushDigest_def bindE_apply op_eval)
    then show ?thesis by (simp add: preserves_def)
  next
    case False
    obtain r v where n: "notify ?msg s = (r, v)" by fastforce
    have "keeps (preserves digests_spaced) getNow" by (rule keeps_preserves_same [OF _ spaced_same], intro frames)
    then have tail: "keeps (preserves digests_spaced) rest" unfolding rest_def by (intro inv.keeps_intros spaced_upd) simp_all
    have "snd (flushDigest fdate ws u run prefs s) = (case r of Inl _ \<Rightarrow> v | Inr _ \<Rightarrow> snd (rest v))"
    proof -
      have "\<not> ?recent" "\<not> (?sel = [] \<and> ?summary = [])" using False by blast+
      then have "flushDigest fdate ws u run prefs s = bindE (notify ?msg) (\<lambda>_. rest) s"
        unfolding flushDigest_def rest_def by (simp only: bindE_apply op_eval readE_eval getNow_eval sum.case prod.case if_False)
      then show ?thesis using n by (cases r) (simp_all add: bindE_apply)
    qed
    moreover have "digests_spaced v" if ok: "digests_spaced s"
    proof -
      have "spaced a (message_row i (w_now s) ?msg)" if a: "a \<in> set (w_messages s)" for a i
      proof (unfold spaced_def, intro allI impI)
        fix ws' u' run' assume d: "digest_to ws' u' run' a \<and> digest_to ws' u' run' (message_row i (w_now s) ?msg)"
        then have "ws' = ws" "u' = u" "run' = run"
          by (cases run; cases run'; auto simp: digest_to_def message_row_def digest_message_def)+
        then have "nm_createdAt a < w_now s - window_ms run" using d a False by force
        then show "window_ms run' < \<bar>nm_createdAt a - nm_createdAt (message_row i (w_now s) ?msg)\<bar>"
          using \<open>run' = run\<close> by (simp add: message_row_def)
      qed
      then show ?thesis
        using notify_appends [of ?msg s] n ok by (auto simp: digests_spaced_def sorted_wrt_append)
    qed
    ultimately show ?thesis using tail by (auto simp: preserves_def keeps_def split: sum.splits)
  qed
qed

lemma once_log: "ei_type inp \<noteq> EV_REMINDER_SENT \<Longrightarrow> keeps (preserves alerts_once) (recordEvidence inp)"
proof (rule keepsI)
  fix s assume ty: "ei_type inp \<noteq> EV_REMINDER_SENT"
  then have other: "\<not> reminded ws d code (evidence_row i now inp)" for ws d code i now
    by (simp add: reminded_def evidence_row_def)
  have "w_evidence (snd (recordEvidence inp s)) = w_evidence s \<or>
      (\<exists>i. w_evidence (snd (recordEvidence inp s)) = w_evidence s @ [evidence_row i (w_now s) inp])"
    by (auto simp: recordEvidence_def bindE_apply op_eval assertE_eval)
  then show "preserves alerts_once s (snd (recordEvidence inp s))"
    using other by (auto simp: preserves_def alerts_once_def)
qed

lemma once_quiet: "keeps (same w_evidence) m \<Longrightarrow> keeps (preserves alerts_once) m"
  by (rule keeps_preserves_same [OF _ alerts_once_same])

lemma once_parts:
  "keeps (preserves alerts_once) getNow" "keeps (preserves alerts_once) newId"
  "keeps (preserves alerts_once) (recordNotification inp)"
  "keeps (preserves alerts_once) (writeE (\<lambda>s. s\<lparr>w_flags := f s\<rparr>))"
  "keeps (preserves alerts_once) (writeE (\<lambda>s. s\<lparr>w_payments := g s\<rparr>))"
  "keeps (preserves alerts_once) (writeE (\<lambda>s. s\<lparr>w_proofs := h s\<rparr>))"
  by (rule once_quiet; intro frames keeps_same_write; simp)+

lemma once_flags:
  "keeps (preserves alerts_once) (raiseFlag sc c sev)" "keeps (preserves alerts_once) (clearFlag sc c by)"
  unfolding raiseFlag_def clearFlag_def
  by (intro inv.keeps_intros once_parts once_log; simp add: flag_evidence_def evidenceOf_def)+

lemma once_evaluate:
  "keeps (preserves alerts_once) (evaluateRiskForTenancy j)" "keeps (preserves alerts_once) (evaluateRenewalRisk k)"
  "keeps (preserves alerts_once) (evaluateWorkspaceRisk ws)" "keeps (preserves alerts_once) (raisePaymentLate i)"
  "keeps (preserves alerts_once) (raiseProofOverdue i ws)"
  unfolding evaluateWorkspaceRisk_def evaluateRiskForTenancy_def evaluateRenewalRisk_def setFlag_def raisePaymentLate_def
    on_item_def raiseProofOverdue_def Let_def
  by (intro inv.keeps_intros once_parts once_flags)+

lemma once_nightly:
  "keeps (preserves alerts_once) (detectLatePayments amt fdate w)" "keeps (preserves alerts_once) (sweepOverdueProofRequests w)"
  unfolding detectLatePayments_def markLate_def sweepOverdueProofRequests_def set_proof_def
  by (intro inv.keeps_intros once_parts once_evaluate)+

lemma once_flush: "keeps (preserves alerts_once) (flushDigest fdate ws u run prefs)"
proof -
  have "keeps (same w_evidence) (notify inp)" for inp by (intro frames; simp)
  then show ?thesis
    unfolding flushDigest_def by (intro once_quiet frame.keeps_intros frames keeps_same_write; simp)
qed

lemma once_jobs: "keeps (preserves alerts_once) (runDailyJobs amt num fdate)"
  unfolding runDailyJobs_def workspace_jobs_def sendUserDailyDigests_def sendUserWeeklyDigests_def runDigests_def
  by (intro inv.keeps_intros once_nightly once_evaluate once_run keeps_sumE once_flush)

lemma spaced_quiet: "keeps (same w_messages) m \<Longrightarrow> keeps (preserves digests_spaced) m"
  by (rule keeps_preserves_same [OF _ spaced_same])

lemma spaced_parts:
  "keeps (preserves digests_spaced) getNow"
  "keeps (preserves digests_spaced) (writeE (\<lambda>s. s\<lparr>w_payments := g s\<rparr>))"
  "keeps (preserves digests_spaced) (writeE (\<lambda>s. s\<lparr>w_proofs := h s\<rparr>))"
  "keeps (preserves digests_spaced) (raisePaymentLate i)" "keeps (preserves digests_spaced) (evaluateRiskForTenancy j)"
  "keeps (preserves digests_spaced) (evaluateRenewalRisk k)" "keeps (preserves digests_spaced) (recordEvidence e)"
  by (rule spaced_quiet; intro frames keeps_same_write; simp)+

lemma spaced_raise: "keeps (preserves digests_spaced) (raiseProofOverdue i ws)"
  unfolding raiseProofOverdue_def by (rule spaced_quiet) (intro frame.keeps_intros frames; simp)

lemma spaced_nightly:
  "keeps (preserves digests_spaced) (detectLatePayments amt fdate w)" "keeps (preserves digests_spaced) (sweepOverdueProofRequests w)"
  "keeps (preserves digests_spaced) (evaluateWorkspaceRisk ws)"
  unfolding detectLatePayments_def markLate_def sweepOverdueProofRequests_def set_proof_def evaluateWorkspaceRisk_def
  by (intro inv.keeps_intros spaced_parts spaced_raise spaced_record; simp add: late_notice_def)+

lemma spaced_rung:
  assumes "template \<notin> {''daily_digest_v1'', ''weekly_digest_v1''}"
  shows "keeps (preserves digests_spaced) (send_rung num fdate ws overseers today template d r)"
  unfolding send_rung_def
  by (intro inv.keeps_intros spaced_parts spaced_record) (use assms in \<open>simp add: reminder_def\<close>)

lemma keeps_sumE_in: "(\<And>x. x \<in> set xs \<Longrightarrow> keeps (preserves I) (f x)) \<Longrightarrow> keeps (preserves I) (sumE xs f)"
  by (induction xs) (auto intro!: inv.keeps_intros)

lemma spaced_ladders: "keeps (preserves digests_spaced) (runAlertLadders num fdate ws)"
proof -
  have "fst l \<notin> {''daily_digest_v1'', ''weekly_digest_v1''}" if "l \<in> set LADDERS" for l
    using that by (auto simp: LADDERS_def)
  then have ladder: "keeps (preserves digests_spaced) (case l of (template, kinds, rungs) \<Rightarrow>
       bindE (readE (\<lambda>s. filter (laddered ws kinds) (w_deadlines s))) (\<lambda>deadlines.
       sumE deadlines (\<lambda>d. sumE rungs (send_rung num fdate ws overseers today template d))))" if "l \<in> set LADDERS" for l overseers today
    using that unfolding split_beta by (intro inv.keeps_intros keeps_sumE spaced_rung) blast
  show ?thesis
    unfolding runAlertLadders_def by (intro inv.keeps_intros spaced_parts keeps_sumE_in ladder)
qed

lemma spaced_jobs: "keeps (preserves digests_spaced) (runDailyJobs amt num fdate)"
  unfolding runDailyJobs_def workspace_jobs_def sendUserDailyDigests_def sendUserWeeklyDigests_def runDigests_def
  by (intro inv.keeps_intros spaced_nightly spaced_ladders keeps_sumE spaced_flush)

subsection \<open>Every reminder in the feed is in the log\<close>

text \<open>
  The in-app reminders of one ladder a user has, and the reminders of that ladder the log has. The
  second bounds the first: who is told of a rung is told once, whatever else the passes do.
\<close>

definition announced :: "uid \<Rightarrow> uid \<Rightarrow> string \<Rightarrow> world \<Rightarrow> nat" where
  "announced ws u template s = count_where (\<lambda>m. nm_workspaceId m = ws \<and> nm_toUserId m = Some u \<and>
     nm_templateCode m = Some template) (inapp_feed s)"

definition logged_reminders :: "uid \<Rightarrow> string \<Rightarrow> world \<Rightarrow> nat" where
  "logged_reminders ws template s = count_where (\<lambda>e. ev_workspaceId e = ws \<and> ev_type e = EV_REMINDER_SENT \<and>
     (\<exists>p. ev_payload e = Some p \<and> jget p ''template'' = Some (JStr template))) (w_evidence s)"

definition ladder_templates :: "string list" where
  "ladder_templates = map fst LADDERS"

definition reminders_backed :: "world \<Rightarrow> bool" where
  "reminders_backed s \<longleftrightarrow> (\<forall>ws u. \<forall>template \<in> set ladder_templates. announced ws u template s \<le> logged_reminders ws template s)"

text \<open>The keys of the queued sends are those of messages that exist, so a new message is always queued.\<close>

definition send_keys_ok :: "world \<Rightarrow> bool" where
  "send_keys_ok s \<longleftrightarrow> (\<forall>r \<in> set (w_outbox s). \<forall>i. ob_idempotencyKey r = Some (send_key i) \<longrightarrow> i < w_next s)"

definition keys_step :: "world \<Rightarrow> world \<Rightarrow> bool" where
  "keys_step s t \<longleftrightarrow> w_next s \<le> w_next t \<and> (send_keys_ok s \<longrightarrow> send_keys_ok t)"

interpretation keys: step_law keys_step
  by unfold_locales (auto simp: keys_step_def)

lemma keys_write:
  "(\<And>s. w_outbox (f s) = w_outbox s) \<Longrightarrow> (\<And>s. w_next (f s) = w_next s) \<Longrightarrow> keeps keys_step (writeE f)"
  by (rule keeps_writeE) (simp add: keys_step_def send_keys_ok_def)

lemma send_key_inj: "send_key i = send_key j \<longleftrightarrow> i = j"
  by (simp add: send_key_def show_nat_inj)

lemma keys_basic:
  "keeps keys_step newId" "keeps keys_step getNow" "keeps keys_step (recordEvidence e)"
  by (auto simp: keeps_def keys_step_def send_keys_ok_def newId_def getNow_def recordEvidence_def op_defs intro: less_SucI)

lemma keys_notify: "keeps keys_step (notify inp)"
  by (rule keepsI)
    (auto simp: keys_step_def send_keys_ok_def notify_def enqueue_def Let_def op_defs newId_def getNow_def send_key_inj less_Suc_eq
      dest: bspec)

lemma notify_succeeds:
  assumes "send_keys_ok s" and "\<not> isSensitiveTemplate (Some (ni_templateCode inp))"
  shows "\<exists>i t. notify inp s = (Inr i, t)"
proof -
  have "ob_idempotencyKey r \<noteq> Some (send_key (w_next s))" if "r \<in> set (w_outbox s)" for r
    using assms(1) that by (auto simp: send_keys_ok_def)
  then show ?thesis
    using assms(2) by (auto simp: notify_def enqueue_def Let_def op_defs newId_def getNow_def)
qed

lemma record_succeeds:
  assumes "send_keys_ok s" and "categoryForTemplate (ri_template inp) = Some c" and "\<not> isSensitiveTemplate (Some (ri_template inp))"
  shows "\<exists>t. recordNotification inp s = (Inr (), t)"
proof -
  have one: "\<exists>t. notify_one inp c prefs u s = (Inr (), t) \<and> send_keys_ok t" if s: "send_keys_ok s" for prefs u s
  proof -
    obtain i s1 where a: "notify (recipient_message inp c CH_INAPP u) s = (Inr i, s1)"
      using notify_succeeds [OF s, of "recipient_message inp c CH_INAPP u"] assms(3) by (auto simp: recipient_message_def)
    have s1: "send_keys_ok s1" using keepsD [OF keys_notify a] s by (simp add: keys_step_def)
    obtain j s2 where b: "notify (recipient_message inp c CH_EMAIL u) s1 = (Inr j, s2)"
      using notify_succeeds [OF s1, of "recipient_message inp c CH_EMAIL u"] assms(3) by (auto simp: recipient_message_def)
    have s2: "send_keys_ok s2" using keepsD [OF keys_notify b] s1 by (simp add: keys_step_def)
    show ?thesis using a b s1 s2
      by (cases "send_now inp (prefs u c)") (simp_all add: notify_one_def bindE_apply whenE_eval writeE_eval send_keys_ok_def)
  qed
  have loop: "\<exists>t. forE us (notify_one inp c prefs) s = (Inr (), t)" if "send_keys_ok s" for us prefs s
    using that
  proof (induction us arbitrary: s)
    case (Cons u us)
    obtain t where "notify_one inp c prefs u s = (Inr (), t)" "send_keys_ok t" using one [OF Cons.prems] by blast
    then show ?case using Cons.IH [of t] by (auto simp: bindE_apply)
  qed (simp add: ret_def)
  show ?thesis
    using loop [OF assms(1)] assms(2)
    by (simp add: recordNotification_def Let_def bindE_apply someE_eval readE_eval ret_def notify_one_def [abs_def])
qed

lemma keys_record: "keeps keys_step (recordNotification inp)"
  unfolding recordNotification_def Let_def by (intro keys.keeps_intros keys_notify keys_write) simp_all

lemma keys_flags:
  "keeps keys_step (raiseFlag sc c sev)" "keeps keys_step (clearFlag sc c by)"
  "keeps keys_step (setFlag sc c sev b)" "keeps keys_step (raisePaymentLate i)"
  "keeps keys_step (evaluateRiskForTenancy j)" "keeps keys_step (evaluateRenewalRisk k)"
  "keeps keys_step (raiseProofOverdue p w)"
  unfolding setFlag_def evaluateRiskForTenancy_def evaluateRenewalRisk_def raisePaymentLate_def raiseProofOverdue_def
    on_item_def clearFlag_def raiseFlag_def Let_def
  by (intro keys.keeps_intros keys_basic keys_write; simp)+

lemma keys_nightly:
  "keeps keys_step (detectLatePayments amt fdate w)" "keeps keys_step (sweepOverdueProofRequests w)"
  "keeps keys_step (evaluateWorkspaceRisk ws)" "keeps keys_step (flushDigest fdate ws u run prefs)"
  "keeps keys_step (send_rung num fdate ws overseers today template d r)"
  unfolding detectLatePayments_def markLate_def sweepOverdueProofRequests_def set_proof_def evaluateWorkspaceRisk_def
    flushDigest_def send_rung_def
  by (intro keys.keeps_intros keys_basic keys_flags keys_record keys_notify keys_write; simp)+

lemma keys_preserved: "keeps keys_step m \<Longrightarrow> keeps (preserves send_keys_ok) m"
  by (simp add: keeps_def keys_step_def preserves_def)

lemma backed_quiet:
  assumes "keeps (same w_messages) m" and "keeps extends m"
  shows "keeps (preserves reminders_backed) m"
proof (rule keepsI)
  fix s
  let ?t = "snd (m s)"
  have "inapp_feed ?t = inapp_feed s" using assms(1) by (simp add: keeps_def same_def inapp_feed_def)
  moreover obtain new where "w_evidence ?t = w_evidence s @ new"
    using assms(2) by (auto simp: keeps_def extends_def prefix_def)
  then have more: "logged_reminders ws template s \<le> logged_reminders ws template ?t" for ws template by (simp add: logged_reminders_def)
  ultimately have "announced ws u template ?t = announced ws u template s" for ws u template by (simp add: announced_def)
  then show "preserves reminders_backed s ?t"
    using order_trans [OF _ more] by (simp add: preserves_def reminders_backed_def)
qed

lemma backed_notify:
  assumes "ni_templateCode inp \<notin> set ladder_templates"
  shows "keeps (preserves reminders_backed) (notify inp)"
proof (rule keepsI)
  fix s
  have "keeps (same w_evidence) (notify inp)" by (intro frames; simp)
  then have "w_evidence (snd (notify inp s)) = w_evidence s" by (simp add: keeps_def same_def)
  then show "preserves reminders_backed s (snd (notify inp s))"
    using notify_appends [of inp s] assms
    by (auto simp: preserves_def reminders_backed_def announced_def logged_reminders_def inapp_feed_def bare_def message_row_def)
qed

lemma bare_upd_count:
  assumes "\<And>x. nm_workspaceId (f x) = nm_workspaceId x" "\<And>x. nm_toUserId (f x) = nm_toUserId x"
    "\<And>x. nm_templateCode (f x) = nm_templateCode x" "\<And>x. nm_channel (f x) = nm_channel x"
  shows "keeps (preserves reminders_backed) (writeE (\<lambda>s. s\<lparr>w_messages := upd_where q f (w_messages s)\<rparr>))"
proof (rule keeps_writeE)
  fix s
  have "count_where (\<lambda>m. nm_workspaceId m = ws \<and> nm_toUserId m = Some u \<and> nm_templateCode m = Some template)
      (map bare (filter (\<lambda>m. nm_channel m = CH_INAPP) (upd_where q f rows))) =
    count_where (\<lambda>m. nm_workspaceId m = ws \<and> nm_toUserId m = Some u \<and> nm_templateCode m = Some template)
      (map bare (filter (\<lambda>m. nm_channel m = CH_INAPP) rows))" for ws u template rows
    by (induction rows) (auto simp: bare_def assms)
  then show "preserves reminders_backed s (s\<lparr>w_messages := upd_where q f (w_messages s)\<rparr>)"
    by (simp add: preserves_def reminders_backed_def announced_def logged_reminders_def inapp_feed_def)
qed

definition backed_ok :: "world \<Rightarrow> bool" where
  "backed_ok s \<longleftrightarrow> send_keys_ok s \<and> reminders_backed s"

lemma backed_okI: "keeps keys_step m \<Longrightarrow> keeps (preserves reminders_backed) m \<Longrightarrow> keeps (preserves backed_ok) m"
  unfolding backed_ok_def [abs_def] by (intro keeps_preserves_conj keys_preserved)

text \<open>One rung: an item for each overseer and a row in the log, or nothing.\<close>

lemma count_items:
  assumes "list_all2 (feed_item inp now) items us" and "distinct us"
  shows "count_where (\<lambda>m. nm_workspaceId m = ws \<and> nm_toUserId m = Some u \<and> nm_templateCode m = Some template) items \<le>
    (if ri_ws inp = ws \<and> ri_template inp = template \<and> u \<in> set us then 1 else 0)"
  using assms
  by (induction rule: list_all2_induct)
    (auto simp: feed_item_def message_row_def recipient_message_def split: if_splits)

lemma ladder_category:
  assumes "template \<in> set ladder_templates"
  shows "\<exists>c. categoryForTemplate template = Some c" and "\<not> isSensitiveTemplate (Some template)"
proof -
  have "\<forall>x \<in> set ladder_templates. categoryForTemplate x \<noteq> None \<and> \<not> isSensitiveTemplate (Some x)" by code_simp
  with assms show "\<exists>c. categoryForTemplate template = Some c" and "\<not> isSensitiveTemplate (Some template)" by auto
qed

lemma backed_rung:
  assumes template: "template \<in> set ladder_templates" and o: "distinct overseers"
  shows "keeps (preserves backed_ok) (send_rung num fdate ws overseers today template d r)"
proof (rule keepsI)
  fix s
  let ?m = "send_rung num fdate ws overseers today template d r"
  have keys: "send_keys_ok s \<Longrightarrow> send_keys_ok (snd (?m s))"
    using keys_nightly(5) by (simp add: keeps_def keys_step_def)
  have "reminders_backed (snd (?m s))" if ok: "send_keys_ok s" "reminders_backed s"
  proof (cases "daysBetween today (dl_dueAt d) = fst r \<and> unsent ws s (template, d, snd r) \<and> (\<exists>x. at_stake num fdate ws template d s = Inr x)")
    case False
    then have "snd (?m s) = s"
      by (cases "at_stake num fdate ws template d s") (auto simp: send_rung_def unsent_def bindE_apply op_eval split: if_splits)
    then show ?thesis using ok(2) by simp
  next
    case True
    then obtain sfx where sfx: "at_stake num fdate ws template d s = Inr sfx" by blast
    let ?inp = "reminder fdate ws overseers template (snd r) d (deadline_unit d s) sfx"
    obtain u where u: "recordNotification ?inp s = (Inr (), u)"
      using record_succeeds [OF ok(1), of ?inp] ladder_category [OF template] by (auto simp: reminder_def)
    have ev: "w_evidence u = w_evidence s" using u by (rule sameD [rotated]) (intro frames; simp)
    let ?e = "evidence_row (w_next u) (w_now u) (reminder_evidence ws template (snd r) d)"
    have run: "snd (?m s) = u\<lparr>w_next := Suc (w_next u), w_evidence := w_evidence u @ [?e]\<rparr>"
      using True sfx u by (simp add: send_rung_def unsent_def bindE_apply op_eval recordEvidence_eval reminder_evidence_def evidenceOf_def)
    obtain items where items: "inapp_feed u = inapp_feed s @ items" "list_all2 (feed_item ?inp (w_now s)) items overseers"
      using record_feed [OF u] o by (auto simp: reminder_def)
    have "announced ws' v tpl (snd (?m s)) \<le> logged_reminders ws' tpl (snd (?m s))" if "tpl \<in> set ladder_templates" for ws' v tpl
    proof -
      have "announced ws' v tpl (snd (?m s)) \<le> announced ws' v tpl s + (if ws = ws' \<and> template = tpl then 1 else 0)"
        using count_items [OF items(2) o, of ws' v tpl] items(1)
        by (simp add: run announced_def inapp_feed_def reminder_def split: if_splits)
      moreover have "logged_reminders ws' tpl (snd (?m s)) = logged_reminders ws' tpl s + (if ws = ws' \<and> template = tpl then 1 else 0)"
        by (simp add: run logged_reminders_def ev evidence_row_def reminder_evidence_def evidenceOf_def)
      moreover have "announced ws' v tpl s \<le> logged_reminders ws' tpl s" using ok(2) that by (simp add: reminders_backed_def)
      ultimately show ?thesis by linarith
    qed
    then show ?thesis by (simp add: reminders_backed_def)
  qed
  with keys show "preserves backed_ok s (snd (?m s))" by (simp add: preserves_def backed_ok_def)
qed

lemma backed_parts:
  "keeps (preserves backed_ok) getNow"
  "keeps (preserves backed_ok) (writeE (\<lambda>s. s\<lparr>w_payments := g s\<rparr>))"
  "keeps (preserves backed_ok) (writeE (\<lambda>s. s\<lparr>w_proofs := h s\<rparr>))"
  "keeps (preserves backed_ok) (raisePaymentLate i)" "keeps (preserves backed_ok) (evaluateRiskForTenancy j)"
  "keeps (preserves backed_ok) (evaluateRenewalRisk k)" "keeps (preserves backed_ok) (recordEvidence e)"
  by (intro backed_okI keys_basic keys_flags keys_write backed_quiet frames keeps_same_write log_keeps keeps_quiet_write; simp)+

lemma backed_raise: "keeps (preserves backed_ok) (raiseProofOverdue i ws)"
proof (intro backed_okI keys_flags backed_quiet)
  show "keeps (same w_messages) (raiseProofOverdue i ws)"
    unfolding raiseProofOverdue_def by (intro frame.keeps_intros frames; simp)
  show "keeps extends (raiseProofOverdue i ws)"
    unfolding raiseProofOverdue_def by (intro logs.keeps_intros log_keeps)
qed

lemma backed_send:
  assumes "ni_templateCode inp \<notin> set ladder_templates"
  shows "keeps (preserves backed_ok) (notify inp)"
  by (intro backed_okI keys_notify backed_notify assms)

lemma backed_mark:
  assumes "\<And>x. nm_workspaceId (f x) = nm_workspaceId x" "\<And>x. nm_toUserId (f x) = nm_toUserId x"
    "\<And>x. nm_templateCode (f x) = nm_templateCode x" "\<And>x. nm_channel (f x) = nm_channel x"
  shows "keeps (preserves backed_ok) (writeE (\<lambda>s. s\<lparr>w_messages := upd_where q f (w_messages s)\<rparr>))"
  by (intro backed_okI keys_write bare_upd_count assms) simp_all

lemma backed_record:
  assumes "ri_template inp \<notin> set ladder_templates"
  shows "keeps (preserves backed_ok) (recordNotification inp)"
proof -
  have "ni_templateCode (recipient_message inp c ch u) \<notin> set ladder_templates" for c ch u
    using assms by (simp add: recipient_message_def)
  note send = backed_send [OF this]
  show ?thesis
    unfolding recordNotification_def Let_def by (intro inv.keeps_intros send backed_mark) simp_all
qed

lemma other_templates: "''payment_late_v1'' \<notin> set ladder_templates" "digest_template run \<notin> set ladder_templates"
  by (cases run; simp add: ladder_templates_def LADDERS_def)+

lemma backed_nightly:
  "keeps (preserves backed_ok) (detectLatePayments amt fdate w)" "keeps (preserves backed_ok) (sweepOverdueProofRequests w)"
  "keeps (preserves backed_ok) (evaluateWorkspaceRisk ws)"
  unfolding detectLatePayments_def markLate_def sweepOverdueProofRequests_def set_proof_def evaluateWorkspaceRisk_def
  by (intro inv.keeps_intros backed_parts backed_raise backed_record; simp add: late_notice_def other_templates)+

lemma backed_ladders: "keeps (preserves backed_ok) (runAlertLadders num fdate ws)"
proof (rule keepsI)
  fix s
  have ladder: "keeps (preserves backed_ok) (case l of (template, kinds, rungs) \<Rightarrow>
       bindE (readE (\<lambda>s. filter (laddered ws kinds) (w_deadlines s))) (\<lambda>deadlines.
       sumE deadlines (\<lambda>d. sumE rungs (send_rung num fdate ws (workspaceOverseers ws s) today template d))))" if "l \<in> set LADDERS" for l today
    unfolding split_beta
    by (intro inv.keeps_intros keeps_sumE backed_rung overseers_distinct) (use that in \<open>auto simp: ladder_templates_def\<close>)
  have "keeps (preserves backed_ok) (sumE LADDERS (\<lambda>l. case l of (template, kinds, rungs) \<Rightarrow>
       bindE (readE (\<lambda>s. filter (laddered ws kinds) (w_deadlines s))) (\<lambda>deadlines.
       sumE deadlines (\<lambda>d. sumE rungs (send_rung num fdate ws (workspaceOverseers ws s) today template d)))))" for today
    by (intro keeps_sumE_in ladder)
  then show "preserves backed_ok s (snd (runAlertLadders num fdate ws s))"
    by (auto simp: runAlertLadders_def bindE_apply op_eval keeps_def preserves_def)
qed

lemma backed_flush: "keeps (preserves backed_ok) (flushDigest fdate ws u run prefs)"
  unfolding flushDigest_def
  by (intro inv.keeps_intros backed_parts backed_send backed_mark) (simp_all add: digest_message_def other_templates)

lemma backed_jobs: "keeps (preserves backed_ok) (runDailyJobs amt num fdate)"
  unfolding runDailyJobs_def workspace_jobs_def sendUserDailyDigests_def sendUserWeeklyDigests_def runDigests_def
  by (intro inv.keeps_intros backed_nightly backed_ladders keeps_sumE backed_flush)

text \<open>
  C31: the nightly pass can be repeated. The worker runs it every hour, and again every two seconds
  after a pass that threw halfway: however often and whenever it runs, and wherever a pass stops,
  the log has at most one reminder of each rung for each deadline; nobody's feed has more reminders
  of a ladder than the log, so none of them is sent twice; and any two digests of one kind to one
  user are more than twenty hours, or six days, spaced. The keys of the queued sends are those of
  messages that exist.
\<close>

theorem nightly_pass_sends_once:
  assumes "alerts_once s" "digests_spaced s" "reminders_backed s" "send_keys_ok s"
  shows "alerts_once (fold (\<lambda>now s. snd (runDailyJobs amt num fdate (s\<lparr>w_now := now\<rparr>))) passes s) \<and>
    reminders_backed (fold (\<lambda>now s. snd (runDailyJobs amt num fdate (s\<lparr>w_now := now\<rparr>))) passes s) \<and>
    digests_spaced (fold (\<lambda>now s. snd (runDailyJobs amt num fdate (s\<lparr>w_now := now\<rparr>))) passes s)"
  using assms
proof (induction passes arbitrary: s)
  case Nil
  then show ?case by simp
next
  case (Cons now passes)
  have "alerts_once (s\<lparr>w_now := now\<rparr>)" "digests_spaced (s\<lparr>w_now := now\<rparr>)" "backed_ok (s\<lparr>w_now := now\<rparr>)"
    using Cons.prems
    by (simp_all add: alerts_once_def digests_spaced_def backed_ok_def send_keys_ok_def reminders_backed_def announced_def
      logged_reminders_def inapp_feed_def)
  then have "alerts_once (snd (runDailyJobs amt num fdate (s\<lparr>w_now := now\<rparr>)))"
    "digests_spaced (snd (runDailyJobs amt num fdate (s\<lparr>w_now := now\<rparr>)))"
    "backed_ok (snd (runDailyJobs amt num fdate (s\<lparr>w_now := now\<rparr>)))"
    using once_jobs spaced_jobs backed_jobs by (simp_all add: keeps_def preserves_def)
  from Cons.IH [OF this(1,2)] this(3) show ?case by (simp add: backed_ok_def)
qed

theorem nightly_pass_sends_once_witness:
  "\<exists>t. t = fold (\<lambda>now s. snd (runDailyJobs (\<lambda>_. []) show_int (\<lambda>_. []) (s\<lparr>w_now := now\<rparr>))) [0, 2000] (alert_world\<lparr>w_messages := []\<rparr>) \<and>
     digests_spaced t \<and> announced 5 1 ''cheque_v1'' t \<le> logged_reminders 5 ''cheque_v1'' t"
proof -
  have w: "alerts_once (alert_world\<lparr>w_messages := []\<rparr>)" "digests_spaced (alert_world\<lparr>w_messages := []\<rparr>)"
    "reminders_backed (alert_world\<lparr>w_messages := []\<rparr>)" "send_keys_ok (alert_world\<lparr>w_messages := []\<rparr>)"
    by (simp_all add: alerts_once_def digests_spaced_def reminders_backed_def announced_def inapp_feed_def send_keys_ok_def
      alert_world_def sample_world_def sample_users_def empty_world_def)
  have "''cheque_v1'' \<in> set ladder_templates" by (simp add: ladder_templates_def LADDERS_def)
  with nightly_pass_sends_once [OF w, of "\<lambda>_. []" show_int "\<lambda>_. []" "[0, 2000]"] show ?thesis
    unfolding reminders_backed_def by blast
qed

text \<open>
  the pass has no boundary between customers: an exception in the jobs of one workspace, such as a
  lease without a rent on its notice gate ladder, ends the pass, and no job of any later workspace runs.
\<close>

theorem one_workspace_stops_the_pass:
  assumes "sweepableWorkspaces s = before @ ws # later" "forE before (workspace_jobs amt num fdate) s = (Inr (), u)"
    and "workspace_jobs amt num fdate ws u = (Inl e, v)"
  shows "runDailyJobs amt num fdate s = (Inl e, v)"
proof -
  have "forE (before @ ws # later) f w = (Inl e, v)" if "forE before f w = (Inr (), u)" "f ws u = (Inl e, v)" for f w
    using that by (induction before arbitrary: w) (auto simp: bindE_apply ret_def split: sum.splits prod.splits)
  then show ?thesis using assms by (simp add: runDailyJobs_def bindE_apply op_eval)
qed

end
