(* ===== verification/Feed.thy ===== *)
theory Feed
  imports Frames
begin

text \<open>
  \<open>services/notifications.ts\<close>: a member's own in-app feed and its preferences. The boundary is
  recipiency, not a capability.
\<close>

definition CATEGORIES :: "notificationCategory list" where
  "CATEGORIES = [NC_DEADLINES, NC_PAYMENTS, NC_RENEWALS, NC_PROOFS, NC_RISK, NC_DIGEST]"

definition feedScope :: "authz_ctx \<Rightarrow> notification_message \<Rightarrow> bool" where
  "feedScope ctx m \<longleftrightarrow> nm_workspaceId m = cx_workspaceId ctx \<and> nm_toUserId m = Some (cx_userId ctx) \<and> nm_channel m = CH_INAPP"

subsection \<open>Reading the feed\<close>

record feed_options =
  fo_cursor :: "uid option"
  fo_limit :: "nat option"
  fo_unreadOnly :: bool

text \<open>\<open>readAt asc nulls first, createdAt desc\<close>.\<close>

definition feed_rank :: "notification_message \<Rightarrow> (nat \<times> time) \<times> time" where
  "feed_rank m = (case nm_readAt m of None \<Rightarrow> (0, 0) | Some t \<Rightarrow> (1, t), - nm_createdAt m)"

definition feed :: "authz_ctx \<Rightarrow> bool \<Rightarrow> world \<Rightarrow> notification_message list" where
  "feed ctx unreadOnly s = sort_key feed_rank (filter (\<lambda>m. feedScope ctx m \<and> (unreadOnly \<longrightarrow> nm_readAt m = None)) (w_messages s))"

text \<open>\<open>cursor: { id }, skip: 1\<close>: the rows after the one with this id, none when it is not among them.\<close>

definition after_cursor :: "uid \<Rightarrow> notification_message list \<Rightarrow> notification_message list" where
  "after_cursor c rows = drop 1 (dropWhile (\<lambda>m. nm_id m \<noteq> c) rows)"

definition listMyNotifications :: "authz_ctx \<Rightarrow> feed_options \<Rightarrow> (notification_message list \<times> uid option) svc" where
  "listMyNotifications ctx opts =
     (let limit = min (case fo_limit opts of None \<Rightarrow> 20 | Some n \<Rightarrow> n) 100 in
      bindE (readE (feed ctx (fo_unreadOnly opts))) (\<lambda>rows.
      let items = take (limit + 1) (case fo_cursor opts of None \<Rightarrow> rows | Some c \<Rightarrow> after_cursor c rows)
      in ret (take limit items, if limit < length items then Some (nm_id (items ! limit)) else None)))"

definition unreadCount :: "authz_ctx \<Rightarrow> nat svc" where
  "unreadCount ctx =
     bindE (readE (\<lambda>s. map np_category (filter (\<lambda>p. np_workspaceId p = cx_workspaceId ctx \<and> np_userId p = cx_userId ctx \<and>
        \<not> np_inAppEnabled p) (w_preferences s)))) (\<lambda>muted.
     readE (\<lambda>s. count_where (\<lambda>m. feedScope ctx m \<and> nm_readAt m = None \<and>
        (muted = [] \<or> (\<exists>c. nm_category m = Some c \<and> c \<notin> set muted))) (w_messages s)))"

subsection \<open>Marking\<close>

definition markRead :: "authz_ctx \<Rightarrow> uid \<Rightarrow> unit svc" where
  "markRead ctx i =
     bindE (readE (\<lambda>s. List.find (\<lambda>m. nm_id m = i) (w_messages s))) (\<lambda>found.
     bindE (someE notFound (case found of None \<Rightarrow> None | Some m \<Rightarrow> if feedScope ctx m then Some m else None)) (\<lambda>m.
     if nm_readAt m \<noteq> None then ret ()
     else bindE getNow (\<lambda>now.
       writeE (\<lambda>s. s\<lparr>w_messages := upd_where (\<lambda>x. nm_id x = i) (\<lambda>x. x\<lparr>nm_readAt := Some now\<rparr>) (w_messages s)\<rparr>))))"

definition markAllRead :: "authz_ctx \<Rightarrow> nat svc" where
  "markAllRead ctx =
     bindE getNow (\<lambda>now.
     bindE (readE (\<lambda>s. count_where (\<lambda>m. feedScope ctx m \<and> nm_readAt m = None) (w_messages s))) (\<lambda>n.
     thenE (writeE (\<lambda>s. s\<lparr>w_messages := upd_where (\<lambda>m. feedScope ctx m \<and> nm_readAt m = None)
         (\<lambda>x. x\<lparr>nm_readAt := Some now\<rparr>) (w_messages s)\<rparr>))
       (ret n)))"

subsection \<open>Preferences\<close>

record category_preference =
  cf_category :: notificationCategory
  cf_cadence :: cadence
  cf_inAppEnabled :: bool

definition own_preference :: "authz_ctx \<Rightarrow> notificationCategory \<Rightarrow> notification_preference \<Rightarrow> bool" where
  "own_preference ctx c p \<longleftrightarrow> np_workspaceId p = cx_workspaceId ctx \<and> np_userId p = cx_userId ctx \<and> np_category p = c"

definition getMyNotificationPreferences :: "authz_ctx \<Rightarrow> category_preference list svc" where
  "getMyNotificationPreferences ctx =
     readE (\<lambda>s. map (\<lambda>c. case List.find (own_preference ctx c) (rev (w_preferences s)) of
         None \<Rightarrow> \<lparr> cf_category = c, cf_cadence = defaultCadence c, cf_inAppEnabled = True \<rparr>
       | Some p \<Rightarrow> \<lparr> cf_category = c, cf_cadence = np_cadence p, cf_inAppEnabled = np_inAppEnabled p \<rparr>) CATEGORIES)"

definition setNotificationPreference :: "authz_ctx \<Rightarrow> notificationCategory \<Rightarrow> cadence \<Rightarrow> bool \<Rightarrow> unit svc" where
  "setNotificationPreference ctx c cadence inApp =
     bindE (readE (\<lambda>s. \<exists>p \<in> set (w_preferences s). own_preference ctx c p)) (\<lambda>stored.
     if stored
     then writeE (\<lambda>s. s\<lparr>w_preferences := upd_where (own_preference ctx c)
        (\<lambda>p. p\<lparr>np_cadence := cadence, np_inAppEnabled := inApp\<rparr>) (w_preferences s)\<rparr>)
     else writeE (\<lambda>s. s\<lparr>w_preferences := w_preferences s @
        [\<lparr> np_workspaceId = cx_workspaceId ctx, np_userId = cx_userId ctx, np_category = c, np_cadence = cadence,
           np_inAppEnabled = inApp \<rparr>]\<rparr>))"

subsection \<open>The pages\<close>

text \<open>The client's loop: follow \<open>nextCursor\<close> until there is none.\<close>

fun pages :: "nat \<Rightarrow> authz_ctx \<Rightarrow> feed_options \<Rightarrow> world \<Rightarrow> notification_message list list" where
  "pages 0 ctx opts s = []"
| "pages (Suc fuel) ctx opts s =
     (case fst (listMyNotifications ctx opts s) of
        Inl _ \<Rightarrow> []
      | Inr (items, next) \<Rightarrow> items # (case next of None \<Rightarrow> [] | Some c \<Rightarrow> pages fuel ctx (opts\<lparr>fo_cursor := Some c\<rparr>) s))"

definition page_size :: "feed_options \<Rightarrow> nat" where
  "page_size opts = min (case fo_limit opts of None \<Rightarrow> 20 | Some n \<Rightarrow> n) 100"

lemma listMyNotifications_eval:
  "listMyNotifications ctx opts s =
     (let rows = (case fo_cursor opts of None \<Rightarrow> feed ctx (fo_unreadOnly opts) s
                  | Some c \<Rightarrow> after_cursor c (feed ctx (fo_unreadOnly opts) s))
      in (Inr (take (page_size opts) rows,
               if page_size opts < length rows then Some (nm_id (rows ! page_size opts)) else None), s))"
  by (auto simp: listMyNotifications_def bindE_apply op_eval page_size_def Let_def split: option.splits)

lemma dropWhile_to_nth: "distinct (map k xs) \<Longrightarrow> i < length xs \<Longrightarrow> dropWhile (\<lambda>x. k x \<noteq> k (xs ! i)) xs = drop i xs"
proof (induction xs arbitrary: i)
  case (Cons x xs)
  then show ?case by (cases i) auto
qed simp

lemma distinct_feed: "distinct (map nm_id (w_messages s)) \<Longrightarrow> distinct (map nm_id (feed ctx u s))"
  unfolding feed_def by (simp add: distinct_map inj_on_def)

text \<open>The rows the loop shows when it starts after the first \<open>i\<close> of the feed: it misses the first row of every next page.\<close>

fun shown :: "nat \<Rightarrow> 'a list \<Rightarrow> 'a list list" where
  "shown n rows = (if length rows \<le> n then [rows] else take n rows # shown n (drop (Suc n) rows))"

declare shown.simps [simp del]

lemma pages_shown:
  assumes dist: "distinct (map nm_id (w_messages s))"
    and "rows = drop i (feed ctx (fo_unreadOnly opts) s)"
    and "(case fo_cursor opts of None \<Rightarrow> feed ctx (fo_unreadOnly opts) s
          | Some c \<Rightarrow> after_cursor c (feed ctx (fo_unreadOnly opts) s)) = rows"
    and "length rows < fuel"
  shows "pages fuel ctx opts s = shown (page_size opts) rows"
  using assms(2-4)
proof (induction fuel arbitrary: opts rows i)
  case (Suc fuel)
  let ?n = "page_size opts" and ?feed = "feed ctx (fo_unreadOnly opts) s"
  show ?case
  proof (cases "?n < length rows")
    case False
    then show ?thesis using Suc.prems by (simp add: listMyNotifications_eval Let_def shown.simps)
  next
    case True
    let ?opts = "opts\<lparr>fo_cursor := Some (nm_id (rows ! ?n))\<rparr>"
    have at: "rows ! ?n = ?feed ! (i + ?n)" "i + ?n < length ?feed" using True Suc.prems(1) by auto
    have rest: "after_cursor (nm_id (rows ! ?n)) ?feed = drop (Suc (i + ?n)) ?feed"
      using dropWhile_to_nth [OF distinct_feed [OF dist] at(2)] by (simp add: after_cursor_def at(1))
    have same: "page_size ?opts = ?n" by (simp add: page_size_def)
    have "pages fuel ctx ?opts s = shown (page_size ?opts) (drop (Suc (i + ?n)) ?feed)"
      by (rule Suc.IH) (use rest True Suc.prems(1,3) in auto)
    moreover have "drop (Suc ?n) rows = drop (Suc (i + ?n)) ?feed" using Suc.prems(1) by (simp add: add.commute)
    ultimately show ?thesis
      using True Suc.prems(2) shown.simps [of ?n rows] by (simp add: listMyNotifications_eval Let_def same)
  qed
qed simp


lemma length_shown: "length (shown n rows) = length rows div Suc n + 1"
proof (induction n rows rule: shown.induct)
  case (1 n rows)
  then show ?case
    by (cases "length rows \<le> n") (simp_all add: shown.simps [of n rows] le_div_geq div_less not_le Suc_le_eq)
qed

lemma shown_subset: "set (concat (shown n rows)) \<subseteq> set rows"
proof (induction n rows rule: shown.induct)
  case (1 n rows)
  then show ?case
    by (cases "length rows \<le> n") (auto simp: shown.simps [of n rows] dest: in_set_takeD in_set_dropD)
qed

lemma shown_positions: "distinct rows \<Longrightarrow> i < length rows \<Longrightarrow> rows ! i \<in> set (concat (shown n rows)) \<longleftrightarrow> i mod Suc n \<noteq> n"
proof (induction n rows arbitrary: i rule: shown.induct)
  case (1 n rows)
  show ?case
  proof (cases "length rows \<le> n")
    case True
    then show ?thesis using "1.prems" by (simp add: shown.simps [of n rows])
  next
    case False
    let ?rest = "drop (Suc n) rows"
    have split: "rows ! i \<in> set (concat (shown n rows)) \<longleftrightarrow> rows ! i \<in> set (take n rows) \<or> rows ! i \<in> set (concat (shown n ?rest))"
      using False by (simp add: shown.simps [of n rows])
    have first: "rows ! i \<in> set (take n rows) \<longleftrightarrow> i < n"
      using "1.prems" False by (auto simp: in_set_conv_nth nth_eq_iff_index_eq)
    show ?thesis
    proof (cases "i < Suc n")
      case True
      have "rows ! i \<notin> set ?rest" using "1.prems" True by (auto simp: in_set_conv_nth nth_eq_iff_index_eq)
      then have "rows ! i \<notin> set (concat (shown n ?rest))" using shown_subset [of n ?rest] by blast
      then show ?thesis using True split first by auto
    next
      case later: False
      have "rows ! i = ?rest ! (i - Suc n)" "i - Suc n < length ?rest" using later "1.prems" by auto
      then have "rows ! i \<in> set (concat (shown n ?rest)) \<longleftrightarrow> (i - Suc n) mod Suc n \<noteq> n"
        using "1.IH" [OF False] "1.prems"(1) by simp
      moreover have "(i - Suc n) mod Suc n = i mod Suc n" using later by (simp add: le_mod_geq)
      ultimately show ?thesis using split first later by auto
    qed
  qed
qed

lemma shown_nth: "k < length (shown n rows) \<Longrightarrow> shown n rows ! k = take n (drop (k * Suc n) rows)"
proof (induction n rows arbitrary: k rule: shown.induct)
  case (1 n rows)
  show ?case
  proof (cases "length rows \<le> n")
    case True
    then show ?thesis using "1.prems" by (simp add: shown.simps [of n rows])
  next
    case False
    show ?thesis
    proof (cases k)
      case 0
      then show ?thesis using False by (simp add: shown.simps [of n rows])
    next
      case (Suc j)
      have "j < length (shown n (drop (Suc n) rows))"
        using "1.prems" False Suc by (simp add: shown.simps [of n rows])
      from "1.IH" [OF False this] have "shown n (drop (Suc n) rows) ! j = take n (drop (j * Suc n + Suc n) rows)"
        by simp
      moreover have "shown n rows ! k = shown n (drop (Suc n) rows) ! j"
        using False Suc by (simp add: shown.simps [of n rows])
      moreover have "j * Suc n + Suc n = k * Suc n" using Suc by simp
      ultimately show ?thesis by (simp only:)
    qed
  qed
qed

lemma distinct_shown: "distinct rows \<Longrightarrow> distinct (concat (shown n rows))"
proof (induction n rows rule: shown.induct)
  case (1 n rows)
  show ?case
  proof (cases "length rows \<le> n")
    case True
    then show ?thesis using "1.prems" by (simp add: shown.simps [of n rows])
  next
    case False
    let ?rest = "drop (Suc n) rows"
    have "distinct (concat (shown n ?rest))" using "1.IH" [OF False] "1.prems" by simp
    moreover have "set (take n rows) \<inter> set ?rest = {}"
      using "1.prems" by (intro set_take_disj_set_drop_if_distinct) simp_all
    then have "set (take n rows) \<inter> set (concat (shown n ?rest)) = {}" using shown_subset [of n ?rest] by blast
    moreover have "concat (shown n rows) = take n rows @ concat (shown n ?rest)"
      using False by (simp add: shown.simps [of n rows])
    ultimately show ?thesis using "1.prems" by (simp del: set_concat)
  qed
qed

text \<open>
  C36: reading the feed page by page ends, and what it shows is known exactly. With pages of \<open>n\<close> rows
  a feed of \<open>l\<close> rows takes \<open>l div (n + 1) + 1\<close> calls, one for an empty feed; page \<open>k\<close> is the \<open>n\<close> rows of
  the feed, in its order, from row \<open>k * (n + 1)\<close> on, and no row is shown twice. Not everything is read:
  the cursor a page returns is the first row it did \<^emph>\<open>not\<close> show, and the next page starts after it, so
  that of every \<open>n + 1\<close> rows the last is on no page.
\<close>

theorem feed_pages_end:
  assumes "distinct (map nm_id (w_messages s))" and "fo_cursor opts = None" and "length (feed ctx (fo_unreadOnly opts) s) < fuel"
  shows "length (pages fuel ctx opts s) = length (feed ctx (fo_unreadOnly opts) s) div Suc (page_size opts) + 1 \<and>
    (\<forall>k < length (pages fuel ctx opts s). pages fuel ctx opts s ! k =
       take (page_size opts) (drop (k * Suc (page_size opts)) (feed ctx (fo_unreadOnly opts) s))) \<and>
    distinct (concat (pages fuel ctx opts s)) \<and>
    (\<forall>i < length (feed ctx (fo_unreadOnly opts) s).
       feed ctx (fo_unreadOnly opts) s ! i \<in> set (concat (pages fuel ctx opts s)) \<longleftrightarrow> i mod Suc (page_size opts) \<noteq> page_size opts)"
proof -
  have p: "pages fuel ctx opts s = shown (page_size opts) (feed ctx (fo_unreadOnly opts) s)"
    by (rule pages_shown [OF assms(1), where i = 0]) (use assms in simp_all)
  have "distinct (feed ctx (fo_unreadOnly opts) s)"
    using distinct_feed [OF assms(1)] by (simp add: distinct_map)
  then show ?thesis unfolding p using shown_positions shown_nth distinct_shown length_shown by metis
qed

text \<open>Two notifications of one user, one a page.\<close>

definition feed_message :: "uid \<Rightarrow> time \<Rightarrow> notification_message" where
  "feed_message i now = \<lparr> nm_id = i, nm_workspaceId = 5, nm_channel = CH_INAPP, nm_direction = DIR_OUTBOUND, nm_toUserId = Some 1,
     nm_toContactId = None, nm_templateCode = None, nm_subject = None, nm_bodyRef = None, nm_providerRef = None,
     nm_status = MS_DELIVERED, nm_relatedType = None, nm_relatedId = None, nm_category = None, nm_urgent = False,
     nm_readAt = None, nm_digestedAt = None, nm_emailMessageId = None, nm_createdAt = now \<rparr>"

theorem feed_pages_end_witness:
  "pages 3 (sample_ctx MANAGER) \<lparr> fo_cursor = None, fo_limit = Some 1, fo_unreadOnly = False \<rparr>
     (empty_world\<lparr>w_messages := [feed_message 1 0, feed_message 2 1]\<rparr>) \<noteq> [] \<and>
   feed_message 1 0 \<notin> set (concat (pages 3 (sample_ctx MANAGER) \<lparr> fo_cursor = None, fo_limit = Some 1, fo_unreadOnly = False \<rparr>
     (empty_world\<lparr>w_messages := [feed_message 1 0, feed_message 2 1]\<rparr>)))"
proof -
  let ?s = "empty_world\<lparr>w_messages := [feed_message 1 0, feed_message 2 1]\<rparr>"
    and ?o = "\<lparr> fo_cursor = None, fo_limit = Some 1, fo_unreadOnly = False \<rparr>"
  have feed: "feed (sample_ctx MANAGER) False ?s = [feed_message 2 1, feed_message 1 0]"
    by (simp add: feed_def feedScope_def feed_message_def sample_ctx_def feed_rank_def)
  have size: "page_size ?o = 1" by (simp add: page_size_def)
  have dist: "distinct (map nm_id (w_messages ?s))" by (simp add: feed_message_def)
  have len: "length (pages 3 (sample_ctx MANAGER) ?o ?s) = 2"
    using feed_pages_end [of ?s ?o "sample_ctx MANAGER" 3, OF dist] feed size by (simp del: pages.simps)
  have "feed_message 1 0 \<in> set (concat (pages 3 (sample_ctx MANAGER) ?o ?s)) \<longleftrightarrow> False"
    using feed_pages_end [of ?s ?o "sample_ctx MANAGER" 3, OF dist, THEN conjunct2, THEN conjunct2, THEN conjunct2, rule_format, of 1] feed size
    by (simp del: pages.simps set_concat)
  moreover have "pages 3 (sample_ctx MANAGER) ?o ?s \<noteq> []" using len by (metis list.size(3) zero_neq_numeral)
  ultimately show ?thesis by blast
qed

subsection \<open>A preference reads back, unless it is about enquiries\<close>

text \<open>
  a stored preference is what the settings page shows, for every category it lists; the category
  of the enquiries is not listed, so that its preference can be stored and takes effect, and cannot
  be seen.
\<close>

theorem preference_reads_back:
  "\<exists>t prefs. setNotificationPreference ctx c cad inApp s = (Inr (), t) \<and> getMyNotificationPreferences ctx t = (Inr prefs, t) \<and>
     (c \<in> set CATEGORIES \<longrightarrow> \<lparr> cf_category = c, cf_cadence = cad, cf_inAppEnabled = inApp \<rparr> \<in> set prefs) \<and>
     (\<forall>x \<in> set prefs. cf_category x \<noteq> NC_ENQUIRIES)"
proof -
  define t where "t = snd (setNotificationPreference ctx c cad inApp s)"
  have own: "own_preference ctx c (p\<lparr>np_cadence := x, np_inAppEnabled := y\<rparr>) = own_preference ctx c p" for p x y
    by (simp add: own_preference_def)
  have row: "own_preference ctx c \<lparr> np_workspaceId = cx_workspaceId ctx, np_userId = cx_userId ctx, np_category = c, np_cadence = cad,
      np_inAppEnabled = inApp \<rparr>" by (simp add: own_preference_def)
  have "w_preferences t = (if \<exists>p \<in> set (w_preferences s). own_preference ctx c p
     then upd_where (own_preference ctx c) (\<lambda>p. p\<lparr>np_cadence := cad, np_inAppEnabled := inApp\<rparr>) (w_preferences s)
     else w_preferences s @ [\<lparr> np_workspaceId = cx_workspaceId ctx, np_userId = cx_userId ctx, np_category = c, np_cadence = cad,
       np_inAppEnabled = inApp \<rparr>])"
    by (simp add: t_def setNotificationPreference_def bindE_apply op_eval)
  then have stored: "\<forall>p \<in> set (w_preferences t). own_preference ctx c p \<longrightarrow> np_cadence p = cad \<and> np_inAppEnabled p = inApp"
    and some: "\<exists>p \<in> set (w_preferences t). own_preference ctx c p"
    using row own by (auto simp: set_upd_where split: if_splits)
  have "List.find (own_preference ctx c) (rev (w_preferences t)) \<noteq> None"
    using some by (auto simp: find_None_iff)
  then obtain p where p: "List.find (own_preference ctx c) (rev (w_preferences t)) = Some p" by blast
  then have val: "np_cadence p = cad" "np_inAppEnabled p = inApp" using stored find_Some_in [OF p] by auto
  define prefs where "prefs = map (\<lambda>c. case List.find (own_preference ctx c) (rev (w_preferences t)) of
         None \<Rightarrow> \<lparr> cf_category = c, cf_cadence = defaultCadence c, cf_inAppEnabled = True \<rparr>
       | Some p \<Rightarrow> \<lparr> cf_category = c, cf_cadence = np_cadence p, cf_inAppEnabled = np_inAppEnabled p \<rparr>) CATEGORIES"
  have "getMyNotificationPreferences ctx t = (Inr prefs, t)" by (simp add: getMyNotificationPreferences_def readE_def prefs_def)
  moreover have "setNotificationPreference ctx c cad inApp s = (Inr (), t)"
    by (auto simp: t_def setNotificationPreference_def bindE_apply op_eval)
  moreover have "\<lparr> cf_category = c, cf_cadence = cad, cf_inAppEnabled = inApp \<rparr> \<in> set prefs" if "c \<in> set CATEGORIES"
    using that p val by (force simp: prefs_def)
  moreover have "\<forall>x \<in> set prefs. cf_category x \<noteq> NC_ENQUIRIES"
    by (auto simp: prefs_def CATEGORIES_def split: option.splits)
  ultimately show ?thesis by blast
qed

end
