(* ===== verification/Csv.thy ===== *)
theory Csv
  imports "HOL-Library.AList" Documents Js_Text Dates
begin

text \<open>
  The reading side of \<open>services/imports.ts\<close>: dates and numbers as the runtime reads them from a
  text, and the rows of a CSV template.

  \<open>other_date\<close> and \<open>other_number\<close> stand for what the runtime does with texts outside the forms
  modelled here: a calendar day \<open>yyyy-mm-dd\<close>, and a decimal literal without an exponent.
\<close>

subsection \<open>Dates\<close>

definition is_digit :: "char \<Rightarrow> bool" where
  "is_digit c \<longleftrightarrow> 48 \<le> (of_char c :: nat) \<and> (of_char c :: nat) \<le> 57"

definition digits :: "string \<Rightarrow> bool" where
  "digits s \<longleftrightarrow> s \<noteq> [] \<and> list_all is_digit s"

definition iso_form :: "string \<Rightarrow> bool" where
  "iso_form s \<longleftrightarrow> length s = 10 \<and> digits (take 4 s) \<and> s ! 4 = CHR ''-'' \<and> digits (take 2 (drop 5 s)) \<and> s ! 7 = CHR ''-'' \<and>
     digits (drop 8 s)"

definition iso_parts :: "string \<Rightarrow> int \<times> int \<times> int" where
  "iso_parts s = (int (read_digits (take 4 s)), int (read_digits (take 2 (drop 5 s))) - 1, int (read_digits (drop 8 s)))"

text \<open>\<open>new Date(s)\<close>; \<open>None\<close> is an invalid date.\<close>

definition js_date :: "(string \<Rightarrow> time option) \<Rightarrow> string \<Rightarrow> time option" where
  "js_date other_date s =
     (case iso_parts s of (y, m, d) \<Rightarrow>
        if iso_form s \<and> civil (days_of y m d) = (y, m, d) then Some (days_of y m d * msPerDay) else other_date s)"

lemma digits_pad: "0 < k \<Longrightarrow> digits (pad k n)"
proof -
  have "list_all is_digit (pad k n)" for k n
  proof (induction k arbitrary: n)
    case (Suc k)
    have "n mod 10 < 10" by simp
    then have "is_digit (digit_char n)" by (simp add: is_digit_def of_digit_char)
    with Suc show ?case by simp
  qed simp
  then show "0 < k \<Longrightarrow> digits (pad k n)" by (auto simp: digits_def simp flip: length_0_conv)
qed

text \<open>
  a date read back is the day that was printed: what \<open>toISOString().slice(0, 10)\<close> writes for
  any time of the years 0 to 9999, \<open>new Date\<close> reads as the midnight of its day.
\<close>

theorem iso_date_roundtrip:
  assumes "0 \<le> getUTCFullYear t" "getUTCFullYear t \<le> 9999"
  shows "js_date other_date (toISODate t) = Some (t div msPerDay * msPerDay)"
proof -
  obtain y m d where c: "civil (t div msPerDay) = (y, m, d)" by (rule prod_cases3)
  note r = civil_ranges [OF c]
  have y: "0 \<le> y" "y \<le> 9999" using assms c by (simp_all add: getUTCFullYear_def)
  have s: "toISODate t = pad 4 (nat y) @ ''-'' @ pad 2 (nat (m + 1)) @ ''-'' @ pad 2 (nat d)"
    using y by (simp add: toISODate_def getUTCFullYear_def getUTCMonth_def getUTCDate_def c del: pad.simps)
  have "iso_form (toISODate t)"
    unfolding iso_form_def s by (simp add: digits_pad nth_append del: pad.simps)
  moreover have "iso_parts (toISODate t) = (y, m, d)"
    unfolding iso_parts_def s using y r by (simp add: read_pad del: pad.simps)
  moreover have "days_of y m d = t div msPerDay" by (rule days_of_civil [OF c])
  ultimately show ?thesis using c by (simp add: js_date_def)
qed

theorem iso_date_roundtrip_witness: "js_date (\<lambda>_. None) (toISODate 1767225600000) = Some 1767225600000"
proof -
  have "0 \<le> getUTCFullYear 1767225600000" "getUTCFullYear 1767225600000 \<le> 9999" by code_simp+
  from iso_date_roundtrip [OF this] show ?thesis by (simp add: msPerDay_def)
qed

subsection \<open>Numbers\<close>

definition unsigned_decimal :: "string \<Rightarrow> rat option" where
  "unsigned_decimal s =
     (let whole = takeWhile is_digit s; rest = dropWhile is_digit s in
      if rest = [] then (if whole = [] then None else Some (of_nat (read_digits whole)))
      else if hd rest = CHR ''.'' \<and> list_all is_digit (tl rest) \<and> (whole \<noteq> [] \<or> tl rest \<noteq> [])
      then Some (of_nat (read_digits whole) + of_nat (read_digits (tl rest)) / 10 ^ length (tl rest))
      else None)"

definition decimal :: "string \<Rightarrow> rat option" where
  "decimal s = (case s of
       c # r \<Rightarrow> if c = CHR ''-'' then map_option uminus (unsigned_decimal r)
         else if c = CHR ''+'' then unsigned_decimal r else unsigned_decimal s
     | [] \<Rightarrow> None)"

text \<open>\<open>Number(s)\<close> of a trimmed text that is not empty; \<open>None\<close> is not finite.\<close>

definition js_number :: "(string \<Rightarrow> rat option) \<Rightarrow> string \<Rightarrow> rat option" where
  "js_number other_number s = (case decimal s of Some x \<Rightarrow> Some (fl x) | None \<Rightarrow> other_number s)"

subsection \<open>Lines and cells\<close>

fun split_on :: "char \<Rightarrow> string \<Rightarrow> string list" where
  "split_on c [] = [[]]"
| "split_on c (x # xs) = (if x = c then [] # split_on c xs
     else case split_on c xs of [] \<Rightarrow> [[x]] | y # ys \<Rightarrow> (x # y) # ys)"

definition drop_cr :: "string \<Rightarrow> string" where
  "drop_cr s = (if s \<noteq> [] \<and> last s = CHR 0x0D then butlast s else s)"

text \<open>\<open>split(/\r?\n/)\<close>: a carriage return goes with the newline after it, so the last line keeps its own.\<close>

definition csv_lines :: "string \<Rightarrow> string list" where
  "csv_lines s = (let ls = split_on (CHR 0x0A) s in map drop_cr (butlast ls) @ [last ls])"

type_synonym csv_raw = "(string \<times> string) list"

text \<open>
  The object a row becomes, key by key: \<open>raw[h] = cells[i] ?? ""\<close>. A header that comes twice keeps its
  last cell, a missing cell is empty.
\<close>

definition cell_at :: "string list \<Rightarrow> nat \<Rightarrow> string" where
  "cell_at cells i = (if i < length cells then cells ! i else [])"

definition csv_object :: "string list \<Rightarrow> string list \<Rightarrow> csv_raw" where
  "csv_object headers cells = AList.updates headers (map (cell_at cells) [0..<length headers]) []"

definition csv_cell :: "csv_raw \<Rightarrow> string \<Rightarrow> string" where
  "csv_cell raw key = (case map_of raw key of None \<Rightarrow> [] | Some v \<Rightarrow> js_trim v)"

definition must :: "csv_raw \<Rightarrow> string \<Rightarrow> string + string" where
  "must raw key = (if csv_cell raw key = [] then Inl (''Missing required column '' @ key) else Inr (csv_cell raw key))"

definition str :: "csv_raw \<Rightarrow> string \<Rightarrow> string option" where
  "str raw key = (if csv_cell raw key = [] then None else Some (csv_cell raw key))"

definition num :: "(string \<Rightarrow> rat option) \<Rightarrow> csv_raw \<Rightarrow> string \<Rightarrow> string + rat option" where
  "num other_number raw key =
     (if csv_cell raw key = [] then Inr None
      else case js_number other_number (csv_cell raw key) of
        None \<Rightarrow> Inl (''Column '' @ key @ '' is not a number'') | Some n \<Rightarrow> Inr (Some n))"

definition mustNum :: "(string \<Rightarrow> rat option) \<Rightarrow> csv_raw \<Rightarrow> string \<Rightarrow> string + rat" where
  "mustNum other_number raw key =
     (case num other_number raw key of Inl e \<Rightarrow> Inl e
      | Inr None \<Rightarrow> Inl (''Missing required column '' @ key) | Inr (Some n) \<Rightarrow> Inr n)"

definition and_then :: "'e + 'a \<Rightarrow> ('a \<Rightarrow> 'e + 'b) \<Rightarrow> 'e + 'b" where
  "and_then r f = (case r of Inl e \<Rightarrow> Inl e | Inr x \<Rightarrow> f x)"

definition csv_mapped :: "(string \<Rightarrow> rat option) \<Rightarrow> csv_raw \<Rightarrow> string + import_data" where
  "csv_mapped other_number raw =
     and_then (must raw ''community'') (\<lambda>community.
     and_then (num other_number raw ''bedrooms'') (\<lambda>bedrooms.
     and_then (must raw ''startDate'') (\<lambda>startDate.
     and_then (must raw ''endDate'') (\<lambda>endDate.
     and_then (mustNum other_number raw ''annualRent'') (\<lambda>annualRent.
     and_then (num other_number raw ''depositAmount'') (\<lambda>depositAmount.
     and_then (num other_number raw ''noticePeriodDays'') (\<lambda>noticePeriodDays.
     Inr \<lparr> id_community = community, id_building = str raw ''building'', id_unitNo = str raw ''unitNo'',
       id_propertyType = str raw ''propertyType'', id_bedrooms = bedrooms, id_clientPrincipalId = None, id_propertyId = None,
       id_usage = None, id_plotNo = None, id_makaniNo = None, id_dewaPremiseNo = None, id_sizeSqm = None,
       id_ejariNo = str raw ''ejariNo'', id_startDate = startDate, id_endDate = endDate, id_annualRent = annualRent,
       id_depositAmount = depositAmount, id_noticePeriodDays = noticePeriodDays, id_paymentTermsNote = None,
       id_landlordContactId = PC_unset, id_tenantContactId = PC_unset, id_landlordName = str raw ''landlordName'',
       id_tenantName = str raw ''tenantName'', id_landlord = None, id_tenant = None, id_chequeCount = None,
       id_paymentItems = [] \<rparr>)))))))"

definition parse_row :: "(string \<Rightarrow> rat option) \<Rightarrow> string list \<Rightarrow> string \<Rightarrow> csv_raw \<times> (string + import_data)" where
  "parse_row other_number headers line =
     (let raw = csv_object headers (map js_trim (split_on (CHR '','') line)) in (raw, csv_mapped other_number raw))"

definition parseCsvRows :: "(string \<Rightarrow> rat option) \<Rightarrow> string \<Rightarrow> (csv_raw \<times> (string + import_data)) list" where
  "parseCsvRows other_number csv =
     (case filter (\<lambda>l. js_trim l \<noteq> []) (csv_lines csv) of
        h # l # ls \<Rightarrow> map (parse_row other_number (map js_trim (split_on (CHR '','') h))) (l # ls)
      | _ \<Rightarrow> [])"

subsection \<open>A template reads back\<close>

lemma split_on_none: "c \<notin> set x \<Longrightarrow> split_on c x = [x]"
  by (induction x) auto

lemma split_on_append: "c \<notin> set x \<Longrightarrow> split_on c (x @ c # ys) = x # split_on c ys"
  by (induction x) auto

lemma split_on_join: "xs \<noteq> [] \<Longrightarrow> \<forall>x \<in> set xs. c \<notin> set x \<Longrightarrow> split_on c (join_with [c] xs) = xs"
proof (induction "[c]" xs rule: join_with.induct)
  case (3 x y ys)
  then show ?case by (simp add: split_on_append)
qed (simp_all add: split_on_none)

definition clean_cell :: "string \<Rightarrow> bool" where
  "clean_cell c \<longleftrightarrow> CHR '','' \<notin> set c \<and> js_trim c = c"

definition csv_line :: "string list \<Rightarrow> string" where
  "csv_line cells = join_with '','' cells"

text \<open>
  A file: its lines, each ended by a newline or by a carriage return and a newline, and what comes
  after the last of them.
\<close>

definition eol :: "bool \<Rightarrow> string" where
  "eol crlf = (if crlf then [CHR 0x0D, CHR 0x0A] else [CHR 0x0A])"

definition file_text :: "(string \<times> bool) list \<Rightarrow> string \<Rightarrow> string" where
  "file_text ls final = concat (map (\<lambda>(l, crlf). l @ eol crlf) ls) @ final"

definition one_line :: "string \<Rightarrow> bool" where
  "one_line l \<longleftrightarrow> CHR 0x0A \<notin> set l \<and> CHR 0x0D \<notin> set l"

lemma js_trim_keeps: "x \<in> set s \<Longrightarrow> \<not> js_space x \<Longrightarrow> js_trim s \<noteq> []"
proof -
  assume x: "x \<in> set s" "\<not> js_space x"
  then have "x \<in> set (dropWhile js_space s)"
    by (metis UnE set_append set_takeWhileD takeWhile_dropWhile_id)
  then have "x \<in> set (dropWhile js_space (rev (dropWhile js_space s)))"
    using x(2) by (metis UnE set_append set_rev set_takeWhileD takeWhile_dropWhile_id)
  then show "js_trim s \<noteq> []" unfolding js_trim_def by (metis empty_iff empty_set rev_is_Nil_conv)
qed

lemma blank_line: "js_trim l = [] \<longleftrightarrow> list_all js_space l"
proof
  show "js_trim l = [] \<Longrightarrow> list_all js_space l" using js_trim_keeps [of _ l] by (auto simp: list_all_iff)
  assume "list_all js_space l"
  then show "js_trim l = []" by (auto simp: js_trim_def list_all_iff dest: set_dropWhileD)
qed

lemma split_file:
  "\<forall>x \<in> set ls. one_line (fst x) \<Longrightarrow> one_line final \<Longrightarrow>
   split_on (CHR 0x0A) (file_text ls final) = map (\<lambda>(l, crlf). l @ (if crlf then [CHR 0x0D] else [])) ls @ [final]"
proof (induction ls)
  case Nil
  then show ?case by (simp add: file_text_def split_on_none one_line_def)
next
  case (Cons x ls)
  obtain l crlf where x: "x = (l, crlf)" by fastforce
  let ?first = "l @ (if crlf then [CHR 0x0D] else [])"
  have shape: "file_text (x # ls) final = ?first @ CHR 0x0A # file_text ls final"
    by (simp add: x file_text_def eol_def)
  have "CHR 0x0A \<notin> set ?first" using Cons.prems by (simp add: x one_line_def)
  then have "split_on (CHR 0x0A) (file_text (x # ls) final) = ?first # split_on (CHR 0x0A) (file_text ls final)"
    unfolding shape by (rule split_on_append)
  then show ?case using Cons by (simp add: x)
qed

lemma csv_lines_file:
  assumes "\<forall>x \<in> set ls. one_line (fst x)" and "one_line final"
  shows "csv_lines (file_text ls final) = map fst ls @ [final]"
proof -
  have "drop_cr (l @ (if crlf then [CHR 0x0D] else [])) = l" if "one_line l" for l crlf
  proof -
    have "l \<noteq> [] \<Longrightarrow> last l \<noteq> CHR 0x0D" using that last_in_set [of l] unfolding one_line_def by metis
    then show ?thesis by (auto simp: drop_cr_def)
  qed
  then have "map drop_cr (map (\<lambda>(l, crlf). l @ (if crlf then [CHR 0x0D] else [])) ls) = map fst ls"
    using assms(1) by (auto simp: split_beta)
  then show ?thesis by (simp add: csv_lines_def split_file [OF assms])
qed

lemma split_line:
  assumes "\<forall>c \<in> set cells. clean_cell c" and "cells \<noteq> []"
  shows "map js_trim (split_on (CHR '','') (csv_line cells)) = cells"
proof -
  have "split_on (CHR '','') (csv_line cells) = cells"
    unfolding csv_line_def by (rule split_on_join) (use assms in \<open>auto simp: clean_cell_def\<close>)
  then show ?thesis using assms(1) by (auto simp: clean_cell_def intro: map_idI)
qed

lemma csv_object_reads:
  assumes "distinct headers" and "i < length headers"
  shows "map_of (csv_object headers cells) (headers ! i) = Some (cell_at cells i)"
proof -
  let ?cells = "map (cell_at cells) [0..<length headers]"
  have "distinct (map fst (rev (zip headers ?cells)))" using assms(1) by (simp flip: rev_map)
  moreover have "(headers ! i, cell_at cells i) \<in> set (rev (zip headers ?cells))"
    using assms(2) by (auto simp: in_set_zip)
  ultimately have "map_of (rev (zip headers ?cells)) (headers ! i) = Some (cell_at cells i)" by (rule map_of_is_SomeI)
  then show ?thesis by (simp add: csv_object_def updates_conv' map_upds_def)
qed

subsection \<open>What the columns of the template say\<close>

definition text_of :: "string option \<Rightarrow> string" where
  "text_of x = (case x of None \<Rightarrow> [] | Some s \<Rightarrow> s)"

definition number_of :: "rat option \<Rightarrow> string" where
  "number_of x = (case x of None \<Rightarrow> [] | Some q \<Rightarrow> show_nat (nat \<lfloor>q\<rfloor>))"

text \<open>A row as a user fills it in: the texts as they are, the numbers in decimal.\<close>

definition template_cells :: "import_data \<Rightarrow> (string \<times> string) list" where
  "template_cells d =
     [(''community'', id_community d), (''building'', text_of (id_building d)), (''unitNo'', text_of (id_unitNo d)),
      (''propertyType'', text_of (id_propertyType d)), (''bedrooms'', number_of (id_bedrooms d)),
      (''ejariNo'', text_of (id_ejariNo d)), (''startDate'', id_startDate d), (''endDate'', id_endDate d),
      (''annualRent'', number_of (Some (id_annualRent d))), (''depositAmount'', number_of (id_depositAmount d)),
      (''noticePeriodDays'', number_of (id_noticePeriodDays d)), (''tenantName'', text_of (id_tenantName d)),
      (''landlordName'', text_of (id_landlordName d))]"

definition entered :: "string list \<Rightarrow> string list \<Rightarrow> import_data \<Rightarrow> bool" where
  "entered headers cells d \<longleftrightarrow>
     (\<forall>(k, v) \<in> set (template_cells d). \<exists>i < length headers. headers ! i = k \<and> cell_at cells i = v)"

definition blank_import :: import_data where
  "blank_import = \<lparr> id_community = [], id_building = None, id_unitNo = None,
       id_propertyType = None, id_bedrooms = None, id_clientPrincipalId = None, id_propertyId = None,
       id_usage = None, id_plotNo = None, id_makaniNo = None, id_dewaPremiseNo = None, id_sizeSqm = None,
       id_ejariNo = None, id_startDate = [], id_endDate = [], id_annualRent = 0,
       id_depositAmount = None, id_noticePeriodDays = None, id_paymentTermsNote = None,
       id_landlordContactId = PC_unset, id_tenantContactId = PC_unset, id_landlordName = None,
       id_tenantName = None, id_landlord = None, id_tenant = None, id_chequeCount = None,
       id_paymentItems = [] \<rparr>"

definition whole_number :: "rat \<Rightarrow> bool" where
  "whole_number q \<longleftrightarrow> q = of_int \<lfloor>q\<rfloor> \<and> 0 \<le> q \<and> q \<le> 2 ^ 53"

text \<open>The data the template can say: the required texts are there, the numbers are whole, the rest is blank.\<close>

definition plain_data :: "import_data \<Rightarrow> bool" where
  "plain_data d \<longleftrightarrow> id_community d \<noteq> [] \<and> id_startDate d \<noteq> [] \<and> id_endDate d \<noteq> [] \<and>
     Some [] \<notin> {id_building d, id_unitNo d, id_propertyType d, id_ejariNo d, id_tenantName d, id_landlordName d} \<and>
     whole_number (id_annualRent d) \<and>
     pred_option whole_number (id_bedrooms d) \<and> pred_option whole_number (id_depositAmount d) \<and>
     pred_option whole_number (id_noticePeriodDays d) \<and>
     d = blank_import\<lparr>id_community := id_community d, id_building := id_building d, id_unitNo := id_unitNo d,
       id_propertyType := id_propertyType d, id_bedrooms := id_bedrooms d, id_ejariNo := id_ejariNo d,
       id_startDate := id_startDate d, id_endDate := id_endDate d, id_annualRent := id_annualRent d,
       id_depositAmount := id_depositAmount d, id_noticePeriodDays := id_noticePeriodDays d,
       id_landlordName := id_landlordName d, id_tenantName := id_tenantName d\<rparr>"

lemma show_nat_digits: "list_all is_digit (show_nat n)"
  using show_nat_range by (auto simp: list_all_iff is_digit_def)

lemma js_number_show: "int n \<le> 2 ^ 53 \<Longrightarrow> js_number other_number (show_nat n) = Some (of_nat n)"
proof -
  assume n: "int n \<le> 2 ^ 53"
  have all: "takeWhile is_digit (show_nat n) = show_nat n" "dropWhile is_digit (show_nat n) = []"
    using show_nat_digits [of n] by (auto simp: takeWhile_eq_all_conv list_all_iff)
  have u: "unsigned_decimal (show_nat n) = Some (of_nat n)"
    by (simp add: unsigned_decimal_def Let_def all show_nat_nonempty read_show_nat)
  obtain c r where c: "show_nat n = c # r" using show_nat_nonempty [of n] by (cases "show_nat n") auto
  then have "is_digit c" using show_nat_digits [of n] by simp
  then have "c \<noteq> CHR ''-''" "c \<noteq> CHR ''+''" by (auto simp: is_digit_def)
  then have "decimal (show_nat n) = Some (of_nat n)" using u by (simp add: decimal_def c)
  moreover have "fl (of_int (int n)) = of_int (int n)" using n by (intro fl_of_int) simp
  ultimately show ?thesis by (simp add: js_number_def)
qed

lemma number_reads:
  assumes "csv_cell raw key = number_of x" and "pred_option whole_number x"
  shows "num other_number raw key = Inr x"
proof (cases x)
  case None
  then show ?thesis using assms(1) by (simp add: num_def number_of_def)
next
  case (Some q)
  then have q: "q = of_int \<lfloor>q\<rfloor>" "0 \<le> q" "q \<le> 2 ^ 53" using assms(2) by (simp_all add: whole_number_def)
  have z: "0 \<le> \<lfloor>q\<rfloor>" using q(2) by simp
  have "of_int \<lfloor>q\<rfloor> \<le> (of_int (2 ^ 53) :: rat)" using q(1,3) by simp
  then have "\<lfloor>q\<rfloor> \<le> 2 ^ 53" by (simp only: of_int_le_iff)
  then have "int (nat \<lfloor>q\<rfloor>) \<le> 2 ^ 53" using z by simp
  from js_number_show [OF this] have "js_number other_number (show_nat (nat \<lfloor>q\<rfloor>)) = Some q"
    using q(1) z by simp
  then show ?thesis using assms(1) by (simp add: num_def number_of_def Some show_nat_nonempty)
qed

lemma text_reads: "csv_cell raw key = text_of x \<Longrightarrow> x \<noteq> Some [] \<Longrightarrow> str raw key = x"
  by (cases x) (auto simp: str_def text_of_def)

lemma entered_cell:
  assumes "entered headers cells d" and "distinct headers" and "\<forall>c \<in> set cells. clean_cell c"
    and "(k, v) \<in> set (template_cells d)"
  shows "csv_cell (csv_object headers cells) k = v"
proof -
  obtain i where i: "i < length headers" "headers ! i = k" "cell_at cells i = v"
    using assms(1,4) by (auto simp: entered_def)
  have "js_trim v = v" using assms(3) i(3) by (auto simp: cell_at_def clean_cell_def js_trim_def split: if_splits)
  then show ?thesis using csv_object_reads [OF assms(2) i(1), of cells] i by (simp add: csv_cell_def)
qed

lemma mapped_row:
  assumes "entered headers cells d" and "plain_data d" and "distinct headers" and "\<forall>c \<in> set cells. clean_cell c"
  shows "csv_mapped other_number (csv_object headers cells) = Inr d"
proof -
  let ?raw = "csv_object headers cells"
  note cell = entered_cell [OF assms(1,3,4)]
  have texts: "csv_cell ?raw ''community'' = id_community d" "csv_cell ?raw ''startDate'' = id_startDate d"
    "csv_cell ?raw ''endDate'' = id_endDate d"
    by (rule cell, simp add: template_cells_def)+
  have optional: "csv_cell ?raw ''building'' = text_of (id_building d)" "csv_cell ?raw ''unitNo'' = text_of (id_unitNo d)"
    "csv_cell ?raw ''propertyType'' = text_of (id_propertyType d)" "csv_cell ?raw ''ejariNo'' = text_of (id_ejariNo d)"
    "csv_cell ?raw ''tenantName'' = text_of (id_tenantName d)" "csv_cell ?raw ''landlordName'' = text_of (id_landlordName d)"
    "csv_cell ?raw ''bedrooms'' = number_of (id_bedrooms d)" "csv_cell ?raw ''annualRent'' = number_of (Some (id_annualRent d))"
    "csv_cell ?raw ''depositAmount'' = number_of (id_depositAmount d)"
    "csv_cell ?raw ''noticePeriodDays'' = number_of (id_noticePeriodDays d)"
    by (rule cell, simp add: template_cells_def)+
  have good: "Some [] \<notin> {id_building d, id_unitNo d, id_propertyType d, id_ejariNo d, id_tenantName d, id_landlordName d}"
    "pred_option whole_number (id_bedrooms d)" "pred_option whole_number (Some (id_annualRent d))"
    "pred_option whole_number (id_depositAmount d)" "pred_option whole_number (id_noticePeriodDays d)"
    using assms(2) unfolding plain_data_def by simp_all
  have opt: "str ?raw ''building'' = id_building d" "str ?raw ''unitNo'' = id_unitNo d" "str ?raw ''propertyType'' = id_propertyType d"
    "str ?raw ''ejariNo'' = id_ejariNo d" "str ?raw ''tenantName'' = id_tenantName d" "str ?raw ''landlordName'' = id_landlordName d"
    using optional(1-6) [THEN text_reads] good(1) by auto
  note nums = optional(7) [THEN number_reads, OF good(2)] optional(8) [THEN number_reads, OF good(3)]
    optional(9) [THEN number_reads, OF good(4)] optional(10) [THEN number_reads, OF good(5)]
  have d: "id_community d \<noteq> []" "id_startDate d \<noteq> []" "id_endDate d \<noteq> []"
    and rest: "d = blank_import\<lparr>id_community := id_community d, id_building := id_building d, id_unitNo := id_unitNo d,
       id_propertyType := id_propertyType d, id_bedrooms := id_bedrooms d, id_ejariNo := id_ejariNo d,
       id_startDate := id_startDate d, id_endDate := id_endDate d, id_annualRent := id_annualRent d,
       id_depositAmount := id_depositAmount d, id_noticePeriodDays := id_noticePeriodDays d,
       id_landlordName := id_landlordName d, id_tenantName := id_tenantName d\<rparr>"
    using assms(2) unfolding plain_data_def by blast+
  show ?thesis
    by (subst rest) (simp add: csv_mapped_def and_then_def must_def mustNum_def texts opt nums d blank_import_def)
qed

text \<open>
  C39: a filled-in template reads back, row by row. Take a file whose lines end in a newline or in a
  carriage return and a newline, with blank lines anywhere, and whose other lines are a header of
  distinct columns, in any order, and rows of trimmed cells that hold no comma. Each row becomes one
  result: its object has under every column the cell of the row (empty when the row is shorter); when
  the columns of the template hold the texts and whole numbers of some data, the row is mapped to exactly
  that data, whatever other columns there are; and a row without a community gets that error. The
  other rows of the file have no part in it.
\<close>

theorem csv_rows_read_back:
  assumes "\<forall>x \<in> set ls. one_line (fst x)" and "one_line final"
    and "filter (\<lambda>l. \<not> list_all js_space l) (map fst ls @ [final]) = map csv_line (headers # rows)"
    and "distinct headers" and "\<forall>c \<in> set headers. clean_cell c" and "\<forall>r \<in> set rows. \<forall>c \<in> set r. clean_cell c"
  shows "length (parseCsvRows other_number (file_text ls final)) = length rows \<and>
    (\<forall>k < length rows. case parseCsvRows other_number (file_text ls final) ! k of (raw, result) \<Rightarrow>
       (\<forall>i < length headers. map_of raw (headers ! i) = Some (cell_at (rows ! k) i)) \<and>
       (\<forall>d. entered headers (rows ! k) d \<and> plain_data d \<longrightarrow> result = Inr d) \<and>
       ((\<exists>i < length headers. headers ! i = ''community'' \<and> cell_at (rows ! k) i = []) \<longrightarrow>
          result = Inl ''Missing required column community''))"
proof -
  have blank: "[] \<notin> set (map csv_line (headers # rows))"
    unfolding assms(3) [symmetric] by (simp only: set_filter) simp
  have nonempty: "r \<noteq> []" if "r \<in> set (headers # rows)" for r
  proof
    assume "r = []"
    then have "csv_line r = []" by (simp add: csv_line_def)
    then show False using that blank by (metis image_eqI list.set_map)
  qed
  have lines: "filter (\<lambda>l. js_trim l \<noteq> []) (csv_lines (file_text ls final)) = map csv_line (headers # rows)"
    unfolding csv_lines_file [OF assms(1,2)] blank_line by (rule assms(3))
  have h: "map js_trim (split_on (CHR '','') (csv_line headers)) = headers"
    using assms(5) nonempty by (intro split_line) simp_all
  have "parse_row other_number headers (csv_line r) = (csv_object headers r, csv_mapped other_number (csv_object headers r))"
    if "r \<in> set rows" for r
    using that split_line [of r] assms(6) nonempty by (simp add: parse_row_def Let_def)
  then have all: "parseCsvRows other_number (file_text ls final) =
      map (\<lambda>r. (csv_object headers r, csv_mapped other_number (csv_object headers r))) rows"
    by (cases rows) (simp_all add: parseCsvRows_def lines h)
  have missing: "csv_mapped other_number (csv_object headers r) = Inl ''Missing required column community''"
    if "i < length headers" "headers ! i = ''community''" "cell_at r i = []" for r i
    using csv_object_reads [OF assms(4) that(1), of r] that
    by (simp add: csv_mapped_def and_then_def must_def csv_cell_def js_trim_def)
  show ?thesis
    unfolding all using csv_object_reads [OF assms(4)] mapped_row [OF _ _ assms(4)] assms(6) missing
    by (auto dest: nth_mem)
qed

text \<open>A file with both line ends and two blank lines; the second row has no community.\<close>

definition sample_row_data :: import_data where
  "sample_row_data = blank_import\<lparr>id_community := ''Marina'', id_startDate := ''2026-01-01'', id_endDate := ''2026-12-31'',
     id_annualRent := 90000, id_tenantName := Some ''T''\<rparr>"

definition sample_headers :: "string list" where
  "sample_headers = [''community'', ''building'', ''unitNo'', ''propertyType'', ''bedrooms'', ''ejariNo'', ''startDate'', ''endDate'',
     ''annualRent'', ''depositAmount'', ''noticePeriodDays'', ''tenantName'', ''landlordName'']"

definition sample_cells :: "string list list" where
  "sample_cells = [[''Marina'', [], [], [], [], [], ''2026-01-01'', ''2026-12-31'', ''90000'', [], [], ''T''], [[], ''B'']]"

theorem csv_rows_read_back_witness:
  "map snd (parseCsvRows (\<lambda>_. None) (file_text
     [(csv_line sample_headers, True), ([], False), (csv_line (sample_cells ! 0), False), ('' '', True)] (csv_line (sample_cells ! 1)))) =
   [Inr sample_row_data, Inl ''Missing required column community'']"
proof -
  let ?ls = "[(csv_line sample_headers, True), ([], False), (csv_line (sample_cells ! 0), False), ('' '', True)]"
    and ?final = "csv_line (sample_cells ! 1)"
  let ?p = "parseCsvRows (\<lambda>_. None) (file_text ?ls ?final)"
  have ls: "\<forall>x \<in> set ?ls. one_line (fst x)" "one_line ?final"
    "filter (\<lambda>l. \<not> list_all js_space l) (map fst ?ls @ [?final]) = map csv_line (sample_headers # sample_cells)"
    "distinct sample_headers" "\<forall>c \<in> set sample_headers. clean_cell c" "\<forall>r \<in> set sample_cells. \<forall>c \<in> set r. clean_cell c"
    by code_simp+
  have n: "length sample_cells = 2" "length sample_headers = 13" by (simp_all add: sample_cells_def sample_headers_def)
  note read = csv_rows_read_back [OF ls, of "\<lambda>_. None", unfolded n]
  have two: "?p = [?p ! 0, ?p ! 1]" using read by (intro nth_equalityI) (auto simp: less_Suc_eq numeral_2_eq_2)
  have "number_of (Some 90000) = ''90000''"
    by (simp add: number_of_def show_nat.simps digit_char_def) code_simp
  then have cells: "template_cells sample_row_data = zip sample_headers (map (cell_at (sample_cells ! 0)) [0..<13])"
    by (simp add: template_cells_def sample_row_data_def blank_import_def text_of_def sample_headers_def sample_cells_def
      cell_at_def upt_rec) (simp add: number_of_def)
  have e: "entered sample_headers (sample_cells ! 0) sample_row_data"
    unfolding entered_def cells n by (fastforce simp: in_set_zip n)
  have "plain_data sample_row_data"
    by (simp add: plain_data_def sample_row_data_def blank_import_def whole_number_def)
  then have "snd (?p ! 0) = Inr sample_row_data" using read e by (auto simp: split_beta)
  moreover have "snd (?p ! 1) = Inl ''Missing required column community''"
  proof -
    have "sample_headers ! 0 = ''community'' \<and> cell_at (sample_cells ! 1) 0 = []"
      by (simp add: sample_headers_def sample_cells_def cell_at_def)
    then have "\<exists>i < (13::nat). sample_headers ! i = ''community'' \<and> cell_at (sample_cells ! 1) i = []"
      by (intro exI [of _ 0]) simp
    then show ?thesis using read by (auto simp: split_beta)
  qed
  ultimately show ?thesis by (subst two) simp
qed

text \<open>
  quoting is not understood: a quoted cell with a comma is cut at it, and the cells after it move
  one column on.
\<close>

theorem quoted_cell_is_split:
  "fst (parse_row other_number [''community'', ''unitNo''] (CHR 0x22 # ''Al Barsha, 1'' @ [CHR 0x22] @ '',12'')) =
     [(''community'', CHR 0x22 # ''Al Barsha''), (''unitNo'', ''1'' @ [CHR 0x22])]"
  by code_simp

end
