(* ===== verification/Imports.thy ===== *)
theory Imports
  imports Csv Members Proofs
begin

text \<open>
  \<open>services/imports.ts\<close>, the batches: nothing reaches the trusted records before the commit,
  which is one transaction; a rollback archives what the commit created. And
  \<open>services/contactReferences.ts\<close>, which decides the contacts a rollback keeps.
\<close>

subsection \<open>Parties\<close>

fun collapse_spaces :: "string \<Rightarrow> string" where
  "collapse_spaces [] = []"
| "collapse_spaces [c] = [if js_space c then CHR '' '' else c]"
| "collapse_spaces (c # d # cs) =
     (if js_space c \<and> js_space d then collapse_spaces (d # cs)
      else (if js_space c then CHR '' '' else c) # collapse_spaces (d # cs))"

definition collapseName :: "string \<Rightarrow> string" where
  "collapseName name = collapse_spaces (js_trim name)"

definition normalizePartyName :: "string \<Rightarrow> string" where
  "normalizePartyName name = js_lower (collapseName name)"

record party_args =
  pg_kind :: contactKind
  pg_choice :: party_choice
  pg_name :: "string option"
  pg_fields :: "party_fields option"

definition landlord_args :: "import_data \<Rightarrow> party_args" where
  "landlord_args d = \<lparr> pg_kind = CK_OWNER, pg_choice = id_landlordContactId d,
     pg_name = or_keep (id_landlordName d) (Option.bind (id_landlord d) pa_name), pg_fields = id_landlord d \<rparr>"

definition tenant_args :: "import_data \<Rightarrow> party_args" where
  "tenant_args d = \<lparr> pg_kind = CK_TENANT, pg_choice = id_tenantContactId d,
     pg_name = or_keep (id_tenantName d) (Option.bind (id_tenant d) pa_name), pg_fields = id_tenant d \<rparr>"

definition party_field :: "party_args \<Rightarrow> (party_fields \<Rightarrow> string option) \<Rightarrow> string option" where
  "party_field a f = trimmed (Option.bind (pg_fields a) f)"

definition live_contact :: "authz_ctx \<Rightarrow> contactKind \<Rightarrow> contact \<Rightarrow> bool" where
  "live_contact ctx k c \<longleftrightarrow> ct_workspaceId c = cx_workspaceId ctx \<and> ct_kind c = k \<and> ct_archivedAt c = None"

definition auditPartyReuse :: "authz_ctx \<Rightarrow> uid \<Rightarrow> unit svc" where
  "auditPartyReuse ctx contactId = thenE (recordAudit (audit_by ctx ''contact.reuse'' ''Contact'' (Some contactId))) (ret ())"

definition party_contact :: "authz_ctx \<Rightarrow> uid \<Rightarrow> string \<Rightarrow> party_args \<Rightarrow> contact" where
  "party_contact ctx i name a =
     \<lparr> ct_id = i, ct_workspaceId = cx_workspaceId ctx, ct_kind = pg_kind a, ct_name = name,
       ct_phone = party_field a pa_phone, ct_email = party_field a pa_email, ct_company = party_field a pa_company,
       ct_emiratesId = party_field a pa_emiratesId, ct_nationality = party_field a pa_nationality,
       ct_licenseNo = party_field a pa_licenseNo, ct_licensingAuthority = party_field a pa_licensingAuthority,
       ct_notes = None, ct_verifiedAt = None, ct_verifiedById = None, ct_archivedAt = None \<rparr>"

text \<open>\<open>mode: "insensitive"\<close> compares the lower case.\<close>

definition by_emirates :: "authz_ctx \<Rightarrow> party_args \<Rightarrow> world \<Rightarrow> contact list" where
  "by_emirates ctx a s = (case party_field a pa_emiratesId of None \<Rightarrow> []
     | Some e \<Rightarrow> filter (\<lambda>c. live_contact ctx (pg_kind a) c \<and> ct_emiratesId c = Some e) (w_contacts s))"

definition party_name_of :: "party_args \<Rightarrow> string option" where
  "party_name_of a = (case trimmed (pg_name a) of None \<Rightarrow> None | Some _ \<Rightarrow> map_option collapseName (pg_name a))"

definition by_name :: "authz_ctx \<Rightarrow> party_args \<Rightarrow> world \<Rightarrow> contact list" where
  "by_name ctx a s = (case party_name_of a of None \<Rightarrow> []
     | Some n \<Rightarrow> filter (\<lambda>c. live_contact ctx (pg_kind a) c \<and> js_lower (ct_name c) = js_lower n) (w_contacts s))"

definition create_party :: "authz_ctx \<Rightarrow> party_args \<Rightarrow> (uid option \<times> bool) svc" where
  "create_party ctx a =
     (case party_name_of a of None \<Rightarrow> ret (None, False)
      | Some name \<Rightarrow>
          bindE newId (\<lambda>i.
          thenE (writeE (\<lambda>s. s\<lparr>w_contacts := w_contacts s @ [party_contact ctx i name a]\<rparr>))
          (thenE (recordAudit (audit_by ctx ''contact.create'' ''Contact'' (Some i)))
            (ret (Some i, True)))))"

definition resolveImportParty :: "authz_ctx \<Rightarrow> party_args \<Rightarrow> (uid option \<times> bool) svc" where
  "resolveImportParty ctx a =
     (case pg_choice a of
        PC_contact i \<Rightarrow>
          bindE (readE (\<lambda>s. List.find (\<lambda>c. ct_id c = i \<and> ct_workspaceId c = cx_workspaceId ctx \<and> ct_archivedAt c = None)
            (w_contacts s))) (\<lambda>found.
          bindE (someE (AuthzError ''Contact not found'' 404) found) (\<lambda>c.
          thenE (assertE (ct_kind c = pg_kind a) (AuthzError ''Contact is not the expected kind for this party'' 422))
            (ret (Some (ct_id c), False))))
      | PC_create_new \<Rightarrow> create_party ctx a
      | PC_unset \<Rightarrow>
          bindE (readE (by_emirates ctx a)) (\<lambda>byId.
          if length byId = 1 then thenE (auditPartyReuse ctx (ct_id (hd byId))) (ret (Some (ct_id (hd byId)), False))
          else bindE (readE (by_name ctx a)) (\<lambda>byName.
            if length byName = 1 then thenE (auditPartyReuse ctx (ct_id (hd byName))) (ret (Some (ct_id (hd byName)), False))
            else create_party ctx a)))"

subsection \<open>A batch and its conflicts\<close>

definition find_batch :: "uid \<Rightarrow> world \<Rightarrow> import_batch option" where
  "find_batch i s = List.find (\<lambda>b. ib_id b = i) (w_batches s)"

definition batch_rows :: "uid \<Rightarrow> world \<Rightarrow> import_row list" where
  "batch_rows i s = filter (\<lambda>r. ir_batchId r = i) (w_rows s)"

definition own_batch :: "authz_ctx \<Rightarrow> uid \<Rightarrow> import_batch svc" where
  "own_batch ctx i =
     bindE (readE (find_batch i)) (\<lambda>found.
     thenE (liftE (assertSameWorkspace ctx (map_option ib_workspaceId found)))
       (someE notFound found))"

definition createImportBatch :: "authz_ctx \<Rightarrow> importSource \<Rightarrow> uid option \<Rightarrow> import_batch svc" where
  "createImportBatch ctx source fileDocId =
     thenE (requireCap ctx ''imports.manage'')
     (bindE getNow (\<lambda>now. bindE newId (\<lambda>i.
      let b = \<lparr> ib_id = i, ib_workspaceId = cx_workspaceId ctx, ib_source = source, ib_fileDocId = fileDocId,
                ib_status = IM_UPLOADED, ib_reviewerId = None, ib_committedAt = None, ib_rolledBackAt = None, ib_createdAt = now \<rparr> in
      thenE (writeE (\<lambda>s. s\<lparr>w_batches := w_batches s @ [b]\<rparr>))
      (thenE (recordAudit (audit_by ctx ''import.create'' ''ImportBatch'' (Some i))) (ret b)))))"

definition update_batch :: "uid \<Rightarrow> (import_batch \<Rightarrow> import_batch) \<Rightarrow> unit svc" where
  "update_batch i f = writeE (\<lambda>s. s\<lparr>w_batches := upd_where (\<lambda>b. ib_id b = i) f (w_batches s)\<rparr>)"

definition update_row :: "uid \<Rightarrow> (import_row \<Rightarrow> import_row) \<Rightarrow> unit svc" where
  "update_row i f = writeE (\<lambda>s. s\<lparr>w_rows := upd_where (\<lambda>r. ir_id r = i) f (w_rows s)\<rparr>)"

definition dated :: "(string \<Rightarrow> time option) \<Rightarrow> string \<Rightarrow> time svc" where
  "dated other_date s = someE (ThrownError ''Invalid Date'') (js_date other_date s)"

definition same_unit :: "authz_ctx \<Rightarrow> import_data \<Rightarrow> property \<Rightarrow> bool" where
  "same_unit ctx d p \<longleftrightarrow> pr_workspaceId p = cx_workspaceId ctx \<and> pr_community p = id_community d \<and>
     pr_building p = id_building d \<and> pr_unitNo p = id_unitNo d \<and> pr_archivedAt p = None"

definition text_given :: "string option \<Rightarrow> bool" where
  "text_given x \<longleftrightarrow> x \<noteq> None \<and> x \<noteq> Some []"

definition overlaps :: "uid \<Rightarrow> time \<Rightarrow> time \<Rightarrow> tenancy \<Rightarrow> bool" where
  "overlaps propertyId startDate endDate t \<longleftrightarrow> tn_propertyId t = propertyId \<and> tn_archivedAt t = None \<and>
     tn_startDate t \<le> endDate \<and> startDate \<le> tn_endDate t"

definition ejari_conflict :: "authz_ctx \<Rightarrow> string set \<Rightarrow> import_data \<Rightarrow> world \<Rightarrow> string option" where
  "ejari_conflict ctx seen d s =
     (case id_ejariNo d of None \<Rightarrow> None
      | Some e \<Rightarrow>
          if e = [] then None
          else if e \<in> seen then Some (''Duplicate ejariNo within batch: '' @ e)
          else if \<exists>t \<in> set (w_tenancies s). tn_workspaceId t = cx_workspaceId ctx \<and> tn_ejariNo t = Some e \<and> tn_archivedAt t = None
          then Some (''Duplicate ejariNo: '' @ e @ '' already on record'') else None)"

definition overlap_conflict :: "(string \<Rightarrow> time option) \<Rightarrow> authz_ctx \<Rightarrow> import_data \<Rightarrow> string option svc" where
  "overlap_conflict other_date ctx d =
     (if id_community d = [] \<or> \<not> text_given (id_unitNo d) then ret None
      else bindE (readE (\<lambda>s. List.find (same_unit ctx d) (w_properties s))) (\<lambda>found.
        case found of None \<Rightarrow> ret None
        | Some p \<Rightarrow>
            bindE (dated other_date (id_endDate d)) (\<lambda>endDate.
            bindE (dated other_date (id_startDate d)) (\<lambda>startDate.
            bindE (readE (\<lambda>s. \<exists>t \<in> set (w_tenancies s). overlaps (pr_id p) startDate endDate t)) (\<lambda>overlap.
            ret (if overlap then Some (''Overlapping tenancy dates for '' @ id_community d @ '' '' @ the (id_unitNo d)) else None))))))"

primrec detect_rows :: "(string \<Rightarrow> time option) \<Rightarrow> authz_ctx \<Rightarrow> string set \<Rightarrow> import_row list \<Rightarrow> unit svc" where
  "detect_rows other_date ctx seen [] = ret ()"
| "detect_rows other_date ctx seen (r # rs) =
     bindE (readE (ejari_conflict ctx seen (ir_mapped r))) (\<lambda>ejari.
     bindE (if ejari = None then overlap_conflict other_date ctx (ir_mapped r) else ret ejari) (\<lambda>conflict.
     thenE (update_row (ir_id r) (\<lambda>x. x\<lparr>ir_status := (if conflict = None then ROW_PENDING else ROW_CONFLICT),
         ir_conflictReason := conflict\<rparr>))
       (detect_rows other_date ctx (case id_ejariNo (ir_mapped r) of None \<Rightarrow> seen | Some e \<Rightarrow> if e = [] then seen else insert e seen) rs)))"

definition detectConflicts :: "(string \<Rightarrow> time option) \<Rightarrow> authz_ctx \<Rightarrow> uid \<Rightarrow> import_row list svc" where
  "detectConflicts other_date ctx batchId =
     thenE (requireCap ctx ''imports.manage'')
     (bindE (readE (\<lambda>s. filter (\<lambda>r. ir_status r = ROW_PENDING \<or> ir_status r = ROW_CONFLICT) (batch_rows batchId s))) (\<lambda>rows.
      thenE (detect_rows other_date ctx {} rows) (readE (\<lambda>s. sort_key ir_id (batch_rows batchId s)))))"

definition create_row :: "authz_ctx \<Rightarrow> uid \<Rightarrow> json \<times> import_data \<Rightarrow> unit svc" where
  "create_row ctx batchId row =
     bindE newId (\<lambda>i. writeE (\<lambda>s. s\<lparr>w_rows := w_rows s @
       [\<lparr> ir_id = i, ir_workspaceId = cx_workspaceId ctx, ir_batchId = batchId, ir_raw = fst row, ir_mapped = snd row,
          ir_status = ROW_PENDING, ir_conflictReason = None, ir_refs = [] \<rparr>]\<rparr>))"

definition addImportRows :: "(string \<Rightarrow> time option) \<Rightarrow> authz_ctx \<Rightarrow> uid \<Rightarrow> (json \<times> import_data) list \<Rightarrow> import_row list svc" where
  "addImportRows other_date ctx batchId rows =
     thenE (requireCap ctx ''imports.manage'')
     (bindE (own_batch ctx batchId) (\<lambda>b.
      thenE (assertE (ib_status b \<noteq> IM_COMMITTED \<and> ib_status b \<noteq> IM_ROLLED_BACK) (AuthzError ''Batch is finalized'' 422))
      (thenE (forE rows (create_row ctx batchId))
      (thenE (update_batch batchId (\<lambda>x. x\<lparr>ib_status := IM_MAPPED\<rparr>))
        (detectConflicts other_date ctx batchId)))))"

subsection \<open>The commit\<close>

text \<open>A number for an integer column; Prisma refuses one with a fraction.\<close>

definition whole :: "rat option \<Rightarrow> int option svc" where
  "whole x = (case x of None \<Rightarrow> ret None
     | Some q \<Rightarrow> if q = of_int \<lfloor>q\<rfloor> then ret (Some \<lfloor>q\<rfloor>) else throw (ThrownError ''Invalid value for an integer column''))"

definition client_guard :: "authz_ctx \<Rightarrow> import_data \<Rightarrow> unit svc" where
  "client_guard ctx d =
     (case id_clientPrincipalId d of None \<Rightarrow> ret ()
      | Some c \<Rightarrow>
          if isDelegateRole (cx_role ctx)
          then bindE (readE (assertDelegateServesClient ctx (Some c))) liftE
          else bindE (readE (\<lambda>s. List.find (\<lambda>x. cp_id x = c) (w_clients s))) (\<lambda>client.
            liftE (assertSameWorkspace ctx (map_option cp_workspaceId client))))"

definition import_property :: "authz_ctx \<Rightarrow> uid \<Rightarrow> uid option \<Rightarrow> import_data \<Rightarrow> int option \<Rightarrow> property" where
  "import_property ctx i owner d beds =
     \<lparr> pr_id = i, pr_workspaceId = cx_workspaceId ctx, pr_clientPrincipalId = id_clientPrincipalId d,
       pr_ownerContactId = owner, pr_community = id_community d, pr_building = id_building d,
       pr_unitNo = id_unitNo d, pr_emirate = ''Dubai'', pr_propertyType = id_propertyType d,
       pr_bedrooms = beds, pr_sizeSqft = None, pr_usage = id_usage d, pr_plotNo = id_plotNo d,
       pr_makaniNo = id_makaniNo d, pr_dewaPremiseNo = id_dewaPremiseNo d,
       pr_sizeSqm = map_option money (id_sizeSqm d), pr_assignedAgentId = None, pr_notes = None,
       pr_archivedAt = None \<rparr>"

definition known_property :: "authz_ctx \<Rightarrow> import_data \<Rightarrow> world \<Rightarrow> property option" where
  "known_property ctx d s =
     or_keep (Option.bind (id_propertyId d) (\<lambda>i. List.find (\<lambda>p. pr_id p = i \<and> pr_workspaceId p = cx_workspaceId ctx \<and>
         pr_archivedAt p = None) (w_properties s)))
       (List.find (same_unit ctx d) (w_properties s))"

text \<open>
  The unit of a row: a known one, or a new one. The result is the context, which a managing agent's
  claim extends, the unit, and the references to undo it by.
\<close>

definition place_property :: "authz_ctx \<Rightarrow> import_data \<Rightarrow> uid option \<Rightarrow> (authz_ctx \<times> uid \<times> import_ref list) svc" where
  "place_property ctx d owner =
     bindE (readE (known_property ctx d)) (\<lambda>known.
     case known of
       Some p \<Rightarrow>
         thenE (if isDelegateRole (cx_role ctx) then liftE (assertDelegatePropertyId ctx (Some (pr_id p))) else ret ())
           (ret (ctx, pr_id p, []))
     | None \<Rightarrow>
         bindE (whole (id_bedrooms d)) (\<lambda>beds.
         bindE newId (\<lambda>i.
         thenE (writeE (\<lambda>s. s\<lparr>w_properties := w_properties s @ [import_property ctx i owner d beds]\<rparr>))
         (bindE (if isDelegateRole (cx_role ctx) then claimCreatedProperty ctx i else ret ctx) (\<lambda>ctx'.
           ret (ctx', i, [RefProperty i]))))))"

definition contract_doc :: "import_batch \<Rightarrow> uid option" where
  "contract_doc b = (if ib_source b = SRC_DOCUMENTS then ib_fileDocId b else None)"

definition import_tenancy :: "import_batch \<Rightarrow> authz_ctx \<Rightarrow> uid \<Rightarrow> time \<Rightarrow> uid \<Rightarrow> uid option \<Rightarrow> uid option \<Rightarrow> import_data \<Rightarrow>
    time \<Rightarrow> time \<Rightarrow> int option \<Rightarrow> tenancy" where
  "import_tenancy b ctx i now propertyId landlord tenant d startDate endDate notice =
     \<lparr> tn_id = i, tn_workspaceId = cx_workspaceId ctx, tn_propertyId = propertyId,
       tn_landlordContactId = landlord, tn_tenantContactId = tenant, tn_ejariNo = id_ejariNo d,
       tn_startDate = toUtcDateOnly startDate, tn_endDate = toUtcDateOnly endDate,
       tn_annualRent = money (id_annualRent d), tn_depositAmount = map_option money (id_depositAmount d),
       tn_paymentTermsNote = id_paymentTermsNote d, tn_noticePeriodDays = or_else notice 90,
       tn_noticeGateAt = None, tn_status = T_ACTIVE,
       tn_source = (if ib_source b = SRC_EXCEL then RS_EXCEL else RS_OCR), tn_contractDocId = contract_doc b,
       tn_createdAt = now, tn_archivedAt = None, tn_renewsFromTenancyId = None \<rparr>"

definition create_lease :: "(string \<Rightarrow> time option) \<Rightarrow> import_batch \<Rightarrow> authz_ctx \<Rightarrow> uid \<Rightarrow> uid option \<Rightarrow> uid option \<Rightarrow>
    import_data \<Rightarrow> uid svc" where
  "create_lease other_date b ctx propertyId landlord tenant d =
     bindE (dated other_date (id_startDate d)) (\<lambda>startDate.
     bindE (dated other_date (id_endDate d)) (\<lambda>endDate.
     bindE (whole (id_noticePeriodDays d)) (\<lambda>notice.
     bindE getNow (\<lambda>now. bindE newId (\<lambda>i.
     thenE (writeE (\<lambda>s. s\<lparr>w_tenancies := w_tenancies s @
         [import_tenancy b ctx i now propertyId landlord tenant d startDate endDate notice]\<rparr>))
       (ret i))))))"

definition scope_json :: "scopeType \<Rightarrow> uid option \<Rightarrow> json" where
  "scope_json ty i = JObj [(''scopeType'', JStr (scopeType_name ty)), (''scopeId'', jopt JId i)]"

definition move_json :: "uid \<Rightarrow> json \<Rightarrow> json \<Rightarrow> json" where
  "move_json i before after = JObj [(''documentId'', JId i), (''from'', before), (''to'', after)]"

definition rescope_audit :: "authz_ctx \<Rightarrow> uid \<Rightarrow> json \<Rightarrow> audit_input" where
  "rescope_audit ctx i payload = (audit_by ctx ''document.rescope'' ''Document'' (Some i))\<lparr>ai_payload := Some payload\<rparr>"

definition set_scope :: "uid \<Rightarrow> scopeType \<Rightarrow> uid option \<Rightarrow> unit svc" where
  "set_scope i ty si = writeE (\<lambda>s. s\<lparr>w_documents := upd_where (\<lambda>d. dc_id d = i)
     (\<lambda>d. d\<lparr>dc_scopeType := ty, dc_scopeId := si\<rparr>) (w_documents s)\<rparr>)"

definition own_document :: "authz_ctx \<Rightarrow> uid \<Rightarrow> world \<Rightarrow> document option" where
  "own_document ctx i s = List.find (\<lambda>d. dc_id d = i \<and> dc_workspaceId d = cx_workspaceId ctx) (w_documents s)"

definition attached_elsewhere :: "uid \<Rightarrow> uid \<Rightarrow> document \<Rightarrow> bool" where
  "attached_elsewhere tenancyId propertyId doc \<longleftrightarrow>
     (dc_scopeType doc = S_TENANCY \<and> dc_scopeId doc \<noteq> Some tenancyId) \<or>
     (dc_scopeType doc = S_PROPERTY \<and> dc_scopeId doc \<noteq> Some propertyId)"

definition attach_contract :: "authz_ctx \<Rightarrow> import_batch \<Rightarrow> uid \<Rightarrow> uid \<Rightarrow> (import_ref list \<times> json list) svc" where
  "attach_contract ctx b tenancyId propertyId =
     (case contract_doc b of None \<Rightarrow> ret ([], [])
      | Some i \<Rightarrow>
          bindE (readE (own_document ctx i)) (\<lambda>found.
          case found of None \<Rightarrow> ret ([], [])
          | Some doc \<Rightarrow>
              thenE (assertE (\<not> attached_elsewhere tenancyId propertyId doc)
                (AuthzError ''That document is already attached to another record; detach it first'' 422))
              (thenE (set_scope i S_TENANCY (Some tenancyId))
              (let before = scope_json (dc_scopeType doc) (dc_scopeId doc); after = scope_json S_TENANCY (Some tenancyId) in
               thenE (recordAudit (rescope_audit ctx i (JObj [(''from'', before), (''to'', after)])))
                 (ret ([RefDocumentScope i (dc_scopeType doc) (dc_scopeId doc)], [move_json i before after]))))))"

definition resolveSchedule :: "(string \<Rightarrow> time option) \<Rightarrow> import_data \<Rightarrow> import_item list svc" where
  "resolveSchedule other_date d =
     (if id_paymentItems d \<noteq> [] then ret (id_paymentItems d)
      else case id_chequeCount d of None \<Rightarrow> ret []
      | Some n \<Rightarrow>
          if n \<le> 0 then ret []
          else bindE (dated other_date (id_startDate d)) (\<lambda>startDate.
            bindE (dated other_date (id_endDate d)) (\<lambda>endDate.
            ret (map (\<lambda>m. \<lparr> it_seq = im_seq m, it_dueDate = toISODate (im_dueDate m), it_amount = im_amount m,
                it_instrument = Some I_CHEQUE, it_chequeNo = None, it_bank = None \<rparr>)
              (evenChequeSchedule startDate endDate (id_annualRent d) n)))))"

definition import_payment :: "authz_ctx \<Rightarrow> uid \<Rightarrow> uid \<Rightarrow> time \<Rightarrow> import_item \<Rightarrow> payment_item" where
  "import_payment ctx i tenancyId due item =
     \<lparr> pi_id = i, pi_workspaceId = cx_workspaceId ctx, pi_tenancyId = tenancyId, pi_seq = it_seq item,
       pi_dueDate = toUtcDateOnly due, pi_amount = money (it_amount item),
       pi_instrument = or_else (it_instrument item) I_CHEQUE, pi_chequeNo = it_chequeNo item, pi_bank = it_bank item,
       pi_status = P_SCHEDULED, pi_proofDocId = None, pi_confirmedById = None, pi_notes = None \<rparr>"

text \<open>A second item of one number violates the unique index on tenancy and number.\<close>

primrec create_items :: "(string \<Rightarrow> time option) \<Rightarrow> authz_ctx \<Rightarrow> uid \<Rightarrow> import_item list \<Rightarrow> import_ref list svc" where
  "create_items other_date ctx tenancyId [] = ret []"
| "create_items other_date ctx tenancyId (item # items) =
     bindE (dated other_date (it_dueDate item)) (\<lambda>due.
     bindE (readE (\<lambda>s. \<exists>p \<in> set (w_payments s). pi_tenancyId p = tenancyId \<and> pi_seq p = it_seq item)) (\<lambda>taken.
     thenE (assertE (\<not> taken) (UniqueViolation ''PaymentItem_tenancyId_seq_key''))
     (bindE newId (\<lambda>i.
      thenE (writeE (\<lambda>s. s\<lparr>w_payments := w_payments s @ [import_payment ctx i tenancyId due item]\<rparr>))
      (bindE (create_items other_date ctx tenancyId items) (\<lambda>refs. ret (RefPaymentItem i # refs)))))))"

definition party_ref :: "uid option \<times> bool \<Rightarrow> import_ref list" where
  "party_ref p = (case p of (Some i, True) \<Rightarrow> [RefContact i] | _ \<Rightarrow> [])"

definition accepted_row_with :: "import_ref list \<Rightarrow> import_row \<Rightarrow> import_row" where
  "accepted_row_with refs r = r\<lparr>ir_status := ROW_ACCEPTED, ir_refs := refs\<rparr>"

text \<open>The records of one row: the lease, what undoes it, and the document it moved.\<close>

definition make_records :: "(string \<Rightarrow> time option) \<Rightarrow> import_batch \<Rightarrow> authz_ctx \<Rightarrow> import_data \<Rightarrow>
    (authz_ctx \<times> uid \<times> import_ref list \<times> json list) svc" where
  "make_records other_date b ctx d =
     bindE (resolveImportParty ctx (landlord_args d)) (\<lambda>landlord.
     bindE (resolveImportParty ctx (tenant_args d)) (\<lambda>tenant.
     thenE (client_guard ctx d)
     (bindE (place_property ctx d (fst landlord)) (\<lambda>(ctx', propertyId, new_property).
     bindE (create_lease other_date b ctx' propertyId (fst landlord) (fst tenant) d) (\<lambda>tenancyId.
     bindE (attach_contract ctx' b tenancyId propertyId) (\<lambda>(moved, moves).
     bindE (resolveSchedule other_date d) (\<lambda>schedule.
     bindE (create_items other_date ctx' tenancyId schedule) (\<lambda>items.
       ret (ctx', tenancyId, party_ref landlord @ party_ref tenant @ new_property @
              [RefTenancy tenancyId] @ moved @ items, moves)))))))))"

definition commit_row :: "(string \<Rightarrow> time option) \<Rightarrow> import_batch \<Rightarrow> authz_ctx \<Rightarrow> import_row \<Rightarrow>
    (authz_ctx \<times> uid \<times> json list) svc" where
  "commit_row other_date b ctx r =
     bindE (make_records other_date b ctx (ir_mapped r)) (\<lambda>(ctx', tenancyId, refs, moves).
     thenE (update_row (ir_id r) (accepted_row_with refs)) (ret (ctx', tenancyId, moves)))"

primrec commit_rows :: "(string \<Rightarrow> time option) \<Rightarrow> import_batch \<Rightarrow> authz_ctx \<Rightarrow> import_row list \<Rightarrow>
    (uid list \<times> json list) svc" where
  "commit_rows other_date b ctx [] = ret ([], [])"
| "commit_rows other_date b ctx (r # rs) =
     bindE (commit_row other_date b ctx r) (\<lambda>(ctx', tenancyId, moves).
     bindE (commit_rows other_date b ctx' rs) (\<lambda>(ids, more). ret (tenancyId # ids, moves @ more)))"

definition committable :: "import_row \<Rightarrow> bool" where
  "committable r \<longleftrightarrow> ir_status r = ROW_PENDING \<or> ir_status r = ROW_ACCEPTED"

definition import_evidence :: "authz_ctx \<Rightarrow> evidenceType \<Rightarrow> uid \<Rightarrow> (string \<times> json) list \<Rightarrow> evidence_input" where
  "import_evidence ctx ty i payload = evidence_by ctx ty S_IMPORT_BATCH (Some i) (JObj payload)"

definition mark_committed :: "authz_ctx \<Rightarrow> import_batch \<Rightarrow> unit svc" where
  "mark_committed ctx b =
     bindE getNow (\<lambda>now. update_batch (ib_id b)
       (\<lambda>x. x\<lparr>ib_status := IM_COMMITTED, ib_committedAt := Some now, ib_reviewerId := Some (cx_userId ctx)\<rparr>))"

definition log_commit :: "authz_ctx \<Rightarrow> import_batch \<Rightarrow> import_row list \<Rightarrow> json list \<Rightarrow> unit svc" where
  "log_commit ctx b rows moved =
     thenE (recordEvidence (import_evidence ctx EV_IMPORT_COMMITTED (ib_id b)
        [(''committedRows'', JNum (of_nat (length (filter committable rows)))),
         (''conflictRows'', JNum (of_nat (length (filter (\<lambda>r. ir_status r = ROW_CONFLICT) rows)))),
         (''documentRescopes'', JArr moved)]))
     (thenE (recordAudit (audit_by ctx ''import.commit'' ''ImportBatch'' (Some (ib_id b)))) (ret ()))"

definition commit_records :: "(string \<Rightarrow> time option) \<Rightarrow> authz_ctx \<Rightarrow> import_batch \<Rightarrow> import_row list \<Rightarrow> uid list svc" where
  "commit_records other_date ctx b rows =
     bindE (commit_rows other_date b ctx (filter committable rows)) (\<lambda>(ids, moves).
     thenE (mark_committed ctx b) (thenE (log_commit ctx b rows moves) (ret ids)))"

definition flag_overlap :: "authz_ctx \<Rightarrow> import_row \<Rightarrow> unit svc" where
  "flag_overlap ctx r =
     whenE (take 11 (case ir_conflictReason r of None \<Rightarrow> [] | Some x \<Rightarrow> x) = ''Overlapping'')
       (bindE (readE (\<lambda>s. List.find (\<lambda>p. pr_workspaceId p = cx_workspaceId ctx \<and> pr_community p = id_community (ir_mapped r) \<and>
            pr_unitNo p = id_unitNo (ir_mapped r)) (w_properties s))) (\<lambda>found.
        case found of None \<Rightarrow> ret ()
        | Some p \<Rightarrow>
            bindE (readE (\<lambda>s. List.find (\<lambda>t. tn_propertyId t = pr_id p \<and> tn_archivedAt t = None) (w_tenancies s))) (\<lambda>overlapped.
            case overlapped of None \<Rightarrow> ret () | Some t \<Rightarrow> raiseTenancyOverlap (tn_id t))))"

text \<open>The calendar, the risk flags and the overlap flags, outside the transaction.\<close>

definition derivations :: "authz_ctx \<Rightarrow> uid list \<Rightarrow> import_row list \<Rightarrow> unit svc" where
  "derivations ctx ids rows =
     thenE (forE ids (\<lambda>i. thenE (regenerateDeadlinesForTenancy i) (evaluateRiskForTenancy i)))
       (forE (filter (\<lambda>r. ir_status r = ROW_CONFLICT) rows) (flag_overlap ctx))"

definition commitImportBatch :: "(string \<Rightarrow> time option) \<Rightarrow> authz_ctx \<Rightarrow> uid \<Rightarrow> (import_batch option \<times> import_row list) svc" where
  "commitImportBatch other_date ctx batchId =
     thenE (requireCap ctx ''imports.manage'')
     (bindE (own_batch ctx batchId) (\<lambda>b.
      bindE (readE (batch_rows batchId)) (\<lambda>rows.
      thenE (assertE (ib_status b \<noteq> IM_COMMITTED) (AuthzError ''Batch already committed'' 422))
      (thenE (assertE (ib_status b \<noteq> IM_ROLLED_BACK) (AuthzError ''Batch was rolled back'' 422))
      (bindE (transaction (commit_records other_date ctx b rows)) (\<lambda>ids.
       thenE (derivations ctx ids rows) (readE (\<lambda>s. (find_batch batchId s, batch_rows batchId s)))))))))"

subsection \<open>The rollback\<close>

text \<open>
  \<open>findContactReferences\<close>: the tables of the schema with a column whose name ends in \<open>ContactId\<close>.
  Those no service writes (tasks, maintenance cases, quotes, invoices) are empty.
\<close>

definition findContactReferences :: "uid \<Rightarrow> uid \<Rightarrow> world \<Rightarrow> string list" where
  "findContactReferences ws c s = concat
     [if \<exists>m \<in> set (w_memberships s). mb_workspaceId m = ws \<and> mb_subjectContactId m = Some c then [''Membership''] else [],
      if \<exists>v \<in> set (w_invites s). iv_workspaceId v = ws \<and> iv_subjectContactId v = Some c then [''WorkspaceInvite''] else [],
      if \<exists>p \<in> set (w_properties s). pr_workspaceId p = ws \<and> pr_archivedAt p = None \<and> pr_ownerContactId p = Some c then [''Property''] else [],
      if \<exists>t \<in> set (w_tenancies s). tn_workspaceId t = ws \<and> tn_archivedAt t = None \<and>
        (tn_landlordContactId t = Some c \<or> tn_tenantContactId t = Some c) then [''Tenancy''] else [],
      if \<exists>r \<in> set (w_proofs s). pf_workspaceId r = ws \<and> pf_assignedContactId r = c then [''ProofRequest''] else [],
      if \<exists>a \<in> set (w_approvals s). ap_workspaceId a = ws \<and> ap_requestedOfContactId a = Some c then [''Approval''] else [],
      if \<exists>m \<in> set (w_messages s). nm_workspaceId m = ws \<and> nm_toContactId m = Some c then [''NotificationMessage''] else [],
      if \<exists>f \<in> set (w_offers s). of_workspaceId f = ws \<and> of_prospectContactId f = Some c then [''Offer''] else []]"

text \<open>\<open>update\<close> by id raises P2025 when the row is not there.\<close>

definition archive_property :: "uid \<Rightarrow> unit svc" where
  "archive_property i =
     bindE getNow (\<lambda>now. bindE (readE (\<lambda>s. \<exists>p \<in> set (w_properties s). pr_id p = i)) (\<lambda>present.
     thenE (assertE present RecordNotFound)
       (writeE (\<lambda>s. s\<lparr>w_properties := upd_where (\<lambda>p. pr_id p = i) (\<lambda>p. p\<lparr>pr_archivedAt := Some now\<rparr>) (w_properties s)\<rparr>))))"

definition archive_lease :: "uid \<Rightarrow> unit svc" where
  "archive_lease i =
     bindE getNow (\<lambda>now. bindE (readE (\<lambda>s. \<exists>t \<in> set (w_tenancies s). tn_id t = i)) (\<lambda>present.
     thenE (assertE present RecordNotFound)
     (thenE (writeE (\<lambda>s. s\<lparr>w_tenancies := upd_where (\<lambda>t. tn_id t = i)
         (\<lambda>t. t\<lparr>tn_archivedAt := Some now, tn_status := T_ARCHIVED\<rparr>) (w_tenancies s)\<rparr>))
       (writeE (\<lambda>s. s\<lparr>w_deadlines := upd_where (\<lambda>d. dl_tenancyId d = Some i \<and> dl_status d = DL_OPEN)
         (\<lambda>d. d\<lparr>dl_status := DL_CANCELLED\<rparr>) (w_deadlines s)\<rparr>)))))"

definition cancel_payment :: "uid \<Rightarrow> unit svc" where
  "cancel_payment i =
     bindE (readE (\<lambda>s. \<exists>p \<in> set (w_payments s). pi_id p = i)) (\<lambda>present.
     thenE (assertE present RecordNotFound)
       (writeE (\<lambda>s. s\<lparr>w_payments := upd_where (\<lambda>p. pi_id p = i) (\<lambda>p. p\<lparr>pi_status := P_CANCELLED\<rparr>) (w_payments s)\<rparr>)))"

definition restore_scope :: "authz_ctx \<Rightarrow> uid \<Rightarrow> scopeType \<Rightarrow> uid option \<Rightarrow> json list svc" where
  "restore_scope ctx i ty si =
     bindE (readE (own_document ctx i)) (\<lambda>found.
     case found of None \<Rightarrow> ret []
     | Some doc \<Rightarrow>
         (let before = scope_json (dc_scopeType doc) (dc_scopeId doc); after = scope_json ty si in
          thenE (set_scope i ty si)
          (thenE (recordAudit (rescope_audit ctx i (JObj [(''documentId'', JId i), (''from'', before), (''to'', after),
              (''reason'', JStr ''import.rollback'')])))
            (ret [move_json i before after]))))"

definition undo_ref :: "authz_ctx \<Rightarrow> import_ref \<Rightarrow> json list svc" where
  "undo_ref ctx ref =
     (case ref of
        RefProperty i \<Rightarrow> thenE (archive_property i) (ret [])
      | RefTenancy i \<Rightarrow> thenE (archive_lease i) (ret [])
      | RefPaymentItem i \<Rightarrow> thenE (cancel_payment i) (ret [])
      | RefDocumentScope i ty si \<Rightarrow> restore_scope ctx i ty si
      | RefContact i \<Rightarrow> ret [])"

primrec undo_refs :: "authz_ctx \<Rightarrow> import_ref list \<Rightarrow> json list svc" where
  "undo_refs ctx [] = ret []"
| "undo_refs ctx (ref # refs) =
     bindE (undo_ref ctx ref) (\<lambda>moves. bindE (undo_refs ctx refs) (\<lambda>more. ret (moves @ more)))"

definition created_contacts :: "import_ref list \<Rightarrow> uid list" where
  "created_contacts refs = unique (List.map_filter (\<lambda>ref. case ref of RefContact i \<Rightarrow> Some i | _ \<Rightarrow> None) refs)"

definition kept_json :: "uid \<Rightarrow> string list \<Rightarrow> json" where
  "kept_json i names = JObj [(''id'', JId i), (''referencedBy'', JArr (map JStr names))]"

primrec undo_contacts :: "authz_ctx \<Rightarrow> uid list \<Rightarrow> json list svc" where
  "undo_contacts ctx [] = ret []"
| "undo_contacts ctx (i # is) =
     bindE (readE (findContactReferences (cx_workspaceId ctx) i)) (\<lambda>names.
     thenE (if names \<noteq> [] then ret ()
        else bindE getNow (\<lambda>now. bindE (readE (\<lambda>s. \<exists>c \<in> set (w_contacts s). ct_id c = i)) (\<lambda>present.
          thenE (assertE present RecordNotFound)
            (writeE (\<lambda>s. s\<lparr>w_contacts := upd_where (\<lambda>c. ct_id c = i) (\<lambda>c. c\<lparr>ct_archivedAt := Some now\<rparr>) (w_contacts s)\<rparr>)))))
     (bindE (undo_contacts ctx is) (\<lambda>kept. ret ((if names \<noteq> [] then [kept_json i names] else []) @ kept))))"

definition mark_rolled_back :: "import_batch \<Rightarrow> unit svc" where
  "mark_rolled_back b =
     bindE getNow (\<lambda>now. update_batch (ib_id b) (\<lambda>x. x\<lparr>ib_status := IM_ROLLED_BACK, ib_rolledBackAt := Some now\<rparr>))"

definition log_rollback :: "authz_ctx \<Rightarrow> import_batch \<Rightarrow> import_row list \<Rightarrow> json list \<Rightarrow> json list \<Rightarrow> unit svc" where
  "log_rollback ctx b rows kept moved =
     thenE (recordEvidence (import_evidence ctx EV_IMPORT_ROLLED_BACK (ib_id b)
       [(''rows'', JNum (of_nat (length rows))), (''keptContacts'', JArr kept), (''documentRescopes'', JArr moved)]))
     (thenE (recordAudit (audit_by ctx ''import.rollback'' ''ImportBatch'' (Some (ib_id b)))) (ret ()))"

definition undo_records :: "authz_ctx \<Rightarrow> import_batch \<Rightarrow> import_row list \<Rightarrow> unit svc" where
  "undo_records ctx b rows =
     (let refs = concat (map ir_refs rows) in
      bindE (undo_refs ctx refs) (\<lambda>moves.
      bindE (undo_contacts ctx (created_contacts refs)) (\<lambda>kept.
      thenE (mark_rolled_back b) (log_rollback ctx b rows kept moves))))"

definition rollbackImportBatch :: "authz_ctx \<Rightarrow> uid \<Rightarrow> (import_batch option \<times> import_row list) svc" where
  "rollbackImportBatch ctx batchId =
     thenE (requireCap ctx ''imports.manage'')
     (bindE (own_batch ctx batchId) (\<lambda>b.
      bindE (readE (batch_rows batchId)) (\<lambda>rows.
      thenE (assertE (ib_status b = IM_COMMITTED) (AuthzError ''Only committed batches roll back'' 422))
      (thenE (transaction (undo_records ctx b rows))
        (readE (\<lambda>s. (find_batch batchId s, batch_rows batchId s)))))))"

definition listImportBatches :: "authz_ctx \<Rightarrow> (import_batch \<times> (uid \<times> importRowStatus) list) list svc" where
  "listImportBatches ctx =
     thenE (requireCap ctx ''imports.manage'')
     (bindE (liftE (scope ctx)) (\<lambda>ws.
      readE (\<lambda>s. map (\<lambda>b. (b, map (\<lambda>r. (ir_id r, ir_status r)) (batch_rows (ib_id b) s)))
        (sort_key (\<lambda>b. - ib_createdAt b) (filter (\<lambda>b. ib_workspaceId b = ws) (w_batches s))))))"

definition getImportBatch :: "authz_ctx \<Rightarrow> uid \<Rightarrow> (import_batch \<times> import_row list) svc" where
  "getImportBatch ctx i =
     thenE (requireCap ctx ''imports.manage'')
     (bindE (own_batch ctx i) (\<lambda>b. bindE (readE (batch_rows i)) (\<lambda>rows. ret (b, rows))))"


subsection \<open>What a commit writes\<close>

text \<open>The references of one kind, in the order of their creation.\<close>

definition contact_refs :: "import_ref list \<Rightarrow> uid list" where
  "contact_refs refs = List.map_filter (\<lambda>ref. case ref of RefContact i \<Rightarrow> Some i | _ \<Rightarrow> None) refs"

definition property_refs :: "import_ref list \<Rightarrow> uid list" where
  "property_refs refs = List.map_filter (\<lambda>ref. case ref of RefProperty i \<Rightarrow> Some i | _ \<Rightarrow> None) refs"

definition lease_refs :: "import_ref list \<Rightarrow> uid list" where
  "lease_refs refs = List.map_filter (\<lambda>ref. case ref of RefTenancy i \<Rightarrow> Some i | _ \<Rightarrow> None) refs"

definition payment_refs :: "import_ref list \<Rightarrow> uid list" where
  "payment_refs refs = List.map_filter (\<lambda>ref. case ref of RefPaymentItem i \<Rightarrow> Some i | _ \<Rightarrow> None) refs"

definition document_refs :: "import_ref list \<Rightarrow> (uid \<times> scopeType \<times> uid option) list" where
  "document_refs refs = List.map_filter (\<lambda>ref. case ref of RefDocumentScope i ty si \<Rightarrow> Some (i, ty, si) | _ \<Rightarrow> None) refs"

lemmas ref_kinds = contact_refs_def property_refs_def lease_refs_def payment_refs_def document_refs_def

lemma map_filter_append: "List.map_filter f (xs @ ys) = List.map_filter f xs @ List.map_filter f ys"
  by (simp add: List.map_filter_def)

lemma refs_simps [simp]:
  "contact_refs [] = []" "property_refs [] = []" "lease_refs [] = []" "payment_refs [] = []" "document_refs [] = []"
  "contact_refs (refs @ extra) = contact_refs refs @ contact_refs extra"
  "property_refs (refs @ extra) = property_refs refs @ property_refs extra"
  "lease_refs (refs @ extra) = lease_refs refs @ lease_refs extra"
  "payment_refs (refs @ extra) = payment_refs refs @ payment_refs extra"
  "document_refs (refs @ extra) = document_refs refs @ document_refs extra"
  by (simp_all add: ref_kinds map_filter_append List.map_filter_def)

lemma refs_Cons [simp]:
  "contact_refs (ref # refs) = (case ref of RefContact i \<Rightarrow> [i] | _ \<Rightarrow> []) @ contact_refs refs"
  "property_refs (ref # refs) = (case ref of RefProperty i \<Rightarrow> [i] | _ \<Rightarrow> []) @ property_refs refs"
  "lease_refs (ref # refs) = (case ref of RefTenancy i \<Rightarrow> [i] | _ \<Rightarrow> []) @ lease_refs refs"
  "payment_refs (ref # refs) = (case ref of RefPaymentItem i \<Rightarrow> [i] | _ \<Rightarrow> []) @ payment_refs refs"
  "document_refs (ref # refs) = (case ref of RefDocumentScope i ty si \<Rightarrow> [(i, ty, si)] | _ \<Rightarrow> []) @ document_refs refs"
  by (simp_all add: ref_kinds List.map_filter_def split: import_ref.splits)

definition new_ids :: "import_ref list \<Rightarrow> uid set" where
  "new_ids refs = set (contact_refs refs) \<union> set (property_refs refs) \<union> set (lease_refs refs) \<union> set (payment_refs refs)"

text \<open>The tables that can hold a contact besides units and leases, the batches and the clock.\<close>

definition bystanders :: "world \<Rightarrow> membership list \<times> workspace_invite list \<times> proof_request list \<times> approval list \<times>
    notification_message list \<times> offer list \<times> import_batch list \<times> time" where
  "bystanders s = (w_memberships s, w_invites s, w_proofs s, w_approvals s, w_messages s, w_offers s, w_batches s, w_now s)"

definition grows :: "('r \<Rightarrow> uid) \<Rightarrow> uid list \<Rightarrow> 'r list \<Rightarrow> 'r list \<Rightarrow> bool" where
  "grows key ids xs ys \<longleftrightarrow> (\<exists>zs. ys = xs @ zs \<and> map key zs = ids)"

text \<open>The step appended exactly the records the references name, under ids that were free.\<close>

definition made :: "import_ref list \<Rightarrow> world \<Rightarrow> world \<Rightarrow> bool" where
  "made refs s t \<longleftrightarrow>
     grows ct_id (contact_refs refs) (w_contacts s) (w_contacts t) \<and>
     grows pr_id (property_refs refs) (w_properties s) (w_properties t) \<and>
     grows tn_id (lease_refs refs) (w_tenancies s) (w_tenancies t) \<and>
     grows pi_id (payment_refs refs) (w_payments s) (w_payments t) \<and>
     new_ids refs \<subseteq> {w_next s..<w_next t} \<and> w_next s \<le> w_next t \<and> bystanders t = bystanders s"

lemma grows_Nil: "grows key [] xs ys \<longleftrightarrow> ys = xs"
  by (auto simp: grows_def)

lemma grows_append: "grows key is xs ys \<Longrightarrow> grows key js ys zs \<Longrightarrow> grows key (is @ js) xs zs"
  by (auto simp: grows_def)

lemma grows_one: "grows key [key r] xs (xs @ [r])"
  by (simp add: grows_def)

lemma made_refl: "made [] s s"
  by (simp add: made_def grows_Nil new_ids_def)

lemma made_trans: "made refs s t \<Longrightarrow> made extra t u \<Longrightarrow> made (refs @ extra) s u"
  unfolding made_def by (auto simp: new_ids_def intro: grows_append)

text \<open>A step that leaves all those tables alone and takes ids only.\<close>

definition idle :: "world \<Rightarrow> world \<Rightarrow> bool" where
  "idle s t \<longleftrightarrow> w_contacts t = w_contacts s \<and> w_properties t = w_properties s \<and> w_tenancies t = w_tenancies s \<and>
     w_payments t = w_payments s \<and> w_next s \<le> w_next t \<and> bystanders t = bystanders s"

interpretation idling: step_law idle
  by unfold_locales (auto simp: idle_def)

lemma made_idle: "made [] s t \<longleftrightarrow> idle s t"
  by (auto simp: made_def idle_def grows_Nil new_ids_def)

lemma idle_newId: "keeps idle newId"
  by (simp add: keeps_def idle_def newId_def bystanders_def)

lemma idle_recordAudit: "keeps idle (recordAudit a)"
  unfolding recordAudit_def by (intro idling.keeps_intros keepsI) (auto simp: idle_def bystanders_def op_defs newId_def getNow_def)

lemma idleD: "keeps idle m \<Longrightarrow> m s = (r, t) \<Longrightarrow> idle s t"
  using keepsD [of idle m s r t] by simp

lemma idle_reads: "keeps idle getNow" "keeps idle (dated f x)" "keeps idle (whole q)" "keeps idle (client_guard ctx d)"
  "keeps idle (resolveSchedule f d)"
  unfolding getNow_def dated_def whole_def client_guard_def resolveSchedule_def Let_def
  by (intro idling.keeps_intros)+

lemma idle_update_row: "keeps idle (update_row i f)"
  unfolding update_row_def by (intro keeps_writeE) (simp add: idle_def bystanders_def)

lemma idle_claim: "keeps idle (claimCreatedProperty ctx i)"
  unfolding claimCreatedProperty_def create_assignment_def Let_def
  by (intro idling.keeps_intros idle_newId idle_recordAudit idle_reads keeps_writeE) (simp_all add: idle_def bystanders_def)

lemma made_audit: "made refs s t \<Longrightarrow> recordAudit a t = (r, u) \<Longrightarrow> made refs s u"
  using idleD [OF idle_recordAudit] made_trans [of refs s t "[]" u] by (simp add: made_idle)

lemma create_party_made:
  assumes "create_party ctx a s = (Inr p, t)"
  shows "made (party_ref p) s t"
proof (cases "party_name_of a")
  case None
  then show ?thesis using assms by (auto simp: create_party_def op_ok party_ref_def made_refl)
next
  case (Some name)
  then obtain j u where a: "recordAudit (audit_by ctx ''contact.create'' ''Contact'' (Some (w_next s)))
      (s\<lparr>w_next := Suc (w_next s), w_contacts := w_contacts s @ [party_contact ctx (w_next s) name a]\<rparr>) = (Inr j, t)"
    and p: "p = (Some (w_next s), True)"
    using assms by (auto simp: create_party_def op_ok)
  have "made (party_ref p) s (s\<lparr>w_next := Suc (w_next s), w_contacts := w_contacts s @ [party_contact ctx (w_next s) name a]\<rparr>)"
    using grows_one [of ct_id "party_contact ctx (w_next s) name a" "w_contacts s"]
    by (simp add: p party_ref_def made_def grows_Nil new_ids_def bystanders_def party_contact_def)
  then show ?thesis by (rule made_audit [OF _ a])
qed

lemma auditPartyReuse_made: "auditPartyReuse ctx i s = (Inr y, t) \<Longrightarrow> made [] s t"
  by (auto simp: auditPartyReuse_def op_ok made_idle idle_def bystanders_def)

lemma resolveImportParty_made:
  assumes "resolveImportParty ctx a s = (Inr p, t)"
  shows "made (party_ref p) s t"
  using assms
  by (auto simp: resolveImportParty_def op_ok party_ref_def made_refl split: party_choice.splits if_splits
      dest: auditPartyReuse_made create_party_made)

lemma place_property_made:
  assumes "place_property ctx d owner s = (Inr (ctx', i, refs), t)"
  shows "made refs s t" and "cx_workspaceId ctx' = cx_workspaceId ctx" and "cx_userId ctx' = cx_userId ctx"
proof -
  show ws: "cx_workspaceId ctx' = cx_workspaceId ctx" "cx_userId ctx' = cx_userId ctx"
    using assms by (auto simp: place_property_def op_ok claimCreatedProperty_def Let_def split: option.splits if_splits)
  show "made refs s t"
  proof (cases "known_property ctx d s")
    case (Some p)
    then show ?thesis using assms by (auto simp: place_property_def op_ok made_refl split: if_splits)
  next
    case None
    then obtain beds where r: "refs = [RefProperty (w_next s)]" "whole (id_bedrooms d) s = (Inr beds, s)"
      and c: "(if isDelegateRole (cx_role ctx) then claimCreatedProperty ctx (w_next s) else ret ctx)
        (s\<lparr>w_next := Suc (w_next s), w_properties := w_properties s @ [import_property ctx (w_next s) owner d beds]\<rparr>) = (Inr ctx', t)"
      using assms by (auto simp: place_property_def op_ok whole_def split: option.splits if_splits)
    have "made refs s (s\<lparr>w_next := Suc (w_next s), w_properties := w_properties s @ [import_property ctx (w_next s) owner d beds]\<rparr>)"
      using grows_one [of pr_id "import_property ctx (w_next s) owner d beds" "w_properties s"]
      by (simp add: r made_def grows_Nil new_ids_def bystanders_def import_property_def)
    moreover have "idle (s\<lparr>w_next := Suc (w_next s), w_properties := w_properties s @ [import_property ctx (w_next s) owner d beds]\<rparr>) t"
      using c by (auto simp: op_ok idling.refl split: if_splits intro: idleD [OF idle_claim])
    ultimately show ?thesis using made_trans [of refs s _ "[]" t] by (simp add: made_idle)
  qed
qed

lemma create_lease_made:
  assumes "create_lease f b ctx p l tt d s = (Inr i, t)"
  shows "made [RefTenancy i] s t"
proof -
  obtain x y notice where "i = w_next s"
    and t: "t = s\<lparr>w_next := Suc (w_next s), w_tenancies := w_tenancies s @ [import_tenancy b ctx (w_next s) (w_now s) p l tt d x y notice]\<rparr>"
    using assms by (auto simp: create_lease_def op_ok whole_def dated_def getNow_def split: option.splits if_splits)
  then show ?thesis
    using grows_one [of tn_id "import_tenancy b ctx (w_next s) (w_now s) p l tt d x y notice" "w_tenancies s"]
    by (simp add: made_def grows_Nil new_ids_def bystanders_def import_tenancy_def)
qed

lemma attach_contract_made:
  assumes "attach_contract ctx b i p s = (Inr (refs, mv), t)"
  shows "made refs s t" and "contact_refs refs = [] \<and> property_refs refs = [] \<and> lease_refs refs = [] \<and> payment_refs refs = []"
proof -
  show none: "contact_refs refs = [] \<and> property_refs refs = [] \<and> lease_refs refs = [] \<and> payment_refs refs = []"
    using assms by (auto simp: attach_contract_def op_ok Let_def split: option.splits)
  have "keeps idle (attach_contract ctx b i p)"
    unfolding attach_contract_def set_scope_def Let_def
    by (intro idling.keeps_intros idle_recordAudit keeps_writeE) (simp add: idle_def bystanders_def)
  from idleD [OF this assms] show "made refs s t"
    using none by (auto simp: made_def idle_def grows_Nil new_ids_def)
qed

lemma create_items_made: "create_items f ctx i items s = (Inr refs, t) \<Longrightarrow> made refs s t"
proof (induction items arbitrary: s refs)
  case (Cons item items)
  then obtain due rest where r: "refs = RefPaymentItem (w_next s) # rest"
    and go: "create_items f ctx i items (s\<lparr>w_next := Suc (w_next s), w_payments := w_payments s @ [import_payment ctx (w_next s) i due item]\<rparr>)
        = (Inr rest, t)"
    by (auto simp: op_ok dated_def)
  have "made [RefPaymentItem (w_next s)] s (s\<lparr>w_next := Suc (w_next s), w_payments := w_payments s @ [import_payment ctx (w_next s) i due item]\<rparr>)"
    using grows_one [of pi_id "import_payment ctx (w_next s) i due item" "w_payments s"]
    by (simp add: made_def grows_Nil new_ids_def bystanders_def import_payment_def)
  from made_trans [OF this Cons.IH [OF go]] show ?case by (simp add: r)
qed (simp add: op_ok made_refl)

lemma make_records_made:
  assumes "make_records f b ctx d s = (Inr (ctx', i, refs, mv), t)"
  shows "made refs s t" and "lease_refs refs = [i]" and "cx_workspaceId ctx' = cx_workspaceId ctx"
    and "cx_userId ctx' = cx_userId ctx"
proof -
  obtain landlord tenant p new_property moved schedule items s1 s2 s3 s4 s5 s6 s7 where
    run: "resolveImportParty ctx (landlord_args d) s = (Inr landlord, s1)"
      "resolveImportParty ctx (tenant_args d) s1 = (Inr tenant, s2)"
      "client_guard ctx d s2 = (Inr (), s3)"
      "place_property ctx d (fst landlord) s3 = (Inr (ctx', p, new_property), s4)"
      "create_lease f b ctx' p (fst landlord) (fst tenant) d s4 = (Inr i, s5)"
      "attach_contract ctx' b i p s5 = (Inr (moved, mv), s6)"
      "resolveSchedule f d s6 = (Inr schedule, s7)"
      "create_items f ctx' i schedule s7 = (Inr items, t)"
    and refs: "refs = party_ref landlord @ party_ref tenant @ new_property @ [RefTenancy i] @ moved @ items"
    using assms by (auto simp: make_records_def bindE_ok ret_ok)
  have "made ((((((((party_ref landlord @ party_ref tenant) @ []) @ new_property) @ [RefTenancy i]) @ moved) @ []) @ items)) s t"
    using resolveImportParty_made [OF run(1)] resolveImportParty_made [OF run(2)]
      idleD [OF idle_reads(4) run(3)] place_property_made(1) [OF run(4)] create_lease_made [OF run(5)]
      attach_contract_made(1) [OF run(6)] idleD [OF idle_reads(5) run(7)] create_items_made [OF run(8)]
    unfolding made_idle [symmetric] by (intro made_trans)
  then show "made refs s t" by (simp add: refs)
  have "lease_refs (party_ref x) = []" for x by (auto simp: party_ref_def split: option.splits prod.splits bool.splits)
  moreover have "lease_refs new_property = []"
    using run(4) by (auto simp: place_property_def op_ok split: option.splits if_splits)
  moreover have "lease_refs items = []" if "create_items f ctx' i sch u = (Inr items, v)" for sch u v items
    using that by (induction sch arbitrary: u items) (auto simp: op_ok)
  ultimately show "lease_refs refs = [i]"
    using attach_contract_made(2) [OF run(6)] run(8) by (simp add: refs)
  show "cx_workspaceId ctx' = cx_workspaceId ctx" "cx_userId ctx' = cx_userId ctx"
    using place_property_made(2,3) [OF run(4)] by simp_all
qed

text \<open>What no step of a row but the move of its document touches, and what it does to the rows.\<close>

lemma same_parts:
  assumes "\<And>s n. g (s\<lparr>w_next := n\<rparr>) = g s" "\<And>s n. g (s\<lparr>w_audit := n\<rparr>) = g s" "\<And>s n. g (s\<lparr>w_contacts := n\<rparr>) = g s"
    "\<And>s n. g (s\<lparr>w_properties := n\<rparr>) = g s" "\<And>s n. g (s\<lparr>w_assignments := n\<rparr>) = g s" "\<And>s n. g (s\<lparr>w_tenancies := n\<rparr>) = g s"
    "\<And>s n. g (s\<lparr>w_payments := n\<rparr>) = g s"
  shows "keeps (same g) (resolveImportParty ctx a)" "keeps (same g) (client_guard ctx d)" "keeps (same g) (place_property ctx d owner)"
    "keeps (same g) (create_lease f b ctx p l tt d)" "keeps (same g) (resolveSchedule f d)" "keeps (same g) (create_items f ctx i items)"
proof -
  show "keeps (same g) (resolveImportParty ctx a)"
    unfolding resolveImportParty_def create_party_def auditPartyReuse_def
    by (cases "pg_choice a") (simp_all, (intro frame.keeps_intros frames keeps_same_write assms)+)
  show "keeps (same g) (client_guard ctx d)" "keeps (same g) (resolveSchedule f d)"
    unfolding client_guard_def resolveSchedule_def dated_def by (intro frame.keeps_intros)+
  show "keeps (same g) (place_property ctx d owner)"
    unfolding place_property_def claimCreatedProperty_def create_assignment_def whole_def Let_def
    by (intro frame.keeps_intros frames keeps_same_write assms)
  show "keeps (same g) (create_lease f b ctx p l tt d)"
    unfolding create_lease_def dated_def whole_def
    by (intro frame.keeps_intros frames keeps_same_write assms)
  show "keeps (same g) (create_items f ctx i items)"
    by (induction items) (simp_all add: dated_def, (intro frame.keeps_intros frames keeps_same_write assms; assumption?)+)
qed

lemma same_attach:
  assumes "\<And>s n. g (s\<lparr>w_next := n\<rparr>) = g s" "\<And>s n. g (s\<lparr>w_audit := n\<rparr>) = g s" "\<And>s n. g (s\<lparr>w_documents := n\<rparr>) = g s"
  shows "keeps (same g) (attach_contract ctx b i p)"
  unfolding attach_contract_def set_scope_def Let_def by (intro frame.keeps_intros frames keeps_same_write assms)

definition moved_doc :: "uid \<Rightarrow> uid \<Rightarrow> document list \<Rightarrow> document list" where
  "moved_doc j i docs = upd_where (\<lambda>d. dc_id d = j) (\<lambda>d. d\<lparr>dc_scopeType := S_TENANCY, dc_scopeId := Some i\<rparr>) docs"

definition row_doc :: "import_batch \<Rightarrow> authz_ctx \<Rightarrow> world \<Rightarrow> document option" where
  "row_doc b ctx s = Option.bind (contract_doc b) (\<lambda>j. own_document ctx j s)"

text \<open>The document of the batch moves to the new lease, from a scope that is no other lease.\<close>

definition docs_after :: "import_batch \<Rightarrow> authz_ctx \<Rightarrow> import_ref list \<Rightarrow> world \<Rightarrow> world \<Rightarrow> bool" where
  "docs_after b ctx refs s t \<longleftrightarrow>
     (case row_doc b ctx s of
        None \<Rightarrow> w_documents t = w_documents s \<and> document_refs refs = []
      | Some doc \<Rightarrow>
          document_refs refs = [(dc_id doc, dc_scopeType doc, dc_scopeId doc)] \<and>
          (\<exists>i. w_next s \<le> i \<and> i < w_next t \<and> w_documents t = moved_doc (dc_id doc) i (w_documents s) \<and>
             \<not> (dc_scopeType doc = S_TENANCY \<and> dc_scopeId doc \<noteq> Some i)))"

lemma row_doc_cong: "w_documents s = w_documents t \<Longrightarrow> cx_workspaceId ctx = cx_workspaceId ctx' \<Longrightarrow> row_doc b ctx s = row_doc b ctx' t"
  by (simp add: row_doc_def own_document_def)

lemma attach_contract_docs:
  assumes "attach_contract ctx b i p s = (Inr (refs, mv), t)"
  shows "case row_doc b ctx s of
        None \<Rightarrow> w_documents t = w_documents s \<and> document_refs refs = []
      | Some doc \<Rightarrow> document_refs refs = [(dc_id doc, dc_scopeType doc, dc_scopeId doc)] \<and>
          w_documents t = moved_doc (dc_id doc) i (w_documents s) \<and> \<not> (dc_scopeType doc = S_TENANCY \<and> dc_scopeId doc \<noteq> Some i)"
proof (cases "contract_doc b")
  case None
  then show ?thesis using assms by (auto simp: attach_contract_def op_ok row_doc_def)
next
  case (Some j)
  show ?thesis
  proof (cases "own_document ctx j s")
    case None
    then show ?thesis using assms Some by (auto simp: attach_contract_def op_ok row_doc_def)
  next
    case found: (Some doc)
    then have "dc_id doc = j" by (auto simp: own_document_def find_Some_iff)
    then show ?thesis using assms Some found
      by (auto simp: attach_contract_def op_ok row_doc_def Let_def set_scope_def moved_doc_def attached_elsewhere_def)
  qed
qed

lemma make_records_frame:
  assumes "make_records f b ctx d s = (Inr (ctx', i, refs, mv), t)"
  shows "w_rows t = w_rows s" and "docs_after b ctx refs s t"
proof -
  obtain landlord tenant p new_property moved schedule items s1 s2 s3 s4 s5 s6 s7 where
    run: "resolveImportParty ctx (landlord_args d) s = (Inr landlord, s1)"
      "resolveImportParty ctx (tenant_args d) s1 = (Inr tenant, s2)"
      "client_guard ctx d s2 = (Inr (), s3)"
      "place_property ctx d (fst landlord) s3 = (Inr (ctx', p, new_property), s4)"
      "create_lease f b ctx' p (fst landlord) (fst tenant) d s4 = (Inr i, s5)"
      "attach_contract ctx' b i p s5 = (Inr (moved, mv), s6)"
      "resolveSchedule f d s6 = (Inr schedule, s7)"
      "create_items f ctx' i schedule s7 = (Inr items, t)"
    and refs: "refs = party_ref landlord @ party_ref tenant @ new_property @ [RefTenancy i] @ moved @ items"
    using assms by (auto simp: make_records_def bindE_ok ret_ok)
  note kept = sameD [OF same_parts(1) run(1)] sameD [OF same_parts(1) run(2)] sameD [OF same_parts(2) run(3)]
    sameD [OF same_parts(3) run(4)] sameD [OF same_parts(4) run(5)]
  note later = sameD [OF same_parts(5) run(7)] sameD [OF same_parts(6) run(8)]
  have rows: "w_rows s5 = w_rows s" "w_rows t = w_rows s6" "w_rows s6 = w_rows s5"
    using kept [of w_rows] later [of w_rows] sameD [OF same_attach run(6), of w_rows] by simp_all
  then show "w_rows t = w_rows s" by simp
  have docs: "w_documents s5 = w_documents s" "w_documents t = w_documents s6"
    using kept [of w_documents] later [of w_documents] by simp_all
  have ws: "row_doc b ctx' s5 = row_doc b ctx s"
    using docs place_property_made(2) [OF run(4)] by (intro row_doc_cong)
  have i: "w_next s \<le> i \<and> i < w_next t"
    using make_records_made(1,2) [OF assms] by (auto simp: made_def new_ids_def)
  have "document_refs (party_ref x) = []" for x by (auto simp: party_ref_def split: option.splits prod.splits bool.splits)
  moreover have "document_refs new_property = []"
    using run(4) by (auto simp: place_property_def op_ok split: option.splits if_splits)
  moreover have "document_refs items = []" if "create_items f ctx' i sch u = (Inr items, v)" for sch u v items
    using that by (induction sch arbitrary: u items) (auto simp: op_ok)
  ultimately have "document_refs refs = document_refs moved" using run(8) by (simp add: refs)
  then show "docs_after b ctx refs s t"
    using attach_contract_docs [OF run(6)] i by (auto simp: docs_after_def ws docs split: option.splits)
qed

text \<open>A document that hangs on an older lease stops every further row of the batch.\<close>

lemma make_records_blocked:
  assumes "make_records f b ctx d s = (Inr (ctx', i, refs, mv), t)" and "row_doc b ctx s = Some doc"
    and "dc_scopeType doc = S_TENANCY" "dc_scopeId doc = Some k" "k < w_next s"
  shows False
  using make_records_frame(2) [OF assms(1)] assms(2-) by (auto simp: docs_after_def)

lemma row_doc_moved:
  assumes "row_doc b ctx s = Some doc" and "w_documents t = moved_doc (dc_id doc) i (w_documents s)"
    and "cx_workspaceId ctx' = cx_workspaceId ctx"
  shows "row_doc b ctx' t = Some (doc\<lparr>dc_scopeType := S_TENANCY, dc_scopeId := Some i\<rparr>)"
proof -
  obtain j where j: "contract_doc b = Some j" "own_document ctx j s = Some doc" using assms(1) by (auto simp: row_doc_def bind_eq_Some_conv)
  then have id: "dc_id doc = j" by (auto simp: own_document_def find_Some_iff)
  have "own_document ctx' j t = map_option (\<lambda>r. if dc_id r = j then r\<lparr>dc_scopeType := S_TENANCY, dc_scopeId := Some i\<rparr> else r) (own_document ctx j s)"
    unfolding own_document_def assms(2,3) moved_doc_def id
    by (rule find_upd_where_same) simp
  then show ?thesis by (simp add: row_doc_def j id)
qed

text \<open>The rows after a commit: those it took carry their references.\<close>

definition booked :: "uid set \<Rightarrow> (uid \<Rightarrow> import_ref list) \<Rightarrow> import_row list \<Rightarrow> import_row list" where
  "booked I rf rows = map (\<lambda>x. if ir_id x \<in> I then accepted_row_with (rf (ir_id x)) x else x) rows"

lemma booked_insert:
  "i \<notin> I \<Longrightarrow> booked I rf (upd_where (\<lambda>x. ir_id x = i) (accepted_row_with refs) rows) = booked (insert i I) (rf(i := refs)) rows"
  by (auto simp: booked_def upd_where_def accepted_row_with_def)

lemma commit_row_ok:
  assumes "commit_row f b ctx r s = (Inr (ctx', i, mv), t)"
  obtains refs u where "make_records f b ctx (ir_mapped r) s = (Inr (ctx', i, refs, mv), u)"
    and "t = u\<lparr>w_rows := upd_where (\<lambda>x. ir_id x = ir_id r) (accepted_row_with refs) (w_rows u)\<rparr>"
  using assms by (auto simp: commit_row_def update_row_def op_ok)

lemma docs_after_none: "row_doc b ctx s = None \<Longrightarrow> docs_after b ctx refs s t \<longleftrightarrow> w_documents t = w_documents s \<and> document_refs refs = []"
  by (simp add: docs_after_def)

lemma commit_rows_made:
  assumes "commit_rows f b ctx rs s = (Inr (ids, mv), t)" and "distinct (map ir_id rs)"
  obtains rf where "w_rows t = booked (ir_id ` set rs) rf (w_rows s)"
    and "made (concat (map (\<lambda>r. rf (ir_id r)) rs)) s t" and "lease_refs (concat (map (\<lambda>r. rf (ir_id r)) rs)) = ids"
    and "length ids = length rs"
    and "(rs = [] \<and> w_documents t = w_documents s) \<or> docs_after b ctx (concat (map (\<lambda>r. rf (ir_id r)) rs)) s t"
  using assms
proof (induction rs arbitrary: ctx s ids mv thesis)
  case Nil
  then show ?case by (auto simp: op_ok booked_def made_refl)
next
  case (Cons r rs)
  obtain ctx' i v ids' w s1 where head: "commit_row f b ctx r s = (Inr (ctx', i, v), s1)"
    and tail: "commit_rows f b ctx' rs s1 = (Inr (ids', w), t)" and out: "ids = i # ids'"
    using Cons.prems(2) by (auto simp: op_ok)
  obtain refs u where run: "make_records f b ctx (ir_mapped r) s = (Inr (ctx', i, refs, v), u)"
    and s1: "s1 = u\<lparr>w_rows := upd_where (\<lambda>x. ir_id x = ir_id r) (accepted_row_with refs) (w_rows u)\<rparr>"
    using commit_row_ok [OF head] by blast
  note facts = make_records_made [OF run] make_records_frame [OF run]
  have head_made: "made refs s s1" using facts(1) by (simp add: s1 made_def bystanders_def)
  have head_docs: "docs_after b ctx refs s s1" using facts(6) by (auto simp: s1 docs_after_def split: option.splits)
  have distinct: "distinct (map ir_id rs)" "ir_id r \<notin> ir_id ` set rs" using Cons.prems(3) by auto
  obtain rf where IH: "w_rows t = booked (ir_id ` set rs) rf (w_rows s1)"
    "made (concat (map (\<lambda>r. rf (ir_id r)) rs)) s1 t" "lease_refs (concat (map (\<lambda>r. rf (ir_id r)) rs)) = ids'"
    "length ids' = length rs" "(rs = [] \<and> w_documents t = w_documents s1) \<or> docs_after b ctx' (concat (map (\<lambda>r. rf (ir_id r)) rs)) s1 t"
    using Cons.IH [OF _ tail distinct(1)] by blast
  have other: "\<forall>x \<in> set rs. ir_id x \<noteq> ir_id r" using distinct(2) by (metis image_eqI)
  let ?rf = "rf(ir_id r := refs)" and ?R = "concat (map (\<lambda>r. rf (ir_id r)) rs)"
  have R: "concat (map (\<lambda>x. ?rf (ir_id x)) (r # rs)) = refs @ ?R"
    using other by (simp cong: map_cong)
  have "docs_after b ctx (refs @ ?R) s t"
  proof (cases "rs = []")
    case True
    then show ?thesis using head_docs tail by (simp add: op_ok)
  next
    case False
    show ?thesis
    proof (cases "row_doc b ctx s")
      case None
      with head_docs have "w_documents s1 = w_documents s" "document_refs refs = []" by (simp_all add: docs_after_none)
      moreover have "row_doc b ctx' s1 = None" using None calculation facts(3) row_doc_cong [of s s1 ctx ctx' b] by simp
      ultimately show ?thesis using IH(5) False None by (simp add: docs_after_none)
    next
      case (Some doc)
      then obtain k where k: "k < w_next s1" "w_documents s1 = moved_doc (dc_id doc) k (w_documents s)"
        using head_docs by (auto simp: docs_after_def)
      obtain r' rs' where rs: "rs = r' # rs'" using False by (cases rs) auto
      obtain c j refs' x u' where next_run: "make_records f b ctx' (ir_mapped r') s1 = (Inr (c, j, refs', x), u')"
        using tail by (auto simp: rs bindE_ok commit_row_def)
      have False
        using make_records_blocked [OF next_run row_doc_moved [OF Some k(2) facts(3)]] k(1) by simp
      then show ?thesis ..
    qed
  qed
  moreover have "w_rows t = booked (ir_id ` set (r # rs)) ?rf (w_rows s)"
    using distinct(2) IH(1) facts(5) by (simp add: s1 booked_insert)
  moreover have "made (refs @ ?R) s t" using head_made IH(2) by (rule made_trans)
  moreover have "lease_refs (refs @ ?R) = ids" using facts(2) IH(3) by (simp add: out)
  moreover have "length ids = length (r # rs)" using IH(4) by (simp add: out)
  ultimately show ?case by (intro Cons.prems(1) [of ?rf]) (unfold R, simp_all add: fun_upd_def)
qed

text \<open>The whole transaction.\<close>

lemma commit_records_made:
  assumes "commit_records f ctx b rows s = (Inr ids, t)" and "distinct (map ir_id rows)"
  obtains rf where "w_rows t = booked (ir_id ` {r \<in> set rows. committable r}) rf (w_rows s)"
    and "made (concat (map (\<lambda>r. rf (ir_id r)) (filter committable rows))) s (t\<lparr>w_batches := w_batches s\<rparr>)"
    and "lease_refs (concat (map (\<lambda>r. rf (ir_id r)) (filter committable rows))) = ids"
    and "length ids = length (filter committable rows)"
    and "(filter committable rows = [] \<and> w_documents t = w_documents s) \<or>
      docs_after b ctx (concat (map (\<lambda>r. rf (ir_id r)) (filter committable rows))) s t"
    and "w_batches t = upd_where (\<lambda>x. ib_id x = ib_id b) (\<lambda>x. x\<lparr>ib_status := IM_COMMITTED, ib_committedAt := Some (w_now s),
           ib_reviewerId := Some (cx_userId ctx)\<rparr>) (w_batches s)"
proof -
  obtain mv u v where run: "commit_rows f b ctx (filter committable rows) s = (Inr (ids, mv), u)"
    and v: "v = u\<lparr>w_batches := upd_where (\<lambda>x. ib_id x = ib_id b) (\<lambda>x. x\<lparr>ib_status := IM_COMMITTED, ib_committedAt := Some (w_now u),
           ib_reviewerId := Some (cx_userId ctx)\<rparr>) (w_batches u)\<rparr>"
    and rest: "log_commit ctx b rows mv v = (Inr (), t)"
    using assms(1) by (auto simp: commit_records_def mark_committed_def update_batch_def op_ok)
  have "distinct (map ir_id (filter committable rows))" using assms(2) by (simp add: distinct_map_filter)
  then obtain rf where m: "w_rows u = booked (ir_id ` set (filter committable rows)) rf (w_rows s)"
    "made (concat (map (\<lambda>r. rf (ir_id r)) (filter committable rows))) s u"
    "lease_refs (concat (map (\<lambda>r. rf (ir_id r)) (filter committable rows))) = ids"
    "length ids = length (filter committable rows)"
    "(filter committable rows = [] \<and> w_documents u = w_documents s) \<or>
      docs_after b ctx (concat (map (\<lambda>r. rf (ir_id r)) (filter committable rows))) s u"
    using commit_rows_made [OF run] by blast
  have kept: "g t = g v" if "\<And>s n. g (s\<lparr>w_next := n\<rparr>) = g s" "\<And>s n. g (s\<lparr>w_evidence := n\<rparr>) = g s" "\<And>s n. g (s\<lparr>w_audit := n\<rparr>) = g s" for g :: "world \<Rightarrow> 'z"
  proof -
    have "keeps (same g) (log_commit ctx b rows mv)"
      unfolding log_commit_def by (intro frame.keeps_intros frames that)
    then show ?thesis using rest by (rule sameD)
  qed
  have "keeps (\<lambda>s t. w_next s \<le> w_next t) (log_commit ctx b rows mv)"
    unfolding log_commit_def by (rule keepsI) (auto simp: recordEvidence_def recordAudit_def op_defs newId_def getNow_def Let_def)
  from keepsD [OF this rest] have n: "w_next u \<le> w_next t" by (simp add: v)
  have same: "w_rows t = w_rows u" "w_contacts t = w_contacts u" "w_properties t = w_properties u" "w_tenancies t = w_tenancies u"
    "w_payments t = w_payments u" "w_documents t = w_documents u" "w_batches t = w_batches v"
    "bystanders (t\<lparr>w_batches := w_batches s\<rparr>) = bystanders (u\<lparr>w_batches := w_batches s\<rparr>)"
    using kept [of w_rows] kept [of w_contacts] kept [of w_properties] kept [of w_tenancies] kept [of w_payments]
      kept [of w_documents] kept [of w_batches] kept [of "\<lambda>t. bystanders (t\<lparr>w_batches := w_batches s\<rparr>)"]
    by (simp_all add: v bystanders_def)
  have by_u: "bystanders u = bystanders s" using m(2) by (simp add: made_def)
  then have now: "w_now u = w_now s" "w_batches u = w_batches s" by (simp_all add: bystanders_def)
  show ?thesis
  proof (rule that [of rf])
    show "w_rows t = booked (ir_id ` {r \<in> set rows. committable r}) rf (w_rows s)" using m(1) same by simp
    show "made (concat (map (\<lambda>r. rf (ir_id r)) (filter committable rows))) s (t\<lparr>w_batches := w_batches s\<rparr>)"
      using m(2) n same by_u by (auto simp: made_def bystanders_def)
    show "(filter committable rows = [] \<and> w_documents t = w_documents s) \<or>
        docs_after b ctx (concat (map (\<lambda>r. rf (ir_id r)) (filter committable rows))) s t"
    proof (cases "filter committable rows = [] \<and> w_documents u = w_documents s")
      case False
      then have "docs_after b ctx (concat (map (\<lambda>r. rf (ir_id r)) (filter committable rows))) s u" using m(5) by blast
      then show ?thesis using n same by (fastforce simp: docs_after_def split: option.splits)
    qed (simp add: same)
    show "w_batches t = upd_where (\<lambda>x. ib_id x = ib_id b) (\<lambda>x. x\<lparr>ib_status := IM_COMMITTED, ib_committedAt := Some (w_now s),
           ib_reviewerId := Some (cx_userId ctx)\<rparr>) (w_batches s)" using same by (simp add: v now)
  qed (use m in simp_all)
qed

subsection \<open>What the derivations and a rollback write\<close>

text \<open>The derivations after a commit write no lease below the new ones.\<close>

definition derived :: "uid \<Rightarrow> world \<Rightarrow> world \<Rightarrow> bool" where
  "derived n s t \<longleftrightarrow> list_all2 (\<lambda>x y. tn_id y = tn_id x \<and> (tn_id x < n \<longrightarrow> y = x)) (w_tenancies s) (w_tenancies t)"

interpretation deriving: step_law "derived n" for n
proof unfold_locales
  show "derived n s s" for s by (simp add: derived_def list.rel_refl)
  show "derived n s t \<Longrightarrow> derived n t u \<Longrightarrow> derived n s u" for s t u
    by (auto simp: derived_def list_all2_conv_all_nth)
qed

lemma keeps_read_bind: "(\<And>s. keeps R (g (f s))) \<Longrightarrow> keeps R (bindE (readE f) g)"
  by (simp add: keeps_def bindE_def readE_def)

lemma derived_same: "keeps (same w_tenancies) m \<Longrightarrow> keeps (derived n) m"
  by (auto simp: keeps_def same_def derived_def list.rel_refl)

lemma same_regenerate:
  assumes "\<And>s n. g (s\<lparr>w_next := n\<rparr>) = g s" "\<And>s n. g (s\<lparr>w_deadlines := n\<rparr>) = g s"
  shows "keeps (same g) (upsertDeadline base k c d)" "keeps (same g) (cancelDeadline x)"
    and "(\<And>s n. g (s\<lparr>w_tenancies := n\<rparr>) = g s) \<Longrightarrow> keeps (same g) (regenerateDeadlinesForTenancy i)"
proof -
  show 1: "keeps (same g) (upsertDeadline base k c d)" "keeps (same g) (cancelDeadline x)" for base k c d x
    unfolding upsertDeadline_def cancelDeadline_def by (intro frame.keeps_intros frames keeps_same_write assms)+
  show "(\<And>s n. g (s\<lparr>w_tenancies := n\<rparr>) = g s) \<Longrightarrow> keeps (same g) (regenerateDeadlinesForTenancy i)"
    unfolding regenerateDeadlinesForTenancy_def by (intro frame.keeps_intros 1 keeps_same_write assms)
qed

lemma derived_regenerate:
  assumes "n \<le> i"
  shows "keeps (derived n) (regenerateDeadlinesForTenancy i)"
  unfolding regenerateDeadlinesForTenancy_def
proof (rule keeps_read_bind, goal_cases)
  case (1 s)
  have here: "tn_id t = i" if "List.find (\<lambda>t. tn_id t = i) (w_tenancies s) = Some t" for t using that by (auto simp: find_Some_iff)
  have gate: "keeps (derived n) (writeE (\<lambda>s. s\<lparr>w_tenancies := upd_where (\<lambda>r. tn_id r = i) (\<lambda>r. r\<lparr>tn_noticeGateAt := x\<rparr>) (w_tenancies s)\<rparr>))" for x
    by (rule keeps_writeE) (use assms in \<open>auto simp: derived_def upd_where_def list_all2_map2 list.rel_refl\<close>)
  have quiet: "keeps (derived n) (upsertDeadline b k c d)" "keeps (derived n) (cancelDeadline x)"
    "keeps (derived n) (writeE (\<lambda>s. s\<lparr>w_deadlines := h s\<rparr>))" for b k c d x h
    by (intro derived_same same_regenerate keeps_same_write; simp)+
  show ?case
  proof (intro keeps_read_bind deriving.keeps_someE_bind, goal_cases)
    case (1 u t)
    then show ?case unfolding here [OF 1] by (intro deriving.keeps_intros quiet gate)
  qed
qed

lemma same_overlap:
  assumes "\<And>s n. g (s\<lparr>w_next := n\<rparr>) = g s" "\<And>s n. g (s\<lparr>w_flags := n\<rparr>) = g s" "\<And>s n. g (s\<lparr>w_evidence := n\<rparr>) = g s"
  shows "keeps (same g) (flag_overlap ctx r)"
  unfolding flag_overlap_def raiseTenancyOverlap_def by (intro frame.keeps_intros frames assms)

lemma same_derivations:
  assumes "\<And>s n. g (s\<lparr>w_next := n\<rparr>) = g s" "\<And>s n. g (s\<lparr>w_flags := n\<rparr>) = g s" "\<And>s n. g (s\<lparr>w_evidence := n\<rparr>) = g s"
    "\<And>s n. g (s\<lparr>w_deadlines := n\<rparr>) = g s" "\<And>s n. g (s\<lparr>w_tenancies := n\<rparr>) = g s"
  shows "keeps (same g) (derivations ctx ids rows)"
  unfolding derivations_def by (intro frame.keeps_intros same_regenerate same_overlap frames assms)

lemma derived_derivations: "\<forall>i \<in> set ids. n \<le> i \<Longrightarrow> keeps (derived n) (derivations ctx ids rows)"
proof -
  assume "\<forall>i \<in> set ids. n \<le> i"
  moreover have "keeps (derived n) (evaluateRiskForTenancy i)" for i by (rule derived_same) (intro frames; simp)
  ultimately have "keeps (derived n) (forE ids (\<lambda>i. thenE (regenerateDeadlinesForTenancy i) (evaluateRiskForTenancy i)))"
    by (induction ids) (auto intro!: deriving.keeps_intros derived_regenerate)
  then show ?thesis
    unfolding derivations_def
  proof (rule deriving.keeps_bindE, goal_cases)
    case 1
    show ?case by (intro deriving.keeps_forE derived_same same_overlap) simp_all
  qed
qed

lemma recordAudit_eval:
  "audit_verb_ok (ai_verb a) \<Longrightarrow>
   recordAudit a s = (Inr (w_next s), s\<lparr>w_next := Suc (w_next s), w_audit := w_audit s @ [audit_row (w_next s) (w_now s) a]\<rparr>)"
  by (subst recordAudit_ok) auto

text \<open>The scope of a document a rollback puts back.\<close>

definition restored :: "authz_ctx \<Rightarrow> document list \<Rightarrow> uid \<times> scopeType \<times> uid option \<Rightarrow> document list" where
  "restored ctx docs = (\<lambda>(i, ty, si).
     if \<exists>d \<in> set docs. dc_id d = i \<and> dc_workspaceId d = cx_workspaceId ctx
     then upd_where (\<lambda>d. dc_id d = i) (\<lambda>d. d\<lparr>dc_scopeType := ty, dc_scopeId := si\<rparr>) docs else docs)"

text \<open>What the references of one batch undo.\<close>

definition undone :: "authz_ctx \<Rightarrow> import_ref list \<Rightarrow> world \<Rightarrow> world \<Rightarrow> bool" where
  "undone ctx refs s t \<longleftrightarrow>
     w_properties t = upd_where (\<lambda>p. pr_id p \<in> set (property_refs refs)) (\<lambda>p. p\<lparr>pr_archivedAt := Some (w_now s)\<rparr>) (w_properties s) \<and>
     w_tenancies t = upd_where (\<lambda>x. tn_id x \<in> set (lease_refs refs))
       (\<lambda>x. x\<lparr>tn_archivedAt := Some (w_now s), tn_status := T_ARCHIVED\<rparr>) (w_tenancies s) \<and>
     w_deadlines t = upd_where (\<lambda>d. dl_tenancyId d \<in> Some ` set (lease_refs refs) \<and> dl_status d = DL_OPEN)
       (\<lambda>d. d\<lparr>dl_status := DL_CANCELLED\<rparr>) (w_deadlines s) \<and>
     w_payments t = upd_where (\<lambda>p. pi_id p \<in> set (payment_refs refs)) (\<lambda>p. p\<lparr>pi_status := P_CANCELLED\<rparr>) (w_payments s) \<and>
     w_documents t = foldl (restored ctx) (w_documents s) (document_refs refs) \<and>
     w_contacts t = w_contacts s \<and> w_rows t = w_rows s \<and> bystanders t = bystanders s"

definition recorded :: "import_ref list \<Rightarrow> world \<Rightarrow> bool" where
  "recorded refs s \<longleftrightarrow> set (property_refs refs) \<subseteq> pr_id ` set (w_properties s) \<and>
     set (lease_refs refs) \<subseteq> tn_id ` set (w_tenancies s) \<and> set (payment_refs refs) \<subseteq> pi_id ` set (w_payments s)"

lemma upd_where_merge:
  assumes "\<And>r. k (f r) = k r" "\<And>r. f (f r) = f r"
  shows "upd_where (\<lambda>r. k r \<in> set ys) f (upd_where (\<lambda>r. k r \<in> set xs) f rows) = upd_where (\<lambda>r. k r \<in> set (xs @ ys)) f rows"
  using assms by (simp add: upd_where_def)

lemma undo_ref_ok:
  assumes "recorded [ref] s"
  shows "\<exists>mv t. undo_ref ctx ref s = (Inr mv, t) \<and> undone ctx [ref] s t"
proof (cases ref)
  case (RefDocumentScope i ty si)
  have "audit_verb_ok (ai_verb (rescope_audit ctx i p))" for p
    by (simp add: rescope_audit_def audit_by_def auditOf_def audit_verb_ok_def verb_char_def)
  note audit = recordAudit_eval [OF this]
  show ?thesis
  proof (cases "own_document ctx i s")
    case None
    then have "\<not> (\<exists>d \<in> set (w_documents s). dc_id d = i \<and> dc_workspaceId d = cx_workspaceId ctx)"
      by (auto simp: own_document_def find_None_iff)
    then show ?thesis
      using RefDocumentScope None
      by (auto simp: undo_ref_def restore_scope_def bindE_apply op_eval undone_def restored_def upd_where_id)
  next
    case (Some d)
    then have "\<exists>d \<in> set (w_documents s). dc_id d = i \<and> dc_workspaceId d = cx_workspaceId ctx"
      by (auto simp: own_document_def find_Some_iff)
    then show ?thesis
      using RefDocumentScope Some
      by (simp add: undo_ref_def restore_scope_def set_scope_def bindE_apply op_eval audit Let_def undone_def restored_def
          upd_where_id bystanders_def)
  qed
qed (use assms in \<open>auto simp: undo_ref_def archive_property_def archive_lease_def cancel_payment_def bindE_apply op_eval
    recorded_def undone_def bystanders_def upd_where_id intro!: arg_cong2 [where f = "\<lambda>p f. upd_where p f _"]\<close>)

lemma image_upd_where: "(\<And>r. k (f r) = k r) \<Longrightarrow> k ` set (upd_where p f rows) = k ` set rows"
  by (metis map_upd_where set_map)

lemma recorded_kept: "undone ctx refs s t \<Longrightarrow> recorded extra s \<Longrightarrow> recorded extra t"
  by (simp add: undone_def recorded_def image_upd_where)

lemma undone_append:
  assumes "undone ctx refs s t" and "undone ctx extra t u"
  shows "undone ctx (refs @ extra) s u"
proof -
  have "w_now t = w_now s" using assms(1) by (simp add: undone_def bystanders_def)
  moreover have "upd_where (\<lambda>d. dl_tenancyId d \<in> Some ` set ys \<and> dl_status d = DL_OPEN) (\<lambda>d. d\<lparr>dl_status := DL_CANCELLED\<rparr>)
      (upd_where (\<lambda>d. dl_tenancyId d \<in> Some ` set xs \<and> dl_status d = DL_OPEN) (\<lambda>d. d\<lparr>dl_status := DL_CANCELLED\<rparr>) rows)
     = upd_where (\<lambda>d. dl_tenancyId d \<in> Some ` set (xs @ ys) \<and> dl_status d = DL_OPEN) (\<lambda>d. d\<lparr>dl_status := DL_CANCELLED\<rparr>) rows" for xs ys rows
    by (auto simp: upd_where_def)
  ultimately show ?thesis
    using assms unfolding undone_def by (simp add: upd_where_merge)
qed

lemma undo_refs_ok: "recorded refs s \<Longrightarrow> \<exists>mv t. undo_refs ctx refs s = (Inr mv, t) \<and> undone ctx refs s t"
proof (induction refs arbitrary: s)
  case Nil
  show ?case by (simp add: op_eval undone_def upd_where_id)
next
  case (Cons ref refs)
  then have r: "recorded [ref] s" "recorded refs s" by (auto simp: recorded_def)
  obtain mv t where 1: "undo_ref ctx ref s = (Inr mv, t)" "undone ctx [ref] s t" using undo_ref_ok [OF r(1)] by blast
  obtain mv' u where 2: "undo_refs ctx refs t = (Inr mv', u)" "undone ctx refs t u"
    using Cons.IH [OF recorded_kept [OF 1(2) r(2)]] by blast
  show ?case using undone_append [OF 1(2) 2(2)] by (simp add: bindE_apply 1 2 op_eval)
qed

lemma undo_contacts_ok:
  assumes "\<forall>i \<in> set ids. findContactReferences (cx_workspaceId ctx) i s = [] \<and> i \<in> ct_id ` set (w_contacts s)"
  shows "undo_contacts ctx ids s =
    (Inr [], s\<lparr>w_contacts := upd_where (\<lambda>c. ct_id c \<in> set ids) (\<lambda>c. c\<lparr>ct_archivedAt := Some (w_now s)\<rparr>) (w_contacts s)\<rparr>)"
  using assms
proof (induction ids arbitrary: s)
  case (Cons i ids)
  let ?s = "s\<lparr>w_contacts := upd_where (\<lambda>c. ct_id c = i) (\<lambda>c. c\<lparr>ct_archivedAt := Some (w_now s)\<rparr>) (w_contacts s)\<rparr>"
  have "\<forall>j \<in> set ids. findContactReferences (cx_workspaceId ctx) j ?s = [] \<and> j \<in> ct_id ` set (w_contacts ?s)"
    using Cons.prems by (simp add: findContactReferences_def image_upd_where)
  from Cons.IH [OF this] have "undo_contacts ctx ids ?s = (Inr [], ?s\<lparr>w_contacts := upd_where (\<lambda>c. ct_id c \<in> set ids)
      (\<lambda>c. c\<lparr>ct_archivedAt := Some (w_now s)\<rparr>) (w_contacts ?s)\<rparr>)" by simp
  moreover have "upd_where (\<lambda>c. ct_id c \<in> set ids) (\<lambda>c. c\<lparr>ct_archivedAt := Some (w_now s)\<rparr>) (w_contacts ?s) =
      upd_where (\<lambda>c. ct_id c \<in> set (i # ids)) (\<lambda>c. c\<lparr>ct_archivedAt := Some (w_now s)\<rparr>) (w_contacts s)"
    by (auto simp: upd_where_def)
  ultimately show ?case using Cons.prems by (auto simp: bindE_apply op_eval getNow_eval)
qed (simp add: op_eval upd_where_id)

subsection \<open>A commit and its rollback\<close>

definition below :: "uid \<Rightarrow> uid option \<Rightarrow> bool" where
  "below n x \<longleftrightarrow> (case x of None \<Rightarrow> True | Some i \<Rightarrow> i < n)"

text \<open>
  What the database guarantees: ids are primary keys, a new id is fresh, and a column that holds
  a contact holds one of those there are. And what no other operation breaks: a row that was not
  committed has no references.
\<close>

definition import_ready :: "uid \<Rightarrow> world \<Rightarrow> bool" where
  "import_ready batchId s \<longleftrightarrow>
     distinct (map ir_id (w_rows s)) \<and> distinct (map dc_id (w_documents s)) \<and>
     (\<forall>r \<in> set (batch_rows batchId s). \<not> committable r \<longrightarrow> ir_refs r = []) \<and>
     (\<forall>c \<in> set (w_contacts s). ct_id c < w_next s) \<and>
     (\<forall>p \<in> set (w_properties s). pr_id p < w_next s \<and> below (w_next s) (pr_ownerContactId p)) \<and>
     (\<forall>t \<in> set (w_tenancies s). tn_id t < w_next s \<and> below (w_next s) (tn_landlordContactId t) \<and> below (w_next s) (tn_tenantContactId t)) \<and>
     (\<forall>p \<in> set (w_payments s). pi_id p < w_next s) \<and>
     (\<forall>m \<in> set (w_memberships s). below (w_next s) (mb_subjectContactId m)) \<and>
     (\<forall>v \<in> set (w_invites s). below (w_next s) (iv_subjectContactId v)) \<and>
     (\<forall>r \<in> set (w_proofs s). pf_assignedContactId r < w_next s) \<and>
     (\<forall>a \<in> set (w_approvals s). below (w_next s) (ap_requestedOfContactId a)) \<and>
     (\<forall>m \<in> set (w_messages s). below (w_next s) (nm_toContactId m)) \<and>
     (\<forall>f \<in> set (w_offers s). below (w_next s) (of_prospectContactId f))"

text \<open>The outcome of a commit: an error that changed nothing, or the transaction and the derivations.\<close>

lemma commit_cases:
  assumes "commitImportBatch f ctx batchId s = (r, t)"
  obtains (refused) e where "r = Inl e" "t = s"
  | (committed) b ids s1 y where "hasCapability ctx ''imports.manage''" "own_batch ctx batchId s = (Inr b, s)"
      "commit_records f ctx b (batch_rows batchId s) s = (Inr ids, s1)"
      "derivations ctx ids (batch_rows batchId s) s1 = (y, t)" "y = Inr () \<or> (\<exists>e. r = Inl e)"
proof -
  let ?rows = "batch_rows batchId s"
  have own: "snd (own_batch ctx batchId s) = s"
    by (auto simp: own_batch_def bindE_apply op_eval someE_def split: sum.splits option.splits)
  obtain o1 where o1: "own_batch ctx batchId s = (o1, s)" using own by (metis prod.collapse)
  show thesis
  proof (cases "hasCapability ctx ''imports.manage'' \<and> (\<exists>b. o1 = Inr b \<and> ib_status b \<noteq> IM_COMMITTED \<and> ib_status b \<noteq> IM_ROLLED_BACK)")
    case False
    then have "(\<exists>e. r = Inl e) \<and> t = s"
      using assms o1 by
        (auto simp: commitImportBatch_def requireCap_def bindE_apply op_eval assertE_eval split: sum.splits if_splits)
    then show thesis using refused by blast
  next
    case True
    then obtain b where b: "o1 = Inr b" "ib_status b \<noteq> IM_COMMITTED" "ib_status b \<noteq> IM_ROLLED_BACK" and cap: "hasCapability ctx ''imports.manage''"
      by blast
    obtain c s1 where c: "commit_records f ctx b ?rows s = (c, s1)" by (cases "commit_records f ctx b ?rows s")
    note step = assms [unfolded commitImportBatch_def requireCap_def bindE_apply]
    show thesis
    proof (cases c)
      case (Inl e)
      then have "r = Inl e \<and> t = s"
        using step o1 b c cap by (auto simp: op_eval transaction_def)
      then show thesis using refused by blast
    next
      case (Inr ids)
      obtain y u where y: "derivations ctx ids ?rows s1 = (y, u)" by (cases "derivations ctx ids ?rows s1")
      have d: "bindE (derivations ctx ids ?rows) (\<lambda>_. readE (\<lambda>s. (find_batch batchId s, batch_rows batchId s))) s1 = (r, t)"
        using step o1 b c cap Inr
        by (auto simp: op_eval transaction_def bindE_apply split: sum.splits prod.splits)
      then have "t = u" "y = Inr () \<or> (\<exists>e. r = Inl e)" using y by (cases y; auto simp: bindE_apply op_eval)+
      then show thesis using committed [OF cap] o1 b(1) c Inr y by simp
    qed
  qed
qed

lemma booked_refs:
  "\<forall>x \<in> set xs. (ir_id x \<in> I \<longleftrightarrow> committable x) \<and> (\<not> committable x \<longrightarrow> ir_refs x = []) \<Longrightarrow>
   concat (map ir_refs (booked I rf xs)) = concat (map (\<lambda>r. rf (ir_id r)) (filter committable xs))"
  by (induction xs) (auto simp: booked_def accepted_row_with_def)

lemma batch_rows_booked: "w_rows t = booked I rf (w_rows s) \<Longrightarrow> batch_rows i t = booked I rf (batch_rows i s)"
  by (auto simp: batch_rows_def booked_def filter_map o_def accepted_row_with_def intro!: map_cong filter_cong)

lemma committable_ids:
  assumes "distinct (map ir_id (w_rows s))" "x \<in> set (batch_rows i s)"
  shows "ir_id x \<in> ir_id ` {r \<in> set (batch_rows i s). committable r} \<longleftrightarrow> committable x"
  using assms by (auto simp: batch_rows_def distinct_map dest: inj_onD)

text \<open>What a commit that passed its transaction leaves behind.\<close>

lemma commit_effect:
  assumes ready: "import_ready batchId s" and own: "own_batch ctx batchId s = (Inr b, s)"
    and run: "commit_records f ctx b (batch_rows batchId s) s = (Inr ids, s1)"
    and post: "derivations ctx ids (batch_rows batchId s) s1 = (y, t)"
  obtains refs new where "concat (map ir_refs (batch_rows batchId t)) = refs"
    and "lease_refs refs = ids" "length ids = length (filter committable (batch_rows batchId s))"
    and "grows ct_id (contact_refs refs) (w_contacts s) (w_contacts t)"
    and "grows pr_id (property_refs refs) (w_properties s) (w_properties t)"
    and "w_tenancies t = w_tenancies s @ new" "map tn_id new = ids"
    and "grows pi_id (payment_refs refs) (w_payments s) (w_payments t)"
    and "\<forall>i \<in> new_ids refs. w_next s \<le> i"
    and "(refs = [] \<and> w_documents t = w_documents s) \<or>
      (\<exists>doc i. row_doc b ctx s = Some doc \<and> document_refs refs = [(dc_id doc, dc_scopeType doc, dc_scopeId doc)] \<and>
         w_documents t = moved_doc (dc_id doc) i (w_documents s)) \<or>
      (document_refs refs = [] \<and> w_documents t = w_documents s)"
    and "w_batches t = upd_where (\<lambda>x. ib_id x = ib_id b) (\<lambda>x. x\<lparr>ib_status := IM_COMMITTED, ib_committedAt := Some (w_now s),
           ib_reviewerId := Some (cx_userId ctx)\<rparr>) (w_batches s)"
    and "\<forall>r \<in> set (batch_rows batchId t). committable r \<longrightarrow> ir_status r = ROW_ACCEPTED"
    and "bystanders (t\<lparr>w_batches := w_batches s\<rparr>) = bystanders s"
proof -
  let ?rows = "batch_rows batchId s"
  have rid: "distinct (map ir_id (w_rows s))" and norefs: "\<forall>r \<in> set ?rows. \<not> committable r \<longrightarrow> ir_refs r = []"
    using ready by (simp_all add: import_ready_def)
  have "distinct (map ir_id ?rows)" using rid by (simp add: batch_rows_def distinct_map_filter)
  then obtain rf where m: "w_rows s1 = booked (ir_id ` {r \<in> set ?rows. committable r}) rf (w_rows s)"
    "made (concat (map (\<lambda>r. rf (ir_id r)) (filter committable ?rows))) s (s1\<lparr>w_batches := w_batches s\<rparr>)"
    "lease_refs (concat (map (\<lambda>r. rf (ir_id r)) (filter committable ?rows))) = ids"
    "length ids = length (filter committable ?rows)"
    "(filter committable ?rows = [] \<and> w_documents s1 = w_documents s) \<or>
      docs_after b ctx (concat (map (\<lambda>r. rf (ir_id r)) (filter committable ?rows))) s s1"
    "w_batches s1 = upd_where (\<lambda>x. ib_id x = ib_id b) (\<lambda>x. x\<lparr>ib_status := IM_COMMITTED, ib_committedAt := Some (w_now s),
           ib_reviewerId := Some (cx_userId ctx)\<rparr>) (w_batches s)"
    using commit_records_made [OF run] by blast
  let ?R = "concat (map (\<lambda>r. rf (ir_id r)) (filter committable ?rows))"
  have kept: "g t = g s1" if "\<And>s n. g (s\<lparr>w_next := n\<rparr>) = g s" "\<And>s n. g (s\<lparr>w_flags := n\<rparr>) = g s"
      "\<And>s n. g (s\<lparr>w_evidence := n\<rparr>) = g s" "\<And>s n. g (s\<lparr>w_deadlines := n\<rparr>) = g s" "\<And>s n. g (s\<lparr>w_tenancies := n\<rparr>) = g s"
    for g :: "world \<Rightarrow> 'z" using same_derivations [OF that] post by (rule sameD)
  have same: "w_rows t = w_rows s1" "w_contacts t = w_contacts s1" "w_properties t = w_properties s1" "w_payments t = w_payments s1"
    "w_documents t = w_documents s1" "w_batches t = w_batches s1"
    "bystanders (t\<lparr>w_batches := w_batches s\<rparr>) = bystanders (s1\<lparr>w_batches := w_batches s\<rparr>)"
    using kept [of w_rows] kept [of w_contacts] kept [of w_properties] kept [of w_payments] kept [of w_documents]
      kept [of w_batches] kept [of "\<lambda>t. bystanders (t\<lparr>w_batches := w_batches s\<rparr>)"] by (simp_all add: bystanders_def)
  have rows: "batch_rows batchId t = booked (ir_id ` {r \<in> set ?rows. committable r}) rf ?rows"
    using m(1) same(1) by (intro batch_rows_booked) simp
  have refs: "concat (map ir_refs (batch_rows batchId t)) = ?R"
    unfolding rows by (rule booked_refs) (use committable_ids [OF rid] norefs in auto)
  have fresh: "\<forall>i \<in> new_ids ?R. w_next s \<le> i" using m(2) by (auto simp: made_def)
  then have ids: "\<forall>i \<in> set ids. w_next s \<le> i" using m(3) by (auto simp: new_ids_def)
  obtain zs where zs: "w_tenancies s1 = w_tenancies s @ zs" "map tn_id zs = ids" using m(2,3) by (auto simp: made_def grows_def)
  have "derived (w_next s) s1 t" using derived_derivations [OF ids] post by (rule keepsD)
  then obtain old new where new: "w_tenancies t = old @ new" "list_all2 (\<lambda>x y. tn_id y = tn_id x \<and> (tn_id x < w_next s \<longrightarrow> y = x)) (w_tenancies s) old"
      "list_all2 (\<lambda>x y. tn_id y = tn_id x \<and> (tn_id x < w_next s \<longrightarrow> y = x)) zs new"
    by (auto simp: derived_def zs list_all2_append1)
  have "old = w_tenancies s"
    using new(2) ready by (auto simp: import_ready_def list_all2_conv_all_nth intro!: nth_equalityI)
  moreover have "map tn_id new = ids"
    using new(3) by (auto simp: zs(2) [symmetric] list_all2_conv_all_nth intro!: nth_equalityI)
  moreover have "\<forall>r \<in> set (batch_rows batchId t). committable r \<longrightarrow> ir_status r = ROW_ACCEPTED"
    unfolding rows using committable_ids [OF rid] by (auto simp: booked_def accepted_row_with_def)
  moreover have "(?R = [] \<and> w_documents t = w_documents s) \<or>
      (\<exists>doc i. row_doc b ctx s = Some doc \<and> document_refs ?R = [(dc_id doc, dc_scopeType doc, dc_scopeId doc)] \<and>
         w_documents t = moved_doc (dc_id doc) i (w_documents s)) \<or>
      (document_refs ?R = [] \<and> w_documents t = w_documents s)"
    using m(5) by (auto simp: same docs_after_def split: option.splits)
  moreover have "bystanders (t\<lparr>w_batches := w_batches s\<rparr>) = bystanders s" using m(2) same by (simp add: made_def)
  ultimately show ?thesis
    using m(2) same fresh by (intro that [OF refs m(3,4) _ _ _ _ _ fresh]) (simp_all add: made_def new m(6))
qed

lemma live_old:
  assumes "grows key ids xs ys" and "\<forall>i \<in> set ids. n \<le> i" and "\<forall>x \<in> set xs. key x < n"
    and "\<And>r. \<not> live (f r)"
  shows "filter live (upd_where (\<lambda>r. key r \<in> set ids) f ys) = filter live xs"
proof -
  obtain zs where zs: "ys = xs @ zs" "map key zs = ids" using assms(1) by (auto simp: grows_def)
  have "upd_where (\<lambda>r. key r \<in> set ids) f xs = xs" using assms(2,3) by (intro upd_where_id) force
  moreover have "filter live (upd_where (\<lambda>r. key r \<in> set ids) f zs) = []"
    using assms(4) by (auto simp: filter_empty_conv set_upd_where zs(2) [symmetric])
  ultimately show ?thesis by (simp add: zs(1))
qed

lemma restored_moved:
  assumes "distinct (map dc_id docs)" "doc \<in> set docs" "dc_workspaceId doc = cx_workspaceId ctx"
  shows "restored ctx (moved_doc (dc_id doc) i docs) (dc_id doc, dc_scopeType doc, dc_scopeId doc) = docs"
proof -
  have "doc\<lparr>dc_scopeType := S_TENANCY, dc_scopeId := Some i\<rparr> \<in> set (moved_doc (dc_id doc) i docs)"
    using assms(2) by (auto simp: moved_doc_def set_upd_where image_iff intro: bexI [of _ doc])
  then have "\<exists>d \<in> set (moved_doc (dc_id doc) i docs). dc_id d = dc_id doc \<and> dc_workspaceId d = cx_workspaceId ctx"
    by (rule rev_bexI) (simp add: assms(3))
  moreover have "x\<lparr>dc_scopeType := dc_scopeType doc, dc_scopeId := dc_scopeId doc\<rparr> = x"
    if "x \<in> set docs" "dc_id x = dc_id doc" for x
  proof -
    have "x = doc" using assms(1,2) that by (auto simp: distinct_map dest: inj_onD)
    then show ?thesis by simp
  qed
  ultimately show ?thesis by (auto simp: restored_def moved_doc_def upd_where_def intro!: map_idI)
qed

definition live_contacts :: "world \<Rightarrow> contact list" where
  "live_contacts s = filter (\<lambda>c. ct_archivedAt c = None) (w_contacts s)"

definition live_properties :: "world \<Rightarrow> property list" where
  "live_properties s = filter (\<lambda>p. pr_archivedAt p = None) (w_properties s)"

definition live_leases :: "world \<Rightarrow> tenancy list" where
  "live_leases s = filter (\<lambda>t. tn_archivedAt t = None) (w_tenancies s)"

definition live_payments :: "world \<Rightarrow> payment_item list" where
  "live_payments s = filter (\<lambda>p. pi_status p \<noteq> P_CANCELLED) (w_payments s)"

text \<open>The records a batch created are referred to by nothing but each other.\<close>

lemma unreferenced:
  assumes ready: "import_ready batchId s" and n: "w_next s \<le> i"
    and p: "\<forall>p \<in> set (w_properties u). pr_archivedAt p = None \<longrightarrow> p \<in> set (w_properties s)"
    and t: "\<forall>t \<in> set (w_tenancies u). tn_archivedAt t = None \<longrightarrow> t \<in> set (w_tenancies s)"
    and same: "bystanders (u\<lparr>w_batches := b, w_now := now\<rparr>) = bystanders (s\<lparr>w_batches := b, w_now := now\<rparr>)"
  shows "findContactReferences ws i u = []"
proof -
  have low: "\<not> below (w_next s) (Some i)" "\<not> i < w_next s" using n by (simp_all add: below_def)
  have eq: "w_memberships u = w_memberships s" "w_invites u = w_invites s" "w_proofs u = w_proofs s" "w_approvals u = w_approvals s"
    "w_messages u = w_messages s" "w_offers u = w_offers s" using same by (simp_all add: bystanders_def)
  note wf = ready [unfolded import_ready_def]
  have "\<not> (\<exists>m \<in> set (w_memberships u). mb_workspaceId m = ws \<and> mb_subjectContactId m = Some i)"
    using wf low unfolding eq by metis
  moreover have "\<not> (\<exists>v \<in> set (w_invites u). iv_workspaceId v = ws \<and> iv_subjectContactId v = Some i)"
    using wf low unfolding eq by metis
  moreover have "\<not> (\<exists>r \<in> set (w_proofs u). pf_workspaceId r = ws \<and> pf_assignedContactId r = i)"
    using wf low unfolding eq by metis
  moreover have "\<not> (\<exists>a \<in> set (w_approvals u). ap_workspaceId a = ws \<and> ap_requestedOfContactId a = Some i)"
    using wf low unfolding eq by metis
  moreover have "\<not> (\<exists>m \<in> set (w_messages u). nm_workspaceId m = ws \<and> nm_toContactId m = Some i)"
    using wf low unfolding eq by metis
  moreover have "\<not> (\<exists>f \<in> set (w_offers u). of_workspaceId f = ws \<and> of_prospectContactId f = Some i)"
    using wf low unfolding eq by metis
  moreover have "\<not> (\<exists>p \<in> set (w_properties u). pr_workspaceId p = ws \<and> pr_archivedAt p = None \<and> pr_ownerContactId p = Some i)"
    using wf low p by metis
  moreover have "\<not> (\<exists>t \<in> set (w_tenancies u). tn_workspaceId t = ws \<and> tn_archivedAt t = None \<and>
      (tn_landlordContactId t = Some i \<or> tn_tenantContactId t = Some i))"
    using wf low t by metis
  ultimately show ?thesis unfolding findContactReferences_def by (simp only: if_False concat.simps append_Nil)
qed

lemma own_batchD:
  assumes "own_batch ctx i s = (Inr b, s)"
  shows "find_batch i s = Some b" and "ib_id b = i" and "assertSameWorkspace ctx (Some (ib_workspaceId b)) = Inr ()"
proof -
  show found: "find_batch i s = Some b" using assms by (auto simp: own_batch_def op_ok someE_def split: option.splits)
  then show "ib_id b = i" by (auto simp: find_batch_def find_Some_iff)
  show "assertSameWorkspace ctx (Some (ib_workspaceId b)) = Inr ()" using assms found by (auto simp: own_batch_def op_ok)
qed

lemma grows_ids: "grows key ids xs ys \<Longrightarrow> set ids \<subseteq> key ` set ys"
  unfolding grows_def by (metis Un_upper2 image_Un set_append set_map)

lemma own_batchI:
  "find_batch i s = Some b \<Longrightarrow> assertSameWorkspace ctx (Some (ib_workspaceId b)) = Inr () \<Longrightarrow> own_batch ctx i s = (Inr b, s)"
  by (simp add: own_batch_def bindE_apply op_eval)

lemma row_doc_own: "row_doc b ctx s = Some doc \<Longrightarrow> doc \<in> set (w_documents s) \<and> dc_workspaceId doc = cx_workspaceId ctx"
  by (auto simp: row_doc_def own_document_def find_Some_iff bind_eq_Some_conv)





subsection \<open>An import of one row\<close>

definition sample_import :: import_data where
  "sample_import = \<lparr> id_community = ''Downtown'', id_building = None, id_unitNo = None, id_propertyType = None,
     id_bedrooms = None, id_clientPrincipalId = None, id_propertyId = None, id_usage = None, id_plotNo = None,
     id_makaniNo = None, id_dewaPremiseNo = None, id_sizeSqm = None, id_ejariNo = None, id_startDate = ''1 Jan 2026'',
     id_endDate = ''31 Dec 2026'', id_annualRent = 0, id_depositAmount = None, id_noticePeriodDays = None,
     id_paymentTermsNote = None, id_landlordContactId = PC_unset, id_tenantContactId = PC_unset, id_landlordName = None,
     id_tenantName = Some ''Aisha'', id_landlord = None, id_tenant = None, id_chequeCount = None, id_paymentItems = [] \<rparr>"

definition sample_batch :: import_batch where
  "sample_batch = \<lparr> ib_id = 700, ib_workspaceId = 5, ib_source = SRC_EXCEL, ib_fileDocId = None, ib_status = IM_MAPPED,
     ib_reviewerId = None, ib_committedAt = None, ib_rolledBackAt = None, ib_createdAt = 0 \<rparr>"

definition sample_row :: import_row where
  "sample_row = \<lparr> ir_id = 701, ir_workspaceId = 5, ir_batchId = 700, ir_raw = JNull, ir_mapped = sample_import,
     ir_status = ROW_PENDING, ir_conflictReason = None, ir_refs = [] \<rparr>"

definition import_sample :: world where
  "import_sample = sample_world\<lparr>w_batches := [sample_batch], w_rows := [sample_row]\<rparr>"

definition written_dates :: "string \<Rightarrow> time option" where
  "written_dates x = (if x = ''1 Jan 2026'' then Some 1767225600000 else Some 1798675200000)"

lemma sample_ready: "import_ready 700 import_sample"
  by (simp add: import_ready_def import_sample_def sample_row_def batch_rows_def committable_def sample_defs below_def)

lemma sample_names: "party_name_of (tenant_args sample_import) = Some ''Aisha''" "party_name_of (landlord_args sample_import) = None"
  by code_simp+

lemma sample_dates: "js_date written_dates ''1 Jan 2026'' = Some 1767225600000" "js_date written_dates ''31 Dec 2026'' = Some 1798675200000"
  by (simp_all add: js_date_def iso_form_def written_dates_def split: prod.splits)

lemma sample_batch_rows: "batch_rows 700 import_sample = [sample_row]"
  by (simp add: batch_rows_def import_sample_def sample_row_def)

lemma sample_parties:
  "resolveImportParty (sample_ctx MANAGER) (landlord_args sample_import) import_sample = (Inr (None, False), import_sample)"
  "\<exists>i s. resolveImportParty (sample_ctx MANAGER) (tenant_args sample_import) import_sample = (Inr (Some 1000, True), s) \<and>
     s = import_sample\<lparr>w_next := 1002, w_contacts := [party_contact (sample_ctx MANAGER) 1000 ''Aisha'' (tenant_args sample_import)],
        w_audit := [audit_row 1001 0 (audit_by (sample_ctx MANAGER) ''contact.create'' ''Contact'' (Some 1000))]\<rparr>"
proof -
  have verb: "audit_verb_ok (ai_verb (audit_by ctx ''contact.create'' ''Contact'' i))" for ctx i
    by (simp add: audit_by_def auditOf_def audit_verb_ok_def verb_char_def)
  have none: "by_emirates ctx (landlord_args sample_import) s = []" "by_emirates ctx (tenant_args sample_import) s = []"
    "by_name ctx a import_sample = []" "pg_choice (landlord_args sample_import) = PC_unset"
    "pg_choice (tenant_args sample_import) = PC_unset" for ctx s a
    by (simp_all add: by_emirates_def party_field_def landlord_args_def tenant_args_def sample_import_def trimmed_def
        by_name_def import_sample_def sample_defs split: option.splits)
  show "resolveImportParty (sample_ctx MANAGER) (landlord_args sample_import) import_sample = (Inr (None, False), import_sample)"
    by (simp add: resolveImportParty_def none bindE_apply op_eval create_party_def sample_names)
  show "\<exists>i s. resolveImportParty (sample_ctx MANAGER) (tenant_args sample_import) import_sample = (Inr (Some 1000, True), s) \<and>
     s = import_sample\<lparr>w_next := 1002, w_contacts := [party_contact (sample_ctx MANAGER) 1000 ''Aisha'' (tenant_args sample_import)],
        w_audit := [audit_row 1001 0 (audit_by (sample_ctx MANAGER) ''contact.create'' ''Contact'' (Some 1000))]\<rparr>"
    by (simp add: resolveImportParty_def none bindE_apply op_eval create_party_def sample_names recordAudit_eval [OF verb])
      (simp add: import_sample_def sample_defs)
qed

definition imported_property :: property where
  "imported_property = import_property (sample_ctx MANAGER) 1002 None sample_import None"

definition imported_lease :: tenancy where
  "imported_lease = import_tenancy sample_batch (sample_ctx MANAGER) 1003 0 1002 None (Some 1000) sample_import 1767225600000 1798675200000 None"

definition imported_refs :: "import_ref list" where
  "imported_refs = [RefContact 1000, RefProperty 1002, RefTenancy 1003]"

lemma sample_records:
  "\<exists>s. make_records written_dates sample_batch (sample_ctx MANAGER) sample_import import_sample =
      (Inr (sample_ctx MANAGER, 1003, imported_refs, []), s) \<and>
     w_tenancies s = [sample_tenancy, imported_lease] \<and> w_rows s = [sample_row] \<and> w_batches s = [sample_batch] \<and>
     w_deadlines s = [] \<and> w_next s = 1004"
proof -
  obtain s where s: "resolveImportParty (sample_ctx MANAGER) (tenant_args sample_import) import_sample = (Inr (Some 1000, True), s)"
    "w_next s = 1002" "w_properties s = [sample_property]" "w_tenancies s = [sample_tenancy]" "w_rows s = [sample_row]"
    "w_batches s = [sample_batch]" "w_deadlines s = []" "w_now s = 0"
    using sample_parties(2) by (auto simp: import_sample_def sample_defs)
  have role: "isDelegateRole (cx_role (sample_ctx MANAGER)) = False" by (simp add: sample_ctx_def isDelegateRole_def)
  have new: "known_property (sample_ctx MANAGER) sample_import s = None"
    by (simp add: known_property_def or_keep_def same_unit_def s sample_import_def sample_property_def)
  have simple: "id_clientPrincipalId sample_import = None" "id_bedrooms sample_import = None" "id_startDate sample_import = ''1 Jan 2026''"
    "id_endDate sample_import = ''31 Dec 2026''" "id_noticePeriodDays sample_import = None" "id_paymentItems sample_import = []"
    "id_chequeCount sample_import = None" "contract_doc sample_batch = None"
    by (simp_all add: sample_import_def contract_doc_def sample_batch_def)
  show ?thesis
    by (simp add: make_records_def bindE_apply op_eval sample_parties(1) s client_guard_def place_property_def new role simple whole_def
        create_lease_def dated_def sample_dates attach_contract_def resolveSchedule_def party_ref_def
        imported_lease_def imported_refs_def)
qed

lemma sample_commit: "\<exists>x t. commitImportBatch written_dates (sample_ctx MANAGER) 700 import_sample = (Inr x, t)"
proof -
  obtain s where s: "make_records written_dates sample_batch (sample_ctx MANAGER) sample_import import_sample =
      (Inr (sample_ctx MANAGER, 1003, imported_refs, []), s)"
    "w_tenancies s = [sample_tenancy, imported_lease]" "w_deadlines s = []" "w_next s = 1004"
    using sample_records by auto
  have verb: "audit_verb_ok (ai_verb (audit_by ctx ''import.commit'' ''ImportBatch'' i))" for ctx i
    by (simp add: audit_by_def auditOf_def audit_verb_ok_def verb_char_def)
  have fields: "ir_mapped sample_row = sample_import" "committable sample_row" "ir_status sample_row = ROW_PENDING"
    by (simp_all add: sample_row_def committable_def)
  obtain s1 where s1: "commit_records written_dates (sample_ctx MANAGER) sample_batch [sample_row] import_sample = (Inr [1003], s1)"
    "w_tenancies s1 = [sample_tenancy, imported_lease]" "w_deadlines s1 = []"
    by (auto simp: commit_records_def commit_row_def bindE_apply op_eval s fields update_row_def mark_committed_def update_batch_def
        log_commit_def import_evidence_def recordEvidence_eval [OF evidence_by_ok] recordAudit_eval [OF verb])
  have lease: "tn_id imported_lease = 1003" "tn_archivedAt imported_lease = None" "tn_noticePeriodDays imported_lease = 90"
    by (simp_all add: imported_lease_def import_tenancy_def or_else_def)
  have find: "List.find (\<lambda>t. tn_id t = 1003) (w_tenancies s1) = Some imported_lease"
    by (simp add: s1 lease sample_tenancy_def)
  obtain g where "noticeGate (tn_endDate imported_lease) (of_int (tn_noticePeriodDays imported_lease)) = Inr g"
    using isInteger_of_int [of 90] by (auto simp: noticeGate_ok lease)
  then have reg: "regenerateDeadlinesForTenancy 1003 s1 = (Inr (), regenerated imported_lease g s1)"
    by (intro regenerate_live find) (simp_all add: deadlines_ok_def s1 lease)
  obtain v where v: "evaluateRiskForTenancy 1003 (regenerated imported_lease g s1) = (Inr (), v)"
    using outcome_evaluate(1) [of 1003] by (auto simp: never_fails_def)
  have own: "own_batch (sample_ctx MANAGER) 700 import_sample = (Inr sample_batch, import_sample)"
    by (intro own_batchI) (simp_all add: find_batch_def import_sample_def sample_batch_def sample_ctx_def assertSameWorkspace_def
        isDelegateRole_def isPersonaRole_def)
  have cap: "hasCapability (sample_ctx MANAGER) ''imports.manage''" by code_simp
  have "ib_status sample_batch = IM_MAPPED" by (simp add: sample_batch_def)
  then show ?thesis
    by (simp add: commitImportBatch_def requireCap_def bindE_apply op_eval cap own sample_batch_rows transaction_def s1 derivations_def
        reg v fields)
qed



end
