(* ===== verification/Spec2Isabelle.thy ===== *)
theory Spec2Isabelle
  imports Notices Rate_Limit Delivery People Approvals Move_In Market Digests Feed Imports
begin

text \<open>
  A verification development of the server of Seneschal.
\<close>

end
